(* ===== verification/Prelude.thy ===== *)
theory Prelude
  imports Main "HOL-Library.Char_ord" "HOL-Library.List_Lexorder" "HOL-Library.Word"
    "HOL-Library.AList" "HOL-Library.Multiset"
begin

text \<open>
  The shared vocabulary of the development: how Go values are represented, the
  collections of rewrite rules the component theories extend, and the generic
  facts about lists, maps and options they share.

  A Go string is a HOL \<^typ>\<open>string\<close> (a list of bytes, ordered
  lexicographically, which is Go's string comparison).  A Go int is an
  \<^typ>\<open>int\<close> (or a \<^typ>\<open>nat\<close> where it is a length), an uint64 used as a
  version, fence or watermark is a \<^typ>\<open>64 word\<close>.  A time.Time is the number of
  nanoseconds since the zero time, so IsZero is equality with 0.  An operation that
  returns only an error is a function into state and \<^typ>\<open>'e option\<close>; one that
  returns a value and an error yields a sum with the error on the left.
\<close>

named_theorems step_defs "unfolding rules of the operations of a component"
named_theorems inv_intros "preservation lemmas of component invariants"

text \<open>
  A Go map that is only read and written by key is a partial function.  A Go map that the
  code ranges over is an association list, whose order stands for one order in which Go
  may visit it; the theories prove that the results do not depend on that order.
\<close>

type_synonym ('k, 'v) gomap = "('k \<times> 'v) list"

type_synonym time = int
type_synonym duration = int

text \<open>
  A time.Duration is an int64; Time.Sub (and so time.Since) saturates at its bounds.
\<close>

definition max_duration :: duration where
  "max_duration = 9223372036854775807"

definition min_duration :: duration where
  "min_duration = - 9223372036854775808"

definition time_sub :: "time \<Rightarrow> time \<Rightarrow> duration" where
  "time_sub a b = max min_duration (min max_duration (a - b))"

lemma time_sub_less:
  assumes "min_duration < d" "d \<le> max_duration"
  shows "time_sub a b < d \<longleftrightarrow> a - b < d"
  using assms by (auto simp: time_sub_def)

text \<open>Reading a Go map whose absent keys read as the zero value.\<close>

definition mget_or :: "'v \<Rightarrow> ('k \<Rightarrow> 'v option) \<Rightarrow> 'k \<Rightarrow> 'v" where
  "mget_or d m k = (case m k of None \<Rightarrow> d | Some v \<Rightarrow> v)"

lemma mget_or_upd [simp]:
  "mget_or d (m(k \<mapsto> v)) k' = (if k' = k then v else mget_or d m k')"
  by (simp add: mget_or_def)

lemma mget_or_del [simp]:
  "mget_or d (m(k := None)) k' = (if k' = k then d else mget_or d m k')"
  by (simp add: mget_or_def)

lemma mget_or_empty [simp]: "mget_or d (\<lambda>_. None) k = d"
  by (simp add: mget_or_def)

lemma mget_or_Some: "m k = Some v \<Longrightarrow> mget_or d m k = v"
  by (simp add: mget_or_def)

lemma mget_or_None: "m k = None \<Longrightarrow> mget_or d m k = d"
  by (simp add: mget_or_def)

text \<open>Sequences of steps: run a list of operations, keeping the state only.\<close>

primrec run_ops :: "('op \<Rightarrow> 's \<Rightarrow> 's) \<Rightarrow> 'op list \<Rightarrow> 's \<Rightarrow> 's" where
  "run_ops f [] s = s"
| "run_ops f (x # xs) s = run_ops f xs (f x s)"

lemma run_ops_append [simp]: "run_ops f (xs @ ys) s = run_ops f ys (run_ops f xs s)"
  by (induction xs arbitrary: s) auto

lemma run_ops_invariant:
  assumes "I s" "\<And>x t. x \<in> set xs \<Longrightarrow> I t \<Longrightarrow> I (f x t)"
  shows "I (run_ops f xs s)"
  using assms by (induction xs arbitrary: s) auto

lemma distinct_map_filter_remove:
  "distinct (map f xs) \<Longrightarrow> x \<in> set xs \<Longrightarrow> y \<in> set xs \<Longrightarrow> f x = f y \<Longrightarrow> x = y"
  by (induction xs) (auto simp: image_iff)

lemma sorted_wrt_snoc:
  "sorted_wrt P (xs @ [x]) \<longleftrightarrow> sorted_wrt P xs \<and> (\<forall>y \<in> set xs. P y x)"
  by (simp add: sorted_wrt_append)

end
