(* ===== verification/Storage_Memory.thy ===== *)
theory Storage_Memory
  imports Prelude
begin

text \<open>
  The event store (src/internal/storage): the data of store.go and the in-memory
  backend of memory.go, one definition per operation of Memory.  Every method of
  Memory takes its mutex for the whole call, so each operation is one atomic step on
  the record \<open>memory\<close>; interleavings of goroutines are sequences of operations
  (\<open>mem_op\<close>, \<open>mem_step\<close>).
\<close>

section \<open>Errors, claims and events\<close>

datatype store_err = ErrDuplicate | ErrClaimHeld | ErrClaimNotHeld | ErrContentNotFound
  | ErrEmptyPayload

definition KindRunDeleted :: string where
  "KindRunDeleted = ''run_deleted''"

text \<open>
  Claim.AcquiredAt is a string that is either empty (the zero Claim) or the
  RFC3339Nano rendering of a UTC time, which time.Parse inverts.
\<close>

datatype acquired = NoStamp | Stamp time

definition format_stamp :: "time \<Rightarrow> acquired" where
  "format_stamp t = Stamp t"

definition parse_stamp :: "acquired \<Rightarrow> time option" where
  "parse_stamp a = (case a of NoStamp \<Rightarrow> None | Stamp t \<Rightarrow> Some t)"

lemma parse_format_stamp [simp]: "parse_stamp (format_stamp t) = Some t"
  by (simp add: parse_stamp_def format_stamp_def)

record claim =
  c_RunID :: string
  c_Holder :: string
  c_AcquiredAt :: acquired
  c_Fence :: "64 word"

definition zero_claim :: claim where
  "zero_claim = \<lparr>c_RunID = [], c_Holder = [], c_AcquiredAt = NoStamp, c_Fence = 0\<rparr>"

record 'p event =
  ev_ID :: string
  ev_RunID :: string
  ev_Sequence :: int
  ev_Kind :: string
  ev_Payload :: "'p list"
  ev_RowID :: nat

section \<open>The in-memory store\<close>

record 'p memory =
  m_events :: "string \<rightharpoonup> 'p event list"
  m_ids :: "string set"
  m_order :: "string list"
  m_maxSeq :: "string \<rightharpoonup> int"
  m_claims :: "string \<rightharpoonup> claim"
  m_fencedTokens :: "string \<rightharpoonup> string set"
  m_content :: "string \<rightharpoonup> 'p list"

definition NewMemory :: "'p memory" where
  "NewMemory = \<lparr>m_events = (\<lambda>_. None), m_ids = {}, m_order = [], m_maxSeq = (\<lambda>_. None),
     m_claims = (\<lambda>_. None), m_fencedTokens = (\<lambda>_. None), m_content = (\<lambda>_. None)\<rparr>"

abbreviation mem_evs :: "'p memory \<Rightarrow> string \<Rightarrow> 'p event list" where
  "mem_evs m r \<equiv> mget_or [] (m_events m) r"

definition cloneEvent :: "'p event \<Rightarrow> 'p event" where
  "cloneEvent e = e\<lparr>ev_Payload := [] @ ev_Payload e\<rparr>"

definition cloneBytes :: "'p list \<Rightarrow> 'p list" where
  "cloneBytes b = map (\<lambda>i. b ! i) [0..<length b]"

lemma cloneEvent_id [simp]: "cloneEvent e = e"
  by (simp add: cloneEvent_def)

lemma cloneBytes_id [simp]: "cloneBytes b = b"
  by (simp add: cloneBytes_def map_nth)

subsection \<open>Appending events\<close>

definition appendLocked :: "'p event \<Rightarrow> 'p memory \<Rightarrow> 'p memory \<times> store_err option" where
  "appendLocked e m =
     (if ev_ID e \<in> m_ids m then (m, Some ErrDuplicate)
      else if ev_Payload e = [] then (m, Some ErrEmptyPayload)
      else
        (let e' = e\<lparr>ev_RowID := length (m_order m) + 1\<rparr>;
             r = ev_RunID e;
             m1 = m\<lparr>m_events := (m_events m)(r \<mapsto> mem_evs m r @ [cloneEvent e']),
                    m_ids := insert (ev_ID e) (m_ids m),
                    m_order := m_order m @ [r]\<rparr>;
             m2 = (if ev_Sequence e > mget_or 0 (m_maxSeq m) r
                   then m1\<lparr>m_maxSeq := (m_maxSeq m)(r \<mapsto> ev_Sequence e)\<rparr> else m1)
         in (m2, None)))"

definition mem_Append :: "'p event \<Rightarrow> 'p memory \<Rightarrow> 'p memory \<times> store_err option" where
  "mem_Append e m = appendLocked e m"

text \<open>
  The checking loop of appendBatchLocked; \<open>seenSeq\<close> is the nested map of the code
  as a set of run/sequence pairs.
\<close>

fun batch_check :: "'p memory \<Rightarrow> string set \<Rightarrow> (string \<times> int) set \<Rightarrow> 'p event list
    \<Rightarrow> store_err option" where
  "batch_check m seenIDs seenSeq [] = None"
| "batch_check m seenIDs seenSeq (e # es) =
     (if ev_ID e \<in> m_ids m then Some ErrDuplicate
      else if ev_ID e \<in> seenIDs then Some ErrDuplicate
      else if ev_Sequence e \<le> mget_or 0 (m_maxSeq m) (ev_RunID e) then Some ErrDuplicate
      else if (ev_RunID e, ev_Sequence e) \<in> seenSeq then Some ErrDuplicate
      else if ev_Payload e = [] then Some ErrEmptyPayload
      else batch_check m (insert (ev_ID e) seenIDs)
             (insert (ev_RunID e, ev_Sequence e) seenSeq) es)"

fun append_all :: "'p event list \<Rightarrow> 'p memory \<Rightarrow> 'p memory \<times> store_err option" where
  "append_all [] m = (m, None)"
| "append_all (e # es) m =
     (case appendLocked e m of
        (m', Some err) \<Rightarrow> (m', Some err)
      | (m', None) \<Rightarrow> append_all es m')"

definition appendBatchLocked :: "'p event list \<Rightarrow> 'p memory \<Rightarrow> 'p memory \<times> store_err option" where
  "appendBatchLocked es m =
     (case batch_check m {} {} es of
        Some err \<Rightarrow> (m, Some err)
      | None \<Rightarrow> append_all es m)"

definition mem_AppendBatch :: "'p event list \<Rightarrow> 'p memory \<Rightarrow> 'p memory \<times> store_err option" where
  "mem_AppendBatch es m = appendBatchLocked es m"

definition mem_AppendBatchForNewRun ::
    "string \<Rightarrow> 'p event list \<Rightarrow> 'p memory \<Rightarrow> 'p memory \<times> store_err option" where
  "mem_AppendBatchForNewRun runID es m =
     (if list_ex (\<lambda>e. ev_Kind e \<noteq> KindRunDeleted) (mem_evs m runID)
        then (m, Some ErrDuplicate)
      else if m_claims m runID \<noteq> None then (m, Some ErrClaimHeld)
      else appendBatchLocked es m)"

definition mem_AppendClaimed ::
    "'p event \<Rightarrow> string \<Rightarrow> 'p memory \<Rightarrow> 'p memory \<times> store_err option" where
  "mem_AppendClaimed e holder m =
     (case m_claims m (ev_RunID e) of
        Some c \<Rightarrow> if holder = [] \<or> c_Holder c \<noteq> holder then (m, Some ErrClaimHeld)
                  else appendLocked e m
      | None \<Rightarrow> appendLocked e m)"

definition mem_AppendWithExistingClaim ::
    "'p event \<Rightarrow> string \<Rightarrow> 'p memory \<Rightarrow> 'p memory \<times> store_err option" where
  "mem_AppendWithExistingClaim e holder m =
     (case m_claims m (ev_RunID e) of
        None \<Rightarrow> (m, Some ErrClaimHeld)
      | Some c \<Rightarrow> if holder = [] \<or> c_Holder c \<noteq> holder then (m, Some ErrClaimHeld)
                  else appendLocked e m)"

definition mem_AppendClaimedFenced ::
    "'p event \<Rightarrow> claim \<Rightarrow> 'p memory \<Rightarrow> 'p memory \<times> store_err option" where
  "mem_AppendClaimedFenced e c m =
     (case m_claims m (ev_RunID e) of
        None \<Rightarrow> (m, Some ErrClaimHeld)
      | Some current \<Rightarrow>
          if c_Holder current \<noteq> c_Holder c \<or> c_Fence current \<noteq> c_Fence c
          then (m, Some ErrClaimHeld) else appendLocked e m)"

subsection \<open>Reading, deleting and the change probe\<close>

definition mem_Events :: "string \<Rightarrow> 'p memory \<Rightarrow> 'p event list" where
  "mem_Events runID m = map cloneEvent (mem_evs m runID)"

definition mem_EventsSince :: "string \<Rightarrow> int \<Rightarrow> 'p memory \<Rightarrow> 'p event list" where
  "mem_EventsSince runID afterSequence m =
     sort_key ev_Sequence (map cloneEvent (filter (\<lambda>e. ev_Sequence e > afterSequence) (mem_evs m runID)))"

definition deleteRunLocked :: "string \<Rightarrow> int \<Rightarrow> 'p memory \<Rightarrow> 'p memory" where
  "deleteRunLocked runID throughSequence m =
     (let evs = mem_evs m runID;
          dropped = filter (\<lambda>e. ev_Sequence e \<le> throughSequence) evs;
          kept = filter (\<lambda>e. \<not> ev_Sequence e \<le> throughSequence) evs;
          m1 = m\<lparr>m_ids := m_ids m - set (map ev_ID dropped)\<rparr>;
          m2 = (if kept = []
                then m1\<lparr>m_events := (m_events m)(runID := None),
                        m_maxSeq := (m_maxSeq m)(runID := None)\<rparr>
                else m1\<lparr>m_events := (m_events m)(runID \<mapsto> kept),
                        m_maxSeq := (m_maxSeq m)(runID \<mapsto> ev_Sequence (last kept))\<rparr>)
      in m2\<lparr>m_claims := (m_claims m)(runID := None)\<rparr>)"

definition mem_DeleteRun :: "string \<Rightarrow> int \<Rightarrow> 'p memory \<Rightarrow> 'p memory \<times> store_err option" where
  "mem_DeleteRun runID throughSequence m = (deleteRunLocked runID throughSequence m, None)"

definition mem_AppendAndDeleteRun ::
    "'p event \<Rightarrow> claim \<Rightarrow> 'p memory \<Rightarrow> 'p memory \<times> store_err option" where
  "mem_AppendAndDeleteRun tombstone c m =
     (if (case m_claims m (ev_RunID tombstone) of
            None \<Rightarrow> False
          | Some current \<Rightarrow> c_Holder c = [] \<or> c_Holder current \<noteq> c_Holder c \<or>
              (c_Fence c \<noteq> 0 \<and> c_Fence current \<noteq> c_Fence c))
      then (m, Some ErrClaimHeld)
      else (case appendLocked tombstone m of
              (m', Some err) \<Rightarrow> (m', Some err)
            | (m', None) \<Rightarrow>
                (deleteRunLocked (ev_RunID tombstone) (ev_Sequence tombstone - 1) m', None)))"

text \<open>
  The loop of Changes over the tail of the append order: the first occurrence of a run
  inserts it with its highest sequence, later ones are skipped.  The result is a map the
  callers range over, so it is kept as an association list.
\<close>

fun changes_loop :: "(string \<rightharpoonup> int) \<Rightarrow> string list \<Rightarrow> (string, int) gomap \<Rightarrow> (string, int) gomap" where
  "changes_loop maxSeq [] out = out"
| "changes_loop maxSeq (r # rs) out =
     (if map_of out r \<noteq> None then changes_loop maxSeq rs out
      else changes_loop maxSeq rs (AList.update r (mget_or 0 maxSeq r) out))"

definition mem_Changes :: "nat \<Rightarrow> 'p memory \<Rightarrow> (string, int) gomap \<times> nat" where
  "mem_Changes afterCursor m =
     (let cursor = length (m_order m) in
      if afterCursor \<ge> cursor then ([], cursor)
      else (changes_loop (m_maxSeq m) (drop afterCursor (m_order m)) [], cursor))"

definition mem_Count :: "'p memory \<Rightarrow> nat" where
  "mem_Count m = card (m_ids m)"

definition mem_ListRunIDs :: "'p memory \<Rightarrow> string list" where
  "mem_ListRunIDs m = sorted_list_of_set (dom (m_events m))"

subsection \<open>Execution claims\<close>

definition mem_ClaimRunFenced ::
    "time \<Rightarrow> string \<Rightarrow> string \<Rightarrow> 'p memory \<Rightarrow> 'p memory \<times> (store_err + claim)" where
  "mem_ClaimRunFenced now runID holder m =
     (if holder = [] then (m, Inl ErrClaimNotHeld)
      else
        (let (existing, ok) = (case m_claims m runID of None \<Rightarrow> (zero_claim, False) | Some c \<Rightarrow> (c, True)) in
         if ok \<and> c_Holder existing \<noteq> holder then (m, Inl ErrClaimHeld)
         else
           (let ex1 = (if c_Fence existing = 0 then existing\<lparr>c_Fence := 1\<rparr> else existing);
                ex2 = (if \<not> ok then \<lparr>c_RunID = runID, c_Holder = holder, c_AcquiredAt = NoStamp, c_Fence = 1\<rparr>
                       else ex1);
                ex3 = ex2\<lparr>c_AcquiredAt := format_stamp now\<rparr>
            in (m\<lparr>m_claims := (m_claims m)(runID \<mapsto> ex3)\<rparr>, Inr ex3))))"

definition err_of :: "'s \<times> ('e + 'a) \<Rightarrow> 's \<times> 'e option" where
  "err_of r = (fst r, case snd r of Inl e \<Rightarrow> Some e | Inr _ \<Rightarrow> None)"

definition mem_ClaimRun ::
    "time \<Rightarrow> string \<Rightarrow> string \<Rightarrow> 'p memory \<Rightarrow> 'p memory \<times> store_err option" where
  "mem_ClaimRun now runID holder m = err_of (mem_ClaimRunFenced now runID holder m)"

definition recordFencedLocked :: "string \<Rightarrow> string \<Rightarrow> 'p memory \<Rightarrow> 'p memory" where
  "recordFencedLocked runID token m =
     m\<lparr>m_fencedTokens := (m_fencedTokens m)(runID \<mapsto> insert token (mget_or {} (m_fencedTokens m) runID))\<rparr>"

definition mem_TakeoverClaimFenced ::
    "time \<Rightarrow> string \<Rightarrow> string \<Rightarrow> 'p memory \<Rightarrow> 'p memory \<times> (store_err + claim)" where
  "mem_TakeoverClaimFenced now runID holder m =
     (if holder = [] then (m, Inl ErrClaimNotHeld)
      else
        (let fence = (case m_claims m runID of None \<Rightarrow> 1 | Some existing \<Rightarrow> c_Fence existing + 1);
             m1 = (case m_claims m runID of
                     None \<Rightarrow> m
                   | Some existing \<Rightarrow>
                       if c_Holder existing \<noteq> holder then recordFencedLocked runID (c_Holder existing) m
                       else m);
             c = \<lparr>c_RunID = runID, c_Holder = holder, c_AcquiredAt = format_stamp now, c_Fence = fence\<rparr>
         in (m1\<lparr>m_claims := (m_claims m1)(runID \<mapsto> c)\<rparr>, Inr c)))"

definition mem_TakeoverClaim ::
    "time \<Rightarrow> string \<Rightarrow> string \<Rightarrow> 'p memory \<Rightarrow> 'p memory \<times> store_err option" where
  "mem_TakeoverClaim now runID holder m =
     (if holder = [] then (m, Some ErrClaimNotHeld)
      else
        (let fence = (case m_claims m runID of None \<Rightarrow> 1 | Some existing \<Rightarrow> c_Fence existing + 1);
             m1 = (case m_claims m runID of
                     None \<Rightarrow> m
                   | Some existing \<Rightarrow>
                       if c_Holder existing \<noteq> holder then recordFencedLocked runID (c_Holder existing) m
                       else m);
             c = \<lparr>c_RunID = runID, c_Holder = holder, c_AcquiredAt = format_stamp now, c_Fence = fence\<rparr>
         in (m1\<lparr>m_claims := (m_claims m1)(runID \<mapsto> c)\<rparr>, None)))"

definition mem_RefreshClaimFenced ::
    "time \<Rightarrow> string \<Rightarrow> string \<Rightarrow> 'p memory \<Rightarrow> 'p memory \<times> (store_err + claim)" where
  "mem_RefreshClaimFenced now runID holder m =
     (if holder = [] then (m, Inl ErrClaimNotHeld)
      else (case m_claims m runID of
              None \<Rightarrow> (m, Inl ErrClaimNotHeld)
            | Some existing \<Rightarrow>
                if c_Holder existing \<noteq> holder then (m, Inl ErrClaimNotHeld)
                else (let c = existing\<lparr>c_AcquiredAt := format_stamp now\<rparr>
                      in (m\<lparr>m_claims := (m_claims m)(runID \<mapsto> c)\<rparr>, Inr c))))"

text \<open>
  Two clock readings: \<open>now1\<close> is the one inside time.Since, \<open>now2\<close> the new stamp.
\<close>

definition mem_TakeoverExpiredClaimFenced ::
    "time \<Rightarrow> time \<Rightarrow> string \<Rightarrow> string \<Rightarrow> duration \<Rightarrow> 'p memory \<Rightarrow> 'p memory \<times> (store_err + claim)" where
  "mem_TakeoverExpiredClaimFenced now1 now2 runID holder maxAge m =
     (if holder = [] then (m, Inl ErrClaimNotHeld)
      else (case m_claims m runID of
              None \<Rightarrow> (m, Inl ErrClaimNotHeld)
            | Some existing \<Rightarrow>
                if (case parse_stamp (c_AcquiredAt existing) of
                      None \<Rightarrow> True | Some t \<Rightarrow> time_sub now1 t < maxAge)
                then (m, Inl ErrClaimHeld)
                else
                  (let m1 = (if c_Holder existing \<noteq> holder
                             then recordFencedLocked runID (c_Holder existing) m else m);
                       f = c_Fence existing + 1;
                       c = existing\<lparr>c_Holder := holder, c_Fence := (if f = 0 then 1 else f),
                                    c_AcquiredAt := format_stamp now2\<rparr>
                   in (m1\<lparr>m_claims := (m_claims m1)(runID \<mapsto> c)\<rparr>, Inr c))))"

definition mem_TakeoverExpiredClaim ::
    "time \<Rightarrow> time \<Rightarrow> string \<Rightarrow> string \<Rightarrow> duration \<Rightarrow> 'p memory \<Rightarrow> 'p memory \<times> store_err option" where
  "mem_TakeoverExpiredClaim now1 now2 runID holder maxAge m =
     err_of (mem_TakeoverExpiredClaimFenced now1 now2 runID holder maxAge m)"

definition mem_ReleaseClaimFenced :: "claim \<Rightarrow> 'p memory \<Rightarrow> 'p memory \<times> store_err option" where
  "mem_ReleaseClaimFenced c m =
     (case m_claims m (c_RunID c) of
        None \<Rightarrow> (m, Some ErrClaimNotHeld)
      | Some current \<Rightarrow>
          if c_Holder current \<noteq> c_Holder c \<or> c_Fence current \<noteq> c_Fence c
          then (m, Some ErrClaimNotHeld)
          else (m\<lparr>m_claims := (m_claims m)(c_RunID c := None)\<rparr>, None))"

definition mem_ReleaseClaim :: "string \<Rightarrow> string \<Rightarrow> 'p memory \<Rightarrow> 'p memory \<times> store_err option" where
  "mem_ReleaseClaim runID holder m =
     (case m_claims m runID of
        None \<Rightarrow> (m, Some ErrClaimNotHeld)
      | Some existing \<Rightarrow>
          if c_Holder existing \<noteq> holder then (m, Some ErrClaimNotHeld)
          else (m\<lparr>m_claims := (m_claims m)(runID := None)\<rparr>, None))"

definition mem_ClearClaim :: "string \<Rightarrow> 'p memory \<Rightarrow> 'p memory \<times> store_err option" where
  "mem_ClearClaim runID m = (m\<lparr>m_claims := (m_claims m)(runID := None)\<rparr>, None)"

definition mem_GetClaim :: "string \<Rightarrow> 'p memory \<Rightarrow> store_err + claim" where
  "mem_GetClaim runID m =
     (case m_claims m runID of None \<Rightarrow> Inl ErrClaimNotHeld | Some c \<Rightarrow> Inr c)"

definition mem_IsRunHeld :: "string \<Rightarrow> 'p memory \<Rightarrow> bool" where
  "mem_IsRunHeld runID m \<longleftrightarrow> m_claims m runID \<noteq> None"

definition mem_IsRunTokenFenced :: "string \<Rightarrow> string \<Rightarrow> 'p memory \<Rightarrow> bool" where
  "mem_IsRunTokenFenced runID token m =
     (if token = [] then False
      else if (case m_claims m runID of None \<Rightarrow> False | Some c \<Rightarrow> c_Holder c = token) then False
      else (case m_fencedTokens m runID of None \<Rightarrow> False | Some s \<Rightarrow> token \<in> s))"

subsection \<open>Content\<close>

definition mem_PutContent :: "string \<Rightarrow> 'p list \<Rightarrow> 'p memory \<Rightarrow> 'p memory \<times> store_err option" where
  "mem_PutContent ref d m =
     (if d = [] then (m, None)
      else (m\<lparr>m_content := (m_content m)(ref \<mapsto> cloneBytes d)\<rparr>, None))"

definition mem_GetContent :: "string \<Rightarrow> 'p memory \<Rightarrow> store_err + 'p list" where
  "mem_GetContent ref m =
     (case m_content m ref of None \<Rightarrow> Inl ErrContentNotFound | Some d \<Rightarrow> Inr (cloneBytes d))"

end
