(* ===== verification/Storage_Laws.thy ===== *)
theory Storage_Laws
  imports Storage_Memory
begin

text \<open>
  Laws of the event store: the step relation over the operations of Memory, what each
  operation does to claims and events, the data invariant of the store, and the
  lease contract (locale \<open>lease_store\<close>, extended to \<open>fenced_lease\<close>) that the
  claim tracker and the workflow recovery rely on, interpreted on Memory.
\<close>

section \<open>Operations as steps\<close>

datatype 'p mem_op =
    OpAppend "'p event"
  | OpAppendBatch "'p event list"
  | OpAppendBatchForNewRun string "'p event list"
  | OpAppendClaimed "'p event" string
  | OpAppendWithExistingClaim "'p event" string
  | OpAppendClaimedFenced "'p event" claim
  | OpDeleteRun string int
  | OpAppendAndDeleteRun "'p event" claim
  | OpClaimRun time string string
  | OpTakeoverClaim time string string
  | OpRefreshClaim time string string
  | OpTakeoverExpired time time string string duration
  | OpReleaseClaimFenced claim
  | OpReleaseClaim string string
  | OpClearClaim string
  | OpPutContent string "'p list"

fun mem_exec :: "'p mem_op \<Rightarrow> 'p memory \<Rightarrow> 'p memory \<times> store_err option" where
  "mem_exec (OpAppend e) m = mem_Append e m"
| "mem_exec (OpAppendBatch es) m = mem_AppendBatch es m"
| "mem_exec (OpAppendBatchForNewRun r es) m = mem_AppendBatchForNewRun r es m"
| "mem_exec (OpAppendClaimed e h) m = mem_AppendClaimed e h m"
| "mem_exec (OpAppendWithExistingClaim e h) m = mem_AppendWithExistingClaim e h m"
| "mem_exec (OpAppendClaimedFenced e c) m = mem_AppendClaimedFenced e c m"
| "mem_exec (OpDeleteRun r q) m = mem_DeleteRun r q m"
| "mem_exec (OpAppendAndDeleteRun e c) m = mem_AppendAndDeleteRun e c m"
| "mem_exec (OpClaimRun now r h) m = mem_ClaimRun now r h m"
| "mem_exec (OpTakeoverClaim now r h) m = mem_TakeoverClaim now r h m"
| "mem_exec (OpRefreshClaim now r h) m = err_of (mem_RefreshClaimFenced now r h m)"
| "mem_exec (OpTakeoverExpired n1 n2 r h d) m = mem_TakeoverExpiredClaim n1 n2 r h d m"
| "mem_exec (OpReleaseClaimFenced c) m = mem_ReleaseClaimFenced c m"
| "mem_exec (OpReleaseClaim r h) m = mem_ReleaseClaim r h m"
| "mem_exec (OpClearClaim r) m = mem_ClearClaim r m"
| "mem_exec (OpPutContent ref d) m = mem_PutContent ref d m"

definition mem_step :: "'p mem_op \<Rightarrow> 'p memory \<Rightarrow> 'p memory" where
  "mem_step op m = fst (mem_exec op m)"

text \<open>The operations that can make a holder the owner of a run.\<close>

fun mem_grants :: "'p mem_op \<Rightarrow> string \<Rightarrow> string \<Rightarrow> bool" where
  "mem_grants (OpClaimRun now r h) r' h' \<longleftrightarrow> r = r' \<and> h = h'"
| "mem_grants (OpTakeoverClaim now r h) r' h' \<longleftrightarrow> r = r' \<and> h = h'"
| "mem_grants (OpTakeoverExpired n1 n2 r h d) r' h' \<longleftrightarrow> r = r' \<and> h = h'"
| "mem_grants _ _ _ \<longleftrightarrow> False"

inductive mem_reachable :: "'p memory \<Rightarrow> bool" where
  init: "mem_reachable NewMemory"
| step: "mem_reachable m \<Longrightarrow> mem_reachable (mem_step op m)"

lemma mem_reachable_run_ops: "mem_reachable m \<Longrightarrow> mem_reachable (run_ops mem_step ops m)"
  by (rule run_ops_invariant) (auto intro: mem_reachable.step)

lemma TakeoverClaim_eq: "mem_TakeoverClaim now r h m = err_of (mem_TakeoverClaimFenced now r h m)"
  by (simp add: mem_TakeoverClaim_def mem_TakeoverClaimFenced_def err_of_def Let_def)

lemma fst_err_of [simp]: "fst (err_of x) = fst x"
  by (simp add: err_of_def)

lemma snd_err_of: "snd (err_of x) = (case snd x of Inl e \<Rightarrow> Some e | Inr _ \<Rightarrow> None)"
  by (simp add: err_of_def)

section \<open>Effects of the operations on claims\<close>

lemmas append_defs = mem_Append_def mem_AppendBatch_def mem_AppendBatchForNewRun_def
  mem_AppendClaimed_def mem_AppendWithExistingClaim_def mem_AppendClaimedFenced_def
  appendBatchLocked_def

lemmas claim_op_defs = mem_ClaimRun_def mem_ClaimRunFenced_def TakeoverClaim_eq
  mem_TakeoverClaimFenced_def mem_RefreshClaimFenced_def mem_TakeoverExpiredClaim_def
  mem_TakeoverExpiredClaimFenced_def mem_ReleaseClaimFenced_def mem_ReleaseClaim_def
  mem_ClearClaim_def recordFencedLocked_def

lemma appendLocked_claims [simp]: "m_claims (fst (appendLocked e m)) = m_claims m"
  by (simp add: appendLocked_def Let_def)

lemma append_all_claims [simp]: "m_claims (fst (append_all es m)) = m_claims m"
proof (induction es arbitrary: m)
  case (Cons e es)
  obtain m' r where a: "appendLocked e m = (m', r)" by (cases "appendLocked e m")
  then have "m_claims m' = m_claims m" using appendLocked_claims [of e m] by simp
  then show ?case using a Cons by (auto split: option.splits)
qed simp

lemma appendBatchLocked_claims [simp]: "m_claims (fst (appendBatchLocked es m)) = m_claims m"
  by (simp add: appendBatchLocked_def split: option.splits)

lemma deleteRunLocked_claims [simp]:
  "m_claims (deleteRunLocked r q m) = (m_claims m)(r := None)"
  by (simp add: deleteRunLocked_def Let_def)

lemma AppendAndDeleteRun_claims:
  "m_claims (fst (mem_AppendAndDeleteRun e c m)) =
     (if snd (mem_AppendAndDeleteRun e c m) = None then (m_claims m)(ev_RunID e := None)
      else m_claims m)"
proof -
  obtain m' r where a: "appendLocked e m = (m', r)" by (cases "appendLocked e m")
  then have "m_claims m' = m_claims m" using appendLocked_claims [of e m] by simp
  then show ?thesis using a by (auto simp: mem_AppendAndDeleteRun_def split: option.splits)
qed

text \<open>
  What one operation can do to the claim of a run: keep it, remove it, restamp it, or
  hand it over; only a grant to the holder can make it the holder.
\<close>

definition held_by :: "('s \<Rightarrow> string \<Rightarrow> claim option) \<Rightarrow> 's \<Rightarrow> string \<Rightarrow> string \<Rightarrow> bool" where
  "held_by claim_of s r h \<longleftrightarrow> (\<exists>c. claim_of s r = Some c \<and> c_Holder c = h)"

lemma mem_held_by_step:
  assumes "held_by m_claims (mem_step op m) r h" "\<not> mem_grants op r h"
  shows "held_by m_claims m r h"
proof (cases op)
  case (OpAppendAndDeleteRun e c)
  then show ?thesis
    using assms by (auto simp: held_by_def mem_step_def AppendAndDeleteRun_claims split: if_splits)
next
  case (OpTakeoverExpired n1 n2 r' h' d)
  then show ?thesis
    using assms by (auto simp: held_by_def mem_step_def claim_op_defs Let_def split: if_splits option.splits)
qed (use assms in \<open>auto simp: held_by_def mem_step_def append_defs claim_op_defs mem_DeleteRun_def
       mem_PutContent_def zero_claim_def Let_def split: if_splits option.splits\<close>)

lemma mem_fence_step:
  assumes "m_claims m r = Some c" "m_claims (mem_step op m) r = Some c'"
    "unat (c_Fence c) + 1 < 2 ^ 64"
  shows "(c_Fence c' = c_Fence c \<and> c_Holder c' = c_Holder c) \<or> unat (c_Fence c') = unat (c_Fence c) + 1"
proof -
  have inc: "unat (c_Fence c + 1) = unat (c_Fence c) + 1"
    using assms(3) by (simp add: unat_word_ariths)
  then have nz: "c_Fence c + 1 \<noteq> 0"
    by (metis add_is_0 unat_eq_zero zero_neq_one)
  show ?thesis
  proof (cases op)
    case (OpAppendAndDeleteRun e c)
    then show ?thesis
      using assms by (auto simp: mem_step_def AppendAndDeleteRun_claims split: if_splits)
  qed (use assms inc nz in \<open>auto simp: mem_step_def append_defs claim_op_defs mem_DeleteRun_def
       mem_PutContent_def Let_def split: if_splits option.splits\<close>)
qed

section \<open>The lease contract\<close>

locale lease_store =
  fixes claim_of :: "'s \<Rightarrow> string \<Rightarrow> claim option"
    and step :: "'op \<Rightarrow> 's \<Rightarrow> 's"
    and grants :: "'op \<Rightarrow> string \<Rightarrow> string \<Rightarrow> bool"
    and append_fenced :: "'e \<Rightarrow> claim \<Rightarrow> 's \<Rightarrow> 's \<times> 'err option"
    and event_run :: "'e \<Rightarrow> string"
    and held_err :: 'err
  assumes only_grants: "held_by claim_of (step op s) r h \<Longrightarrow> \<not> grants op r h \<Longrightarrow> held_by claim_of s r h"
    and fenced_refuses: "\<not> (\<exists>c. claim_of s (event_run e) = Some c \<and> c_Holder c = c_Holder tok \<and> c_Fence c = c_Fence tok)
          \<Longrightarrow> append_fenced e tok s = (s, Some held_err)"
begin

lemma ejected_stays_out:
  assumes "\<not> held_by claim_of s r h" "\<forall>op \<in> set ops. \<not> grants op r h"
  shows "\<not> held_by claim_of (run_ops step ops s) r h"
  using assms by (induction ops arbitrary: s) (auto dest: only_grants)

lemma ejected_cannot_append:
  assumes "\<not> held_by claim_of s (event_run e) (c_Holder tok)"
    "\<forall>op \<in> set ops. \<not> grants op (event_run e) (c_Holder tok)"
  shows "append_fenced e tok (run_ops step ops s) = (run_ops step ops s, Some held_err)"
  using ejected_stays_out [OF assms] by (intro fenced_refuses) (auto simp: held_by_def)

end

text \<open>
  A fenced lease also counts takeovers: while a run stays claimed, its fence never
  decreases and changes whenever the holder does.
\<close>

fun held_throughout ::
    "('s \<Rightarrow> string \<Rightarrow> claim option) \<Rightarrow> ('op \<Rightarrow> 's \<Rightarrow> 's) \<Rightarrow> string \<Rightarrow> 'op list \<Rightarrow> 's \<Rightarrow> bool" where
  "held_throughout claim_of step r [] s = (claim_of s r \<noteq> None)"
| "held_throughout claim_of step r (op # ops) s =
     (claim_of s r \<noteq> None \<and> held_throughout claim_of step r ops (step op s))"

lemma held_throughout_append:
  "held_throughout claim_of step r (xs @ ys) s \<longleftrightarrow>
     held_throughout claim_of step r xs s \<and> held_throughout claim_of step r ys (run_ops step xs s)"
  by (induction xs arbitrary: s) (auto, (cases ys, auto)+)

locale fenced_lease = lease_store claim_of step grants append_fenced event_run held_err
  for claim_of :: "'s \<Rightarrow> string \<Rightarrow> claim option"
    and step :: "'op \<Rightarrow> 's \<Rightarrow> 's"
    and grants append_fenced event_run held_err +
  assumes fence_counts: "claim_of s r = Some c \<Longrightarrow> claim_of (step op s) r = Some c' \<Longrightarrow>
      unat (c_Fence c) + 1 < 2 ^ 64 \<Longrightarrow>
      (c_Fence c' = c_Fence c \<and> c_Holder c' = c_Holder c) \<or> unat (c_Fence c') = unat (c_Fence c) + 1"
begin

lemma fence_run:
  assumes "held_throughout claim_of step r ops s" "claim_of s r = Some c"
    "claim_of (run_ops step ops s) r = Some c'" "unat (c_Fence c) + length ops < 2 ^ 64"
  shows "unat (c_Fence c) \<le> unat (c_Fence c') \<and> unat (c_Fence c') \<le> unat (c_Fence c) + length ops \<and>
    (c_Fence c' = c_Fence c \<longrightarrow> c_Holder c' = c_Holder c)"
  using assms
proof (induction ops arbitrary: s c)
  case (Cons op ops)
  from Cons.prems(1) have h: "held_throughout claim_of step r ops (step op s)" by simp
  then have "claim_of (step op s) r \<noteq> None" by (cases ops) auto
  then obtain d where d: "claim_of (step op s) r = Some d" by blast
  have k: "(c_Fence d = c_Fence c \<and> c_Holder d = c_Holder c) \<or> unat (c_Fence d) = unat (c_Fence c) + 1"
    using fence_counts [OF Cons.prems(2) d] Cons.prems(4) by simp
  have "unat (c_Fence d) + length ops < 2 ^ 64" using k Cons.prems(4) by auto
  from Cons.IH [OF h d _ this] Cons.prems(3) k show ?case by auto
qed auto

lemma lost_fence_refused:
  assumes "held_throughout claim_of step (event_run e) (xs @ ys) s"
    "claim_of s (event_run e) = Some tok"
    "\<not> held_by claim_of (run_ops step xs s) (event_run e) (c_Holder tok)"
    "unat (c_Fence tok) + length (xs @ ys) < 2 ^ 64"
  shows "append_fenced e tok (run_ops step (xs @ ys) s) = (run_ops step (xs @ ys) s, Some held_err)"
proof (rule fenced_refuses, rule notI)
  let ?r = "event_run e"
  assume "\<exists>c. claim_of (run_ops step (xs @ ys) s) ?r = Some c \<and>
    c_Holder c = c_Holder tok \<and> c_Fence c = c_Fence tok"
  then obtain c where c: "claim_of (run_ops step ys (run_ops step xs s)) ?r = Some c"
    "c_Fence c = c_Fence tok" by auto
  have hx: "held_throughout claim_of step ?r xs s" and hy: "held_throughout claim_of step ?r ys (run_ops step xs s)"
    using assms(1) by (auto simp: held_throughout_append)
  from hy have "claim_of (run_ops step xs s) ?r \<noteq> None" by (cases ys) auto
  then obtain d where d: "claim_of (run_ops step xs s) ?r = Some d" by blast
  have "c_Holder d \<noteq> c_Holder tok" using assms(3) d by (auto simp: held_by_def)
  then have lt: "unat (c_Fence tok) < unat (c_Fence d)" "unat (c_Fence d) \<le> unat (c_Fence tok) + length xs"
    using fence_run [OF hx assms(2) d] assms(4)
    by (auto simp: le_less word_unat_eq_iff dest: sym)
  have "unat (c_Fence d) \<le> unat (c_Fence c)"
    using fence_run [OF hy d c(1)] lt(2) assms(4) by auto
  with lt c(2) show False by simp
qed

end

interpretation memlease: fenced_lease m_claims mem_step mem_grants mem_AppendClaimedFenced ev_RunID ErrClaimHeld
proof
  fix op :: "'p mem_op" and m :: "'p memory" and r h
  show "held_by m_claims (mem_step op m) r h \<Longrightarrow> \<not> mem_grants op r h \<Longrightarrow> held_by m_claims m r h"
    by (rule mem_held_by_step)
next
  fix m :: "'p memory" and e tok
  show "\<not> (\<exists>c. m_claims m (ev_RunID e) = Some c \<and> c_Holder c = c_Holder tok \<and> c_Fence c = c_Fence tok)
    \<Longrightarrow> mem_AppendClaimedFenced e tok m = (m, Some ErrClaimHeld)"
    by (auto simp: mem_AppendClaimedFenced_def split: option.splits)
next
  fix m :: "'p memory" and op r c c'
  show "m_claims m r = Some c \<Longrightarrow> m_claims (mem_step op m) r = Some c' \<Longrightarrow>
      unat (c_Fence c) + 1 < 2 ^ 64 \<Longrightarrow>
      (c_Fence c' = c_Fence c \<and> c_Holder c' = c_Holder c) \<or> unat (c_Fence c') = unat (c_Fence c) + 1"
    by (rule mem_fence_step)
qed

section \<open>The data invariant of the store\<close>

text \<open>
  \<open>events_inv\<close>: every stored event sits in the bucket of its run with a non-empty
  payload, its row points at its run in the append order, rows increase within a
  run, the id index is exactly the set of stored ids, ids identify events, and
  the recorded sequence of a run is that of one of its events, and it is recorded as soon
  as an event of the run has a positive sequence.
\<close>

definition stored :: "'p memory \<Rightarrow> 'p event \<Rightarrow> bool" where
  "stored m e \<longleftrightarrow> (\<exists>r. e \<in> set (mem_evs m r))"

definition event_ok :: "'p memory \<Rightarrow> string \<Rightarrow> 'p event \<Rightarrow> bool" where
  "event_ok m r e \<longleftrightarrow> ev_RunID e = r \<and> ev_Payload e \<noteq> [] \<and> 1 \<le> ev_RowID e \<and>
     ev_RowID e \<le> length (m_order m) \<and> m_order m ! (ev_RowID e - 1) = r"

definition seq_recorded :: "'p memory \<Rightarrow> string \<Rightarrow> bool" where
  "seq_recorded m r \<longleftrightarrow>
     (\<forall>q. m_maxSeq m r = Some q \<longrightarrow> (\<exists>e \<in> set (mem_evs m r). ev_Sequence e = q)) \<and>
     ((\<exists>e \<in> set (mem_evs m r). 0 < ev_Sequence e) \<longrightarrow> m_maxSeq m r \<noteq> None)"

definition events_inv :: "'p memory \<Rightarrow> bool" where
  "events_inv m \<longleftrightarrow>
     (\<forall>r. m_events m r \<noteq> Some []) \<and>
     (\<forall>r. \<forall>e \<in> set (mem_evs m r). event_ok m r e) \<and>
     (\<forall>r. sorted_wrt (<) (map ev_RowID (mem_evs m r))) \<and>
     m_ids m = {ev_ID e | e. stored m e} \<and>
     (\<forall>e e'. stored m e \<longrightarrow> stored m e' \<longrightarrow> ev_ID e = ev_ID e' \<longrightarrow> e = e') \<and>
     (\<forall>r. seq_recorded m r)"

definition claims_inv :: "'p memory \<Rightarrow> bool" where
  "claims_inv m \<longleftrightarrow> (\<forall>r c. m_claims m r = Some c \<longrightarrow>
     c_RunID c = r \<and> c_Holder c \<noteq> [] \<and> c_AcquiredAt c \<noteq> NoStamp)"

lemma events_invD:
  assumes "events_inv m"
  shows "m_events m r \<noteq> Some []" "e \<in> set (mem_evs m r) \<Longrightarrow> event_ok m r e"
    "sorted_wrt (<) (map ev_RowID (mem_evs m r))"
    "m_ids m = {ev_ID e | e. stored m e}"
    "stored m e \<Longrightarrow> stored m e' \<Longrightarrow> ev_ID e = ev_ID e' \<Longrightarrow> e = e'"
    "seq_recorded m r"
  using assms by (auto simp: events_inv_def)

lemma events_inv_cong:
  assumes "m_events m' = m_events m" "m_ids m' = m_ids m" "m_order m' = m_order m" "m_maxSeq m' = m_maxSeq m"
  shows "events_inv m' = events_inv m"
  by (simp add: events_inv_def stored_def event_ok_def seq_recorded_def assms)

definition stamped :: "'p memory \<Rightarrow> 'p event \<Rightarrow> 'p event" where
  "stamped m e = e\<lparr>ev_RowID := length (m_order m) + 1\<rparr>"

lemma appendLocked_cases:
  obtains (dup) "ev_ID e \<in> m_ids m" "appendLocked e m = (m, Some ErrDuplicate)"
  | (empty) "ev_ID e \<notin> m_ids m" "ev_Payload e = []" "appendLocked e m = (m, Some ErrEmptyPayload)"
  | (ok) m' where "ev_ID e \<notin> m_ids m" "ev_Payload e \<noteq> []" "appendLocked e m = (m', None)"
      "m_events m' = (m_events m)(ev_RunID e \<mapsto> mem_evs m (ev_RunID e) @ [stamped m e])"
      "m_ids m' = insert (ev_ID e) (m_ids m)" "m_order m' = m_order m @ [ev_RunID e]"
      "m_maxSeq m' = (if ev_Sequence e > mget_or 0 (m_maxSeq m) (ev_RunID e)
         then (m_maxSeq m)(ev_RunID e \<mapsto> ev_Sequence e) else m_maxSeq m)"
      "m_claims m' = m_claims m" "m_fencedTokens m' = m_fencedTokens m" "m_content m' = m_content m"
proof (cases "ev_ID e \<in> m_ids m \<or> ev_Payload e = []")
  case True
  then show ?thesis using dup empty by (auto simp: appendLocked_def)
next
  case False
  show ?thesis
    by (rule ok [of "fst (appendLocked e m)"]) (use False in \<open>auto simp: appendLocked_def Let_def stamped_def\<close>)
qed

lemma stored_upd:
  assumes "m_events m' = (m_events m)(r \<mapsto> mem_evs m r @ [x])"
  shows "stored m' e \<longleftrightarrow> stored m e \<or> e = x"
  unfolding stored_def assms by (auto split: if_splits)

lemma events_inv_append:
  assumes inv: "events_inv m" and id: "ev_ID e \<notin> m_ids m" and pl: "ev_Payload e \<noteq> []"
    and ev: "m_events m' = (m_events m)(ev_RunID e \<mapsto> mem_evs m (ev_RunID e) @ [stamped m e])"
    and ids: "m_ids m' = insert (ev_ID e) (m_ids m)" and ord: "m_order m' = m_order m @ [ev_RunID e]"
    and mx: "m_maxSeq m' = (if ev_Sequence e > mget_or 0 (m_maxSeq m) (ev_RunID e)
         then (m_maxSeq m)(ev_RunID e \<mapsto> ev_Sequence e) else m_maxSeq m)"
  shows "events_inv m'"
  unfolding events_inv_def
proof (intro conjI allI ballI)
  note I = events_invD [OF inv]
  have old: "event_ok m' r x" if "event_ok m r x" for r x
    using that by (auto simp: event_ok_def ord nth_append)
  have rows: "ev_RowID x < length (m_order m) + 1" if "x \<in> set (mem_evs m r)" for x r
    using I(2) [OF that] by (simp add: event_ok_def)
  fix r
  show "m_events m' r \<noteq> Some []" using I(1) [of r] by (simp add: ev)
  show "event_ok m' r x" if "x \<in> set (mem_evs m' r)" for x
  proof (cases "x = stamped m e \<and> r = ev_RunID e")
    case True
    then show ?thesis using pl by (simp add: event_ok_def stamped_def ord)
  next
    case False
    then have "x \<in> set (mem_evs m r)" using that by (auto simp: ev split: if_splits)
    then show ?thesis by (intro old I(2))
  qed
  show "sorted_wrt (<) (map ev_RowID (mem_evs m' r))"
    using I(3) [of r] rows [of _ r] by (auto simp: ev sorted_wrt_append stamped_def)
  note st = stored_upd [OF ev]
  have sid: "ev_ID (stamped m e) = ev_ID e" by (simp add: stamped_def)
  show "m_ids m' = {ev_ID x | x. stored m' x}"
    unfolding ids I(4) st using sid by auto metis+
  show "stored m' x \<longrightarrow> stored m' y \<longrightarrow> ev_ID x = ev_ID y \<longrightarrow> x = y" for x y
    using I(4,5) id by (auto simp: st sid)
  show "seq_recorded m' r"
    using I(6) [of r] by (auto simp: seq_recorded_def mx ev stamped_def mget_or_def split: option.splits if_splits)
qed

lemma events_inv_appendLocked [inv_intros]:
  assumes "events_inv m"
  shows "events_inv (fst (appendLocked e m))"
proof (cases e m rule: appendLocked_cases)
  case (ok m')
  then have "events_inv m'"
    by (intro events_inv_append [OF assms ok(1,2)]) auto
  with ok show ?thesis by simp
qed (use assms in auto)

lemma events_inv_append_all [inv_intros]: "events_inv m \<Longrightarrow> events_inv (fst (append_all es m))"
proof (induction es arbitrary: m)
  case (Cons e es)
  obtain m' r where a: "appendLocked e m = (m', r)" by (cases "appendLocked e m")
  then have "events_inv m'" using events_inv_appendLocked [OF Cons.prems, of e] by simp
  then show ?case using a Cons.IH by (auto split: option.splits)
qed simp

lemma events_inv_appendBatchLocked [inv_intros]:
  "events_inv m \<Longrightarrow> events_inv (fst (appendBatchLocked es m))"
  by (simp add: appendBatchLocked_def events_inv_append_all split: option.splits)

lemma deleteRunLocked_events:
  "mem_evs (deleteRunLocked r q m) r' =
     (if r' = r then filter (\<lambda>e. q < ev_Sequence e) (mem_evs m r) else mem_evs m r')"
  by (auto simp: deleteRunLocked_def Let_def not_le)

lemma deleteRunLocked_order [simp]: "m_order (deleteRunLocked r q m) = m_order m"
  by (simp add: deleteRunLocked_def Let_def)

lemma deleteRunLocked_ids:
  "m_ids (deleteRunLocked r q m) =
     m_ids m - ev_ID ` {e \<in> set (mem_evs m r). ev_Sequence e \<le> q}"
  by (simp add: deleteRunLocked_def Let_def)

lemma events_inv_deleteRunLocked [inv_intros]:
  assumes inv: "events_inv m"
  shows "events_inv (deleteRunLocked r q m)" (is "events_inv ?m")
  unfolding events_inv_def
proof (intro conjI allI ballI)
  note I = events_invD [OF inv]
  have sub: "stored m x" if "stored ?m x" for x
    using that by (auto simp: stored_def deleteRunLocked_events split: if_splits)
  fix r'
  show "m_events ?m r' \<noteq> Some []" using I(1) [of r'] by (auto simp: deleteRunLocked_def Let_def)
  show "event_ok ?m r' x" if "x \<in> set (mem_evs ?m r')" for x
    using that I(2) [of x r'] by (auto simp: deleteRunLocked_events event_ok_def split: if_splits)
  show "sorted_wrt (<) (map ev_RowID (mem_evs ?m r'))"
    using I(3) [of r'] by (auto simp: deleteRunLocked_events sorted_wrt_map sorted_wrt_filter)
  show "m_ids ?m = {ev_ID x | x. stored ?m x}"
  proof -
    have gone: "\<not> ev_Sequence x \<le> q" if "stored ?m x" "x \<in> set (mem_evs m r)" for x
    proof -
      from that(1) obtain r2 where r2: "x \<in> set (mem_evs ?m r2)" by (auto simp: stored_def)
      then have "x \<in> set (mem_evs m r2)" by (auto simp: deleteRunLocked_events split: if_splits)
      then have "r2 = r" using I(2) [of x r2] I(2) [OF that(2)] by (simp add: event_ok_def)
      with r2 show ?thesis by (simp add: deleteRunLocked_events)
    qed
    have keep: "stored ?m x \<or> (x \<in> set (mem_evs m r) \<and> ev_Sequence x \<le> q)" if "stored m x" for x
    proof -
      from that obtain r2 where r2: "x \<in> set (mem_evs m r2)" by (auto simp: stored_def)
      show ?thesis
      proof (cases "x \<in> set (mem_evs ?m r2)")
        case True
        then show ?thesis unfolding stored_def by blast
      next
        case False
        then show ?thesis using r2 by (simp add: deleteRunLocked_events not_less split: if_splits)
      qed
    qed
    have in_st: "stored m x" if "x \<in> set (mem_evs m r)" for x
      using that by (auto simp: stored_def)
    have "i \<in> m_ids ?m \<longleftrightarrow> (\<exists>x. i = ev_ID x \<and> stored ?m x)" for i
    proof
      assume "i \<in> m_ids ?m"
      then obtain x where x: "i = ev_ID x" "stored m x" "x \<notin> {e \<in> set (mem_evs m r). ev_Sequence e \<le> q}"
        by (auto simp: deleteRunLocked_ids I(4))
      from keep [OF x(2)] x(3) have "stored ?m x" by blast
      with x(1) show "\<exists>x. i = ev_ID x \<and> stored ?m x" by blast
    next
      assume "\<exists>x. i = ev_ID x \<and> stored ?m x"
      then obtain x where x: "i = ev_ID x" "stored ?m x" by blast
      have "y = x" if "y \<in> set (mem_evs m r)" "ev_ID y = ev_ID x" for y
        using I(5) [OF in_st [OF that(1)] sub [OF x(2)] that(2)] .
      then have "ev_ID x \<notin> ev_ID ` {e \<in> set (mem_evs m r). ev_Sequence e \<le> q}"
        using gone [OF x(2)] by (metis (no_types, lifting) imageE mem_Collect_eq)
      moreover have "ev_ID x \<in> m_ids m" unfolding I(4) using sub [OF x(2)] by blast
      ultimately show "i \<in> m_ids ?m" unfolding deleteRunLocked_ids x(1) by simp
    qed
    then show ?thesis by auto
  qed
  show "stored ?m x \<longrightarrow> stored ?m y \<longrightarrow> ev_ID x = ev_ID y \<longrightarrow> x = y" for x y
    using sub I(5) by blast
  show "seq_recorded ?m r'"
  proof (cases "r' = r")
    case True
    let ?kept = "filter (\<lambda>e. \<not> ev_Sequence e \<le> q) (mem_evs m r)"
    have "last ?kept \<in> set ?kept" if "?kept \<noteq> []" using that by (rule last_in_set)
    moreover have "m_maxSeq ?m r = (if ?kept = [] then None else Some (ev_Sequence (last ?kept)))"
      by (simp add: deleteRunLocked_def Let_def)
    moreover have "set (mem_evs ?m r) = set ?kept" by (auto simp: deleteRunLocked_events)
    ultimately show ?thesis using True by (auto simp: seq_recorded_def filter_empty_conv split: if_splits)
  next
    case False
    then have "m_maxSeq ?m r' = m_maxSeq m r'" by (simp add: deleteRunLocked_def Let_def)
    then show ?thesis using I(6) [of r'] False by (simp add: seq_recorded_def deleteRunLocked_events)
  qed
qed

lemma events_inv_step:
  assumes "events_inv m"
  shows "events_inv (mem_step op m)"
proof (cases op)
  case (OpAppendAndDeleteRun e c)
  obtain m' r where a: "appendLocked e m = (m', r)" by (cases "appendLocked e m")
  then have "events_inv m'" using events_inv_appendLocked [OF assms, of e] by simp
  then show ?thesis
    using assms OpAppendAndDeleteRun a
    by (auto simp: mem_step_def mem_AppendAndDeleteRun_def events_inv_deleteRunLocked split: option.splits)
next
  case (OpDeleteRun r q)
  then show ?thesis using assms by (simp add: mem_step_def mem_DeleteRun_def inv_intros)
qed (use assms in \<open>auto simp: mem_step_def append_defs claim_op_defs mem_PutContent_def Let_def inv_intros
       events_inv_appendBatchLocked [unfolded appendBatchLocked_def]
       split: if_splits option.splits intro: iffD2 [OF events_inv_cong]\<close>)

lemma claims_inv_step:
  assumes "claims_inv m"
  shows "claims_inv (mem_step op m)"
proof (cases op)
  case (OpAppendAndDeleteRun e c)
  then show ?thesis
    using assms by (auto simp: claims_inv_def mem_step_def AppendAndDeleteRun_claims)
qed (use assms in \<open>auto simp: claims_inv_def mem_step_def append_defs claim_op_defs mem_DeleteRun_def
       mem_PutContent_def format_stamp_def Let_def split: if_splits option.splits\<close>)

section \<open>Atomic batches\<close>

text \<open>What a batch must satisfy, as a specification: no loop, no order of checks.\<close>

definition batch_ok :: "'p memory \<Rightarrow> 'p event list \<Rightarrow> bool" where
  "batch_ok m es \<longleftrightarrow>
     (\<forall>e \<in> set es. ev_ID e \<notin> m_ids m \<and> ev_Payload e \<noteq> [] \<and>
        mget_or 0 (m_maxSeq m) (ev_RunID e) < ev_Sequence e) \<and>
     distinct (map ev_ID es) \<and> distinct (map (\<lambda>e. (ev_RunID e, ev_Sequence e)) es)"

lemma batch_check_None:
  "batch_check m I Q es = None \<longleftrightarrow>
     (\<forall>e \<in> set es. ev_ID e \<notin> m_ids m \<and> ev_Payload e \<noteq> [] \<and>
        mget_or 0 (m_maxSeq m) (ev_RunID e) < ev_Sequence e \<and>
        ev_ID e \<notin> I \<and> (ev_RunID e, ev_Sequence e) \<notin> Q) \<and>
     distinct (map ev_ID es) \<and> distinct (map (\<lambda>e. (ev_RunID e, ev_Sequence e)) es)"
proof (induction es arbitrary: I Q)
  case (Cons e es)
  show ?case
    unfolding batch_check.simps by (auto simp: Cons.IH image_iff not_le)
qed simp

lemma batch_check_ok: "batch_check m {} {} es = None \<longleftrightarrow> batch_ok m es"
  by (auto simp: batch_check_None batch_ok_def)

fun stamp_from :: "nat \<Rightarrow> 'p event list \<Rightarrow> 'p event list" where
  "stamp_from n [] = []"
| "stamp_from n (e # es) = e\<lparr>ev_RowID := n + 1\<rparr> # stamp_from (n + 1) es"

lemma append_all_ok:
  assumes "\<forall>e \<in> set es. ev_ID e \<notin> m_ids m \<and> ev_Payload e \<noteq> []" "distinct (map ev_ID es)"
  shows "\<exists>m'. append_all es m = (m', None) \<and>
    (\<forall>r. mem_evs m' r = mem_evs m r @ filter (\<lambda>e. ev_RunID e = r) (stamp_from (length (m_order m)) es)) \<and>
    m_ids m' = m_ids m \<union> set (map ev_ID es) \<and> m_order m' = m_order m @ map ev_RunID es \<and>
    m_content m' = m_content m \<and> m_fencedTokens m' = m_fencedTokens m"
  using assms
proof (induction es arbitrary: m)
  case (Cons e es)
  show ?case
  proof (cases e m rule: appendLocked_cases)
    case (ok m1)
    have "\<forall>x \<in> set es. ev_ID x \<notin> m_ids m1 \<and> ev_Payload x \<noteq> []"
      using Cons.prems by (auto simp: ok(5) image_iff)
    moreover have "mem_evs m1 r = (if r = ev_RunID e then mem_evs m r @ [stamped m e] else mem_evs m r)" for r
      by (simp add: ok(4))
    ultimately show ?thesis
      using Cons.IH [of m1] Cons.prems(2) ok(3,5,6,9,10) by (auto simp: stamped_def)
  qed (use Cons.prems in auto)
qed simp

lemma appendBatchLocked_ok:
  assumes "batch_ok m es"
  obtains m' where "appendBatchLocked es m = (m', None)"
    "\<forall>r. mem_evs m' r = mem_evs m r @ filter (\<lambda>e. ev_RunID e = r) (stamp_from (length (m_order m)) es)"
    "m_ids m' = m_ids m \<union> set (map ev_ID es)" "m_order m' = m_order m @ map ev_RunID es"
proof -
  have "batch_check m {} {} es = None" using assms by (simp add: batch_check_ok)
  moreover have "\<forall>e \<in> set es. ev_ID e \<notin> m_ids m \<and> ev_Payload e \<noteq> []" "distinct (map ev_ID es)"
    using assms by (auto simp: batch_ok_def)
  ultimately show thesis
    using append_all_ok [of es m] that by (auto simp: appendBatchLocked_def)
qed

lemma appendBatchLocked_fail:
  "\<not> batch_ok m es \<Longrightarrow> \<exists>err. appendBatchLocked es m = (m, Some err)"
  by (auto simp: appendBatchLocked_def batch_check_ok [symmetric])

section \<open>Growth of the append order\<close>

definition grows :: "'p memory \<Rightarrow> 'p memory \<Rightarrow> bool" where
  "grows m m' \<longleftrightarrow> (\<exists>ext. m_order m' = m_order m @ ext) \<and>
     (\<forall>e. stored m' e \<longrightarrow> stored m e \<or> length (m_order m) < ev_RowID e)"

lemma grows_refl [simp]: "grows m m"
  by (simp add: grows_def)

lemma grows_trans: "grows a b \<Longrightarrow> grows b c \<Longrightarrow> grows a c"
  unfolding grows_def by (metis append.assoc le_add1 length_append order_le_less_trans)

lemma grows_same: "m_order m' = m_order m \<Longrightarrow> m_events m' = m_events m \<Longrightarrow> grows m m'"
  by (simp add: grows_def stored_def)

lemma grows_appendLocked: "grows m (fst (appendLocked e m))"
proof (cases e m rule: appendLocked_cases)
  case (ok m')
  then show ?thesis by (auto simp: grows_def stored_upd [OF ok(4)] stamped_def)
qed auto

lemma grows_append_all: "grows m (fst (append_all es m))"
proof (induction es arbitrary: m)
  case (Cons e es)
  obtain m' r where a: "appendLocked e m = (m', r)" by (cases "appendLocked e m")
  then have "grows m m'" using grows_appendLocked [of m e] by simp
  then show ?case using a Cons.IH [of m'] by (auto split: option.splits intro: grows_trans)
qed simp

lemma grows_deleteRunLocked: "grows m (deleteRunLocked r q m)"
  by (auto simp: grows_def stored_def deleteRunLocked_events split: if_splits)

lemma grows_step: "grows m (mem_step op m)"
proof (cases op)
  case (OpAppendAndDeleteRun e c)
  obtain m' r where a: "appendLocked e m = (m', r)" by (cases "appendLocked e m")
  then have "grows m m'" using grows_appendLocked [of m e] by simp
  then show ?thesis
    using OpAppendAndDeleteRun a
    by (auto simp: mem_step_def mem_AppendAndDeleteRun_def grows_deleteRunLocked
        split: option.splits intro: grows_trans)
next
  case (OpDeleteRun r q)
  then show ?thesis by (simp add: mem_step_def mem_DeleteRun_def grows_deleteRunLocked)
qed (auto simp: mem_step_def append_defs claim_op_defs mem_PutContent_def Let_def
      grows_appendLocked grows_append_all split: if_splits option.splits intro!: grows_same)

lemma grows_run_ops: "grows m (run_ops mem_step ops m)"
  by (rule run_ops_invariant) (auto intro: grows_trans grows_step)

lemma changes_loop_eq:
  "map_of (changes_loop M rs out) r =
     (if map_of out r \<noteq> None then map_of out r
      else if r \<in> set rs then Some (mget_or 0 M r) else None)"
  by (induction rs arbitrary: out) (auto simp: update_conv')

lemma changes_loop_distinct:
  "distinct (map fst out) \<Longrightarrow> distinct (map fst (changes_loop M rs out))"
  by (induction rs arbitrary: out) (auto simp: distinct_update)

lemma Changes_eq:
  "map_of (fst (mem_Changes k m)) r =
     (if r \<in> set (drop k (m_order m)) then Some (mget_or 0 (m_maxSeq m) r) else None)"
  by (simp add: mem_Changes_def Let_def changes_loop_eq)

lemma Changes_distinct: "distinct (map fst (fst (mem_Changes k m)))"
  by (simp add: mem_Changes_def Let_def changes_loop_distinct)

lemma reachable_events_inv: "mem_reachable m \<Longrightarrow> events_inv m"
proof (induction rule: mem_reachable.induct)
  case init
  then show ?case by (auto simp: events_inv_def NewMemory_def stored_def seq_recorded_def)
qed (rule events_inv_step)

lemma reachable_claims_inv: "mem_reachable m \<Longrightarrow> claims_inv m"
proof (induction rule: mem_reachable.induct)
  case init
  then show ?case by (simp add: claims_inv_def NewMemory_def)
qed (rule claims_inv_step)

section \<open>Fenced tokens\<close>

lemma fenced_step_mono:
  "mget_or {} (m_fencedTokens m) r \<subseteq> mget_or {} (m_fencedTokens (mem_step op m)) r"
proof -
  have a: "m_fencedTokens (fst (appendLocked e m)) = m_fencedTokens m" for e and m :: "'a memory"
    by (simp add: appendLocked_def Let_def)
  have b: "m_fencedTokens (fst (append_all es m)) = m_fencedTokens m" for es and m :: "'a memory"
  proof (induction es arbitrary: m)
    case (Cons e es)
    obtain m' r where x: "appendLocked e m = (m', r)" by (cases "appendLocked e m")
    then have "m_fencedTokens m' = m_fencedTokens m" using a [of e m] by simp
    then show ?case using x Cons by (auto split: option.splits)
  qed simp
  have c: "m_fencedTokens (deleteRunLocked r q m) = m_fencedTokens m" for r q and m :: "'a memory"
    by (simp add: deleteRunLocked_def Let_def)
  show ?thesis
  proof (cases op)
    case (OpAppendAndDeleteRun e cl)
    obtain m' r where x: "appendLocked e m = (m', r)" by (cases "appendLocked e m")
    then have "m_fencedTokens m' = m_fencedTokens m" using a [of e m] by simp
    then show ?thesis
      using OpAppendAndDeleteRun x
      by (auto simp: mem_step_def mem_AppendAndDeleteRun_def c split: option.splits)
  qed (auto simp: mem_step_def append_defs claim_op_defs mem_PutContent_def mem_DeleteRun_def Let_def
        a b c split: if_splits option.splits)
qed

lemma fenced_run_ops_mono:
  "mget_or {} (m_fencedTokens m) r \<subseteq> mget_or {} (m_fencedTokens (run_ops mem_step ops m)) r"
  by (rule run_ops_invariant) (use fenced_step_mono in blast)+

text \<open>A successful grant to another holder while a claim is in place is a takeover.\<close>

lemma handover_fences:
  assumes "m_claims m r = Some tok" "mem_exec op m = (m1, None)" "mem_grants op r B" "B \<noteq> c_Holder tok"
  shows "c_Holder tok \<in> mget_or {} (m_fencedTokens m1) r" "\<not> held_by m_claims m1 r (c_Holder tok)"
  using assms
  by (cases op; auto simp: claim_op_defs err_of_def held_by_def Let_def split: if_splits)+

end
