(* ===== verification/Storage_Properties.thy ===== *)
theory Storage_Properties
  imports Storage_Laws
begin

text \<open>
  The properties of the event store: fencing of displaced holders, exclusivity of
  claims, the data invariant over every reachable state, atomicity of batches, the
  change probe, and deletion followed by re-admission.
\<close>

definition demo_event :: "string \<Rightarrow> string \<Rightarrow> int \<Rightarrow> nat event" where
  "demo_event i r q = \<lparr>ev_ID = i, ev_RunID = r, ev_Sequence = q, ev_Kind = ''k'', ev_Payload = [1], ev_RowID = 0\<rparr>"

definition demo_claim :: "string \<Rightarrow> string \<Rightarrow> 64 word \<Rightarrow> claim" where
  "demo_claim r h f = \<lparr>c_RunID = r, c_Holder = h, c_AcquiredAt = Stamp 5, c_Fence = f\<rparr>"

definition demo_held :: "nat memory" where
  "demo_held = NewMemory\<lparr>m_claims := [''r'' \<mapsto> demo_claim ''r'' ''A'' 1]\<rparr>"

lemmas demo_defs = demo_event_def demo_claim_def demo_held_def NewMemory_def

text \<open>
  C1. Once an operation has handed a held run to another holder, the displaced holder
  stays out: whatever operations follow, as long as none of them grants it the run
  again, its captured claim can neither append, append with its existing claim, nor
  release, the store is left unchanged by such attempts, and the token reads as fenced.
\<close>

theorem displaced_holder_is_fenced_out:
  assumes tok: "m_claims m r = Some tok" "c_RunID tok = r" "c_Holder tok \<noteq> []"
    and handover: "mem_exec op m = (m1, None)" "mem_grants op r B" "B \<noteq> c_Holder tok"
    and later: "\<forall>x \<in> set ops. \<not> mem_grants x r (c_Holder tok)"
    and e: "ev_RunID e = r"
  shows "let m2 = run_ops mem_step ops m1 in
     mem_AppendClaimedFenced e tok m2 = (m2, Some ErrClaimHeld) \<and>
     mem_AppendWithExistingClaim e (c_Holder tok) m2 = (m2, Some ErrClaimHeld) \<and>
     mem_ReleaseClaimFenced tok m2 = (m2, Some ErrClaimNotHeld) \<and>
     mem_ReleaseClaim r (c_Holder tok) m2 = (m2, Some ErrClaimNotHeld) \<and>
     mem_IsRunTokenFenced r (c_Holder tok) m2"
proof -
  let ?m2 = "run_ops mem_step ops m1"
  note ho = handover_fences [OF tok(1) handover]
  have out: "\<not> held_by m_claims ?m2 r (c_Holder tok)"
    by (rule memlease.ejected_stays_out [OF ho(2) later])
  have "c_Holder tok \<in> mget_or {} (m_fencedTokens ?m2) r"
    using ho(1) fenced_run_ops_mono by blast
  then have fenced: "mem_IsRunTokenFenced r (c_Holder tok) ?m2"
    using out tok(3) by (auto simp: mem_IsRunTokenFenced_def held_by_def mget_or_def split: option.splits)
  have "mem_AppendClaimedFenced e tok ?m2 = (?m2, Some ErrClaimHeld)"
    using memlease.ejected_cannot_append [of m1 e tok ops] ho(2) later e by simp
  then show ?thesis
    using out fenced tok(2) e
    by (auto simp: Let_def held_by_def mem_AppendWithExistingClaim_def mem_ReleaseClaimFenced_def
        mem_ReleaseClaim_def split: option.splits)
qed

lemma displaced_holder_is_fenced_out_witness:
  "let m2 = run_ops mem_step [OpReleaseClaim ''r'' ''B''] (mem_step (OpTakeoverClaim 7 ''r'' ''B'') demo_held) in
     mem_AppendClaimedFenced (demo_event ''e'' ''r'' 1) (demo_claim ''r'' ''A'' 1) m2 = (m2, Some ErrClaimHeld) \<and>
     mem_AppendWithExistingClaim (demo_event ''e'' ''r'' 1) ''A'' m2 = (m2, Some ErrClaimHeld) \<and>
     mem_ReleaseClaimFenced (demo_claim ''r'' ''A'' 1) m2 = (m2, Some ErrClaimNotHeld) \<and>
     mem_ReleaseClaim ''r'' ''A'' m2 = (m2, Some ErrClaimNotHeld) \<and>
     mem_IsRunTokenFenced ''r'' ''A'' m2"
proof -
  have h: "c_Holder (demo_claim ''r'' ''A'' 1) = ''A''" by (simp add: demo_claim_def)
  have x: "mem_exec (OpTakeoverClaim 7 ''r'' ''B'') demo_held =
      (mem_step (OpTakeoverClaim 7 ''r'' ''B'') demo_held, None)"
    by (simp add: mem_step_def demo_defs mem_TakeoverClaim_def Let_def)
  show ?thesis
    using displaced_holder_is_fenced_out [of demo_held "''r''" "demo_claim ''r'' ''A'' 1"
        "OpTakeoverClaim 7 ''r'' ''B''" "mem_step (OpTakeoverClaim 7 ''r'' ''B'') demo_held" "''B''"
        "[OpReleaseClaim ''r'' ''B'']" "demo_event ''e'' ''r'' 1"] x
    unfolding h by (simp add: demo_defs)
qed

text \<open>
  C2. While a run stays claimed, a lost fence stays lost: if the claim left the holder
  at some point of a sequence of operations, the captured claim no longer authorises an
  append at the end of it, even when the same holder has been granted the run again.
\<close>

theorem lost_fence_never_authorises:
  assumes "held_throughout m_claims mem_step (ev_RunID e) (xs @ ys) m"
    "m_claims m (ev_RunID e) = Some tok"
    "\<not> held_by m_claims (run_ops mem_step xs m) (ev_RunID e) (c_Holder tok)"
    "unat (c_Fence tok) + length (xs @ ys) < 2 ^ 64"
  shows "mem_AppendClaimedFenced e tok (run_ops mem_step (xs @ ys) m) =
    (run_ops mem_step (xs @ ys) m, Some ErrClaimHeld)"
  by (rule memlease.lost_fence_refused [OF assms])

lemma lost_fence_never_authorises_witness:
  "mem_AppendClaimedFenced (demo_event ''e'' ''r'' 1) (demo_claim ''r'' ''A'' 1)
     (run_ops mem_step ([OpTakeoverClaim 7 ''r'' ''B''] @ [OpTakeoverClaim 8 ''r'' ''A'']) demo_held) =
   (run_ops mem_step ([OpTakeoverClaim 7 ''r'' ''B''] @ [OpTakeoverClaim 8 ''r'' ''A'']) demo_held,
    Some ErrClaimHeld)"
  by (rule lost_fence_never_authorises)
    (simp_all add: held_by_def mem_step_def demo_defs mem_TakeoverClaim_def recordFencedLocked_def)

text \<open>
  Operations that may end or move the claim of a run other than a plain claim request.
\<close>

fun mem_displaces :: "'p mem_op \<Rightarrow> string \<Rightarrow> bool" where
  "mem_displaces (OpDeleteRun r q) r' \<longleftrightarrow> r = r'"
| "mem_displaces (OpAppendAndDeleteRun e c) r' \<longleftrightarrow> ev_RunID e = r'"
| "mem_displaces (OpTakeoverClaim now r h) r' \<longleftrightarrow> r = r'"
| "mem_displaces (OpTakeoverExpired n1 n2 r h d) r' \<longleftrightarrow> r = r'"
| "mem_displaces (OpReleaseClaimFenced c) r' \<longleftrightarrow> c_RunID c = r'"
| "mem_displaces (OpReleaseClaim r h) r' \<longleftrightarrow> r = r'"
| "mem_displaces (OpClearClaim r) r' \<longleftrightarrow> r = r'"
| "mem_displaces _ _ \<longleftrightarrow> False"

lemma undisplaced_step:
  assumes "held_by m_claims m r h" "\<not> mem_displaces op r"
  shows "held_by m_claims (mem_step op m) r h"
proof (cases op)
  case (OpAppendAndDeleteRun e c)
  then show ?thesis using assms by (auto simp: held_by_def mem_step_def AppendAndDeleteRun_claims)
qed (use assms in \<open>auto simp: held_by_def mem_step_def append_defs claim_op_defs mem_DeleteRun_def
       mem_PutContent_def Let_def split: if_splits option.splits\<close>)

text \<open>
  C3. Claims are exclusive: after a successful ClaimRun, and as long as nobody releases,
  clears, deletes or takes over the run, every claim request of another holder is
  refused, its claimed appends are refused, and the holder itself is never refused for
  its claim.
\<close>

theorem claim_is_exclusive:
  assumes "mem_ClaimRunFenced now r A m = (m1, Inr c)" "\<forall>x \<in> set ops. \<not> mem_displaces x r"
    "B \<noteq> A" "ev_RunID e = r"
  shows "let m2 = run_ops mem_step ops m1 in
     (B \<noteq> [] \<longrightarrow> mem_ClaimRunFenced now' r B m2 = (m2, Inl ErrClaimHeld)) \<and>
     mem_AppendClaimed e B m2 = (m2, Some ErrClaimHeld) \<and>
     mem_AppendWithExistingClaim e B m2 = (m2, Some ErrClaimHeld) \<and>
     mem_AppendClaimed e A m2 = appendLocked e m2 \<and>
     mem_AppendWithExistingClaim e A m2 = appendLocked e m2"
proof -
  have A: "A \<noteq> []" and "held_by m_claims m1 r A"
    using assms(1) by (auto simp: mem_ClaimRunFenced_def held_by_def Let_def split: if_splits option.splits)
  then have "held_by m_claims (run_ops mem_step ops m1) r A"
    by (intro run_ops_invariant [where I = "\<lambda>s. held_by m_claims s r A"])
      (use assms(2) undisplaced_step in blast)+
  then show ?thesis
    using assms(3,4) A
    by (auto simp: Let_def held_by_def mem_ClaimRunFenced_def mem_AppendClaimed_def mem_AppendWithExistingClaim_def)
qed

lemma claim_is_exclusive_witness:
  "let m2 = run_ops mem_step [OpAppend (demo_event ''x'' ''r'' 1)] (fst (mem_ClaimRunFenced 3 ''r'' ''A'' (NewMemory :: nat memory))) in
     mem_ClaimRunFenced 9 ''r'' ''B'' m2 = (m2, Inl ErrClaimHeld) \<and>
     mem_AppendClaimed (demo_event ''e'' ''r'' 2) ''A'' m2 = appendLocked (demo_event ''e'' ''r'' 2) m2"
proof -
  let ?m1 = "fst (mem_ClaimRunFenced 3 ''r'' ''A'' (NewMemory :: nat memory))"
  have m1: "mem_ClaimRunFenced 3 ''r'' ''A'' (NewMemory :: nat memory) =
      (?m1, Inr \<lparr>c_RunID = ''r'', c_Holder = ''A'', c_AcquiredAt = Stamp 3, c_Fence = 1\<rparr>)"
    by (simp add: mem_ClaimRunFenced_def NewMemory_def Let_def format_stamp_def)
  have "\<forall>x \<in> set [OpAppend (demo_event ''x'' ''r'' 1)]. \<not> mem_displaces x ''r''"
    "ev_RunID (demo_event ''e'' ''r'' 2) = ''r''" "''B'' \<noteq> ''A''" by (simp_all add: demo_event_def)
  from claim_is_exclusive [OF m1 this(1) this(3) this(2), of 9] show ?thesis
    unfolding Let_def by blast
qed

text \<open>
  C4. Every reachable store satisfies its data invariant: the id index is exactly the
  set of stored event ids, ids identify events, rows increase along each run and point
  at the run in the append order, the recorded sequence of a run is that of one of its
  events, and every claim names its own run and a holder.
\<close>

theorem store_invariant:
  assumes "mem_reachable m"
  shows "events_inv m \<and> claims_inv m"
  using assms by (simp add: reachable_events_inv reachable_claims_inv)

lemma store_invariant_witness:
  "events_inv (mem_step (OpAppend (demo_event ''x'' ''r'' 1)) NewMemory) \<and>
   claims_inv (mem_step (OpAppend (demo_event ''x'' ''r'' 1)) NewMemory)"
  by (rule store_invariant) (intro mem_reachable.intros)

lemma Events_evs: "mem_Events r m = mem_evs m r"
  by (simp add: mem_Events_def map_idI)

text \<open>
  A batch is atomic: it is admitted exactly when it satisfies the specification
  \<open>batch_ok\<close>, an admitted batch is appended whole, in order, with consecutive rows,
  and a refused one leaves the store untouched.
\<close>

theorem AppendBatch_atomic:
  "(snd (mem_AppendBatch es m) = None \<longleftrightarrow> batch_ok m es) \<and>
   (\<not> batch_ok m es \<longrightarrow> fst (mem_AppendBatch es m) = m) \<and>
   (batch_ok m es \<longrightarrow>
      (\<forall>r. mem_Events r (fst (mem_AppendBatch es m)) =
         mem_Events r m @ filter (\<lambda>e. ev_RunID e = r) (stamp_from (length (m_order m)) es)))"
proof (cases "batch_ok m es")
  case True
  then show ?thesis
    by (rule appendBatchLocked_ok) (use True in \<open>auto simp: mem_AppendBatch_def Events_evs\<close>)
next
  case False
  then show ?thesis
    using appendBatchLocked_fail [OF False] by (auto simp: mem_AppendBatch_def)
qed

lemma AppendBatch_atomic_witness:
  "mem_Events ''r'' (fst (mem_AppendBatch [demo_event ''a'' ''r'' 1, demo_event ''b'' ''r'' 2] NewMemory)) =
     [(demo_event ''a'' ''r'' 1)\<lparr>ev_RowID := 1\<rparr>, (demo_event ''b'' ''r'' 2)\<lparr>ev_RowID := 2\<rparr>]"
proof -
  have ok: "batch_ok NewMemory [demo_event ''a'' ''r'' 1, demo_event ''b'' ''r'' 2]"
    by (simp add: batch_ok_def demo_defs)
  show ?thesis
    using AppendBatch_atomic [of "[demo_event ''a'' ''r'' 1, demo_event ''b'' ''r'' 2]" NewMemory] ok
    by (simp add: mem_Events_def demo_defs)
qed

text \<open>
  The change probe misses nothing: a reader holding the cursor of an earlier state
  is told of every run that gained an event since, with its recorded sequence, and is
  told of no run at all exactly when nothing was appended.
\<close>

theorem Changes_complete:
  assumes "mem_reachable m" "m' = run_ops mem_step ops m" "cursor = snd (mem_Changes k m)"
  shows "(stored m' e \<and> \<not> stored m e \<longrightarrow>
      map_of (fst (mem_Changes cursor m')) (ev_RunID e) = Some (mget_or 0 (m_maxSeq m') (ev_RunID e))) \<and>
    (fst (mem_Changes cursor m') = [] \<longleftrightarrow> m_order m' = m_order m)"
proof
  have cur: "cursor = length (m_order m)" using assms(3) by (simp add: mem_Changes_def Let_def)
  obtain ext where ext: "m_order m' = m_order m @ ext"
    and new: "stored m' e \<Longrightarrow> stored m e \<or> length (m_order m) < ev_RowID e"
    using grows_run_ops [of m ops] assms(2) unfolding grows_def by blast
  show "stored m' e \<and> \<not> stored m e \<longrightarrow>
      map_of (fst (mem_Changes cursor m')) (ev_RunID e) = Some (mget_or 0 (m_maxSeq m') (ev_RunID e))"
  proof (intro impI, elim conjE)
    assume e: "stored m' e" "\<not> stored m e"
    then have row: "length (m_order m) < ev_RowID e" using new by blast
    have "events_inv m'" using assms(1,2) by (simp add: reachable_events_inv mem_reachable_run_ops)
    then obtain r where "event_ok m' r e" using e(1) events_invD(2) unfolding stored_def by blast
    then have "ev_RowID e - 1 < length (m_order m')" "m_order m' ! (ev_RowID e - 1) = ev_RunID e"
      by (auto simp: event_ok_def)
    moreover have "\<not> ev_RowID e - 1 < length (m_order m)" using row by simp
    ultimately have "ev_RunID e = ext ! (ev_RowID e - 1 - length (m_order m))"
      "ev_RowID e - 1 - length (m_order m) < length ext"
      by (auto simp: ext nth_append)
    then show "map_of (fst (mem_Changes cursor m')) (ev_RunID e) = Some (mget_or 0 (m_maxSeq m') (ev_RunID e))"
      by (auto simp: Changes_eq cur ext)
  qed
  have "fst (mem_Changes cursor m') = [] \<longleftrightarrow> set ext = {}"
    using Changes_eq [of cursor m'] unfolding cur ext
    by (metis append_eq_conv_conj equals0D list.set_intros(1) map_of.simps(1) neq_Nil_conv option.distinct(1)
        prod.collapse map_of_Cons_code(2) subsetI subset_empty)
  then show "fst (mem_Changes cursor m') = [] \<longleftrightarrow> m_order m' = m_order m"
    by (simp add: ext)
qed

lemma Changes_complete_witness:
  "map_of (fst (mem_Changes 0 (mem_step (OpAppend (demo_event ''x'' ''r'' 4)) NewMemory))) ''r'' = Some 4"
proof -
  let ?m = "mem_step (OpAppend (demo_event ''x'' ''r'' 4)) NewMemory"
  have st: "stored ?m ((demo_event ''x'' ''r'' 4)\<lparr>ev_RowID := 1\<rparr>)"
    unfolding stored_def
    by (rule exI [of _ "''r''"]) (simp add: mem_step_def mem_Append_def appendLocked_def demo_defs Let_def)
  moreover have "\<not> stored NewMemory ((demo_event ''x'' ''r'' 4)\<lparr>ev_RowID := 1\<rparr>)"
    by (simp add: stored_def NewMemory_def)
  ultimately have "map_of (fst (mem_Changes 0 ?m)) ''r'' = Some (mget_or 0 (m_maxSeq ?m) ''r'')"
    using Changes_complete [of NewMemory ?m "[OpAppend (demo_event ''x'' ''r'' 4)]" 0 0
        "(demo_event ''x'' ''r'' 4)\<lparr>ev_RowID := 1\<rparr>"]
    by (simp add: mem_reachable.init demo_event_def) (simp add: mem_Changes_def NewMemory_def)
  then show ?thesis by (simp add: mem_step_def mem_Append_def appendLocked_def demo_defs Let_def)
qed

text \<open>
  An expired claim is taken over exactly when its stamp is at least maxAge old; the
  new claim carries a non-zero fence that differs from the displaced one, so the old claim
  is refused from then on even when the same holder renews it, and a fresh claim is left
  as it was.
\<close>

theorem TakeoverExpired_spec:
  assumes "mem_reachable m"
  shows "((\<exists>c. snd (mem_TakeoverExpiredClaimFenced now1 now2 r holder maxAge m) = Inr c) \<longleftrightarrow>
      holder \<noteq> [] \<and> (\<exists>old t. m_claims m r = Some old \<and> c_AcquiredAt old = Stamp t \<and> maxAge \<le> time_sub now1 t)) \<and>
    (\<forall>m' c old. mem_TakeoverExpiredClaimFenced now1 now2 r holder maxAge m = (m', Inr c) \<and> m_claims m r = Some old \<longrightarrow>
      m_claims m' = (m_claims m)(r \<mapsto> c) \<and> c_Holder c = holder \<and> c_RunID c = r \<and> c_Fence c \<noteq> 0 \<and>
      (ev_RunID e = r \<longrightarrow> mem_AppendClaimedFenced e old m' = (m', Some ErrClaimHeld))) \<and>
    (\<forall>m' err. mem_TakeoverExpiredClaimFenced now1 now2 r holder maxAge m = (m', Inl err) \<longrightarrow> m' = m)"
proof -
  have ci: "claims_inv m" using assms by (rule reachable_claims_inv)
  then have st: "\<exists>t. c_AcquiredAt old = Stamp t" if "m_claims m r = Some old" for old
    using that by (cases "c_AcquiredAt old") (auto simp: claims_inv_def)
  have rn: "c_RunID old = r" if "m_claims m r = Some old" for old
    using ci that by (simp add: claims_inv_def)
  have w: "(f :: 64 word) \<noteq> f + 1" "f + 1 = 0 \<Longrightarrow> f \<noteq> 1" for f
    by auto
  show ?thesis
    using st rn w
    by (auto simp: mem_TakeoverExpiredClaimFenced_def parse_stamp_def recordFencedLocked_def Let_def
        mem_AppendClaimedFenced_def not_less split: option.splits if_splits acquired.splits)
qed

lemma TakeoverExpired_spec_witness:
  "\<exists>m' c. mem_TakeoverExpiredClaimFenced 50 51 ''r'' ''B'' 10
      (mem_step (OpClaimRun 5 ''r'' ''A'') (NewMemory :: nat memory)) = (m', Inr c) \<and>
    c_Holder c = ''B'' \<and> c_Fence c \<noteq> 0"
proof -
  let ?m = "mem_step (OpClaimRun 5 ''r'' ''A'') (NewMemory :: nat memory)"
  let ?old = "\<lparr>c_RunID = ''r'', c_Holder = ''A'', c_AcquiredAt = Stamp 5, c_Fence = 1\<rparr>"
  have reach: "mem_reachable ?m" by (intro mem_reachable.intros)
  have cl: "m_claims ?m ''r'' = Some ?old"
    by (simp add: mem_step_def mem_ClaimRun_def mem_ClaimRunFenced_def NewMemory_def Let_def format_stamp_def)
  note spec = TakeoverExpired_spec [OF reach, of 50 51 "''r''" "''B''" 10]
  have "\<exists>c. snd (mem_TakeoverExpiredClaimFenced 50 51 ''r'' ''B'' 10 ?m) = Inr c"
    using spec cl by (simp add: time_sub_def max_duration_def min_duration_def)
  then obtain m' c where "mem_TakeoverExpiredClaimFenced 50 51 ''r'' ''B'' 10 ?m = (m', Inr c)"
    by (metis prod.collapse)
  with spec cl show ?thesis by blast
qed

text \<open>
  Deleting a run with a tombstone whose sequence lies above its events leaves exactly
  the tombstone in that run, frees the ids of the removed events, drops the claim, leaves
  every other run alone, and makes the run admissible again as a new run.
\<close>

theorem AppendAndDeleteRun_effect:
  assumes "mem_reachable m" "mem_AppendAndDeleteRun tomb c m = (m', None)"
    "\<forall>x \<in> set (mem_Events (ev_RunID tomb) m). ev_Sequence x < ev_Sequence tomb"
    "ev_Kind tomb = KindRunDeleted"
  shows "mem_Events (ev_RunID tomb) m' = [stamped m tomb] \<and>
    m_ids m' = insert (ev_ID tomb) (m_ids m - ev_ID ` set (mem_Events (ev_RunID tomb) m)) \<and>
    mem_IsRunHeld (ev_RunID tomb) m' = False \<and>
    (\<forall>r. r \<noteq> ev_RunID tomb \<longrightarrow> mem_Events r m' = mem_Events r m \<and> m_claims m' r = m_claims m r) \<and>
    mem_AppendBatchForNewRun (ev_RunID tomb) es m' = mem_AppendBatch es m'"
proof -
  let ?r = "ev_RunID tomb" and ?q = "ev_Sequence tomb"
  show ?thesis
  proof (cases tomb m rule: appendLocked_cases)
    case (ok m1)
    have m': "m' = deleteRunLocked ?r (?q - 1) m1"
      using assms(2) ok(3) by (simp add: mem_AppendAndDeleteRun_def split: if_splits)
    have low: "\<forall>x \<in> set (mem_evs m ?r). ev_Sequence x < ?q" using assms(3) by (simp add: Events_evs)
    have e1: "mem_evs m1 r = (if r = ?r then mem_evs m r @ [stamped m tomb] else mem_evs m r)" for r
      by (simp add: ok(4))
    have sq: "ev_Sequence (stamped m tomb) = ?q" "ev_ID (stamped m tomb) = ev_ID tomb"
      "ev_Kind (stamped m tomb) = KindRunDeleted"
      using assms(4) by (simp_all add: stamped_def)
    have none: "filter (\<lambda>e. ?q - 1 < ev_Sequence e) (mem_evs m ?r) = []"
      using low by (force simp: filter_empty_conv)
    have drop: "{e \<in> set (mem_evs m1 ?r). ev_Sequence e \<le> ?q - 1} = set (mem_evs m ?r)"
      using low sq(1) by (force simp: e1)
    have fresh: "ev_ID tomb \<notin> ev_ID ` set (mem_evs m ?r)"
      using ok(1) events_invD(4) [OF reachable_events_inv [OF assms(1)]] by (auto simp: stored_def)
    have ev: "mem_evs m' r = (if r = ?r then [stamped m tomb] else mem_evs m r)" for r
      using none by (simp add: m' deleteRunLocked_events e1 sq)
    have "m_ids m' = insert (ev_ID tomb) (m_ids m - ev_ID ` set (mem_evs m ?r))"
      unfolding m' deleteRunLocked_ids drop ok(5) using fresh by auto
    moreover have "m_claims m' = (m_claims m)(?r := None)" by (simp add: m' ok(8))
    ultimately show ?thesis
      by (auto simp: Events_evs ev mem_IsRunHeld_def mem_AppendBatchForNewRun_def mem_AppendBatch_def sq(3))
  qed (use assms(2) in \<open>auto simp: mem_AppendAndDeleteRun_def split: if_splits\<close>)
qed

definition demo_tomb :: "nat event" where
  "demo_tomb = \<lparr>ev_ID = ''t'', ev_RunID = ''r'', ev_Sequence = 2, ev_Kind = KindRunDeleted, ev_Payload = [1], ev_RowID = 0\<rparr>"

lemma AppendAndDeleteRun_effect_witness:
  "mem_Events ''r'' (fst (mem_AppendAndDeleteRun demo_tomb zero_claim
      (mem_step (OpAppend (demo_event ''x'' ''r'' 1)) NewMemory))) = [demo_tomb\<lparr>ev_RowID := 2\<rparr>]"
proof -
  let ?m = "mem_step (OpAppend (demo_event ''x'' ''r'' 1)) NewMemory"
  let ?d = "mem_AppendAndDeleteRun demo_tomb zero_claim ?m"
  have ok: "snd ?d = None" and low: "\<forall>x \<in> set (mem_Events ''r'' ?m). ev_Sequence x < 2"
    and ord: "length (m_order ?m) = 1"
    by (simp_all add: mem_step_def mem_Append_def mem_AppendAndDeleteRun_def appendLocked_def Events_evs
        demo_defs demo_tomb_def Let_def)
  have "?d = (fst ?d, None)" using ok by (metis prod.collapse)
  from AppendAndDeleteRun_effect [OF _ this] low ord show ?thesis
    by (auto simp: mem_reachable.intros demo_tomb_def stamped_def)
qed

end
