(* ===== verification/Ledger_Core.thy ===== *)
theory Ledger_Core
  imports Storage_Laws
begin

text \<open>
  The shared event-sourcing core (src/internal/ledger/core): error mapping, the claims
  tracker, the watermark tracker and the engine, written over an arbitrary storage.Store.
  A Store is the record \<open>store_ops\<close> of its methods; the optional interfaces the code
  discovers by type assertion (FencedLeaseStore, LeaseStore, ClaimReader, the two
  liveness probes, ExistingClaimAppender) are optional fields of it.  \<open>mem_ops\<close> is the Memory store.
\<close>

section \<open>Errors\<close>

datatype lerr = LErrNotFound | LErrConflict | LErrDuplicate | LErrClaimHeld | LErrClaimNotHeld
  | LErrClosed | LErrInvalidTransition | LErrContentNotFound
  | LErrEmptyStatus | LErrPayloadTooLarge | LErrDigestMismatch | LErrOther string
  | LErrStore store_err | LErrWrap string lerr

text \<open>errors.Is: equality along the chain of wrapped errors.\<close>

fun errors_is :: "lerr \<Rightarrow> lerr \<Rightarrow> bool" where
  "errors_is (LErrWrap msg e) target \<longleftrightarrow> LErrWrap msg e = target \<or> errors_is e target"
| "errors_is e target \<longleftrightarrow> e = target"

fun MapStorageError :: "lerr option \<Rightarrow> lerr option" where
  "MapStorageError None = None"
| "MapStorageError (Some err) =
     (if errors_is err (LErrStore ErrClaimHeld) then Some LErrClaimHeld
      else if errors_is err (LErrStore ErrClaimNotHeld) then Some LErrClaimNotHeld
      else if errors_is err (LErrStore ErrDuplicate) then Some LErrDuplicate
      else if errors_is err (LErrStore ErrContentNotFound) then Some LErrContentNotFound
      else Some err)"

definition map_store_err :: "store_err \<Rightarrow> lerr" where
  "map_store_err e = the (MapStorageError (Some (LErrStore e)))"

section \<open>The Store interface\<close>

record ('s, 'p) fenced_ops =
  fo_ClaimRunFenced :: "time \<Rightarrow> string \<Rightarrow> string \<Rightarrow> 's \<Rightarrow> 's \<times> (store_err + claim)"
  fo_TakeoverExpiredClaimFenced :: "time \<Rightarrow> time \<Rightarrow> string \<Rightarrow> string \<Rightarrow> duration \<Rightarrow> 's \<Rightarrow> 's \<times> (store_err + claim)"
  fo_TakeoverClaimFenced :: "time \<Rightarrow> string \<Rightarrow> string \<Rightarrow> 's \<Rightarrow> 's \<times> (store_err + claim)"
  fo_RefreshClaimFenced :: "time \<Rightarrow> string \<Rightarrow> string \<Rightarrow> 's \<Rightarrow> 's \<times> (store_err + claim)"
  fo_AppendClaimedFenced :: "'p event \<Rightarrow> claim \<Rightarrow> 's \<Rightarrow> 's \<times> store_err option"
  fo_ReleaseClaimFenced :: "claim \<Rightarrow> 's \<Rightarrow> 's \<times> store_err option"

record ('s, 'p) store_ops =
  so_Append :: "'p event \<Rightarrow> 's \<Rightarrow> 's \<times> store_err option"
  so_AppendClaimed :: "'p event \<Rightarrow> string \<Rightarrow> 's \<Rightarrow> 's \<times> store_err option"
  so_AppendAndDeleteRun :: "'p event \<Rightarrow> claim \<Rightarrow> 's \<Rightarrow> 's \<times> store_err option"
  so_Events :: "string \<Rightarrow> 's \<Rightarrow> store_err + 'p event list"
  so_EventsSince :: "string \<Rightarrow> int \<Rightarrow> 's \<Rightarrow> store_err + 'p event list"
  so_DeleteRun :: "string \<Rightarrow> int \<Rightarrow> 's \<Rightarrow> 's \<times> store_err option"
  so_Changes :: "nat \<Rightarrow> 's \<Rightarrow> store_err + (string, int) gomap \<times> nat"
  so_ClaimRun :: "time \<Rightarrow> string \<Rightarrow> string \<Rightarrow> 's \<Rightarrow> 's \<times> store_err option"
  so_TakeoverClaim :: "time \<Rightarrow> string \<Rightarrow> string \<Rightarrow> 's \<Rightarrow> 's \<times> store_err option"
  so_ReleaseClaim :: "string \<Rightarrow> string \<Rightarrow> 's \<Rightarrow> 's \<times> store_err option"
  so_ClearClaim :: "string \<Rightarrow> 's \<Rightarrow> 's \<times> store_err option"
  so_PutContent :: "string \<Rightarrow> 'p list \<Rightarrow> 's \<Rightarrow> 's \<times> store_err option"
  so_GetContent :: "string \<Rightarrow> 's \<Rightarrow> store_err + 'p list"
  so_Close :: "'s \<Rightarrow> 's \<times> store_err option"
  so_fenced :: "('s, 'p) fenced_ops option"
  so_lease :: "(time \<Rightarrow> time \<Rightarrow> string \<Rightarrow> string \<Rightarrow> duration \<Rightarrow> 's \<Rightarrow> 's \<times> store_err option) option"
  so_reader :: "(string \<Rightarrow> 's \<Rightarrow> store_err + claim) option"
  so_held :: "(string \<Rightarrow> 's \<Rightarrow> store_err + bool) option"
  so_tokenFenced :: "(string \<Rightarrow> string \<Rightarrow> 's \<Rightarrow> store_err + bool) option"
  so_existing :: "('p event \<Rightarrow> string \<Rightarrow> 's \<Rightarrow> 's \<times> store_err option) option"

definition mem_fenced_ops :: "('p memory, 'p) fenced_ops" where
  "mem_fenced_ops = \<lparr>fo_ClaimRunFenced = mem_ClaimRunFenced,
     fo_TakeoverExpiredClaimFenced = mem_TakeoverExpiredClaimFenced,
     fo_TakeoverClaimFenced = mem_TakeoverClaimFenced,
     fo_RefreshClaimFenced = mem_RefreshClaimFenced,
     fo_AppendClaimedFenced = mem_AppendClaimedFenced,
     fo_ReleaseClaimFenced = mem_ReleaseClaimFenced\<rparr>"

definition mem_ops :: "('p memory, 'p) store_ops" where
  "mem_ops = \<lparr>so_Append = mem_Append, so_AppendClaimed = mem_AppendClaimed,
     so_AppendAndDeleteRun = mem_AppendAndDeleteRun,
     so_Events = (\<lambda>r m. Inr (mem_Events r m)),
     so_EventsSince = (\<lambda>r n m. Inr (mem_EventsSince r n m)),
     so_DeleteRun = mem_DeleteRun, so_Changes = (\<lambda>k m. Inr (mem_Changes k m)),
     so_ClaimRun = mem_ClaimRun, so_TakeoverClaim = mem_TakeoverClaim,
     so_ReleaseClaim = mem_ReleaseClaim, so_ClearClaim = mem_ClearClaim,
     so_PutContent = mem_PutContent, so_GetContent = mem_GetContent,
     so_Close = (\<lambda>m. (m, None)), so_fenced = Some mem_fenced_ops,
     so_lease = Some mem_TakeoverExpiredClaim, so_reader = Some mem_GetClaim,
     so_held = Some (\<lambda>r m. Inr (mem_IsRunHeld r m)),
     so_tokenFenced = Some (\<lambda>r t m. Inr (mem_IsRunTokenFenced r t m)),
     so_existing = Some mem_AppendWithExistingClaim\<rparr>"

section \<open>The claims tracker\<close>

record tracker =
  ct_holder :: string
  ct_closed :: bool
  ct_claimedRuns :: "(string, claim) gomap"

text \<open>The random holder id of NewHolderID is the argument \<open>fresh\<close>.\<close>

definition NewClaimsTracker :: "string \<Rightarrow> string \<Rightarrow> tracker" where
  "NewClaimsTracker fresh holder =
     \<lparr>ct_holder = (if holder = [] then fresh else holder), ct_closed = False, ct_claimedRuns = []\<rparr>"

definition trk_CheckOpen :: "tracker \<Rightarrow> lerr option" where
  "trk_CheckOpen c = (if ct_closed c then Some LErrClosed else None)"

definition trk_GetClaim :: "tracker \<Rightarrow> string \<Rightarrow> claim \<times> bool" where
  "trk_GetClaim c r = (case map_of (ct_claimedRuns c) r of None \<Rightarrow> (zero_claim, False) | Some x \<Rightarrow> (x, True))"

definition trk_SetClaim :: "string \<Rightarrow> claim \<Rightarrow> tracker \<Rightarrow> tracker" where
  "trk_SetClaim r x c = c\<lparr>ct_claimedRuns := AList.update r x (ct_claimedRuns c)\<rparr>"

definition trk_DropClaim :: "string \<Rightarrow> tracker \<Rightarrow> tracker" where
  "trk_DropClaim r c = c\<lparr>ct_claimedRuns := AList.delete r (ct_claimedRuns c)\<rparr>"

definition bare_claim :: "string \<Rightarrow> string \<Rightarrow> claim" where
  "bare_claim r h = \<lparr>c_RunID = r, c_Holder = h, c_AcquiredAt = NoStamp, c_Fence = 0\<rparr>"

text \<open>
  The common tail of the granting operations: a store error is mapped and nothing is
  recorded, a claim is recorded under its run.
\<close>

definition record_claim ::
    "string \<Rightarrow> tracker \<Rightarrow> 's \<times> (store_err + claim) \<Rightarrow> (tracker \<times> 's) \<times> lerr option" where
  "record_claim r c res =
     (case res of
        (s', Inl e) \<Rightarrow> ((c, s'), MapStorageError (Some (LErrStore e)))
      | (s', Inr x) \<Rightarrow> ((trk_SetClaim r x c, s'), None))"

definition with_claim :: "claim \<Rightarrow> 's \<times> store_err option \<Rightarrow> 's \<times> (store_err + claim)" where
  "with_claim x res = (fst res, case snd res of Some e \<Rightarrow> Inl e | None \<Rightarrow> Inr x)"

definition trk_ClaimRun ::
    "('s, 'p) store_ops \<Rightarrow> time \<Rightarrow> string \<Rightarrow> string \<Rightarrow> tracker \<times> 's \<Rightarrow> (tracker \<times> 's) \<times> lerr option" where
  "trk_ClaimRun ops now r holder = (\<lambda>(c, s).
     if holder = [] then ((c, s), Some LErrClaimNotHeld)
     else if ct_closed c then ((c, s), Some LErrClosed)
     else record_claim r c
       (case so_fenced ops of
          Some f \<Rightarrow> fo_ClaimRunFenced f now r holder s
        | None \<Rightarrow> with_claim (bare_claim r holder) (so_ClaimRun ops now r holder s)))"

definition trk_RefreshRunClaim ::
    "('s, 'p) store_ops \<Rightarrow> time \<Rightarrow> string \<Rightarrow> string \<Rightarrow> tracker \<times> 's \<Rightarrow> (tracker \<times> 's) \<times> lerr option" where
  "trk_RefreshRunClaim ops now r holder = (\<lambda>(c, s).
     case trk_CheckOpen c of
       Some err \<Rightarrow> ((c, s), Some err)
     | None \<Rightarrow>
         if holder = [] then ((c, s), Some LErrClaimNotHeld)
         else record_claim r c
           (case so_fenced ops of
              None \<Rightarrow> with_claim (bare_claim r holder) (so_ClaimRun ops now r holder s)
            | Some f \<Rightarrow> fo_RefreshClaimFenced f now r holder s))"

definition trk_TakeoverRunClaim ::
    "('s, 'p) store_ops \<Rightarrow> time \<Rightarrow> string \<Rightarrow> string \<Rightarrow> tracker \<times> 's \<Rightarrow> (tracker \<times> 's) \<times> lerr option" where
  "trk_TakeoverRunClaim ops now r holder = (\<lambda>(c, s).
     case trk_CheckOpen c of
       Some err \<Rightarrow> ((c, s), Some err)
     | None \<Rightarrow>
         if holder = [] then ((c, s), Some LErrClaimNotHeld)
         else record_claim r c
           (case so_fenced ops of
              Some f \<Rightarrow> fo_TakeoverClaimFenced f now r holder s
            | None \<Rightarrow> with_claim (bare_claim r holder) (so_TakeoverClaim ops now r holder s)))"

definition trk_TakeoverExpiredRunClaim ::
    "('s, 'p) store_ops \<Rightarrow> time \<Rightarrow> time \<Rightarrow> string \<Rightarrow> string \<Rightarrow> duration \<Rightarrow> tracker \<times> 's
      \<Rightarrow> (tracker \<times> 's) \<times> lerr option" where
  "trk_TakeoverExpiredRunClaim ops now1 now2 r holder0 maxAge = (\<lambda>(c, s).
     let holder = (if holder0 = [] then ct_holder c else holder0) in
     if ct_closed c then ((c, s), Some LErrClosed)
     else (case (so_fenced ops, so_lease ops) of
         (None, None) \<Rightarrow> ((c, s), Some LErrClaimHeld)
       | (Some f, _) \<Rightarrow> record_claim r c (fo_TakeoverExpiredClaimFenced f now1 now2 r holder maxAge s)
       | (None, Some lease) \<Rightarrow>
           record_claim r c (with_claim (bare_claim r holder) (lease now1 now2 r holder maxAge s))))"

definition trk_ReleaseRun ::
    "('s, 'p) store_ops \<Rightarrow> string \<Rightarrow> string \<Rightarrow> tracker \<times> 's \<Rightarrow> (tracker \<times> 's) \<times> lerr option" where
  "trk_ReleaseRun ops r holder = (\<lambda>(c, s).
     case trk_CheckOpen c of
       Some err \<Rightarrow> ((c, s), Some err)
     | None \<Rightarrow>
         (let x = fst (trk_GetClaim c r);
              finish = (\<lambda>(s', res). case res of
                  Some e \<Rightarrow> ((c, s'), MapStorageError (Some (LErrStore e)))
                | None \<Rightarrow> ((trk_DropClaim r c, s'), None))
          in case so_fenced ops of
               Some f \<Rightarrow>
                 if c_Fence x \<noteq> 0 then
                   (if c_Holder x \<noteq> holder then ((c, s), Some LErrClaimNotHeld)
                    else finish (fo_ReleaseClaimFenced f x s))
                 else finish (so_ReleaseClaim ops r holder s)
             | None \<Rightarrow> finish (so_ReleaseClaim ops r holder s)))"

definition trk_ClearRunClaim ::
    "('s, 'p) store_ops \<Rightarrow> string \<Rightarrow> tracker \<times> 's \<Rightarrow> (tracker \<times> 's) \<times> lerr option" where
  "trk_ClearRunClaim ops r = (\<lambda>(c, s).
     if ct_closed c then ((c, s), Some LErrClosed)
     else (case so_ClearClaim ops r s of
         (s', Some e) \<Rightarrow> ((c, s'), MapStorageError (Some (LErrStore e)))
       | (s', None) \<Rightarrow> ((trk_DropClaim r c, s'), None)))"

text \<open>
  GetRunClaim: holder, acquisition time and whether a claim exists.  The second layout
  ParseClaimAcquiredAt tries is SQLite's, which no stamp of this model has.
\<close>

definition ParseClaimAcquiredAt :: "acquired \<Rightarrow> lerr + time" where
  "ParseClaimAcquiredAt a =
     (case parse_stamp a of Some t \<Rightarrow> Inr t | None \<Rightarrow> Inl (LErrOther ''parse time''))"

definition trk_GetRunClaim ::
    "('s, 'p) store_ops \<Rightarrow> string \<Rightarrow> tracker \<Rightarrow> 's \<Rightarrow> lerr + string \<times> time \<times> bool" where
  "trk_GetRunClaim ops r c s =
     (case trk_CheckOpen c of
        Some err \<Rightarrow> Inl err
      | None \<Rightarrow>
          (case so_reader ops of
             None \<Rightarrow> Inr ([], 0, False)
           | Some get \<Rightarrow>
               (case get r s of
                  Inl e \<Rightarrow> if e = ErrClaimNotHeld then Inr ([], 0, False) else Inl (LErrStore e)
                | Inr x \<Rightarrow>
                    (case ParseClaimAcquiredAt (c_AcquiredAt x) of
                       Inl err \<Rightarrow> Inl (LErrWrap ''read claim acquired_at'' err)
                     | Inr t \<Rightarrow> Inr (c_Holder x, t, True)))))"

definition trk_IsRunHeld :: "('s, 'p) store_ops \<Rightarrow> string \<Rightarrow> tracker \<Rightarrow> 's \<Rightarrow> lerr + bool" where
  "trk_IsRunHeld ops r c s =
     (case trk_CheckOpen c of
        Some err \<Rightarrow> Inl err
      | None \<Rightarrow> (case so_held ops of
            None \<Rightarrow> Inr False
          | Some probe \<Rightarrow> map_sum LErrStore id (probe r s)))"

definition trk_IsRunTokenFenced ::
    "('s, 'p) store_ops \<Rightarrow> string \<Rightarrow> string \<Rightarrow> tracker \<Rightarrow> 's \<Rightarrow> lerr + bool" where
  "trk_IsRunTokenFenced ops r token c s =
     (case trk_CheckOpen c of
        Some err \<Rightarrow> Inl err
      | None \<Rightarrow> (case so_tokenFenced ops of
            None \<Rightarrow> Inr False
          | Some probe \<Rightarrow> map_sum LErrStore id (probe r token s)))"

text \<open>The release loop of Close; the store errors are dropped, as the code drops them.\<close>

fun release_all :: "('s, 'p) store_ops \<Rightarrow> (string \<times> claim) list \<Rightarrow> 's \<Rightarrow> 's" where
  "release_all ops [] s = s"
| "release_all ops ((r, x) # xs) s =
     release_all ops xs
       (case so_fenced ops of
          Some f \<Rightarrow> if c_Fence x \<noteq> 0 then fst (fo_ReleaseClaimFenced f x s)
                    else fst (so_ReleaseClaim ops r (c_Holder x) s)
        | None \<Rightarrow> fst (so_ReleaseClaim ops r (c_Holder x) s))"

definition trk_Close :: "('s, 'p) store_ops \<Rightarrow> tracker \<times> 's \<Rightarrow> (tracker \<times> 's) \<times> lerr option" where
  "trk_Close ops = (\<lambda>(c, s).
     if ct_closed c then ((c, s), None)
     else ((c\<lparr>ct_closed := True, ct_claimedRuns := []\<rparr>, release_all ops (ct_claimedRuns c) s), None))"

section \<open>Watermarks\<close>

record watermarks =
  wm_applied :: "string \<rightharpoonup> 64 word"
  wm_allocated :: "string \<rightharpoonup> 64 word"
  wm_cursor :: nat

definition NewWatermarkTracker :: watermarks where
  "NewWatermarkTracker = \<lparr>wm_applied = (\<lambda>_. None), wm_allocated = (\<lambda>_. None), wm_cursor = 0\<rparr>"

definition wm_AdvanceCursor :: "nat \<Rightarrow> watermarks \<Rightarrow> watermarks" where
  "wm_AdvanceCursor k w = (if k > wm_cursor w then w\<lparr>wm_cursor := k\<rparr> else w)"

definition wm_Applied :: "watermarks \<Rightarrow> string \<Rightarrow> 64 word" where
  "wm_Applied w r = mget_or 0 (wm_applied w) r"

definition wm_Allocated :: "watermarks \<Rightarrow> string \<Rightarrow> 64 word" where
  "wm_Allocated w r = mget_or 0 (wm_allocated w) r"

definition wm_SetApplied :: "string \<Rightarrow> 64 word \<Rightarrow> watermarks \<Rightarrow> watermarks" where
  "wm_SetApplied r q w = (if q > wm_Applied w r then w\<lparr>wm_applied := (wm_applied w)(r \<mapsto> q)\<rparr> else w)"

definition wm_SetAllocated :: "string \<Rightarrow> 64 word \<Rightarrow> watermarks \<Rightarrow> watermarks" where
  "wm_SetAllocated r q w = (if q > wm_Allocated w r then w\<lparr>wm_allocated := (wm_allocated w)(r \<mapsto> q)\<rparr> else w)"

definition wm_NextSequence :: "string \<Rightarrow> watermarks \<Rightarrow> watermarks \<times> 64 word" where
  "wm_NextSequence r w =
     (let next0 = wm_Applied w r;
          next1 = (if wm_Allocated w r > next0 then wm_Allocated w r else next0);
          next2 = next1 + 1
      in (w\<lparr>wm_allocated := (wm_allocated w)(r \<mapsto> next2)\<rparr>, next2))"

fun max_sequence :: "'p event list \<Rightarrow> 64 word \<Rightarrow> 64 word" where
  "max_sequence [] q = q"
| "max_sequence (e # es) q =
     max_sequence es (if (word_of_int (ev_Sequence e) :: 64 word) > q then word_of_int (ev_Sequence e) else q)"

definition wm_RebaseRunSequence ::
    "('s, 'p) store_ops \<Rightarrow> string \<Rightarrow> 's \<Rightarrow> watermarks \<Rightarrow> watermarks \<times> lerr option" where
  "wm_RebaseRunSequence ops r s w =
     (case so_Events ops r s of
        Inl e \<Rightarrow> (w, Some (LErrWrap ''read existing events'' (LErrStore e)))
      | Inr es \<Rightarrow>
          (let maxSeq = max_sequence es 0;
               w1 = (if maxSeq > wm_Applied w r then w\<lparr>wm_applied := (wm_applied w)(r \<mapsto> maxSeq)\<rparr> else w);
               w2 = (if maxSeq > wm_Allocated w1 r then w1\<lparr>wm_allocated := (wm_allocated w1)(r \<mapsto> maxSeq)\<rparr> else w1)
           in (w2, None)))"

definition wm_CheckBehind :: "(string, int) gomap \<Rightarrow> watermarks \<Rightarrow> string list" where
  "wm_CheckBehind maxSequences w =
     (let behind = map fst (filter (\<lambda>(r, q). (word_of_int q :: 64 word) > wm_Applied w r) maxSequences)
      in if length behind > 1 then sort behind else behind)"

definition wm_DeleteRun :: "string \<Rightarrow> watermarks \<Rightarrow> watermarks" where
  "wm_DeleteRun r w = w\<lparr>wm_applied := (wm_applied w)(r := None), wm_allocated := (wm_allocated w)(r := None)\<rparr>"

end
