(* ===== verification/Ledger_Engine.thy ===== *)
theory Ledger_Engine
  imports Ledger_Core
begin

text \<open>
  The engine (src/internal/ledger/core/engine.go) and the content helpers (content.go).
  A \<open>world\<close> is the engine, the store it talks to and the client's projection; the
  callbacks of CatchUp, CatchUpSince and AppendOptions act on the world.
\<close>

record engine =
  en_ownsStore :: bool
  en_claims :: tracker
  en_watermarks :: watermarks
  en_runLocks :: "string set"
  en_closed :: bool

type_synonym ('s, 'c) world = "engine \<times> 's \<times> 'c"

definition NewEngine :: "string \<Rightarrow> bool \<Rightarrow> string \<Rightarrow> engine" where
  "NewEngine fresh ownsStore holder =
     \<lparr>en_ownsStore = ownsStore, en_claims = NewClaimsTracker fresh holder,
      en_watermarks = NewWatermarkTracker, en_runLocks = {}, en_closed = False\<rparr>"

definition eng_CheckOpen :: "engine \<Rightarrow> lerr option" where
  "eng_CheckOpen e = (if en_closed e then Some LErrClosed else None)"

definition eng_RunLock :: "string \<Rightarrow> engine \<Rightarrow> engine" where
  "eng_RunLock r e = e\<lparr>en_runLocks := insert r (en_runLocks e)\<rparr>"

definition eng_ForgetRun :: "string \<Rightarrow> engine \<Rightarrow> engine" where
  "eng_ForgetRun r e = e\<lparr>en_runLocks := en_runLocks e - {r}\<rparr>"

definition eng_NextSequence :: "string \<Rightarrow> engine \<Rightarrow> engine \<times> 64 word" where
  "eng_NextSequence r e =
     (let (w, q) = wm_NextSequence r (en_watermarks e) in (e\<lparr>en_watermarks := w\<rparr>, q))"

definition eng_RebaseRunSequence ::
    "('s, 'p) store_ops \<Rightarrow> string \<Rightarrow> engine \<times> 's \<Rightarrow> (engine \<times> 's) \<times> lerr option" where
  "eng_RebaseRunSequence ops r = (\<lambda>(e, s).
     let (w, err) = wm_RebaseRunSequence ops r s (en_watermarks e)
     in ((e\<lparr>en_watermarks := w\<rparr>, s), err))"

definition eng_Close :: "('s, 'p) store_ops \<Rightarrow> engine \<times> 's \<Rightarrow> (engine \<times> 's) \<times> lerr option" where
  "eng_Close ops = (\<lambda>(e, s).
     if en_closed e then ((e, s), None)
     else
       (let e1 = e\<lparr>en_closed := True\<rparr>;
            ((c, s1), _) = trk_Close ops (en_claims e1, s);
            e2 = e1\<lparr>en_claims := c\<rparr>
        in if en_ownsStore e2
           then (case so_Close ops s1 of (s2, err) \<Rightarrow> ((e2, s2), map_option LErrStore err))
           else ((e2, s1), None)))"

definition eng_SetApplied :: "string \<Rightarrow> 64 word \<Rightarrow> engine \<Rightarrow> engine" where
  "eng_SetApplied r q e = e\<lparr>en_watermarks := wm_SetApplied r q (en_watermarks e)\<rparr>"

definition eng_AdvanceCursor :: "nat \<Rightarrow> engine \<Rightarrow> engine" where
  "eng_AdvanceCursor k e = e\<lparr>en_watermarks := wm_AdvanceCursor k (en_watermarks e)\<rparr>"

section \<open>Incremental catch-up\<close>

datatype FilterDecision = FilterApply | FilterSkip | FilterAdvanceOnly

fun catch_up_loop ::
    "('s, 'p) store_ops \<Rightarrow> (string \<Rightarrow> int \<Rightarrow> FilterDecision) option
      \<Rightarrow> (string \<Rightarrow> 'p event list \<Rightarrow> ('s, 'c) world \<Rightarrow> ('s, 'c) world \<times> lerr option) option
      \<Rightarrow> (string, int) gomap \<Rightarrow> string list \<Rightarrow> ('s, 'c) world \<Rightarrow> ('s, 'c) world \<times> lerr option" where
  "catch_up_loop ops filterRun rebuildRun maxSequences [] w = (w, None)"
| "catch_up_loop ops filterRun rebuildRun maxSequences (r # rs) (e, s, c) =
     (let maxSeq = mget_or 0 (map_of maxSequences) r in
      case (case filterRun of None \<Rightarrow> FilterApply | Some f \<Rightarrow> f r maxSeq) of
        FilterSkip \<Rightarrow> catch_up_loop ops filterRun rebuildRun maxSequences rs (e, s, c)
      | FilterAdvanceOnly \<Rightarrow>
          catch_up_loop ops filterRun rebuildRun maxSequences rs (eng_SetApplied r (word_of_int maxSeq) e, s, c)
      | FilterApply \<Rightarrow>
          (let e1 = eng_RunLock r e in
           case so_Events ops r s of
             Inl err \<Rightarrow> ((e1, s, c), Some (LErrWrap ''read events'' (LErrStore err)))
           | Inr es \<Rightarrow>
               (case (case rebuildRun of None \<Rightarrow> ((e1, s, c), None) | Some rb \<Rightarrow> rb r es (e1, s, c)) of
                  (w, Some err) \<Rightarrow> (w, Some err)
                | ((e2, s2, c2), None) \<Rightarrow>
                    catch_up_loop ops filterRun rebuildRun maxSequences rs
                      (eng_SetApplied r (word_of_int maxSeq) e2, s2, c2))))"

definition eng_CatchUp ::
    "('s, 'p) store_ops \<Rightarrow> (string \<Rightarrow> int \<Rightarrow> FilterDecision) option
      \<Rightarrow> (string \<Rightarrow> 'p event list \<Rightarrow> ('s, 'c) world \<Rightarrow> ('s, 'c) world \<times> lerr option) option
      \<Rightarrow> ('s, 'c) world \<Rightarrow> ('s, 'c) world \<times> lerr option" where
  "eng_CatchUp ops filterRun rebuildRun = (\<lambda>(e, s, c).
     case eng_CheckOpen e of
       Some err \<Rightarrow> ((e, s, c), Some err)
     | None \<Rightarrow>
         (case so_Changes ops (wm_cursor (en_watermarks e)) s of
            Inl err \<Rightarrow> ((e, s, c), Some (LErrWrap ''read store changes'' (LErrStore err)))
          | Inr (maxSequences, newCursor) \<Rightarrow>
              (let behind = wm_CheckBehind maxSequences (en_watermarks e) in
               if behind = [] then ((eng_AdvanceCursor newCursor e, s, c), None)
               else
                 (case catch_up_loop ops filterRun rebuildRun maxSequences behind (e, s, c) of
                    (w, Some err) \<Rightarrow> (w, Some err)
                  | ((e1, s1, c1), None) \<Rightarrow> ((eng_AdvanceCursor newCursor e1, s1, c1), None)))))"

text \<open>
  CatchUpSince first collects the pending tail of every run that is behind (its loop only
  moves watermarks), then applies the merged tail at once.
\<close>

fun pending_loop ::
    "('s, 'p) store_ops \<Rightarrow> (string \<Rightarrow> int \<Rightarrow> FilterDecision) option \<Rightarrow> (string, int) gomap
      \<Rightarrow> string list \<Rightarrow> 's \<Rightarrow> engine \<Rightarrow> 'p event list \<Rightarrow> engine \<times> (lerr + 'p event list)" where
  "pending_loop ops filterRun maxSequences [] s e pending = (e, Inr pending)"
| "pending_loop ops filterRun maxSequences (r # rs) s e pending =
     (let maxSeq = mget_or 0 (map_of maxSequences) r in
      case (case filterRun of None \<Rightarrow> FilterApply | Some f \<Rightarrow> f r maxSeq) of
        FilterSkip \<Rightarrow> pending_loop ops filterRun maxSequences rs s e pending
      | FilterAdvanceOnly \<Rightarrow>
          pending_loop ops filterRun maxSequences rs s (eng_SetApplied r (word_of_int maxSeq) e) pending
      | FilterApply \<Rightarrow>
          (case so_EventsSince ops r (sint (wm_Applied (en_watermarks e) r)) s of
             Inl err \<Rightarrow> (e, Inl (LErrWrap ''read events'' (LErrStore err)))
           | Inr es \<Rightarrow> pending_loop ops filterRun maxSequences rs s e (pending @ es)))"

definition eng_CatchUpSince ::
    "('s, 'p) store_ops \<Rightarrow> (string \<Rightarrow> int \<Rightarrow> FilterDecision) option
      \<Rightarrow> ('p event list \<Rightarrow> ('s, 'c) world \<Rightarrow> ('s, 'c) world \<times> lerr option) option
      \<Rightarrow> ('s, 'c) world \<Rightarrow> ('s, 'c) world \<times> lerr option" where
  "eng_CatchUpSince ops filterRun applyTail = (\<lambda>(e, s, c).
     case eng_CheckOpen e of
       Some err \<Rightarrow> ((e, s, c), Some err)
     | None \<Rightarrow>
         (case so_Changes ops (wm_cursor (en_watermarks e)) s of
            Inl err \<Rightarrow> ((e, s, c), Some (LErrWrap ''read store changes'' (LErrStore err)))
          | Inr (maxSequences, newCursor) \<Rightarrow>
              (let behind = wm_CheckBehind maxSequences (en_watermarks e) in
               if behind = [] then ((eng_AdvanceCursor newCursor e, s, c), None)
               else
                 (case pending_loop ops filterRun maxSequences behind s e [] of
                    (e1, Inl err) \<Rightarrow> ((e1, s, c), Some err)
                  | (e1, Inr pending) \<Rightarrow>
                      if pending = [] then ((eng_AdvanceCursor newCursor e1, s, c), None)
                      else
                        (case (case applyTail of None \<Rightarrow> ((e1, s, c), None) | Some ap \<Rightarrow> ap pending (e1, s, c)) of
                           (w, Some err) \<Rightarrow> (w, Some err)
                         | ((e2, s2, c2), None) \<Rightarrow> ((eng_AdvanceCursor newCursor e2, s2, c2), None))))))"

text \<open>SortEvents and SortEventsStable order events by row, then by sequence.\<close>

definition SortEventsStable :: "'p event list \<Rightarrow> 'p event list" where
  "SortEventsStable es = sort_key (\<lambda>e. ev_RowID e) (sort_key ev_Sequence es)"

section \<open>Claim-fenced appends\<close>

record ('s, 'p, 'c) append_opts =
  ao_BoundHolder :: string
  ao_Rollback :: "('c \<Rightarrow> 'c) option"
  ao_RebuildRun :: "(string \<Rightarrow> ('s, 'c) world \<Rightarrow> ('s, 'c) world \<times> lerr option) option"
  ao_OnDuplicate :: "('p event \<Rightarrow> ('s, 'c) world \<Rightarrow> ('s, 'c) world \<times> lerr option) option"

definition eng_AppendEvent ::
    "('s, 'p) store_ops \<Rightarrow> 'p event \<Rightarrow> ('s, 'p, 'c) append_opts
      \<Rightarrow> ('s, 'c) world \<Rightarrow> ('s, 'c) world \<times> lerr option" where
  "eng_AppendEvent ops evt opts = (\<lambda>(e, s, c).
     let claim = fst (trk_GetClaim (en_claims e) (ev_RunID evt));
         holder = (if ao_BoundHolder opts = [] then c_Holder claim else ao_BoundHolder opts);
         (s1, serr) =
           (case so_fenced ops of
              Some f \<Rightarrow>
                if c_Fence claim \<noteq> 0 \<and> (ao_BoundHolder opts = [] \<or> c_Holder claim = ao_BoundHolder opts)
                then fo_AppendClaimedFenced f evt claim s
                else so_AppendClaimed ops evt holder s
            | None \<Rightarrow> so_AppendClaimed ops evt holder s);
         err0 = map_option LErrStore serr;
         err = (case err0 of Some x \<Rightarrow> if errors_is x (LErrStore ErrClaimHeld) then Some LErrClaimHeld else err0
                | None \<Rightarrow> None)
     in case err of
          None \<Rightarrow> ((eng_SetApplied (ev_RunID evt) (word_of_int (ev_Sequence evt)) e, s1, c), None)
        | Some x \<Rightarrow>
            if errors_is x (LErrStore ErrDuplicate) then
              (case ao_OnDuplicate opts of
                 Some od \<Rightarrow> od evt (e, s1, c)
               | None \<Rightarrow>
                   (case ao_RebuildRun opts of
                      None \<Rightarrow> ((e, s1, c), Some LErrDuplicate)
                    | Some rb \<Rightarrow> (fst (rb (ev_RunID evt) (e, s1, c)), Some LErrDuplicate)))
            else
              (let c1 = (case ao_Rollback opts of None \<Rightarrow> c | Some rb \<Rightarrow> rb c) in
               case ao_RebuildRun opts of
                 None \<Rightarrow> ((e, s1, c1), Some (LErrWrap ''store append'' x))
               | Some rb \<Rightarrow>
                   (case rb (ev_RunID evt) (e, s1, c1) of
                      (w, Some rerr) \<Rightarrow> (w, Some (LErrWrap ''store append; rebuild projection'' rerr))
                    | (w, None) \<Rightarrow> (w, Some (LErrWrap ''store append'' x)))))"

text \<open>The scan of CheckDuplicatePayload for the first stored event with the id.\<close>

fun check_duplicate :: "'p event \<Rightarrow> 'p event list \<Rightarrow> lerr option" where
  "check_duplicate evt [] = Some LErrConflict"
| "check_duplicate evt (x # xs) =
     (if ev_ID x = ev_ID evt then
        (if ev_Payload x = ev_Payload evt then None else Some LErrConflict)
      else check_duplicate evt xs)"

definition eng_CheckDuplicatePayload ::
    "('s, 'p) store_ops \<Rightarrow> 'p event \<Rightarrow> ('s, 'c) world \<Rightarrow> ('s, 'c) world \<times> lerr option" where
  "eng_CheckDuplicatePayload ops evt = (\<lambda>(e, s, c).
     case so_Events ops (ev_RunID evt) s of
       Inl err \<Rightarrow> ((e, s, c), Some (LErrWrap ''read events after duplicate'' (LErrStore err)))
     | Inr es \<Rightarrow> ((e, s, c), check_duplicate evt es))"

section \<open>Claims and content through the engine\<close>

definition eng_on_claims ::
    "(tracker \<times> 's \<Rightarrow> (tracker \<times> 's) \<times> lerr option) \<Rightarrow> engine \<times> 's \<Rightarrow> (engine \<times> 's) \<times> lerr option" where
  "eng_on_claims f = (\<lambda>(e, s).
     case eng_CheckOpen e of
       Some err \<Rightarrow> ((e, s), Some err)
     | None \<Rightarrow> (case f (en_claims e, s) of ((c, s'), err) \<Rightarrow> ((e\<lparr>en_claims := c\<rparr>, s'), err)))"

definition eng_ClaimRun where
  "eng_ClaimRun ops now r holder = eng_on_claims (trk_ClaimRun ops now r holder)"

definition eng_RefreshRunClaim where
  "eng_RefreshRunClaim ops now r holder = eng_on_claims (trk_RefreshRunClaim ops now r holder)"

definition eng_TakeoverRunClaim where
  "eng_TakeoverRunClaim ops now r holder = eng_on_claims (trk_TakeoverRunClaim ops now r holder)"

definition eng_TakeoverExpiredRunClaim where
  "eng_TakeoverExpiredRunClaim ops now1 now2 r holder maxAge =
     eng_on_claims (trk_TakeoverExpiredRunClaim ops now1 now2 r holder maxAge)"

definition eng_ReleaseRun where
  "eng_ReleaseRun ops r holder = eng_on_claims (trk_ReleaseRun ops r holder)"

definition eng_ClearRunClaim where
  "eng_ClearRunClaim ops r = eng_on_claims (trk_ClearRunClaim ops r)"

definition eng_probe :: "(tracker \<Rightarrow> 's \<Rightarrow> lerr + 'a) \<Rightarrow> engine \<Rightarrow> 's \<Rightarrow> lerr + 'a" where
  "eng_probe f e s = (case eng_CheckOpen e of Some err \<Rightarrow> Inl err | None \<Rightarrow> f (en_claims e) s)"

definition eng_GetRunClaim where
  "eng_GetRunClaim ops r = eng_probe (trk_GetRunClaim ops r)"

definition eng_IsRunHeld where
  "eng_IsRunHeld ops r = eng_probe (trk_IsRunHeld ops r)"

definition eng_IsRunTokenFenced where
  "eng_IsRunTokenFenced ops r token = eng_probe (trk_IsRunTokenFenced ops r token)"

text \<open>
  Content is verified against a sha256 reference; the digest and its hexadecimal form are
  the argument \<open>hexsum\<close>.  Case folding is that of ASCII, which hexadecimal digits need.
\<close>

definition lower_ascii :: "char \<Rightarrow> char" where
  "lower_ascii c = (if 65 \<le> (of_char c :: nat) \<and> (of_char c :: nat) \<le> 90
     then char_of ((of_char c :: nat) + 32) else c)"

definition EqualFold :: "string \<Rightarrow> string \<Rightarrow> bool" where
  "EqualFold a b \<longleftrightarrow> map lower_ascii a = map lower_ascii b"

definition CutPrefix :: "string \<Rightarrow> string \<Rightarrow> string option" where
  "CutPrefix s p = (if take (length p) s = p then Some (drop (length p) s) else None)"

definition core_StoreContent ::
    "('s, 'p) store_ops \<Rightarrow> string \<Rightarrow> 'p list \<Rightarrow> 's \<Rightarrow> 's \<times> lerr option" where
  "core_StoreContent ops ref d s = (case so_PutContent ops ref d s of (s', e) \<Rightarrow> (s', map_option LErrStore e))"

definition core_LoadContent ::
    "('p list \<Rightarrow> string) \<Rightarrow> ('s, 'p) store_ops \<Rightarrow> string \<Rightarrow> 's \<Rightarrow> lerr + 'p list" where
  "core_LoadContent hexsum ops ref s =
     (case so_GetContent ops ref s of
        Inl e \<Rightarrow> if e = ErrContentNotFound then Inl LErrContentNotFound else Inl (LErrStore e)
      | Inr d \<Rightarrow>
          (case CutPrefix ref ''sha256:'' of
             Some hexDigest \<Rightarrow>
               if \<not> EqualFold (hexsum d) hexDigest then Inl LErrDigestMismatch else Inr d
           | None \<Rightarrow> Inr d))"

definition eng_StoreContent where
  "eng_StoreContent ops ref d = (\<lambda>(e, s). case eng_CheckOpen e of
     Some err \<Rightarrow> ((e, s), Some err)
   | None \<Rightarrow> (case core_StoreContent ops ref d s of (s', err) \<Rightarrow> ((e, s'), err)))"

definition eng_LoadContent where
  "eng_LoadContent hexsum ops ref = (\<lambda>(e, s). case eng_CheckOpen e of
     Some err \<Rightarrow> Inl err
   | None \<Rightarrow> core_LoadContent hexsum ops ref s)"

end
