(* ===== verification/Core_Laws.thy ===== *)
theory Core_Laws
  imports Ledger_Engine
begin

text \<open>
  Laws of the ledger core that several theories share: the watermark tracker as a state
  machine whose highest watermark bounds the numbers it hands out, and the in-memory
  store seen through the Store interface.
\<close>

section \<open>The highest watermark\<close>

datatype wm_op = WNext string | WSetApplied string "64 word" | WSetAllocated string "64 word"
  | WAdvance nat | WDelete string

fun wm_step :: "wm_op \<Rightarrow> watermarks \<Rightarrow> watermarks" where
  "wm_step (WNext r) w = fst (wm_NextSequence r w)"
| "wm_step (WSetApplied r q) w = wm_SetApplied r q w"
| "wm_step (WSetAllocated r q) w = wm_SetAllocated r q w"
| "wm_step (WAdvance k) w = wm_AdvanceCursor k w"
| "wm_step (WDelete r) w = wm_DeleteRun r w"

fun wm_outputs :: "string \<Rightarrow> wm_op list \<Rightarrow> watermarks \<Rightarrow> 64 word list" where
  "wm_outputs r [] w = []"
| "wm_outputs r (op # ops) w =
     (if op = WNext r then [snd (wm_NextSequence r w)] else []) @ wm_outputs r ops (wm_step op w)"

definition wm_top :: "watermarks \<Rightarrow> string \<Rightarrow> nat" where
  "wm_top w r = max (unat (wm_Applied w r)) (unat (wm_Allocated w r))"

definition wm_op_bound :: "nat \<Rightarrow> string \<Rightarrow> wm_op \<Rightarrow> bool" where
  "wm_op_bound N r op \<longleftrightarrow> op \<noteq> WDelete r \<and>
     (\<forall>q. op = WSetApplied r q \<or> op = WSetAllocated r q \<longrightarrow> unat q \<le> N)"

lemmas wm_defs = wm_SetApplied_def wm_SetAllocated_def wm_AdvanceCursor_def wm_DeleteRun_def
  wm_NextSequence_def wm_Applied_def wm_Allocated_def

lemma NextSequence_value:
  assumes "wm_top w r + 1 < 2 ^ 64"
  shows "unat (snd (wm_NextSequence r w)) = wm_top w r + 1"
    and "wm_top (fst (wm_NextSequence r w)) r = wm_top w r + 1"
proof -
  let ?a = "wm_Applied w r" and ?b = "wm_Allocated w r"
  let ?n = "if ?b > ?a then ?b else ?a"
  have n: "unat ?n = wm_top w r" by (auto simp: wm_top_def word_less_nat_alt)
  then have "unat (?n + 1) = wm_top w r + 1" using assms by (simp add: unat_word_ariths)
  then show "unat (snd (wm_NextSequence r w)) = wm_top w r + 1"
    by (simp add: wm_NextSequence_def Let_def)
  then show "wm_top (fst (wm_NextSequence r w)) r = wm_top w r + 1"
    by (simp add: wm_top_def wm_NextSequence_def Let_def wm_Applied_def wm_Allocated_def)
qed

lemma wm_step_top:
  assumes "op \<noteq> WNext r" "wm_op_bound N r op"
  shows "wm_top w r \<le> wm_top (wm_step op w) r" "wm_top (wm_step op w) r \<le> max N (wm_top w r)"
  using assms
  by (cases op; auto simp: wm_top_def wm_defs wm_op_bound_def Let_def word_less_nat_alt)+

lemma wm_outputs_sorted:
  assumes "\<forall>op \<in> set ops. wm_op_bound N r op" "max N (wm_top w r) + length ops < 2 ^ 64"
  shows "sorted_wrt (<) (wm_outputs r ops w) \<and> (\<forall>q \<in> set (wm_outputs r ops w). wm_top w r < unat q)"
  using assms
proof (induction ops arbitrary: w)
  case (Cons op ops)
  show ?case
  proof (cases "op = WNext r")
    case True
    have lt: "wm_top w r + 1 < 2 ^ 64" using Cons.prems(2) by simp
    note v = NextSequence_value [OF lt]
    have "max N (wm_top (wm_step op w) r) + length ops < 2 ^ 64" using Cons.prems(2) True v by simp
    then have ih: "sorted_wrt (<) (wm_outputs r ops (wm_step op w))"
      "\<forall>q \<in> set (wm_outputs r ops (wm_step op w)). wm_top w r + 1 < unat q"
      using Cons.IH [of "wm_step op w"] Cons.prems(1) v(2) True by auto
    have "wm_outputs r (op # ops) w = snd (wm_NextSequence r w) # wm_outputs r ops (wm_step op w)"
      using True by simp
    moreover have "\<forall>q \<in> set (wm_outputs r ops (wm_step op w)). snd (wm_NextSequence r w) < q"
      using ih(2) v(1) by (simp add: word_less_nat_alt)
    ultimately show ?thesis using ih v(1) by auto
  next
    case False
    then have t: "wm_top w r \<le> wm_top (wm_step op w) r" "wm_top (wm_step op w) r \<le> max N (wm_top w r)"
      using wm_step_top [of op r N w] Cons.prems(1) by auto
    then have "max N (wm_top (wm_step op w) r) + length ops < 2 ^ 64" using Cons.prems(2) by simp
    then have ih: "sorted_wrt (<) (wm_outputs r ops (wm_step op w))"
      "\<forall>q \<in> set (wm_outputs r ops (wm_step op w)). wm_top (wm_step op w) r < unat q"
      using Cons.IH [of "wm_step op w"] Cons.prems(1) by auto
    have "wm_outputs r (op # ops) w = wm_outputs r ops (wm_step op w)" using False by simp
    then show ?thesis using ih t(1) by auto
  qed
qed simp

lemma set_CheckBehind:
  "set (wm_CheckBehind M w) = {r. \<exists>q. (r, q) \<in> set M \<and> (word_of_int q :: 64 word) > wm_Applied w r}"
  by (auto simp: wm_CheckBehind_def Let_def image_iff)

section \<open>The in-memory store as a Store\<close>

lemma mem_ops_reads [simp]:
  "so_Events mem_ops r m = Inr (mem_Events r m)"
  "so_Changes mem_ops k m = Inr (mem_Changes k m)"
  by (simp_all add: mem_ops_def)


end
