(* ===== verification/Core_Properties.thy ===== *)
theory Core_Properties
  imports Core_Laws
begin

text \<open>
  Properties of the event-sourcing core: a closing tracker leaves no claim of its own
  behind, sequence numbers are fresh, catch-up is complete and idempotent, claim-fenced
  appends, and content addressing.  What the tracker needs of a store to release claims
  is the locale \<open>claim_release\<close>, interpreted on the Memory store.
\<close>

section \<open>Releasing claims\<close>

text \<open>
  Which store claim a tracked pair releases: with a fence, the claim with that holder and
  fence; without one, the claim of that holder.
\<close>

definition tracked_match :: "('s, 'p) store_ops \<Rightarrow> string \<times> claim \<Rightarrow> string \<Rightarrow> claim \<Rightarrow> bool" where
  "tracked_match ops p r c \<longleftrightarrow>
     (if so_fenced ops \<noteq> None \<and> c_Fence (snd p) \<noteq> 0
      then c_RunID (snd p) = r \<and> c_Holder c = c_Holder (snd p) \<and> c_Fence c = c_Fence (snd p)
      else fst p = r \<and> c_Holder c = c_Holder (snd p))"

locale claim_release =
  fixes ops :: "('s, 'p) store_ops" and claim_of :: "'s \<Rightarrow> string \<Rightarrow> claim option"
  assumes release_fenced: "so_fenced ops = Some f \<Longrightarrow>
      claim_of (fst (fo_ReleaseClaimFenced f x s)) r =
        (case claim_of s r of None \<Rightarrow> None
         | Some c \<Rightarrow> if c_RunID x = r \<and> c_Holder c = c_Holder x \<and> c_Fence c = c_Fence x then None else Some c)"
    and release_plain: "claim_of (fst (so_ReleaseClaim ops r' h s)) r =
        (case claim_of s r of None \<Rightarrow> None
         | Some c \<Rightarrow> if r' = r \<and> c_Holder c = h then None else Some c)"
begin

lemma release_one:
  "claim_of (release_all ops [p] s) r =
     (case claim_of s r of None \<Rightarrow> None | Some c \<Rightarrow> if tracked_match ops p r c then None else Some c)"
  by (cases p) (auto simp: tracked_match_def release_fenced release_plain split: option.splits)

lemma release_all_claims:
  "claim_of (release_all ops xs s) r =
     (case claim_of s r of None \<Rightarrow> None
      | Some c \<Rightarrow> if \<exists>p \<in> set xs. tracked_match ops p r c then None else Some c)"
proof (induction xs arbitrary: s)
  case (Cons p xs)
  have "release_all ops (p # xs) s = release_all ops xs (release_all ops [p] s)"
    by (cases p) simp
  then show ?case using release_one [of p s] by (auto simp: Cons.IH split: option.splits)
qed (auto split: option.splits)

end

interpretation memrel: claim_release mem_ops m_claims
  by unfold_locales
    (auto simp: mem_ops_def mem_fenced_ops_def mem_ReleaseClaimFenced_def mem_ReleaseClaim_def split: option.splits)

lemma mem_ops_fenced [simp]: "so_fenced mem_ops = Some mem_fenced_ops"
  by (simp add: mem_ops_def)

definition demo_tracker :: tracker where
  "demo_tracker = \<lparr>ct_holder = ''A'', ct_closed = False,
     ct_claimedRuns = [(''r'', \<lparr>c_RunID = ''r'', c_Holder = ''A'', c_AcquiredAt = Stamp 5, c_Fence = 1\<rparr>)]\<rparr>"

definition demo_store :: "nat memory" where
  "demo_store = NewMemory\<lparr>m_claims := [''r'' \<mapsto> \<lparr>c_RunID = ''r'', c_Holder = ''A'', c_AcquiredAt = Stamp 5, c_Fence = 1\<rparr>]\<rparr>"

text \<open>
  Closing a tracker removes from the store exactly the claims it tracks and still
  owns, in whatever order the claims are visited, and from then on every claim operation
  answers ErrClosed without touching the store.
\<close>

theorem tracker_Close_releases_claims:
  fixes m m2 :: "'p memory"
  assumes "\<not> ct_closed c" "mset (ct_claimedRuns c') = mset (ct_claimedRuns c)" "c' = c\<lparr>ct_claimedRuns := ct_claimedRuns c'\<rparr>"
    "trk_Close mem_ops (c', m) = ((c1, m1), err)" "holder \<noteq> []"
  shows "(\<forall>r. m_claims m1 r = (case m_claims m r of None \<Rightarrow> None
        | Some x \<Rightarrow> if \<exists>p \<in> set (ct_claimedRuns c). tracked_match (mem_ops :: ('p memory, 'p) store_ops) p r x then None else Some x)) \<and>
    ct_claimedRuns c1 = [] \<and> err = None \<and>
    trk_ClaimRun mem_ops now r holder (c1, m2) = ((c1, m2), Some LErrClosed) \<and>
    trk_RefreshRunClaim mem_ops now r holder (c1, m2) = ((c1, m2), Some LErrClosed) \<and>
    trk_TakeoverRunClaim mem_ops now r holder (c1, m2) = ((c1, m2), Some LErrClosed) \<and>
    trk_TakeoverExpiredRunClaim mem_ops now now r holder d (c1, m2) = ((c1, m2), Some LErrClosed) \<and>
    trk_ReleaseRun mem_ops r holder (c1, m2) = ((c1, m2), Some LErrClosed) \<and>
    trk_ClearRunClaim mem_ops r (c1, m2) = ((c1, m2), Some LErrClosed) \<and>
    trk_Close mem_ops (c1, m1) = ((c1, m1), None)"
proof -
  have nc: "\<not> ct_closed c'" using assms(1,3) by (metis tracker.select_convs(2) tracker.surjective tracker.update_convs(3))
  have set: "set (ct_claimedRuns c') = set (ct_claimedRuns c)" using assms(2) by (rule mset_eq_setD)
  have c1: "c1 = c'\<lparr>ct_closed := True, ct_claimedRuns := []\<rparr>" and m1: "m1 = release_all mem_ops (ct_claimedRuns c') m"
    and err: "err = None" using assms(4) nc by (auto simp: trk_Close_def)
  have cl: "\<forall>r. m_claims m1 r = (case m_claims m r of None \<Rightarrow> None
        | Some x \<Rightarrow> if \<exists>p \<in> set (ct_claimedRuns c). tracked_match (mem_ops :: ('p memory, 'p) store_ops) p r x then None else Some x)"
    unfolding m1 memrel.release_all_claims set by simp
  show ?thesis
    using cl err assms(5)
    by (simp add: c1 trk_ClaimRun_def trk_RefreshRunClaim_def trk_TakeoverRunClaim_def
        trk_TakeoverExpiredRunClaim_def trk_ReleaseRun_def trk_ClearRunClaim_def trk_Close_def
        trk_CheckOpen_def)
qed

lemma tracker_Close_releases_claims_witness:
  "m_claims (snd (fst (trk_Close mem_ops (demo_tracker, demo_store)))) ''r'' = None"
proof -
  obtain c1 m1 err where x: "trk_Close mem_ops (demo_tracker, demo_store) = ((c1, m1), err)"
    by (metis prod.collapse)
  have "\<not> ct_closed demo_tracker" by (simp add: demo_tracker_def)
  from tracker_Close_releases_claims [OF this _ _ x, of "''h''"]
  have "m_claims m1 ''r'' = (case m_claims demo_store ''r'' of None \<Rightarrow> None
        | Some x \<Rightarrow> if \<exists>p \<in> set (ct_claimedRuns demo_tracker). tracked_match (mem_ops :: (nat memory, nat) store_ops) p ''r'' x
                  then None else Some x)"
    by simp
  then have "m_claims m1 ''r'' = None"
    by (simp add: demo_store_def demo_tracker_def tracked_match_def NewMemory_def)
  then show ?thesis unfolding x by simp
qed

text \<open>
  TakeoverRunClaim checks that the tracker is open, calls the store and records the claim
  without holding the lock across the three, so other calls may run in between.
\<close>

definition takeover_check :: "string \<Rightarrow> tracker \<Rightarrow> lerr option" where
  "takeover_check holder c =
     (case trk_CheckOpen c of Some err \<Rightarrow> Some err
      | None \<Rightarrow> if holder = [] then Some LErrClaimNotHeld else None)"

definition takeover_store ::
    "('s, 'p) store_ops \<Rightarrow> time \<Rightarrow> string \<Rightarrow> string \<Rightarrow> 's \<Rightarrow> 's \<times> (store_err + claim)" where
  "takeover_store ops now r holder s =
     (case so_fenced ops of
        Some f \<Rightarrow> fo_TakeoverClaimFenced f now r holder s
      | None \<Rightarrow> with_claim (bare_claim r holder) (so_TakeoverClaim ops now r holder s))"

lemma takeover_steps:
  "trk_TakeoverRunClaim ops now r holder (c, s) =
     (case takeover_check holder c of Some err \<Rightarrow> ((c, s), Some err)
      | None \<Rightarrow> record_claim r c (takeover_store ops now r holder s))"
  by (auto simp: trk_TakeoverRunClaim_def takeover_check_def takeover_store_def split: option.splits)

text \<open>
  C5. TakeoverRunClaim is not serialised with Close: when Close runs between its open
  check and its store call, the run ends up claimed in the store by the closed tracker,
  nothing will release it (a second Close does nothing, ReleaseRun answers ErrClosed), and
  another holder is refused.
\<close>

theorem takeover_races_Close:
  assumes "\<not> ct_closed c" "holder \<noteq> []" "other \<noteq> []" "other \<noteq> holder"
    "fst (trk_Close mem_ops (c, m)) = (c1, m1)"
    "fst (record_claim r c1 (takeover_store mem_ops now r holder m1)) = (c2, m2)"
  shows "takeover_check holder c = None \<and> ct_closed c2 \<and>
    held_by m_claims m2 r holder \<and>
    trk_Close mem_ops (c2, m2) = ((c2, m2), None) \<and>
    trk_ReleaseRun mem_ops r holder (c2, m2) = ((c2, m2), Some LErrClosed) \<and>
    mem_ClaimRunFenced now r other m2 = (m2, Inl ErrClaimHeld)"
proof -
  have c1: "ct_closed c1" using assms(1,5) by (auto simp: trk_Close_def)
  have c2: "ct_closed c2" and h: "held_by m_claims m2 r holder"
    using assms(2,6) c1
    by (auto simp: record_claim_def takeover_store_def mem_ops_def mem_fenced_ops_def
        mem_TakeoverClaimFenced_def Let_def trk_SetClaim_def held_by_def split: if_splits)
  show ?thesis
    using assms(1-4) c2 h
    by (auto simp: takeover_check_def trk_CheckOpen_def trk_Close_def trk_ReleaseRun_def
        held_by_def mem_ClaimRunFenced_def)
qed

lemma takeover_races_Close_witness:
  "\<exists>m2. held_by m_claims m2 ''r'' ''A'' \<and>
     m2 = snd (fst (record_claim ''r'' (demo_tracker\<lparr>ct_closed := True, ct_claimedRuns := []\<rparr>)
       (takeover_store mem_ops 9 ''r'' ''A'' (snd (fst (trk_Close mem_ops (demo_tracker, demo_store)))))))"
proof -
  let ?c1 = "demo_tracker\<lparr>ct_closed := True, ct_claimedRuns := []\<rparr>"
  let ?m1 = "snd (fst (trk_Close mem_ops (demo_tracker, demo_store)))"
  let ?w = "fst (record_claim ''r'' ?c1 (takeover_store mem_ops 9 ''r'' ''A'' ?m1))"
  have 1: "\<not> ct_closed demo_tracker" "fst (trk_Close mem_ops (demo_tracker, demo_store)) = (?c1, ?m1)"
    by (simp_all add: demo_tracker_def trk_Close_def)
  have 2: "?w = (fst ?w, snd ?w)" by simp
  from takeover_races_Close [OF 1(1) _ _ _ 1(2) 2, of "''B''"] show ?thesis by simp
qed

section \<open>Fresh sequence numbers\<close>

text \<open>
  The sequence numbers handed out for a run are fresh: along any sequence of
  watermark operations that does not delete the run and stays below the 64-bit bound,
  they strictly increase and lie above every sequence applied or allocated before.
\<close>

theorem NextSequence_fresh:
  assumes "\<forall>op \<in> set ops. wm_op_bound N r op" "max N (wm_top w r) + length ops < 2 ^ 64"
  shows "sorted_wrt (<) (wm_outputs r ops w) \<and>
    (\<forall>q \<in> set (wm_outputs r ops w). wm_Applied w r < q \<and> wm_Allocated w r < q)"
  using wm_outputs_sorted [OF assms] by (auto simp: wm_top_def word_less_nat_alt)

lemma NextSequence_fresh_witness:
  "sorted_wrt (<) (wm_outputs ''r'' [WNext ''r'', WSetApplied ''r'' 5, WNext ''r''] NewWatermarkTracker) \<and>
   wm_outputs ''r'' [WNext ''r'', WSetApplied ''r'' 5, WNext ''r''] NewWatermarkTracker = [1, 6]"
proof
  show "sorted_wrt (<) (wm_outputs ''r'' [WNext ''r'', WSetApplied ''r'' 5, WNext ''r''] NewWatermarkTracker)"
    using NextSequence_fresh [of "[WNext ''r'', WSetApplied ''r'' 5, WNext ''r'']" 5 "''r''" NewWatermarkTracker]
    by (auto simp: wm_op_bound_def wm_top_def NewWatermarkTracker_def wm_Applied_def wm_Allocated_def)
qed (simp add: NewWatermarkTracker_def wm_defs Let_def)

section \<open>Catch-up\<close>

definition pure_rebuild ::
    "(string \<Rightarrow> 'p event list \<Rightarrow> 'c \<Rightarrow> 'c) \<Rightarrow> string \<Rightarrow> 'p event list \<Rightarrow> ('s, 'c) world \<Rightarrow> ('s, 'c) world \<times> lerr option" where
  "pure_rebuild f r es = (\<lambda>(e, s, c). ((e, s, f r es c), None))"

definition caught_up :: "(string, int) gomap \<Rightarrow> string \<Rightarrow> engine \<Rightarrow> engine" where
  "caught_up M r e = eng_SetApplied r (word_of_int (mget_or 0 (map_of M) r)) (eng_RunLock r e)"

lemma catch_up_loop_mem:
  "catch_up_loop mem_ops None (Some (pure_rebuild f)) M rs (e, m, c) =
     ((fold (caught_up M) rs e, m, fold (\<lambda>r. f r (mem_Events r m)) rs c), None)"
  by (induction rs arbitrary: e c) (simp_all add: pure_rebuild_def caught_up_def)

lemma Applied_mono_fold:
  "wm_Applied (en_watermarks e) r' \<le> wm_Applied (en_watermarks (fold (caught_up M) rs e)) r'"
proof (induction rs arbitrary: e)
  case (Cons r rs)
  have "wm_Applied (en_watermarks e) r' \<le> wm_Applied (en_watermarks (caught_up M r e)) r'"
    by (auto simp: caught_up_def eng_SetApplied_def eng_RunLock_def wm_SetApplied_def wm_Applied_def less_imp_le)
  also have "\<dots> \<le> wm_Applied (en_watermarks (fold (caught_up M) (r # rs) e)) r'" using Cons.IH by simp
  finally show ?case .
qed simp

lemma Applied_fold_covers:
  assumes "r \<in> set rs"
  shows "(word_of_int (mget_or 0 (map_of M) r) :: 64 word) \<le> wm_Applied (en_watermarks (fold (caught_up M) rs e)) r"
  using assms
proof (induction rs arbitrary: e)
  case (Cons r' rs)
  show ?case
  proof (cases "r = r'")
    case True
    have "(word_of_int (mget_or 0 (map_of M) r) :: 64 word) \<le> wm_Applied (en_watermarks (caught_up M r e)) r"
      by (auto simp: caught_up_def eng_SetApplied_def eng_RunLock_def wm_SetApplied_def wm_Applied_def)
    also have "\<dots> \<le> wm_Applied (en_watermarks (fold (caught_up M) (r' # rs) e)) r"
      using Applied_mono_fold True by simp
    finally show ?thesis .
  qed (use Cons in simp)
qed simp

lemma cursor_fold [simp]: "wm_cursor (en_watermarks (fold (caught_up M) rs e)) = wm_cursor (en_watermarks e)"
  by (induction rs arbitrary: e)
    (simp_all add: caught_up_def eng_SetApplied_def eng_RunLock_def wm_SetApplied_def)

lemma closed_fold [simp]: "en_closed (fold (caught_up M) rs e) = en_closed e"
  by (induction rs arbitrary: e) (simp_all add: caught_up_def eng_SetApplied_def eng_RunLock_def)

lemma sorted_CheckBehind:
  assumes "distinct (map fst M)"
  shows "sorted (wm_CheckBehind M w)" "distinct (wm_CheckBehind M w)"
proof -
  let ?l = "map fst (filter (\<lambda>(r, q). (word_of_int q :: 64 word) > wm_Applied w r) M)"
  have d: "distinct ?l" using assms by (induction M) auto
  have "sorted ?l" if "length ?l \<le> 1" using that by (cases ?l) auto
  then show "sorted (wm_CheckBehind M w)" by (auto simp: wm_CheckBehind_def Let_def not_less)
  show "distinct (wm_CheckBehind M w)" using d by (auto simp: wm_CheckBehind_def Let_def)
qed

text \<open>
  A catch-up over the Memory store rebuilds, in run order and from the full event
  list, exactly the runs whose recorded sequence lies above their watermark, leaves no
  probed run behind, and moves the cursor so that a second catch-up with no append in
  between changes nothing.
\<close>

theorem CatchUp_complete:
  assumes "\<not> en_closed e"
    "eng_CatchUp mem_ops None (Some (pure_rebuild f)) (e, m, c) = ((e', m', c'), err)"
  shows "let M = fst (mem_Changes (wm_cursor (en_watermarks e)) m);
             behind = wm_CheckBehind M (en_watermarks e) in
    err = None \<and> m' = m \<and> sorted behind \<and> distinct behind \<and>
    c' = fold (\<lambda>r. f r (mem_Events r m)) behind c \<and>
    wm_CheckBehind M (en_watermarks e') = [] \<and>
    length (m_order m) \<le> wm_cursor (en_watermarks e') \<and>
    eng_CatchUp mem_ops None (Some (pure_rebuild f)) (e', m', c') = ((e', m', c'), None)"
proof -
  define M where "M = fst (mem_Changes (wm_cursor (en_watermarks e)) m)"
  define behind where "behind = wm_CheckBehind M (en_watermarks e)"
  define e1 where "e1 = fold (caught_up M) behind e"
  have ch: "mem_Changes (wm_cursor (en_watermarks e)) m = (M, length (m_order m))"
    by (simp add: M_def mem_Changes_def Let_def)
  have dist: "distinct (map fst M)" by (simp add: M_def Changes_distinct)
  have res: "e' = eng_AdvanceCursor (length (m_order m)) e1 \<and> m' = m \<and> err = None \<and>
      c' = fold (\<lambda>r. f r (mem_Events r m)) behind c"
    using assms ch
    by (auto simp: eng_CatchUp_def eng_CheckOpen_def behind_def e1_def catch_up_loop_mem Let_def split: if_splits)
  have app: "wm_Applied (en_watermarks e') r = wm_Applied (en_watermarks e1) r" for r
    using res by (simp add: eng_AdvanceCursor_def wm_AdvanceCursor_def wm_Applied_def)
  have val: "mget_or 0 (map_of M) r = q" if "(r, q) \<in> set M" for r q
    using that dist by (simp add: mget_or_def)
  have "\<not> (word_of_int q :: 64 word) > wm_Applied (en_watermarks e') r" if rq: "(r, q) \<in> set M" for r q
  proof (cases "r \<in> set behind")
    case True
    then have "(word_of_int q :: 64 word) \<le> wm_Applied (en_watermarks e1) r"
      using Applied_fold_covers [OF True, of M e] val [OF rq] by (simp add: e1_def)
    then show ?thesis using app by simp
  next
    case False
    then have "(word_of_int q :: 64 word) \<le> wm_Applied (en_watermarks e) r"
      using rq by (auto simp: behind_def set_CheckBehind not_less)
    also have "\<dots> \<le> wm_Applied (en_watermarks e1) r" unfolding e1_def by (rule Applied_mono_fold)
    finally show ?thesis using app by simp
  qed
  then have "set (wm_CheckBehind M (en_watermarks e')) = {}" by (auto simp: set_CheckBehind)
  then have nb: "wm_CheckBehind M (en_watermarks e') = []" by simp
  have cur: "wm_cursor (en_watermarks e') \<ge> length (m_order m)"
    using res by (simp add: eng_AdvanceCursor_def wm_AdvanceCursor_def)
  then have ch': "mem_Changes (wm_cursor (en_watermarks e')) m = ([], length (m_order m))"
    by (simp add: mem_Changes_def Let_def)
  have op: "\<not> en_closed e'" using res assms(1) by (simp add: eng_AdvanceCursor_def e1_def)
  have "eng_CatchUp mem_ops None (Some (pure_rebuild f)) (e', m', c') = ((e', m', c'), None)"
    using res op cur ch'
    by (simp add: eng_CatchUp_def eng_CheckOpen_def wm_CheckBehind_def eng_AdvanceCursor_def wm_AdvanceCursor_def)
  with res nb cur sorted_CheckBehind [OF dist] show ?thesis
    by (simp add: M_def behind_def Let_def)
qed

definition demo_engine :: engine where
  "demo_engine = NewEngine ''h'' False ''A''"

definition demo_log :: "nat memory" where
  "demo_log = fst (mem_Append \<lparr>ev_ID = ''x'', ev_RunID = ''r'', ev_Sequence = 1, ev_Kind = ''k'', ev_Payload = [7], ev_RowID = 0\<rparr> NewMemory)"

lemma CatchUp_complete_witness:
  "snd (snd (fst (eng_CatchUp mem_ops None (Some (pure_rebuild (\<lambda>r es c. c + length es))) (demo_engine, demo_log, 0)))) = 1"
proof -
  obtain e' m' c' err where x: "eng_CatchUp mem_ops None (Some (pure_rebuild (\<lambda>r es c. c + length es)))
      (demo_engine, demo_log, 0) = ((e', m', c'), err)" by (metis prod.collapse)
  have op: "\<not> en_closed demo_engine" by (simp add: demo_engine_def NewEngine_def)
  have log: "mem_Changes 0 demo_log = ([(''r'', 1)], 1)" "length (mem_Events ''r'' demo_log) = 1"
    by (simp_all add: demo_log_def mem_Append_def appendLocked_def NewMemory_def mem_Changes_def mem_Events_def Let_def)
  have w: "wm_cursor (en_watermarks demo_engine) = 0" "wm_Applied (en_watermarks demo_engine) r = 0" for r
    by (simp_all add: demo_engine_def NewEngine_def NewWatermarkTracker_def wm_Applied_def)
  have "wm_CheckBehind [(''r'', 1)] (en_watermarks demo_engine) = [''r'']"
    by (simp add: wm_CheckBehind_def w)
  with CatchUp_complete [OF op x] log w have "c' = 1" by (simp add: Let_def)
  then show ?thesis unfolding x by simp
qed

section \<open>Claim-fenced appends\<close>

lemma mem_ops_appends [simp]:
  "so_AppendClaimed mem_ops = mem_AppendClaimed"
  "fo_AppendClaimedFenced mem_fenced_ops = mem_AppendClaimedFenced"
  by (simp_all add: mem_ops_def mem_fenced_ops_def)

text \<open>What AppendEvent does once the store refused the fenced append.\<close>

lemma refused_append:
  fixes m :: "'p memory"
  assumes "map_of (ct_claimedRuns (en_claims e)) (ev_RunID evt) = Some tok" "c_Fence tok \<noteq> 0"
    "ao_BoundHolder opts = [] \<or> ao_BoundHolder opts = c_Holder tok"
    "mem_AppendClaimedFenced evt tok m = (m, Some ErrClaimHeld)"
  shows "eng_AppendEvent mem_ops evt opts (e, m, c) =
    (let c1 = (case ao_Rollback opts of None \<Rightarrow> c | Some rb \<Rightarrow> rb c) in
     case ao_RebuildRun opts of
       None \<Rightarrow> ((e, m, c1), Some (LErrWrap ''store append'' LErrClaimHeld))
     | Some rb \<Rightarrow>
         (case rb (ev_RunID evt) (e, m, c1) of
            (w, Some rerr) \<Rightarrow> (w, Some (LErrWrap ''store append; rebuild projection'' rerr))
          | (w, None) \<Rightarrow> (w, Some (LErrWrap ''store append'' LErrClaimHeld))))"
proof -
  have claim: "fst (trk_GetClaim (en_claims e) (ev_RunID evt)) = tok"
    using assms(1) by (simp add: trk_GetClaim_def)
  have fenced: "c_Fence tok \<noteq> 0 \<and> (ao_BoundHolder opts = [] \<or> c_Holder tok = ao_BoundHolder opts)"
    using assms(2,3) by auto
  show ?thesis
    unfolding eng_AppendEvent_def prod.case Let_def claim mem_ops_appends if_P [OF fenced] option.case
    by (simp add: assms(4))
qed

text \<open>
  C6. An engine whose claim was handed to another holder cannot write any more, whatever
  callbacks its client passed: whatever other operations follow, as long as none grants it
  the run again, AppendEvent leaves the store and the watermarks as they are, runs the
  client's rollback if there is one and then its rebuild if there is one, and nothing else.
  It reports ErrClaimHeld, unless the rebuild itself fails: then it reports the failure of
  the rebuild in its place.
\<close>

theorem displaced_engine_cannot_append:
  fixes m :: "'p memory"
  assumes "map_of (ct_claimedRuns (en_claims e)) (ev_RunID evt) = Some tok" "c_Fence tok \<noteq> 0"
    "ao_BoundHolder opts = [] \<or> ao_BoundHolder opts = c_Holder tok"
    "m_claims m (ev_RunID evt) = Some cur" "c_Holder cur = c_Holder tok"
    "mem_exec op m = (m1, None)" "mem_grants op (ev_RunID evt) B" "B \<noteq> c_Holder tok"
    "\<forall>x \<in> set ops. \<not> mem_grants x (ev_RunID evt) (c_Holder tok)"
  shows "let m2 = run_ops mem_step ops m1;
      c1 = (case ao_Rollback opts of None \<Rightarrow> c | Some rb \<Rightarrow> rb c);
      (w, reported) = eng_AppendEvent mem_ops evt opts (e, m2, c)
    in case ao_RebuildRun opts of
        None \<Rightarrow> w = (e, m2, c1) \<and> (\<exists>err. reported = Some err \<and> errors_is err LErrClaimHeld)
      | Some rb \<Rightarrow> w = fst (rb (ev_RunID evt) (e, m2, c1)) \<and>
          (case snd (rb (ev_RunID evt) (e, m2, c1)) of
             None \<Rightarrow> (\<exists>err. reported = Some err \<and> errors_is err LErrClaimHeld)
           | Some rerr \<Rightarrow> reported = Some (LErrWrap ''store append; rebuild projection'' rerr))"
proof -
  have "\<not> held_by m_claims m1 (ev_RunID evt) (c_Holder tok)"
    using handover_fences(2) [OF assms(4,6,7)] assms(5,8) by simp
  from memlease.ejected_cannot_append [OF this assms(9)]
  have "mem_AppendClaimedFenced evt tok (run_ops mem_step ops m1) = (run_ops mem_step ops m1, Some ErrClaimHeld)" .
  from refused_append [where c = c, OF assms(1-3) this] show ?thesis
    by (auto simp: Let_def split: option.splits prod.splits)
qed

text \<open>
  The callbacks in the shape the storage repository passes them: a rollback and a rebuild.
  The rebuild of the example succeeds and leaves everything alone.
\<close>

definition demo_opts :: "(nat memory, nat, nat) append_opts" where
  "demo_opts = \<lparr>ao_BoundHolder = [], ao_Rollback = Some (\<lambda>c. 0), ao_RebuildRun = Some (\<lambda>r w. (w, None)),
    ao_OnDuplicate = None\<rparr>"

definition demo_evt :: "nat event" where
  "demo_evt = \<lparr>ev_ID = ''x'', ev_RunID = ''r'', ev_Sequence = 1, ev_Kind = ''k'', ev_Payload = [7], ev_RowID = 0\<rparr>"

lemma displaced_engine_cannot_append_witness:
  "let (w, reported) = eng_AppendEvent mem_ops demo_evt demo_opts (demo_engine\<lparr>en_claims := demo_tracker\<rparr>,
      mem_step (OpTakeoverClaim 7 ''r'' ''B'') demo_store, 3) in
    w = (demo_engine\<lparr>en_claims := demo_tracker\<rparr>, mem_step (OpTakeoverClaim 7 ''r'' ''B'') demo_store, 0) \<and>
    (\<exists>err. reported = Some err \<and> errors_is err LErrClaimHeld)"
proof -
  let ?tok = "\<lparr>c_RunID = ''r'', c_Holder = ''A'', c_AcquiredAt = Stamp 5, c_Fence = 1\<rparr>"
  have x: "mem_exec (OpTakeoverClaim 7 ''r'' ''B'') demo_store = (mem_step (OpTakeoverClaim 7 ''r'' ''B'') demo_store, None)"
    by (simp add: mem_step_def demo_store_def mem_TakeoverClaim_def Let_def)
  have e: "ev_RunID demo_evt = ''r''" by (simp add: demo_evt_def)
  have o1: "ao_Rollback demo_opts = Some (\<lambda>c. 0)" "ao_RebuildRun demo_opts = Some (\<lambda>r w. (w, None))"
    by (simp_all add: demo_opts_def)
  show ?thesis
    using displaced_engine_cannot_append [where evt = demo_evt and opts = demo_opts and tok = ?tok and cur = ?tok
        and e = "demo_engine\<lparr>en_claims := demo_tracker\<rparr>" and B = "''B''" and ops = "[]" and c = 3, OF _ _ _ _ _ x]
    by (simp add: e o1 Let_def split_beta) (simp add: demo_opts_def demo_tracker_def demo_store_def)
qed

text \<open>
  A successful AppendEvent stored exactly that event, at the end of its run, raised the
  applied watermark of the run to its sequence and left the client alone; a refused
  duplicate without a handler is reported as ErrDuplicate and changes neither the store nor the
  watermarks.
\<close>

theorem AppendEvent_outcome:
  fixes m :: "'p memory"
  assumes "eng_AppendEvent mem_ops evt opts (e, m, c) = ((e', m', c'), err)"
  shows "(err = None \<and> ev_ID evt \<notin> m_ids m \<and> ao_OnDuplicate opts = None \<longrightarrow>
      mem_Events (ev_RunID evt) m' = mem_Events (ev_RunID evt) m @ [stamped m evt] \<and> c' = c \<and>
      word_of_int (ev_Sequence evt) \<le> wm_Applied (en_watermarks e') (ev_RunID evt)) \<and>
    (ev_ID evt \<in> m_ids m \<and> ao_OnDuplicate opts = None \<and> ao_RebuildRun opts = None \<and>
      ao_BoundHolder opts = [] \<and> m_claims m (ev_RunID evt) = None \<and>
      map_of (ct_claimedRuns (en_claims e)) (ev_RunID evt) = None \<longrightarrow>
      err = Some LErrDuplicate \<and> m' = m \<and> e' = e \<and> c' = c)"
proof (cases evt m rule: appendLocked_cases)
  case dup
  then show ?thesis
    using assms by (auto simp: eng_AppendEvent_def trk_GetClaim_def zero_claim_def mem_AppendClaimed_def Let_def)
next
  case empty
  then show ?thesis
    using assms
    by (auto simp: eng_AppendEvent_def mem_AppendClaimed_def mem_AppendClaimedFenced_def Let_def
        split: if_splits option.splits prod.splits)
next
  case (ok m1)
  have "mem_Events (ev_RunID evt) m1 = mem_Events (ev_RunID evt) m @ [stamped m evt]"
    by (simp add: mem_Events_def ok(4) map_idI)
  then show ?thesis
    using assms ok(1,3)
    by (auto simp: eng_AppendEvent_def mem_AppendClaimed_def mem_AppendClaimedFenced_def Let_def
        eng_SetApplied_def wm_SetApplied_def wm_Applied_def
        split: if_splits option.splits prod.splits)
qed

lemma AppendEvent_outcome_witness:
  "mem_Events ''r'' (fst (snd (fst (eng_AppendEvent mem_ops demo_evt demo_opts (demo_engine, NewMemory, 3))))) =
     [demo_evt\<lparr>ev_RowID := 1\<rparr>]"
proof -
  obtain e' m' c' err where x: "eng_AppendEvent mem_ops demo_evt demo_opts (demo_engine, NewMemory, 3) = ((e', m', c'), err)"
    by (metis prod.collapse)
  have "err = None"
    using x by (auto simp: eng_AppendEvent_def trk_GetClaim_def zero_claim_def demo_engine_def NewEngine_def
        NewClaimsTracker_def mem_AppendClaimed_def NewMemory_def appendLocked_def demo_evt_def demo_opts_def Let_def)
  then show ?thesis
    using AppendEvent_outcome [OF x]
    unfolding x by (simp add: NewMemory_def demo_evt_def demo_opts_def mem_Events_def stamped_def)
qed

text \<open>
  Content addressed by a sha256 reference is returned only when its digest matches:
  what was stored under the reference of its own digest is read back unchanged, and bytes
  that do not match the reference are never returned.
\<close>

theorem content_addressing:
  fixes m :: "'p memory"
  assumes "ref = ''sha256:'' @ hexsum d" "d \<noteq> []"
  shows "(let m' = fst (core_StoreContent mem_ops ref d m) in core_LoadContent hexsum mem_ops ref m' = Inr d) \<and>
    (core_LoadContent hexsum mem_ops ref m'' = Inr d' \<longrightarrow> EqualFold (hexsum d') (hexsum d))"
  using assms
  by (auto simp: core_StoreContent_def core_LoadContent_def mem_ops_def mem_PutContent_def mem_GetContent_def
      CutPrefix_def EqualFold_def Let_def split: option.splits sum.splits if_splits)

lemma content_addressing_witness:
  "core_LoadContent (\<lambda>d. ''ab'') mem_ops ''sha256:ab''
     (fst (core_StoreContent mem_ops ''sha256:ab'' [1] (NewMemory :: nat memory))) = Inr [1]"
  using content_addressing [of "''sha256:ab''" "\<lambda>d. ''ab''" "[1]" "NewMemory :: nat memory"] by (simp add: Let_def)

end
