(* ===== verification/Ledger_Types.thy ===== *)
theory Ledger_Types
  imports Complex_Main Ledger_Core
begin

text \<open>
  The data of the task ledger (src/internal/ledger): statuses and their transition rules
  (transition.go), run, task, attempt and event snapshots with their Clone methods
  (types.go), the admission check (single_admission.go), the derived run status and the
  reference normaliser (memory.go), and display names (displayname.go).

  Statuses are strings in the code and stay strings here.  A nil slice and an empty one
  are the same list.  A float64 is a real; the code only copies those fields.
\<close>

section \<open>Statuses\<close>

definition RunStatusCreated :: string where "RunStatusCreated = ''created''"
definition RunStatusQueued :: string where "RunStatusQueued = ''queued''"
definition RunStatusRunning :: string where "RunStatusRunning = ''running''"
definition RunStatusCompleted :: string where "RunStatusCompleted = ''completed''"
definition RunStatusFailed :: string where "RunStatusFailed = ''failed''"
definition RunStatusCanceled :: string where "RunStatusCanceled = ''canceled''"

definition TaskStatusQueued :: string where "TaskStatusQueued = ''queued''"
definition TaskStatusRunning :: string where "TaskStatusRunning = ''running''"
definition TaskStatusCompleted :: string where "TaskStatusCompleted = ''completed''"
definition TaskStatusFailed :: string where "TaskStatusFailed = ''failed''"
definition TaskStatusTimedOut :: string where "TaskStatusTimedOut = ''timed_out''"
definition TaskStatusCanceled :: string where "TaskStatusCanceled = ''canceled''"
definition TaskStatusBlocked :: string where "TaskStatusBlocked = ''blocked''"
definition TaskStatusCancelRequested :: string where "TaskStatusCancelRequested = ''cancel_requested''"
definition TaskStatusRetryPending :: string where "TaskStatusRetryPending = ''retry_pending''"
definition TaskStatusAwaitingInput :: string where "TaskStatusAwaitingInput = ''awaiting_input''"

lemmas run_status_defs = RunStatusCreated_def RunStatusQueued_def RunStatusRunning_def
  RunStatusCompleted_def RunStatusFailed_def RunStatusCanceled_def

lemmas task_status_defs = TaskStatusQueued_def TaskStatusRunning_def TaskStatusCompleted_def
  TaskStatusFailed_def TaskStatusTimedOut_def TaskStatusCanceled_def TaskStatusBlocked_def
  TaskStatusCancelRequested_def TaskStatusRetryPending_def TaskStatusAwaitingInput_def

definition ValidTaskTransition :: "string \<Rightarrow> string \<Rightarrow> bool" where
  "ValidTaskTransition oldStatus newStatus =
     (if oldStatus = TaskStatusQueued then
        newStatus = TaskStatusRunning \<or> newStatus = TaskStatusCancelRequested \<or>
        newStatus = TaskStatusCanceled \<or> newStatus = TaskStatusBlocked
      else if oldStatus = TaskStatusRunning then
        newStatus = TaskStatusCompleted \<or> newStatus = TaskStatusFailed \<or>
        newStatus = TaskStatusTimedOut \<or> newStatus = TaskStatusCancelRequested \<or>
        newStatus = TaskStatusCanceled \<or> newStatus = TaskStatusBlocked \<or>
        newStatus = TaskStatusRetryPending \<or> newStatus = TaskStatusAwaitingInput
      else if oldStatus = TaskStatusAwaitingInput then
        newStatus = TaskStatusRunning \<or> newStatus = TaskStatusCancelRequested \<or>
        newStatus = TaskStatusCanceled \<or> newStatus = TaskStatusTimedOut \<or>
        newStatus = TaskStatusFailed
      else if oldStatus = TaskStatusCancelRequested then newStatus = TaskStatusCanceled
      else if oldStatus = TaskStatusFailed then
        newStatus = TaskStatusRetryPending \<or> newStatus = TaskStatusBlocked
      else if oldStatus = TaskStatusTimedOut then
        newStatus = TaskStatusRetryPending \<or> newStatus = TaskStatusBlocked
      else if oldStatus = TaskStatusRetryPending then
        newStatus = TaskStatusQueued \<or> newStatus = TaskStatusCanceled
      else False)"

definition ValidRunTransitions :: "string \<Rightarrow> string \<Rightarrow> bool" where
  "ValidRunTransitions oldStatus newStatus =
     (if oldStatus = RunStatusCreated then newStatus = RunStatusQueued \<or> newStatus = RunStatusCanceled
      else if oldStatus = RunStatusQueued then newStatus = RunStatusRunning \<or> newStatus = RunStatusCanceled
      else if oldStatus = RunStatusRunning then
        newStatus = RunStatusCompleted \<or> newStatus = RunStatusFailed \<or> newStatus = RunStatusCanceled
      else False)"

definition isTerminalTaskStatus :: "string \<Rightarrow> bool" where
  "isTerminalTaskStatus status =
     (status = TaskStatusCompleted \<or> status = TaskStatusFailed \<or> status = TaskStatusTimedOut \<or>
      status = TaskStatusCanceled \<or> status = TaskStatusBlocked)"

definition isRunTerminal :: "string \<Rightarrow> bool" where
  "isRunTerminal s = (s = RunStatusCompleted \<or> s = RunStatusFailed \<or> s = RunStatusCanceled)"

section \<open>Values of type any and their JSON round trip\<close>

text \<open>
  What a map[string]any can hold.  json.Marshal turns every number into a JSON number and
  json.Unmarshal reads it back as a float64; numbers are integers here, of a magnitude that
  float64 holds exactly, and strings are valid UTF-8.  A channel or a function
  makes Marshal fail.
\<close>

datatype goany = GNil | GBool bool | GInt int | GFloat int | GString string
  | GSlice "goany list" | GMap "(string \<times> goany) list" | GUnmarshalable

fun json_trip :: "goany \<Rightarrow> goany option" where
  "json_trip GNil = Some GNil"
| "json_trip (GBool b) = Some (GBool b)"
| "json_trip (GInt n) = Some (GFloat n)"
| "json_trip (GFloat n) = Some (GFloat n)"
| "json_trip (GString s) = Some (GString s)"
| "json_trip (GSlice xs) = map_option GSlice (those (map json_trip xs))"
| "json_trip (GMap kvs) =
     map_option GMap (those (map (\<lambda>kv. map_option (\<lambda>v. (fst kv, v)) (json_trip (snd kv))) kvs))"
| "json_trip GUnmarshalable = None"

definition cloneJSONMap :: "(string \<times> goany) list option \<Rightarrow> (string \<times> goany) list option" where
  "cloneJSONMap m =
     (case m of None \<Rightarrow> None
      | Some kvs \<Rightarrow> (case json_trip (GMap kvs) of Some (GMap out) \<Rightarrow> Some out | _ \<Rightarrow> None))"

section \<open>Snapshots\<close>

record RunPolicy =
  rp_NoRetry :: bool
  rp_FailInterrupted :: bool
  rp_RetryMaxRetries :: int
  rp_RetryBaseBackoff :: duration
  rp_RetryMaxBackoff :: duration
  rp_RetryBackoffFactor :: real
  rp_RetryJitterFraction :: real

record WorkLimits =
  wl_MaxTurns :: int
  wl_MaxPromptTokens :: int
  wl_MaxOutputTokens :: int
  wl_MaxOutputPerCall :: int
  wl_MaxToolCalls :: int
  wl_DeadlineAt :: time

record AttemptSnapshot =
  as_AttemptID :: string
  as_TaskID :: string
  as_RunID :: string
  as_AttemptNum :: int
  as_StartedAt :: time
  as_FinishedAt :: "time option"
  as_Status :: string

record TaskSnapshot =
  ts_RunID :: string
  ts_TaskID :: string
  ts_ParentTaskID :: string
  ts_RawID :: string
  ts_DisplayName :: string
  ts_Status :: string
  ts_Attempts :: "AttemptSnapshot list"
  ts_DependsOn :: "string list"
  ts_CreatedAt :: time
  ts_CompletedAt :: "time option"
  ts_OutputRef :: string
  ts_ErrorRef :: string
  ts_ToolCallsRef :: string
  ts_Version :: "64 word"
  ts_HandlerName :: string
  ts_AgentName :: string
  ts_AgentDigest :: string
  ts_Skill :: string
  ts_ProviderName :: string
  ts_Model :: string
  ts_Scope :: string
  ts_OutputSchema :: "(string \<times> goany) list option"
  ts_InputSchema :: "(string \<times> goany) list option"
  ts_Input :: string
  ts_Timeout :: duration
  ts_Budget :: int
  ts_Depth :: int
  ts_WorkLimits :: WorkLimits
  ts_DisableProviderReplay :: bool

record RunSnapshot =
  rs_RunID :: string
  rs_DisplayName :: string
  rs_Status :: string
  rs_RequestFingerprint :: string
  rs_Tasks :: "TaskSnapshot list"
  rs_CreatedAt :: time
  rs_CompletedAt :: "time option"
  rs_Labels :: "(string, string) gomap option"
  rs_IdempotencyKey :: string
  rs_Policy :: RunPolicy

record LifecycleEvent =
  le_ID :: string
  le_RunID :: string
  le_Sequence :: "64 word"
  le_Kind :: string
  le_TaskID :: string
  le_AttemptID :: string
  le_SessionID :: string
  le_Payload :: string
  le_CreatedAt :: time

record SingleTaskAdmission =
  sa_IdempotencyKey :: string
  sa_Run :: RunSnapshot
  sa_Task :: TaskSnapshot

subsection \<open>Clone\<close>

text \<open>
  Each Clone builds the copy field by field, as the code does: a field the literal leaves out
  is the zero value, and the pointer and slice fields are copied afterwards.
\<close>

definition zero_run_policy :: RunPolicy where
  "zero_run_policy = \<lparr>rp_NoRetry = False, rp_FailInterrupted = False, rp_RetryMaxRetries = 0,
     rp_RetryBaseBackoff = 0, rp_RetryMaxBackoff = 0, rp_RetryBackoffFactor = 0, rp_RetryJitterFraction = 0\<rparr>"

definition AttemptSnapshot_Clone :: "AttemptSnapshot \<Rightarrow> AttemptSnapshot" where
  "AttemptSnapshot_Clone s =
     (let out = \<lparr>as_AttemptID = as_AttemptID s, as_TaskID = as_TaskID s, as_RunID = as_RunID s,
                 as_AttemptNum = as_AttemptNum s, as_StartedAt = as_StartedAt s,
                 as_FinishedAt = None, as_Status = as_Status s\<rparr>
      in (case as_FinishedAt s of None \<Rightarrow> out | Some t \<Rightarrow> out\<lparr>as_FinishedAt := Some t\<rparr>))"

definition copy_slice :: "'a list \<Rightarrow> 'a list" where
  "copy_slice xs = map (\<lambda>i. xs ! i) [0..<length xs]"

definition TaskSnapshot_Clone :: "TaskSnapshot \<Rightarrow> TaskSnapshot" where
  "TaskSnapshot_Clone s =
     (let out0 = \<lparr>ts_RunID = ts_RunID s, ts_TaskID = ts_TaskID s, ts_ParentTaskID = ts_ParentTaskID s,
            ts_RawID = ts_RawID s, ts_DisplayName = ts_DisplayName s, ts_Status = ts_Status s,
            ts_Attempts = [], ts_DependsOn = [], ts_CreatedAt = ts_CreatedAt s, ts_CompletedAt = None,
            ts_OutputRef = ts_OutputRef s, ts_ErrorRef = ts_ErrorRef s, ts_ToolCallsRef = ts_ToolCallsRef s,
            ts_Version = ts_Version s, ts_HandlerName = ts_HandlerName s, ts_AgentName = ts_AgentName s,
            ts_AgentDigest = ts_AgentDigest s, ts_Skill = ts_Skill s, ts_ProviderName = ts_ProviderName s,
            ts_Model = ts_Model s, ts_Scope = ts_Scope s, ts_OutputSchema = cloneJSONMap (ts_OutputSchema s),
            ts_InputSchema = cloneJSONMap (ts_InputSchema s), ts_Input = [], ts_Timeout = ts_Timeout s,
            ts_Budget = ts_Budget s, ts_Depth = ts_Depth s, ts_WorkLimits = ts_WorkLimits s,
            ts_DisableProviderReplay = ts_DisableProviderReplay s\<rparr>;
          out1 = (if ts_Input s \<noteq> [] then out0\<lparr>ts_Input := [] @ ts_Input s\<rparr> else out0);
          out2 = (if ts_Attempts s \<noteq> [] then out1\<lparr>ts_Attempts := map AttemptSnapshot_Clone (ts_Attempts s)\<rparr> else out1);
          out3 = (if ts_DependsOn s \<noteq> [] then out2\<lparr>ts_DependsOn := copy_slice (ts_DependsOn s)\<rparr> else out2)
      in (case ts_CompletedAt s of None \<Rightarrow> out3 | Some t \<Rightarrow> out3\<lparr>ts_CompletedAt := Some t\<rparr>))"

definition copy_map :: "('k, 'v) gomap \<Rightarrow> ('k, 'v) gomap" where
  "copy_map m = foldl (\<lambda>out kv. AList.update (fst kv) (snd kv) out) [] m"

definition RunSnapshot_Clone :: "RunSnapshot \<Rightarrow> RunSnapshot" where
  "RunSnapshot_Clone s =
     (let out0 = \<lparr>rs_RunID = rs_RunID s, rs_DisplayName = rs_DisplayName s, rs_Status = rs_Status s,
            rs_RequestFingerprint = rs_RequestFingerprint s, rs_Tasks = [], rs_CreatedAt = rs_CreatedAt s,
            rs_CompletedAt = None, rs_Labels = None, rs_IdempotencyKey = rs_IdempotencyKey s,
            rs_Policy = rs_Policy s\<rparr>;
          out1 = (case rs_Labels s of None \<Rightarrow> out0 | Some l \<Rightarrow> out0\<lparr>rs_Labels := Some (copy_map l)\<rparr>);
          out2 = (if rs_Tasks s \<noteq> [] then out1\<lparr>rs_Tasks := map TaskSnapshot_Clone (rs_Tasks s)\<rparr> else out1)
      in (case rs_CompletedAt s of None \<Rightarrow> out2 | Some t \<Rightarrow> out2\<lparr>rs_CompletedAt := Some t\<rparr>))"

definition LifecycleEvent_Clone :: "LifecycleEvent \<Rightarrow> LifecycleEvent" where
  "LifecycleEvent_Clone e =
     (let out = \<lparr>le_ID = le_ID e, le_RunID = le_RunID e, le_Sequence = le_Sequence e, le_Kind = le_Kind e,
                 le_TaskID = le_TaskID e, le_AttemptID = le_AttemptID e, le_SessionID = le_SessionID e,
                 le_Payload = [], le_CreatedAt = le_CreatedAt e\<rparr>
      in (if le_Payload e \<noteq> [] then out\<lparr>le_Payload := copy_slice (le_Payload e)\<rparr> else out))"

section \<open>Derived run status\<close>

record derive_flags =
  df_hasQueued :: bool
  df_hasRunning :: bool
  df_allTerminal :: bool
  df_anyFailedOrTimedOut :: bool
  df_anyCanceled :: bool
  df_anyCompleted :: bool

definition derive_step :: "string \<Rightarrow> derive_flags \<Rightarrow> derive_flags" where
  "derive_step st f =
     (if st = TaskStatusQueued then f\<lparr>df_hasQueued := True, df_allTerminal := False\<rparr>
      else if st = TaskStatusRunning \<or> st = TaskStatusCancelRequested
        then f\<lparr>df_hasRunning := True, df_allTerminal := False\<rparr>
      else if st = TaskStatusCompleted then f\<lparr>df_anyCompleted := True\<rparr>
      else if st = TaskStatusFailed \<or> st = TaskStatusTimedOut then f\<lparr>df_anyFailedOrTimedOut := True\<rparr>
      else if st = TaskStatusCanceled \<or> st = TaskStatusBlocked then f\<lparr>df_anyCanceled := True\<rparr>
      else f\<lparr>df_allTerminal := False\<rparr>)"

definition derive_init :: derive_flags where
  "derive_init = \<lparr>df_hasQueued = False, df_hasRunning = False, df_allTerminal = True,
     df_anyFailedOrTimedOut = False, df_anyCanceled = False, df_anyCompleted = False\<rparr>"

definition deriveRunStatus :: "TaskSnapshot list \<Rightarrow> string" where
  "deriveRunStatus tasks =
     (let f = fold (\<lambda>t. derive_step (ts_Status t)) tasks derive_init in
      if \<not> df_allTerminal f then
        (if df_hasRunning f then RunStatusRunning
         else if df_hasQueued f \<and> \<not> df_hasRunning f then RunStatusQueued
         else RunStatusRunning)
      else if df_anyFailedOrTimedOut f then RunStatusFailed
      else if df_anyCanceled f then RunStatusCanceled
      else if df_anyCompleted f then RunStatusCompleted
      else RunStatusFailed)"

section \<open>Admission of a single task\<close>

definition validateSingleTaskAdmission :: "SingleTaskAdmission \<Rightarrow> lerr option" where
  "validateSingleTaskAdmission a =
     (let run = sa_Run a; task = sa_Task a in
      if sa_IdempotencyKey a = [] \<or> rs_RunID run = [] \<or> ts_RunID task \<noteq> rs_RunID run \<or>
         ts_TaskID task = [] \<or> length (ts_Attempts task) \<noteq> 1
      then Some LErrInvalidTransition
      else
        (let attempt = ts_Attempts task ! 0 in
         if as_RunID attempt \<noteq> rs_RunID run \<or> as_TaskID attempt \<noteq> ts_TaskID task \<or>
            as_AttemptID attempt = [] \<or> as_AttemptNum attempt \<noteq> 1 \<or> as_Status attempt \<noteq> ts_Status task
         then Some LErrInvalidTransition
         else if rs_Status run = RunStatusCanceled then
           (if ts_Status task \<noteq> TaskStatusCanceled \<or> as_Status attempt \<noteq> TaskStatusCanceled \<or>
               rs_CompletedAt run = None \<or> ts_CompletedAt task = None \<or> as_FinishedAt attempt = None
            then Some LErrInvalidTransition else None)
         else if rs_Status run \<noteq> RunStatusCreated \<or> ts_Status task \<noteq> TaskStatusQueued \<or>
            as_Status attempt \<noteq> TaskStatusQueued
         then Some LErrInvalidTransition
         else None))"

section \<open>References\<close>

text \<open>
  strings.TrimSpace on ASCII text.  The sha256 digest in hexadecimal is the argument
  \<open>hexsum\<close>.
\<close>

definition is_space :: "char \<Rightarrow> bool" where
  "is_space c \<longleftrightarrow> (let n = (of_char c :: nat) in n = 32 \<or> (9 \<le> n \<and> n \<le> 13))"

definition TrimSpace :: "string \<Rightarrow> string" where
  "TrimSpace s = rev (dropWhile is_space (rev (dropWhile is_space s)))"

definition maxReferenceBytes :: nat where "maxReferenceBytes = 256"
definition maxEventPayload :: nat where "maxEventPayload = 1024"

definition normalizeReference :: "(string \<Rightarrow> string) \<Rightarrow> string \<Rightarrow> string" where
  "normalizeReference hexsum ref0 =
     (let ref = TrimSpace ref0 in
      if ref = [] then []
      else if length ref \<le> maxReferenceBytes then ref
      else ''ref:sha256:'' @ hexsum ref)"

section \<open>Display names\<close>

record name_gen =
  ng_counter :: "64 word"
  ng_used :: "string set"

definition NewDisplayNameGenerator :: name_gen where
  "NewDisplayNameGenerator = \<lparr>ng_counter = 0, ng_used = {}\<rparr>"

fun show_nat :: "nat \<Rightarrow> string" where
  "show_nat n = (if n < 10 then [char_of (48 + n)] else show_nat (n div 10) @ [char_of (48 + n mod 10)])"

declare show_nat.simps [simp del]

definition name_of :: "string \<Rightarrow> 64 word \<Rightarrow> string" where
  "name_of base n = base @ ''-'' @ show_nat (unat n)"

text \<open>
  The collision loop of Generate; it is partial in principle, so not returning is None.
\<close>

partial_function (option) gen_loop :: "string \<Rightarrow> string set \<Rightarrow> 64 word \<Rightarrow> (64 word \<times> string) option" where
  "gen_loop base used n =
     (if name_of base n \<in> used then gen_loop base used (n + 1) else Some (n, name_of base n))"

definition Generate :: "string \<Rightarrow> name_gen \<Rightarrow> (name_gen \<times> string) option" where
  "Generate base0 g =
     (let base = (if base0 = [] then ''agent'' else base0) in
      case gen_loop base (ng_used g) (ng_counter g + 1) of
        None \<Rightarrow> None
      | Some (n, name) \<Rightarrow> Some (\<lparr>ng_counter = n, ng_used = insert name (ng_used g)\<rparr>, name))"

definition Reserve :: "string \<Rightarrow> name_gen \<Rightarrow> name_gen" where
  "Reserve name g = g\<lparr>ng_used := insert name (ng_used g)\<rparr>"

definition Reset :: "name_gen \<Rightarrow> name_gen" where
  "Reset g = \<lparr>ng_counter = 0, ng_used = {}\<rparr>"

end
