(* ===== verification/Ledger_Memory.thy ===== *)
theory Ledger_Memory
  imports Ledger_Types
begin

text \<open>
  The in-memory task ledger (src/internal/ledger/memory.go, memory_claims.go,
  memory_admission.go), one definition per method of MemoryLedgerRepository.  Each method
  holds the repository's mutex for its whole body.  The maps the code ranges over (runs,
  tasks, idempotency keys of a run) are association lists.  The clock m.now is an argument
  of the methods that read it, one argument per reading.
\<close>

record memoryClaim =
  mc_holder :: string

record runRecord =
  rr_snapshot :: RunSnapshot
  rr_closed :: bool
  rr_tasks :: "(string, TaskSnapshot) gomap"
  rr_events :: "LifecycleEvent list"
  rr_eventIDs :: "string set"
  rr_sequences :: "string \<rightharpoonup> 64 word"
  rr_idemKeys :: "(string, string) gomap"

record ledger_repo =
  lr_runs :: "(string, runRecord) gomap"
  lr_idemLookup :: "string \<rightharpoonup> string"
  lr_claims :: "string \<rightharpoonup> memoryClaim"
  lr_content :: "string \<rightharpoonup> string"
  lr_closed :: bool

definition NewMemoryLedgerRepository :: ledger_repo where
  "NewMemoryLedgerRepository = \<lparr>lr_runs = [], lr_idemLookup = (\<lambda>_. None), lr_claims = (\<lambda>_. None),
     lr_content = (\<lambda>_. None), lr_closed = False\<rparr>"

abbreviation lr_run :: "ledger_repo \<Rightarrow> string \<Rightarrow> runRecord option" where
  "lr_run m r \<equiv> map_of (lr_runs m) r"

definition put_run :: "string \<Rightarrow> runRecord \<Rightarrow> ledger_repo \<Rightarrow> ledger_repo" where
  "put_run r rec m = m\<lparr>lr_runs := AList.update r rec (lr_runs m)\<rparr>"

definition put_task :: "string \<Rightarrow> TaskSnapshot \<Rightarrow> runRecord \<Rightarrow> runRecord" where
  "put_task t snap rec = rec\<lparr>rr_tasks := AList.update t snap (rr_tasks rec)\<rparr>"

section \<open>Snapshots of a record\<close>

definition fullSnapshot :: "time \<Rightarrow> runRecord \<Rightarrow> RunSnapshot" where
  "fullSnapshot now rec =
     (let snap0 = RunSnapshot_Clone (rr_snapshot rec);
          tasks = sort_key ts_CreatedAt (map (\<lambda>kv. TaskSnapshot_Clone (snd kv)) (rr_tasks rec));
          snap1 = snap0\<lparr>rs_Tasks := tasks\<rparr>;
          snap2 = (if tasks \<noteq> [] then snap1\<lparr>rs_Status := deriveRunStatus tasks\<rparr> else snap1)
      in (if isRunTerminal (rs_Status snap2) \<and> rs_CompletedAt snap2 = None
          then snap2\<lparr>rs_CompletedAt := Some now\<rparr> else snap2))"

definition updateRunStatusLocked :: "time \<Rightarrow> runRecord \<Rightarrow> runRecord" where
  "updateRunStatusLocked now rec =
     (if rr_tasks rec = [] then rec
      else
        (let tasks = map snd (rr_tasks rec);
             snap = (rr_snapshot rec)\<lparr>rs_Status := deriveRunStatus tasks\<rparr>
         in rec\<lparr>rr_snapshot :=
              (if isRunTerminal (rs_Status snap) \<and> rs_CompletedAt snap = None
               then snap\<lparr>rs_CompletedAt := Some now\<rparr> else snap)\<rparr>))"

section \<open>Runs\<close>

definition lr_CreateRun :: "time \<Rightarrow> string \<Rightarrow> RunSnapshot \<Rightarrow> ledger_repo \<Rightarrow> ledger_repo \<times> lerr option" where
  "lr_CreateRun now key snapshot m =
     (if lr_closed m then (m, Some LErrClosed)
      else if lr_run m (rs_RunID snapshot) \<noteq> None then (m, Some LErrDuplicate)
      else if key \<noteq> [] \<and> lr_idemLookup m key \<noteq> None then (m, Some LErrDuplicate)
      else
        (let rec0 = \<lparr>rr_snapshot = RunSnapshot_Clone snapshot, rr_closed = False, rr_tasks = [],
               rr_events = [], rr_eventIDs = {}, rr_sequences = (\<lambda>_. None), rr_idemKeys = []\<rparr>;
             rec1 = (if key \<noteq> [] then rec0\<lparr>rr_idemKeys := AList.update key (rs_RunID snapshot) (rr_idemKeys rec0)\<rparr> else rec0);
             m1 = (if key \<noteq> [] then m\<lparr>lr_idemLookup := (lr_idemLookup m)(key \<mapsto> rs_RunID snapshot)\<rparr> else m);
             rec2 = (if rs_CreatedAt (rr_snapshot rec1) = 0
                     then rec1\<lparr>rr_snapshot := (rr_snapshot rec1)\<lparr>rs_CreatedAt := now\<rparr>\<rparr> else rec1)
         in (put_run (rs_RunID snapshot) rec2 m1, None)))"

definition lr_GetRun :: "time \<Rightarrow> string \<Rightarrow> ledger_repo \<Rightarrow> lerr + RunSnapshot" where
  "lr_GetRun now runID m =
     (case lr_run m runID of None \<Rightarrow> Inl LErrNotFound | Some rec \<Rightarrow> Inr (fullSnapshot now rec))"

definition lr_GetRunByIdempotencyKey :: "time \<Rightarrow> string \<Rightarrow> ledger_repo \<Rightarrow> lerr + RunSnapshot" where
  "lr_GetRunByIdempotencyKey now key m =
     (if key = [] then Inl LErrNotFound
      else (case lr_idemLookup m key of
              None \<Rightarrow> Inl LErrNotFound
            | Some runID \<Rightarrow>
                (case lr_run m runID of
                   None \<Rightarrow> Inl LErrNotFound
                 | Some rec \<Rightarrow> Inr (fullSnapshot now rec))))"

text \<open>ListRuns reads the clock once per record; the readings are one value here.\<close>

definition lr_ListRuns :: "time \<Rightarrow> string list \<Rightarrow> ledger_repo \<Rightarrow> RunSnapshot list" where
  "lr_ListRuns now status m =
     sort_key rs_RunID
       (filter (\<lambda>snap. status = [] \<or> list_ex (\<lambda>s. rs_Status snap = s) status)
          (map (\<lambda>kv. fullSnapshot now (snd kv)) (lr_runs m)))"

definition lr_CloseRun :: "string \<Rightarrow> ledger_repo \<Rightarrow> ledger_repo \<times> lerr option" where
  "lr_CloseRun runID m =
     (case lr_run m runID of
        None \<Rightarrow> (m, Some LErrNotFound)
      | Some rec \<Rightarrow>
          if rr_closed rec then (m, Some LErrInvalidTransition)
          else (put_run runID (rec\<lparr>rr_closed := True\<rparr>) m, None))"

definition lr_DeleteRun :: "string \<Rightarrow> ledger_repo \<Rightarrow> ledger_repo \<times> lerr option" where
  "lr_DeleteRun runID m =
     (case lr_run m runID of
        None \<Rightarrow> (m, Some LErrNotFound)
      | Some rec \<Rightarrow>
          (m\<lparr>lr_idemLookup := foldl (\<lambda>l kv. l(fst kv := None)) (lr_idemLookup m) (rr_idemKeys rec),
             lr_runs := AList.delete runID (lr_runs m)\<rparr>, None))"

section \<open>Tasks\<close>

definition lr_CreateTask :: "TaskSnapshot \<Rightarrow> ledger_repo \<Rightarrow> ledger_repo \<times> lerr option" where
  "lr_CreateTask snap m =
     (case lr_run m (ts_RunID snap) of
        None \<Rightarrow> (m, Some LErrNotFound)
      | Some rec \<Rightarrow>
          if rr_closed rec then (m, Some LErrClosed)
          else if map_of (rr_tasks rec) (ts_TaskID snap) \<noteq> None then (m, Some LErrDuplicate)
          else (put_run (ts_RunID snap) (put_task (ts_TaskID snap) (TaskSnapshot_Clone snap) rec) m, None))"

definition lr_GetTask :: "string \<Rightarrow> string \<Rightarrow> ledger_repo \<Rightarrow> lerr + TaskSnapshot" where
  "lr_GetTask runID taskID m =
     (case lr_run m runID of
        None \<Rightarrow> Inl LErrNotFound
      | Some rec \<Rightarrow>
          (case map_of (rr_tasks rec) taskID of
             None \<Rightarrow> Inl LErrNotFound
           | Some snap \<Rightarrow> Inr (TaskSnapshot_Clone snap)))"

definition lr_ListTasks :: "string \<Rightarrow> ledger_repo \<Rightarrow> lerr + TaskSnapshot list" where
  "lr_ListTasks runID m =
     (case lr_run m runID of
        None \<Rightarrow> Inl LErrNotFound
      | Some rec \<Rightarrow>
          Inr (sort_key ts_CreatedAt (map (\<lambda>kv. TaskSnapshot_Clone (snd kv)) (rr_tasks rec))))"

text \<open>
  The guard the task mutators share: the run exists and is open, the task exists.
\<close>

definition on_open_task ::
    "string \<Rightarrow> string \<Rightarrow> (runRecord \<Rightarrow> TaskSnapshot \<Rightarrow> runRecord \<times> lerr option)
      \<Rightarrow> ledger_repo \<Rightarrow> ledger_repo \<times> lerr option" where
  "on_open_task runID taskID f m =
     (case lr_run m runID of
        None \<Rightarrow> (m, Some LErrNotFound)
      | Some rec \<Rightarrow>
          if rr_closed rec then (m, Some LErrClosed)
          else (case map_of (rr_tasks rec) taskID of
                  None \<Rightarrow> (m, Some LErrNotFound)
                | Some snap \<Rightarrow>
                    (case f rec snap of
                       (_, Some err) \<Rightarrow> (m, Some err)
                     | (rec', None) \<Rightarrow> (put_run runID rec' m, None))))"

definition lr_CompareAndSetTaskStatus ::
    "time \<Rightarrow> time \<Rightarrow> string \<Rightarrow> string \<Rightarrow> 64 word \<Rightarrow> string \<Rightarrow> ledger_repo \<Rightarrow> ledger_repo \<times> lerr option" where
  "lr_CompareAndSetTaskStatus now1 now2 runID taskID expectedVersion newStatus m =
     (if TrimSpace newStatus = [] then (m, Some LErrEmptyStatus)
      else on_open_task runID taskID (\<lambda>rec snap.
        if ts_Version snap \<noteq> expectedVersion then (rec, Some LErrConflict)
        else if \<not> ValidTaskTransition (ts_Status snap) newStatus then (rec, Some LErrInvalidTransition)
        else
          (let s1 = snap\<lparr>ts_Status := newStatus, ts_Version := ts_Version snap + 1\<rparr>;
               s2 = (if isTerminalTaskStatus newStatus \<and> ts_CompletedAt s1 = None
                     then s1\<lparr>ts_CompletedAt := Some now1\<rparr> else s1)
           in (updateRunStatusLocked now2 (put_task taskID s2 rec), None))) m)"

definition lr_SetTaskOutput ::
    "(string \<Rightarrow> string) \<Rightarrow> string \<Rightarrow> string \<Rightarrow> string \<Rightarrow> string \<Rightarrow> string \<Rightarrow> ledger_repo \<Rightarrow> ledger_repo \<times> lerr option" where
  "lr_SetTaskOutput hexsum runID taskID outputRef errorRef toolCallsRef m =
     on_open_task runID taskID (\<lambda>rec snap.
       (put_task taskID
          (snap\<lparr>ts_OutputRef := normalizeReference hexsum outputRef,
                ts_ErrorRef := normalizeReference hexsum errorRef,
                ts_ToolCallsRef := normalizeReference hexsum toolCallsRef\<rparr>) rec, None)) m"

text \<open>
  The loop of SetTaskAttempt over the attempts: the first with the id is rewritten; None
  when there is no such attempt.
\<close>

fun set_attempt :: "string \<Rightarrow> string \<Rightarrow> time option \<Rightarrow> AttemptSnapshot list \<Rightarrow> AttemptSnapshot list option" where
  "set_attempt attemptID status finishedAt [] = None"
| "set_attempt attemptID status finishedAt (a # as) =
     (if as_AttemptID a \<noteq> attemptID then map_option (Cons a) (set_attempt attemptID status finishedAt as)
      else
        (let a1 = a\<lparr>as_Status := status\<rparr>;
             a2 = (case finishedAt of None \<Rightarrow> a1 | Some t \<Rightarrow> a1\<lparr>as_FinishedAt := Some t\<rparr>)
         in Some (a2 # as)))"

definition lr_SetTaskAttempt ::
    "string \<Rightarrow> string \<Rightarrow> string \<Rightarrow> string \<Rightarrow> time option \<Rightarrow> ledger_repo \<Rightarrow> ledger_repo \<times> lerr option" where
  "lr_SetTaskAttempt runID taskID attemptID status finishedAt m =
     on_open_task runID taskID (\<lambda>rec snap.
       (case set_attempt attemptID status finishedAt (ts_Attempts snap) of
          Some atts \<Rightarrow> (put_task taskID (snap\<lparr>ts_Attempts := atts\<rparr>) rec, None)
        | None \<Rightarrow>
            (let att0 = \<lparr>as_AttemptID = attemptID, as_TaskID = taskID, as_RunID = runID,
                   as_AttemptNum = int (length (ts_Attempts snap)) + 1, as_StartedAt = 0,
                   as_FinishedAt = None, as_Status = status\<rparr>;
                 att1 = (case finishedAt of None \<Rightarrow> att0 | Some t \<Rightarrow> att0\<lparr>as_FinishedAt := Some t\<rparr>)
             in (put_task taskID (snap\<lparr>ts_Attempts := ts_Attempts snap @ [att1]\<rparr>) rec, None)))) m"

section \<open>Lifecycle events\<close>

definition lr_AppendEvent :: "time \<Rightarrow> LifecycleEvent \<Rightarrow> ledger_repo \<Rightarrow> ledger_repo \<times> lerr option" where
  "lr_AppendEvent now event m =
     (case lr_run m (le_RunID event) of
        None \<Rightarrow> (m, Some LErrNotFound)
      | Some rec \<Rightarrow>
          if length (le_Payload event) > maxEventPayload then (m, Some LErrPayloadTooLarge)
          else if le_ID event \<in> rr_eventIDs rec then (m, Some LErrDuplicate)
          else
            (let q = mget_or 0 (rr_sequences rec) (le_RunID event) + 1;
                 ev1 = event\<lparr>le_Sequence := q\<rparr>;
                 ev2 = (if le_CreatedAt ev1 = 0 then ev1\<lparr>le_CreatedAt := now\<rparr> else ev1);
                 rec1 = rec\<lparr>rr_sequences := (rr_sequences rec)(le_RunID event \<mapsto> q),
                            rr_events := rr_events rec @ [LifecycleEvent_Clone ev2],
                            rr_eventIDs := insert (le_ID event) (rr_eventIDs rec)\<rparr>
             in (put_run (le_RunID event) rec1 m, None)))"

definition lr_ListEvents :: "string \<Rightarrow> ledger_repo \<Rightarrow> lerr + LifecycleEvent list" where
  "lr_ListEvents runID m =
     (case lr_run m runID of
        None \<Rightarrow> Inl LErrNotFound
      | Some rec \<Rightarrow> Inr (map LifecycleEvent_Clone (rr_events rec)))"

section \<open>Claims and content\<close>

definition lr_ClaimRun :: "string \<Rightarrow> string \<Rightarrow> ledger_repo \<Rightarrow> ledger_repo \<times> lerr option" where
  "lr_ClaimRun runID holder m =
     (if (case lr_claims m runID of None \<Rightarrow> False | Some existing \<Rightarrow> mc_holder existing \<noteq> holder)
      then (m, Some LErrClaimHeld)
      else (m\<lparr>lr_claims := (lr_claims m)(runID \<mapsto> \<lparr>mc_holder = holder\<rparr>)\<rparr>, None))"

definition lr_ReleaseRun :: "string \<Rightarrow> string \<Rightarrow> ledger_repo \<Rightarrow> ledger_repo \<times> lerr option" where
  "lr_ReleaseRun runID holder m =
     (case lr_claims m runID of
        None \<Rightarrow> (m, Some LErrClaimNotHeld)
      | Some existing \<Rightarrow>
          if mc_holder existing \<noteq> holder then (m, Some LErrClaimNotHeld)
          else (m\<lparr>lr_claims := (lr_claims m)(runID := None)\<rparr>, None))"

definition lr_ClearRunClaim :: "string \<Rightarrow> ledger_repo \<Rightarrow> ledger_repo \<times> lerr option" where
  "lr_ClearRunClaim runID m = (m\<lparr>lr_claims := (lr_claims m)(runID := None)\<rparr>, None)"

definition lr_StoreContent :: "string \<Rightarrow> string \<Rightarrow> ledger_repo \<Rightarrow> ledger_repo \<times> lerr option" where
  "lr_StoreContent ref d m =
     (if d = [] then (m, None) else (m\<lparr>lr_content := (lr_content m)(ref \<mapsto> [] @ d)\<rparr>, None))"

definition lr_LoadContent :: "string \<Rightarrow> ledger_repo \<Rightarrow> lerr + string" where
  "lr_LoadContent ref m =
     (case lr_content m ref of None \<Rightarrow> Inl LErrContentNotFound | Some d \<Rightarrow> Inr (copy_slice d))"

section \<open>Single-task admission\<close>

definition lr_AdmitSingleTask :: "time \<Rightarrow> SingleTaskAdmission \<Rightarrow> ledger_repo \<Rightarrow> ledger_repo \<times> lerr option" where
  "lr_AdmitSingleTask now a m =
     (if lr_closed m then (m, Some LErrClosed)
      else (case validateSingleTaskAdmission a of
          Some err \<Rightarrow> (m, Some err)
        | None \<Rightarrow>
            if lr_run m (rs_RunID (sa_Run a)) \<noteq> None then (m, Some LErrDuplicate)
            else if lr_idemLookup m (sa_IdempotencyKey a) \<noteq> None then (m, Some LErrDuplicate)
            else
              (let run0 = (RunSnapshot_Clone (sa_Run a))\<lparr>rs_IdempotencyKey := sa_IdempotencyKey a\<rparr>;
                   run1 = (if rs_CreatedAt run0 = 0 then run0\<lparr>rs_CreatedAt := now\<rparr> else run0);
                   rec = \<lparr>rr_snapshot = run1, rr_closed = False,
                     rr_tasks = [(ts_TaskID (sa_Task a), TaskSnapshot_Clone (sa_Task a))],
                     rr_events = [], rr_eventIDs = {}, rr_sequences = (\<lambda>_. None),
                     rr_idemKeys = [(sa_IdempotencyKey a, rs_RunID run1)]\<rparr>;
                   m1 = m\<lparr>lr_idemLookup := (lr_idemLookup m)(sa_IdempotencyKey a \<mapsto> rs_RunID run1)\<rparr>
               in (put_run (rs_RunID run1) rec m1, None))))"

end
