(* ===== verification/Ledger_Laws.thy ===== *)
theory Ledger_Laws
  imports Ledger_Memory
begin

text \<open>
  Laws of the in-memory task ledger: copies, operations as steps, the data invariant of
  the repository, and the history of a task (its status only moves along
  ValidTaskTransition, its version counts the moves).
\<close>

section \<open>Copies\<close>

lemma copy_slice_id [simp]: "copy_slice xs = xs"
  by (simp add: copy_slice_def map_nth)

lemma AttemptSnapshot_Clone_id [simp]: "AttemptSnapshot_Clone s = s"
  by (cases s) (auto simp: AttemptSnapshot_Clone_def Let_def split: option.splits)

lemma LifecycleEvent_Clone_id [simp]: "LifecycleEvent_Clone e = e"
  by (cases e) (simp add: LifecycleEvent_Clone_def Let_def)

fun json_canon :: "goany \<Rightarrow> bool" where
  "json_canon (GSlice xs) = list_all json_canon xs"
| "json_canon (GMap kvs) = list_all (\<lambda>kv. json_canon (snd kv)) kvs"
| "json_canon (GInt n) = False"
| "json_canon GUnmarshalable = False"
| "json_canon _ = True"

lemma those_map_Some: "list_all (\<lambda>x. f x = Some (g x)) xs \<Longrightarrow> those (map f xs) = Some (map g xs)"
  by (induction xs) auto

lemma json_trip_canon: "json_canon v \<Longrightarrow> json_trip v = Some v"
proof (induction v rule: json_trip.induct)
  case (6 xs)
  then have "those (map json_trip xs) = Some (map id xs)"
    by (intro those_map_Some) (auto simp: list_all_iff)
  then show ?case by simp
next
  case (7 kvs)
  have "list_all (\<lambda>kv. map_option (Pair (fst kv)) (json_trip (snd kv)) = Some (id kv)) kvs"
    using 7 by (auto simp: list_all_iff)
  from those_map_Some [OF this] show ?case by simp
qed auto

definition canon_map :: "(string \<times> goany) list option \<Rightarrow> bool" where
  "canon_map m = (case m of None \<Rightarrow> True | Some kvs \<Rightarrow> json_canon (GMap kvs))"

lemma cloneJSONMap_canon: "canon_map m \<Longrightarrow> cloneJSONMap m = m"
proof (cases m)
  case (Some kvs)
  assume "canon_map m"
  then have "json_trip (GMap kvs) = Some (GMap kvs)"
    using json_trip_canon [of "GMap kvs"] Some by (simp only: canon_map_def option.case)
  then show ?thesis by (simp only: cloneJSONMap_def Some option.case goany.case)
qed (simp add: cloneJSONMap_def)

definition canon_task :: "TaskSnapshot \<Rightarrow> bool" where
  "canon_task t \<longleftrightarrow> canon_map (ts_OutputSchema t) \<and> canon_map (ts_InputSchema t)"

lemma map_AttemptSnapshot_Clone [simp]: "map AttemptSnapshot_Clone xs = xs"
  by (simp add: map_idI)

lemma TaskSnapshot_Clone_eq:
  "TaskSnapshot_Clone s = s\<lparr>ts_OutputSchema := cloneJSONMap (ts_OutputSchema s),
     ts_InputSchema := cloneJSONMap (ts_InputSchema s)\<rparr>"
  by (cases s) (auto simp: TaskSnapshot_Clone_def Let_def split: option.splits)

lemma TaskSnapshot_Clone_canon: "canon_task s \<Longrightarrow> TaskSnapshot_Clone s = s"
  by (simp add: TaskSnapshot_Clone_eq canon_task_def cloneJSONMap_canon)

lemma TaskSnapshot_Clone_sel [simp]:
  "ts_RunID (TaskSnapshot_Clone s) = ts_RunID s" "ts_TaskID (TaskSnapshot_Clone s) = ts_TaskID s"
  "ts_Status (TaskSnapshot_Clone s) = ts_Status s" "ts_Version (TaskSnapshot_Clone s) = ts_Version s"
  "ts_CreatedAt (TaskSnapshot_Clone s) = ts_CreatedAt s" "ts_CompletedAt (TaskSnapshot_Clone s) = ts_CompletedAt s"
  "ts_Attempts (TaskSnapshot_Clone s) = ts_Attempts s" "ts_OutputRef (TaskSnapshot_Clone s) = ts_OutputRef s"
  by (simp_all add: TaskSnapshot_Clone_eq)

lemma update_append_fresh: "k \<notin> fst ` set xs \<Longrightarrow> AList.update k v xs = xs @ [(k, v)]"
  by (induction xs) auto

lemma copy_map_id:
  assumes "distinct (map fst m)"
  shows "copy_map m = m"
proof -
  have "distinct (map fst (out @ m)) \<Longrightarrow> foldl (\<lambda>out kv. AList.update (fst kv) (snd kv) out) out m = out @ m" for out
  proof (induction m arbitrary: out)
    case (Cons kv m)
    then have "AList.update (fst kv) (snd kv) out = out @ [kv]"
      using update_append_fresh [of "fst kv" out "snd kv"] by auto
    then show ?case using Cons by auto
  qed simp
  from this [of "[]"] assms show ?thesis by (simp add: copy_map_def)
qed

lemma RunSnapshot_Clone_sel [simp]:
  "rs_RunID (RunSnapshot_Clone s) = rs_RunID s" "rs_Status (RunSnapshot_Clone s) = rs_Status s"
  "rs_CreatedAt (RunSnapshot_Clone s) = rs_CreatedAt s" "rs_CompletedAt (RunSnapshot_Clone s) = rs_CompletedAt s"
  "rs_Tasks (RunSnapshot_Clone s) = map TaskSnapshot_Clone (rs_Tasks s)"
  "rs_IdempotencyKey (RunSnapshot_Clone s) = rs_IdempotencyKey s"
  by (cases s; auto simp: RunSnapshot_Clone_def Let_def split: option.splits)+

section \<open>Operations as steps\<close>

datatype lr_op =
    LCreateRun time string RunSnapshot
  | LCreateTask TaskSnapshot
  | LAppendEvent time LifecycleEvent
  | LCompareAndSet time time string string "64 word" string
  | LSetTaskOutput string string string string string
  | LSetTaskAttempt string string string string "time option"
  | LCloseRun string
  | LDeleteRun string
  | LClaimRun string string
  | LReleaseRun string string
  | LClearRunClaim string
  | LStoreContent string string
  | LAdmitSingleTask time SingleTaskAdmission

fun lr_exec :: "(string \<Rightarrow> string) \<Rightarrow> lr_op \<Rightarrow> ledger_repo \<Rightarrow> ledger_repo \<times> lerr option" where
  "lr_exec hexsum (LCreateRun now key snap) m = lr_CreateRun now key snap m"
| "lr_exec hexsum (LCreateTask snap) m = lr_CreateTask snap m"
| "lr_exec hexsum (LAppendEvent now ev) m = lr_AppendEvent now ev m"
| "lr_exec hexsum (LCompareAndSet n1 n2 r t v st) m = lr_CompareAndSetTaskStatus n1 n2 r t v st m"
| "lr_exec hexsum (LSetTaskOutput r t a b c) m = lr_SetTaskOutput hexsum r t a b c m"
| "lr_exec hexsum (LSetTaskAttempt r t a st f) m = lr_SetTaskAttempt r t a st f m"
| "lr_exec hexsum (LCloseRun r) m = lr_CloseRun r m"
| "lr_exec hexsum (LDeleteRun r) m = lr_DeleteRun r m"
| "lr_exec hexsum (LClaimRun r h) m = lr_ClaimRun r h m"
| "lr_exec hexsum (LReleaseRun r h) m = lr_ReleaseRun r h m"
| "lr_exec hexsum (LClearRunClaim r) m = lr_ClearRunClaim r m"
| "lr_exec hexsum (LStoreContent ref d) m = lr_StoreContent ref d m"
| "lr_exec hexsum (LAdmitSingleTask now a) m = lr_AdmitSingleTask now a m"

definition lr_step :: "(string \<Rightarrow> string) \<Rightarrow> lr_op \<Rightarrow> ledger_repo \<Rightarrow> ledger_repo" where
  "lr_step hexsum op m = fst (lr_exec hexsum op m)"

inductive lr_reachable :: "(string \<Rightarrow> string) \<Rightarrow> ledger_repo \<Rightarrow> bool" for hexsum where
  init: "lr_reachable hexsum NewMemoryLedgerRepository"
| step: "lr_reachable hexsum m \<Longrightarrow> lr_reachable hexsum (lr_step hexsum op m)"

lemma put_run_sel [simp]:
  "lr_run (put_run r rec m) r' = (if r' = r then Some rec else lr_run m r')"
  "lr_idemLookup (put_run r rec m) = lr_idemLookup m" "lr_claims (put_run r rec m) = lr_claims m"
  "lr_content (put_run r rec m) = lr_content m" "lr_closed (put_run r rec m) = lr_closed m"
  by (simp_all add: put_run_def update_conv')

lemma put_task_sel [simp]:
  "map_of (rr_tasks (put_task t s rec)) t' = (if t' = t then Some s else map_of (rr_tasks rec) t')"
  "rr_snapshot (put_task t s rec) = rr_snapshot rec" "rr_closed (put_task t s rec) = rr_closed rec"
  "rr_events (put_task t s rec) = rr_events rec" "rr_eventIDs (put_task t s rec) = rr_eventIDs rec"
  "rr_sequences (put_task t s rec) = rr_sequences rec" "rr_idemKeys (put_task t s rec) = rr_idemKeys rec"
  by (simp_all add: put_task_def update_conv')

lemma updateRunStatusLocked_sel [simp]:
  "rr_tasks (updateRunStatusLocked now rec) = rr_tasks rec" "rr_closed (updateRunStatusLocked now rec) = rr_closed rec"
  "rr_events (updateRunStatusLocked now rec) = rr_events rec" "rr_eventIDs (updateRunStatusLocked now rec) = rr_eventIDs rec"
  "rr_sequences (updateRunStatusLocked now rec) = rr_sequences rec" "rr_idemKeys (updateRunStatusLocked now rec) = rr_idemKeys rec"
  "rs_RunID (rr_snapshot (updateRunStatusLocked now rec)) = rs_RunID (rr_snapshot rec)"
  by (simp_all add: updateRunStatusLocked_def Let_def)

lemma on_open_task_cases:
  obtains (fail) err where "on_open_task r t f m = (m, Some err)"
  | (ok) rec snap rec' where "on_open_task r t f m = (put_run r rec' m, None)"
      "lr_run m r = Some rec" "\<not> rr_closed rec" "map_of (rr_tasks rec) t = Some snap" "f rec snap = (rec', None)"
  by (cases "on_open_task r t f m") (auto simp: on_open_task_def split: option.splits if_splits prod.splits)

lemma set_attempt_ids:
  "set_attempt a st f xs = Some ys \<Longrightarrow> map as_AttemptID ys = map as_AttemptID xs"
  by (induction xs arbitrary: ys) (auto simp: Let_def split: if_splits option.splits)

section \<open>What a step does to one run\<close>

text \<open>
  The task mutators change a record only by rewriting the snapshot of an existing task and
  the run snapshot; \<open>task_rewrite\<close> bounds the rewriting.
\<close>

definition task_rewrite :: "TaskSnapshot \<Rightarrow> TaskSnapshot \<Rightarrow> bool" where
  "task_rewrite s s' \<longleftrightarrow> ts_RunID s' = ts_RunID s \<and> ts_TaskID s' = ts_TaskID s \<and>
     (ts_CompletedAt s \<noteq> None \<longrightarrow> ts_CompletedAt s' = ts_CompletedAt s) \<and>
     ((ts_Status s' = ts_Status s \<and> ts_Version s' = ts_Version s) \<or>
      (ValidTaskTransition (ts_Status s) (ts_Status s') \<and> ts_Version s' = ts_Version s + 1))"

lemma task_rewrite_refl [simp]: "task_rewrite s s"
  by (simp add: task_rewrite_def)

definition rec_rewrite :: "runRecord \<Rightarrow> runRecord \<Rightarrow> bool" where
  "rec_rewrite rec rec' \<longleftrightarrow> rs_RunID (rr_snapshot rec') = rs_RunID (rr_snapshot rec) \<and>
     rr_closed rec' = rr_closed rec \<and> \<not> rr_closed rec \<and>
     rr_events rec' = rr_events rec \<and> rr_eventIDs rec' = rr_eventIDs rec \<and>
     rr_sequences rec' = rr_sequences rec \<and> rr_idemKeys rec' = rr_idemKeys rec \<and>
     (\<exists>t s s'. map_of (rr_tasks rec) t = Some s \<and> task_rewrite s s' \<and>
        rr_tasks rec' = AList.update t s' (rr_tasks rec))"

definition rewrites_run :: "string \<Rightarrow> ledger_repo \<Rightarrow> ledger_repo \<Rightarrow> bool" where
  "rewrites_run r m m' \<longleftrightarrow> m' = m \<or>
     (\<exists>rec rec'. lr_run m r = Some rec \<and> m' = put_run r rec' m \<and> rec_rewrite rec rec')"

lemma on_open_task_rewrites:
  assumes "\<And>rec snap rec'. map_of (rr_tasks rec) t = Some snap \<Longrightarrow> \<not> rr_closed rec \<Longrightarrow>
    f rec snap = (rec', None) \<Longrightarrow> rec_rewrite rec rec'"
  shows "rewrites_run r m (fst (on_open_task r t f m))"
proof (cases r t f m rule: on_open_task_cases)
  case (ok rec snap rec')
  then have "rec_rewrite rec rec'" using assms by blast
  then show ?thesis using ok by (auto simp: rewrites_run_def)
qed (simp add: rewrites_run_def)

lemma rec_rewrite_put:
  assumes "map_of (rr_tasks rec) t = Some s" "\<not> rr_closed rec" "task_rewrite s s'"
  shows "rec_rewrite rec (put_task t s' rec)" "rec_rewrite rec (updateRunStatusLocked now (put_task t s' rec))"
proof -
  have "rr_tasks (put_task t s' rec) = AList.update t s' (rr_tasks rec)" by (simp add: put_task_def)
  then show "rec_rewrite rec (put_task t s' rec)" "rec_rewrite rec (updateRunStatusLocked now (put_task t s' rec))"
    using assms by (auto simp: rec_rewrite_def)
qed

lemma CompareAndSet_rewrites: "rewrites_run r m (fst (lr_CompareAndSetTaskStatus n1 n2 r t v st m))"
proof (cases "TrimSpace st = []")
  case False
  show ?thesis
    unfolding lr_CompareAndSetTaskStatus_def if_not_P [OF False]
    by (rule on_open_task_rewrites)
      (auto simp: Let_def task_rewrite_def split: if_splits intro!: rec_rewrite_put(2))
qed (simp add: lr_CompareAndSetTaskStatus_def rewrites_run_def)

lemma SetTaskOutput_rewrites: "rewrites_run r m (fst (lr_SetTaskOutput hexsum r t a b c m))"
  unfolding lr_SetTaskOutput_def
  by (rule on_open_task_rewrites) (auto simp: task_rewrite_def intro!: rec_rewrite_put(1))

lemma SetTaskAttempt_rewrites: "rewrites_run r m (fst (lr_SetTaskAttempt r t a st f m))"
  unfolding lr_SetTaskAttempt_def
  by (rule on_open_task_rewrites)
    (auto simp: task_rewrite_def Let_def split: option.splits intro!: rec_rewrite_put(1))

lemmas task_rewrites = CompareAndSet_rewrites SetTaskOutput_rewrites SetTaskAttempt_rewrites

section \<open>The data invariant of the repository\<close>

definition record_ok :: "string \<Rightarrow> runRecord \<Rightarrow> bool" where
  "record_ok r rec \<longleftrightarrow> rs_RunID (rr_snapshot rec) = r \<and> distinct (map fst (rr_tasks rec)) \<and>
     (\<forall>t s. map_of (rr_tasks rec) t = Some s \<longrightarrow> ts_TaskID s = t \<and> ts_RunID s = r) \<and>
     rr_eventIDs rec = set (map le_ID (rr_events rec)) \<and> distinct (map le_ID (rr_events rec)) \<and>
     map le_Sequence (rr_events rec) = map (\<lambda>i. of_nat (i + 1)) [0..<length (rr_events rec)] \<and>
     mget_or 0 (rr_sequences rec) r = of_nat (length (rr_events rec)) \<and>
     (\<forall>kv \<in> set (rr_idemKeys rec). fst kv \<noteq> [] \<and> snd kv = r)"

definition repo_inv :: "ledger_repo \<Rightarrow> bool" where
  "repo_inv m \<longleftrightarrow> distinct (map fst (lr_runs m)) \<and>
     (\<forall>r rec. lr_run m r = Some rec \<longrightarrow> record_ok r rec) \<and>
     (\<forall>k r. lr_idemLookup m k = Some r \<longleftrightarrow>
        (\<exists>rec. lr_run m r = Some rec \<and> k \<in> fst ` set (rr_idemKeys rec)))"

lemma repo_invI:
  assumes "distinct (map fst (lr_runs m))" "\<And>r rec. lr_run m r = Some rec \<Longrightarrow> record_ok r rec"
    "\<And>k r. lr_idemLookup m k = Some r \<longleftrightarrow> (\<exists>rec. lr_run m r = Some rec \<and> k \<in> fst ` set (rr_idemKeys rec))"
  shows "repo_inv m"
  using assms by (simp add: repo_inv_def)

lemma repo_inv_distinct: "repo_inv m \<Longrightarrow> distinct (map fst (lr_runs m))"
  by (simp add: repo_inv_def)

lemma repo_inv_record: "repo_inv m \<Longrightarrow> lr_run m r = Some rec \<Longrightarrow> record_ok r rec"
  by (simp add: repo_inv_def)

lemma repo_inv_lookup:
  "repo_inv m \<Longrightarrow> lr_idemLookup m k = Some r \<longleftrightarrow> (\<exists>rec. lr_run m r = Some rec \<and> k \<in> fst ` set (rr_idemKeys rec))"
  unfolding repo_inv_def by blast

lemma repo_inv_put:
  assumes "repo_inv m" "lr_run m r = Some rec" "record_ok r rec'" "rr_idemKeys rec' = rr_idemKeys rec"
  shows "repo_inv (put_run r rec' m)"
proof (rule repo_invI)
  show "distinct (map fst (lr_runs (put_run r rec' m)))"
    using repo_inv_distinct [OF assms(1)] by (simp add: put_run_def distinct_update)
  show "record_ok r2 rec2" if "lr_run (put_run r rec' m) r2 = Some rec2" for r2 rec2
    using that assms(3) repo_inv_record [OF assms(1)] by (simp split: if_splits)
  show "lr_idemLookup (put_run r rec' m) k = Some r2 \<longleftrightarrow>
      (\<exists>rec2. lr_run (put_run r rec' m) r2 = Some rec2 \<and> k \<in> fst ` set (rr_idemKeys rec2))" for k r2
    using assms(2,4) repo_inv_lookup [OF assms(1), of k r2] by (cases "r2 = r") simp_all
qed

lemma record_ok_rewrite:
  assumes "record_ok r rec" "rec_rewrite rec rec'"
  shows "record_ok r rec'"
proof -
  obtain t s s' where t: "map_of (rr_tasks rec) t = Some s" "task_rewrite s s'"
    "rr_tasks rec' = AList.update t s' (rr_tasks rec)"
    using assms(2) by (auto simp: rec_rewrite_def)
  then show ?thesis
    using assms by (auto simp: record_ok_def rec_rewrite_def task_rewrite_def update_conv' distinct_update split: if_splits)
qed

lemma repo_inv_rewrites:
  assumes "repo_inv m" "rewrites_run r m m'"
  shows "repo_inv m'"
  using assms(2) unfolding rewrites_run_def
proof (elim disjE exE conjE)
  fix rec rec'
  assume r: "lr_run m r = Some rec" "m' = put_run r rec' m" "rec_rewrite rec rec'"
  have "record_ok r rec'" by (rule record_ok_rewrite [OF repo_inv_record [OF assms(1) r(1)] r(3)])
  moreover have "rr_idemKeys rec' = rr_idemKeys rec" using r(3) by (simp add: rec_rewrite_def)
  ultimately show ?thesis using repo_inv_put [OF assms(1) r(1)] r(2) by simp
qed (use assms in simp)

text \<open>Registering a new run under at most one idempotency key.\<close>

lemma repo_inv_new:
  assumes inv: "repo_inv m" and r: "lr_run m r = None" and rec: "record_ok r rec"
    and keys: "rr_idemKeys rec = (if key = [] then [] else [(key, r)])"
    and free: "key \<noteq> [] \<Longrightarrow> lr_idemLookup m key = None"
    and m1: "lr_runs m1 = lr_runs m"
      "lr_idemLookup m1 = (if key = [] then lr_idemLookup m else (lr_idemLookup m)(key \<mapsto> r))"
  shows "repo_inv (put_run r rec m1)"
proof (rule repo_invI)
  have look: "lr_idemLookup m k = Some r2 \<longleftrightarrow> (\<exists>rec. lr_run m r2 = Some rec \<and> k \<in> fst ` set (rr_idemKeys rec))" for k r2
    by (rule repo_inv_lookup [OF inv])
  show "distinct (map fst (lr_runs (put_run r rec m1)))"
    using repo_inv_distinct [OF inv] by (simp add: put_run_def distinct_update m1)
  show "record_ok r2 rec2" if "lr_run (put_run r rec m1) r2 = Some rec2" for r2 rec2
    using that rec repo_inv_record [OF inv] by (simp add: m1(1) split: if_splits)
  show "lr_idemLookup (put_run r rec m1) k = Some r2 \<longleftrightarrow>
      (\<exists>rec2. lr_run (put_run r rec m1) r2 = Some rec2 \<and> k \<in> fst ` set (rr_idemKeys rec2))" for k r2
  proof (cases "r2 = r")
    case True
    then show ?thesis using look [of k r] r keys by (auto simp: m1)
  next
    case False
    then have "(lr_idemLookup m1 k = Some r2) = (lr_idemLookup m k = Some r2)"
      using free by (auto simp: m1)
    then show ?thesis using False look [of k r2] by (simp add: m1(1))
  qed
qed

lemma foldl_del: "foldl (\<lambda>l kv. l(fst kv := None)) l ks k = (if k \<in> fst ` set ks then None else l k)"
  by (induction ks arbitrary: l) auto

lemma repo_inv_DeleteRun:
  assumes "repo_inv m"
  shows "repo_inv (fst (lr_DeleteRun r m))"
proof (cases "lr_run m r")
  case (Some rec)
  let ?m = "fst (lr_DeleteRun r m)"
  have look: "lr_idemLookup m k = Some r2 \<longleftrightarrow> (\<exists>rec. lr_run m r2 = Some rec \<and> k \<in> fst ` set (rr_idemKeys rec))" for k r2
    by (rule repo_inv_lookup [OF assms])
  have runs: "lr_run ?m r2 = (if r2 = r then None else lr_run m r2)" for r2
    using Some by (auto simp: lr_DeleteRun_def delete_conv')
  have own: "k \<in> fst ` set (rr_idemKeys rec) \<longleftrightarrow> lr_idemLookup m k = Some r" for k
    using look [of k r] Some by simp
  have idem: "lr_idemLookup ?m k = (if lr_idemLookup m k = Some r then None else lr_idemLookup m k)" for k
    using Some by (simp add: lr_DeleteRun_def foldl_del own)
  show ?thesis
  proof (rule repo_invI)
    show "distinct (map fst (lr_runs ?m))"
      using repo_inv_distinct [OF assms] Some by (simp add: lr_DeleteRun_def distinct_delete)
    show "lr_run ?m r2 = Some rec2 \<Longrightarrow> record_ok r2 rec2" for r2 rec2
      using repo_inv_record [OF assms] by (simp add: runs split: if_splits)
    show "lr_idemLookup ?m k = Some r2 \<longleftrightarrow>
      (\<exists>rec2. lr_run ?m r2 = Some rec2 \<and> k \<in> fst ` set (rr_idemKeys rec2))" for k r2
      using look [of k r2] by (cases "r2 = r") (auto simp: runs idem)
  qed
qed (use assms in \<open>simp add: lr_DeleteRun_def\<close>)

lemma repo_inv_cong:
  "lr_runs m' = lr_runs m \<Longrightarrow> lr_idemLookup m' = lr_idemLookup m \<Longrightarrow> repo_inv m' = repo_inv m"
  by (simp add: repo_inv_def)

lemma repo_inv_CreateRun:
  assumes "repo_inv m"
  shows "repo_inv (fst (lr_CreateRun now key snap m))"
proof (cases "snd (lr_CreateRun now key snap m)")
  case None
  then show ?thesis
    using assms
    by (auto simp: lr_CreateRun_def Let_def record_ok_def split: if_splits intro!: repo_inv_new [where key = key])
next
  case (Some err)
  then have "fst (lr_CreateRun now key snap m) = m" by (auto simp: lr_CreateRun_def Let_def split: if_splits)
  then show ?thesis using assms by simp
qed

lemma repo_inv_AdmitSingleTask:
  assumes "repo_inv m"
  shows "repo_inv (fst (lr_AdmitSingleTask now a m))"
proof (cases "snd (lr_AdmitSingleTask now a m)")
  case None
  have key: "sa_IdempotencyKey a \<noteq> []" and id: "ts_RunID (sa_Task a) = rs_RunID (sa_Run a)"
    if "validateSingleTaskAdmission a = None"
    using that by (auto simp: validateSingleTaskAdmission_def Let_def split: if_splits)
  show ?thesis
    using None assms key id
    by (auto simp: lr_AdmitSingleTask_def Let_def record_ok_def split: if_splits option.splits
        intro!: repo_inv_new [where key = "sa_IdempotencyKey a"])
next
  case (Some err)
  then have "fst (lr_AdmitSingleTask now a m) = m"
    by (auto simp: lr_AdmitSingleTask_def Let_def split: if_splits option.splits)
  then show ?thesis using assms by simp
qed

lemma repo_inv_CreateTask:
  assumes "repo_inv m"
  shows "repo_inv (fst (lr_CreateTask snap m))"
proof (cases "lr_run m (ts_RunID snap)")
  case (Some rec)
  have "record_ok (ts_RunID snap) (put_task (ts_TaskID snap) (TaskSnapshot_Clone snap) rec)"
    using repo_inv_record [OF assms Some] by (auto simp: record_ok_def put_task_def update_conv' distinct_update)
  then show ?thesis
    using Some assms by (auto simp: lr_CreateTask_def intro!: repo_inv_put [OF assms Some])
qed (use assms in \<open>simp add: lr_CreateTask_def\<close>)

lemma repo_inv_CloseRun:
  assumes "repo_inv m"
  shows "repo_inv (fst (lr_CloseRun r m))"
proof (cases "lr_run m r")
  case (Some rec)
  have "record_ok r (rec\<lparr>rr_closed := True\<rparr>)"
    using repo_inv_record [OF assms Some] by (simp add: record_ok_def)
  then show ?thesis
    using Some assms by (auto simp: lr_CloseRun_def intro!: repo_inv_put [OF assms Some])
qed (use assms in \<open>simp add: lr_CloseRun_def\<close>)

definition numbered :: "time \<Rightarrow> LifecycleEvent \<Rightarrow> runRecord \<Rightarrow> LifecycleEvent" where
  "numbered now event rec = event\<lparr>le_Sequence := of_nat (length (rr_events rec) + 1),
     le_CreatedAt := (if le_CreatedAt event = 0 then now else le_CreatedAt event)\<rparr>"

lemma AppendEvent_cases:
  assumes "repo_inv m"
  obtains (fail) err where "lr_AppendEvent now event m = (m, Some err)"
  | (ok) rec rec' where "lr_AppendEvent now event m = (put_run (le_RunID event) rec' m, None)"
      "lr_run m (le_RunID event) = Some rec" "record_ok (le_RunID event) rec'"
      "rr_events rec' = rr_events rec @ [numbered now event rec]" "le_ID event \<notin> rr_eventIDs rec"
      "rr_idemKeys rec' = rr_idemKeys rec" "rr_tasks rec' = rr_tasks rec" "rr_closed rec' = rr_closed rec"
      "length (le_Payload event) \<le> maxEventPayload"
proof (cases "snd (lr_AppendEvent now event m)")
  case (Some err)
  then have "lr_AppendEvent now event m = (m, Some err)"
    by (auto simp: lr_AppendEvent_def Let_def split: if_splits option.splits)
  then show thesis by (rule fail)
next
  case None
  then obtain rec where rec: "lr_run m (le_RunID event) = Some rec" "le_ID event \<notin> rr_eventIDs rec"
    "length (le_Payload event) \<le> maxEventPayload"
    by (auto simp: lr_AppendEvent_def not_less split: option.splits if_splits)
  define rec' where "rec' = rec\<lparr>rr_sequences := (rr_sequences rec)(le_RunID event \<mapsto> of_nat (length (rr_events rec) + 1)),
      rr_events := rr_events rec @ [numbered now event rec], rr_eventIDs := insert (le_ID event) (rr_eventIDs rec)\<rparr>"
  note ok0 = repo_inv_record [OF assms rec(1)]
  have q: "mget_or 0 (rr_sequences rec) (le_RunID event) + 1 = of_nat (length (rr_events rec) + 1)"
    using ok0 by (simp add: record_ok_def)
  have n: "(if le_CreatedAt (event\<lparr>le_Sequence := of_nat (length (rr_events rec) + 1)\<rparr>) = 0
      then event\<lparr>le_Sequence := of_nat (length (rr_events rec) + 1)\<rparr>\<lparr>le_CreatedAt := now\<rparr>
      else event\<lparr>le_Sequence := of_nat (length (rr_events rec) + 1)\<rparr>) = numbered now event rec"
    by (simp add: numbered_def)
  have "lr_AppendEvent now event m = (put_run (le_RunID event) rec' m, None)"
    using rec unfolding lr_AppendEvent_def rec(1) option.case Let_def q n
    by (simp add: rec'_def)
  moreover have "record_ok (le_RunID event) rec'"
    using ok0 rec(2) by (auto simp: record_ok_def rec'_def numbered_def)
  ultimately show thesis using rec by (intro ok [of rec' rec]) (simp_all add: rec'_def)
qed

lemma repo_inv_AppendEvent: "repo_inv m \<Longrightarrow> repo_inv (fst (lr_AppendEvent now event m))"
  by (rule AppendEvent_cases [of m now event]) (auto intro: repo_inv_put)

lemma repo_inv_step:
  assumes "repo_inv m"
  shows "repo_inv (lr_step hexsum op m)"
proof (cases op)
  case (LCompareAndSet n1 n2 r t v st)
  then show ?thesis
    using repo_inv_rewrites [OF assms CompareAndSet_rewrites] by (simp add: lr_step_def)
next
  case (LSetTaskOutput r t a b c)
  then show ?thesis
    using repo_inv_rewrites [OF assms SetTaskOutput_rewrites] by (simp add: lr_step_def)
next
  case (LSetTaskAttempt r t a st f)
  then show ?thesis
    using repo_inv_rewrites [OF assms SetTaskAttempt_rewrites] by (simp add: lr_step_def)
qed (use assms in \<open>auto simp: lr_step_def repo_inv_CreateRun repo_inv_CreateTask repo_inv_AppendEvent
      repo_inv_CloseRun repo_inv_DeleteRun repo_inv_AdmitSingleTask lr_ClaimRun_def lr_ReleaseRun_def
      lr_ClearRunClaim_def lr_StoreContent_def intro: iffD2 [OF repo_inv_cong] split: option.splits if_splits\<close>)

lemma reachable_repo_inv: "lr_reachable hexsum m \<Longrightarrow> repo_inv m"
proof (induction rule: lr_reachable.induct)
  case init
  then show ?case by (simp add: repo_inv_def NewMemoryLedgerRepository_def)
qed (rule repo_inv_step)

lemma lr_reachable_run_ops: "lr_reachable hexsum m \<Longrightarrow> lr_reachable hexsum (run_ops (lr_step hexsum) ops m)"
  by (rule run_ops_invariant) (auto intro: lr_reachable.step)

section \<open>The history of a task\<close>

definition task_at :: "ledger_repo \<Rightarrow> string \<Rightarrow> string \<Rightarrow> TaskSnapshot option" where
  "task_at m r t = (case lr_run m r of None \<Rightarrow> None | Some rec \<Rightarrow> map_of (rr_tasks rec) t)"

lemma rewrites_task_at:
  assumes "rewrites_run r m m'" "task_at m r' t = Some s"
  shows "\<exists>s'. task_at m' r' t = Some s' \<and> task_rewrite s s'"
  using assms unfolding rewrites_run_def
  by (fastforce simp: task_at_def rec_rewrite_def update_conv' split: option.splits if_splits)

lemma task_step:
  assumes "repo_inv m" "task_at m r t = Some s" "op \<noteq> LDeleteRun r"
  shows "\<exists>s'. task_at (lr_step hexsum op m) r t = Some s' \<and> task_rewrite s s'"
proof (cases op)
  case (LCompareAndSet n1 n2 r' t' v st)
  then show ?thesis
    using rewrites_task_at [OF CompareAndSet_rewrites assms(2)] by (simp add: lr_step_def)
next
  case (LSetTaskOutput r' t' a b c)
  then show ?thesis
    using rewrites_task_at [OF SetTaskOutput_rewrites assms(2)] by (simp add: lr_step_def)
next
  case (LSetTaskAttempt r' t' a st f)
  then show ?thesis
    using rewrites_task_at [OF SetTaskAttempt_rewrites assms(2)] by (simp add: lr_step_def)
next
  case (LAppendEvent now ev)
  show ?thesis
    by (rule AppendEvent_cases [OF assms(1), of now ev])
      (use assms(2) LAppendEvent in \<open>auto simp: lr_step_def task_at_def\<close>)
next
  case (LDeleteRun r')
  then show ?thesis
    using assms(2,3) by (auto simp: lr_step_def lr_DeleteRun_def task_at_def delete_conv' split: option.splits)
qed (use assms(2) in \<open>auto simp: lr_step_def task_at_def lr_CreateRun_def lr_CreateTask_def lr_CloseRun_def
      lr_AdmitSingleTask_def lr_ClaimRun_def lr_ReleaseRun_def lr_ClearRunClaim_def lr_StoreContent_def
      Let_def split: option.splits if_splits\<close>)

text \<open>
  Along a sequence of operations the status follows ValidTaskTransition and the version
  grows by the number of moves.
\<close>

inductive status_path :: "nat \<Rightarrow> string \<Rightarrow> string \<Rightarrow> bool" where
  stay: "status_path 0 a a"
| move: "status_path n a b \<Longrightarrow> ValidTaskTransition b c \<Longrightarrow> status_path (Suc n) a c"

lemma task_run_ops:
  assumes "repo_inv m" "task_at m r t = Some s" "LDeleteRun r \<notin> set ops"
  shows "\<exists>s' n. task_at (run_ops (lr_step hexsum) ops m) r t = Some s' \<and> n \<le> length ops \<and>
    status_path n (ts_Status s) (ts_Status s') \<and> ts_Version s' = ts_Version s + of_nat n \<and>
    (ts_CompletedAt s \<noteq> None \<longrightarrow> ts_CompletedAt s' = ts_CompletedAt s)"
  using assms
proof (induction ops rule: rev_induct)
  case (snoc op ops)
  let ?m = "run_ops (lr_step hexsum) ops m"
  obtain s1 n where s1: "task_at ?m r t = Some s1" "n \<le> length ops"
    "status_path n (ts_Status s) (ts_Status s1)" "ts_Version s1 = ts_Version s + of_nat n"
    "ts_CompletedAt s \<noteq> None \<longrightarrow> ts_CompletedAt s1 = ts_CompletedAt s"
    using snoc by force
  have inv: "repo_inv ?m"
    using snoc.prems(1) by (intro run_ops_invariant [where I = repo_inv]) (auto intro: repo_inv_step)
  obtain s2 where s2: "task_at (lr_step hexsum op ?m) r t = Some s2" "task_rewrite s1 s2"
    using task_step [OF inv s1(1), of op hexsum] snoc.prems(3) by (metis list.set_intros(1) in_set_conv_decomp)
  have comp: "ts_CompletedAt s \<noteq> None \<longrightarrow> ts_CompletedAt s2 = ts_CompletedAt s"
    using s1(5) s2(2) unfolding task_rewrite_def by metis
  show ?case
  proof (cases "ts_Status s2 = ts_Status s1 \<and> ts_Version s2 = ts_Version s1")
    case True
    then show ?thesis using s1 s2 comp by (intro exI [of _ s2] exI [of _ n]) simp
  next
    case False
    then have "ValidTaskTransition (ts_Status s1) (ts_Status s2)" "ts_Version s2 = ts_Version s1 + 1"
      using s2(2) by (auto simp: task_rewrite_def)
    then show ?thesis
      using s1 s2 comp by (intro exI [of _ s2] exI [of _ "Suc n"]) (auto intro: status_path.move)
  qed
qed (auto intro: status_path.stay)

end
