(* ===== verification/Ledger_Properties.thy ===== *)
theory Ledger_Properties
  imports Ledger_Laws
begin

text \<open>
  Properties of the task ledger: the task state machine seen through arbitrary sequences
  of repository operations, compare-and-set, idempotency keys, the event log, the derived
  run status, snapshots, admission and display names.
\<close>

definition demo_policy :: RunPolicy where
  "demo_policy = zero_run_policy"

definition demo_limits :: WorkLimits where
  "demo_limits = \<lparr>wl_MaxTurns = 0, wl_MaxPromptTokens = 0, wl_MaxOutputTokens = 0, wl_MaxOutputPerCall = 0,
     wl_MaxToolCalls = 0, wl_DeadlineAt = 0\<rparr>"

definition demo_run :: "string \<Rightarrow> RunSnapshot" where
  "demo_run r = \<lparr>rs_RunID = r, rs_DisplayName = [], rs_Status = RunStatusCreated, rs_RequestFingerprint = [],
     rs_Tasks = [], rs_CreatedAt = 1, rs_CompletedAt = None, rs_Labels = None, rs_IdempotencyKey = [],
     rs_Policy = demo_policy\<rparr>"

definition demo_task :: "string \<Rightarrow> string \<Rightarrow> string \<Rightarrow> TaskSnapshot" where
  "demo_task r t st = \<lparr>ts_RunID = r, ts_TaskID = t, ts_ParentTaskID = [], ts_RawID = [], ts_DisplayName = [],
     ts_Status = st, ts_Attempts = [], ts_DependsOn = [], ts_CreatedAt = 1, ts_CompletedAt = None,
     ts_OutputRef = [], ts_ErrorRef = [], ts_ToolCallsRef = [], ts_Version = 0, ts_HandlerName = [],
     ts_AgentName = [], ts_AgentDigest = [], ts_Skill = [], ts_ProviderName = [], ts_Model = [],
     ts_Scope = [], ts_OutputSchema = None, ts_InputSchema = None, ts_Input = [], ts_Timeout = 0,
     ts_Budget = 0, ts_Depth = 0, ts_WorkLimits = demo_limits, ts_DisableProviderReplay = False\<rparr>"

definition no_hash :: "string \<Rightarrow> string" where
  "no_hash s = []"

definition demo_repo :: "string \<Rightarrow> ledger_repo" where
  "demo_repo st = run_ops (lr_step no_hash)
     [LCreateRun 1 ''key'' (demo_run ''r''), LCreateTask (demo_task ''r'' ''t'' st)] NewMemoryLedgerRepository"

lemma demo_repo_reachable: "lr_reachable no_hash (demo_repo st)"
  unfolding demo_repo_def by (rule lr_reachable_run_ops) (rule lr_reachable.init)

lemma demo_clone [simp]: "TaskSnapshot_Clone (demo_task r t st) = demo_task r t st"
  by (rule TaskSnapshot_Clone_canon) (simp add: canon_task_def canon_map_def demo_task_def)

lemma demo_repo_open: "map_option rr_closed (lr_run (demo_repo st) ''r'') = Some False"
  by (simp add: demo_repo_def lr_step_def lr_CreateRun_def lr_CreateTask_def NewMemoryLedgerRepository_def
      Let_def) (simp add: demo_run_def demo_task_def)

lemma demo_repo_task: "task_at (demo_repo st) ''r'' ''t'' = Some (demo_task ''r'' ''t'' st)"
  by (simp add: demo_repo_def lr_step_def lr_CreateRun_def lr_CreateTask_def NewMemoryLedgerRepository_def
      task_at_def Let_def) (simp add: demo_run_def demo_task_def)

section \<open>The task state machine\<close>

definition final_statuses :: "string set" where
  "final_statuses = {TaskStatusCompleted, TaskStatusCanceled, TaskStatusBlocked}"

lemma final_no_exit: "s \<in> final_statuses \<Longrightarrow> \<not> ValidTaskTransition s s'"
  by (auto simp: final_statuses_def ValidTaskTransition_def task_status_defs)

lemma status_path_final:
  assumes "status_path n a b" "a \<in> final_statuses"
  shows "n = 0 \<and> b = a"
  using assms by (induction rule: status_path.induct) (auto dest: final_no_exit)

text \<open>
  C7. A task that is completed, canceled or blocked stays exactly that, with its version,
  under every sequence of repository operations that does not delete its run.
\<close>

theorem final_task_status_is_kept:
  assumes "lr_reachable hexsum m" "task_at m r t = Some s" "ts_Status s \<in> final_statuses"
    "LDeleteRun r \<notin> set ops"
  shows "\<exists>s'. task_at (run_ops (lr_step hexsum) ops m) r t = Some s' \<and>
    ts_Status s' = ts_Status s \<and> ts_Version s' = ts_Version s"
proof -
  obtain s' n where "task_at (run_ops (lr_step hexsum) ops m) r t = Some s'"
    "status_path n (ts_Status s) (ts_Status s')" "ts_Version s' = ts_Version s + of_nat n"
    using task_run_ops [OF reachable_repo_inv [OF assms(1)] assms(2,4), of hexsum] by blast
  with status_path_final [OF this(2) assms(3)] show ?thesis by auto
qed

lemma final_task_status_is_kept_witness:
  "\<exists>s'. task_at (run_ops (lr_step no_hash) [LCompareAndSet 5 6 ''r'' ''t'' 0 TaskStatusRunning] (demo_repo TaskStatusCanceled)) ''r'' ''t'' = Some s' \<and>
     ts_Status s' = TaskStatusCanceled"
  using final_task_status_is_kept [OF demo_repo_reachable demo_repo_task, of TaskStatusCanceled
      "[LCompareAndSet 5 6 ''r'' ''t'' 0 TaskStatusRunning]"]
  by (auto simp: final_statuses_def demo_task_def)

text \<open>
  A compare-and-set succeeds exactly when the status is not blank, the run exists and is
  open, the task exists at the expected version, and the move is a valid transition; then the
  task has the new status and the next version, the run's status is the one derived from
  its tasks, and otherwise nothing changes.
\<close>

theorem CompareAndSet_outcome:
  "let m' = fst (lr_CompareAndSetTaskStatus n1 n2 r t v st m);
       ok = (TrimSpace st \<noteq> [] \<and> (\<exists>rec s. lr_run m r = Some rec \<and> \<not> rr_closed rec \<and>
         map_of (rr_tasks rec) t = Some s \<and> ts_Version s = v \<and> ValidTaskTransition (ts_Status s) st)) in
   (snd (lr_CompareAndSetTaskStatus n1 n2 r t v st m) = None \<longleftrightarrow> ok) \<and>
   (\<not> ok \<longrightarrow> m' = m) \<and>
   (ok \<longrightarrow> (\<exists>rec s'. lr_run m' r = Some rec \<and> map_of (rr_tasks rec) t = Some s' \<and> ts_Status s' = st \<and>
      ts_Version s' = v + 1 \<and> rs_Status (rr_snapshot rec) = deriveRunStatus (map snd (rr_tasks rec))))"
proof -
  have ne: "rr_tasks (put_task t s rec) \<noteq> []" for s rec
    by (simp add: put_task_def)
  have drv: "rs_Status (rr_snapshot (updateRunStatusLocked n2 (put_task t s rec))) =
      deriveRunStatus (map snd (rr_tasks (put_task t s rec)))" for s rec
    using ne [of s rec] by (simp add: updateRunStatusLocked_def Let_def)
  show ?thesis
    using drv
    by (auto simp: lr_CompareAndSetTaskStatus_def on_open_task_def Let_def split: option.splits if_splits)
qed

lemma CompareAndSet_demo_ok:
  "TrimSpace TaskStatusRunning \<noteq> [] \<and> (\<exists>rec s. lr_run (demo_repo TaskStatusQueued) ''r'' = Some rec \<and> \<not> rr_closed rec \<and>
     map_of (rr_tasks rec) ''t'' = Some s \<and> ts_Version s = 0 \<and> ValidTaskTransition (ts_Status s) TaskStatusRunning)"
proof -
  obtain rec where "lr_run (demo_repo TaskStatusQueued) ''r'' = Some rec" "\<not> rr_closed rec"
    "map_of (rr_tasks rec) ''t'' = Some (demo_task ''r'' ''t'' TaskStatusQueued)"
    using demo_repo_task [of TaskStatusQueued] demo_repo_open [of TaskStatusQueued]
    by (auto simp: task_at_def split: option.splits)
  moreover have "ValidTaskTransition TaskStatusQueued TaskStatusRunning" "TrimSpace TaskStatusRunning \<noteq> []"
    by (simp_all add: ValidTaskTransition_def task_status_defs TrimSpace_def is_space_def Let_def)
  ultimately show ?thesis
    by (intro conjI exI [of _ rec] exI [of _ "demo_task ''r'' ''t'' TaskStatusQueued"]) (simp_all add: demo_task_def)
qed

lemma CompareAndSet_witness_ok:
  "snd (lr_CompareAndSetTaskStatus 5 6 ''r'' ''t'' 0 TaskStatusRunning (demo_repo TaskStatusQueued)) = None"
  using CompareAndSet_demo_ok
  by (auto simp: lr_CompareAndSetTaskStatus_def on_open_task_def Let_def split: option.splits)

lemma CompareAndSet_outcome_witness:
  "snd (lr_CompareAndSetTaskStatus 5 6 ''r'' ''t'' 0 TaskStatusRunning (demo_repo TaskStatusQueued)) = None"
  using CompareAndSet_outcome [of 5 6 "''r''" "''t''" 0 TaskStatusRunning "demo_repo TaskStatusQueued"]
    CompareAndSet_demo_ok by (simp add: Let_def)

text \<open>
  Of the writers that read the same version of a task, at most one succeeds: after one
  successful compare-and-set, another with the same expected version is refused after every
  sequence of fewer than 2^64 - 1 operations that does not delete the run.
\<close>

theorem compare_and_set_single_winner:
  assumes "lr_reachable hexsum m" "lr_CompareAndSetTaskStatus n1 n2 r t v st m = (m1, None)"
    "LDeleteRun r \<notin> set ops" "length ops + 1 < 2 ^ 64"
  shows "let m2 = run_ops (lr_step hexsum) ops m1 in
    \<exists>err. lr_CompareAndSetTaskStatus n3 n4 r t v st' m2 = (m2, Some err)"
proof -
  let ?m2 = "run_ops (lr_step hexsum) ops m1"
  have "m1 = lr_step hexsum (LCompareAndSet n1 n2 r t v st) m" using assms(2) by (simp add: lr_step_def)
  then have inv: "repo_inv m1" using repo_inv_step [OF reachable_repo_inv [OF assms(1)]] by simp
  obtain rec s1 where "lr_run m1 r = Some rec" "map_of (rr_tasks rec) t = Some s1" "ts_Version s1 = v + 1"
    using CompareAndSet_outcome [of n1 n2 r t v st m] assms(2) by (auto simp: Let_def)
  then have "task_at m1 r t = Some s1" by (simp add: task_at_def)
  from task_run_ops [OF inv this assms(3), of hexsum] obtain s2 n where
    s2: "task_at ?m2 r t = Some s2" "n \<le> length ops" "ts_Version s2 = v + 1 + of_nat n"
    using \<open>ts_Version s1 = v + 1\<close> by auto
  have "unat (of_nat (Suc n) :: 64 word) = Suc n"
    unfolding unat_of_nat using s2(2) assms(4) by (intro mod_less) simp
  then have "unat (1 + of_nat n :: 64 word) = n + 1" by simp
  then have "(1 + of_nat n :: 64 word) \<noteq> 0" by (metis Suc_eq_plus1 nat.distinct(1) unat_0)
  then have "ts_Version s2 \<noteq> v" using s2(3) by (simp add: add.assoc)
  then show ?thesis
    using s2(1) by (auto simp: lr_CompareAndSetTaskStatus_def on_open_task_def task_at_def Let_def
        split: option.splits if_splits)
qed

lemma compare_and_set_single_winner_witness:
  "let m1 = fst (lr_CompareAndSetTaskStatus 5 6 ''r'' ''t'' 0 TaskStatusRunning (demo_repo TaskStatusQueued));
       m2 = run_ops (lr_step no_hash) [LClaimRun ''r'' ''A''] m1 in
    \<exists>err. lr_CompareAndSetTaskStatus 7 8 ''r'' ''t'' 0 TaskStatusCanceled m2 = (m2, Some err)"
proof -
  let ?r = "lr_CompareAndSetTaskStatus 5 6 ''r'' ''t'' 0 TaskStatusRunning (demo_repo TaskStatusQueued)"
  have "?r = (fst ?r, None)"
    using CompareAndSet_witness_ok by (metis prod.collapse)
  from compare_and_set_single_winner [OF demo_repo_reachable this, of "[LClaimRun ''r'' ''A'']" 7 8 TaskStatusCanceled]
  show ?thesis by (simp add: Let_def)
qed

text \<open>
  Once a task has a completion time, no operation changes it again, not even the
  retry that takes the task from failed back to queued and running; a retried task
  therefore carries the time of its first failure while it runs and after it completes.
\<close>

theorem completion_time_is_never_reset:
  assumes "lr_reachable hexsum m" "task_at m r t = Some s" "ts_CompletedAt s = Some c"
    "LDeleteRun r \<notin> set ops"
  shows "\<exists>s'. task_at (run_ops (lr_step hexsum) ops m) r t = Some s' \<and> ts_CompletedAt s' = Some c"
  using task_run_ops [OF reachable_repo_inv [OF assms(1)] assms(2,4), of hexsum] assms(3) by force

definition demo_failed :: ledger_repo where
  "demo_failed = run_ops (lr_step no_hash)
     [LCompareAndSet 10 10 ''r'' ''t'' 0 TaskStatusFailed] (demo_repo TaskStatusRunning)"

definition demo_retry :: "lr_op list" where
  "demo_retry = [LCompareAndSet 20 20 ''r'' ''t'' 1 TaskStatusRetryPending,
     LCompareAndSet 30 30 ''r'' ''t'' 2 TaskStatusQueued, LCompareAndSet 40 40 ''r'' ''t'' 3 TaskStatusRunning]"

lemma demo_failed_task:
  "task_at demo_failed ''r'' ''t'' = Some (demo_task ''r'' ''t'' TaskStatusFailed\<lparr>ts_Version := 1, ts_CompletedAt := Some 10\<rparr>)"
  unfolding demo_failed_def using demo_repo_task [of TaskStatusRunning] demo_repo_open [of TaskStatusRunning]
  by (auto simp: lr_step_def lr_CompareAndSetTaskStatus_def on_open_task_def task_at_def Let_def
      ValidTaskTransition_def isTerminalTaskStatus_def task_status_defs TrimSpace_def is_space_def demo_task_def
      split: option.splits)

lemma completion_time_is_never_reset_witness:
  "\<exists>s'. task_at (run_ops (lr_step no_hash) demo_retry demo_failed) ''r'' ''t'' = Some s' \<and> ts_CompletedAt s' = Some 10"
proof -
  have "lr_reachable no_hash demo_failed"
    unfolding demo_failed_def by (rule lr_reachable_run_ops) (rule demo_repo_reachable)
  from completion_time_is_never_reset [OF this demo_failed_task, of 10 demo_retry] show ?thesis
    by (simp add: demo_task_def demo_retry_def)
qed

section \<open>Idempotency keys\<close>

lemma key_step:
  assumes "repo_inv m" "lr_idemLookup m k = Some r" "op \<noteq> LDeleteRun r"
  shows "lr_idemLookup (lr_step hexsum op m) k = Some r"
proof (cases op)
  case (LDeleteRun r')
  show ?thesis
  proof (cases "lr_run m r'")
    case (Some rec)
    have "k \<notin> fst ` set (rr_idemKeys rec)"
      using repo_inv_lookup [OF assms(1), of k r'] Some assms(2,3) LDeleteRun by auto
    then show ?thesis
      using Some LDeleteRun assms(2) by (simp add: lr_step_def lr_DeleteRun_def foldl_del)
  qed (use LDeleteRun assms(2) in \<open>simp add: lr_step_def lr_DeleteRun_def\<close>)
next
  case (LAppendEvent now ev)
  show ?thesis
    by (rule AppendEvent_cases [OF assms(1), of now ev]) (use LAppendEvent assms(2) in \<open>auto simp: lr_step_def\<close>)
qed (use assms(2) in \<open>auto simp: lr_step_def lr_CreateRun_def lr_CreateTask_def lr_CloseRun_def
      lr_AdmitSingleTask_def lr_ClaimRun_def lr_ReleaseRun_def lr_ClearRunClaim_def lr_StoreContent_def
      lr_CompareAndSetTaskStatus_def lr_SetTaskOutput_def lr_SetTaskAttempt_def on_open_task_def
      Let_def split: option.splits if_splits prod.splits\<close>)

text \<open>
  C8. An idempotency key admits one run: after a successful CreateRun under a key, and until
  that run is deleted, the key resolves to that run, and every CreateRun or AdmitSingleTask
  under the same key is refused without effect.
\<close>

theorem idempotency_key_admits_once:
  assumes "lr_reachable hexsum m" "lr_CreateRun now key snap m = (m1, None)" "key \<noteq> []"
    "LDeleteRun (rs_RunID snap) \<notin> set ops"
  shows "let m2 = run_ops (lr_step hexsum) ops m1 in
    (\<exists>full. lr_GetRunByIdempotencyKey now' key m2 = Inr full \<and> lr_GetRun now' (rs_RunID snap) m2 = Inr full) \<and>
    (\<exists>err. lr_CreateRun now' key snap' m2 = (m2, Some err)) \<and>
    (sa_IdempotencyKey a = key \<longrightarrow> (\<exists>err. lr_AdmitSingleTask now' a m2 = (m2, Some err)))"
proof -
  let ?m2 = "run_ops (lr_step hexsum) ops m1" and ?r = "rs_RunID snap"
  have "m1 = lr_step hexsum (LCreateRun now key snap) m" using assms(2) by (simp add: lr_step_def)
  then have inv: "repo_inv m1" using repo_inv_step [OF reachable_repo_inv [OF assms(1)]] by simp
  have "lr_idemLookup m1 key = Some ?r"
    using assms(2,3) by (auto simp: lr_CreateRun_def Let_def split: if_splits)
  with inv have both: "repo_inv ?m2 \<and> lr_idemLookup ?m2 key = Some ?r"
    using assms(4)
    by (intro run_ops_invariant [where I = "\<lambda>s. repo_inv s \<and> lr_idemLookup s key = Some ?r"])
      (auto intro: repo_inv_step key_step)
  then obtain rec where "lr_run ?m2 ?r = Some rec"
    using repo_inv_lookup [of ?m2 key ?r] by blast
  with both assms(3) show ?thesis
    by (auto simp: Let_def lr_GetRunByIdempotencyKey_def lr_GetRun_def lr_CreateRun_def lr_AdmitSingleTask_def
        split: option.splits)
qed

lemma idempotency_key_admits_once_witness:
  "let m2 = run_ops (lr_step no_hash) [LDeleteRun ''other'']
       (fst (lr_CreateRun 1 ''key'' (demo_run ''r'') NewMemoryLedgerRepository)) in
    \<exists>err. lr_CreateRun 9 ''key'' (demo_run ''s'') m2 = (m2, Some err)"
proof -
  let ?c = "lr_CreateRun 1 ''key'' (demo_run ''r'') NewMemoryLedgerRepository"
  have "?c = (fst ?c, None)"
    by (simp add: lr_CreateRun_def NewMemoryLedgerRepository_def Let_def)
  from idempotency_key_admits_once [OF lr_reachable.init [of no_hash] this, of "[LDeleteRun ''other'']" 9 "demo_run ''s''"]
  show ?thesis by (auto simp: Let_def demo_run_def)
qed

section \<open>The repository invariant and the event log\<close>

text \<open>
  C9. In every reachable repository the key index and the runs agree in both directions,
  tasks sit under their own ids, and the events of a run carry distinct ids and are
  numbered 1, 2, 3 and so on in the order they were appended.
\<close>

theorem ledger_invariant:
  assumes "lr_reachable hexsum m"
  shows "repo_inv m"
  using assms by (rule reachable_repo_inv)

lemma ledger_invariant_witness: "repo_inv (demo_repo TaskStatusQueued)"
  by (rule ledger_invariant [OF demo_repo_reachable])

text \<open>
  AppendEvent numbers: an accepted event is listed last, under the next number, after
  exactly the events listed before; a duplicate id or an oversized payload is refused and
  changes nothing.
\<close>

theorem AppendEvent_numbers:
  assumes "lr_reachable hexsum m" "lr_ListEvents (le_RunID ev) m = Inr before"
  shows "(case snd (lr_AppendEvent now ev m) of
      None \<Rightarrow> (\<exists>e. lr_ListEvents (le_RunID ev) (fst (lr_AppendEvent now ev m)) = Inr (before @ [e]) \<and>
          le_ID e = le_ID ev \<and> le_Sequence e = of_nat (length before + 1) \<and> le_Payload e = le_Payload ev) \<and>
        le_ID ev \<notin> set (map le_ID before) \<and> length (le_Payload ev) \<le> maxEventPayload
    | Some err \<Rightarrow> fst (lr_AppendEvent now ev m) = m \<and>
        (le_ID ev \<in> set (map le_ID before) \<or> maxEventPayload < length (le_Payload ev)))"
proof -
  note inv = reachable_repo_inv [OF assms(1)]
  obtain rec where rec: "lr_run m (le_RunID ev) = Some rec" "before = rr_events rec"
    using assms(2) by (auto simp: lr_ListEvents_def map_idI split: option.splits)
  have ids: "rr_eventIDs rec = set (map le_ID before)"
    using repo_inv_record [OF inv rec(1)] rec(2) by (simp add: record_ok_def)
  from inv show ?thesis
  proof (cases rule: AppendEvent_cases [where now = now and event = ev])
    case (fail err)
    then show ?thesis
      using rec ids by (auto simp: lr_AppendEvent_def Let_def split: if_splits)
  next
    case (ok rec1 rec2)
    then have "rec1 = rec" using rec(1) by simp
    then show ?thesis
      using ok rec(2) ids by (auto simp: lr_ListEvents_def map_idI numbered_def)
  qed
qed

definition demo_ev :: LifecycleEvent where
  "demo_ev = \<lparr>le_ID = ''e1'', le_RunID = ''r'', le_Sequence = 0, le_Kind = ''task_created'', le_TaskID = ''t'',
     le_AttemptID = [], le_SessionID = [], le_Payload = [], le_CreatedAt = 0\<rparr>"

lemma demo_append_ok: "snd (lr_AppendEvent 3 demo_ev (demo_repo TaskStatusQueued)) = None"
  by (simp add: demo_ev_def lr_AppendEvent_def demo_repo_def lr_step_def lr_CreateRun_def lr_CreateTask_def
      NewMemoryLedgerRepository_def maxEventPayload_def Let_def) (simp add: demo_run_def demo_task_def)

lemma AppendEvent_numbers_witness:
  "\<exists>e. lr_ListEvents ''r'' (fst (lr_AppendEvent 3 demo_ev (demo_repo TaskStatusQueued))) = Inr [e] \<and> le_Sequence e = 1"
proof -
  have "lr_ListEvents (le_RunID demo_ev) (demo_repo TaskStatusQueued) = Inr []"
    by (simp add: demo_ev_def lr_ListEvents_def demo_repo_def lr_step_def lr_CreateRun_def lr_CreateTask_def
        NewMemoryLedgerRepository_def Let_def) (simp add: demo_run_def demo_task_def)
  from AppendEvent_numbers [OF demo_repo_reachable this, of 3] demo_append_ok show ?thesis
    by (auto simp: demo_ev_def)
qed

section \<open>Derived run status\<close>

lemma derive_flags_fold:
  "fold (\<lambda>t. derive_step (ts_Status t)) ts f =
     \<lparr>df_hasQueued = (df_hasQueued f \<or> (\<exists>t \<in> set ts. ts_Status t = TaskStatusQueued)),
      df_hasRunning = (df_hasRunning f \<or> (\<exists>t \<in> set ts. ts_Status t \<in> {TaskStatusRunning, TaskStatusCancelRequested})),
      df_allTerminal = (df_allTerminal f \<and> (\<forall>t \<in> set ts. isTerminalTaskStatus (ts_Status t))),
      df_anyFailedOrTimedOut = (df_anyFailedOrTimedOut f \<or> (\<exists>t \<in> set ts. ts_Status t \<in> {TaskStatusFailed, TaskStatusTimedOut})),
      df_anyCanceled = (df_anyCanceled f \<or> (\<exists>t \<in> set ts. ts_Status t \<in> {TaskStatusCanceled, TaskStatusBlocked})),
      df_anyCompleted = (df_anyCompleted f \<or> (\<exists>t \<in> set ts. ts_Status t = TaskStatusCompleted))\<rparr>"
proof (induction ts arbitrary: f)
  case (Cons t ts)
  show ?case
    unfolding fold_Cons comp_apply Cons.IH
    by (cases f) (auto simp: derive_step_def isTerminalTaskStatus_def task_status_defs)
qed simp

lemma deriveRunStatus_eq:
  "deriveRunStatus ts =
     (if \<not> (\<forall>t \<in> set ts. isTerminalTaskStatus (ts_Status t)) then
        (if \<exists>t \<in> set ts. ts_Status t \<in> {TaskStatusRunning, TaskStatusCancelRequested} then RunStatusRunning
         else if \<exists>t \<in> set ts. ts_Status t = TaskStatusQueued then RunStatusQueued
         else RunStatusRunning)
      else if \<exists>t \<in> set ts. ts_Status t \<in> {TaskStatusFailed, TaskStatusTimedOut} then RunStatusFailed
      else if \<exists>t \<in> set ts. ts_Status t \<in> {TaskStatusCanceled, TaskStatusBlocked} then RunStatusCanceled
      else if \<exists>t \<in> set ts. ts_Status t = TaskStatusCompleted then RunStatusCompleted
      else RunStatusFailed)"
  unfolding deriveRunStatus_def derive_flags_fold derive_init_def Let_def derive_flags.simps
  by (simp only: simp_thms if_cancel) (simp only: conj_commute if_True if_False split: if_split, blast?)

text \<open>
  The derived run status does not depend on the order of the tasks, and is terminal
  exactly when every task is: completed when all tasks completed, failed when one failed or
  timed out, canceled otherwise.  The status of an unfinished run is queued only when some
  task is queued and none runs.
\<close>

theorem deriveRunStatus_spec:
  assumes "ts \<noteq> []" "mset ts' = mset ts"
  shows "deriveRunStatus ts' = deriveRunStatus ts \<and>
    (isRunTerminal (deriveRunStatus ts) \<longleftrightarrow> (\<forall>t \<in> set ts. isTerminalTaskStatus (ts_Status t))) \<and>
    (deriveRunStatus ts = RunStatusCompleted \<longleftrightarrow> (\<forall>t \<in> set ts. ts_Status t = TaskStatusCompleted)) \<and>
    (deriveRunStatus ts = RunStatusFailed \<longleftrightarrow> (\<forall>t \<in> set ts. isTerminalTaskStatus (ts_Status t)) \<and>
       (\<exists>t \<in> set ts. ts_Status t \<in> {TaskStatusFailed, TaskStatusTimedOut})) \<and>
    (deriveRunStatus ts = RunStatusQueued \<longleftrightarrow> (\<exists>t \<in> set ts. ts_Status t = TaskStatusQueued) \<and>
       (\<forall>t \<in> set ts. ts_Status t \<notin> {TaskStatusRunning, TaskStatusCancelRequested}))"
proof -
  have set: "set ts' = set ts" using assms(2) by (rule mset_eq_setD)
  have perm: "deriveRunStatus ts' = deriveRunStatus ts"
    unfolding deriveRunStatus_def derive_flags_fold set ..
  note eq = deriveRunStatus_eq [of ts]
  have qt: "\<not> (\<forall>t \<in> set ts. isTerminalTaskStatus (ts_Status t))" if "\<exists>t \<in> set ts. ts_Status t = TaskStatusQueued"
  proof
    assume "\<forall>t \<in> set ts. isTerminalTaskStatus (ts_Status t)"
    with that have "isTerminalTaskStatus TaskStatusQueued" by force
    then show False by (simp add: isTerminalTaskStatus_def task_status_defs)
  qed
  have some: "(\<exists>t \<in> set ts. ts_Status t \<in> {TaskStatusFailed, TaskStatusTimedOut}) \<or>
      (\<exists>t \<in> set ts. ts_Status t \<in> {TaskStatusCanceled, TaskStatusBlocked}) \<or>
      (\<exists>t \<in> set ts. ts_Status t = TaskStatusCompleted)" if "\<forall>t \<in> set ts. isTerminalTaskStatus (ts_Status t)"
    using that assms(1) by (cases ts) (auto simp: isTerminalTaskStatus_def)
  have allc: "(\<forall>t \<in> set ts. ts_Status t = TaskStatusCompleted) \<longleftrightarrow>
      (\<forall>t \<in> set ts. isTerminalTaskStatus (ts_Status t)) \<and>
      \<not> (\<exists>t \<in> set ts. ts_Status t \<in> {TaskStatusFailed, TaskStatusTimedOut}) \<and>
      \<not> (\<exists>t \<in> set ts. ts_Status t \<in> {TaskStatusCanceled, TaskStatusBlocked})"
    by (auto simp: isTerminalTaskStatus_def task_status_defs)
  have trm: "isRunTerminal (deriveRunStatus ts) \<longleftrightarrow> (\<forall>t \<in> set ts. isTerminalTaskStatus (ts_Status t))"
    unfolding eq by (simp add: isRunTerminal_def run_status_defs)
  have q: "deriveRunStatus ts = RunStatusQueued \<longleftrightarrow> (\<exists>t \<in> set ts. ts_Status t = TaskStatusQueued) \<and>
       (\<forall>t \<in> set ts. ts_Status t \<notin> {TaskStatusRunning, TaskStatusCancelRequested})"
    unfolding eq using qt by (simp add: run_status_defs) blast
  have f: "deriveRunStatus ts = RunStatusFailed \<longleftrightarrow> (\<forall>t \<in> set ts. isTerminalTaskStatus (ts_Status t)) \<and>
       (\<exists>t \<in> set ts. ts_Status t \<in> {TaskStatusFailed, TaskStatusTimedOut})"
    unfolding eq using some by (simp add: run_status_defs) blast
  have c: "deriveRunStatus ts = RunStatusCompleted \<longleftrightarrow> (\<forall>t \<in> set ts. ts_Status t = TaskStatusCompleted)"
    unfolding eq allc using some by (simp add: run_status_defs) blast
  show ?thesis using perm trm q f c by blast
qed

lemma deriveRunStatus_spec_witness:
  "deriveRunStatus [demo_task ''r'' ''b'' TaskStatusFailed, demo_task ''r'' ''a'' TaskStatusCompleted] =
   deriveRunStatus [demo_task ''r'' ''a'' TaskStatusCompleted, demo_task ''r'' ''b'' TaskStatusFailed]"
  using deriveRunStatus_spec [of "[demo_task ''r'' ''a'' TaskStatusCompleted, demo_task ''r'' ''b'' TaskStatusFailed]"
      "[demo_task ''r'' ''b'' TaskStatusFailed, demo_task ''r'' ''a'' TaskStatusCompleted]"] by simp

section \<open>Copies and admission\<close>

text \<open>
  Clone loses nothing: the copy of an attempt and of an event equals the original, and so
  do the copies of a task and of a run whose schemas are values json.Unmarshal produces
  and whose labels have one value per key.
\<close>

theorem Clone_is_faithful:
  "AttemptSnapshot_Clone a = a \<and> LifecycleEvent_Clone e = e \<and>
   (canon_task t \<longrightarrow> TaskSnapshot_Clone t = t) \<and>
   (list_all canon_task (rs_Tasks s) \<and> (case rs_Labels s of None \<Rightarrow> True | Some l \<Rightarrow> distinct (map fst l))
     \<longrightarrow> RunSnapshot_Clone s = s)"
proof -
  have "map TaskSnapshot_Clone (rs_Tasks s) = rs_Tasks s" if "list_all canon_task (rs_Tasks s)"
    using that by (auto simp: list_all_iff intro!: map_idI TaskSnapshot_Clone_canon)
  then show ?thesis
    by (cases s) (auto simp: TaskSnapshot_Clone_canon RunSnapshot_Clone_def Let_def copy_map_id split: option.splits)
qed

lemma Clone_is_faithful_witness:
  "TaskSnapshot_Clone (demo_task ''r'' ''t'' TaskStatusQueued \<lparr>ts_OutputSchema := Some [(''type'', GString ''object'')]\<rparr>) =
     demo_task ''r'' ''t'' TaskStatusQueued \<lparr>ts_OutputSchema := Some [(''type'', GString ''object'')]\<rparr>"
  using Clone_is_faithful [where t = "demo_task ''r'' ''t'' TaskStatusQueued \<lparr>ts_OutputSchema := Some [(''type'', GString ''object'')]\<rparr>"]
  by (simp add: canon_task_def canon_map_def demo_task_def)

text \<open>
  An admitted single task is complete: its run resolves by id and by key, holds exactly
  the given task, and its status is queued, or canceled when it was admitted as
  canceled (then with a completion time); the same admission is refused from then on, and
  no other run changes.
\<close>

theorem AdmitSingleTask_effect:
  assumes "lr_AdmitSingleTask now a m = (m', None)" "canon_task (sa_Task a)"
  shows "(\<exists>full. lr_GetRun now' (rs_RunID (sa_Run a)) m' = Inr full \<and>
      lr_GetRunByIdempotencyKey now' (sa_IdempotencyKey a) m' = Inr full \<and>
      rs_Tasks full = [sa_Task a] \<and> rs_IdempotencyKey full = sa_IdempotencyKey a \<and>
      rs_Status full = (if rs_Status (sa_Run a) = RunStatusCanceled then RunStatusCanceled else RunStatusQueued) \<and>
      (rs_Status full = RunStatusCanceled \<longrightarrow> rs_CompletedAt full \<noteq> None)) \<and>
    lr_GetTask (rs_RunID (sa_Run a)) (ts_TaskID (sa_Task a)) m' = Inr (sa_Task a) \<and>
    lr_AdmitSingleTask now' a m' = (m', Some LErrDuplicate) \<and>
    (\<forall>r. r \<noteq> rs_RunID (sa_Run a) \<longrightarrow> lr_run m' r = lr_run m r)"
proof -
  note cl = TaskSnapshot_Clone_canon [OF assms(2)]
  have st: "deriveRunStatus [sa_Task a] =
      (if rs_Status (sa_Run a) = RunStatusCanceled then RunStatusCanceled else RunStatusQueued)"
    if "validateSingleTaskAdmission a = None"
    using that unfolding deriveRunStatus_eq
    by (auto simp: validateSingleTaskAdmission_def isTerminalTaskStatus_def task_status_defs run_status_defs Let_def
        split: if_splits)
  have key: "sa_IdempotencyKey a \<noteq> []" if "validateSingleTaskAdmission a = None"
    using that by (auto simp: validateSingleTaskAdmission_def Let_def split: if_splits)
  have v: "validateSingleTaskAdmission a = None" and opn: "\<not> lr_closed m"
    using assms(1) by (auto simp: lr_AdmitSingleTask_def split: if_splits option.splits)
  define run where "run = (let run0 = (RunSnapshot_Clone (sa_Run a))\<lparr>rs_IdempotencyKey := sa_IdempotencyKey a\<rparr>
    in if rs_CreatedAt run0 = 0 then run0\<lparr>rs_CreatedAt := now\<rparr> else run0)"
  define rec where "rec = \<lparr>rr_snapshot = run, rr_closed = False, rr_tasks = [(ts_TaskID (sa_Task a), sa_Task a)],
    rr_events = [], rr_eventIDs = {}, rr_sequences = (\<lambda>_. None),
    rr_idemKeys = [(sa_IdempotencyKey a, rs_RunID (sa_Run a))]\<rparr>"
  have run: "rs_RunID run = rs_RunID (sa_Run a)" "rs_IdempotencyKey run = sa_IdempotencyKey a"
    by (simp_all add: run_def Let_def)
  have m': "m' = put_run (rs_RunID (sa_Run a)) rec
      (m\<lparr>lr_idemLookup := (lr_idemLookup m)(sa_IdempotencyKey a \<mapsto> rs_RunID (sa_Run a))\<rparr>)"
    using assms(1) v opn unfolding rec_def run_def
    by (auto simp: lr_AdmitSingleTask_def cl Let_def split: if_splits)
  have look: "lr_run m' r = (if r = rs_RunID (sa_Run a) then Some rec else lr_run m r)" for r
    by (simp add: m')
  have idem: "lr_idemLookup m' (sa_IdempotencyKey a) = Some (rs_RunID (sa_Run a))" by (simp add: m')
  let ?full = "fullSnapshot now' rec"
  have tasks: "rs_Tasks ?full = [sa_Task a]" "rs_IdempotencyKey ?full = sa_IdempotencyKey a"
    "rs_Status ?full = deriveRunStatus [sa_Task a]"
    "isRunTerminal (deriveRunStatus [sa_Task a]) \<longrightarrow> rs_CompletedAt ?full \<noteq> None"
    by (simp_all add: fullSnapshot_def rec_def cl run Let_def)
  have again: "lr_AdmitSingleTask now' a m' = (m', Some LErrDuplicate)"
    using v opn look by (simp add: lr_AdmitSingleTask_def m')
  have "lr_GetTask (rs_RunID (sa_Run a)) (ts_TaskID (sa_Task a)) m' = Inr (sa_Task a)"
    by (simp add: lr_GetTask_def look rec_def cl)
  then show ?thesis
    using tasks again look key [OF v] st [OF v]
    by (auto simp: lr_GetRun_def lr_GetRunByIdempotencyKey_def idem isRunTerminal_def)
qed

definition demo_attempt :: AttemptSnapshot where
  "demo_attempt = \<lparr>as_AttemptID = ''a1'', as_TaskID = ''t'', as_RunID = ''r'', as_AttemptNum = 1,
     as_StartedAt = 1, as_FinishedAt = None, as_Status = TaskStatusQueued\<rparr>"

definition demo_admission :: SingleTaskAdmission where
  "demo_admission = \<lparr>sa_IdempotencyKey = ''k'', sa_Run = demo_run ''r'',
     sa_Task = demo_task ''r'' ''t'' TaskStatusQueued\<lparr>ts_Attempts := [demo_attempt]\<rparr>\<rparr>"

lemma AdmitSingleTask_effect_witness:
  "\<exists>full. lr_GetRun 9 ''r'' (fst (lr_AdmitSingleTask 5 demo_admission NewMemoryLedgerRepository)) = Inr full \<and>
     rs_Status full = RunStatusQueued"
proof -
  let ?r = "lr_AdmitSingleTask 5 demo_admission NewMemoryLedgerRepository"
  have "validateSingleTaskAdmission demo_admission = None"
    by (simp add: validateSingleTaskAdmission_def demo_admission_def demo_attempt_def demo_run_def demo_task_def
        run_status_defs Let_def)
  then have ok: "?r = (fst ?r, None)"
    by (simp add: lr_AdmitSingleTask_def NewMemoryLedgerRepository_def Let_def)
  have "canon_task (sa_Task demo_admission)"
    by (simp add: demo_admission_def canon_task_def canon_map_def demo_task_def)
  moreover have "rs_RunID (sa_Run demo_admission) = ''r''" "rs_Status (sa_Run demo_admission) \<noteq> RunStatusCanceled"
    by (simp_all add: demo_admission_def demo_run_def run_status_defs)
  ultimately show ?thesis using AdmitSingleTask_effect [OF ok, of 9] by auto
qed

section \<open>Display names\<close>

definition read_digits :: "string \<Rightarrow> nat" where
  "read_digits s = foldl (\<lambda>a c. a * 10 + (of_char c - 48)) 0 s"

lemma read_show_nat: "read_digits (show_nat n) = n"
proof (induction n rule: show_nat.induct)
  case (1 n)
  have d: "of_char (char_of (48 + n mod 10) :: char) - (48 :: nat) = n mod 10"
    by (simp add: of_char_of)
  show ?case
  proof (cases "n < 10")
    case True
    then show ?thesis using d by (subst show_nat.simps) (simp add: read_digits_def)
  next
    case False
    then have ih: "read_digits (show_nat (n div 10)) = n div 10" using 1 by simp
    have "read_digits (show_nat n) = read_digits (show_nat (n div 10)) * 10 + n mod 10"
      using False d by (subst show_nat.simps) (simp add: read_digits_def)
    then show ?thesis using ih by simp
  qed
qed

lemma name_of_inj: "name_of base a = name_of base b \<longleftrightarrow> a = b"
  by (auto simp: name_of_def word_unat_eq_iff) (metis read_show_nat)

lemma gen_loop_finds:
  assumes "name_of base (n + of_nat k) \<notin> used"
  shows "\<exists>n' name. gen_loop base used n = Some (n', name) \<and> name \<notin> used"
  using assms
proof (induction k arbitrary: n)
  case 0
  then show ?case by (subst gen_loop.simps) simp
next
  case (Suc k)
  show ?case
  proof (cases "name_of base n \<in> used")
    case True
    have "name_of base ((n + 1) + of_nat k) \<notin> used" using Suc.prems by (simp add: add_ac)
    from Suc.IH [OF this] True show ?thesis by (subst gen_loop.simps) simp
  next
    case False
    then show ?thesis by (subst gen_loop.simps) simp
  qed
qed

text \<open>
  Generate returns: while fewer than 2^64 names are taken the collision loop ends, and
  the name it returns was not in use and is recorded as used.
\<close>

theorem Generate_returns_fresh_name:
  assumes "finite (ng_used g)" "card (ng_used g) < 2 ^ 64"
  shows "\<exists>g' name. Generate base g = Some (g', name) \<and> name \<notin> ng_used g \<and>
    ng_used g' = insert name (ng_used g)"
proof -
  let ?b = "if base = [] then ''agent'' else base" and ?n = "ng_counter g + 1"
  let ?f = "\<lambda>w :: 64 word. name_of ?b w"
  have "inj ?f" by (rule injI) (simp add: name_of_inj)
  then have "card (range ?f) = 2 ^ 64" by (simp add: card_image card_word)
  then have "\<not> range ?f \<subseteq> ng_used g" using card_mono [OF assms(1), of "range ?f"] assms(2) by auto
  then obtain w where w: "?f w \<notin> ng_used g" by auto
  have "?f (?n + of_nat (unat (w - ?n))) \<notin> ng_used g" using w by simp
  from gen_loop_finds [OF this] show ?thesis
    by (auto simp: Generate_def Let_def)
qed

lemma Generate_returns_fresh_name_witness:
  "\<exists>g' name. Generate ''agent'' (Reserve ''agent-1'' NewDisplayNameGenerator) = Some (g', name) \<and> name \<noteq> ''agent-1''"
  using Generate_returns_fresh_name [of "Reserve ''agent-1'' NewDisplayNameGenerator" "''agent''"]
  by (auto simp: Reserve_def NewDisplayNameGenerator_def)

end
