(* ===== verification/Wf_Types.thy ===== *)
theory Wf_Types
  imports Ledger_Engine Ledger_Types
begin

text \<open>
  The data of the workflow ledger (src/internal/workflows/ledger): run and attempt
  statuses with their transition rules (types.go), the records of types.go and
  panel_types.go, the event payloads and the event identifiers (events.go).

  Statuses are strings in the code and stay strings here.  Byte slices are strings; a nil
  slice and an empty one are the same.  The Clone methods copy, so on values they are the
  identity and do not appear.  AttemptNo, ExecutionNo and Iterations are Go ints, far below
  their bound, and are unbounded here; versions are 64-bit words.
\<close>

section \<open>Run statuses\<close>

definition WfRunStatusPending :: string where "WfRunStatusPending = ''pending''"
definition WfRunStatusRunning :: string where "WfRunStatusRunning = ''running''"
definition WfRunStatusWaitingApproval :: string where "WfRunStatusWaitingApproval = ''waiting_approval''"
definition WfRunStatusDeliveryPending :: string where "WfRunStatusDeliveryPending = ''delivery_pending''"
definition WfRunStatusSucceeded :: string where "WfRunStatusSucceeded = ''succeeded''"
definition WfRunStatusFailed :: string where "WfRunStatusFailed = ''failed''"
definition WfRunStatusCanceled :: string where "WfRunStatusCanceled = ''canceled''"
definition WfRunStatusTimedOut :: string where "WfRunStatusTimedOut = ''timed_out''"
definition WfRunStatusDeliveryFailed :: string where "WfRunStatusDeliveryFailed = ''delivery_failed''"

lemmas wf_run_status_defs = WfRunStatusPending_def WfRunStatusRunning_def WfRunStatusWaitingApproval_def
  WfRunStatusDeliveryPending_def WfRunStatusSucceeded_def WfRunStatusFailed_def WfRunStatusCanceled_def
  WfRunStatusTimedOut_def WfRunStatusDeliveryFailed_def

definition ValidRunTransition :: "string \<Rightarrow> string \<Rightarrow> bool" where
  "ValidRunTransition src dst \<longleftrightarrow>
     (if src = WfRunStatusPending then dst = WfRunStatusRunning
      else if src = WfRunStatusRunning then
        dst \<in> {WfRunStatusWaitingApproval, WfRunStatusDeliveryPending, WfRunStatusSucceeded,
          WfRunStatusFailed, WfRunStatusCanceled, WfRunStatusTimedOut}
      else if src = WfRunStatusWaitingApproval then
        dst \<in> {WfRunStatusRunning, WfRunStatusFailed, WfRunStatusCanceled, WfRunStatusTimedOut}
      else if src = WfRunStatusDeliveryPending then
        dst = WfRunStatusSucceeded \<or> dst = WfRunStatusDeliveryFailed \<or> dst = WfRunStatusFailed \<or>
        dst = WfRunStatusRunning
      else if src = WfRunStatusDeliveryFailed then
        dst = WfRunStatusDeliveryPending \<or> dst = WfRunStatusDeliveryFailed \<or> dst = WfRunStatusRunning
      else False)"

definition IsTerminalRunStatus :: "string \<Rightarrow> bool" where
  "IsTerminalRunStatus s \<longleftrightarrow> s \<in> {WfRunStatusSucceeded, WfRunStatusFailed, WfRunStatusCanceled,
     WfRunStatusTimedOut, WfRunStatusDeliveryFailed}"

definition IsDeletableRunStatus :: "string \<Rightarrow> bool" where
  "IsDeletableRunStatus s \<longleftrightarrow> IsTerminalRunStatus s \<or> s = WfRunStatusDeliveryPending"

definition IsResumableRunStatus :: "string \<Rightarrow> bool" where
  "IsResumableRunStatus s \<longleftrightarrow> s \<in> {WfRunStatusPending, WfRunStatusRunning, WfRunStatusWaitingApproval}"

section \<open>Attempt statuses\<close>

definition AttemptStatusPending :: string where "AttemptStatusPending = ''pending''"
definition AttemptStatusRunning :: string where "AttemptStatusRunning = ''running''"
definition AttemptStatusSucceeded :: string where "AttemptStatusSucceeded = ''succeeded''"
definition AttemptStatusFailed :: string where "AttemptStatusFailed = ''failed''"
definition AttemptStatusTimedOut :: string where "AttemptStatusTimedOut = ''timed_out''"
definition AttemptStatusCanceled :: string where "AttemptStatusCanceled = ''canceled''"
definition AttemptStatusInterrupted :: string where "AttemptStatusInterrupted = ''interrupted''"

lemmas attempt_status_defs = AttemptStatusPending_def AttemptStatusRunning_def AttemptStatusSucceeded_def
  AttemptStatusFailed_def AttemptStatusTimedOut_def AttemptStatusCanceled_def AttemptStatusInterrupted_def

definition ValidAttemptTransition :: "string \<Rightarrow> string \<Rightarrow> bool" where
  "ValidAttemptTransition src dst \<longleftrightarrow>
     (if src = AttemptStatusPending then dst = AttemptStatusRunning
      else if src = AttemptStatusRunning then
        dst \<in> {AttemptStatusSucceeded, AttemptStatusFailed, AttemptStatusTimedOut,
          AttemptStatusCanceled, AttemptStatusInterrupted}
      else False)"

definition IsTerminalAttemptStatus :: "string \<Rightarrow> bool" where
  "IsTerminalAttemptStatus s \<longleftrightarrow> s \<in> {AttemptStatusSucceeded, AttemptStatusFailed,
     AttemptStatusTimedOut, AttemptStatusCanceled, AttemptStatusInterrupted}"

definition IsTerminalStepID :: "string \<Rightarrow> bool" where
  "IsTerminalStepID stepID \<longleftrightarrow> stepID = ''success'' \<or> stepID = ''failure''"

section \<open>Panels\<close>

definition PanelPhaseMembersAdmitted :: string where "PanelPhaseMembersAdmitted = ''members_admitted''"
definition PanelPhaseSynthesisAdmitted :: string where "PanelPhaseSynthesisAdmitted = ''synthesis_admitted''"
definition PanelPhaseCancelPending :: string where "PanelPhaseCancelPending = ''cancel_pending''"

lemmas panel_phase_defs = PanelPhaseMembersAdmitted_def PanelPhaseSynthesisAdmitted_def PanelPhaseCancelPending_def

record PanelTaskSpec =
  pt_TaskName :: string
  pt_DependsOn :: "string list"
  pt_InputRef :: string
  pt_InputDigest :: string
  pt_InputSchemaRef :: string
  pt_InputSchemaDigest :: string
  pt_Budget :: int
  pt_Scope :: string
  pt_AgentName :: string
  pt_AgentDigest :: string
  pt_Skill :: string
  pt_Provider :: string
  pt_Model :: string
  pt_OutputSchemaDigest :: string
  pt_OutputSchemaRef :: string
  pt_Timeout :: duration
  pt_DeadlineAt :: time
  pt_WorkLimits :: WorkLimits
  pt_Policy :: RunPolicy
  pt_WorkFingerprint :: string
  pt_CoordinatorRequestFingerprint :: string

record PanelMemberExecution =
  pm_MemberID :: string
  pm_CoordinatorRunID :: string
  pm_TaskID :: string
  pm_Work :: PanelTaskSpec
  pm_Order :: int

record PanelSynthesisExecution =
  ps_Work :: PanelTaskSpec

record PanelExecution =
  pe_Members :: "PanelMemberExecution list"
  pe_SynthesisRunID :: string
  pe_SynthesisTaskID :: string
  pe_Synthesis :: "PanelSynthesisExecution option"
  pe_Phase :: string

section \<open>Runs, attempts and their parts\<close>

record WfRunSnapshot =
  wr_RunID :: string
  wr_InvocationKey :: string
  wr_WorkflowName :: string
  wr_WorkflowDigest :: string
  wr_SnapshotDigest :: string
  wr_InputDigest :: string
  wr_Status :: string
  wr_ActiveStepID :: string
  wr_BaseRef :: string
  wr_BaseCommit :: string
  wr_OriginBaseCommit :: string
  wr_WorktreeName :: string
  wr_RemoteURL :: string
  wr_Version :: "64 word"
  wr_StartedAt :: time
  wr_DeadlineAt :: "time option"
  wr_FinishedAt :: "time option"

record StepExecution =
  se_ExecutionNo :: int
  se_CoordinatorRunID :: string
  se_TaskID :: string
  se_StartedAt :: time

record StepAttempt =
  at_AttemptID :: string
  at_RunID :: string
  at_StepID :: string
  at_AttemptNo :: int
  at_Status :: string
  at_CoordinatorRunID :: string
  at_TaskID :: string
  at_Executions :: "StepExecution list"
  at_OutputRef :: string
  at_OutputDigest :: string
  at_ErrorRef :: string
  at_ToStepID :: string
  at_TransitionIndex :: int
  at_MatchDigest :: string
  at_PromptRef :: string
  at_DecisionJSON :: string
  at_EvidenceJSON :: string
  at_PanelExecution :: "PanelExecution option"
  at_LastHeartbeatAt :: time
  at_StartedAt :: time
  at_FinishedAt :: "time option"
  at_Version :: "64 word"

record AttemptOutcome =
  oc_Status :: string
  oc_CoordinatorRunID :: string
  oc_TaskID :: string
  oc_OutputRef :: string
  oc_OutputDigest :: string
  oc_ErrorRef :: string
  oc_ToStepID :: string
  oc_TransitionIndex :: int
  oc_MatchDigest :: string
  oc_DecisionJSON :: string
  oc_EvidenceJSON :: string

definition MaxEvidenceBytes :: nat where
  "MaxEvidenceBytes = 16 * 2 ^ 10"

record TransitionRecord =
  tr_RunID :: string
  tr_FromAttemptID :: string
  tr_ToStepID :: string
  tr_TransitionIndex :: int
  tr_MatchDigest :: string
  tr_DecisionJSON :: string
  tr_CreatedAt :: time

record LoopCounter =
  lc_RunID :: string
  lc_LoopName :: string
  lc_Iterations :: int

record ApprovalRecord =
  ap_ApprovalID :: string
  ap_RunID :: string
  ap_StepID :: string
  ap_Status :: string
  ap_Actor :: string
  ap_Reason :: string
  ap_EvidenceJSON :: string
  ap_CreatedAt :: time
  ap_ResolvedAt :: "time option"

record DeliveryRecord =
  dl_RunID :: string
  dl_IdempotencyKey :: string
  dl_Mode :: string
  dl_BaseRef :: string
  dl_HeadRef :: string
  dl_CommitSHA :: string
  dl_TreeSHA :: string
  dl_Provider :: string
  dl_RemoteID :: string
  dl_URL :: string
  dl_Status :: string
  dl_ErrorRef :: string
  dl_DiffRef :: string
  dl_DeferredFiles :: string
  dl_StackRemainingCommits :: int
  dl_UpdatedAt :: time

text \<open>The zero StepAttempt and ApprovalRecord with an identity, as the replay creates them.\<close>

definition new_attempt :: "string \<Rightarrow> string \<Rightarrow> StepAttempt" where
  "new_attempt attemptID runID =
     \<lparr>at_AttemptID = attemptID, at_RunID = runID, at_StepID = [], at_AttemptNo = 0, at_Status = [],
      at_CoordinatorRunID = [], at_TaskID = [], at_Executions = [], at_OutputRef = [], at_OutputDigest = [],
      at_ErrorRef = [], at_ToStepID = [], at_TransitionIndex = 0, at_MatchDigest = [], at_PromptRef = [],
      at_DecisionJSON = [], at_EvidenceJSON = [], at_PanelExecution = None, at_LastHeartbeatAt = 0,
      at_StartedAt = 0, at_FinishedAt = None, at_Version = 0\<rparr>"

definition new_approval :: "string \<Rightarrow> string \<Rightarrow> ApprovalRecord" where
  "new_approval approvalID runID =
     \<lparr>ap_ApprovalID = approvalID, ap_RunID = runID, ap_StepID = [], ap_Status = [], ap_Actor = [],
      ap_Reason = [], ap_EvidenceJSON = [], ap_CreatedAt = 0, ap_ResolvedAt = None\<rparr>"

end
