(* ===== verification/Wf_Events.thy ===== *)
theory Wf_Events
  imports Wf_Types
begin

text \<open>
  Events of the workflow ledger (src/internal/workflows/ledger/events.go): kinds, payload
  structs, marshalling and deterministic event identifiers; and the validation of panel
  work (panel_types.go, storage_panels.go).

  A stored payload is the JSON text of one payload struct.  json.Marshal of these structs
  is injective on values with valid UTF-8 strings and json.Unmarshal inverts it, so a
  payload is represented by the value itself: the event carries the one-symbol list
  \<open>[p]\<close>, and a payload of another struct counts as undecodable.  Marshalling fails
  exactly when a time lies outside the years 0 to 9999 (UTC), as time.Time.MarshalJSON
  requires.
\<close>

section \<open>Event kinds\<close>

definition eventKindRunCreated :: string where "eventKindRunCreated = ''wf_run_created''"
definition eventKindRunStatusChanged :: string where "eventKindRunStatusChanged = ''wf_run_status_changed''"
definition eventKindAttemptStarted :: string where "eventKindAttemptStarted = ''wf_attempt_started''"
definition eventKindAttemptExecution :: string where "eventKindAttemptExecution = ''wf_attempt_execution''"
definition eventKindAttemptHeartbeat :: string where "eventKindAttemptHeartbeat = ''wf_attempt_heartbeat''"
definition eventKindAttemptCompleted :: string where "eventKindAttemptCompleted = ''wf_attempt_completed''"
definition eventKindAttemptPrompt :: string where "eventKindAttemptPrompt = ''wf_attempt_prompt''"
definition eventKindPanelPhaseSet :: string where "eventKindPanelPhaseSet = ''wf_panel_phase_set''"
definition eventKindLoopIncremented :: string where "eventKindLoopIncremented = ''wf_loop_incremented''"
definition eventKindApprovalCreated :: string where "eventKindApprovalCreated = ''wf_approval_created''"
definition eventKindApprovalResolved :: string where "eventKindApprovalResolved = ''wf_approval_resolved''"
definition eventKindDeliveryUpserted :: string where "eventKindDeliveryUpserted = ''wf_delivery_upserted''"
definition eventKindRunDeleted :: string where "eventKindRunDeleted = ''wf_run_deleted''"
definition eventKindRunResumed :: string where "eventKindRunResumed = ''wf_run_resumed''"

lemmas event_kind_defs = eventKindRunCreated_def eventKindRunStatusChanged_def eventKindAttemptStarted_def
  eventKindAttemptExecution_def eventKindAttemptHeartbeat_def eventKindAttemptCompleted_def
  eventKindAttemptPrompt_def eventKindPanelPhaseSet_def eventKindLoopIncremented_def
  eventKindApprovalCreated_def eventKindApprovalResolved_def eventKindDeliveryUpserted_def
  eventKindRunDeleted_def eventKindRunResumed_def

section \<open>Payloads\<close>

record runCreatedPayload =
  crp_Run :: WfRunSnapshot
  crp_SnapshotJSON :: string
  crp_CreatedAt :: time

record runStatusChangedPayload =
  scp_Status :: string
  scp_Version :: "64 word"
  scp_FinishedAt :: "time option"
  scp_CreatedAt :: time

record attemptStartedPayload =
  asp_Attempt :: StepAttempt
  asp_CreatedAt :: time

record attemptCompletedPayload =
  acp_AttemptID :: string
  acp_Version :: "64 word"
  acp_Status :: string
  acp_StepID :: string
  acp_AttemptNo :: int
  acp_StartedAt :: time
  acp_CoordinatorRunID :: string
  acp_TaskID :: string
  acp_OutputRef :: string
  acp_OutputDigest :: string
  acp_ErrorRef :: string
  acp_ToStepID :: string
  acp_TransitionIndex :: int
  acp_MatchDigest :: string
  acp_DecisionJSON :: string
  acp_EvidenceJSON :: string
  acp_FinishedAt :: time
  acp_CreatedAt :: time

record attemptPromptPayload =
  app_AttemptID :: string
  app_PromptRef :: string
  app_CreatedAt :: time

record attemptExecutionPayload =
  aep_AttemptID :: string
  aep_ExecutionNo :: int
  aep_CoordinatorRunID :: string
  aep_TaskID :: string
  aep_Reason :: string
  aep_CreatedAt :: time

record attemptHeartbeatPayload =
  ahp_AttemptID :: string
  ahp_HeartbeatAt :: time
  ahp_CreatedAt :: time

record loopIncrementedPayload =
  lip_LoopName :: string
  lip_Iterations :: int
  lip_CreatedAt :: time

record approvalCreatedPayload =
  pcp_Approval :: ApprovalRecord
  pcp_CreatedAt :: time

record approvalResolvedPayload =
  prp_ApprovalID :: string
  prp_Status :: string
  prp_Actor :: string
  prp_Reason :: string
  prp_ResolvedAt :: time
  prp_CreatedAt :: time

record deliveryUpsertedPayload =
  dup_Delivery :: DeliveryRecord
  dup_CreatedAt :: time

record runDeletedPayload =
  rdp_RunID :: string
  rdp_DeletedAt :: time

record runResumedPayload =
  rrp_RunID :: string

record panelPhasePayload =
  ppp_AttemptID :: string
  ppp_Version :: "64 word"
  ppp_Phase :: string
  ppp_Synthesis :: "PanelSynthesisExecution option"
  ppp_CreatedAt :: time

datatype wf_payload =
    PRunCreated runCreatedPayload
  | PRunStatusChanged runStatusChangedPayload
  | PAttemptStarted attemptStartedPayload
  | PAttemptCompleted attemptCompletedPayload
  | PAttemptPrompt attemptPromptPayload
  | PAttemptExecution attemptExecutionPayload
  | PAttemptHeartbeat attemptHeartbeatPayload
  | PLoopIncremented loopIncrementedPayload
  | PApprovalCreated approvalCreatedPayload
  | PApprovalResolved approvalResolvedPayload
  | PDeliveryUpserted deliveryUpsertedPayload
  | PRunDeleted runDeletedPayload
  | PRunResumed runResumedPayload
  | PPanelPhase panelPhasePayload

section \<open>Marshalling\<close>

text \<open>Nanoseconds from the zero time to the first instant of year 0 and of year 10000.\<close>

definition json_time :: "time \<Rightarrow> bool" where
  "json_time t \<longleftrightarrow> - 31622400000000000 \<le> t \<and> t < 315537897600000000000"

definition spec_times :: "PanelTaskSpec \<Rightarrow> time list" where
  "spec_times s = [pt_DeadlineAt s, wl_DeadlineAt (pt_WorkLimits s)]"

definition opt_times :: "time option \<Rightarrow> time list" where
  "opt_times t = (case t of None \<Rightarrow> [] | Some x \<Rightarrow> [x])"

definition panel_times :: "PanelExecution \<Rightarrow> time list" where
  "panel_times p = concat (map (\<lambda>m. spec_times (pm_Work m)) (pe_Members p)) @
     (case pe_Synthesis p of None \<Rightarrow> [] | Some s \<Rightarrow> spec_times (ps_Work s))"

definition attempt_times :: "StepAttempt \<Rightarrow> time list" where
  "attempt_times a = [at_LastHeartbeatAt a, at_StartedAt a] @ opt_times (at_FinishedAt a) @
     map se_StartedAt (at_Executions a) @
     (case at_PanelExecution a of None \<Rightarrow> [] | Some p \<Rightarrow> panel_times p)"

fun payload_times :: "wf_payload \<Rightarrow> time list" where
  "payload_times (PRunCreated p) = [wr_StartedAt (crp_Run p), crp_CreatedAt p] @
     opt_times (wr_DeadlineAt (crp_Run p)) @ opt_times (wr_FinishedAt (crp_Run p))"
| "payload_times (PRunStatusChanged p) = scp_CreatedAt p # opt_times (scp_FinishedAt p)"
| "payload_times (PAttemptStarted p) = asp_CreatedAt p # attempt_times (asp_Attempt p)"
| "payload_times (PAttemptCompleted p) = [acp_StartedAt p, acp_FinishedAt p, acp_CreatedAt p]"
| "payload_times (PAttemptPrompt p) = [app_CreatedAt p]"
| "payload_times (PAttemptExecution p) = [aep_CreatedAt p]"
| "payload_times (PAttemptHeartbeat p) = [ahp_HeartbeatAt p, ahp_CreatedAt p]"
| "payload_times (PLoopIncremented p) = [lip_CreatedAt p]"
| "payload_times (PApprovalCreated p) = [ap_CreatedAt (pcp_Approval p), pcp_CreatedAt p] @
     opt_times (ap_ResolvedAt (pcp_Approval p))"
| "payload_times (PApprovalResolved p) = [prp_ResolvedAt p, prp_CreatedAt p]"
| "payload_times (PDeliveryUpserted p) = [dl_UpdatedAt (dup_Delivery p), dup_CreatedAt p]"
| "payload_times (PRunDeleted p) = [rdp_DeletedAt p]"
| "payload_times (PRunResumed p) = []"
| "payload_times (PPanelPhase p) = ppp_CreatedAt p #
     (case ppp_Synthesis p of None \<Rightarrow> [] | Some s \<Rightarrow> spec_times (ps_Work s))"

definition marshal :: "wf_payload \<Rightarrow> lerr + wf_payload list" where
  "marshal p = (if list_all json_time (payload_times p) then Inr [p] else Inl (LErrOther ''json''))"

text \<open>The two helpers that check their payload; \<open>clock\<close> is the time.Now of the first.\<close>

definition marshalAttemptPrompt :: "time \<Rightarrow> attemptPromptPayload \<Rightarrow> lerr + wf_payload list" where
  "marshalAttemptPrompt clock p =
     (if app_AttemptID p = [] then Inl (LErrOther ''attempt_id is empty'')
      else if app_PromptRef p = [] then Inl (LErrOther ''prompt_ref is empty'')
      else marshal (PAttemptPrompt (if app_CreatedAt p = 0 then p\<lparr>app_CreatedAt := clock\<rparr> else p)))"

definition marshalAttemptHeartbeat :: "attemptHeartbeatPayload \<Rightarrow> lerr + wf_payload list" where
  "marshalAttemptHeartbeat p =
     (if ahp_AttemptID p = [] then Inl (LErrOther ''attempt_id is empty'')
      else if ahp_HeartbeatAt p = 0 then Inl (LErrOther ''heartbeat_at is zero'')
      else marshal (PAttemptHeartbeat (if ahp_CreatedAt p = 0 then p\<lparr>ahp_CreatedAt := ahp_HeartbeatAt p\<rparr> else p)))"

section \<open>Event identifiers\<close>

definition hex_digit :: "nat \<Rightarrow> char" where
  "hex_digit n = (if n < 10 then char_of (48 + n) else char_of (87 + n))"

definition hex_encode :: "string \<Rightarrow> string" where
  "hex_encode s = concat (map (\<lambda>c. [hex_digit (of_char c div 16), hex_digit (of_char c mod 16)]) s)"

definition EventID :: "string \<Rightarrow> string \<Rightarrow> string list \<Rightarrow> string" where
  "EventID runID kind parts =
     ''wfe:'' @ hex_encode runID @ '':'' @ kind @ concat (map (\<lambda>p. '':'' @ hex_encode p) parts)"

definition Itoa :: "int \<Rightarrow> string" where
  "Itoa n = (if n < 0 then ''-'' @ show_nat (nat (- n)) else show_nat (nat n))"

definition FormatUint :: "64 word \<Rightarrow> string" where
  "FormatUint n = show_nat (unat n)"

text \<open>
  The heartbeat identifier contains the RFC3339Nano rendering of its UTC instant, which is
  one text per instant; its decimal number of nanoseconds stands for it.
\<close>

definition format_utc :: "time \<Rightarrow> string" where
  "format_utc t = Itoa t"

section \<open>Panel validation\<close>

text \<open>
  The two functions built on sha256: WorkFingerprintValue of a task specification and
  PanelChildIDs of a run, an attempt and a child.
\<close>

record panel_hashes =
  ph_WorkFingerprintValue :: "PanelTaskSpec \<Rightarrow> string"
  ph_PanelChildIDs :: "string \<Rightarrow> string \<Rightarrow> string \<Rightarrow> string \<times> string"

definition is_hex :: "char \<Rightarrow> bool" where
  "is_hex c \<longleftrightarrow> (let n = (of_char c :: nat) in 48 \<le> n \<and> n \<le> 57 \<or> 65 \<le> n \<and> n \<le> 70 \<or> 97 \<le> n \<and> n \<le> 102)"

definition isSHA256 :: "string \<Rightarrow> bool" where
  "isSHA256 v \<longleftrightarrow> length v = 64 \<and> list_all is_hex v \<and> v = map lower_ascii v"

definition isCoordinatorFingerprint :: "string \<Rightarrow> bool" where
  "isCoordinatorFingerprint v \<longleftrightarrow> (case CutPrefix v ''sha256:'' of None \<Rightarrow> False | Some d \<Rightarrow> isSHA256 d)"

definition isAgentDigest :: "string \<Rightarrow> bool" where
  "isAgentDigest v \<longleftrightarrow> isSHA256 v \<or> (case CutPrefix v ''sha256:'' of None \<Rightarrow> False | Some d \<Rightarrow> isSHA256 d)"

definition spec_validate :: "panel_hashes \<Rightarrow> bool \<Rightarrow> PanelTaskSpec \<Rightarrow> lerr option" where
  "spec_validate h allowMissingWorkFingerprint s =
     (if pt_TaskName s = [] \<or> pt_InputRef s = [] \<or> pt_InputSchemaRef s = [] \<or> pt_OutputSchemaRef s = [] \<or>
         pt_AgentName s = [] \<or> pt_AgentDigest s = [] \<or> pt_Skill s = [] \<or> pt_Scope s = [] \<or>
         pt_Provider s = [] \<or> pt_Model s = [] \<or>
         \<not> isCoordinatorFingerprint (pt_CoordinatorRequestFingerprint s) \<or>
         (\<not> allowMissingWorkFingerprint \<and> \<not> isCoordinatorFingerprint (pt_WorkFingerprint s))
      then Some (LErrOther ''incomplete panel task specification'')
      else if \<not> isSHA256 (pt_InputDigest s) \<or> \<not> isSHA256 (pt_InputSchemaDigest s) \<or>
         \<not> isAgentDigest (pt_AgentDigest s) \<or> \<not> isSHA256 (pt_OutputSchemaDigest s)
      then Some (LErrOther ''invalid panel task digest'')
      else if pt_DependsOn s \<noteq> [] then Some (LErrOther ''panel task dependencies must be empty'')
      else if pt_Budget s < 0 \<or> pt_Timeout s \<le> 0 \<or> pt_DeadlineAt s = 0 \<or>
         wl_DeadlineAt (pt_WorkLimits s) = 0 \<or> wl_DeadlineAt (pt_WorkLimits s) \<noteq> pt_DeadlineAt s
      then Some (LErrOther ''invalid panel task limits'')
      else if wl_MaxTurns (pt_WorkLimits s) < 0 \<or> wl_MaxPromptTokens (pt_WorkLimits s) < 0 \<or>
         wl_MaxOutputTokens (pt_WorkLimits s) < 0 \<or> wl_MaxOutputPerCall (pt_WorkLimits s) \<le> 0 \<or>
         wl_MaxToolCalls (pt_WorkLimits s) \<le> 0
      then Some (LErrOther ''incomplete panel work limits'')
      else if \<not> rp_NoRetry (pt_Policy s) \<or> \<not> rp_FailInterrupted (pt_Policy s) \<or>
         rp_RetryMaxRetries (pt_Policy s) \<noteq> 0 \<or> rp_RetryBaseBackoff (pt_Policy s) \<noteq> 0 \<or>
         rp_RetryMaxBackoff (pt_Policy s) \<noteq> 0 \<or> rp_RetryBackoffFactor (pt_Policy s) \<noteq> 0 \<or>
         rp_RetryJitterFraction (pt_Policy s) \<noteq> 0
      then Some (LErrOther ''panel task policy must disable retries and fail interruptions'')
      else if pt_WorkFingerprint s \<noteq> [] \<and> pt_WorkFingerprint s \<noteq> ph_WorkFingerprintValue h s
      then Some (LErrOther ''invalid panel work fingerprint'')
      else None)"

definition FinalizePanelTaskSpec :: "panel_hashes \<Rightarrow> PanelTaskSpec \<Rightarrow> PanelTaskSpec" where
  "FinalizePanelTaskSpec h s = s\<lparr>pt_WorkFingerprint := ph_WorkFingerprintValue h s\<rparr>"

text \<open>The member loop of validateInitial, with the running index and the set of seen ids.\<close>

fun validate_members ::
    "panel_hashes \<Rightarrow> string \<Rightarrow> string \<Rightarrow> int \<Rightarrow> string set \<Rightarrow> PanelMemberExecution list \<Rightarrow> lerr option" where
  "validate_members h r a i seen [] = None"
| "validate_members h r a i seen (m # ms) =
     (if pm_MemberID m = [] \<or> pm_MemberID m = ''synthesis'' \<or> pm_CoordinatorRunID m = [] \<or>
         pm_TaskID m = [] \<or> pm_Order m \<noteq> i
      then Some (LErrOther ''invalid panel member'')
      else if pm_MemberID m \<in> seen then Some (LErrOther ''duplicate panel member'')
      else if (pm_CoordinatorRunID m, pm_TaskID m) \<noteq> ph_PanelChildIDs h r a (pm_MemberID m)
      then Some (LErrOther ''invalid panel member identity'')
      else (case spec_validate h True (pm_Work m) of
          Some err \<Rightarrow> Some err
        | None \<Rightarrow> validate_members h r a (i + 1) (insert (pm_MemberID m) seen) ms))"

definition validateInitial :: "panel_hashes \<Rightarrow> string \<Rightarrow> string \<Rightarrow> PanelExecution option \<Rightarrow> lerr option" where
  "validateInitial h workflowRunID attemptID px =
     (case px of
        None \<Rightarrow> None
      | Some p \<Rightarrow>
          if pe_Phase p \<noteq> PanelPhaseMembersAdmitted \<or> pe_SynthesisRunID p = [] \<or>
             pe_SynthesisTaskID p = [] \<or> pe_Synthesis p \<noteq> None \<or>
             length (pe_Members p) < 2 \<or> length (pe_Members p) > 4
          then Some (LErrOther ''invalid initial panel execution'')
          else if (pe_SynthesisRunID p, pe_SynthesisTaskID p) \<noteq>
             ph_PanelChildIDs h workflowRunID attemptID ''synthesis''
          then Some (LErrOther ''invalid panel synthesis identity'')
          else validate_members h workflowRunID attemptID 0 {} (pe_Members p))"

definition validPanelTransitionWithWork ::
    "panel_hashes \<Rightarrow> string \<Rightarrow> string \<Rightarrow> PanelSynthesisExecution option \<Rightarrow> bool \<Rightarrow> bool" where
  "validPanelTransitionWithWork h src dst synthesis allowMissingWorkFingerprint =
     (if src = PanelPhaseMembersAdmitted \<and> dst = PanelPhaseSynthesisAdmitted then
        (case synthesis of None \<Rightarrow> False
         | Some s \<Rightarrow> spec_validate h allowMissingWorkFingerprint (ps_Work s) = None)
      else if src = PanelPhaseMembersAdmitted \<and> dst = PanelPhaseCancelPending then synthesis = None
      else if src = PanelPhaseSynthesisAdmitted \<and> dst = PanelPhaseCancelPending then synthesis = None
      else False)"

definition validPanelTransition :: "panel_hashes \<Rightarrow> string \<Rightarrow> string \<Rightarrow> PanelSynthesisExecution option \<Rightarrow> bool" where
  "validPanelTransition h src dst synthesis = validPanelTransitionWithWork h src dst synthesis False"

end
