(* ===== verification/Wf_Projection.thy ===== *)
theory Wf_Projection
  imports Wf_Events
begin

text \<open>
  The replay of the workflow ledger (src/internal/workflows/ledger/projection.go):
  RebuildProjection folds the events of one run, in store order, into a \<open>Projection\<close>.
  Each applyX function of the code is one definition on the pair of the projection and
  the merge indexes (\<open>rebuildState\<close>); an undecodable payload is an error.
\<close>

record Projection =
  pr_Run :: "WfRunSnapshot option"
  pr_SnapshotJSON :: string
  pr_Attempts :: "StepAttempt list"
  pr_Transitions :: "TransitionRecord list"
  pr_LoopCounters :: "LoopCounter list"
  pr_Approvals :: "ApprovalRecord list"
  pr_Deliveries :: "DeliveryRecord list"
  pr_ActiveStepID :: string
  pr_HasRun :: bool

record rebuildState =
  rb_attemptIdx :: "string \<rightharpoonup> nat"
  rb_loopIdx :: "string \<times> string \<rightharpoonup> nat"
  rb_approvalIdx :: "string \<rightharpoonup> nat"
  rb_deliveryIdx :: "string \<rightharpoonup> nat"
  rb_initialStep :: string
  rb_stepCandidates :: "string list"

type_synonym replay = "Projection \<times> rebuildState"

definition zero_projection :: Projection where
  "zero_projection = \<lparr>pr_Run = None, pr_SnapshotJSON = [], pr_Attempts = [], pr_Transitions = [],
     pr_LoopCounters = [], pr_Approvals = [], pr_Deliveries = [], pr_ActiveStepID = [], pr_HasRun = False\<rparr>"

definition new_rebuildState :: rebuildState where
  "new_rebuildState = \<lparr>rb_attemptIdx = (\<lambda>_. None), rb_loopIdx = (\<lambda>_. None),
     rb_approvalIdx = (\<lambda>_. None), rb_deliveryIdx = (\<lambda>_. None), rb_initialStep = [],
     rb_stepCandidates = []\<rparr>"

definition upsert :: "'a list \<Rightarrow> ('k \<rightharpoonup> nat) \<Rightarrow> 'k \<Rightarrow> 'a \<Rightarrow> 'a list \<times> ('k \<rightharpoonup> nat)" where
  "upsert items index key v =
     (case index key of
        Some i \<Rightarrow> (items[i := v], index)
      | None \<Rightarrow> (items @ [v], index(key \<mapsto> length items)))"

text \<open>The position of the first element with a property, as the scanning loops find it.\<close>

fun find_index :: "('a \<Rightarrow> bool) \<Rightarrow> 'a list \<Rightarrow> nat option" where
  "find_index P [] = None"
| "find_index P (x # xs) = (if P x then Some 0 else map_option Suc (find_index P xs))"

definition attempt_index :: "string \<Rightarrow> StepAttempt list \<Rightarrow> nat option" where
  "attempt_index attemptID = find_index (\<lambda>a. at_AttemptID a = attemptID)"

definition bad_payload :: "lerr + replay" where
  "bad_payload = Inl (LErrOther ''decode payload'')"

section \<open>One function per event kind\<close>

definition applyRunCreated :: "wf_payload event \<Rightarrow> replay \<Rightarrow> lerr + replay" where
  "applyRunCreated ev = (\<lambda>(proj, st).
     case ev_Payload ev of
       [PRunCreated p] \<Rightarrow>
         (let run = (if wr_StartedAt (crp_Run p) = 0
                     then (crp_Run p)\<lparr>wr_StartedAt := crp_CreatedAt p\<rparr> else crp_Run p)
          in Inr (proj\<lparr>pr_Run := Some run, pr_SnapshotJSON := crp_SnapshotJSON p, pr_HasRun := True\<rparr>,
                  st\<lparr>rb_initialStep := wr_ActiveStepID run\<rparr>))
     | _ \<Rightarrow> bad_payload)"

definition applyRunStatusChanged :: "wf_payload event \<Rightarrow> replay \<Rightarrow> lerr + replay" where
  "applyRunStatusChanged ev = (\<lambda>(proj, st).
     case ev_Payload ev of
       [PRunStatusChanged p] \<Rightarrow>
         (case pr_Run proj of
            None \<Rightarrow> Inr (proj, st)
          | Some run \<Rightarrow>
              Inr (proj\<lparr>pr_Run := Some (run\<lparr>wr_Status := scp_Status p, wr_Version := scp_Version p,
                     wr_FinishedAt := scp_FinishedAt p\<rparr>)\<rparr>, st))
     | _ \<Rightarrow> bad_payload)"

definition applyAttemptStarted :: "panel_hashes \<Rightarrow> wf_payload event \<Rightarrow> replay \<Rightarrow> lerr + replay" where
  "applyAttemptStarted h ev = (\<lambda>(proj, st).
     case ev_Payload ev of
       [PAttemptStarted p] \<Rightarrow>
         (let a = asp_Attempt p in
          case validateInitial h (at_RunID a) (at_AttemptID a) (at_PanelExecution a) of
            Some err \<Rightarrow> Inl (LErrWrap ''invalid panel attempt'' err)
          | None \<Rightarrow>
              (let a1 = a\<lparr>at_Status := AttemptStatusRunning, at_Version := 1\<rparr>;
                   (as, ix) = upsert (pr_Attempts proj) (rb_attemptIdx st) (at_AttemptID a1) a1;
                   st1 = st\<lparr>rb_attemptIdx := ix\<rparr>
               in Inr (proj\<lparr>pr_Attempts := as\<rparr>,
                       if at_StepID a1 \<noteq> []
                       then st1\<lparr>rb_stepCandidates := rb_stepCandidates st1 @ [at_StepID a1]\<rparr> else st1)))
     | _ \<Rightarrow> bad_payload)"

definition applyAttemptPrompt :: "wf_payload event \<Rightarrow> replay \<Rightarrow> lerr + replay" where
  "applyAttemptPrompt ev = (\<lambda>(proj, st).
     case ev_Payload ev of
       [PAttemptPrompt p] \<Rightarrow>
         (case attempt_index (app_AttemptID p) (pr_Attempts proj) of
            None \<Rightarrow> Inr (proj, st)
          | Some i \<Rightarrow> Inr (proj\<lparr>pr_Attempts := (pr_Attempts proj)
                [i := (pr_Attempts proj ! i)\<lparr>at_PromptRef := app_PromptRef p\<rparr>]\<rparr>, st))
     | _ \<Rightarrow> bad_payload)"

text \<open>
  The entry for an attempt recorded before execution entries existed: the identity it
  already carries becomes its first execution.
\<close>

definition seed_executions :: "StepAttempt \<Rightarrow> StepExecution list" where
  "seed_executions a =
     (if at_Executions a = [] \<and> at_CoordinatorRunID a \<noteq> [] \<and> at_TaskID a \<noteq> [] then
        [\<lparr>se_ExecutionNo = 1, se_CoordinatorRunID = at_CoordinatorRunID a, se_TaskID = at_TaskID a,
          se_StartedAt = at_StartedAt a\<rparr>]
      else at_Executions a)"

definition applyAttemptExecution :: "wf_payload event \<Rightarrow> replay \<Rightarrow> lerr + replay" where
  "applyAttemptExecution ev = (\<lambda>(proj, st).
     case ev_Payload ev of
       [PAttemptExecution p] \<Rightarrow>
         (case attempt_index (aep_AttemptID p) (pr_Attempts proj) of
            None \<Rightarrow> Inr (proj, st)
          | Some i \<Rightarrow>
              (let a = pr_Attempts proj ! i;
                   xs = seed_executions a;
                   n = (if aep_ExecutionNo p = 0 then int (length xs) + 1 else aep_ExecutionNo p);
                   x = \<lparr>se_ExecutionNo = n, se_CoordinatorRunID = aep_CoordinatorRunID p,
                        se_TaskID = aep_TaskID p, se_StartedAt = aep_CreatedAt p\<rparr>;
                   a1 = a\<lparr>at_Executions := xs @ [x], at_CoordinatorRunID := aep_CoordinatorRunID p,
                          at_TaskID := aep_TaskID p\<rparr>
               in Inr (proj\<lparr>pr_Attempts := (pr_Attempts proj)[i := a1]\<rparr>, st)))
     | _ \<Rightarrow> bad_payload)"

definition applyAttemptHeartbeat :: "wf_payload event \<Rightarrow> replay \<Rightarrow> lerr + replay" where
  "applyAttemptHeartbeat ev = (\<lambda>(proj, st).
     case ev_Payload ev of
       [PAttemptHeartbeat p] \<Rightarrow>
         (case attempt_index (ahp_AttemptID p) (pr_Attempts proj) of
            None \<Rightarrow> Inr (proj, st)
          | Some i \<Rightarrow>
              (let a = pr_Attempts proj ! i; cur = at_LastHeartbeatAt a in
               if cur = 0 \<or> \<not> ahp_HeartbeatAt p < cur
               then Inr (proj\<lparr>pr_Attempts := (pr_Attempts proj)
                      [i := a\<lparr>at_LastHeartbeatAt := ahp_HeartbeatAt p\<rparr>]\<rparr>, st)
               else Inr (proj, st)))
     | _ \<Rightarrow> bad_payload)"

definition complete_attempt :: "attemptCompletedPayload \<Rightarrow> StepAttempt \<Rightarrow> StepAttempt" where
  "complete_attempt p a0 =
     (let a1 = (if acp_StepID p \<noteq> [] then a0\<lparr>at_StepID := acp_StepID p\<rparr> else a0);
          a2 = (if acp_AttemptNo p > 0 then a1\<lparr>at_AttemptNo := acp_AttemptNo p\<rparr> else a1);
          a3 = (if acp_StartedAt p \<noteq> 0 then a2\<lparr>at_StartedAt := acp_StartedAt p\<rparr> else a2)
      in a3\<lparr>at_Status := acp_Status p, at_CoordinatorRunID := acp_CoordinatorRunID p,
            at_TaskID := acp_TaskID p, at_OutputRef := acp_OutputRef p, at_OutputDigest := acp_OutputDigest p,
            at_ErrorRef := acp_ErrorRef p, at_ToStepID := acp_ToStepID p,
            at_TransitionIndex := acp_TransitionIndex p, at_MatchDigest := acp_MatchDigest p,
            at_DecisionJSON := acp_DecisionJSON p, at_EvidenceJSON := acp_EvidenceJSON p,
            at_FinishedAt := Some (acp_FinishedAt p),
            at_Version := (if acp_Version p > 0 then acp_Version p else 2)\<rparr>)"

definition applyAttemptCompleted :: "wf_payload event \<Rightarrow> replay \<Rightarrow> lerr + replay" where
  "applyAttemptCompleted ev = (\<lambda>(proj, st).
     case ev_Payload ev of
       [PAttemptCompleted p] \<Rightarrow>
         (let (as, i, ix) =
                (case rb_attemptIdx st (acp_AttemptID p) of
                   Some i \<Rightarrow> (pr_Attempts proj, i, rb_attemptIdx st)
                 | None \<Rightarrow> (pr_Attempts proj @ [new_attempt (acp_AttemptID p) (ev_RunID ev)],
                     length (pr_Attempts proj), (rb_attemptIdx st)(acp_AttemptID p \<mapsto> length (pr_Attempts proj))));
              proj1 = proj\<lparr>pr_Attempts := as[i := complete_attempt p (as ! i)]\<rparr>;
              st1 = st\<lparr>rb_attemptIdx := ix\<rparr>
          in if acp_ToStepID p \<noteq> [] then
               Inr (proj1\<lparr>pr_Transitions := pr_Transitions proj1 @
                      [\<lparr>tr_RunID = ev_RunID ev, tr_FromAttemptID = acp_AttemptID p, tr_ToStepID = acp_ToStepID p,
                        tr_TransitionIndex = acp_TransitionIndex p, tr_MatchDigest = acp_MatchDigest p,
                        tr_DecisionJSON = acp_DecisionJSON p, tr_CreatedAt = acp_CreatedAt p\<rparr>]\<rparr>,
                    st1\<lparr>rb_stepCandidates := rb_stepCandidates st1 @ [acp_ToStepID p]\<rparr>)
             else Inr (proj1, st1))
     | _ \<Rightarrow> bad_payload)"

definition applyPanelPhase :: "panel_hashes \<Rightarrow> wf_payload event \<Rightarrow> replay \<Rightarrow> lerr + replay" where
  "applyPanelPhase h ev = (\<lambda>(proj, st).
     case ev_Payload ev of
       [PPanelPhase p] \<Rightarrow>
         if ppp_AttemptID p = [] \<or> ppp_Version p = 0 then Inl (LErrOther ''invalid panel phase payload'')
         else (case attempt_index (ppp_AttemptID p) (pr_Attempts proj) of
             None \<Rightarrow> Inl (LErrOther ''panel phase references unknown attempt'')
           | Some i \<Rightarrow>
               (let a = pr_Attempts proj ! i in
                case at_PanelExecution a of
                  None \<Rightarrow> Inl (LErrOther ''panel phase has no panel attempt'')
                | Some px \<Rightarrow>
                    if IsTerminalAttemptStatus (at_Status a) \<or> ppp_Version p \<noteq> at_Version a + 1 \<or>
                       \<not> validPanelTransitionWithWork h (pe_Phase px) (ppp_Phase p) (ppp_Synthesis p) True
                    then Inl (LErrOther ''invalid panel phase transition'')
                    else
                      (let px1 = px\<lparr>pe_Phase := ppp_Phase p\<rparr>;
                           px2 = (if ppp_Phase p = PanelPhaseSynthesisAdmitted
                                  then px1\<lparr>pe_Synthesis := ppp_Synthesis p\<rparr> else px1)
                       in Inr (proj\<lparr>pr_Attempts := (pr_Attempts proj)
                            [i := a\<lparr>at_PanelExecution := Some px2, at_Version := ppp_Version p\<rparr>]\<rparr>, st))))
     | _ \<Rightarrow> bad_payload)"

definition applyLoopIncremented :: "wf_payload event \<Rightarrow> replay \<Rightarrow> lerr + replay" where
  "applyLoopIncremented ev = (\<lambda>(proj, st).
     case ev_Payload ev of
       [PLoopIncremented p] \<Rightarrow>
         (let lc = \<lparr>lc_RunID = ev_RunID ev, lc_LoopName = lip_LoopName p, lc_Iterations = lip_Iterations p\<rparr>;
              (ls, ix) = upsert (pr_LoopCounters proj) (rb_loopIdx st) (ev_RunID ev, lip_LoopName p) lc
          in Inr (proj\<lparr>pr_LoopCounters := ls\<rparr>, st\<lparr>rb_loopIdx := ix\<rparr>))
     | _ \<Rightarrow> bad_payload)"

definition applyApprovalCreated :: "wf_payload event \<Rightarrow> replay \<Rightarrow> lerr + replay" where
  "applyApprovalCreated ev = (\<lambda>(proj, st).
     case ev_Payload ev of
       [PApprovalCreated p] \<Rightarrow>
         (let (xs, ix) = upsert (pr_Approvals proj) (rb_approvalIdx st)
                (ap_ApprovalID (pcp_Approval p)) (pcp_Approval p)
          in Inr (proj\<lparr>pr_Approvals := xs\<rparr>, st\<lparr>rb_approvalIdx := ix\<rparr>))
     | _ \<Rightarrow> bad_payload)"

definition applyApprovalResolved :: "wf_payload event \<Rightarrow> replay \<Rightarrow> lerr + replay" where
  "applyApprovalResolved ev = (\<lambda>(proj, st).
     case ev_Payload ev of
       [PApprovalResolved p] \<Rightarrow>
         (let (xs, i, ix) =
                (case rb_approvalIdx st (prp_ApprovalID p) of
                   Some i \<Rightarrow> (pr_Approvals proj, i, rb_approvalIdx st)
                 | None \<Rightarrow> (pr_Approvals proj @ [new_approval (prp_ApprovalID p) (ev_RunID ev)],
                     length (pr_Approvals proj), (rb_approvalIdx st)(prp_ApprovalID p \<mapsto> length (pr_Approvals proj))));
              a = (xs ! i)\<lparr>ap_Status := prp_Status p, ap_Actor := prp_Actor p, ap_Reason := prp_Reason p,
                    ap_ResolvedAt := Some (prp_ResolvedAt p)\<rparr>
          in Inr (proj\<lparr>pr_Approvals := xs[i := a]\<rparr>, st\<lparr>rb_approvalIdx := ix\<rparr>))
     | _ \<Rightarrow> bad_payload)"

definition applyDeliveryUpserted :: "wf_payload event \<Rightarrow> replay \<Rightarrow> lerr + replay" where
  "applyDeliveryUpserted ev = (\<lambda>(proj, st).
     case ev_Payload ev of
       [PDeliveryUpserted p] \<Rightarrow>
         (let (xs, ix) = upsert (pr_Deliveries proj) (rb_deliveryIdx st)
                (dl_IdempotencyKey (dup_Delivery p)) (dup_Delivery p)
          in Inr (proj\<lparr>pr_Deliveries := xs\<rparr>, st\<lparr>rb_deliveryIdx := ix\<rparr>))
     | _ \<Rightarrow> bad_payload)"

definition applyRunDeleted :: "replay \<Rightarrow> lerr + replay" where
  "applyRunDeleted r = Inr (zero_projection, new_rebuildState)"

section \<open>The replay\<close>

definition HasPrefix :: "string \<Rightarrow> string \<Rightarrow> bool" where
  "HasPrefix s p \<longleftrightarrow> take (length p) s = p"

definition apply_event :: "panel_hashes \<Rightarrow> wf_payload event \<Rightarrow> replay \<Rightarrow> lerr + replay" where
  "apply_event h ev r =
     (if ev_Kind ev = eventKindRunCreated then applyRunCreated ev r
      else if ev_Kind ev = eventKindRunStatusChanged then applyRunStatusChanged ev r
      else if ev_Kind ev = eventKindAttemptStarted then applyAttemptStarted h ev r
      else if ev_Kind ev = eventKindAttemptPrompt then applyAttemptPrompt ev r
      else if ev_Kind ev = eventKindAttemptExecution then applyAttemptExecution ev r
      else if ev_Kind ev = eventKindAttemptHeartbeat then applyAttemptHeartbeat ev r
      else if ev_Kind ev = eventKindAttemptCompleted then applyAttemptCompleted ev r
      else if ev_Kind ev = eventKindPanelPhaseSet then applyPanelPhase h ev r
      else if ev_Kind ev = eventKindLoopIncremented then applyLoopIncremented ev r
      else if ev_Kind ev = eventKindApprovalCreated then applyApprovalCreated ev r
      else if ev_Kind ev = eventKindApprovalResolved then applyApprovalResolved ev r
      else if ev_Kind ev = eventKindDeliveryUpserted then applyDeliveryUpserted ev r
      else if ev_Kind ev = eventKindRunDeleted then applyRunDeleted r
      else if HasPrefix (ev_Kind ev) ''wf_panel_'' then Inl (LErrOther ''unknown panel event'')
      else Inr r)"

fun replay_events :: "panel_hashes \<Rightarrow> wf_payload event list \<Rightarrow> replay \<Rightarrow> lerr + replay" where
  "replay_events h [] r = Inr r"
| "replay_events h (e # es) r =
     (case apply_event h e r of Inl err \<Rightarrow> Inl err | Inr r1 \<Rightarrow> replay_events h es r1)"

definition derive_active :: "replay \<Rightarrow> Projection" where
  "derive_active = (\<lambda>(proj, st).
     proj\<lparr>pr_ActiveStepID := (if rb_stepCandidates st \<noteq> [] then last (rb_stepCandidates st)
       else rb_initialStep st)\<rparr>)"

definition RebuildProjection :: "panel_hashes \<Rightarrow> wf_payload event list \<Rightarrow> lerr + Projection" where
  "RebuildProjection h events =
     map_sum id derive_active (replay_events h (SortEventsStable events) (zero_projection, new_rebuildState))"

end
