(* ===== verification/Wf_Repository.thy ===== *)
theory Wf_Repository
  imports Wf_Projection
begin

text \<open>
  The workflow repository (storage.go, storage_runs.go, storage_loops.go,
  storage_attempts.go, storage_attempts_meta.go, storage_attempts_heartbeat.go,
  storage_approvals.go, storage_deliveries.go, storage_delete.go, storage_panels.go,
  storage_recovery.go of src/internal/workflows/ledger) over an arbitrary store.

  The state is a world: engine, store and the client record below.  Every operation is
  the catch-up of ensureBuilt followed by a body under the run's lock; the bodies are
  definitions of their own (suffix \<open>_locked\<close>), so that another writer's step can be
  placed between the two.  \<open>now\<close> is the engine's clock and \<open>holder\<close> is
  ClaimHolderFromContext, the empty string when the context binds none.
\<close>

record wf_client =
  wc_proj :: "(string, Projection) gomap"
  wc_deliverySeqs :: "(string \<times> string, int) gomap"

definition NewStorageRepository :: "string \<Rightarrow> 's \<Rightarrow> ('s, wf_client) world" where
  "NewStorageRepository holder s = (NewEngine [] False holder, s, \<lparr>wc_proj = [], wc_deliverySeqs = []\<rparr>)"

type_synonym 's wf_world = "('s, wf_client) world"
type_synonym 's wf_op = "'s wf_world \<Rightarrow> 's wf_world \<times> lerr option"

definition put_proj :: "string \<Rightarrow> Projection \<Rightarrow> wf_client \<Rightarrow> wf_client" where
  "put_proj r p c = c\<lparr>wc_proj := AList.update r p (wc_proj c)\<rparr>"

definition drop_proj :: "string \<Rightarrow> wf_client \<Rightarrow> wf_client" where
  "drop_proj r c = c\<lparr>wc_proj := AList.delete r (wc_proj c)\<rparr>"

text \<open>The shape of the rollback closures: read \<open>s.proj[runID]\<close>, change it, write it back.\<close>

definition upd_proj :: "string \<Rightarrow> (Projection \<Rightarrow> Projection) \<Rightarrow> wf_client \<Rightarrow> wf_client" where
  "upd_proj r f c = put_proj r (f (mget_or zero_projection (map_of (wc_proj c)) r)) c"

section \<open>Rebuilding and catching up\<close>

text \<open>The counting loop over the delivery events of a run.\<close>

fun delivery_counts :: "wf_payload event list \<Rightarrow> (string, int) gomap \<Rightarrow> lerr + (string, int) gomap" where
  "delivery_counts [] counts = Inr counts"
| "delivery_counts (e # es) counts =
     (if ev_Kind e \<noteq> eventKindDeliveryUpserted then delivery_counts es counts
      else (case ev_Payload e of
          [PDeliveryUpserted p] \<Rightarrow>
            (let k = dl_IdempotencyKey (dup_Delivery p)
             in delivery_counts es (AList.update k (mget_or 0 (map_of counts) k + 1) counts))
        | _ \<Rightarrow> Inl (LErrOther ''decode payload'')))"

definition set_delivery_seqs ::
    "string \<Rightarrow> (string, int) gomap \<Rightarrow> (string \<times> string, int) gomap \<Rightarrow> (string \<times> string, int) gomap" where
  "set_delivery_seqs r counts seqs =
     fold (\<lambda>(k, n). AList.update (r, k) n) counts (filter (\<lambda>(k, n). fst k \<noteq> r) seqs)"

definition applyRunEventsLocked ::
    "panel_hashes \<Rightarrow> string \<Rightarrow> wf_payload event list \<Rightarrow> 's wf_op" where
  "applyRunEventsLocked h r events = (\<lambda>(e, s, c).
     let maxSeq = max_sequence events 0 in
     case RebuildProjection h events of
       Inl err \<Rightarrow> ((e, s, c), Some (LErrWrap ''rebuild projection'' err))
     | Inr proj \<Rightarrow>
         (case delivery_counts events [] of
            Inl err \<Rightarrow> ((e, s, c), Some err)
          | Inr counts \<Rightarrow>
              (let c1 = (if pr_HasRun proj then put_proj r proj c else drop_proj r c)
               in ((eng_SetApplied r maxSeq e, s,
                    c1\<lparr>wc_deliverySeqs := set_delivery_seqs r counts (wc_deliverySeqs c1)\<rparr>), None))))"

definition catchUpRunLocked ::
    "('s, wf_payload) store_ops \<Rightarrow> panel_hashes \<Rightarrow> string \<Rightarrow> 's wf_op" where
  "catchUpRunLocked ops h r = (\<lambda>(e, s, c).
     case so_Events ops r s of
       Inl err \<Rightarrow> ((e, s, c), Some (LErrWrap ''read events'' (LErrStore err)))
     | Inr events \<Rightarrow> applyRunEventsLocked h r events (e, s, c))"

definition wf_filter :: "string \<Rightarrow> int \<Rightarrow> FilterDecision" where
  "wf_filter r maxSeq = (if \<not> HasPrefix r ''wfr-'' then FilterAdvanceOnly else FilterApply)"

definition wf_catchUp :: "('s, wf_payload) store_ops \<Rightarrow> panel_hashes \<Rightarrow> 's wf_op" where
  "wf_catchUp ops h = eng_CatchUp ops (Some wf_filter) (Some (applyRunEventsLocked h))"

definition ensureBuilt :: "('s, wf_payload) store_ops \<Rightarrow> panel_hashes \<Rightarrow> 's wf_op" where
  "ensureBuilt ops h = (\<lambda>(e, s, c).
     case eng_CheckOpen e of Some err \<Rightarrow> ((e, s, c), Some err) | None \<Rightarrow> wf_catchUp ops h (e, s, c))"

section \<open>Appending\<close>

definition wf_OnDuplicate ::
    "('s, wf_payload) store_ops \<Rightarrow> panel_hashes \<Rightarrow> wf_payload event \<Rightarrow> 's wf_op" where
  "wf_OnDuplicate ops h evt w =
     (case catchUpRunLocked ops h (ev_RunID evt) w of
        (w1, Some cerr) \<Rightarrow> (w1, Some (LErrWrap ''catch up after duplicate'' cerr))
      | (w1, None) \<Rightarrow> eng_CheckDuplicatePayload ops evt w1)"

definition appendEvent ::
    "('s, wf_payload) store_ops \<Rightarrow> panel_hashes \<Rightarrow> string \<Rightarrow> wf_payload event
      \<Rightarrow> (wf_client \<Rightarrow> wf_client) \<Rightarrow> 's wf_op" where
  "appendEvent ops h holder evt rollback =
     eng_AppendEvent ops evt \<lparr>ao_BoundHolder = holder, ao_Rollback = Some rollback,
       ao_RebuildRun = Some (catchUpRunLocked ops h), ao_OnDuplicate = Some (wf_OnDuplicate ops h)\<rparr>"

definition rollbackAndRebuild ::
    "('s, wf_payload) store_ops \<Rightarrow> panel_hashes \<Rightarrow> string \<Rightarrow> (wf_client \<Rightarrow> wf_client)
      \<Rightarrow> 's wf_world \<Rightarrow> 's wf_world" where
  "rollbackAndRebuild ops h r rollback = (\<lambda>(e, s, c). fst (catchUpRunLocked ops h r (e, s, rollback c)))"

text \<open>
  The common tail of the mutating operations: a payload that does not marshal rolls the
  projection back and rebuilds it; otherwise the event takes the next sequence of the run
  and goes through appendEvent.
\<close>

definition emit ::
    "('s, wf_payload) store_ops \<Rightarrow> panel_hashes \<Rightarrow> string \<Rightarrow> string \<Rightarrow> string \<Rightarrow> string list
      \<Rightarrow> lerr + wf_payload list \<Rightarrow> (wf_client \<Rightarrow> wf_client) \<Rightarrow> 's wf_op" where
  "emit ops h holder r kind parts payload rollback = (\<lambda>(e, s, c).
     case payload of
       Inl err \<Rightarrow> (rollbackAndRebuild ops h r rollback (e, s, c), Some (LErrWrap ''marshal payload'' err))
     | Inr bytes \<Rightarrow>
         (let (e1, q) = eng_NextSequence r e;
              evt = \<lparr>ev_ID = EventID r kind parts, ev_RunID = r, ev_Sequence = sint q, ev_Kind = kind,
                     ev_Payload = bytes, ev_RowID = 0\<rparr>
          in appendEvent ops h holder evt rollback (e1, s, c)))"

text \<open>ensureBuilt followed by the body under the lock of the run.\<close>

definition with_built ::
    "('s, wf_payload) store_ops \<Rightarrow> panel_hashes \<Rightarrow> string \<Rightarrow> 's wf_op \<Rightarrow> 's wf_op" where
  "with_built ops h r body w =
     (case ensureBuilt ops h w of
        (w1, Some err) \<Rightarrow> (w1, Some err)
      | ((e, s, c), None) \<Rightarrow> body (eng_RunLock r e, s, c))"

text \<open>The lookup guard of the bodies: the run's projection must exist and have a run.\<close>

definition on_run :: "string \<Rightarrow> (Projection \<Rightarrow> 's wf_op) \<Rightarrow> 's wf_op" where
  "on_run r body = (\<lambda>(e, s, c).
     case map_of (wc_proj c) r of
       None \<Rightarrow> ((e, s, c), Some LErrNotFound)
     | Some p \<Rightarrow> if \<not> pr_HasRun p then ((e, s, c), Some LErrNotFound) else body p (e, s, c))"

section \<open>Runs\<close>

definition CreateRun_locked ::
    "('s, wf_payload) store_ops \<Rightarrow> panel_hashes \<Rightarrow> time \<Rightarrow> string \<Rightarrow> WfRunSnapshot \<Rightarrow> string \<Rightarrow> 's wf_op" where
  "CreateRun_locked ops h now holder snap snapshotJSON = (\<lambda>(e, s, c).
     let r = wr_RunID snap; prev = map_of (wc_proj c) r in
     if (case prev of Some p \<Rightarrow> pr_HasRun p | None \<Rightarrow> False) then ((e, s, c), Some LErrDuplicate)
     else if wr_Status snap \<noteq> WfRunStatusPending then ((e, s, c), Some LErrInvalidTransition)
     else
       (let run = (if wr_StartedAt snap = 0 then snap\<lparr>wr_StartedAt := now\<rparr> else snap)\<lparr>wr_Version := 1\<rparr>;
            p = zero_projection\<lparr>pr_Run := Some run, pr_SnapshotJSON := snapshotJSON, pr_HasRun := True,
                  pr_ActiveStepID := wr_ActiveStepID run\<rparr>
        in emit ops h holder r eventKindRunCreated []
             (marshal (PRunCreated \<lparr>crp_Run = run, crp_SnapshotJSON = snapshotJSON, crp_CreatedAt = now\<rparr>))
             (\<lambda>c. case prev of Some q \<Rightarrow> put_proj r q c | None \<Rightarrow> drop_proj r c)
             (e, s, put_proj r p c)))"

definition wf_CreateRun ::
    "('s, wf_payload) store_ops \<Rightarrow> panel_hashes \<Rightarrow> time \<Rightarrow> string \<Rightarrow> WfRunSnapshot \<Rightarrow> string \<Rightarrow> 's wf_op" where
  "wf_CreateRun ops h now holder snap snapshotJSON w =
     (case ensureBuilt ops h w of
        (w1, Some err) \<Rightarrow> (w1, Some err)
      | ((e, s, c), None) \<Rightarrow>
          if \<not> HasPrefix (wr_RunID snap) ''wfr-'' then ((e, s, c), Some LErrInvalidTransition)
          else (case eng_RebaseRunSequence ops (wr_RunID snap) (e, s) of
              ((e1, s1), Some err) \<Rightarrow> ((e1, s1, c), Some err)
            | ((e1, s1), None) \<Rightarrow>
                CreateRun_locked ops h now holder snap snapshotJSON (eng_RunLock (wr_RunID snap) e1, s1, c)))"

definition CompareAndSetRunStatus_locked ::
    "('s, wf_payload) store_ops \<Rightarrow> panel_hashes \<Rightarrow> time \<Rightarrow> string \<Rightarrow> string \<Rightarrow> 64 word \<Rightarrow> string
      \<Rightarrow> time option \<Rightarrow> 's wf_op" where
  "CompareAndSetRunStatus_locked ops h now holder r expectedVersion status finishedAt =
     on_run r (\<lambda>p (e, s, c).
       case pr_Run p of
         None \<Rightarrow> ((e, s, c), Some LErrNotFound)
       | Some orig \<Rightarrow>
           if wr_Version orig \<noteq> expectedVersion then ((e, s, c), Some LErrConflict)
           else if \<not> ValidRunTransition (wr_Status orig) status then ((e, s, c), Some LErrInvalidTransition)
           else
             (let newVersion = wr_Version orig + 1;
                  fin = (if IsTerminalRunStatus status
                         then (case finishedAt of Some t \<Rightarrow> Some t | None \<Rightarrow> Some now) else None);
                  run = orig\<lparr>wr_Status := status, wr_Version := newVersion, wr_FinishedAt := fin\<rparr>
              in emit ops h holder r eventKindRunStatusChanged [FormatUint newVersion]
                   (marshal (PRunStatusChanged \<lparr>scp_Status = status, scp_Version = newVersion,
                      scp_FinishedAt = fin, scp_CreatedAt = now\<rparr>))
                   (upd_proj r (\<lambda>q. q\<lparr>pr_Run := Some orig\<rparr>))
                   (e, s, put_proj r (p\<lparr>pr_Run := Some run\<rparr>) c)))"

definition wf_CompareAndSetRunStatus where
  "wf_CompareAndSetRunStatus ops h now holder r expectedVersion status finishedAt =
     with_built ops h r (CompareAndSetRunStatus_locked ops h now holder r expectedVersion status finishedAt)"

definition RecordRunResumed_locked ::
    "('s, wf_payload) store_ops \<Rightarrow> panel_hashes \<Rightarrow> string \<Rightarrow> string \<Rightarrow> 's wf_op" where
  "RecordRunResumed_locked ops h holder r =
     on_run r (\<lambda>p (e, s, c).
       case pr_Run p of
         None \<Rightarrow> ((e, s, c), Some LErrNotFound)
       | Some _ \<Rightarrow> emit ops h holder r eventKindRunResumed []
           (marshal (PRunResumed \<lparr>rrp_RunID = r\<rparr>)) id (e, s, c))"

definition wf_RecordRunResumed where
  "wf_RecordRunResumed ops h holder r = with_built ops h r (RecordRunResumed_locked ops h holder r)"

section \<open>Loop counters\<close>

fun next_iteration :: "string \<Rightarrow> string \<Rightarrow> LoopCounter list \<Rightarrow> int \<Rightarrow> int" where
  "next_iteration r loopName [] next = next"
| "next_iteration r loopName (lc # lcs) next =
     next_iteration r loopName lcs
       (if lc_RunID lc = r \<and> lc_LoopName lc = loopName \<and> lc_Iterations lc \<ge> next
        then lc_Iterations lc + 1 else next)"

text \<open>The in-place update of the counter, or its first entry.\<close>

definition set_counter :: "string \<Rightarrow> string \<Rightarrow> int \<Rightarrow> LoopCounter list \<Rightarrow> LoopCounter list" where
  "set_counter r loopName next ls =
     (case find_index (\<lambda>lc. lc_RunID lc = r \<and> lc_LoopName lc = loopName) ls of
        Some i \<Rightarrow> ls[i := (ls ! i)\<lparr>lc_Iterations := next\<rparr>]
      | None \<Rightarrow> ls @ [\<lparr>lc_RunID = r, lc_LoopName = loopName, lc_Iterations = next\<rparr>])"

definition IncrementLoopCounter_locked ::
    "('s, wf_payload) store_ops \<Rightarrow> panel_hashes \<Rightarrow> time \<Rightarrow> string \<Rightarrow> string \<Rightarrow> string
      \<Rightarrow> 's wf_world \<Rightarrow> 's wf_world \<times> int \<times> lerr option" where
  "IncrementLoopCounter_locked ops h now holder r loopName = (\<lambda>(e, s, c).
     case map_of (wc_proj c) r of
       None \<Rightarrow> ((e, s, c), 0, Some LErrNotFound)
     | Some p \<Rightarrow>
         if \<not> pr_HasRun p then ((e, s, c), 0, Some LErrNotFound)
         else
           (let next = next_iteration r loopName (pr_LoopCounters p) 1;
                prevCounters = pr_LoopCounters p;
                counters = set_counter r loopName next (pr_LoopCounters p);
                payload = marshal (PLoopIncremented \<lparr>lip_LoopName = loopName, lip_Iterations = next, lip_CreatedAt = now\<rparr>);
                (w, err) = emit ops h holder r eventKindLoopIncremented [loopName, Itoa next] payload
                  (upd_proj r (\<lambda>q. q\<lparr>pr_LoopCounters := prevCounters\<rparr>))
                  (e, s, put_proj r (p\<lparr>pr_LoopCounters := counters\<rparr>) c)
            in (w, case payload of Inl _ \<Rightarrow> 0 | Inr _ \<Rightarrow> next, err)))"

definition wf_IncrementLoopCounter ::
    "('s, wf_payload) store_ops \<Rightarrow> panel_hashes \<Rightarrow> time \<Rightarrow> string \<Rightarrow> string \<Rightarrow> string
      \<Rightarrow> 's wf_world \<Rightarrow> 's wf_world \<times> int \<times> lerr option" where
  "wf_IncrementLoopCounter ops h now holder r loopName w =
     (case ensureBuilt ops h w of
        (w1, Some err) \<Rightarrow> (w1, 0, Some err)
      | ((e, s, c), None) \<Rightarrow> IncrementLoopCounter_locked ops h now holder r loopName (eng_RunLock r e, s, c))"

section \<open>Step attempts\<close>

text \<open>The registered content validator; None stands for a process that registered none.\<close>

type_synonym 's validator = "('s \<Rightarrow> string \<Rightarrow> string \<Rightarrow> PanelTaskSpec \<Rightarrow> lerr option) option"

definition validatePanelTaskContent :: "'s validator \<Rightarrow> string \<Rightarrow> string \<Rightarrow> PanelTaskSpec \<Rightarrow> 's \<Rightarrow> lerr option" where
  "validatePanelTaskContent val runID taskID work s =
     (case val of None \<Rightarrow> Some (LErrOther ''no panel content validator registered'')
      | Some v \<Rightarrow> v s runID taskID work)"

fun validate_content ::
    "('s \<Rightarrow> string \<Rightarrow> string \<Rightarrow> PanelTaskSpec \<Rightarrow> lerr option) \<Rightarrow> 's \<Rightarrow> string \<Rightarrow> PanelMemberExecution list \<Rightarrow> lerr option" where
  "validate_content v s r [] = None"
| "validate_content v s r (m # ms) =
     (case v s r (pm_TaskID m) (pm_Work m) of Some err \<Rightarrow> Some err | None \<Rightarrow> validate_content v s r ms)"

definition validateInitialPanelAttempt ::
    "panel_hashes \<Rightarrow> 's validator \<Rightarrow> StepAttempt \<Rightarrow> 's \<Rightarrow> lerr option" where
  "validateInitialPanelAttempt h val a s =
     (case validateInitial h (at_RunID a) (at_AttemptID a) (at_PanelExecution a) of
        Some err \<Rightarrow> Some err
      | None \<Rightarrow>
          (case at_PanelExecution a of
             None \<Rightarrow> None
           | Some px \<Rightarrow>
               (case val of
                  None \<Rightarrow> Some (LErrOther ''no panel content validator registered'')
                | Some v \<Rightarrow> validate_content v s (at_RunID a) (pe_Members px))))"

text \<open>Removal of the first attempt with an id, as the rollback closures splice it out.\<close>

definition remove_at :: "nat option \<Rightarrow> 'a list \<Rightarrow> 'a list" where
  "remove_at i xs = (case i of None \<Rightarrow> xs | Some k \<Rightarrow> take k xs @ drop (k + 1) xs)"

definition removeAttemptRollback :: "string \<Rightarrow> string \<Rightarrow> string \<Rightarrow> wf_client \<Rightarrow> wf_client" where
  "removeAttemptRollback r attemptID prevActive =
     upd_proj r (\<lambda>q. q\<lparr>pr_Attempts := remove_at (attempt_index attemptID (pr_Attempts q)) (pr_Attempts q),
       pr_ActiveStepID := prevActive\<rparr>)"

definition taken_attempt :: "StepAttempt \<Rightarrow> StepAttempt list \<Rightarrow> bool" where
  "taken_attempt attempt as \<longleftrightarrow> list_ex (\<lambda>a. at_AttemptID a = at_AttemptID attempt \<or>
     (at_StepID a = at_StepID attempt \<and> at_AttemptNo a = at_AttemptNo attempt)) as"

definition fresh_executions :: "time \<Rightarrow> StepAttempt \<Rightarrow> StepExecution list" where
  "fresh_executions now a =
     (if at_Executions a = [] \<and> at_CoordinatorRunID a \<noteq> [] \<and> at_TaskID a \<noteq> [] then
        [\<lparr>se_ExecutionNo = 1, se_CoordinatorRunID = at_CoordinatorRunID a, se_TaskID = at_TaskID a,
          se_StartedAt = now\<rparr>]
      else at_Executions a)"

definition CreateStepAttempt_locked ::
    "('s, wf_payload) store_ops \<Rightarrow> panel_hashes \<Rightarrow> time \<Rightarrow> string \<Rightarrow> StepAttempt \<Rightarrow> 's wf_op" where
  "CreateStepAttempt_locked ops h now holder attempt =
     on_run (at_RunID attempt) (\<lambda>p (e, s, c).
       if taken_attempt attempt (pr_Attempts p) then ((e, s, c), Some LErrDuplicate)
       else
         (let r = at_RunID attempt;
              rec = attempt\<lparr>at_Status := AttemptStatusRunning, at_Version := 1, at_StartedAt := now,
                at_Executions := fresh_executions now attempt\<rparr>;
              prevActive = pr_ActiveStepID p;
              p1 = p\<lparr>pr_Attempts := pr_Attempts p @ [rec],
                pr_ActiveStepID := (if at_StepID attempt \<noteq> [] then at_StepID attempt else prevActive)\<rparr>
          in emit ops h holder r eventKindAttemptStarted [at_StepID attempt, Itoa (at_AttemptNo attempt)]
               (marshal (PAttemptStarted \<lparr>asp_Attempt = rec, asp_CreatedAt = now\<rparr>))
               (removeAttemptRollback r (at_AttemptID attempt) prevActive)
               (e, s, put_proj r p1 c)))"

definition wf_CreateStepAttempt ::
    "('s, wf_payload) store_ops \<Rightarrow> panel_hashes \<Rightarrow> 's validator \<Rightarrow> time \<Rightarrow> string \<Rightarrow> StepAttempt \<Rightarrow> 's wf_op" where
  "wf_CreateStepAttempt ops h val now holder attempt w =
     (case ensureBuilt ops h w of
        (w1, Some err) \<Rightarrow> (w1, Some err)
      | ((e, s, c), None) \<Rightarrow>
          (case validateInitialPanelAttempt h val attempt s of
             Some err \<Rightarrow> ((e, s, c), Some err)
           | None \<Rightarrow> CreateStepAttempt_locked ops h now holder attempt (eng_RunLock (at_RunID attempt) e, s, c)))"

definition outcomeHasRoute :: "AttemptOutcome \<Rightarrow> bool" where
  "outcomeHasRoute oc \<longleftrightarrow> oc_ToStepID oc \<noteq> [] \<or> oc_TransitionIndex oc \<noteq> 0 \<or> oc_MatchDigest oc \<noteq> [] \<or>
     length (oc_DecisionJSON oc) \<noteq> 0"

text \<open>The guards on an outcome shared by the two completing operations.\<close>

definition check_outcome :: "string \<Rightarrow> AttemptOutcome \<Rightarrow> lerr option" where
  "check_outcome status oc =
     (if \<not> IsTerminalAttemptStatus (oc_Status oc) \<or> \<not> ValidAttemptTransition status (oc_Status oc)
      then Some LErrInvalidTransition
      else if outcomeHasRoute oc \<and> (oc_Status oc = AttemptStatusInterrupted \<or>
         oc_Status oc = AttemptStatusCanceled \<or> oc_Status oc = AttemptStatusTimedOut)
      then Some LErrInvalidTransition
      else if length (oc_EvidenceJSON oc) > MaxEvidenceBytes then Some (LErrOther ''evidence exceeds the bound'')
      else None)"

definition validateRecordOutcomeLocked :: "Projection \<Rightarrow> StepAttempt \<Rightarrow> AttemptOutcome \<Rightarrow> lerr option" where
  "validateRecordOutcomeLocked p attempt oc =
     (if taken_attempt attempt (pr_Attempts p) then Some LErrDuplicate
      else check_outcome AttemptStatusRunning oc)"

text \<open>The outcome fields of an attempt.\<close>

definition set_outcome :: "AttemptOutcome \<Rightarrow> string \<Rightarrow> string \<Rightarrow> time \<Rightarrow> StepAttempt \<Rightarrow> StepAttempt" where
  "set_outcome oc coordinatorRunID taskID now a =
     a\<lparr>at_Status := oc_Status oc, at_CoordinatorRunID := coordinatorRunID, at_TaskID := taskID,
       at_OutputRef := oc_OutputRef oc, at_OutputDigest := oc_OutputDigest oc, at_ErrorRef := oc_ErrorRef oc,
       at_ToStepID := oc_ToStepID oc, at_TransitionIndex := oc_TransitionIndex oc,
       at_MatchDigest := oc_MatchDigest oc, at_DecisionJSON := oc_DecisionJSON oc,
       at_EvidenceJSON := oc_EvidenceJSON oc, at_FinishedAt := Some now\<rparr>"

definition add_route :: "string \<Rightarrow> string \<Rightarrow> AttemptOutcome \<Rightarrow> time \<Rightarrow> Projection \<Rightarrow> Projection" where
  "add_route r attemptID oc now p =
     (if oc_ToStepID oc \<noteq> [] then
        p\<lparr>pr_Transitions := pr_Transitions p @
            [\<lparr>tr_RunID = r, tr_FromAttemptID = attemptID, tr_ToStepID = oc_ToStepID oc,
              tr_TransitionIndex = oc_TransitionIndex oc, tr_MatchDigest = oc_MatchDigest oc,
              tr_DecisionJSON = oc_DecisionJSON oc, tr_CreatedAt = now\<rparr>],
          pr_ActiveStepID := oc_ToStepID oc\<rparr>
      else p)"

definition applyRecordOutcomeLocked ::
    "Projection \<Rightarrow> StepAttempt \<Rightarrow> AttemptOutcome \<Rightarrow> time \<Rightarrow> StepAttempt \<times> Projection \<times> (wf_client \<Rightarrow> wf_client)" where
  "applyRecordOutcomeLocked p attempt oc now =
     (let rec = set_outcome oc (oc_CoordinatorRunID oc) (oc_TaskID oc) now
                  (attempt\<lparr>at_Version := 1, at_StartedAt := now\<rparr>);
          p1 = add_route (at_RunID attempt) (at_AttemptID attempt) oc now
                 (p\<lparr>pr_Attempts := pr_Attempts p @ [rec]\<rparr>);
          rollback = upd_proj (at_RunID attempt) (\<lambda>q.
            q\<lparr>pr_Attempts := remove_at (attempt_index (at_AttemptID attempt) (pr_Attempts q)) (pr_Attempts q),
              pr_Transitions := pr_Transitions p, pr_ActiveStepID := pr_ActiveStepID p\<rparr>)
      in (rec, p1, rollback))"

text \<open>The wf_attempt_completed payload of an outcome.\<close>

definition completed_payload ::
    "string \<Rightarrow> 64 word \<Rightarrow> string \<Rightarrow> int \<Rightarrow> time \<Rightarrow> string \<Rightarrow> string \<Rightarrow> AttemptOutcome \<Rightarrow> time \<Rightarrow> attemptCompletedPayload" where
  "completed_payload attemptID version stepID attemptNo startedAt coordinatorRunID taskID oc now =
     \<lparr>acp_AttemptID = attemptID, acp_Version = version, acp_Status = oc_Status oc, acp_StepID = stepID,
      acp_AttemptNo = attemptNo, acp_StartedAt = startedAt, acp_CoordinatorRunID = coordinatorRunID,
      acp_TaskID = taskID, acp_OutputRef = oc_OutputRef oc, acp_OutputDigest = oc_OutputDigest oc,
      acp_ErrorRef = oc_ErrorRef oc, acp_ToStepID = oc_ToStepID oc, acp_TransitionIndex = oc_TransitionIndex oc,
      acp_MatchDigest = oc_MatchDigest oc, acp_DecisionJSON = oc_DecisionJSON oc,
      acp_EvidenceJSON = oc_EvidenceJSON oc, acp_FinishedAt = now, acp_CreatedAt = now\<rparr>"

definition RecordStepAttemptOutcome_locked ::
    "('s, wf_payload) store_ops \<Rightarrow> panel_hashes \<Rightarrow> time \<Rightarrow> string \<Rightarrow> StepAttempt \<Rightarrow> AttemptOutcome \<Rightarrow> 's wf_op" where
  "RecordStepAttemptOutcome_locked ops h now holder attempt oc =
     on_run (at_RunID attempt) (\<lambda>p (e, s, c).
       case validateRecordOutcomeLocked p attempt oc of
         Some err \<Rightarrow> ((e, s, c), Some err)
       | None \<Rightarrow>
           (let r = at_RunID attempt;
                (rec, p1, rollback) = applyRecordOutcomeLocked p attempt oc now
            in emit ops h holder r eventKindAttemptCompleted [at_StepID attempt, Itoa (at_AttemptNo attempt)]
                 (marshal (PAttemptCompleted (completed_payload (at_AttemptID attempt) (at_Version rec)
                    (at_StepID attempt) (at_AttemptNo attempt) now (oc_CoordinatorRunID oc) (oc_TaskID oc) oc now)))
                 rollback (e, s, put_proj r p1 c)))"

definition wf_RecordStepAttemptOutcome where
  "wf_RecordStepAttemptOutcome ops h now holder attempt oc =
     with_built ops h (at_RunID attempt) (RecordStepAttemptOutcome_locked ops h now holder attempt oc)"

text \<open>The bodies that work on one recorded attempt.\<close>

definition on_attempt :: "string \<Rightarrow> string \<Rightarrow> (Projection \<Rightarrow> nat \<Rightarrow> 's wf_op) \<Rightarrow> 's wf_op" where
  "on_attempt r attemptID body =
     on_run r (\<lambda>p w. case attempt_index attemptID (pr_Attempts p) of
        None \<Rightarrow> (w, Some LErrNotFound)
      | Some i \<Rightarrow> body p i w)"

definition set_attempt_at :: "nat \<Rightarrow> StepAttempt \<Rightarrow> Projection \<Rightarrow> Projection" where
  "set_attempt_at i a p = p\<lparr>pr_Attempts := (pr_Attempts p)[i := a]\<rparr>"

definition applyAttemptCompletionLocked ::
    "Projection \<Rightarrow> nat \<Rightarrow> AttemptOutcome \<Rightarrow> time \<Rightarrow> string \<Rightarrow> string
      \<Rightarrow> Projection \<times> (lerr + wf_payload list) \<times> (wf_client \<Rightarrow> wf_client)" where
  "applyAttemptCompletionLocked p i oc now r attemptID =
     (let cur = pr_Attempts p ! i;
          coordinatorRunID = (if oc_CoordinatorRunID oc = [] then at_CoordinatorRunID cur else oc_CoordinatorRunID oc);
          taskID = (if oc_TaskID oc = [] then at_TaskID cur else oc_TaskID oc);
          cur1 = (set_outcome oc coordinatorRunID taskID now cur)\<lparr>at_Version := at_Version cur + 1\<rparr>;
          p1 = add_route r attemptID oc now (set_attempt_at i cur1 p);
          rollback = upd_proj r (\<lambda>q.
            (if i < length (pr_Attempts q) then set_attempt_at i cur q else q)
              \<lparr>pr_Transitions := pr_Transitions p, pr_ActiveStepID := pr_ActiveStepID p\<rparr>)
      in (p1, marshal (PAttemptCompleted (completed_payload attemptID (at_Version cur1) [] 0 0
                coordinatorRunID taskID oc now)), rollback))"

definition CompleteStepAttempt_locked ::
    "('s, wf_payload) store_ops \<Rightarrow> panel_hashes \<Rightarrow> time \<Rightarrow> string \<Rightarrow> string \<Rightarrow> string \<Rightarrow> 64 word
      \<Rightarrow> AttemptOutcome \<Rightarrow> 's wf_op" where
  "CompleteStepAttempt_locked ops h now holder r attemptID expectedVersion oc =
     on_attempt r attemptID (\<lambda>p i (e, s, c).
       let cur = pr_Attempts p ! i in
       if at_Version cur \<noteq> expectedVersion then ((e, s, c), Some LErrConflict)
       else (case check_outcome (at_Status cur) oc of
           Some err \<Rightarrow> ((e, s, c), Some err)
         | None \<Rightarrow>
             (let (p1, payload, rollback) = applyAttemptCompletionLocked p i oc now r attemptID
              in emit ops h holder r eventKindAttemptCompleted [at_StepID cur, Itoa (at_AttemptNo cur)]
                   payload rollback (e, s, put_proj r p1 c))))"

definition wf_CompleteStepAttempt where
  "wf_CompleteStepAttempt ops h now holder r attemptID expectedVersion oc =
     with_built ops h r (CompleteStepAttempt_locked ops h now holder r attemptID expectedVersion oc)"

definition SetStepAttemptPrompt_locked ::
    "('s, wf_payload) store_ops \<Rightarrow> panel_hashes \<Rightarrow> time \<Rightarrow> time \<Rightarrow> string \<Rightarrow> string \<Rightarrow> string \<Rightarrow> string \<Rightarrow> 's wf_op" where
  "SetStepAttemptPrompt_locked ops h now clock holder r attemptID promptRef =
     on_attempt r attemptID (\<lambda>p i (e, s, c).
       let cur = pr_Attempts p ! i in
       if at_PromptRef cur \<noteq> [] then
         (if at_PromptRef cur = promptRef then ((e, s, c), None) else ((e, s, c), Some LErrConflict))
       else
         emit ops h holder r eventKindAttemptPrompt [at_StepID cur, Itoa (at_AttemptNo cur)]
           (marshalAttemptPrompt clock
              \<lparr>app_AttemptID = attemptID, app_PromptRef = promptRef, app_CreatedAt = now\<rparr>)
           (upd_proj r (\<lambda>q. if i < length (pr_Attempts q)
              then set_attempt_at i ((pr_Attempts q ! i)\<lparr>at_PromptRef := at_PromptRef cur\<rparr>) q else q))
           (e, s, put_proj r (set_attempt_at i (cur\<lparr>at_PromptRef := promptRef\<rparr>) p) c))"

definition wf_SetStepAttemptPrompt where
  "wf_SetStepAttemptPrompt ops h now clock holder r attemptID promptRef w =
     (if promptRef = [] then (w, Some (LErrOther ''prompt ref is empty''))
      else with_built ops h r (SetStepAttemptPrompt_locked ops h now clock holder r attemptID promptRef) w)"

definition SetStepAttemptExecution_locked ::
    "('s, wf_payload) store_ops \<Rightarrow> panel_hashes \<Rightarrow> time \<Rightarrow> string \<Rightarrow> string \<Rightarrow> string \<Rightarrow> string \<Rightarrow> string \<Rightarrow> string
      \<Rightarrow> 's wf_op" where
  "SetStepAttemptExecution_locked ops h now holder r attemptID coordinatorRunID taskID reason =
     on_attempt r attemptID (\<lambda>p i (e, s, c).
       let prev = pr_Attempts p ! i in
       if (if at_Executions prev \<noteq> []
           then se_CoordinatorRunID (last (at_Executions prev)) = coordinatorRunID \<and>
                se_TaskID (last (at_Executions prev)) = taskID
           else at_CoordinatorRunID prev = coordinatorRunID \<and> at_TaskID prev = taskID)
       then ((e, s, c), None)
       else
         (let xs = seed_executions prev;
              executionNo = int (length xs) + 1;
              x = \<lparr>se_ExecutionNo = executionNo, se_CoordinatorRunID = coordinatorRunID, se_TaskID = taskID,
                   se_StartedAt = now\<rparr>;
              cur = prev\<lparr>at_Executions := xs @ [x], at_CoordinatorRunID := coordinatorRunID, at_TaskID := taskID\<rparr>
          in emit ops h holder r eventKindAttemptExecution [attemptID, Itoa executionNo, coordinatorRunID, taskID]
               (marshal (PAttemptExecution \<lparr>aep_AttemptID = attemptID, aep_ExecutionNo = executionNo,
                  aep_CoordinatorRunID = coordinatorRunID, aep_TaskID = taskID, aep_Reason = reason,
                  aep_CreatedAt = now\<rparr>))
               (upd_proj r (set_attempt_at i prev))
               (e, s, put_proj r (set_attempt_at i cur p) c)))"

definition wf_SetStepAttemptExecution where
  "wf_SetStepAttemptExecution ops h now holder r attemptID coordinatorRunID taskID reason w =
     (if coordinatorRunID = [] \<or> taskID = [] then (w, Some (LErrOther ''execution identity is incomplete''))
      else with_built ops h r
        (SetStepAttemptExecution_locked ops h now holder r attemptID coordinatorRunID taskID reason) w)"

definition SetStepAttemptHeartbeat_locked ::
    "('s, wf_payload) store_ops \<Rightarrow> panel_hashes \<Rightarrow> string \<Rightarrow> string \<Rightarrow> string \<Rightarrow> time \<Rightarrow> 's wf_op" where
  "SetStepAttemptHeartbeat_locked ops h holder r attemptID heartbeatAt =
     on_attempt r attemptID (\<lambda>p i (e, s, c).
       let cur = pr_Attempts p ! i; prev = at_LastHeartbeatAt cur in
       if IsTerminalAttemptStatus (at_Status cur) then ((e, s, c), None)
       else
         (let p1 = (if prev = 0 \<or> \<not> heartbeatAt < prev
                    then set_attempt_at i (cur\<lparr>at_LastHeartbeatAt := heartbeatAt\<rparr>) p else p)
          in emit ops h holder r eventKindAttemptHeartbeat [attemptID, format_utc heartbeatAt]
               (marshalAttemptHeartbeat
                  \<lparr>ahp_AttemptID = attemptID, ahp_HeartbeatAt = heartbeatAt, ahp_CreatedAt = heartbeatAt\<rparr>)
               (upd_proj r (\<lambda>q. if i < length (pr_Attempts q)
                  then set_attempt_at i ((pr_Attempts q ! i)\<lparr>at_LastHeartbeatAt := prev\<rparr>) q else q))
               (e, s, put_proj r p1 c)))"

definition wf_SetStepAttemptHeartbeat where
  "wf_SetStepAttemptHeartbeat ops h holder r attemptID heartbeatAt w =
     (if attemptID = [] then (w, Some (LErrOther ''attempt id is empty''))
      else with_built ops h r (SetStepAttemptHeartbeat_locked ops h holder r attemptID heartbeatAt) w)"

end
