(* ===== verification/Wf_Records.thy ===== *)
theory Wf_Records
  imports Wf_Repository
begin

text \<open>
  The rest of the workflow repository: approvals, deliveries, deletion and panel phases,
  the read operations, recovery classification (storage_recovery.go) and the resume plan
  (recovery.go).
\<close>

section \<open>Approvals\<close>

definition approval_index :: "string \<Rightarrow> ApprovalRecord list \<Rightarrow> nat option" where
  "approval_index approvalID = find_index (\<lambda>a. ap_ApprovalID a = approvalID)"

definition removeApprovalRollback :: "string \<Rightarrow> string \<Rightarrow> wf_client \<Rightarrow> wf_client" where
  "removeApprovalRollback r approvalID =
     upd_proj r (\<lambda>q. q\<lparr>pr_Approvals := remove_at (approval_index approvalID (pr_Approvals q)) (pr_Approvals q)\<rparr>)"

definition CreateApproval_locked ::
    "('s, wf_payload) store_ops \<Rightarrow> panel_hashes \<Rightarrow> time \<Rightarrow> string \<Rightarrow> ApprovalRecord \<Rightarrow> 's wf_op" where
  "CreateApproval_locked ops h now holder a =
     on_run (ap_RunID a) (\<lambda>p (e, s, c).
       if list_ex (\<lambda>x. ap_ApprovalID x = ap_ApprovalID a) (pr_Approvals p) then ((e, s, c), Some LErrDuplicate)
       else
         (let r = ap_RunID a;
              rec = (if ap_CreatedAt a = 0 then a\<lparr>ap_CreatedAt := now\<rparr> else a)
          in emit ops h holder r eventKindApprovalCreated [ap_ApprovalID a]
               (marshal (PApprovalCreated \<lparr>pcp_Approval = rec, pcp_CreatedAt = now\<rparr>))
               (removeApprovalRollback r (ap_ApprovalID a))
               (e, s, put_proj r (p\<lparr>pr_Approvals := pr_Approvals p @ [rec]\<rparr>) c)))"

definition wf_CreateApproval where
  "wf_CreateApproval ops h now holder a =
     with_built ops h (ap_RunID a) (CreateApproval_locked ops h now holder a)"

definition ResolveApproval_locked ::
    "('s, wf_payload) store_ops \<Rightarrow> panel_hashes \<Rightarrow> time \<Rightarrow> string \<Rightarrow> string \<Rightarrow> string \<Rightarrow> string \<Rightarrow> string \<Rightarrow> string
      \<Rightarrow> 's wf_op" where
  "ResolveApproval_locked ops h now holder r approvalID actor status reason =
     on_run r (\<lambda>p (e, s, c).
       case approval_index approvalID (pr_Approvals p) of
         None \<Rightarrow> ((e, s, c), Some LErrNotFound)
       | Some i \<Rightarrow>
           (let cur = pr_Approvals p ! i in
            if ap_Status cur \<noteq> ''pending'' \<or> (status \<noteq> ''approved'' \<and> status \<noteq> ''rejected'')
            then ((e, s, c), Some LErrInvalidTransition)
            else
              (let cur1 = cur\<lparr>ap_Status := status, ap_Actor := actor, ap_Reason := reason, ap_ResolvedAt := Some now\<rparr>
               in emit ops h holder r eventKindApprovalResolved [approvalID]
                    (marshal (PApprovalResolved \<lparr>prp_ApprovalID = approvalID, prp_Status = status,
                       prp_Actor = actor, prp_Reason = reason, prp_ResolvedAt = now, prp_CreatedAt = now\<rparr>))
                    (upd_proj r (\<lambda>q. if i < length (pr_Approvals q)
                       then q\<lparr>pr_Approvals := (pr_Approvals q)[i := cur]\<rparr> else q))
                    (e, s, put_proj r (p\<lparr>pr_Approvals := (pr_Approvals p)[i := cur1]\<rparr>) c))))"

definition wf_ResolveApproval where
  "wf_ResolveApproval ops h now holder r approvalID actor status reason =
     with_built ops h r (ResolveApproval_locked ops h now holder r approvalID actor status reason)"

section \<open>Deliveries\<close>

definition delivery_index :: "string \<Rightarrow> DeliveryRecord list \<Rightarrow> nat option" where
  "delivery_index key = find_index (\<lambda>d. dl_IdempotencyKey d = key)"

text \<open>The comparison of caller-owned fields that absorbs a repeated upsert.\<close>

definition same_delivery :: "DeliveryRecord \<Rightarrow> DeliveryRecord \<Rightarrow> bool" where
  "same_delivery existing d \<longleftrightarrow>
     dl_Mode existing = dl_Mode d \<and> dl_BaseRef existing = dl_BaseRef d \<and> dl_HeadRef existing = dl_HeadRef d \<and>
     dl_CommitSHA existing = dl_CommitSHA d \<and> dl_TreeSHA existing = dl_TreeSHA d \<and>
     dl_Provider existing = dl_Provider d \<and> dl_RemoteID existing = dl_RemoteID d \<and> dl_URL existing = dl_URL d \<and>
     dl_Status existing = dl_Status d \<and> dl_ErrorRef existing = dl_ErrorRef d \<and>
     dl_DiffRef existing = dl_DiffRef d \<and> dl_DeferredFiles existing = dl_DeferredFiles d"

definition repeated_delivery :: "DeliveryRecord \<Rightarrow> DeliveryRecord list \<Rightarrow> bool" where
  "repeated_delivery d ds =
     (case delivery_index (dl_IdempotencyKey d) ds of None \<Rightarrow> False | Some i \<Rightarrow> same_delivery (ds ! i) d)"

definition put_delivery :: "DeliveryRecord \<Rightarrow> DeliveryRecord list \<Rightarrow> DeliveryRecord list" where
  "put_delivery rec ds =
     (case delivery_index (dl_IdempotencyKey rec) ds of Some i \<Rightarrow> ds[i := rec] | None \<Rightarrow> ds @ [rec])"

definition applyDeliveryUpsertLocked ::
    "wf_client \<Rightarrow> Projection \<Rightarrow> DeliveryRecord \<Rightarrow> time
      \<Rightarrow> Projection \<times> (lerr + wf_payload list) \<times> (wf_client \<Rightarrow> wf_client) \<times> int" where
  "applyDeliveryUpsertLocked c p d now =
     (let rec = d\<lparr>dl_UpdatedAt := now\<rparr>;
          ordinal = mget_or 0 (map_of (wc_deliverySeqs c)) (dl_RunID d, dl_IdempotencyKey d) + 1
      in (p\<lparr>pr_Deliveries := put_delivery rec (pr_Deliveries p)\<rparr>, marshal (PDeliveryUpserted \<lparr>dup_Delivery = rec, dup_CreatedAt = now\<rparr>),
          upd_proj (dl_RunID d) (\<lambda>q. q\<lparr>pr_Deliveries := pr_Deliveries p\<rparr>), ordinal))"

text \<open>One upsert pass: the Boolean asks the caller to retry.\<close>

definition upsertDeliveryOnce ::
    "('s, wf_payload) store_ops \<Rightarrow> panel_hashes \<Rightarrow> time \<Rightarrow> string \<Rightarrow> DeliveryRecord
      \<Rightarrow> 's wf_world \<Rightarrow> 's wf_world \<times> bool \<times> lerr option" where
  "upsertDeliveryOnce ops h now holder d = (\<lambda>(e, s, c).
     let r = dl_RunID d; key = (dl_RunID d, dl_IdempotencyKey d) in
     case map_of (wc_proj c) r of
       None \<Rightarrow> ((e, s, c), False, Some LErrNotFound)
     | Some p \<Rightarrow>
         if \<not> pr_HasRun p then ((e, s, c), False, Some LErrNotFound)
         else if repeated_delivery d (pr_Deliveries p)
         then ((e, s, c), False, None)
         else
           (let (p1, payload, rollback, ordinal) = applyDeliveryUpsertLocked c p d now in
            case payload of
              Inl err \<Rightarrow> (rollbackAndRebuild ops h r rollback (e, s, put_proj r p1 c), False,
                 Some (LErrWrap ''marshal payload'' err))
            | Inr bytes \<Rightarrow>
                (case emit ops h holder r eventKindDeliveryUpserted [dl_IdempotencyKey d, Itoa ordinal]
                        payload rollback (e, s, put_proj r p1 c) of
                   (w, Some err) \<Rightarrow> if errors_is err LErrConflict then (w, True, None) else (w, False, Some err)
                 | ((e1, s1, c1), None) \<Rightarrow>
                     ((e1, s1, if ordinal > mget_or 0 (map_of (wc_deliverySeqs c1)) key
                               then c1\<lparr>wc_deliverySeqs := AList.update key ordinal (wc_deliverySeqs c1)\<rparr> else c1),
                      False, None))))"

definition UpsertDelivery_locked ::
    "('s, wf_payload) store_ops \<Rightarrow> panel_hashes \<Rightarrow> time \<Rightarrow> time \<Rightarrow> string \<Rightarrow> DeliveryRecord \<Rightarrow> 's wf_op" where
  "UpsertDelivery_locked ops h now1 now2 holder d w =
     (case upsertDeliveryOnce ops h now1 holder d w of
        (w1, False, err) \<Rightarrow> (w1, err)
      | (w1, True, _) \<Rightarrow>
          (case upsertDeliveryOnce ops h now2 holder d w1 of
             (w2, False, err) \<Rightarrow> (w2, err)
           | (w2, True, _) \<Rightarrow> (w2, Some (LErrWrap ''marshal payload'' LErrConflict))))"

definition wf_UpsertDelivery where
  "wf_UpsertDelivery ops h now1 now2 holder d =
     with_built ops h (dl_RunID d) (UpsertDelivery_locked ops h now1 now2 holder d)"

section \<open>Deletion\<close>

definition drop_run_state :: "string \<Rightarrow> wf_client \<Rightarrow> wf_client" where
  "drop_run_state r c =
     (drop_proj r c)\<lparr>wc_deliverySeqs := filter (\<lambda>(k, n). fst k \<noteq> r) (wc_deliverySeqs c)\<rparr>"

definition DeleteRun_locked ::
    "('s, wf_payload) store_ops \<Rightarrow> panel_hashes \<Rightarrow> time \<Rightarrow> string \<Rightarrow> string \<Rightarrow> 's wf_op" where
  "DeleteRun_locked ops h now holder r = (\<lambda>(e, s, c).
     case map_of (wc_proj c) r of
       None \<Rightarrow> ((e, s, c), Some LErrNotFound)
     | Some prev \<Rightarrow>
         if \<not> pr_HasRun prev \<or> pr_Run prev = None then ((e, s, c), Some LErrNotFound)
         else
           (let (e1, q) = eng_NextSequence r e in
            case marshal (PRunDeleted \<lparr>rdp_RunID = r, rdp_DeletedAt = now\<rparr>) of
              Inl err \<Rightarrow> ((e1, s, put_proj r prev (drop_proj r c)), Some err)
            | Inr bytes \<Rightarrow>
                (let tombstone = \<lparr>ev_ID = EventID r eventKindRunDeleted [show_nat (unat q)], ev_RunID = r,
                       ev_Sequence = sint q, ev_Kind = eventKindRunDeleted, ev_Payload = bytes, ev_RowID = 0\<rparr>;
                     claim0 = fst (trk_GetClaim (en_claims e1) r);
                     claim = (if holder \<noteq> [] then claim0\<lparr>c_Holder := holder\<rparr> else claim0)
                 in case so_AppendAndDeleteRun ops tombstone claim s of
                      (s1, Some err) \<Rightarrow>
                        (rollbackAndRebuild ops h r (put_proj r prev) (e1, s1, drop_proj r c),
                         Some (if err = ErrClaimHeld then LErrClaimHeld else LErrWrap ''store delete run'' (LErrStore err)))
                    | (s1, None) \<Rightarrow>
                        (let e2 = e1\<lparr>en_claims := trk_DropClaim r (en_claims e1),
                                     en_watermarks := wm_DeleteRun r (en_watermarks e1)\<rparr>
                         in ((eng_ForgetRun r e2, s1, drop_run_state r (drop_proj r c)), None)))))"

definition wf_DeleteRun where
  "wf_DeleteRun ops h now holder r = with_built ops h r (DeleteRun_locked ops h now holder r)"

section \<open>Panel phases\<close>

definition set_phase :: "string \<Rightarrow> PanelSynthesisExecution option \<Rightarrow> PanelExecution \<Rightarrow> PanelExecution" where
  "set_phase dst synthesis px =
     (let px1 = px\<lparr>pe_Phase := dst\<rparr> in
      if dst = PanelPhaseSynthesisAdmitted then px1\<lparr>pe_Synthesis := synthesis\<rparr> else px1)"

text \<open>The scan for the stored event of a duplicate panel phase; CreatedAt is ignored.\<close>

fun check_panel_duplicate :: "string \<Rightarrow> panelPhasePayload \<Rightarrow> wf_payload event list \<Rightarrow> lerr option" where
  "check_panel_duplicate evtID intended [] = Some LErrConflict"
| "check_panel_duplicate evtID intended (x # xs) =
     (if ev_ID x \<noteq> evtID then check_panel_duplicate evtID intended xs
      else (case ev_Payload x of
          [PPanelPhase found] \<Rightarrow>
            if found\<lparr>ppp_CreatedAt := 0\<rparr> = intended\<lparr>ppp_CreatedAt := 0\<rparr> then None else Some LErrConflict
        | _ \<Rightarrow> Some (LErrOther ''decode payload'')))"

definition appendPanelPhase ::
    "('s, wf_payload) store_ops \<Rightarrow> panel_hashes \<Rightarrow> time \<Rightarrow> string \<Rightarrow> string \<Rightarrow> string \<Rightarrow> string
      \<Rightarrow> PanelSynthesisExecution option \<Rightarrow> StepAttempt \<Rightarrow> nat \<Rightarrow> 's wf_op" where
  "appendPanelPhase ops h now r attemptID holder dst synthesis next idx = (\<lambda>(e, s, c).
     let intended = \<lparr>ppp_AttemptID = attemptID, ppp_Version = at_Version next, ppp_Phase = dst,
           ppp_Synthesis = synthesis, ppp_CreatedAt = now\<rparr> in
     case marshal (PPanelPhase intended) of
       Inl err \<Rightarrow> ((e, s, c), Some (LErrWrap ''marshal payload'' err))
     | Inr bytes \<Rightarrow>
         (let (e1, q) = eng_NextSequence r e;
              evt = \<lparr>ev_ID = EventID r eventKindPanelPhaseSet [attemptID, FormatUint (at_Version next)],
                ev_RunID = r, ev_Sequence = sint q, ev_Kind = eventKindPanelPhaseSet, ev_Payload = bytes, ev_RowID = 0\<rparr>
          in case so_existing ops of
               None \<Rightarrow> ((e1, s, c), Some (LErrOther ''store does not support existing claim append''))
             | Some append_existing \<Rightarrow>
                 (case append_existing evt holder s of
                    (s1, Some serr) \<Rightarrow>
                      if serr \<noteq> ErrDuplicate then
                        (case catchUpRunLocked ops h r (e1, s1, c) of
                           (w, Some cerr) \<Rightarrow> (w, Some (LErrOther ''store append; catch up''))
                         | (w, None) \<Rightarrow> (w, Some (if serr = ErrClaimHeld then LErrClaimHeld else LErrStore serr)))
                      else
                        (case catchUpRunLocked ops h r (e1, s1, c) of
                           (w, Some cerr) \<Rightarrow> (w, Some (LErrWrap ''catch up after duplicate'' cerr))
                         | ((e2, s2, c2), None) \<Rightarrow>
                             (case so_Events ops r s2 of
                                Inl rerr \<Rightarrow> ((e2, s2, c2), Some (LErrWrap ''read events after duplicate'' (LErrStore rerr)))
                              | Inr events \<Rightarrow> ((e2, s2, c2), check_panel_duplicate (ev_ID evt) intended events)))
                  | (s1, None) \<Rightarrow>
                      (let c1 = (case map_of (wc_proj c) r of
                           Some p \<Rightarrow> if idx < length (pr_Attempts p) then put_proj r (set_attempt_at idx next p) c else c
                         | None \<Rightarrow> c)
                       in ((eng_SetApplied r (word_of_int (ev_Sequence evt)) e1, s1, c1), None)))))"

definition CompareAndSetPanelPhase_locked ::
    "('s, wf_payload) store_ops \<Rightarrow> panel_hashes \<Rightarrow> 's validator \<Rightarrow> time \<Rightarrow> string \<Rightarrow> string \<Rightarrow> string \<Rightarrow> 64 word
      \<Rightarrow> string \<Rightarrow> string \<Rightarrow> PanelSynthesisExecution option \<Rightarrow> 's wf_op" where
  "CompareAndSetPanelPhase_locked ops h val now holder r attemptID expectedVersion src dst synthesis =
     on_run r (\<lambda>p (e, s, c).
       case pr_Run p of
         None \<Rightarrow> ((e, s, c), Some LErrNotFound)
       | Some run \<Rightarrow>
           if IsTerminalRunStatus (wr_Status run) then ((e, s, c), Some LErrConflict)
           else (case attempt_index attemptID (pr_Attempts p) of
               None \<Rightarrow> ((e, s, c), Some LErrNotFound)
             | Some i \<Rightarrow>
                 (let current = pr_Attempts p ! i in
                  case at_PanelExecution current of
                    None \<Rightarrow> ((e, s, c), Some LErrConflict)
                  | Some px \<Rightarrow>
                      if IsTerminalAttemptStatus (at_Status current) \<or> at_Version current \<noteq> expectedVersion \<or>
                         pe_Phase px \<noteq> src
                      then ((e, s, c), Some LErrConflict)
                      else if \<not> validPanelTransition h src dst synthesis then ((e, s, c), Some LErrInvalidTransition)
                      else
                        (let next = current\<lparr>at_Version := at_Version current + 1,
                               at_PanelExecution := Some (set_phase dst synthesis px)\<rparr>;
                             content = (case synthesis of None \<Rightarrow> None
                               | Some x \<Rightarrow> validatePanelTaskContent val r (pe_SynthesisTaskID px) (ps_Work x) s)
                         in case content of
                              Some err \<Rightarrow> ((e, s, c), Some err)
                            | None \<Rightarrow> appendPanelPhase ops h now r attemptID holder dst synthesis next i (e, s, c)))))"

definition wf_CompareAndSetPanelPhase where
  "wf_CompareAndSetPanelPhase ops h val now holder r attemptID expectedVersion src dst synthesis w =
     (if holder = [] then (w, Some LErrClaimNotHeld)
      else with_built ops h r
        (CompareAndSetPanelPhase_locked ops h val now holder r attemptID expectedVersion src dst synthesis) w)"

section \<open>Reading\<close>

text \<open>A read: catch up, then look at the cached projections.\<close>

definition wf_read ::
    "('s, wf_payload) store_ops \<Rightarrow> panel_hashes \<Rightarrow> (wf_client \<Rightarrow> lerr + 'a) \<Rightarrow> 's wf_world \<Rightarrow> 's wf_world \<times> (lerr + 'a)" where
  "wf_read ops h f w =
     (case ensureBuilt ops h w of
        (w1, Some err) \<Rightarrow> (w1, Inl err)
      | ((e, s, c), None) \<Rightarrow> ((e, s, c), f c))"

definition run_part :: "string \<Rightarrow> (Projection \<Rightarrow> lerr + 'a) \<Rightarrow> wf_client \<Rightarrow> lerr + 'a" where
  "run_part r f c = (case map_of (wc_proj c) r of None \<Rightarrow> Inl LErrNotFound
     | Some p \<Rightarrow> if \<not> pr_HasRun p then Inl LErrNotFound else f p)"

text \<open>The run snapshot with the derived active step.\<close>

definition current_run :: "Projection \<Rightarrow> WfRunSnapshot option" where
  "current_run p = map_option (\<lambda>run. run\<lparr>wr_ActiveStepID := pr_ActiveStepID p\<rparr>) (pr_Run p)"

definition wf_GetRun where
  "wf_GetRun ops h r = wf_read ops h (run_part r (\<lambda>p. case current_run p of None \<Rightarrow> Inl LErrNotFound | Some run \<Rightarrow> Inr run))"

definition sorted_ids :: "wf_client \<Rightarrow> string list" where
  "sorted_ids c = sort (map fst (wc_proj c))"

definition list_runs :: "string list \<Rightarrow> wf_client \<Rightarrow> WfRunSnapshot list" where
  "list_runs status c = concat (map (\<lambda>r.
     case map_of (wc_proj c) r of
       None \<Rightarrow> []
     | Some p \<Rightarrow>
         if \<not> pr_HasRun p then []
         else (case current_run p of
             None \<Rightarrow> []
           | Some run \<Rightarrow> if status \<noteq> [] \<and> \<not> List.member status (wr_Status run) then [] else [run]))
     (sorted_ids c))"

definition wf_ListRuns where
  "wf_ListRuns ops h status = wf_read ops h (\<lambda>c. Inr (list_runs status c))"

definition wf_GetRunSnapshot where
  "wf_GetRunSnapshot ops h r = wf_read ops h (run_part r (\<lambda>p. Inr (pr_SnapshotJSON p)))"

definition wf_GetLoopCounters where
  "wf_GetLoopCounters ops h r = wf_read ops h (run_part r (\<lambda>p. Inr (pr_LoopCounters p)))"

definition wf_GetStepAttempt where
  "wf_GetStepAttempt ops h r attemptID = wf_read ops h (run_part r (\<lambda>p.
     case attempt_index attemptID (pr_Attempts p) of None \<Rightarrow> Inl LErrNotFound | Some i \<Rightarrow> Inr (pr_Attempts p ! i)))"

definition wf_ListStepAttempts where
  "wf_ListStepAttempts ops h r = wf_read ops h (run_part r (\<lambda>p. Inr (pr_Attempts p)))"

definition wf_ListTransitions where
  "wf_ListTransitions ops h r = wf_read ops h (run_part r (\<lambda>p. Inr (pr_Transitions p)))"

definition wf_ListApprovals where
  "wf_ListApprovals ops h r = wf_read ops h (run_part r (\<lambda>p. Inr (pr_Approvals p)))"

definition wf_ListDeliveries where
  "wf_ListDeliveries ops h r = wf_read ops h (run_part r (\<lambda>p. Inr (pr_Deliveries p)))"

fun find_delivery :: "string \<Rightarrow> string list \<Rightarrow> wf_client \<Rightarrow> lerr + DeliveryRecord" where
  "find_delivery key [] c = Inl LErrNotFound"
| "find_delivery key (r # rs) c =
     (case map_of (wc_proj c) r of
        None \<Rightarrow> find_delivery key rs c
      | Some p \<Rightarrow>
          if \<not> pr_HasRun p then find_delivery key rs c
          else (case delivery_index key (pr_Deliveries p) of
              Some i \<Rightarrow> Inr (pr_Deliveries p ! i)
            | None \<Rightarrow> find_delivery key rs c))"

definition wf_GetDeliveryByIdempotencyKey where
  "wf_GetDeliveryByIdempotencyKey ops h key = wf_read ops h (\<lambda>c. find_delivery key (sorted_ids c) c)"

section \<open>Recovery\<close>

record RecoveredRun =
  rv_RunID :: string
  rv_WorkflowName :: string
  rv_Status :: string
  rv_WasInterrupted :: bool
  rv_CreatedAt :: time

text \<open>The classification of one run and whether Recover clears its claim.\<close>

definition clear_claim :: "Projection \<Rightarrow> WfRunSnapshot \<Rightarrow> bool" where
  "clear_claim p run \<longleftrightarrow> IsTerminalRunStatus (wr_Status run) \<or>
     (IsTerminalStepID (pr_ActiveStepID p) \<and> wr_Status run \<noteq> WfRunStatusDeliveryPending)"

definition classify_run :: "string \<Rightarrow> Projection \<Rightarrow> WfRunSnapshot \<Rightarrow> RecoveredRun" where
  "classify_run r p run = \<lparr>rv_RunID = r, rv_WorkflowName = wr_WorkflowName run, rv_Status = wr_Status run,
     rv_WasInterrupted = (IsResumableRunStatus (wr_Status run) \<and> \<not> IsTerminalStepID (pr_ActiveStepID p)),
     rv_CreatedAt = wr_StartedAt run\<rparr>"

definition classify_all :: "wf_client \<Rightarrow> (RecoveredRun \<times> bool) list" where
  "classify_all c = concat (map (\<lambda>r.
     case map_of (wc_proj c) r of
       None \<Rightarrow> []
     | Some p \<Rightarrow> (case pr_Run p of
           None \<Rightarrow> []
         | Some run \<Rightarrow> if \<not> pr_HasRun p then [] else [(classify_run r p run, clear_claim p run)]))
     (sorted_ids c))"

fun clear_loop ::
    "('s, wf_payload) store_ops \<Rightarrow> (RecoveredRun \<times> bool) list \<Rightarrow> engine \<times> 's \<Rightarrow> RecoveredRun list
      \<Rightarrow> (engine \<times> 's) \<times> RecoveredRun list \<times> lerr option" where
  "clear_loop ops [] es out = (es, out, None)"
| "clear_loop ops ((x, clear) # xs) (e, s) out =
     (if clear then
        (case so_ClearClaim ops (rv_RunID x) s of
           (s1, Some err) \<Rightarrow> ((e, s1), out @ [x], Some (LErrStore err))
         | (s1, None) \<Rightarrow>
             clear_loop ops xs (e\<lparr>en_claims := trk_DropClaim (rv_RunID x) (en_claims e)\<rparr>, s1) (out @ [x]))
      else clear_loop ops xs (e, s) (out @ [x]))"

definition wf_Recover ::
    "('s, wf_payload) store_ops \<Rightarrow> panel_hashes \<Rightarrow> 's wf_world \<Rightarrow> 's wf_world \<times> RecoveredRun list \<times> lerr option" where
  "wf_Recover ops h w =
     (case ensureBuilt ops h w of
        (w1, Some err) \<Rightarrow> (w1, [], Some err)
      | ((e, s, c), None) \<Rightarrow>
          (case clear_loop ops (classify_all c) (e, s) [] of ((e1, s1), out, err) \<Rightarrow> ((e1, s1, c), out, err)))"

section \<open>The resume plan\<close>

record RecoveryPlan =
  rpl_Run :: WfRunSnapshot
  rpl_AttemptsInFlight :: "StepAttempt list"
  rpl_NextAttemptNo :: int
  rpl_Terminal :: bool
  rpl_TerminalStatus :: string

fun derivedActiveStep :: "string \<Rightarrow> StepAttempt list \<Rightarrow> string" where
  "derivedActiveStep active [] = active"
| "derivedActiveStep active (a # as) =
     derivedActiveStep (if at_ToStepID a \<noteq> [] then at_ToStepID a
       else if at_StepID a \<noteq> [] then at_StepID a else active) as"

fun next_attempt_no :: "string \<Rightarrow> StepAttempt list \<Rightarrow> int \<Rightarrow> int" where
  "next_attempt_no step [] n = n"
| "next_attempt_no step (a # as) n =
     next_attempt_no step as (if at_StepID a = step \<and> at_AttemptNo a \<ge> n then at_AttemptNo a + 1 else n)"

text \<open>
  The plan from the run snapshot and the attempts; PlanResume reads both from the
  repository.  Reason, a text for people, is left out.
\<close>

definition plan_from :: "WfRunSnapshot \<Rightarrow> StepAttempt list \<Rightarrow> RecoveryPlan" where
  "plan_from run attempts =
     (let plan = \<lparr>rpl_Run = run, rpl_AttemptsInFlight = [], rpl_NextAttemptNo = 1, rpl_Terminal = False,
            rpl_TerminalStatus = []\<rparr> in
      if IsTerminalRunStatus (wr_Status run)
      then plan\<lparr>rpl_Terminal := True, rpl_TerminalStatus := wr_Status run\<rparr>
      else if wr_Status run = WfRunStatusDeliveryPending
      then plan\<lparr>rpl_Terminal := True, rpl_TerminalStatus := WfRunStatusDeliveryPending\<rparr>
      else
        (let activeStep = derivedActiveStep (wr_ActiveStepID run) attempts;
             plan1 = plan\<lparr>rpl_Run := run\<lparr>wr_ActiveStepID := activeStep\<rparr>\<rparr>
         in if IsTerminalStepID activeStep
            then plan1\<lparr>rpl_Terminal := True,
                   rpl_TerminalStatus := (if activeStep = ''success'' then WfRunStatusSucceeded else WfRunStatusFailed)\<rparr>
            else plan1\<lparr>rpl_AttemptsInFlight := filter (\<lambda>a. \<not> IsTerminalAttemptStatus (at_Status a)) attempts,
                   rpl_NextAttemptNo := next_attempt_no activeStep attempts 1\<rparr>))"

definition PlanResume ::
    "('s, wf_payload) store_ops \<Rightarrow> panel_hashes \<Rightarrow> string \<Rightarrow> 's wf_world \<Rightarrow> 's wf_world \<times> (lerr + RecoveryPlan)" where
  "PlanResume ops h r w =
     (case wf_GetRun ops h r w of
        (w1, Inl err) \<Rightarrow> (w1, Inl err)
      | (w1, Inr run) \<Rightarrow>
          if IsTerminalRunStatus (wr_Status run) \<or> wr_Status run = WfRunStatusDeliveryPending
          then (w1, Inr (plan_from run []))
          else (case wf_ListStepAttempts ops h r w1 of
              (w2, Inl err) \<Rightarrow> (w2, Inl err)
            | (w2, Inr attempts) \<Rightarrow> (w2, Inr (plan_from run attempts))))"

end
