(* ===== verification/Wf_Laws.thy ===== *)
theory Wf_Laws
  imports Wf_Records
begin

text \<open>
  Laws of the replay: positions and indexes of keyed lists, the invariant of the replay
  state, and what one more event does to the rebuilt projection.
\<close>

section \<open>Keyed lists\<close>

lemma find_index_Some:
  "find_index P xs = Some i \<longleftrightarrow> i < length xs \<and> P (xs ! i) \<and> (\<forall>j < i. \<not> P (xs ! j))"
proof (induction xs arbitrary: i)
  case (Cons x xs)
  show ?case
  proof (cases i)
    case 0
    then show ?thesis by auto
  next
    case (Suc k)
    have "(\<forall>j < Suc k. \<not> P ((x # xs) ! j)) \<longleftrightarrow> \<not> P x \<and> (\<forall>j < k. \<not> P (xs ! j))"
      unfolding All_less_Suc2 by simp
    with Suc Cons.IH [of k] show ?thesis by auto
  qed
qed simp

lemma find_index_None: "find_index P xs = None \<longleftrightarrow> (\<forall>x \<in> set xs. \<not> P x)"
  by (induction xs) auto

lemma find_index_bound: "find_index P xs = Some i \<Longrightarrow> i < length xs"
  by (simp add: find_index_Some)

lemma find_index_hit: "find_index P xs = Some i \<Longrightarrow> P (xs ! i)"
  by (simp add: find_index_Some)

lemma find_index_append:
  "find_index P (xs @ ys) = (case find_index P xs of Some i \<Rightarrow> Some i
     | None \<Rightarrow> map_option (\<lambda>i. i + length xs) (find_index P ys))"
  by (induction xs) (auto simp: option.map_ident option.map_comp comp_def split: option.splits)

lemma find_index_update:
  assumes "i < length xs \<Longrightarrow> P v = P (xs ! i)"
  shows "find_index P (xs[i := v]) = find_index P xs"
  using assms
proof (induction xs arbitrary: i)
  case (Cons x xs)
  then show ?case by (cases i) auto
qed simp

lemma attempt_index_hit: "attempt_index a xs = Some i \<Longrightarrow> i < length xs \<and> at_AttemptID (xs ! i) = a"
  by (simp add: attempt_index_def find_index_Some)

lemma approval_index_hit: "approval_index a xs = Some i \<Longrightarrow> i < length xs \<and> ap_ApprovalID (xs ! i) = a"
  by (simp add: approval_index_def find_index_Some)

text \<open>A merge index agrees with the list it indexes, whose keys are distinct.\<close>

definition idx_ok :: "('a \<Rightarrow> 'k) \<Rightarrow> 'a list \<Rightarrow> ('k \<rightharpoonup> nat) \<Rightarrow> bool" where
  "idx_ok key xs ix \<longleftrightarrow> distinct (map key xs) \<and> ix = (\<lambda>k. find_index (\<lambda>x. key x = k) xs)"

lemma idx_ok_empty [simp]: "idx_ok key [] (\<lambda>_. None)"
  by (simp add: idx_ok_def)

lemma idx_ok_lookup: "idx_ok key xs ix \<Longrightarrow> ix k = find_index (\<lambda>x. key x = k) xs"
  by (simp add: idx_ok_def)

lemma map_update_same:
  "(i < length xs \<Longrightarrow> key v = key (xs ! i)) \<Longrightarrow> map key (xs[i := v]) = map key xs"
  by (induction xs arbitrary: i) (auto split: nat.splits)

lemma idx_ok_update:
  assumes "idx_ok key xs ix" "i < length xs \<Longrightarrow> key v = key (xs ! i)"
  shows "idx_ok key (xs[i := v]) ix"
  using assms by (simp add: idx_ok_def map_update_same find_index_update)

lemma idx_ok_snoc:
  assumes "idx_ok key xs ix" "ix (key v) = None"
  shows "idx_ok key (xs @ [v]) (ix(key v \<mapsto> length xs))"
proof -
  have no: "\<forall>x \<in> set xs. key x \<noteq> key v"
    using assms idx_ok_lookup [OF assms(1), of "key v"] by (simp add: find_index_None)
  moreover have "ix(key v \<mapsto> length xs) = (\<lambda>k. find_index (\<lambda>x. key x = k) (xs @ [v]))"
  proof
    fix k
    show "(ix(key v \<mapsto> length xs)) k = find_index (\<lambda>x. key x = k) (xs @ [v])"
    proof (cases "k = key v")
      case True
      have "find_index (\<lambda>x. key x = key v) xs = None" using no by (simp add: find_index_None)
      then show ?thesis using True by (simp add: find_index_append)
    next
      case False
      then show ?thesis
        using idx_ok_lookup [OF assms(1), of k] by (auto simp: find_index_append split: option.splits)
    qed
  qed
  ultimately show ?thesis
    using assms(1) by (auto simp: idx_ok_def)
qed

lemma idx_ok_upsert:
  assumes "idx_ok key xs ix" "key v = k" "upsert xs ix k v = (ys, iy)"
  shows "idx_ok key ys iy"
proof (cases "ix k")
  case None
  then show ?thesis using assms idx_ok_snoc [OF assms(1), of v] by (auto simp: upsert_def)
next
  case (Some i)
  then have "find_index (\<lambda>x. key x = k) xs = Some i" using idx_ok_lookup [OF assms(1)] by simp
  then have "key (xs ! i) = k" by (rule find_index_hit)
  then show ?thesis using Some assms idx_ok_update [OF assms(1), of i v] by (auto simp: upsert_def)
qed

section \<open>The invariant of the replay state\<close>

definition rok :: "replay \<Rightarrow> bool" where
  "rok = (\<lambda>(p, st). idx_ok at_AttemptID (pr_Attempts p) (rb_attemptIdx st) \<and>
     idx_ok (\<lambda>l. (lc_RunID l, lc_LoopName l)) (pr_LoopCounters p) (rb_loopIdx st) \<and>
     idx_ok ap_ApprovalID (pr_Approvals p) (rb_approvalIdx st) \<and>
     idx_ok dl_IdempotencyKey (pr_Deliveries p) (rb_deliveryIdx st) \<and>
     (pr_HasRun p \<longleftrightarrow> pr_Run p \<noteq> None) \<and> pr_ActiveStepID p = [])"

abbreviation blank :: replay where
  "blank \<equiv> (zero_projection, new_rebuildState)"

lemma rok_blank [simp]: "rok blank"
  by (simp add: rok_def zero_projection_def new_rebuildState_def)

lemma complete_attempt_id [simp]: "at_AttemptID (complete_attempt p a) = at_AttemptID a"
  by (simp add: complete_attempt_def Let_def)

lemma rok_attempt_update:
  assumes "rok (p, st)" "i < length (pr_Attempts p) \<Longrightarrow> at_AttemptID a = at_AttemptID (pr_Attempts p ! i)"
  shows "rok (p\<lparr>pr_Attempts := (pr_Attempts p)[i := a]\<rparr>, st)"
  using assms by (auto simp: rok_def intro: idx_ok_update)

lemmas payload_splits = list.splits wf_payload.splits option.splits if_splits prod.splits

lemma rok_RunCreated: "applyRunCreated ev (p, st) = Inr x \<Longrightarrow> rok (p, st) \<Longrightarrow> rok x"
  by (auto simp: applyRunCreated_def bad_payload_def rok_def Let_def split: payload_splits)

lemma rok_RunStatusChanged: "applyRunStatusChanged ev (p, st) = Inr x \<Longrightarrow> rok (p, st) \<Longrightarrow> rok x"
  by (auto simp: applyRunStatusChanged_def bad_payload_def rok_def Let_def split: payload_splits)

lemma rok_AttemptStarted:
  assumes "applyAttemptStarted h ev (p, st) = Inr x" "rok (p, st)"
  shows "rok x"
proof -
  obtain q where q: "ev_Payload ev = [PAttemptStarted q]"
    using assms(1) by (auto simp: applyAttemptStarted_def bad_payload_def split: payload_splits)
  let ?a = "(asp_Attempt q)\<lparr>at_Status := AttemptStatusRunning, at_Version := 1\<rparr>"
  obtain xs ix where u: "upsert (pr_Attempts p) (rb_attemptIdx st) (at_AttemptID ?a) ?a = (xs, ix)"
    by (cases "upsert (pr_Attempts p) (rb_attemptIdx st) (at_AttemptID ?a) ?a")
  have "idx_ok at_AttemptID xs ix"
    using assms(2) by (intro idx_ok_upsert [OF _ _ u]) (auto simp: rok_def)
  then show ?thesis
    using assms u q by (auto simp: applyAttemptStarted_def rok_def Let_def split: option.splits if_splits)
qed

lemma rok_AttemptPrompt: "applyAttemptPrompt ev (p, st) = Inr x \<Longrightarrow> rok (p, st) \<Longrightarrow> rok x"
  by (auto simp: applyAttemptPrompt_def bad_payload_def intro!: rok_attempt_update split: payload_splits)

lemma rok_AttemptExecution: "applyAttemptExecution ev (p, st) = Inr x \<Longrightarrow> rok (p, st) \<Longrightarrow> rok x"
  by (auto simp: applyAttemptExecution_def bad_payload_def Let_def intro!: rok_attempt_update split: payload_splits)

lemma rok_AttemptHeartbeat: "applyAttemptHeartbeat ev (p, st) = Inr x \<Longrightarrow> rok (p, st) \<Longrightarrow> rok x"
  by (auto simp: applyAttemptHeartbeat_def bad_payload_def Let_def intro!: rok_attempt_update split: payload_splits)

lemma rok_PanelPhase: "applyPanelPhase h ev (p, st) = Inr x \<Longrightarrow> rok (p, st) \<Longrightarrow> rok x"
  by (auto simp: applyPanelPhase_def bad_payload_def Let_def intro!: rok_attempt_update split: payload_splits)

lemma rok_AttemptCompleted:
  assumes "applyAttemptCompleted ev (p, st) = Inr x" "rok (p, st)"
  shows "rok x"
proof -
  obtain q where q: "ev_Payload ev = [PAttemptCompleted q]"
    using assms(1) by (auto simp: applyAttemptCompleted_def bad_payload_def split: payload_splits)
  have ix: "idx_ok at_AttemptID (pr_Attempts p) (rb_attemptIdx st)"
    using assms(2) by (simp add: rok_def)
  show ?thesis
  proof (cases "rb_attemptIdx st (acp_AttemptID q)")
    case None
    have "idx_ok at_AttemptID (pr_Attempts p @ [new_attempt (acp_AttemptID q) (ev_RunID ev)])
        ((rb_attemptIdx st)(acp_AttemptID q \<mapsto> length (pr_Attempts p)))"
      using idx_ok_snoc [OF ix, of "new_attempt (acp_AttemptID q) (ev_RunID ev)"] None
      by (simp add: new_attempt_def)
    from idx_ok_update [OF this, of "length (pr_Attempts p)"
        "complete_attempt q (new_attempt (acp_AttemptID q) (ev_RunID ev))"]
    show ?thesis
      using assms q None by (auto simp: applyAttemptCompleted_def rok_def Let_def split: if_splits)
  next
    case (Some i)
    from idx_ok_update [OF ix, of i "complete_attempt q (pr_Attempts p ! i)"]
    show ?thesis
      using assms q Some by (auto simp: applyAttemptCompleted_def rok_def Let_def split: if_splits)
  qed
qed

lemma rok_LoopIncremented:
  assumes "applyLoopIncremented ev (p, st) = Inr x" "rok (p, st)"
  shows "rok x"
proof -
  obtain q where q: "ev_Payload ev = [PLoopIncremented q]"
    using assms(1) by (auto simp: applyLoopIncremented_def bad_payload_def split: payload_splits)
  let ?l = "\<lparr>lc_RunID = ev_RunID ev, lc_LoopName = lip_LoopName q, lc_Iterations = lip_Iterations q\<rparr>"
  obtain xs ix where u: "upsert (pr_LoopCounters p) (rb_loopIdx st) (ev_RunID ev, lip_LoopName q) ?l = (xs, ix)"
    by (cases "upsert (pr_LoopCounters p) (rb_loopIdx st) (ev_RunID ev, lip_LoopName q) ?l")
  have "idx_ok (\<lambda>l. (lc_RunID l, lc_LoopName l)) xs ix"
    using assms(2) by (intro idx_ok_upsert [OF _ _ u]) (auto simp: rok_def)
  then show ?thesis
    using assms u q by (auto simp: applyLoopIncremented_def rok_def Let_def)
qed

lemma rok_ApprovalCreated:
  assumes "applyApprovalCreated ev (p, st) = Inr x" "rok (p, st)"
  shows "rok x"
proof -
  obtain q where q: "ev_Payload ev = [PApprovalCreated q]"
    using assms(1) by (auto simp: applyApprovalCreated_def bad_payload_def split: payload_splits)
  obtain xs ix where u: "upsert (pr_Approvals p) (rb_approvalIdx st) (ap_ApprovalID (pcp_Approval q)) (pcp_Approval q) = (xs, ix)"
    by (cases "upsert (pr_Approvals p) (rb_approvalIdx st) (ap_ApprovalID (pcp_Approval q)) (pcp_Approval q)")
  have "idx_ok ap_ApprovalID xs ix"
    using assms(2) by (intro idx_ok_upsert [OF _ _ u]) (auto simp: rok_def)
  then show ?thesis
    using assms u q by (auto simp: applyApprovalCreated_def rok_def Let_def)
qed

lemma rok_ApprovalResolved:
  assumes "applyApprovalResolved ev (p, st) = Inr x" "rok (p, st)"
  shows "rok x"
proof -
  obtain q where q: "ev_Payload ev = [PApprovalResolved q]"
    using assms(1) by (auto simp: applyApprovalResolved_def bad_payload_def split: payload_splits)
  let ?f = "\<lambda>a. a\<lparr>ap_Status := prp_Status q, ap_Actor := prp_Actor q, ap_Reason := prp_Reason q,
      ap_ResolvedAt := Some (prp_ResolvedAt q)\<rparr>"
  have ix: "idx_ok ap_ApprovalID (pr_Approvals p) (rb_approvalIdx st)"
    using assms(2) by (simp add: rok_def)
  show ?thesis
  proof (cases "rb_approvalIdx st (prp_ApprovalID q)")
    case None
    have "idx_ok ap_ApprovalID (pr_Approvals p @ [new_approval (prp_ApprovalID q) (ev_RunID ev)])
        ((rb_approvalIdx st)(prp_ApprovalID q \<mapsto> length (pr_Approvals p)))"
      using idx_ok_snoc [OF ix, of "new_approval (prp_ApprovalID q) (ev_RunID ev)"] None
      by (simp add: new_approval_def)
    from idx_ok_update [OF this, of "length (pr_Approvals p)" "?f (new_approval (prp_ApprovalID q) (ev_RunID ev))"]
    show ?thesis
      using assms q None by (auto simp: applyApprovalResolved_def rok_def Let_def)
  next
    case (Some i)
    from idx_ok_update [OF ix, of i "?f (pr_Approvals p ! i)"]
    show ?thesis
      using assms q Some by (auto simp: applyApprovalResolved_def rok_def Let_def)
  qed
qed

lemma rok_DeliveryUpserted:
  assumes "applyDeliveryUpserted ev (p, st) = Inr x" "rok (p, st)"
  shows "rok x"
proof -
  obtain q where q: "ev_Payload ev = [PDeliveryUpserted q]"
    using assms(1) by (auto simp: applyDeliveryUpserted_def bad_payload_def split: payload_splits)
  obtain xs ix where u: "upsert (pr_Deliveries p) (rb_deliveryIdx st) (dl_IdempotencyKey (dup_Delivery q)) (dup_Delivery q) = (xs, ix)"
    by (cases "upsert (pr_Deliveries p) (rb_deliveryIdx st) (dl_IdempotencyKey (dup_Delivery q)) (dup_Delivery q)")
  have "idx_ok dl_IdempotencyKey xs ix"
    using assms(2) by (intro idx_ok_upsert [OF _ _ u]) (auto simp: rok_def)
  then show ?thesis
    using assms u q by (auto simp: applyDeliveryUpserted_def rok_def Let_def)
qed

lemma rok_apply:
  assumes "apply_event h ev x = Inr y" "rok x"
  shows "rok y"
proof (cases x)
  case (Pair p st)
  note rules = rok_RunCreated rok_RunStatusChanged rok_AttemptStarted rok_AttemptPrompt rok_AttemptExecution
    rok_AttemptHeartbeat rok_AttemptCompleted rok_PanelPhase rok_LoopIncremented rok_ApprovalCreated
    rok_ApprovalResolved rok_DeliveryUpserted
  from assms show ?thesis
    unfolding apply_event_def Pair applyRunDeleted_def
    by (auto split: if_splits dest: rules simp del: split_paired_All)
qed

lemma replay_append:
  "replay_events h (xs @ ys) r =
     (case replay_events h xs r of Inl err \<Rightarrow> Inl err | Inr r1 \<Rightarrow> replay_events h ys r1)"
  by (induction xs arbitrary: r) (auto split: sum.splits)

lemma rok_replay: "replay_events h es x = Inr y \<Longrightarrow> rok x \<Longrightarrow> rok y"
  by (induction es arbitrary: x) (auto split: sum.splits dest: rok_apply)

end
