(* ===== verification/Wf_Sync.thy ===== *)
theory Wf_Sync
  imports Wf_Laws Core_Laws
begin

text \<open>
  The workflow repository over the in-memory store, seen as a refinement of an abstract
  event-sourced machine.  The abstract state of a run is the replay of its log; an
  abstract step appends one event that the current projection allows (\<open>may\<close>), or
  deletes the run.  \<open>synced\<close> is the refinement relation: the cached projection of a run
  is the replay of its stored events.
\<close>

section \<open>The abstract machine of one run\<close>

fun kind_of :: "wf_payload \<Rightarrow> string" where
  "kind_of (PRunCreated _) = eventKindRunCreated"
| "kind_of (PRunStatusChanged _) = eventKindRunStatusChanged"
| "kind_of (PAttemptStarted _) = eventKindAttemptStarted"
| "kind_of (PAttemptCompleted _) = eventKindAttemptCompleted"
| "kind_of (PAttemptPrompt _) = eventKindAttemptPrompt"
| "kind_of (PAttemptExecution _) = eventKindAttemptExecution"
| "kind_of (PAttemptHeartbeat _) = eventKindAttemptHeartbeat"
| "kind_of (PLoopIncremented _) = eventKindLoopIncremented"
| "kind_of (PApprovalCreated _) = eventKindApprovalCreated"
| "kind_of (PApprovalResolved _) = eventKindApprovalResolved"
| "kind_of (PDeliveryUpserted _) = eventKindDeliveryUpserted"
| "kind_of (PRunDeleted _) = eventKindRunDeleted"
| "kind_of (PRunResumed _) = eventKindRunResumed"
| "kind_of (PPanelPhase _) = eventKindPanelPhaseSet"

definition on_index :: "nat option \<Rightarrow> (nat \<Rightarrow> bool) \<Rightarrow> bool" where
  "on_index i P = (case i of None \<Rightarrow> False | Some k \<Rightarrow> P k)"

definition unrouted :: "string set" where
  "unrouted = {AttemptStatusInterrupted, AttemptStatusCanceled, AttemptStatusTimedOut}"

fun may :: "panel_hashes \<Rightarrow> string \<Rightarrow> Projection \<Rightarrow> wf_payload \<Rightarrow> bool" where
  "may h r p (PRunCreated q) \<longleftrightarrow> \<not> pr_HasRun p \<and> wr_RunID (crp_Run q) = r \<and>
     wr_Status (crp_Run q) = WfRunStatusPending \<and> wr_Version (crp_Run q) = 1"
| "may h r p (PRunStatusChanged q) \<longleftrightarrow> (\<exists>run. pr_Run p = Some run \<and>
     ValidRunTransition (wr_Status run) (scp_Status q) \<and> scp_Version q = wr_Version run + 1 \<and>
     (scp_FinishedAt q \<noteq> None \<longleftrightarrow> IsTerminalRunStatus (scp_Status q)))"
| "may h r p (PAttemptStarted q) \<longleftrightarrow> at_RunID (asp_Attempt q) = r \<and>
     \<not> taken_attempt (asp_Attempt q) (pr_Attempts p)"
| "may h r p (PAttemptPrompt q) \<longleftrightarrow> app_PromptRef q \<noteq> [] \<and>
     on_index (attempt_index (app_AttemptID q) (pr_Attempts p)) (\<lambda>i. at_PromptRef (pr_Attempts p ! i) = [])"
| "may h r p (PAttemptExecution q) \<longleftrightarrow>
     on_index (attempt_index (aep_AttemptID q) (pr_Attempts p))
       (\<lambda>i. aep_ExecutionNo q = int (length (seed_executions (pr_Attempts p ! i))) + 1)"
| "may h r p (PAttemptHeartbeat q) \<longleftrightarrow>
     on_index (attempt_index (ahp_AttemptID q) (pr_Attempts p))
       (\<lambda>i. \<not> IsTerminalAttemptStatus (at_Status (pr_Attempts p ! i)))"
| "may h r p (PAttemptCompleted q) \<longleftrightarrow> IsTerminalAttemptStatus (acp_Status q) \<and>
     (acp_ToStepID q \<noteq> [] \<longrightarrow> acp_Status q \<notin> unrouted) \<and>
     (case attempt_index (acp_AttemptID q) (pr_Attempts p) of
        Some i \<Rightarrow> ValidAttemptTransition (at_Status (pr_Attempts p ! i)) (acp_Status q) \<and>
          acp_Version q = at_Version (pr_Attempts p ! i) + 1 \<and> acp_Version q \<noteq> 0 \<and>
          acp_StepID q = [] \<and> acp_AttemptNo q = 0 \<and> acp_StartedAt q = 0
      | None \<Rightarrow> acp_Version q = 1 \<and> 0 \<le> acp_AttemptNo q \<and>
          \<not> list_ex (\<lambda>a. at_StepID a = acp_StepID q \<and> at_AttemptNo a = acp_AttemptNo q) (pr_Attempts p))"
| "may h r p (PPanelPhase q) \<longleftrightarrow>
     on_index (attempt_index (ppp_AttemptID q) (pr_Attempts p))
       (\<lambda>i. \<not> IsTerminalAttemptStatus (at_Status (pr_Attempts p ! i)) \<and>
          ppp_Version q = at_Version (pr_Attempts p ! i) + 1)"
| "may h r p (PLoopIncremented q) \<longleftrightarrow> 1 \<le> lip_Iterations q \<and>
     (case find_index (\<lambda>lc. lc_RunID lc = r \<and> lc_LoopName lc = lip_LoopName q) (pr_LoopCounters p) of
        None \<Rightarrow> lip_Iterations q = 1
      | Some i \<Rightarrow> lip_Iterations q = max 1 (lc_Iterations (pr_LoopCounters p ! i) + 1))"
| "may h r p (PApprovalCreated q) \<longleftrightarrow> ap_RunID (pcp_Approval q) = r \<and>
     approval_index (ap_ApprovalID (pcp_Approval q)) (pr_Approvals p) = None"
| "may h r p (PApprovalResolved q) \<longleftrightarrow> prp_Status q \<in> {''approved'', ''rejected''} \<and>
     on_index (approval_index (prp_ApprovalID q) (pr_Approvals p))
       (\<lambda>i. ap_Status (pr_Approvals p ! i) = ''pending'')"
| "may h r p (PDeliveryUpserted q) \<longleftrightarrow> True"
| "may h r p (PRunDeleted q) \<longleftrightarrow> False"
| "may h r p (PRunResumed q) \<longleftrightarrow> True"

definition is_creation :: "wf_payload \<Rightarrow> bool" where
  "is_creation pl \<longleftrightarrow> (case pl of PRunCreated _ \<Rightarrow> True | _ \<Rightarrow> False)"

definition allowed :: "panel_hashes \<Rightarrow> string \<Rightarrow> Projection \<Rightarrow> wf_payload event \<Rightarrow> bool" where
  "allowed h r p ev \<longleftrightarrow> ev_RunID ev = r \<and>
     (\<exists>pl. ev_Payload ev = [pl] \<and> ev_Kind ev = kind_of pl \<and> may h r p pl \<and> (is_creation pl \<or> pr_HasRun p))"

inductive log_step :: "panel_hashes \<Rightarrow> string \<Rightarrow> replay \<Rightarrow> replay \<Rightarrow> bool" for h r where
  stay: "log_step h r x x"
| append: "allowed h r (derive_active x) ev \<Longrightarrow> apply_event h ev x = Inr y \<Longrightarrow> log_step h r x y"
| delete: "pr_HasRun (fst x) \<Longrightarrow> log_step h r x blank"

section \<open>Projections and their derived step\<close>

definition active_of :: "rebuildState \<Rightarrow> string" where
  "active_of st = (if rb_stepCandidates st \<noteq> [] then last (rb_stepCandidates st) else rb_initialStep st)"

lemma derive_active_eq: "derive_active (p, st) = p\<lparr>pr_ActiveStepID := active_of st\<rparr>"
  by (simp add: derive_active_def active_of_def)

lemma derive_active_fields [simp]:
  "pr_Run (derive_active x) = pr_Run (fst x)" "pr_SnapshotJSON (derive_active x) = pr_SnapshotJSON (fst x)"
  "pr_Attempts (derive_active x) = pr_Attempts (fst x)" "pr_Transitions (derive_active x) = pr_Transitions (fst x)"
  "pr_LoopCounters (derive_active x) = pr_LoopCounters (fst x)" "pr_Approvals (derive_active x) = pr_Approvals (fst x)"
  "pr_Deliveries (derive_active x) = pr_Deliveries (fst x)" "pr_HasRun (derive_active x) = pr_HasRun (fst x)"
  "pr_ActiveStepID (derive_active x) = active_of (snd x)"
  by (cases x; simp add: derive_active_eq)+

abbreviation live :: "wf_client \<Rightarrow> string \<Rightarrow> Projection option" where
  "live c r \<equiv> map_of (wc_proj c) r"

definition view :: "replay \<Rightarrow> Projection option" where
  "view x = (if pr_HasRun (fst x) then Some (derive_active x) else None)"

lemma view_blank [simp]: "view blank = None"
  by (simp add: view_def zero_projection_def)

lemma live_put [simp]: "live (put_proj r p c) r' = (if r' = r then Some p else live c r')"
  by (simp add: put_proj_def update_conv')

lemma live_drop [simp]: "live (drop_proj r c) r' = (if r' = r then None else live c r')"
  by (simp add: drop_proj_def delete_conv')

lemma live_upd_other [simp]: "r' \<noteq> r \<Longrightarrow> live (upd_proj r f c) r' = live c r'"
  by (simp add: upd_proj_def)

lemma live_seqs [simp]: "live (c\<lparr>wc_deliverySeqs := s\<rparr>) r = live c r"
  by simp

definition replay_log :: "panel_hashes \<Rightarrow> wf_payload memory \<Rightarrow> string \<Rightarrow> lerr + replay" where
  "replay_log h m r = replay_events h (mem_evs m r) blank"

definition synced :: "panel_hashes \<Rightarrow> wf_payload memory \<Rightarrow> wf_client \<Rightarrow> string \<Rightarrow> replay \<Rightarrow> bool" where
  "synced h m c r x \<longleftrightarrow> replay_log h m r = Inr x \<and> live c r = view x \<and> (\<not> pr_HasRun (fst x) \<longrightarrow> x = blank)"

lemma synced_rok: "synced h m c r x \<Longrightarrow> rok x"
  by (auto simp: synced_def replay_log_def intro: rok_replay)

lemma replay_log_cong: "mem_evs m' r = mem_evs m r \<Longrightarrow> replay_log h m' r = replay_log h m r"
  by (simp add: replay_log_def)

section \<open>Rebuilding from the in-memory store\<close>

lemma sort_stored:
  assumes "events_inv m"
  shows "SortEventsStable (mem_evs m r) = mem_evs m r"
proof -
  have s: "sorted_wrt (<) (map ev_RowID (mem_evs m r))" by (rule events_invD(3) [OF assms])
  then have "inj_on ev_RowID (set (mem_evs m r))" "sorted (map ev_RowID (mem_evs m r))"
    by (auto simp: strict_sorted_iff distinct_map)
  then show ?thesis
    unfolding SortEventsStable_def by (intro sort_key_inj_key_eq) auto
qed

lemma Rebuild_eq:
  "events_inv m \<Longrightarrow> RebuildProjection h (mem_evs m r) = map_sum id derive_active (replay_log h m r)"
  by (simp add: RebuildProjection_def sort_stored replay_log_def)

lemma delivery_counts_ok:
  "replay_events h es x = Inr y \<Longrightarrow> \<exists>counts. delivery_counts es c0 = Inr counts"
proof (induction es arbitrary: x c0)
  case (Cons e es)
  obtain x1 where x1: "apply_event h e x = Inr x1" "replay_events h es x1 = Inr y"
    using Cons.prems by (auto split: sum.splits)
  show ?case
  proof (cases "ev_Kind e = eventKindDeliveryUpserted")
    case True
    then have "apply_event h e x = applyDeliveryUpserted e x"
      by (simp add: apply_event_def event_kind_defs)
    then obtain q where "ev_Payload e = [PDeliveryUpserted q]"
      using x1(1) by (cases x) (auto simp: applyDeliveryUpserted_def bad_payload_def split: payload_splits)
    then show ?thesis using Cons.IH [OF x1(2)] True by (simp add: Let_def)
  next
    case False
    then show ?thesis using Cons.IH [OF x1(2)] by simp
  qed
qed simp

lemma applyRunEvents_mem:
  assumes "events_inv m" "replay_log h m r = Inr x"
  obtains c' where "applyRunEventsLocked h r (mem_evs m r) (e, m, c) =
      ((eng_SetApplied r (max_sequence (mem_evs m r) 0) e, m, c'), None)"
    "live c' r = view x" "\<And>r'. r' \<noteq> r \<Longrightarrow> live c' r' = live c r'"
proof -
  obtain counts where "delivery_counts (mem_evs m r) [] = Inr counts"
    using assms(2) delivery_counts_ok unfolding replay_log_def by blast
  moreover have "RebuildProjection h (mem_evs m r) = Inr (derive_active x)"
    using Rebuild_eq [OF assms(1)] assms(2) by simp
  ultimately show thesis
    by (intro that [of "(if pr_HasRun (fst x) then put_proj r (derive_active x) c else drop_proj r c)
        \<lparr>wc_deliverySeqs := set_delivery_seqs r counts
          (wc_deliverySeqs (if pr_HasRun (fst x) then put_proj r (derive_active x) c else drop_proj r c))\<rparr>"])
      (auto simp: applyRunEventsLocked_def Let_def view_def)
qed

lemma mem_Events_evs: "mem_Events r m = mem_evs m r"
  by (simp add: mem_Events_def map_idI)

lemma catchUpRun_mem:
  assumes "events_inv m" "replay_log h m r = Inr x"
  obtains c' where "catchUpRunLocked mem_ops h r (e, m, c) =
      ((eng_SetApplied r (max_sequence (mem_evs m r) 0) e, m, c'), None)"
    "live c' r = view x" "\<And>r'. r' \<noteq> r \<Longrightarrow> live c' r' = live c r'"
  using applyRunEvents_mem [OF assms, of e c] by (auto simp: catchUpRunLocked_def mem_Events_evs)

section \<open>Appending to the in-memory store\<close>

text \<open>The outcome of one append: refused without effect, or the event stored last.\<close>

definition appended :: "wf_payload event \<Rightarrow> wf_payload memory \<Rightarrow> wf_payload memory \<Rightarrow> bool" where
  "appended evt m m' \<longleftrightarrow> ev_ID evt \<notin> m_ids m \<and> events_inv m' \<and>
     m_events m' = (m_events m)(ev_RunID evt \<mapsto> mem_evs m (ev_RunID evt) @ [stamped m evt])"

lemma appendLocked_outcome:
  assumes "events_inv m" "appendLocked evt m = (m', err)"
  shows "(err \<noteq> None \<and> m' = m) \<or> (err = None \<and> appended evt m m')"
proof (cases evt m rule: appendLocked_cases)
  case (ok m1)
  then show ?thesis
    using assms events_inv_appendLocked [OF assms(1), of evt] by (auto simp: appended_def)
qed (use assms in auto)

lemma claimed_outcome:
  assumes "events_inv m"
    "mem_AppendClaimed evt holder m = (m', err) \<or> mem_AppendClaimedFenced evt tok m = (m', err) \<or>
     mem_AppendWithExistingClaim evt holder m = (m', err)"
  shows "(err \<noteq> None \<and> m' = m) \<or> (err = None \<and> appended evt m m')"
  using assms(2) appendLocked_outcome [OF assms(1), of evt m' err]
  by (auto simp: mem_AppendClaimed_def mem_AppendClaimedFenced_def mem_AppendWithExistingClaim_def
      split: option.splits if_splits)

lemma appended_evs:
  "appended evt m m' \<Longrightarrow> mem_evs m' r = (if r = ev_RunID evt then mem_evs m r @ [stamped m evt] else mem_evs m r)"
  by (simp add: appended_def)

lemma stamped_fields [simp]:
  "ev_ID (stamped m e) = ev_ID e" "ev_RunID (stamped m e) = ev_RunID e" "ev_Kind (stamped m e) = ev_Kind e"
  "ev_Payload (stamped m e) = ev_Payload e" "ev_Sequence (stamped m e) = ev_Sequence e"
  by (simp_all add: stamped_def)

definition store_attempt ::
    "string \<Rightarrow> wf_payload event \<Rightarrow> tracker \<Rightarrow> wf_payload memory \<Rightarrow> wf_payload memory \<times> store_err option" where
  "store_attempt holder evt trk m =
     (let claim = fst (trk_GetClaim trk (ev_RunID evt)) in
      if c_Fence claim \<noteq> 0 \<and> (holder = [] \<or> c_Holder claim = holder)
      then mem_AppendClaimedFenced evt claim m
      else mem_AppendClaimed evt (if holder = [] then c_Holder claim else holder) m)"

lemma store_attempt_outcome:
  assumes "events_inv m" "store_attempt holder evt trk m = (m', err)"
  shows "(err \<noteq> None \<and> m' = m) \<or> (err = None \<and> appended evt m m')"
  using assms(2) claimed_outcome [OF assms(1), of evt _ m' err]
  by (auto simp: store_attempt_def Let_def split: if_splits)

lemma mem_ops_fields:
  "so_fenced mem_ops = Some mem_fenced_ops" "so_AppendClaimed mem_ops = mem_AppendClaimed"
  "fo_AppendClaimedFenced mem_fenced_ops = mem_AppendClaimedFenced"
  "so_AppendAndDeleteRun mem_ops = mem_AppendAndDeleteRun" "so_existing mem_ops = Some mem_AppendWithExistingClaim"
  "so_ClearClaim mem_ops = mem_ClearClaim"
  by (simp_all add: mem_ops_def mem_fenced_ops_def)

lemma appendEvent_unfold:
  "appendEvent mem_ops h holder evt rollback (e, m, c) =
     (let (m1, serr) = store_attempt holder evt (en_claims e) m;
          err0 = map_option LErrStore serr;
          err = (case err0 of Some x \<Rightarrow> if errors_is x (LErrStore ErrClaimHeld) then Some LErrClaimHeld else err0
                 | None \<Rightarrow> None)
      in case err of
          None \<Rightarrow> ((eng_SetApplied (ev_RunID evt) (word_of_int (ev_Sequence evt)) e, m1, c), None)
        | Some x \<Rightarrow>
            if errors_is x (LErrStore ErrDuplicate) then wf_OnDuplicate mem_ops h evt (e, m1, c)
            else (case catchUpRunLocked mem_ops h (ev_RunID evt) (e, m1, rollback c) of
                (w, Some rerr) \<Rightarrow> (w, Some (LErrWrap ''store append; rebuild projection'' rerr))
              | (w, None) \<Rightarrow> (w, Some (LErrWrap ''store append'' x))))"
proof -
  let ?claim = "fst (trk_GetClaim (en_claims e) (ev_RunID evt))"
  obtain m1 serr where res: "store_attempt holder evt (en_claims e) m = (m1, serr)"
    by (cases "store_attempt holder evt (en_claims e) m")
  show ?thesis
  proof (cases "c_Fence ?claim \<noteq> 0 \<and> (holder = [] \<or> c_Holder ?claim = holder)")
    case True
    then have "mem_AppendClaimedFenced evt ?claim m = (m1, serr)"
      using res by (auto simp: store_attempt_def Let_def)
    then show ?thesis
      using True unfolding appendEvent_def eng_AppendEvent_def res
      by (cases serr) (simp_all add: mem_ops_fields Let_def)
  next
    case False
    then have "mem_AppendClaimed evt (if holder = [] then c_Holder ?claim else holder) m = (m1, serr)"
      using res by (auto simp: store_attempt_def Let_def split: if_splits)
    then show ?thesis
      using False unfolding appendEvent_def eng_AppendEvent_def res
      by (cases serr; cases "holder = []"; cases "c_Fence ?claim = 0") (simp_all add: mem_ops_fields Let_def)
  qed
qed

lemma check_duplicate_None:
  "check_duplicate evt es = None \<Longrightarrow> \<exists>ev \<in> set es. ev_ID ev = ev_ID evt \<and> ev_Payload ev = ev_Payload evt"
  by (induction es) (auto split: if_splits)

lemma appendEvent_refused:
  assumes inv: "events_inv m" and x: "replay_log h m (ev_RunID evt) = Inr x"
    and res: "store_attempt holder evt (en_claims e) m = (m, Some se)"
  obtains c0 c' err where "c0 = c \<or> c0 = rollback c"
    "appendEvent mem_ops h holder evt rollback (e, m, c) =
       ((eng_SetApplied (ev_RunID evt) (max_sequence (mem_evs m (ev_RunID evt)) 0) e, m, c'), err)"
    "live c' (ev_RunID evt) = view x" "\<And>r'. r' \<noteq> ev_RunID evt \<Longrightarrow> live c' r' = live c0 r'"
    "err = None \<Longrightarrow> \<exists>ev \<in> set (mem_evs m (ev_RunID evt)). ev_ID ev = ev_ID evt \<and> ev_Payload ev = ev_Payload evt"
proof (cases "se = ErrDuplicate")
  case True
  obtain c2 where c2: "catchUpRunLocked mem_ops h (ev_RunID evt) (e, m, c) =
      ((eng_SetApplied (ev_RunID evt) (max_sequence (mem_evs m (ev_RunID evt)) 0) e, m, c2), None)"
    "live c2 (ev_RunID evt) = view x" "\<And>r'. r' \<noteq> ev_RunID evt \<Longrightarrow> live c2 r' = live c r'"
    using catchUpRun_mem [OF inv x] by blast
  have "appendEvent mem_ops h holder evt rollback (e, m, c) =
      ((eng_SetApplied (ev_RunID evt) (max_sequence (mem_evs m (ev_RunID evt)) 0) e, m, c2),
       check_duplicate evt (mem_evs m (ev_RunID evt)))"
    by (simp add: appendEvent_unfold res True wf_OnDuplicate_def c2(1) eng_CheckDuplicatePayload_def mem_Events_evs)
  with c2 show thesis by (intro that [of c c2]) (auto dest: check_duplicate_None)
next
  case False
  obtain c3 where c3: "catchUpRunLocked mem_ops h (ev_RunID evt) (e, m, rollback c) =
      ((eng_SetApplied (ev_RunID evt) (max_sequence (mem_evs m (ev_RunID evt)) 0) e, m, c3), None)"
    "live c3 (ev_RunID evt) = view x" "\<And>r'. r' \<noteq> ev_RunID evt \<Longrightarrow> live c3 r' = live (rollback c) r'"
    using catchUpRun_mem [OF inv x] by blast
  have "\<exists>err. appendEvent mem_ops h holder evt rollback (e, m, c) =
      ((eng_SetApplied (ev_RunID evt) (max_sequence (mem_evs m (ev_RunID evt)) 0) e, m, c3), Some err)"
    using False by (cases se) (simp_all add: appendEvent_unfold res c3(1))
  with c3 show thesis by (auto intro: that [of "rollback c" c3])
qed

lemma appendEvent_mem:
  assumes inv: "events_inv m" and x: "replay_log h m (ev_RunID evt) = Inr x"
    and rb: "\<And>c r'. r' \<noteq> ev_RunID evt \<Longrightarrow> live (rollback c) r' = live c r'"
    and run: "appendEvent mem_ops h holder evt rollback (e, m, c) = ((e', m', c'), err)"
  shows "(m' = m \<and> live c' (ev_RunID evt) = view x \<and> (\<forall>r'. r' \<noteq> ev_RunID evt \<longrightarrow> live c' r' = live c r') \<and>
      e' = eng_SetApplied (ev_RunID evt) (max_sequence (mem_evs m (ev_RunID evt)) 0) e \<and>
      (err = None \<longrightarrow> (\<exists>ev \<in> set (mem_evs m (ev_RunID evt)). ev_ID ev = ev_ID evt \<and> ev_Payload ev = ev_Payload evt))) \<or>
    (appended evt m m' \<and> c' = c \<and> err = None \<and>
      e' = eng_SetApplied (ev_RunID evt) (word_of_int (ev_Sequence evt)) e)" (is "?kept \<or> ?stored")
proof -
  obtain m1 serr where res: "store_attempt holder evt (en_claims e) m = (m1, serr)"
    by (cases "store_attempt holder evt (en_claims e) m")
  from store_attempt_outcome [OF inv res] show ?thesis
  proof
    assume a: "serr = None \<and> appended evt m m1"
    then have ?stored using run res by (auto simp: appendEvent_unfold)
    then show ?thesis ..
  next
    assume a: "serr \<noteq> None \<and> m1 = m"
    then obtain se where "store_attempt holder evt (en_claims e) m = (m, Some se)" using res by auto
    from appendEvent_refused [where c = c and rollback = rollback, OF inv x this]
    obtain c0 c1 err1 where *: "c0 = c \<or> c0 = rollback c"
      "appendEvent mem_ops h holder evt rollback (e, m, c) =
         ((eng_SetApplied (ev_RunID evt) (max_sequence (mem_evs m (ev_RunID evt)) 0) e, m, c1), err1)"
      "live c1 (ev_RunID evt) = view x" "\<And>r'. r' \<noteq> ev_RunID evt \<Longrightarrow> live c1 r' = live c0 r'"
      "err1 = None \<Longrightarrow> \<exists>ev \<in> set (mem_evs m (ev_RunID evt)). ev_ID ev = ev_ID evt \<and> ev_Payload ev = ev_Payload evt"
      by blast
    have "live c1 r' = live c r'" if "r' \<noteq> ev_RunID evt" for r'
      using *(1) *(4) [OF that] rb [OF that] by auto
    with * run have ?kept by auto
    then show ?thesis ..
  qed
qed

end
