(* ===== verification/Wf_Refine.thy ===== *)
theory Wf_Refine
  imports Wf_Sync
begin

text \<open>
  Every operation body of the workflow repository refines the abstract machine of its
  run: from a synced world, whatever the outcome, the log and the cached projection take
  at most one allowed step together, and no other run is touched.
\<close>

section \<open>Watermarks of the engine\<close>

definition eng_top :: "engine \<Rightarrow> string \<Rightarrow> nat" where
  "eng_top e r = wm_top (en_watermarks e) r"

lemma eng_top_lock [simp]: "eng_top (eng_RunLock r e) r' = eng_top e r'"
  by (simp add: eng_top_def eng_RunLock_def)

lemma eng_top_applied:
  "eng_top (eng_SetApplied r q e) r' = (if r' = r then max (eng_top e r) (unat q) else eng_top e r')"
  by (auto simp: eng_top_def eng_SetApplied_def wm_top_def wm_defs word_less_nat_alt max_def)

lemma eng_top_next:
  assumes "eng_NextSequence r e = (e1, q)" "eng_top e r + 1 < 2 ^ 63"
  shows "unat q = eng_top e r + 1" "eng_top e1 r = eng_top e r + 1" "r' \<noteq> r \<Longrightarrow> eng_top e1 r' = eng_top e r'"
proof -
  have "wm_top (en_watermarks e) r + 1 < 2 ^ 64" using assms(2) by (simp add: eng_top_def)
  note v = NextSequence_value [OF this]
  show "unat q = eng_top e r + 1" "eng_top e1 r = eng_top e r + 1"
    using v assms(1) by (auto simp: eng_NextSequence_def eng_top_def split: prod.splits)
  show "r' \<noteq> r \<Longrightarrow> eng_top e1 r' = eng_top e r'"
    using assms(1) by (auto simp: eng_NextSequence_def eng_top_def wm_top_def wm_defs Let_def split: prod.splits)
qed

lemma sint_small:
  assumes "unat (q :: 64 word) < 2 ^ 63"
  shows "sint q = int (unat q)"
proof -
  have "uint q = int (unat q)" by simp
  moreover have "int (unat q) < int (2 ^ 63)" using assms by (simp only: of_nat_less_iff)
  ultimately have "uint q < 2 ^ 63" by simp
  then have "signed_take_bit 63 (uint q) = uint q"
    by (intro signed_take_bit_int_eq_self) (auto intro: order_trans [OF _ uint_ge_0])
  then show ?thesis by (simp add: sint_uint)
qed

text \<open>
  Sequence numbers of a run: positive numbers below 2^63, and not above the watermarks of
  the engine; \<open>room\<close> says that the next number is still below 2^63.
\<close>

definition seqs_nat :: "'p memory \<Rightarrow> string \<Rightarrow> bool" where
  "seqs_nat m r \<longleftrightarrow> (\<forall>ev \<in> set (mem_evs m r). 0 < ev_Sequence ev \<and> ev_Sequence ev < 2 ^ 63)"

definition seq_ok :: "engine \<Rightarrow> 'p memory \<Rightarrow> string \<Rightarrow> bool" where
  "seq_ok e m r \<longleftrightarrow> (\<forall>ev \<in> set (mem_evs m r). ev_Sequence ev \<le> int (eng_top e r))"

definition room :: "engine \<Rightarrow> string \<Rightarrow> bool" where
  "room e r \<longleftrightarrow> eng_top e r + 1 < 2 ^ 63"

lemma seq_ok_mono: "seq_ok e m r \<Longrightarrow> eng_top e r \<le> eng_top e' r \<Longrightarrow> seq_ok e' m r"
  unfolding seq_ok_def by (meson order_trans of_nat_le_iff)

lemma max_sequence_bound:
  assumes "\<forall>ev \<in> set es. 0 \<le> ev_Sequence ev \<and> ev_Sequence ev \<le> int n" "unat k \<le> n" "n < 2 ^ 64"
  shows "unat (max_sequence es k) \<le> n"
  using assms
proof (induction es arbitrary: k)
  case (Cons ev es)
  have "unat (word_of_int (ev_Sequence ev) :: 64 word) = nat (ev_Sequence ev)"
    using Cons.prems(1,3) by (simp add: unat_eq_nat_uint uint_word_of_int_eq take_bit_int_eq_self)
  then have "unat (word_of_int (ev_Sequence ev) :: 64 word) \<le> n" using Cons.prems(1) by auto
  then show ?case using Cons by auto
qed simp

lemma max_sequence_upper:
  assumes "\<forall>ev \<in> set es. 0 \<le> ev_Sequence ev \<and> ev_Sequence ev \<le> int n" "n < 2 ^ 63"
  shows "unat k \<le> unat (max_sequence es k) \<and> (\<forall>ev \<in> set es. nat (ev_Sequence ev) \<le> unat (max_sequence es k))"
  using assms(1)
proof (induction es arbitrary: k)
  case (Cons ev es)
  have v: "unat (word_of_int (ev_Sequence ev) :: 64 word) = nat (ev_Sequence ev)"
    using Cons.prems assms(2) by (simp add: unat_eq_nat_uint uint_word_of_int_eq take_bit_int_eq_self)
  let ?k = "if (word_of_int (ev_Sequence ev) :: 64 word) > k then word_of_int (ev_Sequence ev) else k"
  have k: "unat k \<le> unat ?k" "nat (ev_Sequence ev) \<le> unat ?k" using v by (auto simp: word_less_nat_alt)
  have ih: "unat ?k \<le> unat (max_sequence es ?k)" "\<forall>x \<in> set es. nat (ev_Sequence x) \<le> unat (max_sequence es ?k)"
    using Cons.IH [of ?k] Cons.prems by simp_all
  have "max_sequence (ev # es) k = max_sequence es ?k" by simp
  then show ?case using order_trans [OF k(1) ih(1)] order_trans [OF k(2) ih(1)] ih(2)
    by (simp only: list.set ball_simps conj_assoc simp_thms)
qed simp

text \<open>How an operation on one run moves the watermarks.\<close>

definition eng_moves :: "string \<Rightarrow> 'p memory \<Rightarrow> engine \<Rightarrow> engine \<Rightarrow> bool" where
  "eng_moves r m e e' \<longleftrightarrow> (room e r \<and> seqs_nat m r \<longrightarrow>
     (\<forall>r'. r' \<noteq> r \<longrightarrow> eng_top e r' \<le> eng_top e' r') \<and>
     (seq_ok e m r \<longrightarrow> eng_top e r \<le> eng_top e' r \<and> eng_top e' r \<le> eng_top e r + 1))"

lemma moves_refl [simp]: "eng_moves r m e e"
  by (simp add: eng_moves_def)

lemma moves_next: "eng_NextSequence r e = (e1, q) \<Longrightarrow> eng_moves r m e e1"
  using eng_top_next [of r e e1 q] by (simp add: eng_moves_def room_def)

lemma moves_rebuilt:
  assumes "eng_moves r m e e1"
  shows "eng_moves r m e (eng_SetApplied r (max_sequence (mem_evs m r) 0) e1)"
  unfolding eng_moves_def
proof (intro impI)
  assume a: "room e r \<and> seqs_nat m r"
  have "unat (max_sequence (mem_evs m r) 0) \<le> eng_top e r" if "seq_ok e m r"
    using a that by (intro max_sequence_bound) (auto simp: seqs_nat_def seq_ok_def room_def)
  then show "(\<forall>r'. r' \<noteq> r \<longrightarrow> eng_top e r' \<le> eng_top (eng_SetApplied r (max_sequence (mem_evs m r) 0) e1) r') \<and>
     (seq_ok e m r \<longrightarrow> eng_top e r \<le> eng_top (eng_SetApplied r (max_sequence (mem_evs m r) 0) e1) r \<and>
       eng_top (eng_SetApplied r (max_sequence (mem_evs m r) 0) e1) r \<le> eng_top e r + 1)"
    using assms a by (auto simp: eng_moves_def eng_top_applied)
qed

section \<open>Refinement of one run\<close>

definition refines ::
    "panel_hashes \<Rightarrow> string \<Rightarrow> wf_payload memory wf_world \<Rightarrow> wf_payload memory wf_world \<Rightarrow> bool" where
  "refines h r = (\<lambda>(e, m, c) (e', m', c').
     events_inv m' \<and> (\<exists>x y. replay_log h m r = Inr x \<and> synced h m' c' r y \<and> log_step h r x y) \<and>
     (\<forall>r'. r' \<noteq> r \<longrightarrow> mem_evs m' r' = mem_evs m r' \<and> live c' r' = live c r') \<and>
     (room e r \<and> seqs_nat m r \<longrightarrow> (\<forall>r'. r' \<noteq> r \<longrightarrow> eng_top e r' \<le> eng_top e' r') \<and> seqs_nat m' r \<and>
        (seq_ok e m r \<longrightarrow> seq_ok e' m' r \<and> eng_top e' r \<le> eng_top e r + 1 \<or> live c' r = None)))"

lemma refines_kept:
  assumes "events_inv m" "synced h m c r x" "live c' r = view x" "\<And>r'. r' \<noteq> r \<Longrightarrow> live c' r' = live c r'"
    "eng_moves r m e e'"
  shows "refines h r (e, m, c) (e', m, c')"
  using assms log_step.stay [of h r x] seq_ok_mono [of e m r e']
  by (auto simp: refines_def synced_def eng_moves_def simp del: split_paired_Ex)

lemma refines_refl: "events_inv m \<Longrightarrow> synced h m c r x \<Longrightarrow> refines h r (e, m, c) (e, m, c)"
  by (rule refines_kept) (auto simp: synced_def)

lemma stored_refines:
  assumes inv: "events_inv m" and x: "synced h m c r x" and q: "eng_NextSequence r e = (e1, q)"
    and evt: "ev_RunID evt = r" "ev_Sequence evt = sint q" and app: "appended evt m m'"
    and al: "allowed h r (derive_active x) (stamped m evt)"
    and y: "apply_event h (stamped m evt) x = Inr y" "pr_HasRun (fst y)"
    and c': "live c' r = Some (derive_active y)" "\<And>r'. r' \<noteq> r \<Longrightarrow> live c' r' = live c r'"
    and e': "e' = eng_SetApplied r q e1"
  shows "refines h r (e, m, c) (e', m', c')"
proof -
  have log: "replay_log h m r = Inr x" using x by (simp add: synced_def)
  have new: "mem_evs m' r' = (if r' = r then mem_evs m r @ [stamped m evt] else mem_evs m r')" for r'
    using appended_evs [OF app] evt by auto
  have sy: "synced h m' c' r y"
    using log y c' new [of r] by (simp add: synced_def view_def replay_log_def replay_append)
  have seq: "(\<forall>r'. r' \<noteq> r \<longrightarrow> eng_top e r' \<le> eng_top e' r') \<and> seqs_nat m' r \<and>
      (seq_ok e m r \<longrightarrow> seq_ok e' m' r \<and> eng_top e' r \<le> eng_top e r + 1)" if room: "room e r" and nat: "seqs_nat m r"
  proof -
    note n = eng_top_next [OF q room [unfolded room_def]]
    have sq: "sint q = int (eng_top e r + 1)" using sint_small [of q] n(1) room by (simp add: room_def)
    have top: "eng_top e' r = eng_top e r + 1" "r' \<noteq> r \<Longrightarrow> eng_top e' r' = eng_top e r'" for r'
      using n e' by (auto simp: eng_top_applied)
    have "seqs_nat m' r"
      using nat new [of r] evt(2) sq room by (auto simp: seqs_nat_def room_def)
    moreover have "seq_ok e' m' r" if "seq_ok e m r"
      using that new [of r] evt(2) sq top(1) by (fastforce simp: seq_ok_def)
    ultimately show ?thesis using top by simp
  qed
  have "events_inv m'" using app by (simp add: appended_def)
  then show ?thesis
    unfolding refines_def using log sy log_step.append [OF al y(1)] new c'(2) seq
    by (auto simp del: split_paired_Ex)
qed

lemma emit_refines:
  assumes inv: "events_inv m" and x: "synced h m c0 r x"
    and loc: "\<And>r'. r' \<noteq> r \<Longrightarrow> live c r' = live c0 r'"
    and rb: "\<And>c r'. r' \<noteq> r \<Longrightarrow> live (rollback c) r' = live c r'"
    and ok: "\<And>bytes ev. payload = Inr bytes \<Longrightarrow> ev_Kind ev = kind \<Longrightarrow> ev_RunID ev = r \<Longrightarrow> ev_Payload ev = bytes \<Longrightarrow>
      allowed h r (derive_active x) ev \<and>
      (\<exists>y. apply_event h ev x = Inr y \<and> pr_HasRun (fst y) \<and> live c r = Some (derive_active y))"
    and run: "emit mem_ops h holder r kind parts payload rollback (e, m, c) = (w', err)"
  shows "refines h r (e, m, c0) w'"
proof (cases payload)
  case (Inl perr)
  have log: "replay_log h m r = Inr x" using x by (simp add: synced_def)
  obtain c' where c': "catchUpRunLocked mem_ops h r (e, m, rollback c) =
      ((eng_SetApplied r (max_sequence (mem_evs m r) 0) e, m, c'), None)"
    "live c' r = view x" "\<And>r'. r' \<noteq> r \<Longrightarrow> live c' r' = live (rollback c) r'"
    using catchUpRun_mem [OF inv log] by blast
  have "w' = (eng_SetApplied r (max_sequence (mem_evs m r) 0) e, m, c')"
    using run Inl c'(1) by (auto simp: emit_def rollbackAndRebuild_def)
  then show ?thesis
    using refines_kept [OF inv x c'(2) _ moves_rebuilt [OF moves_refl]] c'(3) rb loc by simp
next
  case (Inr bytes)
  have log: "replay_log h m r = Inr x" using x by (simp add: synced_def)
  obtain e1 q where q: "eng_NextSequence r e = (e1, q)" by (cases "eng_NextSequence r e")
  define evt where "evt = \<lparr>ev_ID = EventID r kind parts, ev_RunID = r, ev_Sequence = sint q, ev_Kind = kind,
    ev_Payload = bytes, ev_RowID = 0\<rparr>"
  have evt: "ev_RunID evt = r" "ev_Kind evt = kind" "ev_Payload evt = bytes" "ev_Sequence evt = sint q"
    by (simp_all add: evt_def)
  obtain e' m' c' where w': "w' = (e', m', c')" by (cases w')
  have app: "appendEvent mem_ops h holder evt rollback (e1, m, c) = ((e', m', c'), err)"
    using run Inr q w' by (simp add: emit_def evt_def)
  have log': "replay_log h m (ev_RunID evt) = Inr x" using log evt by simp
  have rb': "\<And>c r'. r' \<noteq> ev_RunID evt \<Longrightarrow> live (rollback c) r' = live c r'" using rb evt by simp
  from appendEvent_mem [OF inv log' rb' app] consider
      (kept) "m' = m" "live c' r = view x" "\<forall>r'. r' \<noteq> r \<longrightarrow> live c' r' = live c r'"
        "e' = eng_SetApplied r (max_sequence (mem_evs m r) 0) e1"
    | (stored) "appended evt m m'" "c' = c" "err = None" "e' = eng_SetApplied r (word_of_int (sint q)) e1"
    unfolding evt by blast
  then show ?thesis
  proof cases
    case kept
    then show ?thesis
      using refines_kept [OF inv x kept(2) _ moves_rebuilt [OF moves_next [OF q]]] loc w' by simp
  next
    case stored
    obtain y where y: "allowed h r (derive_active x) (stamped m evt)" "apply_event h (stamped m evt) x = Inr y"
      "pr_HasRun (fst y)" "live c r = Some (derive_active y)"
      using ok [OF Inr, of "stamped m evt"] evt by auto
    show ?thesis
      unfolding w' using stored y loc
      by (intro stored_refines [OF inv x q evt(1,4) stored(1) y(1-3)]) auto
  qed
qed

end
