(* ===== verification/Wf_Ops.thy ===== *)
theory Wf_Ops
  imports Wf_Refine
begin

text \<open>
  The refinement lemma of every mutating operation of the workflow repository.  Each
  proof names the abstract step: the event is allowed by the current projection, and
  replaying it yields exactly the projection the operation put in its cache.
\<close>

section \<open>Common shapes\<close>

lemma synced_live:
  assumes "synced h m c r x" "live c r = Some p"
  shows "p = derive_active x" "pr_HasRun (fst x)"
  using assms by (auto simp: synced_def view_def split: if_splits)

lemma synced_run:
  assumes "synced h m c r x" "live c r = Some p" "pr_Run p = Some run"
  shows "pr_Run (fst x) = Some run"
  using synced_live [OF assms(1,2)] assms(3) by simp

text \<open>The guard on the cached projection: either the body runs on the replay, or nothing happens.\<close>

lemma on_run_refines:
  assumes "events_inv m" "synced h m c r x" "on_run r body (e, m, c) = (w', err)"
    "\<And>w2 err2. pr_HasRun (fst x) \<Longrightarrow> live c r = Some (derive_active x) \<Longrightarrow>
       body (derive_active x) (e, m, c) = (w2, err2) \<Longrightarrow> refines h r (e, m, c) w2"
  shows "refines h r (e, m, c) w'"
proof (cases "live c r")
  case None
  then show ?thesis using assms(1-3) by (auto simp: on_run_def intro: refines_refl)
next
  case (Some p)
  then show ?thesis
    using assms synced_live [OF assms(2) Some] by (auto simp: on_run_def)
qed

lemma on_attempt_refines:
  assumes "events_inv m" "synced h m c r x" "on_attempt r attemptID body (e, m, c) = (w', err)"
    "\<And>i w2 err2. pr_HasRun (fst x) \<Longrightarrow> live c r = Some (derive_active x) \<Longrightarrow>
       attempt_index attemptID (pr_Attempts (fst x)) = Some i \<Longrightarrow>
       body (derive_active x) i (e, m, c) = (w2, err2) \<Longrightarrow> refines h r (e, m, c) w2"
  shows "refines h r (e, m, c) w'"
  using assms(3) unfolding on_attempt_def
proof (rule on_run_refines [OF assms(1,2)])
  fix w2 err2
  assume a: "pr_HasRun (fst x)" "live c r = Some (derive_active x)"
    "(case attempt_index attemptID (pr_Attempts (derive_active x)) of
        None \<Rightarrow> ((e, m, c), Some LErrNotFound) | Some i \<Rightarrow> body (derive_active x) i (e, m, c)) = (w2, err2)"
  then show "refines h r (e, m, c) w2"
    using assms(1,2,4) by (cases "attempt_index attemptID (pr_Attempts (fst x))") (auto intro: refines_refl)
qed

lemma marshal_Inr: "marshal p = Inr bytes \<Longrightarrow> bytes = [p]"
  by (auto simp: marshal_def split: if_splits)

lemma apply_kind:
  "ev_Kind ev = eventKindRunCreated \<Longrightarrow> apply_event h ev = applyRunCreated ev"
  "ev_Kind ev = eventKindRunStatusChanged \<Longrightarrow> apply_event h ev = applyRunStatusChanged ev"
  "ev_Kind ev = eventKindAttemptStarted \<Longrightarrow> apply_event h ev = applyAttemptStarted h ev"
  "ev_Kind ev = eventKindAttemptPrompt \<Longrightarrow> apply_event h ev = applyAttemptPrompt ev"
  "ev_Kind ev = eventKindAttemptExecution \<Longrightarrow> apply_event h ev = applyAttemptExecution ev"
  "ev_Kind ev = eventKindAttemptHeartbeat \<Longrightarrow> apply_event h ev = applyAttemptHeartbeat ev"
  "ev_Kind ev = eventKindAttemptCompleted \<Longrightarrow> apply_event h ev = applyAttemptCompleted ev"
  "ev_Kind ev = eventKindPanelPhaseSet \<Longrightarrow> apply_event h ev = applyPanelPhase h ev"
  "ev_Kind ev = eventKindLoopIncremented \<Longrightarrow> apply_event h ev = applyLoopIncremented ev"
  "ev_Kind ev = eventKindApprovalCreated \<Longrightarrow> apply_event h ev = applyApprovalCreated ev"
  "ev_Kind ev = eventKindApprovalResolved \<Longrightarrow> apply_event h ev = applyApprovalResolved ev"
  "ev_Kind ev = eventKindDeliveryUpserted \<Longrightarrow> apply_event h ev = applyDeliveryUpserted ev"
  "ev_Kind ev = eventKindRunDeleted \<Longrightarrow> apply_event h ev = applyRunDeleted"
  "ev_Kind ev = eventKindRunResumed \<Longrightarrow> apply_event h ev = Inr"
  by (rule ext; simp add: apply_event_def event_kind_defs HasPrefix_def)+

lemma allowedI:
  "ev_RunID ev = r \<Longrightarrow> ev_Payload ev = [pl] \<Longrightarrow> ev_Kind ev = kind_of pl \<Longrightarrow> may h r p pl \<Longrightarrow>
     is_creation pl \<or> pr_HasRun p \<Longrightarrow> allowed h r p ev"
  by (simp add: allowed_def)

lemma not_creation [simp]:
  "\<not> is_creation (PRunStatusChanged a1)" "\<not> is_creation (PAttemptStarted a2)" "\<not> is_creation (PAttemptCompleted a3)"
  "\<not> is_creation (PAttemptPrompt a4)" "\<not> is_creation (PAttemptExecution a5)" "\<not> is_creation (PAttemptHeartbeat a6)"
  "\<not> is_creation (PLoopIncremented a7)" "\<not> is_creation (PApprovalCreated a8)" "\<not> is_creation (PApprovalResolved a9)"
  "\<not> is_creation (PDeliveryUpserted a10)" "\<not> is_creation (PRunDeleted a11)" "\<not> is_creation (PRunResumed a12)"
  "\<not> is_creation (PPanelPhase a13)" "is_creation (PRunCreated a14)"
  by (simp_all add: is_creation_def)

lemma active_of_idx [simp]:
  "active_of (st\<lparr>rb_attemptIdx := i1\<rparr>) = active_of st" "active_of (st\<lparr>rb_loopIdx := i2\<rparr>) = active_of st"
  "active_of (st\<lparr>rb_approvalIdx := i3\<rparr>) = active_of st" "active_of (st\<lparr>rb_deliveryIdx := i4\<rparr>) = active_of st"
  "active_of (st\<lparr>rb_attemptIdx := i1, rb_stepCandidates := cs @ [s]\<rparr>) = s"
  "active_of (st\<lparr>rb_stepCandidates := cs @ [s]\<rparr>) = s"
  by (simp_all add: active_of_def)

section \<open>Runs\<close>

lemma CreateRun_refines:
  assumes inv: "events_inv m" and sy: "synced h m c (wr_RunID snap) x"
    and run: "CreateRun_locked mem_ops h now holder snap json (e, m, c) = (w', err)"
  shows "refines h (wr_RunID snap) (e, m, c) w'"
proof (cases "pr_HasRun (fst x) \<or> wr_Status snap \<noteq> WfRunStatusPending")
  case True
  then have "w' = (e, m, c)"
    using run sy by (auto simp: CreateRun_locked_def synced_def view_def Let_def split: if_splits option.splits)
  then show ?thesis using refines_refl [OF inv sy] by simp
next
  case False
  let ?r = "wr_RunID snap"
  let ?run = "(if wr_StartedAt snap = 0 then snap\<lparr>wr_StartedAt := now\<rparr> else snap)\<lparr>wr_Version := 1\<rparr>"
  have x: "x = blank" and none: "live c ?r = None"
    using sy False by (auto simp: synced_def view_def)
  have em: "emit mem_ops h holder ?r eventKindRunCreated []
      (marshal (PRunCreated \<lparr>crp_Run = ?run, crp_SnapshotJSON = json, crp_CreatedAt = now\<rparr>))
      (drop_proj ?r) (e, m, put_proj ?r (zero_projection\<lparr>pr_Run := Some ?run, pr_SnapshotJSON := json,
         pr_HasRun := True, pr_ActiveStepID := wr_ActiveStepID ?run\<rparr>) c) = (w', err)"
    using run False none by (simp add: CreateRun_locked_def Let_def)
  show ?thesis
  proof (rule emit_refines [OF inv sy _ _ _ em])
    fix bytes and ev :: "wf_payload event"
    assume a: "marshal (PRunCreated \<lparr>crp_Run = ?run, crp_SnapshotJSON = json, crp_CreatedAt = now\<rparr>) = Inr bytes"
      "ev_Kind ev = eventKindRunCreated" "ev_RunID ev = ?r" "ev_Payload ev = bytes"
    have al: "allowed h ?r (derive_active x) ev"
      using a marshal_Inr [OF a(1)] False x by (intro allowedI) (auto simp: zero_projection_def)
    have "\<exists>y. apply_event h ev x = Inr y \<and> pr_HasRun (fst y) \<and>
      derive_active y = zero_projection\<lparr>pr_Run := Some ?run, pr_SnapshotJSON := json,
         pr_HasRun := True, pr_ActiveStepID := wr_ActiveStepID ?run\<rparr>"
      using a marshal_Inr [OF a(1)] x
      by (auto simp: apply_kind applyRunCreated_def Let_def derive_active_eq active_of_def zero_projection_def
          new_rebuildState_def)
    then show "allowed h ?r (derive_active x) ev \<and> (\<exists>y. apply_event h ev x = Inr y \<and> pr_HasRun (fst y) \<and>
        live (put_proj ?r (zero_projection\<lparr>pr_Run := Some ?run, pr_SnapshotJSON := json,
         pr_HasRun := True, pr_ActiveStepID := wr_ActiveStepID ?run\<rparr>) c) ?r = Some (derive_active y))"
      using al by (auto simp del: split_paired_Ex)
  qed simp_all
qed

lemma CompareAndSetRunStatus_refines:
  assumes inv: "events_inv m" and sy: "synced h m c r x"
    and run: "CompareAndSetRunStatus_locked mem_ops h now holder r v status fin0 (e, m, c) = (w', err)"
  shows "refines h r (e, m, c) w'"
proof (rule on_run_refines [OF inv sy run [unfolded CompareAndSetRunStatus_locked_def]], goal_cases)
  case (1 w2 err2)
  let ?fin = "if IsTerminalRunStatus status then (case fin0 of Some t \<Rightarrow> Some t | None \<Rightarrow> Some now) else None"
  note has = 1(1) and body = 1(3)
  obtain p st where x: "x = (p, st)" by (cases x)
  have "rok x" using sy by (rule synced_rok)
  then obtain orig where orig: "pr_Run p = Some orig" using has x by (auto simp: rok_def)
  show ?case
  proof (cases "wr_Version orig \<noteq> v \<or> \<not> ValidRunTransition (wr_Status orig) status")
    case True
    then show ?thesis using body orig x refines_refl [OF inv sy] by (auto split: if_splits)
  next
    case False
    let ?run = "orig\<lparr>wr_Status := status, wr_Version := wr_Version orig + 1, wr_FinishedAt := ?fin\<rparr>"
    let ?pl = "PRunStatusChanged \<lparr>scp_Status = status, scp_Version = wr_Version orig + 1,
      scp_FinishedAt = ?fin, scp_CreatedAt = now\<rparr>"
    have em: "emit mem_ops h holder r eventKindRunStatusChanged [FormatUint (wr_Version orig + 1)] (marshal ?pl)
        (upd_proj r (\<lambda>q. q\<lparr>pr_Run := Some orig\<rparr>))
        (e, m, put_proj r ((derive_active x)\<lparr>pr_Run := Some ?run\<rparr>) c) = (w2, err2)"
      using body False orig x by (simp add: Let_def)
    show ?thesis
    proof (rule emit_refines [OF inv sy _ _ _ em])
      fix bytes and ev :: "wf_payload event"
      assume a: "marshal ?pl = Inr bytes" "ev_Kind ev = eventKindRunStatusChanged" "ev_RunID ev = r"
        "ev_Payload ev = bytes"
      have "allowed h r (derive_active x) ev"
        using a marshal_Inr [OF a(1)] False orig x has by (intro allowedI) (auto split: option.splits)
      then show "allowed h r (derive_active x) ev \<and> (\<exists>y. apply_event h ev x = Inr y \<and> pr_HasRun (fst y) \<and>
          live (put_proj r ((derive_active x)\<lparr>pr_Run := Some ?run\<rparr>) c) r = Some (derive_active y))"
        using a marshal_Inr [OF a(1)] orig x has
        by (auto simp: apply_kind applyRunStatusChanged_def derive_active_eq)
    qed simp_all
  qed
qed

lemma RecordRunResumed_refines:
  assumes inv: "events_inv m" and sy: "synced h m c r x"
    and run: "RecordRunResumed_locked mem_ops h holder r (e, m, c) = (w', err)"
  shows "refines h r (e, m, c) w'"
proof (rule on_run_refines [OF inv sy run [unfolded RecordRunResumed_locked_def]], goal_cases)
  case (1 w2 err2)
  note has = 1(1) and lv = 1(2) and body = 1(3)
  obtain p st where x: "x = (p, st)" by (cases x)
  have "rok x" using sy by (rule synced_rok)
  then obtain orig where orig: "pr_Run p = Some orig" using has x by (auto simp: rok_def)
  have em: "emit mem_ops h holder r eventKindRunResumed [] (marshal (PRunResumed \<lparr>rrp_RunID = r\<rparr>)) id (e, m, c) = (w2, err2)"
    using body orig x by simp
  show ?case
  proof (rule emit_refines [OF inv sy _ _ _ em], goal_cases)
    case (3 bytes ev)
    have "allowed h r (derive_active x) ev"
      using 3 marshal_Inr [OF 3(1)] has by (intro allowedI) auto
    then show ?case using 3 x has lv by (simp add: apply_kind)
  qed simp_all
qed

section \<open>Loop counters\<close>

lemma next_iteration_absent:
  "find_index (\<lambda>lc. lc_RunID lc = r \<and> lc_LoopName lc = n) ls = None \<Longrightarrow> next_iteration r n ls k = k"
  by (induction ls) (auto split: if_splits)

lemma next_iteration_present:
  assumes "distinct (map (\<lambda>l. (lc_RunID l, lc_LoopName l)) ls)"
    "find_index (\<lambda>lc. lc_RunID lc = r \<and> lc_LoopName lc = n) ls = Some i"
  shows "next_iteration r n ls k = max k (lc_Iterations (ls ! i) + 1)"
  using assms
proof (induction ls arbitrary: i)
  case (Cons l ls)
  show ?case
  proof (cases "lc_RunID l = r \<and> lc_LoopName l = n")
    case True
    then have "find_index (\<lambda>lc. lc_RunID lc = r \<and> lc_LoopName lc = n) ls = None"
      using Cons.prems(1) by (auto simp: find_index_None image_iff)
    then show ?thesis using True Cons.prems(2) by (auto simp: next_iteration_absent max_def)
  next
    case False
    then show ?thesis using Cons by auto
  qed
qed simp

lemma IncrementLoopCounter_refines:
  assumes inv: "events_inv m" and sy: "synced h m c r x"
    and run: "IncrementLoopCounter_locked mem_ops h now holder r n (e, m, c) = (w', k, err)"
  shows "refines h r (e, m, c) w'"
proof (cases "live c r")
  case None
  then show ?thesis using run refines_refl [OF inv sy] by (auto simp: IncrementLoopCounter_locked_def)
next
  case (Some p0)
  obtain p st where x: "x = (p, st)" by (cases x)
  have p0: "p0 = derive_active x" "pr_HasRun p" using synced_live [OF sy Some] x by auto
  let ?P = "\<lambda>lc. lc_RunID lc = r \<and> lc_LoopName lc = n"
  let ?next = "next_iteration r n (pr_LoopCounters p) 1"
  let ?new = "\<lparr>lc_RunID = r, lc_LoopName = n, lc_Iterations = ?next\<rparr>"
  let ?cs = "set_counter r n ?next (pr_LoopCounters p)"
  let ?pl = "PLoopIncremented \<lparr>lip_LoopName = n, lip_Iterations = ?next, lip_CreatedAt = now\<rparr>"
  have ix: "idx_ok (\<lambda>l. (lc_RunID l, lc_LoopName l)) (pr_LoopCounters p) (rb_loopIdx st)"
    using synced_rok [OF sy] x by (simp add: rok_def)
  have look: "rb_loopIdx st (r, n) = find_index ?P (pr_LoopCounters p)"
    using idx_ok_lookup [OF ix, of "(r, n)"] by simp
  obtain err2 where em: "emit mem_ops h holder r eventKindLoopIncremented [n, Itoa ?next] (marshal ?pl)
      (upd_proj r (\<lambda>q. q\<lparr>pr_LoopCounters := pr_LoopCounters p\<rparr>))
      (e, m, put_proj r ((derive_active x)\<lparr>pr_LoopCounters := ?cs\<rparr>) c) = (w', err2)"
    using run Some p0 x by (auto simp: IncrementLoopCounter_locked_def Let_def split: prod.splits)
  show ?thesis
  proof (rule emit_refines [OF inv sy _ _ _ em], goal_cases)
    case (3 bytes ev)
    have "may h r (derive_active x) ?pl"
      using next_iteration_absent [of r n "pr_LoopCounters p" 1] next_iteration_present [of "pr_LoopCounters p" r n _ 1]
        ix x by (auto simp: idx_ok_def split: option.splits)
    then have al: "allowed h r (derive_active x) ev"
      using 3 marshal_Inr [OF 3(1)] p0 x by (intro allowedI) auto
    have same: "(pr_LoopCounters p ! i)\<lparr>lc_Iterations := ?next\<rparr> = ?new" if "find_index ?P (pr_LoopCounters p) = Some i" for i
      using find_index_hit [OF that] by (cases "pr_LoopCounters p ! i") simp
    show ?case
      using al 3 marshal_Inr [OF 3(1)] x p0 look same
      by (auto simp: apply_kind applyLoopIncremented_def derive_active_eq upsert_def set_counter_def split: option.splits)
  qed simp_all
qed

section \<open>Attempts\<close>

lemma attempt_lookup:
  "rok (p, st) \<Longrightarrow> rb_attemptIdx st a = attempt_index a (pr_Attempts p)"
  by (simp add: rok_def idx_ok_lookup attempt_index_def)

lemma not_taken_index:
  "\<not> taken_attempt a as \<Longrightarrow> attempt_index (at_AttemptID a) as = None"
  by (auto simp: taken_attempt_def attempt_index_def find_index_None list_ex_iff)

lemma CreateStepAttempt_refines:
  assumes inv: "events_inv m" and sy: "synced h m c (at_RunID a) x"
    and panel: "validateInitial h (at_RunID a) (at_AttemptID a) (at_PanelExecution a) = None"
    and run: "CreateStepAttempt_locked mem_ops h now holder a (e, m, c) = (w', err)"
  shows "refines h (at_RunID a) (e, m, c) w'"
proof (rule on_run_refines [OF inv sy run [unfolded CreateStepAttempt_locked_def]], goal_cases)
  case (1 w2 err2)
  note has = 1(1) and body = 1(3)
  let ?r = "at_RunID a"
  obtain p st where x: "x = (p, st)" by (cases x)
  have rok: "rok (p, st)" using synced_rok [OF sy] x by simp
  show ?case
  proof (cases "taken_attempt a (pr_Attempts p)")
    case True
    then show ?thesis using body x refines_refl [OF inv sy] by auto
  next
    case False
    let ?rec = "a\<lparr>at_Status := AttemptStatusRunning, at_Version := 1, at_StartedAt := now,
      at_Executions := fresh_executions now a\<rparr>"
    let ?pl = "PAttemptStarted \<lparr>asp_Attempt = ?rec, asp_CreatedAt = now\<rparr>"
    let ?p1 = "(derive_active x)\<lparr>pr_Attempts := pr_Attempts p @ [?rec],
      pr_ActiveStepID := (if at_StepID a \<noteq> [] then at_StepID a else active_of st)\<rparr>"
    have em: "emit mem_ops h holder ?r eventKindAttemptStarted [at_StepID a, Itoa (at_AttemptNo a)] (marshal ?pl)
        (removeAttemptRollback ?r (at_AttemptID a) (active_of st)) (e, m, put_proj ?r ?p1 c) = (w2, err2)"
      using body False x by (simp add: Let_def)
    show ?thesis
    proof (rule emit_refines [OF inv sy _ _ _ em], goal_cases)
      case (3 bytes ev)
      have "taken_attempt ?rec (pr_Attempts p) = taken_attempt a (pr_Attempts p)"
        by (simp add: taken_attempt_def)
      then have al: "allowed h ?r (derive_active x) ev"
        using 3 marshal_Inr [OF 3(1)] False x has by (intro allowedI) auto
      have "rb_attemptIdx st (at_AttemptID a) = None"
        using attempt_lookup [OF rok] not_taken_index [OF False] by simp
      then show ?case
        using al 3 marshal_Inr [OF 3(1)] x has panel
        by (auto simp: apply_kind applyAttemptStarted_def derive_active_eq upsert_def Let_def)
    qed (simp_all add: removeAttemptRollback_def)
  qed
qed

text \<open>
  An attempt recorded with its outcome in one event: the event does not carry executions,
  prompt reference, panel or heartbeat, so they must be absent.
\<close>

definition clean_attempt :: "StepAttempt \<Rightarrow> bool" where
  "clean_attempt a \<longleftrightarrow> at_Executions a = [] \<and> at_PromptRef a = [] \<and> at_PanelExecution a = None \<and>
     at_LastHeartbeatAt a = 0 \<and> 0 \<le> at_AttemptNo a"

lemma record_replayed:
  assumes "clean_attempt a"
  shows "complete_attempt (completed_payload (at_AttemptID a) 1 (at_StepID a) (at_AttemptNo a) now
       (oc_CoordinatorRunID oc) (oc_TaskID oc) oc now) (new_attempt (at_AttemptID a) (at_RunID a)) =
     set_outcome oc (oc_CoordinatorRunID oc) (oc_TaskID oc) now (a\<lparr>at_Version := 1, at_StartedAt := now\<rparr>)"
  using assms
  by (cases a) (auto simp: clean_attempt_def complete_attempt_def completed_payload_def new_attempt_def
      set_outcome_def Let_def)

lemma check_outcome_None:
  assumes "check_outcome status oc = None"
  shows "IsTerminalAttemptStatus (oc_Status oc)" "ValidAttemptTransition status (oc_Status oc)"
    "oc_ToStepID oc \<noteq> [] \<Longrightarrow> oc_Status oc \<notin> unrouted"
  using assms by (auto simp: check_outcome_def outcomeHasRoute_def unrouted_def split: if_splits)

lemma add_route_fields [simp]:
  "pr_Attempts (add_route r a oc now p) = pr_Attempts p" "pr_HasRun (add_route r a oc now p) = pr_HasRun p"
  by (simp_all add: add_route_def)

lemma RecordStepAttemptOutcome_refines:
  assumes inv: "events_inv m" and sy: "synced h m c (at_RunID a) x" and clean: "clean_attempt a"
    and run: "RecordStepAttemptOutcome_locked mem_ops h now holder a oc (e, m, c) = (w', err)"
  shows "refines h (at_RunID a) (e, m, c) w'"
proof (rule on_run_refines [OF inv sy run [unfolded RecordStepAttemptOutcome_locked_def]], goal_cases)
  case (1 w2 err2)
  note has = 1(1) and body = 1(3)
  let ?r = "at_RunID a"
  obtain p st where x: "x = (p, st)" by (cases x)
  have rok: "rok (p, st)" using synced_rok [OF sy] x by simp
  show ?case
  proof (cases "validateRecordOutcomeLocked (derive_active x) a oc")
    case (Some verr)
    then show ?thesis using body refines_refl [OF inv sy] by auto
  next
    case None
    then have fresh: "\<not> taken_attempt a (pr_Attempts p)" and oc: "check_outcome AttemptStatusRunning oc = None"
      using x by (auto simp: validateRecordOutcomeLocked_def split: if_splits)
    let ?rec = "set_outcome oc (oc_CoordinatorRunID oc) (oc_TaskID oc) now (a\<lparr>at_Version := 1, at_StartedAt := now\<rparr>)"
    let ?q = "completed_payload (at_AttemptID a) 1 (at_StepID a) (at_AttemptNo a) now
       (oc_CoordinatorRunID oc) (oc_TaskID oc) oc now"
    let ?p1 = "add_route ?r (at_AttemptID a) oc now ((derive_active x)\<lparr>pr_Attempts := pr_Attempts p @ [?rec]\<rparr>)"
    have v: "at_Version ?rec = 1" by (simp add: set_outcome_def)
    define rollback where "rollback = snd (snd (applyRecordOutcomeLocked (derive_active x) a oc now))"
    have em: "emit mem_ops h holder ?r eventKindAttemptCompleted [at_StepID a, Itoa (at_AttemptNo a)]
        (marshal (PAttemptCompleted ?q)) rollback (e, m, put_proj ?r ?p1 c) = (w2, err2)"
      using body None v x by (simp add: applyRecordOutcomeLocked_def rollback_def Let_def)
    show ?thesis
    proof (rule emit_refines [OF inv sy _ _ _ em], goal_cases)
      case (3 bytes ev)
      have ix: "attempt_index (at_AttemptID a) (pr_Attempts p) = None" by (rule not_taken_index [OF fresh])
      have al: "allowed h ?r (derive_active x) ev"
        using 3 marshal_Inr [OF 3(1)] fresh x has ix check_outcome_None [OF oc] clean
        by (intro allowedI) (auto simp: completed_payload_def taken_attempt_def list_ex_iff clean_attempt_def)
      have "rb_attemptIdx st (at_AttemptID a) = None" using attempt_lookup [OF rok] ix by simp
      then have "apply_event h ev x = Inr
          (p\<lparr>pr_Attempts := pr_Attempts p @ [?rec],
             pr_Transitions := pr_Transitions p @ (if oc_ToStepID oc \<noteq> [] then
               [\<lparr>tr_RunID = ?r, tr_FromAttemptID = at_AttemptID a, tr_ToStepID = oc_ToStepID oc,
                 tr_TransitionIndex = oc_TransitionIndex oc, tr_MatchDigest = oc_MatchDigest oc,
                 tr_DecisionJSON = oc_DecisionJSON oc, tr_CreatedAt = now\<rparr>] else [])\<rparr>,
           (if oc_ToStepID oc \<noteq> []
            then st\<lparr>rb_attemptIdx := (rb_attemptIdx st)(at_AttemptID a \<mapsto> length (pr_Attempts p)),
                 rb_stepCandidates := rb_stepCandidates st @ [oc_ToStepID oc]\<rparr>
            else st\<lparr>rb_attemptIdx := (rb_attemptIdx st)(at_AttemptID a \<mapsto> length (pr_Attempts p))\<rparr>))"
        using 3 marshal_Inr [OF 3(1)] x record_replayed [OF clean, of now oc]
        by (auto simp: apply_kind applyAttemptCompleted_def completed_payload_def nth_append Let_def)
      then show ?case
        using al has x by (auto simp: derive_active_eq add_route_def)
    next
      case 2
      then show ?case by (simp add: rollback_def applyRecordOutcomeLocked_def Let_def)
    qed simp
  qed
qed

lemma set_attempt_at_eq: "set_attempt_at i a p = p\<lparr>pr_Attempts := (pr_Attempts p)[i := a]\<rparr>"
  by (simp add: set_attempt_at_def)

lemma completion_replayed:
  assumes "at_Version a + 1 \<noteq> 0"
  shows "complete_attempt (completed_payload attemptID (at_Version a + 1) [] 0 0 cr ti oc now) a =
    (set_outcome oc cr ti now a)\<lparr>at_Version := at_Version a + 1\<rparr>"
  using assms
  by (simp add: complete_attempt_def completed_payload_def set_outcome_def Let_def word_greater_zero_iff)

lemma CompleteStepAttempt_refines:
  assumes inv: "events_inv m" and sy: "synced h m c r x" and v: "v + 1 \<noteq> 0"
    and run: "CompleteStepAttempt_locked mem_ops h now holder r attemptID v oc (e, m, c) = (w', err)"
  shows "refines h r (e, m, c) w'"
proof (rule on_attempt_refines [OF inv sy run [unfolded CompleteStepAttempt_locked_def]], goal_cases)
  case (1 i w2 err2)
  note has = 1(1) and ix = 1(3) and body = 1(4)
  obtain p st where x: "x = (p, st)" by (cases x)
  have rok: "rok (p, st)" using synced_rok [OF sy] x by simp
  let ?cur = "pr_Attempts p ! i"
  show ?case
  proof (cases "at_Version ?cur \<noteq> v \<or> check_outcome (at_Status ?cur) oc \<noteq> None")
    case True
    then show ?thesis using body x refines_refl [OF inv sy] by (auto simp: Let_def split: if_splits)
  next
    case False
    let ?cr = "if oc_CoordinatorRunID oc = [] then at_CoordinatorRunID ?cur else oc_CoordinatorRunID oc"
    let ?ti = "if oc_TaskID oc = [] then at_TaskID ?cur else oc_TaskID oc"
    let ?cur1 = "(set_outcome oc ?cr ?ti now ?cur)\<lparr>at_Version := at_Version ?cur + 1\<rparr>"
    let ?q = "completed_payload attemptID (at_Version ?cur + 1) [] 0 0 ?cr ?ti oc now"
    let ?p1 = "add_route r attemptID oc now (set_attempt_at i ?cur1 (derive_active x))"
    define rollback where "rollback = snd (snd (applyAttemptCompletionLocked (derive_active x) i oc now r attemptID))"
    have em: "emit mem_ops h holder r eventKindAttemptCompleted [at_StepID ?cur, Itoa (at_AttemptNo ?cur)]
        (marshal (PAttemptCompleted ?q)) rollback (e, m, put_proj r ?p1 c) = (w2, err2)"
      using body False x by (simp add: applyAttemptCompletionLocked_def rollback_def Let_def)
    show ?thesis
    proof (rule emit_refines [OF inv sy _ _ _ em], goal_cases)
      case (3 bytes ev)
      have oc: "check_outcome (at_Status ?cur) oc = None" and ne: "at_Version ?cur + 1 \<noteq> 0" using False v by auto
      have al: "allowed h r (derive_active x) ev"
        using 3 marshal_Inr [OF 3(1)] x has ix check_outcome_None [OF oc] ne
        by (intro allowedI) (auto simp: completed_payload_def)
      have "rb_attemptIdx st attemptID = Some i" using attempt_lookup [OF rok] ix x by simp
      then have "apply_event h ev x = Inr
          (p\<lparr>pr_Attempts := (pr_Attempts p)[i := ?cur1],
             pr_Transitions := pr_Transitions p @ (if oc_ToStepID oc \<noteq> [] then
               [\<lparr>tr_RunID = r, tr_FromAttemptID = attemptID, tr_ToStepID = oc_ToStepID oc,
                 tr_TransitionIndex = oc_TransitionIndex oc, tr_MatchDigest = oc_MatchDigest oc,
                 tr_DecisionJSON = oc_DecisionJSON oc, tr_CreatedAt = now\<rparr>] else [])\<rparr>,
           (if oc_ToStepID oc \<noteq> []
            then st\<lparr>rb_stepCandidates := rb_stepCandidates st @ [oc_ToStepID oc]\<rparr> else st))"
        using 3 marshal_Inr [OF 3(1)] x completion_replayed [OF ne, of attemptID ?cr ?ti oc now]
        by (auto simp: apply_kind applyAttemptCompleted_def Let_def completed_payload_def)
      then show ?case
        using al has x by (auto simp: derive_active_eq add_route_def set_attempt_at_def)
    next
      case 2
      then show ?case by (simp add: rollback_def applyAttemptCompletionLocked_def Let_def)
    qed simp
  qed
qed

text \<open>Operations that rewrite the one attempt they found, without a step candidate.\<close>

lemma set_attempt_live:
  "pr_HasRun p \<Longrightarrow> live (put_proj r (set_attempt_at i a (derive_active (p, st))) c) r =
     Some (derive_active (p\<lparr>pr_Attempts := (pr_Attempts p)[i := a]\<rparr>, st))"
  by (simp add: derive_active_eq set_attempt_at_def)

lemma SetStepAttemptPrompt_refines:
  assumes inv: "events_inv m" and sy: "synced h m c r x" and ne: "ref \<noteq> []"
    and run: "SetStepAttemptPrompt_locked mem_ops h now clock holder r attemptID ref (e, m, c) = (w', err)"
  shows "refines h r (e, m, c) w'"
proof (rule on_attempt_refines [OF inv sy run [unfolded SetStepAttemptPrompt_locked_def]], goal_cases)
  case (1 i w2 err2)
  note has = 1(1) and ix = 1(3) and body = 1(4)
  obtain p st where x: "x = (p, st)" by (cases x)
  let ?cur = "pr_Attempts p ! i"
  show ?case
  proof (cases "at_PromptRef ?cur = []")
    case False
    then show ?thesis using body x refines_refl [OF inv sy] by (auto simp: Let_def split: if_splits)
  next
    case True
    let ?pl = "\<lparr>app_AttemptID = attemptID, app_PromptRef = ref, app_CreatedAt = now\<rparr>"
    have em: "emit mem_ops h holder r eventKindAttemptPrompt [at_StepID ?cur, Itoa (at_AttemptNo ?cur)]
        (marshalAttemptPrompt clock ?pl)
        (upd_proj r (\<lambda>q. if i < length (pr_Attempts q)
              then set_attempt_at i ((pr_Attempts q ! i)\<lparr>at_PromptRef := at_PromptRef ?cur\<rparr>) q else q))
        (e, m, put_proj r (set_attempt_at i (?cur\<lparr>at_PromptRef := ref\<rparr>) (derive_active x)) c) = (w2, err2)"
      using body True x by (simp add: Let_def)
    show ?thesis
    proof (rule emit_refines [OF inv sy _ _ _ em], goal_cases)
      case (3 bytes ev)
      obtain q where q: "bytes = [PAttemptPrompt q]" "app_AttemptID q = attemptID" "app_PromptRef q = ref"
        using 3(1) by (auto simp: marshalAttemptPrompt_def dest!: marshal_Inr split: if_splits)
      have "allowed h r (derive_active x) ev"
        using 3 q x has ix ne True by (intro allowedI) (auto simp: on_index_def)
      then show ?case
        using 3 q x has ix
        by (auto simp: apply_kind applyAttemptPrompt_def set_attempt_live simp del: live_put)
    qed simp_all
  qed
qed

lemma SetStepAttemptExecution_refines:
  assumes inv: "events_inv m" and sy: "synced h m c r x"
    and run: "SetStepAttemptExecution_locked mem_ops h now holder r attemptID cr ti reason (e, m, c) = (w', err)"
  shows "refines h r (e, m, c) w'"
proof (rule on_attempt_refines [OF inv sy run [unfolded SetStepAttemptExecution_locked_def]], goal_cases)
  case (1 i w2 err2)
  note has = 1(1) and ix = 1(3) and body = 1(4)
  obtain p st where x: "x = (p, st)" by (cases x)
  let ?prev = "pr_Attempts p ! i"
  show ?case
  proof (cases "if at_Executions ?prev \<noteq> []
      then se_CoordinatorRunID (last (at_Executions ?prev)) = cr \<and> se_TaskID (last (at_Executions ?prev)) = ti
      else at_CoordinatorRunID ?prev = cr \<and> at_TaskID ?prev = ti")
    case True
    then show ?thesis using body x refines_refl [OF inv sy] by (auto simp: Let_def split: if_splits)
  next
    case False
    let ?xs = "seed_executions ?prev"
    let ?n = "int (length ?xs) + 1"
    let ?x = "\<lparr>se_ExecutionNo = ?n, se_CoordinatorRunID = cr, se_TaskID = ti, se_StartedAt = now\<rparr>"
    let ?cur = "?prev\<lparr>at_Executions := ?xs @ [?x], at_CoordinatorRunID := cr, at_TaskID := ti\<rparr>"
    let ?pl = "PAttemptExecution \<lparr>aep_AttemptID = attemptID, aep_ExecutionNo = ?n, aep_CoordinatorRunID = cr,
      aep_TaskID = ti, aep_Reason = reason, aep_CreatedAt = now\<rparr>"
    have em: "emit mem_ops h holder r eventKindAttemptExecution [attemptID, Itoa ?n, cr, ti] (marshal ?pl)
        (upd_proj r (set_attempt_at i ?prev))
        (e, m, put_proj r (set_attempt_at i ?cur (derive_active x)) c) = (w2, err2)"
      using body False x by (simp add: Let_def)
    show ?thesis
    proof (rule emit_refines [OF inv sy _ _ _ em], goal_cases)
      case (3 bytes ev)
      have "allowed h r (derive_active x) ev"
        using 3 marshal_Inr [OF 3(1)] x has ix by (intro allowedI) (auto simp: on_index_def)
      then show ?case
        using 3 marshal_Inr [OF 3(1)] x has ix
        by (auto simp: apply_kind applyAttemptExecution_def set_attempt_live Let_def simp del: live_put)
    qed simp_all
  qed
qed

lemma SetStepAttemptHeartbeat_refines:
  assumes inv: "events_inv m" and sy: "synced h m c r x"
    and run: "SetStepAttemptHeartbeat_locked mem_ops h holder r attemptID t (e, m, c) = (w', err)"
  shows "refines h r (e, m, c) w'"
proof (rule on_attempt_refines [OF inv sy run [unfolded SetStepAttemptHeartbeat_locked_def]], goal_cases)
  case (1 i w2 err2)
  note has = 1(1) and ix = 1(3) and body = 1(4)
  obtain p st where x: "x = (p, st)" by (cases x)
  let ?cur = "pr_Attempts p ! i"
  let ?new = "at_LastHeartbeatAt ?cur = 0 \<or> \<not> t < at_LastHeartbeatAt ?cur"
  show ?case
  proof (cases "IsTerminalAttemptStatus (at_Status ?cur)")
    case True
    then show ?thesis using body x refines_refl [OF inv sy] by (auto simp: Let_def)
  next
    case False
    let ?pl = "\<lparr>ahp_AttemptID = attemptID, ahp_HeartbeatAt = t, ahp_CreatedAt = t\<rparr>"
    let ?p1 = "if ?new then set_attempt_at i (?cur\<lparr>at_LastHeartbeatAt := t\<rparr>) (derive_active x) else derive_active x"
    have em: "emit mem_ops h holder r eventKindAttemptHeartbeat [attemptID, format_utc t] (marshalAttemptHeartbeat ?pl)
        (upd_proj r (\<lambda>q. if i < length (pr_Attempts q)
           then set_attempt_at i ((pr_Attempts q ! i)\<lparr>at_LastHeartbeatAt := at_LastHeartbeatAt ?cur\<rparr>) q else q))
        (e, m, put_proj r ?p1 c) = (w2, err2)"
      using body False x by (simp add: Let_def)
    show ?thesis
    proof (rule emit_refines [OF inv sy _ _ _ em], goal_cases)
      case (3 bytes ev)
      obtain q where q: "bytes = [PAttemptHeartbeat q]" "ahp_AttemptID q = attemptID" "ahp_HeartbeatAt q = t"
        using 3(1) by (auto simp: marshalAttemptHeartbeat_def dest!: marshal_Inr split: if_splits)
      have al: "allowed h r (derive_active x) ev"
        using 3 q x has ix False by (intro allowedI) (auto simp: on_index_def)
      show ?case
      proof (cases ?new)
        case True
        then show ?thesis
          using al 3 q x has ix
          by (auto simp: apply_kind applyAttemptHeartbeat_def set_attempt_live Let_def simp del: live_put)
      next
        case False
        then show ?thesis
          using al 3 q x has ix by (auto simp: apply_kind applyAttemptHeartbeat_def Let_def)
      qed
    qed simp_all
  qed
qed

end
