(* ===== verification/Wf_Ops_Records.thy ===== *)
theory Wf_Ops_Records
  imports Wf_Ops
begin

text \<open>
  Refinement lemmas of the approval, delivery, panel and deletion operations of the
  workflow repository.
\<close>

section \<open>Approvals\<close>

lemma approval_lookup:
  "rok (p, st) \<Longrightarrow> rb_approvalIdx st a = approval_index a (pr_Approvals p)"
  by (simp add: rok_def idx_ok_lookup approval_index_def)

lemma CreateApproval_refines:
  assumes inv: "events_inv m" and sy: "synced h m c (ap_RunID a) x"
    and run: "CreateApproval_locked mem_ops h now holder a (e, m, c) = (w', err)"
  shows "refines h (ap_RunID a) (e, m, c) w'"
proof (rule on_run_refines [OF inv sy run [unfolded CreateApproval_locked_def]], goal_cases)
  case (1 w2 err2)
  note has = 1(1) and body = 1(3)
  let ?r = "ap_RunID a"
  obtain p st where x: "x = (p, st)" by (cases x)
  have rok: "rok (p, st)" using synced_rok [OF sy] x by simp
  show ?case
  proof (cases "list_ex (\<lambda>y. ap_ApprovalID y = ap_ApprovalID a) (pr_Approvals p)")
    case True
    then show ?thesis using body x refines_refl [OF inv sy] by auto
  next
    case False
    let ?rec = "if ap_CreatedAt a = 0 then a\<lparr>ap_CreatedAt := now\<rparr> else a"
    let ?pl = "PApprovalCreated \<lparr>pcp_Approval = ?rec, pcp_CreatedAt = now\<rparr>"
    have em: "emit mem_ops h holder ?r eventKindApprovalCreated [ap_ApprovalID a] (marshal ?pl)
        (removeApprovalRollback ?r (ap_ApprovalID a))
        (e, m, put_proj ?r ((derive_active x)\<lparr>pr_Approvals := pr_Approvals p @ [?rec]\<rparr>) c) = (w2, err2)"
      using body False x by (simp add: Let_def)
    have ix: "approval_index (ap_ApprovalID a) (pr_Approvals p) = None"
      using False by (auto simp: approval_index_def find_index_None list_ex_iff)
    have rec: "ap_ApprovalID ?rec = ap_ApprovalID a" "ap_RunID ?rec = ?r" by simp_all
    show ?thesis
    proof (rule emit_refines [OF inv sy _ _ _ em], goal_cases)
      case (3 bytes ev)
      have al: "allowed h ?r (derive_active x) ev"
        using 3 marshal_Inr [OF 3(1)] x has ix rec by (intro allowedI) auto
      have "rb_approvalIdx st (ap_ApprovalID ?rec) = None" using approval_lookup [OF rok] ix rec by simp
      then have "apply_event h ev x = Inr (p\<lparr>pr_Approvals := pr_Approvals p @ [?rec]\<rparr>,
          st\<lparr>rb_approvalIdx := (rb_approvalIdx st)(ap_ApprovalID ?rec \<mapsto> length (pr_Approvals p))\<rparr>)"
        using 3 marshal_Inr [OF 3(1)] x by (simp add: apply_kind applyApprovalCreated_def upsert_def Let_def del: fun_upd_apply)
      then show ?case using al x has by (simp add: derive_active_eq)
    qed (simp_all add: removeApprovalRollback_def)
  qed
qed

lemma ResolveApproval_refines:
  assumes inv: "events_inv m" and sy: "synced h m c r x"
    and run: "ResolveApproval_locked mem_ops h now holder r approvalID actor status reason (e, m, c) = (w', err)"
  shows "refines h r (e, m, c) w'"
proof (rule on_run_refines [OF inv sy run [unfolded ResolveApproval_locked_def]], goal_cases)
  case (1 w2 err2)
  note has = 1(1) and body = 1(3)
  obtain p st where x: "x = (p, st)" by (cases x)
  have rok: "rok (p, st)" using synced_rok [OF sy] x by simp
  show ?case
  proof (cases "approval_index approvalID (pr_Approvals p)")
    case None
    then show ?thesis using body x refines_refl [OF inv sy] by auto
  next
    case (Some i)
    let ?cur = "pr_Approvals p ! i"
    show ?thesis
    proof (cases "ap_Status ?cur \<noteq> ''pending'' \<or> (status \<noteq> ''approved'' \<and> status \<noteq> ''rejected'')")
      case True
      then show ?thesis using body x Some refines_refl [OF inv sy] by (auto simp: Let_def split: if_splits)
    next
      case False
      let ?cur1 = "?cur\<lparr>ap_Status := status, ap_Actor := actor, ap_Reason := reason, ap_ResolvedAt := Some now\<rparr>"
      let ?pl = "PApprovalResolved \<lparr>prp_ApprovalID = approvalID, prp_Status = status, prp_Actor = actor,
         prp_Reason = reason, prp_ResolvedAt = now, prp_CreatedAt = now\<rparr>"
      have em: "emit mem_ops h holder r eventKindApprovalResolved [approvalID] (marshal ?pl)
          (upd_proj r (\<lambda>q. if i < length (pr_Approvals q) then q\<lparr>pr_Approvals := (pr_Approvals q)[i := ?cur]\<rparr> else q))
          (e, m, put_proj r ((derive_active x)\<lparr>pr_Approvals := (pr_Approvals p)[i := ?cur1]\<rparr>) c) = (w2, err2)"
        using body False x Some by (auto simp: Let_def)
      show ?thesis
      proof (rule emit_refines [OF inv sy _ _ _ em], goal_cases)
        case (3 bytes ev)
        have "allowed h r (derive_active x) ev"
          using 3 marshal_Inr [OF 3(1)] x has Some False by (intro allowedI) (auto simp: on_index_def)
        then show ?case
          using 3 marshal_Inr [OF 3(1)] x has Some approval_lookup [OF rok, of approvalID]
          by (auto simp: apply_kind applyApprovalResolved_def derive_active_eq Let_def)
      qed simp_all
    qed
  qed
qed

section \<open>Deliveries\<close>

lemma delivery_lookup:
  "rok (p, st) \<Longrightarrow> rb_deliveryIdx st k = delivery_index k (pr_Deliveries p)"
  by (simp add: rok_def idx_ok_lookup delivery_index_def)

lemma refines_seqs: "refines h r w (e, m, c\<lparr>wc_deliverySeqs := s\<rparr>) = refines h r w (e, m, c)"
  by (cases w) (simp add: refines_def synced_def)

lemma upsertDeliveryOnce_refines:
  assumes inv: "events_inv m" and sy: "synced h m c (dl_RunID d) x"
    and run: "upsertDeliveryOnce mem_ops h now holder d (e, m, c) = (w', retry, err)"
  shows "refines h (dl_RunID d) (e, m, c) w'"
proof (cases "live c (dl_RunID d)")
  case None
  then show ?thesis using run refines_refl [OF inv sy] by (auto simp: upsertDeliveryOnce_def)
next
  case (Some p0)
  let ?r = "dl_RunID d"
  obtain p st where x: "x = (p, st)" by (cases x)
  have p0: "p0 = derive_active x" "pr_HasRun p" using synced_live [OF sy Some] x by auto
  have rok: "rok (p, st)" using synced_rok [OF sy] x by simp
  show ?thesis
  proof (cases "repeated_delivery d (pr_Deliveries p)")
    case True
    then show ?thesis using run Some p0 x refines_refl [OF inv sy] by (auto simp: upsertDeliveryOnce_def Let_def)
  next
    case False
    obtain p1 payload rollback ordinal where ap:
      "applyDeliveryUpsertLocked c (derive_active x) d now = (p1, payload, rollback, ordinal)"
      by (cases "applyDeliveryUpsertLocked c (derive_active x) d now") auto
    let ?rec = "d\<lparr>dl_UpdatedAt := now\<rparr>"
    have parts: "payload = marshal (PDeliveryUpserted \<lparr>dup_Delivery = ?rec, dup_CreatedAt = now\<rparr>)"
      "rollback = upd_proj ?r (\<lambda>q. q\<lparr>pr_Deliveries := pr_Deliveries p\<rparr>)"
      "p1 = (derive_active x)\<lparr>pr_Deliveries := put_delivery ?rec (pr_Deliveries p)\<rparr>"
      using ap x by (auto simp: applyDeliveryUpsertLocked_def Let_def)
    have step: "refines h ?r (e, m, c) w2"
      if em: "emit mem_ops h holder ?r eventKindDeliveryUpserted parts payload rollback (e, m, put_proj ?r p1 c) = (w2, err2)"
      for parts w2 err2
    proof (rule emit_refines [OF inv sy _ _ _ em], goal_cases)
      case (3 bytes ev)
      have bytes: "bytes = [PDeliveryUpserted \<lparr>dup_Delivery = ?rec, dup_CreatedAt = now\<rparr>]"
        using 3(1) parts(1) by (auto dest: marshal_Inr)
      have "allowed h ?r (derive_active x) ev"
        using 3 bytes p0 x by (intro allowedI) auto
      then show ?case
        using 3 bytes p0 parts x delivery_lookup [OF rok, of "dl_IdempotencyKey d"]
        by (auto simp: apply_kind applyDeliveryUpserted_def derive_active_eq upsert_def put_delivery_def split: option.splits)
    qed (simp_all add: parts)
    obtain w2 err2 where em: "emit mem_ops h holder ?r eventKindDeliveryUpserted [dl_IdempotencyKey d, Itoa ordinal]
        payload rollback (e, m, put_proj ?r p1 c) = (w2, err2)"
      by (cases "emit mem_ops h holder ?r eventKindDeliveryUpserted [dl_IdempotencyKey d, Itoa ordinal]
        payload rollback (e, m, put_proj ?r p1 c)")
    note ok = step [OF em]
    show ?thesis
    proof (cases payload)
      case (Inl perr)
      then have "w' = w2" using run Some p0 x False ap em by (auto simp: upsertDeliveryOnce_def Let_def emit_def)
      then show ?thesis using ok by simp
    next
      case (Inr bytes)
      obtain e2 m2 c2 where w2: "w2 = (e2, m2, c2)" by (cases w2)
      have "w' = w2 \<or> (\<exists>s. w' = (e2, m2, c2\<lparr>wc_deliverySeqs := s\<rparr>))"
        using run Some p0 x False ap em Inr w2
        by (cases err2) (auto simp: upsertDeliveryOnce_def Let_def split: if_splits)
      then show ?thesis using ok w2 refines_seqs by auto
    qed
  qed
qed

lemma UpsertDelivery_refines:
  assumes inv: "events_inv m" and sy: "synced h m c (dl_RunID d) x"
    and run: "UpsertDelivery_locked mem_ops h now1 now2 holder d (e, m, c) = (w', err)"
  shows "refines h (dl_RunID d) (e, m, c) w' \<or>
    (\<exists>w1. refines h (dl_RunID d) (e, m, c) w1 \<and> refines h (dl_RunID d) w1 w')"
proof -
  obtain w1 retry err1 where one: "upsertDeliveryOnce mem_ops h now1 holder d (e, m, c) = (w1, retry, err1)"
    by (cases "upsertDeliveryOnce mem_ops h now1 holder d (e, m, c)") auto
  note r1 = upsertDeliveryOnce_refines [OF inv sy one]
  show ?thesis
  proof (cases retry)
    case False
    then show ?thesis using run one r1 by (auto simp: UpsertDelivery_locked_def)
  next
    case True
    obtain e1 m1 c1 where w1: "w1 = (e1, m1, c1)" by (cases w1)
    obtain w2 retry2 err2 where two: "upsertDeliveryOnce mem_ops h now2 holder d (e1, m1, c1) = (w2, retry2, err2)"
      by (cases "upsertDeliveryOnce mem_ops h now2 holder d (e1, m1, c1)") auto
    obtain y where inv1: "events_inv m1" and sy1: "synced h m1 c1 (dl_RunID d) y"
      using r1 unfolding w1 refines_def by (auto simp del: split_paired_Ex)
    have "w' = w2" using run one two True w1 by (cases retry2) (auto simp: UpsertDelivery_locked_def)
    then show ?thesis using r1 upsertDeliveryOnce_refines [OF inv1 sy1 two] w1 by blast
  qed
qed

section \<open>Panel phases\<close>

lemma guard_weaken: "(if P then Some e else rest) = None \<Longrightarrow> (Q \<Longrightarrow> P) \<Longrightarrow> (if Q then Some e else rest) = None"
  by (auto split: if_splits)

lemma spec_legacy: "spec_validate h False s = None \<Longrightarrow> spec_validate h True s = None"
  unfolding spec_validate_def by (erule guard_weaken) blast

lemma validPanel_legacy:
  "validPanelTransition h src dst syn \<Longrightarrow> validPanelTransitionWithWork h src dst syn True"
  by (auto simp: validPanelTransition_def validPanelTransitionWithWork_def spec_legacy split: option.splits if_splits)

lemma appendPanelPhase_refines:
  assumes inv: "events_inv m" and x: "synced h m c r x" and lv: "live c r = Some (derive_active x)"
    and has: "pr_HasRun (fst x)" and ix: "i < length (pr_Attempts (fst x))"
    and ok: "\<And>ev. ev_Kind ev = eventKindPanelPhaseSet \<Longrightarrow> ev_RunID ev = r \<Longrightarrow>
      ev_Payload ev = [PPanelPhase \<lparr>ppp_AttemptID = attemptID, ppp_Version = at_Version next, ppp_Phase = dst,
        ppp_Synthesis = syn, ppp_CreatedAt = now\<rparr>] \<Longrightarrow>
      allowed h r (derive_active x) ev \<and> apply_event h ev x =
        Inr ((fst x)\<lparr>pr_Attempts := (pr_Attempts (fst x))[i := next]\<rparr>, snd x)"
    and run: "appendPanelPhase mem_ops h now r attemptID holder dst syn next i (e, m, c) = (w', err)"
  shows "refines h r (e, m, c) w'"
proof (cases "marshal (PPanelPhase \<lparr>ppp_AttemptID = attemptID, ppp_Version = at_Version next, ppp_Phase = dst,
    ppp_Synthesis = syn, ppp_CreatedAt = now\<rparr>)")
  case (Inl merr)
  then show ?thesis using run refines_refl [OF inv x] by (auto simp: appendPanelPhase_def Let_def)
next
  case (Inr bytes)
  note b = marshal_Inr [OF Inr]
  have log: "replay_log h m r = Inr x" using x by (simp add: synced_def)
  obtain e1 q where q: "eng_NextSequence r e = (e1, q)" by (cases "eng_NextSequence r e")
  define evt where "evt = \<lparr>ev_ID = EventID r eventKindPanelPhaseSet [attemptID, FormatUint (at_Version next)],
    ev_RunID = r, ev_Sequence = sint q, ev_Kind = eventKindPanelPhaseSet, ev_Payload = bytes, ev_RowID = 0\<rparr>"
  have evt: "ev_RunID evt = r" "ev_Kind evt = eventKindPanelPhaseSet" "ev_Payload evt = bytes" "ev_Sequence evt = sint q"
    by (simp_all add: evt_def)
  obtain m1 serr where res: "mem_AppendWithExistingClaim evt holder m = (m1, serr)"
    by (cases "mem_AppendWithExistingClaim evt holder m")
  show ?thesis
  proof (cases serr)
    case None
    have app: "appended evt m m1"
      using claimed_outcome [OF inv, of evt holder m1 serr] res None by auto
    have w': "w' = (eng_SetApplied r q e1, m1, put_proj r (set_attempt_at i next (derive_active x)) c)"
      using run Inr q res None lv ix evt
      by (auto simp: appendPanelPhase_def Let_def mem_ops_fields evt_def)
    obtain p st where xp: "x = (p, st)" by (cases x)
    have "allowed h r (derive_active x) (stamped m evt)"
      "apply_event h (stamped m evt) x = Inr (p\<lparr>pr_Attempts := (pr_Attempts p)[i := next]\<rparr>, st)"
      using ok [of "stamped m evt"] evt b xp by auto
    then show ?thesis
      unfolding w' using has xp
      by (intro stored_refines [OF inv x q evt(1,4) app]) (auto simp: derive_active_eq set_attempt_at_def)
  next
    case (Some se)
    then have m1: "m1 = m" using claimed_outcome [OF inv, of evt holder m1 serr] res by auto
    obtain c2 where c2: "catchUpRunLocked mem_ops h r (e1, m, c) =
        ((eng_SetApplied r (max_sequence (mem_evs m r) 0) e1, m, c2), None)"
      "live c2 r = view x" "\<And>r'. r' \<noteq> r \<Longrightarrow> live c2 r' = live c r'"
      using catchUpRun_mem [OF inv log] by blast
    have "w' = (eng_SetApplied r (max_sequence (mem_evs m r) 0) e1, m, c2)"
      using run Inr q res Some m1 c2(1)
      by (auto simp: appendPanelPhase_def Let_def mem_ops_fields evt_def mem_Events_evs split: if_splits)
    then show ?thesis using refines_kept [OF inv x c2(2)] c2(3) moves_rebuilt [OF moves_next [OF q]] by auto
  qed
qed

lemma attempt_updates_commute:
  "a\<lparr>at_PanelExecution := px, at_Version := v\<rparr> = a\<lparr>at_Version := v, at_PanelExecution := px\<rparr>"
  by (cases a) simp

lemma CompareAndSetPanelPhase_refines:
  assumes inv: "events_inv m" and sy: "synced h m c r x" and v: "v + 1 \<noteq> 0" and ne: "attemptID \<noteq> []"
    and run: "CompareAndSetPanelPhase_locked mem_ops h val now holder r attemptID v src dst syn (e, m, c) = (w', err)"
  shows "refines h r (e, m, c) w'"
proof (rule on_run_refines [OF inv sy run [unfolded CompareAndSetPanelPhase_locked_def]], goal_cases)
  case (1 w2 err2)
  note has = 1(1) and lv = 1(2) and body = 1(3)
  note refl = refines_refl [OF inv sy, of e]
  obtain p st where x: "x = (p, st)" by (cases x)
  obtain rn where rn: "pr_Run p = Some rn" using has x synced_rok [OF sy] by (auto simp: rok_def)
  show ?case
  proof (cases "attempt_index attemptID (pr_Attempts p)")
    case None
    then show ?thesis using body rn x refl by (auto split: if_splits)
  next
    case (Some i)
    let ?a = "pr_Attempts p ! i"
    show ?thesis
    proof (cases "at_PanelExecution ?a")
      case None
      then show ?thesis using body rn x refl Some by (auto simp: Let_def split: if_splits)
    next
      case px: (Some px)
      let ?next = "?a\<lparr>at_Version := at_Version ?a + 1, at_PanelExecution := Some (set_phase dst syn px)\<rparr>"
      let ?content = "case syn of None \<Rightarrow> None
          | Some s \<Rightarrow> validatePanelTaskContent val r (pe_SynthesisTaskID px) (ps_Work s) m"
      show ?thesis
      proof (cases "IsTerminalRunStatus (wr_Status rn) \<or> IsTerminalAttemptStatus (at_Status ?a) \<or> at_Version ?a \<noteq> v \<or>
          pe_Phase px \<noteq> src \<or> \<not> validPanelTransition h src dst syn \<or> ?content \<noteq> None")
        case True
        then show ?thesis using body rn x refl Some px by (auto simp: Let_def split: if_splits option.splits)
      next
        case False
        then have ap: "appendPanelPhase mem_ops h now r attemptID holder dst syn ?next i (e, m, c) = (w2, err2)"
          using body rn x Some px by (auto simp: Let_def)
        show ?thesis
        proof (rule appendPanelPhase_refines [OF inv sy lv has _ _ ap], goal_cases)
          case 1
          then show ?case using Some x by (auto dest: attempt_index_hit)
        next
          case (2 ev)
          have "allowed h r (derive_active x) ev"
            using 2 x has Some False by (intro allowedI) (auto simp: on_index_def)
          moreover have "validPanelTransitionWithWork h (pe_Phase px) dst syn True"
            using False validPanel_legacy by auto
          moreover have "at_Version ?a + 1 \<noteq> 0" using False v by auto
          ultimately show ?case
            using 2 x Some px False ne
            by (simp add: apply_kind applyPanelPhase_def set_phase_def Let_def attempt_updates_commute)
        qed
      qed
    qed
  qed
qed

section \<open>Deletion\<close>

lemma AppendAndDelete_outcome:
  fixes m :: "wf_payload memory"
  assumes "events_inv m" "mem_AppendAndDeleteRun evt tok m = (m', err)"
  shows "(err \<noteq> None \<and> m' = m) \<or> (err = None \<and> events_inv m' \<and>
    (\<forall>r. mem_evs m' r = (if r = ev_RunID evt
       then filter (\<lambda>e. ev_Sequence evt \<le> ev_Sequence e) (mem_evs m r @ [stamped m evt]) else mem_evs m r)))"
proof -
  have inv: "events_inv m'"
    using events_inv_step [OF assms(1), of "OpAppendAndDeleteRun evt tok"] assms(2) by (simp add: mem_step_def)
  obtain m1 e1 where a: "appendLocked evt m = (m1, e1)" by (cases "appendLocked evt m")
  show ?thesis
  proof (cases e1)
    case (Some se)
    then show ?thesis
      using appendLocked_outcome [OF assms(1) a] assms(2) a by (auto simp: mem_AppendAndDeleteRun_def split: if_splits)
  next
    case None
    then have "appended evt m m1" using appendLocked_outcome [OF assms(1) a] by simp
    note evs = appended_evs [OF this]
    show ?thesis
    proof (cases "err = None")
      case True
      then have "m' = deleteRunLocked (ev_RunID evt) (ev_Sequence evt - 1) m1"
        using assms(2) a None by (auto simp: mem_AppendAndDeleteRun_def split: if_splits)
      moreover have "(ev_Sequence evt - 1 < k) = (ev_Sequence evt \<le> k)" for k
        by auto
      ultimately show ?thesis using True inv evs by (simp add: deleteRunLocked_events)
    next
      case False
      then show ?thesis using assms(2) a None by (auto simp: mem_AppendAndDeleteRun_def split: if_splits)
    qed
  qed
qed

lemma DeleteRun_refines:
  assumes inv: "events_inv m" and sy: "synced h m c r x" and room: "room e r"
    and seq: "live c r \<noteq> None \<Longrightarrow> seq_ok e m r"
    and run: "DeleteRun_locked mem_ops h now holder r (e, m, c) = (w', err)"
  shows "refines h r (e, m, c) w'"
proof (cases "live c r")
  case None
  then show ?thesis using run refines_refl [OF inv sy] by (auto simp: DeleteRun_locked_def)
next
  case (Some prev)
  have log: "replay_log h m r = Inr x" using sy by (simp add: synced_def)
  have has: "pr_HasRun (fst x)" and prev: "prev = derive_active x" using synced_live [OF sy Some] by auto
  have rn: "pr_Run (fst x) \<noteq> None" using has synced_rok [OF sy] by (cases x) (auto simp: rok_def)
  obtain e1 q where q: "eng_NextSequence r e = (e1, q)" by (cases "eng_NextSequence r e")
  let ?pl = "PRunDeleted \<lparr>rdp_RunID = r, rdp_DeletedAt = now\<rparr>"
  show ?thesis
  proof (cases "marshal ?pl")
    case (Inl merr)
    then have "w' = (e1, m, put_proj r prev (drop_proj r c))"
      using run Some prev has rn q by (auto simp: DeleteRun_locked_def)
    then show ?thesis
      using refines_kept [OF inv sy, of "put_proj r prev (drop_proj r c)" e e1] prev has moves_next [OF q]
      by (auto simp: view_def)
  next
    case (Inr bytes)
    note b = marshal_Inr [OF Inr]
    define tomb where "tomb = \<lparr>ev_ID = EventID r eventKindRunDeleted [show_nat (unat q)], ev_RunID = r,
      ev_Sequence = sint q, ev_Kind = eventKindRunDeleted, ev_Payload = bytes, ev_RowID = 0\<rparr>"
    have tomb: "ev_RunID tomb = r" "ev_Kind tomb = eventKindRunDeleted" "ev_Sequence tomb = sint q"
      by (simp_all add: tomb_def)
    define tok where "tok = (if holder \<noteq> [] then (fst (trk_GetClaim (en_claims e1) r))\<lparr>c_Holder := holder\<rparr>
      else fst (trk_GetClaim (en_claims e1) r))"
    obtain m1 serr where res: "mem_AppendAndDeleteRun tomb tok m = (m1, serr)"
      by (cases "mem_AppendAndDeleteRun tomb tok m")
    note out = AppendAndDelete_outcome [OF inv res]
    show ?thesis
    proof (cases serr)
      case (Some se)
      then have m1: "m1 = m" using out by auto
      obtain c2 where c2: "catchUpRunLocked mem_ops h r (e1, m, put_proj r prev (drop_proj r c)) =
          ((eng_SetApplied r (max_sequence (mem_evs m r) 0) e1, m, c2), None)"
        "live c2 r = view x" "\<And>r'. r' \<noteq> r \<Longrightarrow> live c2 r' = live (put_proj r prev (drop_proj r c)) r'"
        using catchUpRun_mem [OF inv log] by blast
      have "w' = (eng_SetApplied r (max_sequence (mem_evs m r) 0) e1, m, c2)"
        using run \<open>live c r = Some prev\<close> prev has rn q Inr res Some m1 c2(1)
        by (auto simp: DeleteRun_locked_def Let_def mem_ops_fields tomb_def tok_def rollbackAndRebuild_def)
      then show ?thesis using refines_kept [OF inv sy c2(2)] c2(3) moves_rebuilt [OF moves_next [OF q]] by auto
    next
      case None
      let ?e2 = "e1\<lparr>en_claims := trk_DropClaim r (en_claims e1), en_watermarks := wm_DeleteRun r (en_watermarks e1)\<rparr>"
      have w': "w' = (eng_ForgetRun r ?e2, m1, drop_run_state r (drop_proj r c))"
        using run \<open>live c r = Some prev\<close> prev has rn q Inr res None
        by (auto simp: DeleteRun_locked_def Let_def mem_ops_fields tomb_def tok_def)
      have n: "unat q = eng_top e r + 1" using eng_top_next [OF q] room by (simp add: room_def)
      then have sq: "sint q = int (eng_top e r + 1)" using sint_small [of q] room by (simp add: room_def)
      have "seq_ok e m r" using seq \<open>live c r = Some prev\<close> by simp
      then have "filter (\<lambda>e. ev_Sequence tomb \<le> ev_Sequence e) (mem_evs m r) = []"
        using sq tomb(3) by (fastforce simp: filter_empty_conv seq_ok_def)
      then have evs: "mem_evs m1 r = [stamped m tomb]" "r' \<noteq> r \<Longrightarrow> mem_evs m1 r' = mem_evs m r'" for r'
        using out None tomb(1) by auto
      have "synced h m1 (drop_run_state r (drop_proj r c)) r blank"
        using evs(1) tomb(2) by (simp add: synced_def replay_log_def apply_kind applyRunDeleted_def drop_run_state_def)
      moreover have "eng_top e r' \<le> eng_top (eng_ForgetRun r ?e2) r'" if "r' \<noteq> r" for r'
        using eng_top_next(3) [OF q _ that] room that
        by (simp add: eng_top_def eng_ForgetRun_def wm_top_def wm_defs room_def)
      moreover have "seqs_nat m1 r"
        using evs(1) sq room tomb(3) by (simp add: seqs_nat_def room_def)
      ultimately show ?thesis
        unfolding w' refines_def using log log_step.delete [OF has, of h r] evs out None
        by (auto simp: drop_run_state_def simp del: split_paired_Ex)
    qed
  qed
qed

end
