(* ===== verification/Wf_World.thy ===== *)
theory Wf_World
  imports Wf_Ops_Records
begin

text \<open>
  The workflow repository as a state machine: commands over a repository world, the
  invariant that ties the cached projections to the stored events, and the refinement of
  every command, catch-up included.
\<close>

section \<open>Commands\<close>

text \<open>
  One value per call of a StorageRepository method that reaches the event log; the clock
  readings and the holder bound to the context are arguments.  CmdRead stands for every
  read operation (they only catch up).
\<close>

datatype wf_cmd =
    CmdRead
  | CmdRecover
  | CmdCreateRun time string WfRunSnapshot string
  | CmdSetRunStatus time string string "64 word" string "time option"
  | CmdRunResumed string string
  | CmdLoop time string string string
  | CmdCreateAttempt time string StepAttempt
  | CmdRecordOutcome time string StepAttempt AttemptOutcome
  | CmdComplete time string string string "64 word" AttemptOutcome
  | CmdPrompt time time string string string string
  | CmdExecution time string string string string string string
  | CmdHeartbeat string string string time
  | CmdCreateApproval time string ApprovalRecord
  | CmdResolveApproval time string string string string string string
  | CmdUpsertDelivery time time string DeliveryRecord
  | CmdDelete time string string
  | CmdPanel time string string string "64 word" string string "PanelSynthesisExecution option"

fun cmd_run :: "wf_cmd \<Rightarrow> string" where
  "cmd_run CmdRead = []"
| "cmd_run CmdRecover = []"
| "cmd_run (CmdCreateRun now holder snap json) = wr_RunID snap"
| "cmd_run (CmdSetRunStatus now holder r v status fin) = r"
| "cmd_run (CmdRunResumed holder r) = r"
| "cmd_run (CmdLoop now holder r name) = r"
| "cmd_run (CmdCreateAttempt now holder a) = at_RunID a"
| "cmd_run (CmdRecordOutcome now holder a oc) = at_RunID a"
| "cmd_run (CmdComplete now holder r a v oc) = r"
| "cmd_run (CmdPrompt now clock holder r a ref) = r"
| "cmd_run (CmdExecution now holder r a cr ti reason) = r"
| "cmd_run (CmdHeartbeat holder r a t) = r"
| "cmd_run (CmdCreateApproval now holder a) = ap_RunID a"
| "cmd_run (CmdResolveApproval now holder r a actor status reason) = r"
| "cmd_run (CmdUpsertDelivery now1 now2 holder d) = dl_RunID d"
| "cmd_run (CmdDelete now holder r) = r"
| "cmd_run (CmdPanel now holder r a v src dst syn) = r"

fun wf_exec ::
    "panel_hashes \<Rightarrow> wf_payload memory validator \<Rightarrow> wf_cmd \<Rightarrow> wf_payload memory wf_op" where
  "wf_exec h val CmdRead w = ensureBuilt mem_ops h w"
| "wf_exec h val CmdRecover w = (case wf_Recover mem_ops h w of (w1, out, err) \<Rightarrow> (w1, err))"
| "wf_exec h val (CmdCreateRun now holder snap json) w = wf_CreateRun mem_ops h now holder snap json w"
| "wf_exec h val (CmdSetRunStatus now holder r v status fin) w =
     wf_CompareAndSetRunStatus mem_ops h now holder r v status fin w"
| "wf_exec h val (CmdRunResumed holder r) w = wf_RecordRunResumed mem_ops h holder r w"
| "wf_exec h val (CmdLoop now holder r name) w =
     (case wf_IncrementLoopCounter mem_ops h now holder r name w of (w1, n, err) \<Rightarrow> (w1, err))"
| "wf_exec h val (CmdCreateAttempt now holder a) w = wf_CreateStepAttempt mem_ops h val now holder a w"
| "wf_exec h val (CmdRecordOutcome now holder a oc) w = wf_RecordStepAttemptOutcome mem_ops h now holder a oc w"
| "wf_exec h val (CmdComplete now holder r a v oc) w = wf_CompleteStepAttempt mem_ops h now holder r a v oc w"
| "wf_exec h val (CmdPrompt now clock holder r a ref) w = wf_SetStepAttemptPrompt mem_ops h now clock holder r a ref w"
| "wf_exec h val (CmdExecution now holder r a cr ti reason) w =
     wf_SetStepAttemptExecution mem_ops h now holder r a cr ti reason w"
| "wf_exec h val (CmdHeartbeat holder r a t) w = wf_SetStepAttemptHeartbeat mem_ops h holder r a t w"
| "wf_exec h val (CmdCreateApproval now holder a) w = wf_CreateApproval mem_ops h now holder a w"
| "wf_exec h val (CmdResolveApproval now holder r a actor status reason) w =
     wf_ResolveApproval mem_ops h now holder r a actor status reason w"
| "wf_exec h val (CmdUpsertDelivery now1 now2 holder d) w = wf_UpsertDelivery mem_ops h now1 now2 holder d w"
| "wf_exec h val (CmdDelete now holder r) w = wf_DeleteRun mem_ops h now holder r w"
| "wf_exec h val (CmdPanel now holder r a v src dst syn) w =
     wf_CompareAndSetPanelPhase mem_ops h val now holder r a v src dst syn w"

text \<open>
  What the caller must respect for the cached projection to stay equal to the replay:
  an attempt recorded in one event carries no data the event cannot hold, a version does
  not wrap to zero, and a panel attempt has an id.
\<close>

fun cmd_ok :: "wf_cmd \<Rightarrow> bool" where
  "cmd_ok (CmdRecordOutcome now holder a oc) \<longleftrightarrow> clean_attempt a"
| "cmd_ok (CmdComplete now holder r a v oc) \<longleftrightarrow> v + 1 \<noteq> 0"
| "cmd_ok (CmdPanel now holder r a v src dst syn) \<longleftrightarrow> v + 1 \<noteq> 0 \<and> a \<noteq> []"
| "cmd_ok _ \<longleftrightarrow> True"

section \<open>The invariant\<close>

definition run_ok ::
    "panel_hashes \<Rightarrow> engine \<Rightarrow> wf_payload memory \<Rightarrow> wf_client \<Rightarrow> string \<Rightarrow> bool" where
  "run_ok h e m c r \<longleftrightarrow> (if HasPrefix r ''wfr-''
     then (\<exists>x. synced h m c r x) \<and> seqs_nat m r \<and> (live c r \<noteq> None \<longrightarrow> seq_ok e m r)
     else live c r = None)"

definition wf_ok :: "panel_hashes \<Rightarrow> wf_payload memory wf_world \<Rightarrow> bool" where
  "wf_ok h = (\<lambda>(e, m, c). events_inv m \<and> (\<forall>r. run_ok h e m c r))"

lemma wf_okD:
  assumes "wf_ok h (e, m, c)"
  shows "events_inv m"
    "HasPrefix r ''wfr-'' \<Longrightarrow> \<exists>x. synced h m c r x" "HasPrefix r ''wfr-'' \<Longrightarrow> seqs_nat m r"
    "HasPrefix r ''wfr-'' \<Longrightarrow> live c r \<noteq> None \<Longrightarrow> seq_ok e m r"
    "\<not> HasPrefix r ''wfr-'' \<Longrightarrow> live c r = None"
  using assms by (auto simp: wf_ok_def run_ok_def split: if_splits)

lemma synced_same:
  "mem_evs m' r = mem_evs m r \<Longrightarrow> live c' r = live c r \<Longrightarrow> synced h m' c' r = synced h m c r"
  by (rule ext) (simp add: synced_def replay_log_def)

lemma run_ok_same:
  assumes "run_ok h e m c r" "HasPrefix r ''wfr-'' \<Longrightarrow> mem_evs m' r = mem_evs m r" "live c' r = live c r"
    "HasPrefix r ''wfr-'' \<Longrightarrow> eng_top e r \<le> eng_top e' r"
  shows "run_ok h e' m' c' r"
proof (cases "HasPrefix r ''wfr-''")
  case True
  note evs = assms(2) [OF True]
  have "seq_ok e' m' r" if "seq_ok e m r"
    using seq_ok_mono [OF that assms(4) [OF True]] evs by (simp add: seq_ok_def)
  then show ?thesis
    using assms(1,3) True evs synced_same [of m' r m c' c h]
    by (simp add: run_ok_def seqs_nat_def del: split_paired_Ex)
qed (use assms in \<open>simp add: run_ok_def\<close>)

text \<open>Two worlds with the same projections and logs, the later one with higher watermarks.\<close>

definition same_view :: "wf_payload memory wf_world \<Rightarrow> wf_payload memory wf_world \<Rightarrow> bool" where
  "same_view = (\<lambda>(e, m, c) (e', m', c'). (events_inv m \<longrightarrow> events_inv m') \<and>
     (\<forall>r. (HasPrefix r ''wfr-'' \<longrightarrow> mem_evs m' r = mem_evs m r) \<and> live c' r = live c r \<and> eng_top e r \<le> eng_top e' r))"

lemma same_view_refl [simp]: "same_view w w"
  by (cases w) (simp add: same_view_def)

lemma same_view_trans: "same_view w1 w2 \<Longrightarrow> same_view w2 w3 \<Longrightarrow> same_view w1 w3"
  by (cases w1, cases w2, cases w3) (auto simp: same_view_def intro: order_trans)

lemma wf_ok_same: "wf_ok h w \<Longrightarrow> same_view w w' \<Longrightarrow> wf_ok h w'"
  by (cases w, cases w') (auto simp: wf_ok_def same_view_def intro: run_ok_same)

section \<open>Catching up\<close>

lemma wf_filter_cases:
  "\<not> HasPrefix r ''wfr-'' \<Longrightarrow> wf_filter r q = FilterAdvanceOnly"
  "HasPrefix r ''wfr-'' \<Longrightarrow> wf_filter r q = FilterApply"
  by (simp_all add: wf_filter_def)

lemma catch_up_kept:
  assumes "events_inv m" "\<And>r. HasPrefix r ''wfr-'' \<Longrightarrow> \<exists>x. synced h m c r x"
  shows "\<exists>e' c'. catch_up_loop mem_ops (Some wf_filter) (Some (applyRunEventsLocked h)) M rs (e, m, c) =
      ((e', m, c'), None) \<and> same_view (e, m, c) (e', m, c')"
  using assms(2)
proof (induction rs arbitrary: e c)
  case Nil
  then show ?case by simp
next
  case (Cons r rs)
  let ?q = "word_of_int (mget_or 0 (map_of M) r) :: 64 word"
  show ?case
  proof (cases "HasPrefix r ''wfr-''")
    case False
    obtain e' c' where "catch_up_loop mem_ops (Some wf_filter) (Some (applyRunEventsLocked h)) M rs
        (eng_SetApplied r ?q e, m, c) = ((e', m, c'), None)" "same_view (eng_SetApplied r ?q e, m, c) (e', m, c')"
      using Cons.IH [OF Cons.prems] by blast
    moreover have "same_view (e, m, c) (eng_SetApplied r ?q e, m, c)"
      by (simp add: same_view_def eng_top_applied)
    ultimately show ?thesis using False by (auto simp: wf_filter_cases Let_def intro: same_view_trans)
  next
    case True
    obtain x where x: "synced h m c r x" using Cons.prems [OF True] ..
    then have log: "replay_log h m r = Inr x" by (simp add: synced_def)
    let ?e1 = "eng_SetApplied r (max_sequence (mem_evs m r) 0) (eng_RunLock r e)"
    obtain c1 where c1: "applyRunEventsLocked h r (mem_evs m r) (eng_RunLock r e, m, c) = ((?e1, m, c1), None)"
      "live c1 r = view x" "\<And>r'. r' \<noteq> r \<Longrightarrow> live c1 r' = live c r'"
      using applyRunEvents_mem [OF assms(1) log, of "eng_RunLock r e" c] by blast
    have lv: "live c1 r' = live c r'" for r' using c1(2,3) x by (cases "r' = r") (auto simp: synced_def)
    have "\<exists>y. synced h m c1 r' y" if "HasPrefix r' ''wfr-''" for r'
      using Cons.prems [OF that] synced_same [of m r' m c1 c h] lv by simp
    then obtain e' c' where *: "catch_up_loop mem_ops (Some wf_filter) (Some (applyRunEventsLocked h)) M rs
        (eng_SetApplied r ?q ?e1, m, c1) = ((e', m, c'), None)" "same_view (eng_SetApplied r ?q ?e1, m, c1) (e', m, c')"
      using Cons.IH [of c1 "eng_SetApplied r ?q ?e1"] by blast
    moreover have "same_view (e, m, c) (eng_SetApplied r ?q ?e1, m, c1)"
      using lv by (auto simp: same_view_def eng_top_applied)
    ultimately show ?thesis using True c1(1) by (auto simp: wf_filter_cases Let_def mem_Events_evs intro: same_view_trans)
  qed
qed

lemma ensureBuilt_kept:
  assumes "wf_ok h (e, m, c)" "ensureBuilt mem_ops h (e, m, c) = ((e', m', c'), err)"
  shows "m' = m" "same_view (e, m, c) (e', m, c')" "wf_ok h (e', m, c')" "err = eng_CheckOpen e"
proof -
  note ok = wf_okD [OF assms(1)]
  have adv: "eng_top (eng_AdvanceCursor k e2) r = eng_top e2 r" for k e2 r
    by (simp add: eng_top_def eng_AdvanceCursor_def wm_top_def wm_defs)
  have "m' = m \<and> same_view (e, m, c) (e', m, c') \<and> err = eng_CheckOpen e"
  proof (cases "eng_CheckOpen e")
    case (Some x)
    then show ?thesis using assms(2) by (auto simp: ensureBuilt_def)
  next
    case None
    let ?M = "fst (mem_Changes (wm_cursor (en_watermarks e)) m)"
    obtain e2 c2 where *: "catch_up_loop mem_ops (Some wf_filter) (Some (applyRunEventsLocked h)) ?M
        (wm_CheckBehind ?M (en_watermarks e)) (e, m, c) = ((e2, m, c2), None)" "same_view (e, m, c) (e2, m, c2)"
      using catch_up_kept [OF ok(1,2)] by blast
    then show ?thesis
      using assms(2) None
      by (auto simp: ensureBuilt_def wf_catchUp_def eng_CatchUp_def Let_def same_view_def adv split: prod.splits if_splits)
  qed
  then show "m' = m" "same_view (e, m, c) (e', m, c')" "err = eng_CheckOpen e" by auto
  then show "wf_ok h (e', m, c')" using wf_ok_same [OF assms(1)] by blast
qed

section \<open>Evolution of a world\<close>

text \<open>The abstract state of a run: the replay of its stored events.\<close>

definition run_state :: "panel_hashes \<Rightarrow> string \<Rightarrow> wf_payload memory wf_world \<Rightarrow> replay" where
  "run_state h r = (\<lambda>(e, m, c). case replay_log h m r of Inl err \<Rightarrow> blank | Inr x \<Rightarrow> x)"

lemma run_state_log: "replay_log h m r = Inr x \<Longrightarrow> run_state h r (e, m, c) = x"
  by (simp add: run_state_def)

lemma ok_synced: "wf_ok h (e, m, c) \<Longrightarrow> HasPrefix r ''wfr-'' \<Longrightarrow> synced h m c r (run_state h r (e, m, c))"
  using wf_okD(2) [of h e m c r] by (auto simp: synced_def run_state_log simp del: split_paired_Ex)

lemma ok_live:
  "wf_ok h (e, m, c) \<Longrightarrow> live c r = (if HasPrefix r ''wfr-'' then view (run_state h r (e, m, c)) else None)"
  using ok_synced [of h e m c r] wf_okD(5) [of h e m c r] by (simp add: synced_def)

text \<open>
  What one command does to the state of its run: any number of allowed appends (at most
  two in fact), or a deletion.
\<close>

definition grow :: "panel_hashes \<Rightarrow> string \<Rightarrow> replay \<Rightarrow> replay \<Rightarrow> bool" where
  "grow h r x y \<longleftrightarrow> (\<exists>ev. allowed h r (derive_active x) ev \<and> apply_event h ev x = Inr y)"

definition run_moves :: "panel_hashes \<Rightarrow> string \<Rightarrow> replay \<Rightarrow> replay \<Rightarrow> bool" where
  "run_moves h r x y \<longleftrightarrow> (grow h r)\<^sup>*\<^sup>* x y \<or> (pr_HasRun (fst x) \<and> y = blank)"

lemma run_moves_refl [simp]: "run_moves h r x x"
  by (simp add: run_moves_def)

lemma log_step_moves:
  assumes "log_step h r x y"
  shows "run_moves h r x y"
  using assms
proof cases
  case (append ev)
  then have "grow h r x y" unfolding grow_def by blast
  then show ?thesis unfolding run_moves_def by blast
qed (simp_all add: run_moves_def)

lemma run_moves_trans:
  assumes "run_moves h r x y" "run_moves h r y z" "pr_HasRun (fst x)" "pr_HasRun (fst y)"
  shows "run_moves h r x z"
proof -
  have "y \<noteq> blank" using assms(4) by (auto simp: zero_projection_def)
  then show ?thesis using assms by (auto simp: run_moves_def)
qed

lemma run_moves_steps: "run_moves h r x y \<Longrightarrow> (log_step h r)\<^sup>*\<^sup>* x y"
proof -
  have "(log_step h r)\<^sup>*\<^sup>* x y" if "(grow h r)\<^sup>*\<^sup>* x y"
    using that by (rule mono_rtranclp [rule_format, rotated]) (auto simp: grow_def intro: log_step.append)
  then show "run_moves h r x y \<Longrightarrow> (log_step h r)\<^sup>*\<^sup>* x y"
    by (auto simp: run_moves_def intro: log_step.delete)
qed

definition evolves ::
    "panel_hashes \<Rightarrow> string \<Rightarrow> wf_payload memory wf_world \<Rightarrow> wf_payload memory wf_world \<Rightarrow> bool" where
  "evolves h q w w' \<longleftrightarrow> wf_ok h w' \<and> (\<forall>r. HasPrefix r ''wfr-'' \<longrightarrow>
     (if r = q then run_moves h r (run_state h r w) (run_state h r w') else run_state h r w' = run_state h r w))"

lemma same_state:
  assumes "same_view w w'" "HasPrefix r ''wfr-''"
  shows "run_state h r w' = run_state h r w"
  using assms by (cases w; cases w') (auto simp: same_view_def run_state_def replay_log_def)

lemma evolvesD:
  assumes "evolves h q w w'"
  shows "wf_ok h w'" "HasPrefix q ''wfr-'' \<Longrightarrow> run_moves h q (run_state h q w) (run_state h q w')"
    "HasPrefix r ''wfr-'' \<Longrightarrow> r \<noteq> q \<Longrightarrow> run_state h r w' = run_state h r w"
  using assms by (simp_all add: evolves_def)

lemma evolves_moves: "evolves h q w w' \<Longrightarrow> HasPrefix r ''wfr-'' \<Longrightarrow> run_moves h r (run_state h r w) (run_state h r w')"
  using evolvesD(2,3) [of h q w w'] by (cases "r = q") simp_all

lemma evolves_same: "wf_ok h w \<Longrightarrow> same_view w w' \<Longrightarrow> evolves h q w w'"
  using wf_ok_same [of h w w'] same_state [of w w'] by (simp add: evolves_def)

lemma evolves_after:
  assumes "same_view w1 w2" "evolves h q w2 w3"
  shows "evolves h q w1 w3"
  unfolding evolves_def
proof (intro conjI allI impI)
  show "wf_ok h w3" using evolvesD(1) [OF assms(2)] .
  fix r assume p: "HasPrefix r ''wfr-''"
  show "if r = q then run_moves h r (run_state h r w1) (run_state h r w3) else run_state h r w3 = run_state h r w1"
    using evolvesD(2,3) [OF assms(2)] p same_state [OF assms(1) p] by (cases "r = q") simp_all
qed

lemma refined_ok:
  assumes ok: "wf_ok h (e, m, c)" and p: "HasPrefix r ''wfr-''" and rf: "refines h r (e, m, c) (e', m', c')"
    and room: "room e r" and seq: "seq_ok e m r \<or> live c' r = None"
  shows "wf_ok h (e', m', c')"
  unfolding wf_ok_def prod.case
proof (intro conjI allI)
  note ok = wf_okD [OF ok] and all = assms(1) [unfolded wf_ok_def prod.case]
  note rf = rf [unfolded refines_def prod.case]
  have nat: "seqs_nat m r" using ok(3) [OF p] .
  show "events_inv m'" using rf by simp
  show "run_ok h e' m' c' r'" for r'
  proof (cases "r' = r")
    case True
    then show ?thesis using rf room nat seq p by (auto simp: run_ok_def)
  next
    case False
    then show ?thesis using rf room nat all by (auto intro: run_ok_same)
  qed
qed

lemma refined_evolves:
  assumes "wf_ok h (e, m, c)" "HasPrefix r ''wfr-''" "refines h r (e, m, c) w2" "room e r"
    "seq_ok e m r \<or> live (snd (snd w2)) r = None"
  shows "evolves h r (e, m, c) w2"
proof (cases w2)
  case (fields e' m' c')
  have ok: "wf_ok h (e', m', c')" using refined_ok [OF assms(1,2)] assms(3-5) fields by simp
  from assms(3) fields obtain x y where xy: "replay_log h m r = Inr x" "synced h m' c' r y" "log_step h r x y"
    and rest: "\<And>r'. r' \<noteq> r \<Longrightarrow> mem_evs m' r' = mem_evs m r'"
    unfolding refines_def by auto
  have "run_state h r' w2 = run_state h r' (e, m, c)" if "r' \<noteq> r" for r'
    using rest [OF that] fields by (simp add: run_state_def replay_log_def)
  moreover have "log_step h r (run_state h r (e, m, c)) (run_state h r w2)"
    using xy fields by (simp add: run_state_def synced_def)
  ultimately show ?thesis using ok fields log_step_moves by (auto simp: evolves_def)
qed

text \<open>A body under the run lock: it refines on a run that exists and does nothing without one.\<close>

lemma body_evolves:
  assumes ok: "wf_ok h (e, m, c)" and room: "room e r"
    and rf: "\<And>x. synced h m c r x \<Longrightarrow> seq_ok e m r \<Longrightarrow> refines h r (e, m, c) w2"
    and absent: "live c r = None \<Longrightarrow> w2 = (e, m, c)"
  shows "evolves h r (e, m, c) w2"
proof (cases "live c r")
  case None
  then show ?thesis using absent evolves_same [OF ok] by simp
next
  case (Some p)
  then have p: "HasPrefix r ''wfr-''" using wf_okD(5) [OF ok, of r] by auto
  have "seq_ok e m r" using wf_okD(4) [OF ok p] Some by simp
  then show ?thesis
    using refined_evolves [OF ok p rf [OF ok_synced [OF ok p]] room] by simp
qed

definition roomy :: "panel_hashes \<Rightarrow> string \<Rightarrow> wf_payload memory wf_world \<Rightarrow> bool" where
  "roomy h r w = (case ensureBuilt mem_ops h w of ((e, m, c), err) \<Rightarrow>
     eng_top e r + 2 < 2 ^ 63 \<and> (\<forall>ev \<in> set (mem_evs m r). ev_Sequence ev + 2 < 2 ^ 63))"

lemma same_view_lock: "same_view (e, m, c) (eng_RunLock r e, m, c)"
  by (simp add: same_view_def)

text \<open>An operation: the catch-up first, then a step that evolves from the caught-up world.\<close>

lemma built_evolves:
  assumes ok: "wf_ok h w" and room: "roomy h r w" and b: "ensureBuilt mem_ops h w = ((e1, m1, c1), err1)"
    and step: "\<And>e. wf_ok h (e, m1, c1) \<Longrightarrow> eng_top e r + 2 < 2 ^ 63 \<Longrightarrow>
      \<forall>ev \<in> set (mem_evs m1 r). ev_Sequence ev + 2 < 2 ^ 63 \<Longrightarrow> P e \<Longrightarrow> evolves h r (e, m1, c1) w'"
    and start: "w' = (e1, m1, c1) \<or> P e1 \<or> P (eng_RunLock r e1)"
  shows "evolves h r w w'"
proof -
  obtain e m c where w: "w = (e, m, c)" by (cases w)
  have k: "same_view w (e1, m1, c1)" "wf_ok h (e1, m1, c1)"
    using ensureBuilt_kept [OF ok [unfolded w] b [unfolded w]] w by simp_all
  note ev = evolves_same [OF ok k(1), of r]
  have rm: "eng_top e1 r + 2 < 2 ^ 63" "\<forall>ev \<in> set (mem_evs m1 r). ev_Sequence ev + 2 < 2 ^ 63"
    using room b by (simp_all add: roomy_def)
  from start show ?thesis
  proof (elim disjE)
    assume "w' = (e1, m1, c1)" then show ?thesis using ev by simp
  next
    assume "P e1" then show ?thesis using evolves_after [OF k(1) step] k rm by simp
  next
    assume p: "P (eng_RunLock r e1)"
    have "wf_ok h (eng_RunLock r e1, m1, c1)" using wf_ok_same [OF k(2) same_view_lock] .
    from step [OF this] p rm have "evolves h r (eng_RunLock r e1, m1, c1) w'" by simp
    then show ?thesis by (rule evolves_after [OF same_view_trans [OF k(1) same_view_lock]])
  qed
qed

lemma with_built_evolves:
  assumes ok: "wf_ok h w" and room: "roomy h r w" and run: "with_built mem_ops h r body w = (w', err)"
    and rf: "\<And>e m c x w2 err2. events_inv m \<Longrightarrow> synced h m c r x \<Longrightarrow> room e r \<Longrightarrow> seq_ok e m r \<Longrightarrow>
      body (e, m, c) = (w2, err2) \<Longrightarrow> refines h r (e, m, c) w2"
    and absent: "\<And>e m c. live c r = None \<Longrightarrow> fst (body (e, m, c)) = (e, m, c)"
  shows "evolves h r w w'"
proof -
  obtain e1 m1 c1 err1 where b: "ensureBuilt mem_ops h w = ((e1, m1, c1), err1)" by (metis prod.collapse)
  show ?thesis
  proof (rule built_evolves [OF ok room b, where P = "\<lambda>e. body (e, m1, c1) = (w', err)"])
    fix e assume a: "wf_ok h (e, m1, c1)" "eng_top e r + 2 < 2 ^ 63" "body (e, m1, c1) = (w', err)"
    show "evolves h r (e, m1, c1) w'"
      using a rf [OF wf_okD(1) [OF a(1)] _ _ _ a(3)] absent [of c1 e m1]
      by (intro body_evolves [OF a(1)]) (auto simp: room_def)
  qed (use run b in \<open>auto simp: with_built_def split: option.splits\<close>)
qed

section \<open>Every command evolves\<close>

lemma on_run_None [simp]: "live c r = None \<Longrightarrow> on_run r body (e, m, c) = ((e, m, c), Some LErrNotFound)"
  by (simp add: on_run_def)

lemma on_attempt_None [simp]: "live c r = None \<Longrightarrow> on_attempt r a body (e, m, c) = ((e, m, c), Some LErrNotFound)"
  by (simp add: on_attempt_def)

text \<open>Without a projection of the run, no body does anything.\<close>

lemma absent_bodies:
  assumes "live c r = None"
  shows "fst (CompareAndSetRunStatus_locked ops h now holder r v status fin (e, s, c)) = (e, s, c)"
    "fst (RecordRunResumed_locked ops h holder r (e, s, c)) = (e, s, c)"
    "fst (IncrementLoopCounter_locked ops h now holder r name (e, s, c)) = (e, s, c)"
    "at_RunID a = r \<Longrightarrow> fst (CreateStepAttempt_locked ops h now holder a (e, s, c)) = (e, s, c)"
    "at_RunID a = r \<Longrightarrow> fst (RecordStepAttemptOutcome_locked ops h now holder a oc (e, s, c)) = (e, s, c)"
    "fst (CompleteStepAttempt_locked ops h now holder r aid v oc (e, s, c)) = (e, s, c)"
    "fst (SetStepAttemptPrompt_locked ops h now clock holder r aid ref (e, s, c)) = (e, s, c)"
    "fst (SetStepAttemptExecution_locked ops h now holder r aid cr ti reason (e, s, c)) = (e, s, c)"
    "fst (SetStepAttemptHeartbeat_locked ops h holder r aid t (e, s, c)) = (e, s, c)"
    "ap_RunID p = r \<Longrightarrow> fst (CreateApproval_locked ops h now holder p (e, s, c)) = (e, s, c)"
    "fst (ResolveApproval_locked ops h now holder r aid actor status reason (e, s, c)) = (e, s, c)"
    "fst (CompareAndSetPanelPhase_locked ops h val now holder r aid v src dst syn (e, s, c)) = (e, s, c)"
    "fst (DeleteRun_locked ops h now holder r (e, s, c)) = (e, s, c)"
  using assms
  by (simp_all add: CompareAndSetRunStatus_locked_def RecordRunResumed_locked_def IncrementLoopCounter_locked_def
      CreateStepAttempt_locked_def RecordStepAttemptOutcome_locked_def CompleteStepAttempt_locked_def
      SetStepAttemptPrompt_locked_def SetStepAttemptExecution_locked_def SetStepAttemptHeartbeat_locked_def
      CreateApproval_locked_def ResolveApproval_locked_def CompareAndSetPanelPhase_locked_def DeleteRun_locked_def)

lemma rebase_top:
  fixes m :: "wf_payload memory"
  assumes "eng_RebaseRunSequence mem_ops r (e, m) = ((e2, m2), err)"
    "\<forall>ev \<in> set (mem_evs m r). 0 \<le> ev_Sequence ev \<and> ev_Sequence ev \<le> int n" "eng_top e r \<le> n" "n < 2 ^ 63"
  shows "m2 = m" "err = None" "eng_top e r' \<le> eng_top e2 r'" "eng_top e2 r \<le> n" "seq_ok e2 m r"
proof -
  let ?q = "max_sequence (mem_evs m r) 0"
  have q: "unat ?q \<le> n" using assms(2,4) by (intro max_sequence_bound) auto
  have e2: "m2 = m" "err = None" "e2 = e\<lparr>en_watermarks := fst (wm_RebaseRunSequence mem_ops r m (en_watermarks e))\<rparr>"
    using assms(1) by (auto simp: eng_RebaseRunSequence_def wm_RebaseRunSequence_def Let_def split: prod.splits)
  then show "m2 = m" "err = None" by simp_all
  have top: "eng_top e2 r' = (if r' = r then max (eng_top e r) (unat ?q) else eng_top e r')" for r'
    unfolding e2(3)
    by (auto simp: eng_top_def wm_RebaseRunSequence_def wm_top_def wm_defs mem_Events_evs Let_def word_less_nat_alt max_def)
  then show "eng_top e r' \<le> eng_top e2 r'" "eng_top e2 r \<le> n" using q assms(3) by simp_all
  have "nat (ev_Sequence ev) \<le> eng_top e2 r" if "ev \<in> set (mem_evs m r)" for ev
  proof -
    have "nat (ev_Sequence ev) \<le> unat ?q" using max_sequence_upper [OF assms(2,4), of 0] that by blast
    also have "\<dots> \<le> eng_top e2 r" using top [of r] by simp
    finally show ?thesis .
  qed
  then show "seq_ok e2 m r" unfolding seq_ok_def nat_le_iff by blast
qed

lemma CreateRun_evolves:
  assumes ok: "wf_ok h w" and room: "roomy h (wr_RunID snap) w"
    and run: "wf_CreateRun mem_ops h now holder snap json w = (w', err)"
  shows "evolves h (wr_RunID snap) w w'"
proof -
  let ?r = "wr_RunID snap"
  obtain e1 m1 c1 err1 where b: "ensureBuilt mem_ops h w = ((e1, m1, c1), err1)" by (metis prod.collapse)
  obtain e2 m2 err2 where rb: "eng_RebaseRunSequence mem_ops ?r (e1, m1) = ((e2, m2), err2)" by (metis prod.collapse)
  show ?thesis
  proof (rule built_evolves [OF ok room b, where P = "\<lambda>e. e = e1 \<and> HasPrefix ?r ''wfr-'' \<and> err1 = None"])
    fix e assume a: "wf_ok h (e, m1, c1)" "eng_top e ?r + 2 < 2 ^ 63"
      "\<forall>ev \<in> set (mem_evs m1 ?r). ev_Sequence ev + 2 < 2 ^ 63" "e = e1 \<and> HasPrefix ?r ''wfr-'' \<and> err1 = None"
    then have p: "HasPrefix ?r ''wfr-''" by simp
    have sq: "\<forall>ev \<in> set (mem_evs m1 ?r). 0 \<le> ev_Sequence ev \<and> ev_Sequence ev \<le> int (2 ^ 63 - 2)"
      using wf_okD(3) [OF a(1) p] a(3) by (force simp: seqs_nat_def)
    have "eng_top e1 ?r \<le> 2 ^ 63 - 2" using a(2,4) by simp
    note rt = rebase_top [OF rb sq this]
    have sm: "same_view (e, m1, c1) (eng_RunLock ?r e2, m1, c1)" using rt(3) a(4) by (simp add: same_view_def)
    note ok2 = wf_ok_same [OF a(1) sm]
    have cr: "CreateRun_locked mem_ops h now holder snap json (eng_RunLock ?r e2, m1, c1) = (w', err)"
      using run b rb rt a(4) by (auto simp: wf_CreateRun_def)
    have "room (eng_RunLock ?r e2) ?r" "seq_ok (eng_RunLock ?r e2) m1 ?r"
      using rt(4,5) by (simp_all add: room_def seq_ok_def)
    then have "evolves h ?r (eng_RunLock ?r e2, m1, c1) w'"
      using refined_evolves [OF ok2 p CreateRun_refines [OF wf_okD(1) [OF ok2] ok_synced [OF ok2 p] cr]] by simp
    then show "evolves h ?r (e, m1, c1) w'" by (rule evolves_after [OF sm])
  qed (use run b in \<open>auto simp: wf_CreateRun_def split: option.splits if_splits\<close>)
qed

lemma UpsertDelivery_evolves:
  assumes ok: "wf_ok h (e, m, c)" and room: "eng_top e (dl_RunID d) + 2 < 2 ^ 63"
    and run: "UpsertDelivery_locked mem_ops h now1 now2 holder d (e, m, c) = (w', err)"
  shows "evolves h (dl_RunID d) (e, m, c) w'"
proof (cases "live c (dl_RunID d)")
  case None
  then have "w' = (e, m, c)" using run by (auto simp: UpsertDelivery_locked_def upsertDeliveryOnce_def Let_def)
  then show ?thesis using evolves_same [OF ok] by simp
next
  case (Some p0)
  let ?r = "dl_RunID d"
  have p: "HasPrefix ?r ''wfr-''" using wf_okD(5) [OF ok, of ?r] Some by auto
  have sq: "seq_ok e m ?r" using wf_okD(4) [OF ok p] Some by simp
  have rm: "room e ?r" using room by (simp add: room_def)
  obtain e1 m1 c1 retry err1 where one: "upsertDeliveryOnce mem_ops h now1 holder d (e, m, c) = ((e1, m1, c1), retry, err1)"
    by (metis prod.collapse)
  note r1 = upsertDeliveryOnce_refines [OF wf_okD(1) [OF ok] ok_synced [OF ok p] one]
  note ev1 = refined_evolves [OF ok p r1 rm disjI1 [OF sq]]
  then have ok1: "wf_ok h (e1, m1, c1)" by (simp add: evolves_def)
  show ?thesis
  proof (cases retry)
    case False
    then show ?thesis using run one ev1 by (auto simp: UpsertDelivery_locked_def)
  next
    case True
    obtain w2 retry2 err2 where two: "upsertDeliveryOnce mem_ops h now2 holder d (e1, m1, c1) = (w2, retry2, err2)"
      by (metis prod.collapse)
    have w': "w' = w2" using run one two True by (cases retry2) (auto simp: UpsertDelivery_locked_def)
    show ?thesis
    proof (cases "live c1 ?r")
      case None
      then have "w2 = (e1, m1, c1)" using two by (simp add: upsertDeliveryOnce_def Let_def)
      then show ?thesis using ev1 w' by simp
    next
      case (Some p1)
      have "eng_top e1 ?r \<le> eng_top e ?r + 1"
        using r1 rm sq wf_okD(3) [OF ok p] Some by (simp add: refines_def del: split_paired_Ex)
      then have "room e1 ?r" using room by (simp add: room_def)
      then have ev2: "evolves h ?r (e1, m1, c1) w2"
        using upsertDeliveryOnce_refines [OF wf_okD(1) [OF ok1] _ two] Some
        by (intro body_evolves [OF ok1]) auto
      have "pr_HasRun (fst (run_state h ?r (e, m, c)))" "pr_HasRun (fst (run_state h ?r (e1, m1, c1)))"
        using ok_live [OF ok, of ?r] ok_live [OF ok1, of ?r] Some \<open>live c ?r = Some p0\<close> p
        by (auto simp: view_def split: if_splits)
      note mv = run_moves_trans [OF evolvesD(2) [OF ev1 p] evolvesD(2) [OF ev2 p] this]
      show ?thesis
        unfolding w' evolves_def using evolvesD(1) [OF ev2] mv evolvesD(3) [OF ev1] evolvesD(3) [OF ev2] by simp
    qed
  qed
qed

lemma CreateStepAttempt_evolves:
  assumes ok: "wf_ok h w" and room: "roomy h (at_RunID a) w"
    and run: "wf_CreateStepAttempt mem_ops h val now holder a w = (w', err)"
  shows "evolves h (at_RunID a) w w'"
proof -
  let ?r = "at_RunID a"
  obtain e1 m1 c1 err1 where b: "ensureBuilt mem_ops h w = ((e1, m1, c1), err1)" by (metis prod.collapse)
  let ?P = "\<lambda>e. validateInitialPanelAttempt h val a m1 = None \<and>
    CreateStepAttempt_locked mem_ops h now holder a (e, m1, c1) = (w', err)"
  show ?thesis
  proof (rule built_evolves [OF ok room b, where P = ?P])
    fix e assume a: "wf_ok h (e, m1, c1)" "eng_top e ?r + 2 < 2 ^ 63" "?P e"
    have v: "validateInitial h ?r (at_AttemptID a) (at_PanelExecution a) = None"
      using a(3) by (simp add: validateInitialPanelAttempt_def split: option.splits)
    have run': "CreateStepAttempt_locked mem_ops h now holder a (e, m1, c1) = (w', err)" using a(3) by simp
    show "evolves h ?r (e, m1, c1) w'"
    proof (rule body_evolves [OF a(1)])
      show "room e ?r" using a(2) by (simp add: room_def)
      show "refines h ?r (e, m1, c1) w'" if "synced h m1 c1 ?r x" for x
        by (rule CreateStepAttempt_refines [OF wf_okD(1) [OF a(1)] that v run'])
      show "w' = (e, m1, c1)" if "live c1 ?r = None"
        using absent_bodies(4) [OF that refl, of mem_ops h now holder e m1] run' by simp
    qed
  qed (use run b in \<open>auto simp: wf_CreateStepAttempt_def split: option.splits\<close>)
qed

lemma IncrementLoopCounter_evolves:
  assumes ok: "wf_ok h w" and room: "roomy h r w"
    and run: "wf_IncrementLoopCounter mem_ops h now holder r name w = (w', n, err)"
  shows "evolves h r w w'"
proof -
  obtain e1 m1 c1 err1 where b: "ensureBuilt mem_ops h w = ((e1, m1, c1), err1)" by (metis prod.collapse)
  show ?thesis
  proof (rule built_evolves [OF ok room b,
        where P = "\<lambda>e. IncrementLoopCounter_locked mem_ops h now holder r name (e, m1, c1) = (w', n, err)"])
    fix e assume a: "wf_ok h (e, m1, c1)" "eng_top e r + 2 < 2 ^ 63"
      "IncrementLoopCounter_locked mem_ops h now holder r name (e, m1, c1) = (w', n, err)"
    show "evolves h r (e, m1, c1) w'"
      using a IncrementLoopCounter_refines [OF wf_okD(1) [OF a(1)] _ a(3)]
      by (intro body_evolves [OF a(1)]) (auto simp: room_def IncrementLoopCounter_locked_def)
  qed (use run b in \<open>auto simp: wf_IncrementLoopCounter_def split: option.splits\<close>)
qed

lemma wf_UpsertDelivery_evolves:
  assumes ok: "wf_ok h w" and room: "roomy h (dl_RunID d) w"
    and run: "wf_UpsertDelivery mem_ops h now1 now2 holder d w = (w', err)"
  shows "evolves h (dl_RunID d) w w'"
proof -
  obtain e1 m1 c1 err1 where b: "ensureBuilt mem_ops h w = ((e1, m1, c1), err1)" by (metis prod.collapse)
  show ?thesis
    by (rule built_evolves [OF ok room b,
          where P = "\<lambda>e. UpsertDelivery_locked mem_ops h now1 now2 holder d (e, m1, c1) = (w', err)"])
      (use run b UpsertDelivery_evolves in \<open>auto simp: wf_UpsertDelivery_def with_built_def split: option.splits\<close>)
qed

lemma clear_loop_same:
  "clear_loop mem_ops xs (e, m) out = ((e', m'), out', err) \<Longrightarrow> same_view (e, m, c) (e', m', c)"
proof (induction xs arbitrary: e m out)
  case (Cons x xs)
  obtain rv clr where x: "x = (rv, clr)" by (cases x)
  let ?m = "m\<lparr>m_claims := (m_claims m)(rv_RunID rv := None)\<rparr>"
  let ?e = "e\<lparr>en_claims := trk_DropClaim (rv_RunID rv) (en_claims e)\<rparr>"
  obtain m1 where m1: "mem_ClearClaim (rv_RunID rv) m = (m1, None)" "m_events m1 = m_events m" "m_ids m1 = m_ids m"
    "m_order m1 = m_order m" "m_maxSeq m1 = m_maxSeq m"
    by (simp add: mem_ClearClaim_def)
  then have sm: "same_view (e, m, c) (?e, m1, c)"
    using events_inv_cong [of m1 m] by (simp add: same_view_def eng_top_def)
  show ?case
  proof (cases clr)
    case True
    then have "clear_loop mem_ops xs (?e, m1) (out @ [rv]) = ((e', m'), out', err)"
      using Cons.prems m1(1) x by (simp add: mem_ops_fields)
    then show ?thesis using same_view_trans [OF sm Cons.IH] by blast
  qed (use Cons x in auto)
qed simp

lemma Recover_evolves:
  assumes ok: "wf_ok h w" and run: "wf_Recover mem_ops h w = (w', out, err)"
  shows "evolves h q w w'"
proof -
  obtain e m c where w: "w = (e, m, c)" by (cases w)
  obtain e1 m1 c1 err1 where b: "ensureBuilt mem_ops h w = ((e1, m1, c1), err1)" by (metis prod.collapse)
  have k: "m1 = m" "same_view w (e1, m, c1)"
    using ensureBuilt_kept [OF ok [unfolded w] b [unfolded w]] w by simp_all
  have "same_view (e1, m, c1) w'"
    using run b k(1) clear_loop_same by (auto simp: wf_Recover_def split: option.splits prod.splits)
  then show ?thesis using evolves_same [OF ok same_view_trans [OF k(2)]] by blast
qed

theorem exec_evolves:
  assumes ok: "wf_ok h w" and c: "cmd_ok cmd" and room: "roomy h (cmd_run cmd) w"
    and run: "wf_exec h val cmd w = (w', err)"
  shows "evolves h (cmd_run cmd) w w'"
proof (cases cmd)
  case CmdRead
  obtain e m c where w: "w = (e, m, c)" by (cases w)
  then have "same_view w w'"
    using ensureBuilt_kept [OF ok [unfolded w], where err = err] run CmdRead by (cases w') auto
  then show ?thesis using evolves_same [OF ok] by blast
next
  case CmdRecover
  then show ?thesis using run Recover_evolves [OF ok] by (auto split: prod.splits)
next
  case (CmdCreateRun now holder snap json)
  then show ?thesis using run room CreateRun_evolves [OF ok] by auto
next
  case (CmdSetRunStatus now holder r v status fin)
  then show ?thesis
    using run room by (auto simp: wf_CompareAndSetRunStatus_def absent_bodies intro: with_built_evolves [OF ok] CompareAndSetRunStatus_refines)
next
  case (CmdRunResumed holder r)
  then show ?thesis
    using run room by (auto simp: wf_RecordRunResumed_def absent_bodies intro: with_built_evolves [OF ok] RecordRunResumed_refines)
next
  case (CmdLoop now holder r name)
  then show ?thesis using run room IncrementLoopCounter_evolves [OF ok] by (auto split: prod.splits)
next
  case (CmdCreateAttempt now holder a)
  then show ?thesis using run room CreateStepAttempt_evolves [OF ok] by auto
next
  case (CmdRecordOutcome now holder a oc)
  then show ?thesis
    using run room c by (auto simp: wf_RecordStepAttemptOutcome_def absent_bodies intro: with_built_evolves [OF ok] RecordStepAttemptOutcome_refines)
next
  case (CmdComplete now holder r a v oc)
  then show ?thesis
    using run room c by (auto simp: wf_CompleteStepAttempt_def absent_bodies intro: with_built_evolves [OF ok] CompleteStepAttempt_refines)
next
  case (CmdPrompt now clock holder r a ref)
  show ?thesis
  proof (cases "ref = []")
    case True
    then show ?thesis using run CmdPrompt evolves_same [OF ok] by (simp add: wf_SetStepAttemptPrompt_def)
  next
    case False
    then show ?thesis
      using run room CmdPrompt by (auto simp: wf_SetStepAttemptPrompt_def absent_bodies intro: with_built_evolves [OF ok] SetStepAttemptPrompt_refines)
  qed
next
  case (CmdExecution now holder r a cr ti reason)
  show ?thesis
  proof (cases "cr = [] \<or> ti = []")
    case True
    then show ?thesis using run CmdExecution evolves_same [OF ok] by (simp add: wf_SetStepAttemptExecution_def)
  next
    case False
    then show ?thesis
      using run room CmdExecution by (auto simp: wf_SetStepAttemptExecution_def absent_bodies intro: with_built_evolves [OF ok] SetStepAttemptExecution_refines)
  qed
next
  case (CmdHeartbeat holder r a t)
  show ?thesis
  proof (cases "a = []")
    case True
    then show ?thesis using run CmdHeartbeat evolves_same [OF ok] by (simp add: wf_SetStepAttemptHeartbeat_def)
  next
    case False
    then show ?thesis
      using run room CmdHeartbeat by (auto simp: wf_SetStepAttemptHeartbeat_def absent_bodies intro: with_built_evolves [OF ok] SetStepAttemptHeartbeat_refines)
  qed
next
  case (CmdCreateApproval now holder a)
  then show ?thesis
    using run room by (auto simp: wf_CreateApproval_def absent_bodies intro: with_built_evolves [OF ok] CreateApproval_refines)
next
  case (CmdResolveApproval now holder r a actor status reason)
  then show ?thesis
    using run room by (auto simp: wf_ResolveApproval_def absent_bodies intro: with_built_evolves [OF ok] ResolveApproval_refines)
next
  case (CmdUpsertDelivery now1 now2 holder d)
  then show ?thesis using run room wf_UpsertDelivery_evolves [OF ok] by auto
next
  case (CmdDelete now holder r)
  then show ?thesis
    using run room by (auto simp: wf_DeleteRun_def absent_bodies intro: with_built_evolves [OF ok] DeleteRun_refines)
next
  case (CmdPanel now holder r a v src dst syn)
  show ?thesis
  proof (cases "holder = []")
    case True
    then show ?thesis using run CmdPanel evolves_same [OF ok] by (simp add: wf_CompareAndSetPanelPhase_def)
  next
    case False
    then show ?thesis
      using run room c CmdPanel by (auto simp: wf_CompareAndSetPanelPhase_def absent_bodies intro: with_built_evolves [OF ok] CompareAndSetPanelPhase_refines)
  qed
qed

end
