(* ===== verification/Wf_Reach.thy ===== *)
theory Wf_Reach
  imports Wf_World
begin

text \<open>
  Restarting a repository on a store that outlived its process, the reachable worlds, and
  the locale that lifts properties of the abstract machine to sequences of commands.
\<close>

section \<open>Restart\<close>

text \<open>A store whose workflow logs replay and carry proper sequences.\<close>

definition store_ok :: "panel_hashes \<Rightarrow> wf_payload memory \<Rightarrow> bool" where
  "store_ok h m \<longleftrightarrow> events_inv m \<and> (\<forall>r. HasPrefix r ''wfr-'' \<longrightarrow> seqs_nat m r \<and>
     (\<exists>x. replay_log h m r = Inr x \<and> (\<not> pr_HasRun (fst x) \<longrightarrow> x = blank)))"

lemma wf_ok_store: "wf_ok h (e, m, c) \<Longrightarrow> store_ok h m"
  unfolding store_ok_def using wf_okD(1-3) [of h e m c] by (simp add: synced_def) blast

text \<open>Every run of the list is rebuilt from the log, whatever was cached before.\<close>

lemma catch_up_rebuilds:
  assumes inv: "events_inv m" and X: "\<And>r. HasPrefix r ''wfr-'' \<Longrightarrow> replay_log h m r = Inr (X r)"
  shows "\<exists>e' c'. catch_up_loop mem_ops (Some wf_filter) (Some (applyRunEventsLocked h)) M rs (e, m, c) = ((e', m, c'), None) \<and>
    (\<forall>r. live c' r = (if r \<in> set rs \<and> HasPrefix r ''wfr-'' then view (X r) else live c r) \<and>
      eng_top e r \<le> eng_top e' r \<and>
      (r \<in> set rs \<and> HasPrefix r ''wfr-'' \<longrightarrow> unat (max_sequence (mem_evs m r) 0) \<le> eng_top e' r))"
proof (induction rs arbitrary: e c)
  case Nil
  then show ?case by simp
next
  case (Cons r rs)
  let ?q = "word_of_int (mget_or 0 (map_of M) r) :: 64 word"
  show ?case
  proof (cases "HasPrefix r ''wfr-''")
    case False
    obtain e' c' where *: "catch_up_loop mem_ops (Some wf_filter) (Some (applyRunEventsLocked h)) M rs
        (eng_SetApplied r ?q e, m, c) = ((e', m, c'), None)"
      "\<And>r'. live c' r' = (if r' \<in> set rs \<and> HasPrefix r' ''wfr-'' then view (X r') else live c r') \<and>
        eng_top (eng_SetApplied r ?q e) r' \<le> eng_top e' r' \<and>
        (r' \<in> set rs \<and> HasPrefix r' ''wfr-'' \<longrightarrow> unat (max_sequence (mem_evs m r') 0) \<le> eng_top e' r')"
      using Cons.IH by blast
    have "eng_top e r' \<le> eng_top (eng_SetApplied r ?q e) r'" for r' by (simp add: eng_top_applied)
    then show ?thesis using *(1) order_trans [OF _ *(2) [THEN conjunct2, THEN conjunct1]] *(2) False
      by (auto simp: wf_filter_cases Let_def)
  next
    case True
    let ?e1 = "eng_SetApplied r (max_sequence (mem_evs m r) 0) (eng_RunLock r e)"
    obtain c1 where c1: "applyRunEventsLocked h r (mem_evs m r) (eng_RunLock r e, m, c) = ((?e1, m, c1), None)"
      "live c1 r = view (X r)" "\<And>r'. r' \<noteq> r \<Longrightarrow> live c1 r' = live c r'"
      using applyRunEvents_mem [OF inv X [OF True], of "eng_RunLock r e" c] by blast
    let ?e2 = "eng_SetApplied r ?q ?e1"
    obtain e' c' where *: "catch_up_loop mem_ops (Some wf_filter) (Some (applyRunEventsLocked h)) M rs (?e2, m, c1) = ((e', m, c'), None)"
      "\<And>r'. live c' r' = (if r' \<in> set rs \<and> HasPrefix r' ''wfr-'' then view (X r') else live c1 r') \<and>
        eng_top ?e2 r' \<le> eng_top e' r' \<and>
        (r' \<in> set rs \<and> HasPrefix r' ''wfr-'' \<longrightarrow> unat (max_sequence (mem_evs m r') 0) \<le> eng_top e' r')"
      using Cons.IH by blast
    have t: "eng_top e r' \<le> eng_top ?e2 r'" "unat (max_sequence (mem_evs m r) 0) \<le> eng_top ?e2 r" for r'
      by (auto simp: eng_top_applied)
    have loop: "catch_up_loop mem_ops (Some wf_filter) (Some (applyRunEventsLocked h)) M (r # rs) (e, m, c) = ((e', m, c'), None)"
      using c1(1) *(1) by (simp add: wf_filter_cases(2) [OF True] Let_def mem_Events_evs)
    have "live c' r' = (if r' \<in> set (r # rs) \<and> HasPrefix r' ''wfr-'' then view (X r') else live c r') \<and>
        eng_top e r' \<le> eng_top e' r' \<and>
        (r' \<in> set (r # rs) \<and> HasPrefix r' ''wfr-'' \<longrightarrow> unat (max_sequence (mem_evs m r') 0) \<le> eng_top e' r')" for r'
      using *(2) [of r'] c1(2,3) True t(1) [of r'] t(2) by (cases "r' = r") auto
    with loop show ?thesis by blast
  qed
qed

lemma fresh_engine: "eng_top (NewEngine f b holder) r = 0" "wm_cursor (en_watermarks (NewEngine f b holder)) = 0"
    "wm_Applied (en_watermarks (NewEngine f b holder)) r = 0" "eng_CheckOpen (NewEngine f b holder) = None"
  by (simp_all add: eng_top_def NewEngine_def NewWatermarkTracker_def wm_top_def wm_defs eng_CheckOpen_def)

lemma run_in_order:
  assumes "events_inv m" "mem_evs m r \<noteq> []"
  shows "r \<in> set (m_order m)"
proof -
  obtain ev where "ev \<in> set (mem_evs m r)" using assms(2) by (cases "mem_evs m r") auto
  then have "1 \<le> ev_RowID ev" "ev_RowID ev \<le> length (m_order m)" "m_order m ! (ev_RowID ev - 1) = r"
    using events_invD(2) [OF assms(1)] by (auto simp: event_ok_def)
  then show ?thesis by (metis One_nat_def Suc_le_eq diff_Suc_less less_le_trans nth_mem)
qed

lemma fresh_behind:
  assumes inv: "events_inv m" and s: "seqs_nat m r" and ne: "mem_evs m r \<noteq> []"
  shows "r \<in> set (wm_CheckBehind (fst (mem_Changes 0 m)) (en_watermarks (NewEngine f b holder)))"
proof -
  obtain ev where ev: "ev \<in> set (mem_evs m r)" using ne by (cases "mem_evs m r") auto
  then have "m_maxSeq m r \<noteq> None"
    using events_invD(6) [OF inv, of r] s by (auto simp: seq_recorded_def seqs_nat_def)
  then obtain q where q: "m_maxSeq m r = Some q" by blast
  then obtain ev' where "ev' \<in> set (mem_evs m r)" "ev_Sequence ev' = q"
    using events_invD(6) [OF inv, of r] by (auto simp: seq_recorded_def)
  then have "0 < q" "q < 2 ^ 63" using s by (auto simp: seqs_nat_def)
  then have "uint (word_of_int q :: 64 word) = q" by (simp add: uint_word_of_int_eq take_bit_int_eq_self)
  then have "(0 :: 64 word) < word_of_int q" using \<open>0 < q\<close> by (simp add: word_less_def)
  moreover have "map_of (fst (mem_Changes 0 m)) r = Some q"
    using Changes_eq [of 0 m r] run_in_order [OF inv ne] q by (simp add: mget_or_def)
  ultimately show ?thesis using map_of_SomeD by (fastforce simp: set_CheckBehind fresh_engine)
qed

text \<open>A new repository over such a store, after its first catch-up, is in order.\<close>

lemma restart_ok:
  assumes so: "store_ok h m" and run: "ensureBuilt mem_ops h (NewStorageRepository holder m) = (w, err)"
  shows "err = None" "fst (snd w) = m" "wf_ok h w"
proof -
  note inv = so [unfolded store_ok_def, THEN conjunct1] and logs = so [unfolded store_ok_def, THEN conjunct2, rule_format]
  let ?e = "NewEngine [] False holder" and ?c = "\<lparr>wc_proj = [], wc_deliverySeqs = []\<rparr>"
  define X where "X r = run_state h r (?e, m, ?c)" for r
  have X: "replay_log h m r = Inr (X r)" "\<not> pr_HasRun (fst (X r)) \<Longrightarrow> X r = blank" if "HasPrefix r ''wfr-''" for r
    using logs [OF that] by (auto simp: X_def run_state_log simp del: split_paired_Ex)
  obtain M k where ch: "mem_Changes 0 m = (M, k)" by (cases "mem_Changes 0 m")
  define rs where "rs = wm_CheckBehind M (en_watermarks ?e)"
  obtain e' c' where *: "catch_up_loop mem_ops (Some wf_filter) (Some (applyRunEventsLocked h)) M rs (?e, m, ?c) = ((e', m, c'), None)"
    and c': "\<And>r. live c' r = (if r \<in> set rs \<and> HasPrefix r ''wfr-'' then view (X r) else live ?c r)"
    and top: "\<And>r. r \<in> set rs \<and> HasPrefix r ''wfr-'' \<Longrightarrow> unat (max_sequence (mem_evs m r) 0) \<le> eng_top e' r"
    using catch_up_rebuilds [OF inv X(1), of M rs ?e ?c] by blast
  have adv: "eng_top (eng_AdvanceCursor k e3) r = eng_top e3 r" for e3 r
    by (simp add: eng_top_def eng_AdvanceCursor_def wm_top_def wm_defs)
  have w: "err = None \<and> (\<exists>e2. w = (e2, m, c') \<and> (\<forall>r. eng_top e2 r = eng_top e' r))"
  proof (cases "rs = []")
    case True
    then have "e' = ?e" "c' = ?c" using * by simp_all
    then show ?thesis
      using run True ch adv by (auto simp: ensureBuilt_def NewStorageRepository_def fresh_engine wf_catchUp_def eng_CatchUp_def
          rs_def Let_def)
  next
    case False
    then show ?thesis
      using run * ch adv by (auto simp: ensureBuilt_def NewStorageRepository_def fresh_engine wf_catchUp_def eng_CatchUp_def
          rs_def Let_def)
  qed
  then obtain e2 where e2: "w = (e2, m, c')" "\<And>r. eng_top e2 r = eng_top e' r" by blast
  show "err = None" "fst (snd w) = m" using w by auto
  have "run_ok h e2 m c' r" for r
  proof (cases "HasPrefix r ''wfr-''")
    case True
    note sn = logs [OF True, THEN conjunct1]
    have beh: "r \<in> set rs" if "mem_evs m r \<noteq> []" using fresh_behind [OF inv sn that] ch by (simp add: rs_def)
    have lv: "live c' r = view (X r)"
    proof (cases "mem_evs m r = []")
      case True
      then have "X r = blank" using X(1) [OF \<open>HasPrefix r _\<close>] by (simp add: replay_log_def)
      then show ?thesis using c' [of r] by simp
    qed (use beh c' [of r] True in simp)
    have "seq_ok e2 m r" if l: "live c' r \<noteq> None"
    proof -
      have "r \<in> set rs" using l c' [of r] by (auto split: if_splits)
      then have t: "unat (max_sequence (mem_evs m r) 0) \<le> eng_top e2 r" using top True e2(2) by simp
      have "\<forall>ev \<in> set (mem_evs m r). 0 \<le> ev_Sequence ev \<and> ev_Sequence ev \<le> int (2 ^ 63 - 1)"
        using sn by (force simp: seqs_nat_def)
      from max_sequence_upper [OF this, of 0] have "nat (ev_Sequence ev) \<le> unat (max_sequence (mem_evs m r) 0)"
        if "ev \<in> set (mem_evs m r)" for ev using that by simp
      then have "nat (ev_Sequence ev) \<le> eng_top e2 r" if "ev \<in> set (mem_evs m r)" for ev using order_trans [OF _ t] that by blast
      then show ?thesis unfolding seq_ok_def nat_le_iff by blast
    qed
    moreover have "synced h m c' r (X r)" using lv X [OF True] unfolding synced_def by blast
    ultimately show ?thesis using True sn unfolding run_ok_def by (simp del: split_paired_Ex) blast
  next
    case False
    then show ?thesis using c' [of r] by (simp add: run_ok_def)
  qed
  then show "wf_ok h w" using inv unfolding e2(1) wf_ok_def prod.case by blast
qed

section \<open>Reachable worlds\<close>

text \<open>
  A step of the world: one command of the repository; an operation of another client of
  the shared store (claims, content, the events of foreign runs), which leaves the logs of
  workflow runs alone; or a claim or close operation of the engine, whose effect on the
  tracker is left open.
\<close>

inductive wf_step ::
    "panel_hashes \<Rightarrow> wf_payload memory validator \<Rightarrow> wf_payload memory wf_world \<Rightarrow> wf_payload memory wf_world \<Rightarrow> bool"
  for h val where
  exec: "cmd_ok cmd \<Longrightarrow> roomy h (cmd_run cmd) w \<Longrightarrow> wf_exec h val cmd w = (w', err) \<Longrightarrow> wf_step h val w w'"
| store: "(\<forall>r. HasPrefix r ''wfr-'' \<longrightarrow> mem_evs (mem_step op m) r = mem_evs m r) \<Longrightarrow>
    wf_step h val (e, m, c) (e, mem_step op m, c)"
| engine: "wf_step h val (e, m, c) (e\<lparr>en_claims := t, en_closed := b\<rparr>, m, c)"

text \<open>
  The worlds of a store that this repository alone writes workflow runs to: the first
  process starts on an empty store, every process steps, and at any moment the process may
  stop and another one start on the same store.
\<close>

inductive wf_reachable ::
    "panel_hashes \<Rightarrow> wf_payload memory validator \<Rightarrow> wf_payload memory wf_world \<Rightarrow> bool"
  for h val where
  init: "wf_reachable h val (NewStorageRepository holder NewMemory)"
| step: "wf_reachable h val w \<Longrightarrow> wf_step h val w w' \<Longrightarrow> wf_reachable h val w'"
| reopen: "wf_reachable h val (e, m, c) \<Longrightarrow> ensureBuilt mem_ops h (NewStorageRepository holder m) = (w', err) \<Longrightarrow>
    wf_reachable h val w'"

lemma step_evolves:
  assumes "wf_step h val w w'" "wf_ok h w"
  shows "\<exists>q. evolves h q w w'"
  using assms
proof cases
  case (exec cmd err)
  then show ?thesis using exec_evolves [OF assms(2)] by blast
next
  case (store m op e c)
  then have "same_view w w'" using events_inv_step by (auto simp: same_view_def)
  then show ?thesis using assms evolves_same by blast
next
  case (engine e m c t b)
  then have "same_view w w'" by (simp add: same_view_def eng_top_def)
  then show ?thesis using assms evolves_same by blast
qed

lemma new_ok: "wf_ok h (NewStorageRepository holder NewMemory)"
proof -
  have "events_inv (NewMemory :: wf_payload memory)"
    by (auto simp: events_inv_def NewMemory_def stored_def seq_recorded_def)
  moreover have "replay_log h NewMemory r = Inr blank" for r
    by (simp add: replay_log_def NewMemory_def)
  ultimately show ?thesis
    by (auto simp: wf_ok_def run_ok_def NewStorageRepository_def synced_def seqs_nat_def NewMemory_def)
qed

lemma restart_state:
  assumes "store_ok h m" "ensureBuilt mem_ops h (NewStorageRepository holder m) = (w, err)"
  shows "run_state h r w = run_state h r (e, m, c)"
  using restart_ok(2) [OF assms] by (cases w) (simp add: run_state_def)

lemma reachable_ok: "wf_reachable h val w \<Longrightarrow> wf_ok h w"
proof (induction rule: wf_reachable.induct)
  case (step w w')
  then show ?case using step_evolves evolvesD(1) by blast
next
  case (reopen e m c holder w' err)
  then show ?case using restart_ok(3) wf_ok_store by blast
qed (rule new_ok)

lemma ok_rok: "wf_ok h w \<Longrightarrow> HasPrefix r ''wfr-'' \<Longrightarrow> rok (run_state h r w)"
  by (cases w) (auto dest: ok_synced intro: synced_rok)

lemma grow_ok: "grow h r x y \<Longrightarrow> rok x \<Longrightarrow> rok y"
  by (auto simp: grow_def intro: rok_apply)

text \<open>One abstract step on a well-formed replay state.\<close>

definition run_step :: "panel_hashes \<Rightarrow> string \<Rightarrow> replay \<Rightarrow> replay \<Rightarrow> bool" where
  "run_step h r x y \<longleftrightarrow> rok x \<and> grow h r x y"

lemma run_steps: "(grow h r)\<^sup>*\<^sup>* x y \<Longrightarrow> rok x \<Longrightarrow> (run_step h r)\<^sup>*\<^sup>* x y \<and> rok y"
proof (induction rule: rtranclp_induct)
  case (step y z)
  then show ?case using grow_ok by (auto simp: run_step_def intro: rtranclp.rtrancl_into_rtrancl)
qed simp

text \<open>What holds of the blank state and is preserved by abstract steps holds in every reachable world.\<close>

lemma moves_invariant:
  assumes "run_moves h r x y" "rok x" "P x" "P blank" "\<And>x y. P x \<Longrightarrow> run_step h r x y \<Longrightarrow> P y"
  shows "P y"
proof (cases "(grow h r)\<^sup>*\<^sup>* x y")
  case True
  then have "(run_step h r)\<^sup>*\<^sup>* x y" using run_steps assms(2) by blast
  then show ?thesis using assms(3) by (induction rule: rtranclp_induct) (auto intro: assms(5))
next
  case False
  then show ?thesis using assms(1,4) unfolding run_moves_def by blast
qed

lemma reachable_state:
  assumes "wf_reachable h val w" "HasPrefix r ''wfr-''" "P blank" "\<And>x y. P x \<Longrightarrow> run_step h r x y \<Longrightarrow> P y"
  shows "P (run_state h r w)"
  using assms(1)
proof (induction rule: wf_reachable.induct)
  case (init holder)
  then show ?case using assms(3) by (simp add: NewStorageRepository_def run_state_def replay_log_def NewMemory_def)
next
  case (step w w')
  note ok = reachable_ok [OF step(1)]
  obtain q where "evolves h q w w'" using step_evolves [OF step(2) ok] ..
  from evolves_moves [OF this assms(2)] show ?case
    using moves_invariant [where P = P] ok_rok [OF ok assms(2)] step(3) assms(3,4) by blast
next
  case (reopen e m c holder w' err)
  then show ?case
    using restart_state [OF wf_ok_store reopen(2)] reachable_ok [OF reopen(1)] by metis
qed

section \<open>Lifting the abstract machine\<close>

text \<open>
  A system whose steps are matched by steps of an abstract machine on the observed state,
  while an invariant holds: what abstract steps preserve holds along every execution.
\<close>

locale simulation =
  fixes step :: "'w \<Rightarrow> 'w \<Rightarrow> bool" and inv :: "'w \<Rightarrow> bool"
    and obs :: "'w \<Rightarrow> 'a" and astep :: "'a \<Rightarrow> 'a \<Rightarrow> bool"
  assumes inv_step: "inv w \<Longrightarrow> step w w' \<Longrightarrow> inv w'"
    and sim: "inv w \<Longrightarrow> step w w' \<Longrightarrow> astep\<^sup>*\<^sup>* (obs w) (obs w')"
begin

lemma inv_steps: "step\<^sup>*\<^sup>* w w' \<Longrightarrow> inv w \<Longrightarrow> inv w'"
  by (induction rule: rtranclp_induct) (auto dest: inv_step)

lemma sim_steps: "step\<^sup>*\<^sup>* w w' \<Longrightarrow> inv w \<Longrightarrow> astep\<^sup>*\<^sup>* (obs w) (obs w')"
proof (induction rule: rtranclp_induct)
  case (step y z)
  then show ?case using sim [of y z] inv_steps [of w y] by (auto intro: rtranclp_trans)
qed simp

lemma preserved:
  assumes "step\<^sup>*\<^sup>* w w'" "inv w" "P (obs w)" "\<And>x y. P x \<Longrightarrow> astep x y \<Longrightarrow> P y"
  shows "P (obs w')"
  using sim_steps [OF assms(1,2)] assms(3) by (induction rule: rtranclp_induct) (auto intro: assms(4))

end

text \<open>
  The steps during which a run lives on; they are matched by allowed appends.
\<close>

definition alive_step ::
    "panel_hashes \<Rightarrow> wf_payload memory validator \<Rightarrow> string \<Rightarrow> wf_payload memory wf_world \<Rightarrow> wf_payload memory wf_world \<Rightarrow> bool" where
  "alive_step h val r w w' \<longleftrightarrow> wf_step h val w w' \<and> map_of (wc_proj (snd (snd w'))) r \<noteq> None"

interpretation wfr: simulation "alive_step h val r" "\<lambda>w. wf_ok h w \<and> HasPrefix r ''wfr-''" "run_state h r" "run_step h r"
  for h val r
proof
  fix w w' assume a: "wf_ok h w \<and> HasPrefix r ''wfr-''" "alive_step h val r w w'"
  then obtain q where q: "evolves h q w w'" using step_evolves unfolding alive_step_def by blast
  then show ok: "wf_ok h w' \<and> HasPrefix r ''wfr-''" using a evolvesD(1) by blast
  have rk: "rok (run_state h r w)" using a ok_rok by blast
  have m: "run_moves h r (run_state h r w) (run_state h r w')"
    using evolves_moves [OF q] a by blast
  obtain e' m' c' where w': "w' = (e', m', c')" by (cases w')
  have "run_state h r w' \<noteq> blank"
    using ok_live [of h e' m' c' r] ok a(2) w' by (auto simp: alive_step_def)
  then show "(run_step h r)\<^sup>*\<^sup>* (run_state h r w) (run_state h r w')"
    using m run_steps rk unfolding run_moves_def by blast
qed

end
