(* ===== verification/Wf_History.thy ===== *)
theory Wf_History
  imports Wf_Reach
begin

text \<open>
  What one allowed append can do to each part of a projection: the run, the attempts, the
  audit lists, the loop counters and the approvals.  The properties of whole executions
  rest on these facts through the simulation locale.
\<close>

section \<open>The cases of one step\<close>

lemmas apply_defs = applyRunCreated_def applyRunStatusChanged_def applyAttemptStarted_def applyAttemptPrompt_def
  applyAttemptExecution_def applyAttemptHeartbeat_def applyAttemptCompleted_def applyPanelPhase_def
  applyLoopIncremented_def applyApprovalCreated_def applyApprovalResolved_def applyDeliveryUpserted_def

text \<open>What each kind of event leaves alone.\<close>

lemma frames:
  "applyRunCreated ev (p, st) = Inr (p', st') \<Longrightarrow> pr_Attempts p' = pr_Attempts p \<and> pr_Transitions p' = pr_Transitions p \<and> pr_LoopCounters p' = pr_LoopCounters p \<and> pr_Approvals p' = pr_Approvals p"
  "applyRunStatusChanged ev (p, st) = Inr (p', st') \<Longrightarrow> pr_Attempts p' = pr_Attempts p \<and> pr_Transitions p' = pr_Transitions p \<and> pr_LoopCounters p' = pr_LoopCounters p \<and> pr_Approvals p' = pr_Approvals p"
  "applyAttemptStarted h ev (p, st) = Inr (p', st') \<Longrightarrow> pr_Run p' = pr_Run p \<and> pr_Transitions p' = pr_Transitions p \<and> pr_LoopCounters p' = pr_LoopCounters p \<and> pr_Approvals p' = pr_Approvals p"
  "applyAttemptPrompt ev (p, st) = Inr (p', st') \<Longrightarrow> pr_Run p' = pr_Run p \<and> pr_Transitions p' = pr_Transitions p \<and> pr_LoopCounters p' = pr_LoopCounters p \<and> pr_Approvals p' = pr_Approvals p"
  "applyAttemptExecution ev (p, st) = Inr (p', st') \<Longrightarrow> pr_Run p' = pr_Run p \<and> pr_Transitions p' = pr_Transitions p \<and> pr_LoopCounters p' = pr_LoopCounters p \<and> pr_Approvals p' = pr_Approvals p"
  "applyAttemptHeartbeat ev (p, st) = Inr (p', st') \<Longrightarrow> pr_Run p' = pr_Run p \<and> pr_Transitions p' = pr_Transitions p \<and> pr_LoopCounters p' = pr_LoopCounters p \<and> pr_Approvals p' = pr_Approvals p"
  "applyAttemptCompleted ev (p, st) = Inr (p', st') \<Longrightarrow> pr_Run p' = pr_Run p \<and> pr_LoopCounters p' = pr_LoopCounters p \<and> pr_Approvals p' = pr_Approvals p"
  "applyPanelPhase h ev (p, st) = Inr (p', st') \<Longrightarrow> pr_Run p' = pr_Run p \<and> pr_Transitions p' = pr_Transitions p \<and> pr_LoopCounters p' = pr_LoopCounters p \<and> pr_Approvals p' = pr_Approvals p"
  "applyLoopIncremented ev (p, st) = Inr (p', st') \<Longrightarrow> pr_Run p' = pr_Run p \<and> pr_Attempts p' = pr_Attempts p \<and> pr_Transitions p' = pr_Transitions p \<and> pr_Approvals p' = pr_Approvals p"
  "applyApprovalCreated ev (p, st) = Inr (p', st') \<Longrightarrow> pr_Run p' = pr_Run p \<and> pr_Attempts p' = pr_Attempts p \<and> pr_Transitions p' = pr_Transitions p \<and> pr_LoopCounters p' = pr_LoopCounters p"
  "applyApprovalResolved ev (p, st) = Inr (p', st') \<Longrightarrow> pr_Run p' = pr_Run p \<and> pr_Attempts p' = pr_Attempts p \<and> pr_Transitions p' = pr_Transitions p \<and> pr_LoopCounters p' = pr_LoopCounters p"
  "applyDeliveryUpserted ev (p, st) = Inr (p', st') \<Longrightarrow> pr_Run p' = pr_Run p \<and> pr_Attempts p' = pr_Attempts p \<and> pr_Transitions p' = pr_Transitions p \<and> pr_LoopCounters p' = pr_LoopCounters p \<and> pr_Approvals p' = pr_Approvals p"
  by (auto simp: apply_defs bad_payload_def Let_def split: payload_splits)

lemma run_stepE:
  assumes "run_step h r (p, st) (p', st')"
  obtains ev pl where "rok (p, st)" "ev_Payload ev = [pl]" "ev_RunID ev = r" "ev_Kind ev = kind_of pl"
    "may h r (derive_active (p, st)) pl" "apply_event h ev (p, st) = Inr (p', st')" "is_creation pl \<or> pr_HasRun p"
  using assms by (auto simp: run_step_def grow_def allowed_def)

lemma step_run:
  assumes "run_step h r (p, st) (p', st')"
  shows "pr_Run p' = pr_Run p \<or>
    (pr_Run p = None \<and> (\<exists>run. pr_Run p' = Some run \<and> wr_RunID run = r \<and> wr_Status run = WfRunStatusPending \<and> wr_Version run = 1)) \<or>
    (\<exists>run s fin. pr_Run p = Some run \<and> ValidRunTransition (wr_Status run) s \<and>
       (IsTerminalRunStatus s \<longrightarrow> fin \<noteq> None) \<and>
       pr_Run p' = Some (run\<lparr>wr_Status := s, wr_Version := wr_Version run + 1, wr_FinishedAt := fin\<rparr>))"
proof -
  obtain ev pl where *: "rok (p, st)" "ev_Payload ev = [pl]" "ev_RunID ev = r" "ev_Kind ev = kind_of pl"
    "may h r (derive_active (p, st)) pl" "apply_event h ev (p, st) = Inr (p', st')"
    using run_stepE [OF assms] by metis
  show ?thesis
  proof (cases pl)
    case (PRunCreated q)
    then show ?thesis using * by (auto simp: apply_kind apply_defs rok_def Let_def split: if_splits)
  next
    case (PRunStatusChanged q)
    then obtain run where run: "pr_Run p = Some run" "ValidRunTransition (wr_Status run) (scp_Status q)"
      "scp_Version q = wr_Version run + 1" "IsTerminalRunStatus (scp_Status q) \<longrightarrow> scp_FinishedAt q \<noteq> None"
      using * by auto
    then have "pr_Run p' = Some (run\<lparr>wr_Status := scp_Status q, wr_Version := wr_Version run + 1, wr_FinishedAt := scp_FinishedAt q\<rparr>)"
      using * PRunStatusChanged by (auto simp: apply_kind apply_defs)
    then show ?thesis using run by blast
  qed (use * in \<open>auto simp: apply_kind dest: frames\<close>)
qed

section \<open>Attempts\<close>

text \<open>
  What a completed attempt keeps for ever: its status and version, its outcome, route,
  evidence and finishing time, and the panel it carried.
\<close>

definition settled :: "StepAttempt \<Rightarrow> _" where
  "settled a = (at_Status a, at_Version a, at_OutputRef a, at_OutputDigest a, at_ErrorRef a, at_ToStepID a,
     at_TransitionIndex a, at_MatchDigest a, at_DecisionJSON a, at_EvidenceJSON a, at_FinishedAt a, at_PanelExecution a)"

definition att_kept :: "StepAttempt \<Rightarrow> StepAttempt \<Rightarrow> bool" where
  "att_kept a b \<longleftrightarrow> at_AttemptID b = at_AttemptID a \<and> at_RunID b = at_RunID a \<and> at_StepID b = at_StepID a \<and>
     at_AttemptNo b = at_AttemptNo a \<and> (at_PromptRef a \<noteq> [] \<longrightarrow> at_PromptRef b = at_PromptRef a) \<and>
     (IsTerminalAttemptStatus (at_Status a) \<longrightarrow> settled b = settled a)"

lemma att_kept_refl [simp]: "att_kept a a"
  by (simp add: att_kept_def)

lemma att_kept_trans: "att_kept a b \<Longrightarrow> att_kept b c \<Longrightarrow> att_kept a c"
  by (auto simp: att_kept_def settled_def)

definition att_grow :: "StepAttempt list \<Rightarrow> StepAttempt list \<Rightarrow> bool" where
  "att_grow as bs \<longleftrightarrow> length as \<le> length bs \<and> (\<forall>i < length as. att_kept (as ! i) (bs ! i))"

lemma att_grow_refl [simp]: "att_grow as as"
  by (simp add: att_grow_def)

lemma att_grow_trans:
  assumes "att_grow as bs" "att_grow bs cs"
  shows "att_grow as cs"
proof -
  have "att_kept (as ! i) (cs ! i)" if "i < length as" for i
    using assms that att_kept_trans [of "as ! i" "bs ! i" "cs ! i"] by (auto simp: att_grow_def)
  then show ?thesis using assms by (auto simp: att_grow_def)
qed

lemma att_grow_update:
  assumes "i < length as \<Longrightarrow> att_kept (as ! i) b"
  shows "att_grow as (as[i := b])"
proof -
  have "att_kept (as ! k) (as[i := b] ! k)" if "k < length as" for k
    using assms that by (cases "k = i") simp_all
  then show ?thesis by (simp add: att_grow_def)
qed

lemma att_grow_snoc: "att_grow as (as @ [b])"
  by (simp add: att_grow_def nth_append)

lemma update_fresh: "(as @ [a])[length as := b] = as @ [b]"
  by simp

lemma complete_attempt_status [simp]: "at_Status (complete_attempt q a) = acp_Status q"
  by (simp add: complete_attempt_def Let_def)

lemma valid_not_terminal:
  assumes "ValidAttemptTransition s t"
  shows "\<not> IsTerminalAttemptStatus s"
proof -
  have "s = ''pending'' \<or> s = ''running''"
    using assms by (auto simp: ValidAttemptTransition_def AttemptStatusPending_def AttemptStatusRunning_def split: if_splits)
  then show ?thesis by (auto simp: IsTerminalAttemptStatus_def attempt_status_defs)
qed

text \<open>The attempts after one step: one of them changed in place, or a new one at the end.\<close>

lemma step_attempts:
  assumes "run_step h r (p, st) (p', st')"
  shows "pr_Attempts p' = pr_Attempts p \<or>
    (\<exists>i b. i < length (pr_Attempts p) \<and> pr_Attempts p' = (pr_Attempts p)[i := b] \<and> att_kept (pr_Attempts p ! i) b \<and>
       (at_Status b = at_Status (pr_Attempts p ! i) \<or> ValidAttemptTransition (at_Status (pr_Attempts p ! i)) (at_Status b))) \<or>
    (\<exists>b. pr_Attempts p' = pr_Attempts p @ [b] \<and> at_RunID b = r \<and>
       attempt_index (at_AttemptID b) (pr_Attempts p) = None \<and>
       \<not> list_ex (\<lambda>a. at_StepID a = at_StepID b \<and> at_AttemptNo a = at_AttemptNo b) (pr_Attempts p) \<and>
       (at_Status b = AttemptStatusRunning \<or> IsTerminalAttemptStatus (at_Status b)))"
    (is "?same \<or> ?upd \<or> ?new")
proof -
  obtain ev pl where *: "rok (p, st)" "ev_Payload ev = [pl]" "ev_RunID ev = r" "ev_Kind ev = kind_of pl"
    "may h r (derive_active (p, st)) pl" "apply_event h ev (p, st) = Inr (p', st')"
    using run_stepE [OF assms] by metis
  note look = attempt_lookup [OF *(1)]
  have upd: ?upd if "attempt_index k (pr_Attempts p) = Some i" "pr_Attempts p' = (pr_Attempts p)[i := b]"
      "att_kept (pr_Attempts p ! i) b"
      "at_Status b = at_Status (pr_Attempts p ! i) \<or> ValidAttemptTransition (at_Status (pr_Attempts p ! i)) (at_Status b)" for k i b
    using attempt_index_hit [OF that(1)] that(2-4) by blast
  show ?thesis
  proof (cases pl)
    case (PAttemptStarted q)
    have nt: "\<not> taken_attempt (asp_Attempt q) (pr_Attempts p)" "at_RunID (asp_Attempt q) = r" using * PAttemptStarted by auto
    have no: "rb_attemptIdx st (at_AttemptID (asp_Attempt q)) = None" using not_taken_index [OF nt(1)] look by simp
    then have "pr_Attempts p' = pr_Attempts p @ [(asp_Attempt q)\<lparr>at_Status := AttemptStatusRunning, at_Version := 1\<rparr>]"
      using * PAttemptStarted
      by (auto simp: apply_kind apply_defs upsert_def Let_def split: option.splits if_splits)
    then have ?new using nt not_taken_index [OF nt(1)] by (auto simp: taken_attempt_def list_ex_iff)
    then show ?thesis by blast
  next
    case (PAttemptPrompt q)
    then obtain i where i: "attempt_index (app_AttemptID q) (pr_Attempts p) = Some i" "at_PromptRef (pr_Attempts p ! i) = []"
      using * by (auto simp: on_index_def split: option.splits)
    then have "pr_Attempts p' = (pr_Attempts p)[i := (pr_Attempts p ! i)\<lparr>at_PromptRef := app_PromptRef q\<rparr>]"
      using * PAttemptPrompt by (auto simp: apply_kind apply_defs)
    from upd [OF i(1) this] i(2) show ?thesis by (simp add: att_kept_def settled_def)
  next
    case (PAttemptExecution q)
    then obtain i where i: "attempt_index (aep_AttemptID q) (pr_Attempts p) = Some i"
      using * by (auto simp: on_index_def split: option.splits)
    then obtain b where "pr_Attempts p' = (pr_Attempts p)[i := b]" "att_kept (pr_Attempts p ! i) b" "at_Status b = at_Status (pr_Attempts p ! i)"
      using * PAttemptExecution by (auto simp: apply_kind apply_defs Let_def att_kept_def settled_def)
    from upd [OF i this(1,2)] this(3) show ?thesis by simp
  next
    case (PAttemptHeartbeat q)
    then obtain i where i: "attempt_index (ahp_AttemptID q) (pr_Attempts p) = Some i"
      using * by (auto simp: on_index_def split: option.splits)
    let ?b = "(pr_Attempts p ! i)\<lparr>at_LastHeartbeatAt := ahp_HeartbeatAt q\<rparr>"
    have "pr_Attempts p' = (pr_Attempts p)[i := ?b] \<or> ?same"
      using * PAttemptHeartbeat i by (auto simp: apply_kind apply_defs Let_def split: if_splits)
    then show ?thesis using upd [OF i, of ?b] by (auto simp: att_kept_def settled_def)
  next
    case (PAttemptCompleted q)
    have m: "may h r (derive_active (p, st)) (PAttemptCompleted q)" using * PAttemptCompleted by simp
    show ?thesis
    proof (cases "attempt_index (acp_AttemptID q) (pr_Attempts p)")
      case None
      let ?b = "complete_attempt q (new_attempt (acp_AttemptID q) r)"
      have "rb_attemptIdx st (acp_AttemptID q) = None" using None look by simp
      then have "pr_Attempts p' = pr_Attempts p @ [?b]"
        using * PAttemptCompleted by (auto simp: apply_kind apply_defs Let_def split: if_splits)
      moreover have "at_RunID ?b = r" "at_AttemptID ?b = acp_AttemptID q" "at_StepID ?b = acp_StepID q"
        "at_AttemptNo ?b = acp_AttemptNo q" "at_Status ?b = acp_Status q"
        using m None by (auto simp: complete_attempt_def new_attempt_def Let_def)
      ultimately have ?new using m None by (intro exI [of _ ?b]) simp
      then show ?thesis by blast
    next
      case (Some i)
      let ?a = "pr_Attempts p ! i" and ?b = "complete_attempt q (pr_Attempts p ! i)"
      have "rb_attemptIdx st (acp_AttemptID q) = Some i" using Some look by simp
      then have "pr_Attempts p' = (pr_Attempts p)[i := ?b]"
        using * PAttemptCompleted by (auto simp: apply_kind apply_defs Let_def split: if_splits)
      moreover have v: "ValidAttemptTransition (at_Status ?a) (at_Status ?b)" "\<not> IsTerminalAttemptStatus (at_Status ?a)"
        using m Some valid_not_terminal by auto
      moreover have "att_kept ?a ?b"
        using m Some v by (auto simp: att_kept_def complete_attempt_def Let_def)
      ultimately show ?thesis using upd [OF Some, of ?b] by blast
    qed
  next
    case (PPanelPhase q)
    then obtain i where i: "attempt_index (ppp_AttemptID q) (pr_Attempts p) = Some i" "\<not> IsTerminalAttemptStatus (at_Status (pr_Attempts p ! i))"
      using * by (auto simp: on_index_def split: option.splits)
    then obtain b where "pr_Attempts p' = (pr_Attempts p)[i := b]" "att_kept (pr_Attempts p ! i) b" "at_Status b = at_Status (pr_Attempts p ! i)"
      using * PPanelPhase by (auto simp: apply_kind apply_defs Let_def att_kept_def settled_def split: option.splits if_splits)
    from upd [OF i(1) this(1,2)] this(3) show ?thesis by simp
  qed (use * in \<open>auto simp: apply_kind dest: frames\<close>)
qed

lemma step_att_grow: "run_step h r (p, st) (p', st') \<Longrightarrow> att_grow (pr_Attempts p) (pr_Attempts p')"
  by (drule step_attempts) (auto intro: att_grow_update att_grow_snoc)

section \<open>Audit lists, counters and approvals\<close>

lemma routed_status:
  "IsTerminalAttemptStatus s \<Longrightarrow> s \<notin> unrouted \<Longrightarrow> s \<in> {AttemptStatusSucceeded, AttemptStatusFailed}"
  by (auto simp: IsTerminalAttemptStatus_def unrouted_def)

lemma completed_attempt:
  assumes "rok (p, st)" "applyAttemptCompleted ev (p, st) = Inr (p', st')" "ev_Payload ev = [PAttemptCompleted q]"
  shows "\<exists>a \<in> set (pr_Attempts p'). at_AttemptID a = acp_AttemptID q \<and> at_Status a = acp_Status q"
proof (cases "rb_attemptIdx st (acp_AttemptID q)")
  case None
  then have "complete_attempt q (new_attempt (acp_AttemptID q) (ev_RunID ev)) \<in> set (pr_Attempts p')"
    using assms by (auto simp: apply_defs Let_def split: if_splits)
  then show ?thesis by (rule bexI [rotated]) (simp add: new_attempt_def)
next
  case (Some i)
  then have i: "i < length (pr_Attempts p)" "at_AttemptID (pr_Attempts p ! i) = acp_AttemptID q"
    using attempt_lookup [OF assms(1)] attempt_index_hit by simp_all
  then have "complete_attempt q (pr_Attempts p ! i) \<in> set (pr_Attempts p')"
    using assms Some by (auto simp: apply_defs Let_def set_update_memI split: if_splits)
  then show ?thesis by (rule bexI [rotated]) (simp add: i)
qed

lemma step_transitions:
  assumes "run_step h r (p, st) (p', st')"
  shows "\<exists>ts. pr_Transitions p' = pr_Transitions p @ ts \<and> (\<forall>t \<in> set ts. tr_RunID t = r \<and> tr_ToStepID t \<noteq> [] \<and>
    (\<exists>a \<in> set (pr_Attempts p'). at_AttemptID a = tr_FromAttemptID t \<and> at_Status a \<in> {AttemptStatusSucceeded, AttemptStatusFailed}))"
proof -
  obtain ev pl where *: "rok (p, st)" "ev_Payload ev = [pl]" "ev_RunID ev = r" "ev_Kind ev = kind_of pl"
    "may h r (derive_active (p, st)) pl" "apply_event h ev (p, st) = Inr (p', st')"
    using run_stepE [OF assms] by metis
  show ?thesis
  proof (cases pl)
    case (PAttemptCompleted q)
    then have m: "IsTerminalAttemptStatus (acp_Status q)" "acp_ToStepID q \<noteq> [] \<longrightarrow> acp_Status q \<notin> unrouted"
      and ap: "applyAttemptCompleted ev (p, st) = Inr (p', st')" using * by (simp_all add: apply_kind)
    define ts where "ts = (if acp_ToStepID q = [] then [] else [\<lparr>tr_RunID = r, tr_FromAttemptID = acp_AttemptID q,
      tr_ToStepID = acp_ToStepID q, tr_TransitionIndex = acp_TransitionIndex q, tr_MatchDigest = acp_MatchDigest q,
      tr_DecisionJSON = acp_DecisionJSON q, tr_CreatedAt = acp_CreatedAt q\<rparr>])"
    have "pr_Transitions p' = pr_Transitions p @ ts"
      using ap * PAttemptCompleted by (auto simp: ts_def applyAttemptCompleted_def Let_def split: option.splits if_splits)
    moreover have "\<forall>t \<in> set ts. tr_RunID t = r \<and> tr_ToStepID t \<noteq> [] \<and>
        tr_FromAttemptID t = acp_AttemptID q \<and> acp_Status q \<in> {AttemptStatusSucceeded, AttemptStatusFailed}"
      using m routed_status by (simp add: ts_def)
    ultimately show ?thesis using completed_attempt [OF *(1) ap] * PAttemptCompleted by (metis list.inject)
  qed (use * in \<open>auto simp: apply_kind dest: frames\<close>)
qed

text \<open>Lists whose entries are merged by key and only ever updated in place or appended.\<close>

definition keyed_grow :: "('a \<Rightarrow> 'k) \<Rightarrow> ('a \<Rightarrow> 'a \<Rightarrow> bool) \<Rightarrow> 'a list \<Rightarrow> 'a list \<Rightarrow> bool" where
  "keyed_grow key R xs ys \<longleftrightarrow> length xs \<le> length ys \<and> (\<forall>i < length xs. key (ys ! i) = key (xs ! i) \<and> R (xs ! i) (ys ! i))"

lemma keyed_grow_refl: "(\<And>x. R x x) \<Longrightarrow> keyed_grow key R xs xs"
  by (simp add: keyed_grow_def)

lemma keyed_grow_update:
  assumes "\<And>x. R x x" "i < length xs \<Longrightarrow> key b = key (xs ! i) \<and> R (xs ! i) b"
  shows "keyed_grow key R xs (xs[i := b])"
proof -
  have "key (xs[i := b] ! k) = key (xs ! k) \<and> R (xs ! k) (xs[i := b] ! k)" if "k < length xs" for k
    using assms that by (cases "k = i") simp_all
  then show ?thesis by (simp add: keyed_grow_def)
qed

lemma keyed_grow_snoc: "(\<And>x. R x x) \<Longrightarrow> keyed_grow key R xs (xs @ [b])"
  by (simp add: keyed_grow_def nth_append)

lemma keyed_grow_trans:
  assumes "keyed_grow key R xs ys" "keyed_grow key R ys zs" "\<And>x y z. R x y \<Longrightarrow> R y z \<Longrightarrow> R x z"
  shows "keyed_grow key R xs zs"
  unfolding keyed_grow_def
proof (intro conjI allI impI)
  show "length xs \<le> length zs" using assms(1,2) by (simp add: keyed_grow_def)
  fix i assume i: "i < length xs"
  then have "i < length ys" using assms(1) by (simp add: keyed_grow_def)
  with i assms(1,2) show "key (zs ! i) = key (xs ! i)" by (simp add: keyed_grow_def)
  show "R (xs ! i) (zs ! i)"
  proof (rule assms(3))
    show "R (xs ! i) (ys ! i)" using assms(1) i by (simp add: keyed_grow_def)
    show "R (ys ! i) (zs ! i)" using assms(2) \<open>i < length ys\<close> by (simp add: keyed_grow_def)
  qed
qed

abbreviation lc_key :: "LoopCounter \<Rightarrow> string \<times> string" where
  "lc_key \<equiv> \<lambda>l. (lc_RunID l, lc_LoopName l)"

lemma step_loops:
  assumes "run_step h r (p, st) (p', st')"
  shows "pr_LoopCounters p' = pr_LoopCounters p \<or>
    (\<exists>i b. i < length (pr_LoopCounters p) \<and> pr_LoopCounters p' = (pr_LoopCounters p)[i := b] \<and>
       lc_key b = lc_key (pr_LoopCounters p ! i) \<and> lc_Iterations b = max 1 (lc_Iterations (pr_LoopCounters p ! i) + 1)) \<or>
    (\<exists>b. pr_LoopCounters p' = pr_LoopCounters p @ [b] \<and> lc_RunID b = r \<and> lc_Iterations b = 1)"
    (is "?same \<or> ?upd \<or> ?new")
proof -
  obtain ev pl where *: "rok (p, st)" "ev_Payload ev = [pl]" "ev_RunID ev = r" "ev_Kind ev = kind_of pl"
    "may h r (derive_active (p, st)) pl" "apply_event h ev (p, st) = Inr (p', st')"
    using run_stepE [OF assms] by metis
  show ?thesis
  proof (cases pl)
    case (PLoopIncremented q)
    let ?b = "\<lparr>lc_RunID = r, lc_LoopName = lip_LoopName q, lc_Iterations = lip_Iterations q\<rparr>"
    have ix: "rb_loopIdx st (r, lip_LoopName q) =
        find_index (\<lambda>lc. lc_RunID lc = r \<and> lc_LoopName lc = lip_LoopName q) (pr_LoopCounters p)"
    proof -
      have "idx_ok lc_key (pr_LoopCounters p) (rb_loopIdx st)" using *(1) by (simp add: rok_def)
      from idx_ok_lookup [OF this, of "(r, lip_LoopName q)"] show ?thesis by simp
    qed
    have m: "may h r (derive_active (p, st)) (PLoopIncremented q)" using * PLoopIncremented by simp
    show ?thesis
    proof (cases "find_index (\<lambda>lc. lc_RunID lc = r \<and> lc_LoopName lc = lip_LoopName q) (pr_LoopCounters p)")
      case None
      then have "pr_LoopCounters p' = pr_LoopCounters p @ [?b]" "lip_Iterations q = 1"
        using * PLoopIncremented ix m by (auto simp: apply_kind apply_defs upsert_def Let_def)
      then have ?new by (intro exI [of _ ?b]) simp
      then show ?thesis by blast
    next
      case (Some i)
      then have "pr_LoopCounters p' = (pr_LoopCounters p)[i := ?b]"
        "lip_Iterations q = max 1 (lc_Iterations (pr_LoopCounters p ! i) + 1)"
        using * PLoopIncremented ix m by (auto simp: apply_kind apply_defs upsert_def Let_def)
      moreover have "i < length (pr_LoopCounters p)" "lc_key (pr_LoopCounters p ! i) = (r, lip_LoopName q)"
        using find_index_bound [OF Some] find_index_hit [OF Some] by auto
      ultimately have ?upd by (intro exI [of _ i] exI [of _ ?b]) simp
      then show ?thesis by blast
    qed
  qed (use * in \<open>auto simp: apply_kind dest: frames\<close>)
qed

lemma step_approvals:
  assumes "run_step h r (p, st) (p', st')"
  shows "pr_Approvals p' = pr_Approvals p \<or>
    (\<exists>i b. i < length (pr_Approvals p) \<and> pr_Approvals p' = (pr_Approvals p)[i := b] \<and>
       ap_ApprovalID b = ap_ApprovalID (pr_Approvals p ! i) \<and> ap_RunID b = ap_RunID (pr_Approvals p ! i) \<and>
       ap_Status (pr_Approvals p ! i) = ''pending'' \<and> ap_Status b \<in> {''approved'', ''rejected''}) \<or>
    (\<exists>b. pr_Approvals p' = pr_Approvals p @ [b] \<and> ap_RunID b = r)"
    (is "?same \<or> ?upd \<or> ?new")
proof -
  obtain ev pl where *: "rok (p, st)" "ev_Payload ev = [pl]" "ev_RunID ev = r" "ev_Kind ev = kind_of pl"
    "may h r (derive_active (p, st)) pl" "apply_event h ev (p, st) = Inr (p', st')"
    using run_stepE [OF assms] by metis
  note look = approval_lookup [OF *(1)]
  show ?thesis
  proof (cases pl)
    case (PApprovalCreated q)
    then have "pr_Approvals p' = pr_Approvals p @ [pcp_Approval q]" "ap_RunID (pcp_Approval q) = r"
      using * look by (auto simp: apply_kind apply_defs upsert_def Let_def)
    then show ?thesis by blast
  next
    case (PApprovalResolved q)
    then obtain i where i: "approval_index (prp_ApprovalID q) (pr_Approvals p) = Some i"
      "ap_Status (pr_Approvals p ! i) = ''pending''" "prp_Status q \<in> {''approved'', ''rejected''}"
      using * by (auto simp: on_index_def split: option.splits)
    let ?b = "(pr_Approvals p ! i)\<lparr>ap_Status := prp_Status q, ap_Actor := prp_Actor q, ap_Reason := prp_Reason q,
      ap_ResolvedAt := Some (prp_ResolvedAt q)\<rparr>"
    have "pr_Approvals p' = (pr_Approvals p)[i := ?b]"
      using * PApprovalResolved i(1) look by (auto simp: apply_kind apply_defs Let_def)
    then have ?upd using i approval_index_hit [OF i(1)] by (intro exI [of _ i] exI [of _ ?b]) simp
    then show ?thesis by blast
  qed (use * in \<open>auto simp: apply_kind dest: frames\<close>)
qed

lemma step_loops_grow:
  "run_step h r (p, st) (p', st') \<Longrightarrow>
     keyed_grow lc_key (\<lambda>a b. lc_Iterations a \<le> lc_Iterations b) (pr_LoopCounters p) (pr_LoopCounters p')"
  by (drule step_loops) (auto intro!: keyed_grow_refl keyed_grow_update keyed_grow_snoc)

text \<open>A resolved approval is not touched again.\<close>

definition approval_kept :: "ApprovalRecord \<Rightarrow> ApprovalRecord \<Rightarrow> bool" where
  "approval_kept a b \<longleftrightarrow> (ap_Status a \<noteq> ''pending'' \<longrightarrow> b = a)"

lemma approval_kept_refl [simp]: "approval_kept a a"
  by (simp add: approval_kept_def)

lemma approval_kept_trans: "approval_kept a b \<Longrightarrow> approval_kept b c \<Longrightarrow> approval_kept a c"
  by (auto simp: approval_kept_def)

lemma step_approvals_grow:
  "run_step h r (p, st) (p', st') \<Longrightarrow> keyed_grow ap_ApprovalID approval_kept (pr_Approvals p) (pr_Approvals p')"
  by (drule step_approvals)
    (auto intro!: keyed_grow_refl keyed_grow_update keyed_grow_snoc simp: approval_kept_def)

end
