(* ===== verification/Wf_Errors.thy ===== *)
theory Wf_Errors
  imports Wf_Reach
begin

text \<open>
  Error behaviour: an operation of the workflow repository that reports an error has
  written nothing.
\<close>

text \<open>A result that, if it is an error, leaves the store as it was.\<close>

definition keeps :: "wf_payload memory \<Rightarrow> wf_payload memory wf_world \<times> lerr option \<Rightarrow> bool" where
  "keeps m res \<longleftrightarrow> (snd res \<noteq> None \<longrightarrow> fst (snd (fst res)) = m)"

lemma keeps_simps [simp]: "keeps m ((e, m, c), err)" "keeps m (w, None)"
  by (simp_all add: keeps_def)

lemma emit_keeps:
  assumes inv: "events_inv m" and x: "replay_log h m r = Inr x"
  shows "keeps m (emit mem_ops h holder r kind parts payload rollback (e, m, c))"
proof (cases payload)
  case (Inl perr)
  obtain c' where "catchUpRunLocked mem_ops h r (e, m, rollback c) =
      ((eng_SetApplied r (max_sequence (mem_evs m r) 0) e, m, c'), None)"
    using catchUpRun_mem [OF inv x] by blast
  then show ?thesis using Inl by (simp add: emit_def rollbackAndRebuild_def)
next
  case (Inr bytes)
  obtain e1 q where q: "eng_NextSequence r e = (e1, q)" by (cases "eng_NextSequence r e")
  define evt where "evt = \<lparr>ev_ID = EventID r kind parts, ev_RunID = r, ev_Sequence = sint q, ev_Kind = kind,
    ev_Payload = bytes, ev_RowID = 0\<rparr>"
  have x': "replay_log h m (ev_RunID evt) = Inr x" using x by (simp add: evt_def)
  have em: "emit mem_ops h holder r kind parts payload rollback (e, m, c) =
      appendEvent mem_ops h holder evt rollback (e1, m, c)"
    using Inr q by (simp add: emit_def evt_def)
  obtain m1 serr where res: "store_attempt holder evt (en_claims e1) m = (m1, serr)"
    by (cases "store_attempt holder evt (en_claims e1) m")
  show ?thesis
  proof (cases serr)
    case None
    then show ?thesis using em res by (simp add: appendEvent_unfold)
  next
    case (Some se)
    then have res': "store_attempt holder evt (en_claims e1) m = (m, Some se)"
      using store_attempt_outcome [OF inv res] res by auto
    obtain c0 c' err where "appendEvent mem_ops h holder evt rollback (e1, m, c) =
        ((eng_SetApplied (ev_RunID evt) (max_sequence (mem_evs m (ev_RunID evt)) 0) e1, m, c'), err)"
      using appendEvent_refused [where c = c and rollback = rollback, OF inv x' res'] by blast
    then show ?thesis using em by simp
  qed
qed

lemma bodies_keep:
  assumes "events_inv m" "replay_log h m r = Inr x"
  shows "keeps m (CompareAndSetRunStatus_locked mem_ops h now holder r v status fin (e, m, c))"
    "keeps m (RecordRunResumed_locked mem_ops h holder r (e, m, c))"
    "at_RunID a = r \<Longrightarrow> keeps m (CreateStepAttempt_locked mem_ops h now holder a (e, m, c))"
    "at_RunID a = r \<Longrightarrow> keeps m (RecordStepAttemptOutcome_locked mem_ops h now holder a oc (e, m, c))"
    "keeps m (CompleteStepAttempt_locked mem_ops h now holder r aid v oc (e, m, c))"
    "keeps m (SetStepAttemptPrompt_locked mem_ops h now clock holder r aid ref (e, m, c))"
    "keeps m (SetStepAttemptExecution_locked mem_ops h now holder r aid cr ti reason (e, m, c))"
    "keeps m (SetStepAttemptHeartbeat_locked mem_ops h holder r aid t (e, m, c))"
    "ap_RunID p = r \<Longrightarrow> keeps m (CreateApproval_locked mem_ops h now holder p (e, m, c))"
    "keeps m (ResolveApproval_locked mem_ops h now holder r aid actor status reason (e, m, c))"
    "wr_RunID snap = r \<Longrightarrow> keeps m (CreateRun_locked mem_ops h now holder snap json (e, m, c))"
  by (auto simp: on_run_def on_attempt_def Let_def emit_keeps [OF assms] CompareAndSetRunStatus_locked_def
      RecordRunResumed_locked_def CreateStepAttempt_locked_def RecordStepAttemptOutcome_locked_def
      CompleteStepAttempt_locked_def SetStepAttemptPrompt_locked_def SetStepAttemptExecution_locked_def
      SetStepAttemptHeartbeat_locked_def CreateApproval_locked_def ResolveApproval_locked_def CreateRun_locked_def
      split: option.splits prod.splits)

lemma loop_keeps:
  assumes "events_inv m" "replay_log h m r = Inr x"
    "IncrementLoopCounter_locked mem_ops h now holder r name (e, m, c) = (w', n, err)"
  shows "keeps m (w', err)"
proof -
  have em: "keeps m (w2, er)" if "emit mem_ops h holder r kind parts payload rb (e, m, c2) = (w2, er)"
    for kind parts payload rb c2 w2 er
    using emit_keeps [OF assms(1,2), of holder kind parts payload rb e c2] that by simp
  show ?thesis
    using assms(3)
    by (auto simp: IncrementLoopCounter_locked_def Let_def dest: em split: option.splits if_splits prod.splits)
qed

lemma delete_keeps:
  assumes "events_inv m" "replay_log h m r = Inr x"
  shows "keeps m (DeleteRun_locked mem_ops h now holder r (e, m, c))"
proof -
  obtain e1 q where q: "eng_NextSequence r e = (e1, q)" by (cases "eng_NextSequence r e")
  have rb: "fst (snd (rollbackAndRebuild mem_ops h r f (e1, m, c2))) = m" for f c2
  proof -
    obtain c' where "catchUpRunLocked mem_ops h r (e1, m, f c2) =
        ((eng_SetApplied r (max_sequence (mem_evs m r) 0) e1, m, c'), None)"
      using catchUpRun_mem [OF assms] by blast
    then show ?thesis by (simp add: rollbackAndRebuild_def)
  qed
  have dr: "m1 = m" if "mem_AppendAndDeleteRun evt tok m = (m1, Some se)" for evt tok m1 se
    using AppendAndDelete_outcome [OF assms(1) that] by simp
  show ?thesis
    using rb q
    by (auto simp: DeleteRun_locked_def Let_def mem_ops_fields keeps_def dest!: dr split: option.splits sum.splits prod.splits)
qed

lemma upsertOnce_keeps:
  assumes "events_inv m" "replay_log h m (dl_RunID d) = Inr x"
    "upsertDeliveryOnce mem_ops h now holder d (e, m, c) = ((e', m', c'), retry, err)"
  shows "err \<noteq> None \<or> retry \<Longrightarrow> m' = m"
proof -
  assume bad: "err \<noteq> None \<or> retry"
  have em: "m2 = m" if "emit mem_ops h holder (dl_RunID d) kind parts payload rb (e, m, c2) = ((e2, m2, c3), Some er)"
    for kind parts payload rb e2 m2 c2 c3 er
    using emit_keeps [OF assms(1,2), of holder kind parts payload rb e c2] that by (simp add: keeps_def)
  have rb: "fst (snd (rollbackAndRebuild mem_ops h (dl_RunID d) f (e, m, c2))) = m" for f c2
  proof -
    obtain c' where "catchUpRunLocked mem_ops h (dl_RunID d) (e, m, f c2) =
        ((eng_SetApplied (dl_RunID d) (max_sequence (mem_evs m (dl_RunID d)) 0) e, m, c'), None)"
      using catchUpRun_mem [OF assms(1,2)] by blast
    then show ?thesis by (simp add: rollbackAndRebuild_def)
  qed
  have rb': "m2 = m" if "rollbackAndRebuild mem_ops h (dl_RunID d) f (e, m, c2) = (e2, m2, c3)" for f c2 e2 m2 c3
    using rb [of f c2] that by simp
  show "m' = m"
    using assms(3) bad
    by (auto simp: upsertDeliveryOnce_def Let_def dest: em rb' split: option.splits if_splits prod.splits sum.splits)
qed

lemma upsert_keeps:
  assumes "events_inv m" "replay_log h m (dl_RunID d) = Inr x"
  shows "keeps m (UpsertDelivery_locked mem_ops h now1 now2 holder d (e, m, c))"
proof -
  obtain e1 m1 c1 retry err1 where one: "upsertDeliveryOnce mem_ops h now1 holder d (e, m, c) = ((e1, m1, c1), retry, err1)"
    by (metis prod.collapse)
  obtain e2 m2 c2 retry2 err2 where two: "upsertDeliveryOnce mem_ops h now2 holder d (e1, m1, c1) = ((e2, m2, c2), retry2, err2)"
    by (metis prod.collapse)
  show ?thesis
  proof (cases retry)
    case False
    then show ?thesis using one upsertOnce_keeps [OF assms one] by (simp add: UpsertDelivery_locked_def keeps_def)
  next
    case True
    then have "m1 = m" using upsertOnce_keeps [OF assms one] by simp
    then show ?thesis
      using True one two upsertOnce_keeps [OF assms, of now2 holder e1 c1]
      by (cases retry2) (auto simp: UpsertDelivery_locked_def keeps_def)
  qed
qed

lemma panel_keeps:
  assumes "events_inv m" "replay_log h m r = Inr x"
  shows "keeps m (CompareAndSetPanelPhase_locked mem_ops h val now holder r aid v src dst syn (e, m, c))"
proof -
  have cu: "fst (snd (fst (catchUpRunLocked mem_ops h r (e1, m, c1)))) = m \<and> snd (catchUpRunLocked mem_ops h r (e1, m, c1)) = None" for e1 c1
  proof -
    obtain c' where "catchUpRunLocked mem_ops h r (e1, m, c1) =
        ((eng_SetApplied r (max_sequence (mem_evs m r) 0) e1, m, c'), None)"
      using catchUpRun_mem [OF assms] by blast
    then show ?thesis by simp
  qed
  have cu': "m2 = m" if "catchUpRunLocked mem_ops h r (e1, m, c1) = ((e2, m2, c2), er)" for e1 c1 e2 m2 c2 er
    using cu [of e1 c1] that by simp
  have ap: "m1 = m" if "mem_AppendWithExistingClaim evt holder m = (m1, Some se)" for evt m1 se
    using claimed_outcome [OF assms(1), of evt holder m1 "Some se"] that by simp
  have "keeps m (appendPanelPhase mem_ops h now r aid holder dst syn next i (e, m, c))" for "next" i
    by (auto simp: appendPanelPhase_def Let_def mem_ops_fields keeps_def dest!: ap dest: cu'
        split: option.splits sum.splits prod.splits)
  then show ?thesis
    by (auto simp: CompareAndSetPanelPhase_locked_def on_run_def Let_def split: option.splits)
qed

section \<open>Whole commands\<close>

lemma with_built_keeps:
  assumes ok: "wf_ok h (e, m, c)" and run: "with_built mem_ops h r body (e, m, c) = (w', Some err)"
    and kp: "\<And>e c x. replay_log h m r = Inr x \<Longrightarrow> keeps m (body (e, m, c))"
    and absent: "\<And>e c. live c r = None \<Longrightarrow> fst (body (e, m, c)) = (e, m, c)"
  shows "fst (snd w') = m"
proof -
  obtain e1 m1 c1 err1 where b: "ensureBuilt mem_ops h (e, m, c) = ((e1, m1, c1), err1)" by (metis prod.collapse)
  note k = ensureBuilt_kept [OF ok b]
  show ?thesis
  proof (cases err1)
    case (Some x)
    then show ?thesis using run b k(1) by (auto simp: with_built_def)
  next
    case None
    then have bd: "body (eng_RunLock r e1, m, c1) = (w', Some err)" using run b k(1) by (simp add: with_built_def)
    show ?thesis
    proof (cases "HasPrefix r ''wfr-''")
      case True
      then obtain x where "replay_log h m r = Inr x" using wf_okD(2) [OF ok True] by (auto simp: synced_def)
      then show ?thesis using kp [of x "eng_RunLock r e1" c1] bd by (simp add: keeps_def)
    next
      case False
      then have "live c1 r = None" using wf_okD(5) [OF k(3)] by simp
      then show ?thesis using absent [of c1 "eng_RunLock r e1"] bd by simp
    qed
  qed
qed

lemma CreateRun_keeps:
  assumes ok: "wf_ok h (e, m, c)" and run: "wf_CreateRun mem_ops h now holder snap json (e, m, c) = (w', Some err)"
  shows "fst (snd w') = m"
proof -
  obtain e1 m1 c1 err1 where b: "ensureBuilt mem_ops h (e, m, c) = ((e1, m1, c1), err1)" by (metis prod.collapse)
  note k = ensureBuilt_kept [OF ok b]
  obtain e2 where rb: "eng_RebaseRunSequence mem_ops (wr_RunID snap) (e1, m) = ((e2, m), None)"
    by (auto simp: eng_RebaseRunSequence_def wm_RebaseRunSequence_def Let_def)
  show ?thesis
  proof (cases "err1 = None \<and> HasPrefix (wr_RunID snap) ''wfr-''")
    case True
    then obtain x where "replay_log h m (wr_RunID snap) = Inr x"
      using wf_okD(2) [OF ok, of "wr_RunID snap"] by (auto simp: synced_def)
    from bodies_keep(11) [OF wf_okD(1) [OF ok] this refl, of now holder json "eng_RunLock (wr_RunID snap) e2" c1] show ?thesis
      using run b k(1) rb True by (simp add: wf_CreateRun_def keeps_def)
  next
    case False
    then show ?thesis using run b k(1) by (auto simp: wf_CreateRun_def split: option.splits)
  qed
qed

lemma CreateStepAttempt_keeps:
  assumes ok: "wf_ok h (e, m, c)" and run: "wf_CreateStepAttempt mem_ops h val now holder a (e, m, c) = (w', Some err)"
  shows "fst (snd w') = m"
proof -
  have "with_built mem_ops h (at_RunID a) (\<lambda>(e, s, c). case validateInitialPanelAttempt h val a s of Some er \<Rightarrow> ((e, s, c), Some er)
      | None \<Rightarrow> CreateStepAttempt_locked mem_ops h now holder a (e, s, c)) (e, m, c) =
      (w', Some err) \<or> (\<exists>e1 c1. w' = (e1, m, c1))"
    using run ensureBuilt_kept(1) [OF ok]
    by (auto simp: wf_CreateStepAttempt_def with_built_def split: option.splits prod.splits)
  then show ?thesis
  proof
    assume "with_built mem_ops h (at_RunID a) (\<lambda>(e, s, c). case validateInitialPanelAttempt h val a s of Some er \<Rightarrow> ((e, s, c), Some er)
      | None \<Rightarrow> CreateStepAttempt_locked mem_ops h now holder a (e, s, c)) (e, m, c) = (w', Some err)"
    then show ?thesis
      by (rule with_built_keeps [OF ok])
        (use bodies_keep(3) [OF wf_okD(1) [OF ok] _ refl] absent_bodies(4) [OF _ refl] in \<open>auto split: option.splits\<close>)
  qed auto
qed

lemma loop_command_keeps:
  assumes ok: "wf_ok h (e, m, c)" and run: "wf_IncrementLoopCounter mem_ops h now holder r name (e, m, c) = (w', n, Some err)"
  shows "fst (snd w') = m"
proof -
  let ?body = "\<lambda>w. case IncrementLoopCounter_locked mem_ops h now holder r name w of (w1, n, er) \<Rightarrow> (w1, er)"
  have "with_built mem_ops h r ?body (e, m, c) = (w', Some err)"
    using run by (auto simp: wf_IncrementLoopCounter_def with_built_def split: option.splits prod.splits)
  then show ?thesis
    by (rule with_built_keeps [OF ok])
      (use loop_keeps [OF wf_okD(1) [OF ok]] in \<open>auto simp: IncrementLoopCounter_locked_def split: prod.splits\<close>)
qed

lemma clear_loop_None: "clear_loop mem_ops xs es out = (es', out', err) \<Longrightarrow> err = None"
  by (induction xs arbitrary: es out) (auto simp: mem_ops_fields mem_ClearClaim_def split: if_splits)

lemma upsert_absent: "live c (dl_RunID d) = None \<Longrightarrow> fst (UpsertDelivery_locked ops h now1 now2 holder d (e, s, c)) = (e, s, c)"
  by (simp add: UpsertDelivery_locked_def upsertDeliveryOnce_def Let_def)

theorem exec_keeps:
  assumes ok: "wf_ok h (e, m, c)" and run: "wf_exec h val cmd (e, m, c) = (w', Some err)"
  shows "fst (snd w') = m"
proof -
  note inv = wf_okD(1) [OF ok]
  show ?thesis
  proof (cases cmd)
    case CmdRead
    then show ?thesis using run ensureBuilt_kept(1) [OF ok] by (cases w') auto
  next
    case CmdRecover
    then show ?thesis
      using run ensureBuilt_kept(1) [OF ok] by (auto simp: wf_Recover_def split: prod.splits option.splits dest: clear_loop_None)
  next
    case (CmdCreateRun now holder snap json)
    then show ?thesis using run CreateRun_keeps [OF ok] by simp
  next
    case (CmdCreateAttempt now holder a)
    then show ?thesis using run CreateStepAttempt_keeps [OF ok] by simp
  next
    case (CmdLoop now holder r name)
    then show ?thesis using run loop_command_keeps [OF ok] by (auto split: prod.splits)
  next
    case (CmdUpsertDelivery now1 now2 holder d)
    then show ?thesis
      using run upsert_keeps [OF wf_okD(1) [OF ok]] upsert_absent
      by (intro with_built_keeps [OF ok]) (auto simp: wf_UpsertDelivery_def)
  next
    case (CmdSetRunStatus now holder r v status fin)
    then show ?thesis
      using run by (auto simp: wf_CompareAndSetRunStatus_def absent_bodies intro: with_built_keeps [OF ok] bodies_keep(1) [OF inv] split: if_splits)
  next
    case (CmdRunResumed holder r)
    then show ?thesis
      using run by (auto simp: wf_RecordRunResumed_def absent_bodies intro: with_built_keeps [OF ok] bodies_keep(2) [OF inv] split: if_splits)
  next
    case (CmdRecordOutcome now holder a oc)
    then show ?thesis
      using run by (auto simp: wf_RecordStepAttemptOutcome_def absent_bodies intro: with_built_keeps [OF ok] bodies_keep(4) [OF inv _ refl] split: if_splits)
  next
    case (CmdComplete now holder r a v oc)
    then show ?thesis
      using run by (auto simp: wf_CompleteStepAttempt_def absent_bodies intro: with_built_keeps [OF ok] bodies_keep(5) [OF inv] split: if_splits)
  next
    case (CmdPrompt now clock holder r a ref)
    then show ?thesis
      using run by (auto simp: wf_SetStepAttemptPrompt_def absent_bodies intro: with_built_keeps [OF ok] bodies_keep(6) [OF inv] split: if_splits)
  next
    case (CmdExecution now holder r a cr ti reason)
    then show ?thesis
      using run by (auto simp: wf_SetStepAttemptExecution_def absent_bodies intro: with_built_keeps [OF ok] bodies_keep(7) [OF inv] split: if_splits)
  next
    case (CmdHeartbeat holder r a t)
    then show ?thesis
      using run by (auto simp: wf_SetStepAttemptHeartbeat_def absent_bodies intro: with_built_keeps [OF ok] bodies_keep(8) [OF inv] split: if_splits)
  next
    case (CmdCreateApproval now holder a)
    then show ?thesis
      using run by (auto simp: wf_CreateApproval_def absent_bodies intro: with_built_keeps [OF ok] bodies_keep(9) [OF inv _ refl] split: if_splits)
  next
    case (CmdResolveApproval now holder r a actor status reason)
    then show ?thesis
      using run by (auto simp: wf_ResolveApproval_def absent_bodies intro: with_built_keeps [OF ok] bodies_keep(10) [OF inv] split: if_splits)
  next
    case (CmdDelete now holder r)
    then show ?thesis
      using run by (auto simp: wf_DeleteRun_def absent_bodies intro: with_built_keeps [OF ok] delete_keeps [OF inv] split: if_splits)
  next
    case (CmdPanel now holder r a v src dst syn)
    then show ?thesis
      using run by (auto simp: wf_CompareAndSetPanelPhase_def absent_bodies intro: with_built_keeps [OF ok] panel_keeps [OF inv] split: if_splits)
  qed
qed

end
