(* ===== verification/Wf_Properties.thy ===== *)
theory Wf_Properties
  imports Wf_History Wf_Errors
begin

text \<open>
  The properties of the workflow ledger: the repository refines the abstract log machine,
  its cache is the replay of the log, a restarted process finds the same projections, and
  what the recorded history of a run guarantees.
\<close>

section \<open>Sequences of commands\<close>

text \<open>
  A list of commands run one after the other: the world they end in, provided each is
  within the bounds when it runs and keeps the given run, if any, alive.
\<close>

fun try_cmds ::
    "panel_hashes \<Rightarrow> wf_payload memory validator \<Rightarrow> string option \<Rightarrow> wf_cmd list \<Rightarrow>
     wf_payload memory wf_world \<Rightarrow> wf_payload memory wf_world option" where
  "try_cmds h val q [] w = Some w"
| "try_cmds h val q (cmd # cmds) w =
     (if cmd_ok cmd \<and> roomy h (cmd_run cmd) w
      then let w1 = fst (wf_exec h val cmd w) in
        if (case q of None \<Rightarrow> True | Some r \<Rightarrow> \<not> Option.is_none (map_of (wc_proj (snd (snd w1))) r))
        then try_cmds h val q cmds w1 else None
      else None)"

lemma cmd_step: "cmd_ok cmd \<Longrightarrow> roomy h (cmd_run cmd) w \<Longrightarrow> wf_step h val w (fst (wf_exec h val cmd w))"
  by (rule wf_step.exec [OF _ _ prod.collapse [symmetric]])

lemma try_cmds_Cons:
  assumes "try_cmds h val q (cmd # cmds) w = Some w'"
  shows "wf_step h val w (fst (wf_exec h val cmd w))" "try_cmds h val q cmds (fst (wf_exec h val cmd w)) = Some w'"
    "q = Some r \<Longrightarrow> map_of (wc_proj (snd (snd (fst (wf_exec h val cmd w))))) r \<noteq> None"
proof -
  let ?w1 = "fst (wf_exec h val cmd w)"
  let ?q = "case q of None \<Rightarrow> True | Some r \<Rightarrow> \<not> Option.is_none (map_of (wc_proj (snd (snd ?w1))) r)"
  have *: "(if cmd_ok cmd \<and> roomy h (cmd_run cmd) w then if ?q then try_cmds h val q cmds ?w1 else None else None) = Some w'"
    using assms unfolding try_cmds.simps Let_def .
  then have ok: "cmd_ok cmd \<and> roomy h (cmd_run cmd) w" by (rule contrapos_pp) (simp only: if_False option.distinct not_False_eq_True)
  then show "wf_step h val w ?w1" using cmd_step by blast
  have **: "(if ?q then try_cmds h val q cmds ?w1 else None) = Some w'" using * unfolding if_P [OF ok] .
  then have q: "?q" by (rule contrapos_pp) (simp only: if_False option.distinct not_False_eq_True)
  then show "q = Some r \<Longrightarrow> map_of (wc_proj (snd (snd ?w1))) r \<noteq> None" by (simp add: Option.is_none_def)
  show "try_cmds h val q cmds ?w1 = Some w'" using ** unfolding if_P [OF q] .
qed

lemma try_cmds_reachable: "try_cmds h val q cmds w = Some w' \<Longrightarrow> wf_reachable h val w \<Longrightarrow> wf_reachable h val w'"
proof (induction cmds arbitrary: w)
  case (Cons cmd cmds)
  note * = try_cmds_Cons [OF Cons.prems(1)]
  show ?case by (rule Cons.IH [OF *(2) wf_reachable.step [OF Cons.prems(2) *(1)]])
qed simp

lemma try_cmds_alive: "try_cmds h val (Some r) cmds w = Some w' \<Longrightarrow> (alive_step h val r)\<^sup>*\<^sup>* w w'"
proof (induction cmds arbitrary: w)
  case (Cons cmd cmds)
  note * = try_cmds_Cons [OF Cons.prems(1)]
  have "alive_step h val r w (fst (wf_exec h val cmd w))" unfolding alive_step_def using *(1,3) by blast
  then show ?case using Cons.IH [OF *(2)] by (rule converse_rtranclp_into_rtranclp)
qed simp

text \<open>The room left in the counters, compared as integers.\<close>

lemma roomy_int [code]:
  "roomy h r w = (case ensureBuilt mem_ops h w of ((e, m, c), err) \<Rightarrow>
     int (eng_top e r) + 2 < 2 ^ 63 \<and> (\<forall>ev \<in> set (mem_evs m r). ev_Sequence ev + 2 < 2 ^ 63))"
proof -
  have "n + 2 < 2 ^ 63 \<longleftrightarrow> int n + 2 < 2 ^ 63" for n :: nat by simp
  then show ?thesis unfolding roomy_def by presburger
qed

section \<open>Sample commands\<close>

definition demo_h :: panel_hashes where
  "demo_h = \<lparr>ph_WorkFingerprintValue = (\<lambda>s. []), ph_PanelChildIDs = (\<lambda>r a c. (c, c))\<rparr>"

definition demo_snap :: WfRunSnapshot where
  "demo_snap = \<lparr>wr_RunID = ''wfr-'', wr_InvocationKey = [], wr_WorkflowName = [], wr_WorkflowDigest = [],
     wr_SnapshotDigest = [], wr_InputDigest = [], wr_Status = WfRunStatusPending, wr_ActiveStepID = ''a'', wr_BaseRef = [],
     wr_BaseCommit = [], wr_OriginBaseCommit = [], wr_WorktreeName = [], wr_RemoteURL = [], wr_Version = 0,
     wr_StartedAt = 0, wr_DeadlineAt = None, wr_FinishedAt = None\<rparr>"

definition demo_attempt :: StepAttempt where
  "demo_attempt = (new_attempt ''t'' ''wfr-'')\<lparr>at_StepID := ''a'', at_AttemptNo := 1\<rparr>"

definition demo_outcome :: "string \<Rightarrow> string \<Rightarrow> AttemptOutcome" where
  "demo_outcome status dest = \<lparr>oc_Status = status, oc_CoordinatorRunID = [], oc_TaskID = [], oc_OutputRef = ''o'',
     oc_OutputDigest = [], oc_ErrorRef = [], oc_ToStepID = dest, oc_TransitionIndex = 0, oc_MatchDigest = [],
     oc_DecisionJSON = [], oc_EvidenceJSON = []\<rparr>"

definition demo_start :: "wf_cmd list" where
  "demo_start = [CmdCreateRun 5 [] demo_snap [], CmdSetRunStatus 6 [] ''wfr-'' 1 WfRunStatusRunning None]"

definition demo_new :: "wf_payload memory wf_world" where
  "demo_new = NewStorageRepository ''h'' NewMemory"

definition demo_world :: "wf_payload memory wf_world" where
  "demo_world = the (try_cmds demo_h None None demo_start demo_new)"

lemma the_is_none: "\<not> Option.is_none x \<Longrightarrow> x = Some (the x)"
  by (simp add: Option.is_none_def)

lemma demo_new_reachable: "wf_reachable demo_h None demo_new"
  unfolding demo_new_def by (rule wf_reachable.init)

text \<open>The bound on an outcome's evidence, compared as integers.\<close>

lemma evidence_int [code_unfold]: "length (xs :: string) > MaxEvidenceBytes \<longleftrightarrow> 16384 < int (length xs)"
  by (simp add: MaxEvidenceBytes_def)

lemma demo_reachable: "wf_reachable demo_h None demo_world"
proof -
  have "\<not> Option.is_none (try_cmds demo_h None None demo_start demo_new)" by code_simp
  from try_cmds_reachable [OF the_is_none [OF this] demo_new_reachable] show ?thesis by (simp add: demo_world_def)
qed

lemma demo_reachable3: "wf_reachable demo_h None (fst demo_world, fst (snd demo_world), snd (snd demo_world))"
  using demo_reachable by simp

section \<open>Refinement of the log machine\<close>

lemma reach_live:
  assumes "wf_reachable h val w" "HasPrefix r ''wfr-''"
  shows "map_of (wc_proj (snd (snd w))) r = view (run_state h r w)" "rok (run_state h r w)"
  using ok_live [of h "fst w" "fst (snd w)" "snd (snd w)" r] ok_rok [OF _ assms(2)] reachable_ok [OF assms(1)] assms(2)
  by simp_all

text \<open>
  C10. The repository refines the abstract log machine.  In every reachable world each
  command of the repository, errors and refusals included, moves the replayed state of its
  own run by allowed appends or a deletion and leaves every other workflow run alone, and
  afterwards the cached projection of each run is the one of its replayed state.  The
  commands satisfy \<open>cmd_ok\<close> (an attempt recorded with its outcome is clean, a version does not
  wrap to zero, a panel attempt has an id), and the logs stay below 2^63 events (\<open>roomy\<close>);
  so do those that led to a reachable world.
\<close>

theorem commands_refine_log_machine:
  assumes "wf_reachable h val w" "cmd_ok cmd" "roomy h (cmd_run cmd) w" "wf_exec h val cmd w = (w', err)"
    "HasPrefix r ''wfr-''"
  shows "(if r = cmd_run cmd then (log_step h r)\<^sup>*\<^sup>* (run_state h r w) (run_state h r w')
          else run_state h r w' = run_state h r w) \<and>
    map_of (wc_proj (snd (snd w'))) r = view (run_state h r w')"
proof -
  have ev: "evolves h (cmd_run cmd) w w'" by (rule exec_evolves [OF reachable_ok [OF assms(1)] assms(2-4)])
  have "wf_reachable h val w'" using assms by (auto intro: wf_reachable.step wf_step.exec)
  then show ?thesis
    using reach_live(1) [OF _ assms(5)] run_moves_steps [OF evolvesD(2) [OF ev]] evolvesD(3) [OF ev assms(5)] assms(5)
    by (cases "r = cmd_run cmd") simp_all
qed

lemma commands_refine_log_machine_witness:
  "(log_step demo_h ''wfr-'')\<^sup>*\<^sup>* (run_state demo_h ''wfr-'' demo_world)
     (run_state demo_h ''wfr-'' (fst (wf_exec demo_h None (CmdLoop 7 [] ''wfr-'' ''l'') demo_world)))"
proof -
  have "roomy demo_h (cmd_run (CmdLoop 7 [] ''wfr-'' ''l'')) demo_world" by code_simp
  from commands_refine_log_machine [OF demo_reachable _ this prod.collapse [symmetric], of "''wfr-''"] show ?thesis
    by (simp add: HasPrefix_def)
qed

text \<open>
  C11. The cache is the replay.  In every reachable world the event log of every workflow
  run replays without error, and the cached projection of the run is exactly
  RebuildProjection of that log, or absent when the log holds no live run.
\<close>

theorem cached_projection_is_rebuild:
  assumes "wf_reachable h val (e, m, c)" "HasPrefix r ''wfr-''"
  shows "\<exists>p. RebuildProjection h (mem_Events r m) = Inr p \<and>
    map_of (wc_proj c) r = (if pr_HasRun p then Some p else None)"
proof -
  note ok = reachable_ok [OF assms(1)]
  obtain x where x: "synced h m c r x" using wf_okD(2) [OF ok assms(2)] ..
  then have "RebuildProjection h (mem_Events r m) = Inr (derive_active x)"
    using Rebuild_eq [OF wf_okD(1) [OF ok], of h r] by (simp add: synced_def mem_Events_evs)
  then show ?thesis using x by (simp add: synced_def view_def)
qed

lemma cached_projection_is_rebuild_witness:
  "\<exists>p. RebuildProjection demo_h (mem_Events ''wfr-'' (fst (snd demo_world))) = Inr p \<and>
     map_of (wc_proj (snd (snd demo_world))) ''wfr-'' = (if pr_HasRun p then Some p else None)"
  using cached_projection_is_rebuild [OF demo_reachable3, of "''wfr-''"] by (simp add: HasPrefix_def)

text \<open>
  C12. A crash loses nothing.  Whatever the process did before it stopped, a new
  repository over the same store comes up: its first catch-up reports no error, leaves the
  store as it is and caches exactly the projections the old process had.
\<close>

theorem restart_recovers:
  assumes "wf_reachable h val (e, m, c)"
  shows "\<exists>e' c'. ensureBuilt mem_ops h (NewStorageRepository holder m) = ((e', m, c'), None) \<and>
    (\<forall>r. map_of (wc_proj c') r = map_of (wc_proj c) r)"
proof -
  note ok = reachable_ok [OF assms]
  obtain w err where b: "ensureBuilt mem_ops h (NewStorageRepository holder m) = (w, err)" by (metis prod.collapse)
  note rs = restart_ok [OF wf_ok_store [OF ok] b]
  obtain e' c' where w: "w = (e', m, c')" using rs(2) by (cases w) auto
  have ok': "wf_ok h (e', m, c')" using rs(3) w by simp
  have "map_of (wc_proj c') r = map_of (wc_proj c) r" for r
    using ok_live [OF ok, of r] ok_live [OF ok', of r] by (simp add: run_state_def)
  then show ?thesis using b rs(1) w by blast
qed

lemma restart_recovers_witness:
  "\<exists>e' c'. ensureBuilt mem_ops demo_h (NewStorageRepository ''n'' (fst (snd demo_world))) =
       ((e', fst (snd demo_world), c'), None) \<and>
     (\<forall>r. map_of (wc_proj c') r = map_of (wc_proj (snd (snd demo_world))) r)"
  by (rule restart_recovers [OF demo_reachable3])

end
