(* ===== verification/Wf_Run_Properties.thy ===== *)
theory Wf_Run_Properties
  imports Wf_Properties
begin

text \<open>
  What a workflow run can rely on while it lives: its projection is well formed, final
  statuses and finished attempts stay as they are, versions count transitions, and the
  recorded history only grows.  Every property follows the steps during which the run is
  not deleted, through the simulation by the log machine.
\<close>

section \<open>Executions that keep a run alive\<close>

lemma alive_live:
  assumes "(alive_step h val r)\<^sup>*\<^sup>* w w'" "map_of (wc_proj (snd (snd w))) r \<noteq> None"
  shows "map_of (wc_proj (snd (snd w'))) r \<noteq> None"
  using assms(1) by cases (use assms(2) in \<open>simp_all add: alive_step_def\<close>)

lemma live_replay:
  assumes "wf_ok h w" "HasPrefix r ''wfr-''" "map_of (wc_proj (snd (snd w))) r = Some p"
  shows "p = derive_active (run_state h r w)" "pr_HasRun (fst (run_state h r w))" "rok (run_state h r w)"
  using ok_live [of h "fst w" "fst (snd w)" "snd (snd w)" r] assms ok_rok [OF assms(1,2)]
  by (simp_all add: view_def split: if_splits)

text \<open>What abstract steps preserve holds of the projections at both ends of an execution.\<close>

lemma alive_preserved:
  assumes "wf_reachable h val w" "HasPrefix r ''wfr-''" "(alive_step h val r)\<^sup>*\<^sup>* w w'"
    "map_of (wc_proj (snd (snd w))) r = Some p"
    "\<And>x y. P x \<Longrightarrow> run_step h r x y \<Longrightarrow> P y" "P (run_state h r w)"
  obtains x where "map_of (wc_proj (snd (snd w'))) r = Some (derive_active x)" "P x" "pr_HasRun (fst x)" "rok x"
proof -
  have ok: "wf_ok h w \<and> HasPrefix r ''wfr-''" using reachable_ok [OF assms(1)] assms(2) by simp
  have ok': "wf_ok h w'" using wfr.inv_steps [OF assms(3) ok] by simp
  obtain p' where p': "map_of (wc_proj (snd (snd w'))) r = Some p'" using alive_live [OF assms(3)] assms(4) by auto
  have "P (run_state h r w')" by (rule wfr.preserved [where P = P, OF assms(3) ok assms(6,5)])
  then show ?thesis using p' live_replay [OF ok' assms(2) p'] that by blast
qed

section \<open>Sample executions\<close>

text \<open>A run with one attempt, finished and routed; the end of the run; and a late write.\<close>

definition demo_work :: "wf_cmd list" where
  "demo_work = demo_start @ [CmdCreateAttempt 7 [] demo_attempt,
     CmdComplete 8 [] ''wfr-'' ''t'' 1 (demo_outcome AttemptStatusSucceeded ''b'')]"

definition demo_finish :: "wf_cmd list" where
  "demo_finish = [CmdSetRunStatus 11 [] ''wfr-'' 2 WfRunStatusSucceeded (Some 11)]"

definition demo_late :: "wf_cmd list" where
  "demo_late = [CmdSetRunStatus 12 [] ''wfr-'' 3 WfRunStatusRunning None]"

text \<open>The worlds after the work, after the run succeeded, and after late writes.\<close>

definition demo_mid :: "wf_payload memory wf_world" where
  "demo_mid = the (try_cmds demo_h None None demo_work demo_new)"

definition demo_done :: "wf_payload memory wf_world" where
  "demo_done = the (try_cmds demo_h None (Some ''wfr-'') demo_finish demo_mid)"

definition demo_after :: "wf_payload memory wf_world" where
  "demo_after = the (try_cmds demo_h None (Some ''wfr-'') demo_late demo_done)"

definition demo_view :: "wf_payload memory wf_world \<Rightarrow> Projection" where
  "demo_view w = the (map_of (wc_proj (snd (snd w))) ''wfr-'')"

definition run_is :: "string \<Rightarrow> Projection \<Rightarrow> bool" where
  "run_is status p \<longleftrightarrow> (case pr_Run p of None \<Rightarrow> False | Some run \<Rightarrow> wr_Status run = status)"

definition in_view :: "wf_payload memory wf_world \<Rightarrow> (Projection \<Rightarrow> bool) \<Rightarrow> bool" where
  "in_view w P \<longleftrightarrow> (case map_of (wc_proj (snd (snd w))) ''wfr-'' of None \<Rightarrow> False | Some p \<Rightarrow> P p)"

lemma demo_check:
  "case try_cmds demo_h None None demo_work demo_new of None \<Rightarrow> False
   | Some w1 \<Rightarrow> in_view w1 (\<lambda>p. run_is WfRunStatusRunning p \<and> pr_Attempts p \<noteq> [] \<and>
         IsTerminalAttemptStatus (at_Status (pr_Attempts p ! 0))) \<and>
       (case try_cmds demo_h None (Some ''wfr-'') demo_finish w1 of None \<Rightarrow> False
        | Some w2 \<Rightarrow> in_view w2 (run_is WfRunStatusSucceeded) \<and>
            \<not> Option.is_none (try_cmds demo_h None (Some ''wfr-'') demo_late w2))"
  by code_simp

lemma in_viewD: "in_view w P \<Longrightarrow> map_of (wc_proj (snd (snd w))) ''wfr-'' = Some (demo_view w) \<and> P (demo_view w)"
  by (simp add: in_view_def demo_view_def split: option.splits)

lemma demo_some:
  "try_cmds demo_h None None demo_work demo_new = Some demo_mid"
  "try_cmds demo_h None (Some ''wfr-'') demo_finish demo_mid = Some demo_done"
  "try_cmds demo_h None (Some ''wfr-'') demo_late demo_done = Some demo_after"
proof -
  show 1: "try_cmds demo_h None None demo_work demo_new = Some demo_mid"
    using demo_check unfolding demo_mid_def by (cases "try_cmds demo_h None None demo_work demo_new") simp_all
  show 2: "try_cmds demo_h None (Some ''wfr-'') demo_finish demo_mid = Some demo_done"
    using demo_check unfolding 1 demo_done_def option.case
    by (cases "try_cmds demo_h None (Some ''wfr-'') demo_finish demo_mid") simp_all
  have "\<not> Option.is_none (try_cmds demo_h None (Some ''wfr-'') demo_late demo_done)"
    using demo_check unfolding 1 2 option.case by blast
  then show "try_cmds demo_h None (Some ''wfr-'') demo_late demo_done = Some demo_after"
    unfolding demo_after_def by (rule the_is_none)
qed

lemmas demo_views = demo_check [unfolded demo_some(1,2) option.case]

lemma demo_live:
  "map_of (wc_proj (snd (snd demo_mid))) ''wfr-'' = Some (demo_view demo_mid)"
  "map_of (wc_proj (snd (snd demo_done))) ''wfr-'' = Some (demo_view demo_done)"
  "run_is WfRunStatusRunning (demo_view demo_mid)" "run_is WfRunStatusSucceeded (demo_view demo_done)"
  "pr_Attempts (demo_view demo_mid) \<noteq> []" "IsTerminalAttemptStatus (at_Status (pr_Attempts (demo_view demo_mid) ! 0))"
  using demo_views by (blast dest: in_viewD)+

lemmas demo_mid_reachable = try_cmds_reachable [OF demo_some(1) demo_new_reachable]
lemmas demo_done_reachable = try_cmds_reachable [OF demo_some(2) demo_mid_reachable]
lemmas demo_runs = try_cmds_alive [OF demo_some(2)] try_cmds_alive [OF demo_some(3)]

lemma demo_prefix: "HasPrefix ''wfr-'' ''wfr-''"
  by (simp add: HasPrefix_def)

section \<open>The status of a run\<close>

lemma final_no_transition:
  "s \<in> {WfRunStatusSucceeded, WfRunStatusFailed, WfRunStatusCanceled, WfRunStatusTimedOut} \<Longrightarrow> \<not> ValidRunTransition s t"
  by (auto simp: ValidRunTransition_def wf_run_status_defs)

text \<open>
  C13. A finished run stays finished.  Once a run is recorded as succeeded, failed,
  canceled or timed out, no sequence of operations that does not delete the run changes
  its record again: not its status, not its version, not its finishing time.
\<close>

theorem final_run_status_is_kept:
  assumes "wf_reachable h val w" "HasPrefix r ''wfr-''" "(alive_step h val r)\<^sup>*\<^sup>* w w'"
    "map_of (wc_proj (snd (snd w))) r = Some p" "pr_Run p = Some run"
    "wr_Status run \<in> {WfRunStatusSucceeded, WfRunStatusFailed, WfRunStatusCanceled, WfRunStatusTimedOut}"
  shows "\<exists>p'. map_of (wc_proj (snd (snd w'))) r = Some p' \<and> pr_Run p' = Some run"
proof -
  note p = live_replay [OF reachable_ok [OF assms(1)] assms(2,4)]
  have step: "pr_Run (fst y) = Some run" if "pr_Run (fst x) = Some run" "run_step h r x y" for x y
    using step_run [of h r "fst x" "snd x" "fst y" "snd y"] that final_no_transition [OF assms(6)] by auto
  have "pr_Run (fst (run_state h r w)) = Some run" using assms(5) p(1) by simp
  with step obtain x where "map_of (wc_proj (snd (snd w'))) r = Some (derive_active x)" "pr_Run (fst x) = Some run"
    by (rule alive_preserved [OF assms(1-4)])
  then show ?thesis by simp
qed

lemma final_run_status_is_kept_witness:
  "\<exists>p'. map_of (wc_proj (snd (snd demo_after))) ''wfr-'' = Some p' \<and> pr_Run p' = pr_Run (demo_view demo_done)"
proof -
  obtain run where run: "pr_Run (demo_view demo_done) = Some run" "wr_Status run = WfRunStatusSucceeded"
    using demo_live(4) by (auto simp: run_is_def split: option.splits)
  from final_run_status_is_kept [OF demo_done_reachable demo_prefix demo_runs(2) demo_live(2) run(1)] run show ?thesis by simp
qed

text \<open>
  The version counts the transitions.  Along every execution that does not delete the
  run, its version has grown by the number k of status changes, its status has moved along
  k transitions that ValidRunTransition allows, everything but status, version and
  finishing time is unchanged, and with no status change nothing is.
\<close>

theorem run_version_counts:
  assumes "wf_reachable h val w" "HasPrefix r ''wfr-''" "(alive_step h val r)\<^sup>*\<^sup>* w w'"
    "map_of (wc_proj (snd (snd w))) r = Some p" "pr_Run p = Some run"
  shows "\<exists>p' run' k. map_of (wc_proj (snd (snd w'))) r = Some p' \<and> pr_Run p' = Some run' \<and>
    (ValidRunTransition ^^ k) (wr_Status run) (wr_Status run') \<and>
    run' = run\<lparr>wr_Status := wr_Status run', wr_Version := wr_Version run + of_nat k, wr_FinishedAt := wr_FinishedAt run'\<rparr> \<and>
    (k = 0 \<longrightarrow> run' = run)"
proof -
  define P :: "replay \<Rightarrow> bool" where "P x = (\<exists>run' k. pr_Run (fst x) = Some run' \<and>
    (ValidRunTransition ^^ k) (wr_Status run) (wr_Status run') \<and>
    run' = run\<lparr>wr_Status := wr_Status run', wr_Version := wr_Version run + of_nat k, wr_FinishedAt := wr_FinishedAt run'\<rparr> \<and>
    (k = 0 \<longrightarrow> run' = run))" for x
  note p = live_replay [OF reachable_ok [OF assms(1)] assms(2,4)]
  have step: "P y" if px: "P x" and st: "run_step h r x y" for x y
  proof -
    obtain run' k where k: "pr_Run (fst x) = Some run'" "(ValidRunTransition ^^ k) (wr_Status run) (wr_Status run')"
      "run' = run\<lparr>wr_Status := wr_Status run', wr_Version := wr_Version run + of_nat k, wr_FinishedAt := wr_FinishedAt run'\<rparr>"
      using px unfolding P_def by blast
    from step_run [of h r "fst x" "snd x" "fst y" "snd y"] st k(1)
    consider "pr_Run (fst y) = Some run'"
      | s fin where "ValidRunTransition (wr_Status run') s"
        "pr_Run (fst y) = Some (run'\<lparr>wr_Status := s, wr_Version := wr_Version run' + 1, wr_FinishedAt := fin\<rparr>)"
      by auto
    then show ?thesis
    proof cases
      case 1
      then show ?thesis using px k(1) by (simp add: P_def)
    next
      case 2
      have "(ValidRunTransition ^^ Suc k) (wr_Status run) s" using k(2) 2(1) by auto
      moreover have "run'\<lparr>wr_Status := s, wr_Version := wr_Version run' + 1, wr_FinishedAt := fin\<rparr> =
          run\<lparr>wr_Status := s, wr_Version := wr_Version run + of_nat (Suc k), wr_FinishedAt := fin\<rparr>"
        by (subst k(3), subst (2) k(3)) simp
      ultimately show ?thesis using 2(2) unfolding P_def by (intro exI [of _ "Suc k"] exI conjI) auto
    qed
  qed
  have "P (run_state h r w)" unfolding P_def using assms(5) p(1) by (intro exI [of _ run] exI [of _ 0]) auto
  with step obtain x where "map_of (wc_proj (snd (snd w'))) r = Some (derive_active x)" "P x"
    by (rule alive_preserved [OF assms(1-4)])
  then show ?thesis unfolding P_def by - (rule exI [of _ "derive_active x"], simp)
qed

lemma run_version_counts_witness:
  "\<exists>p' run' k. map_of (wc_proj (snd (snd demo_done))) ''wfr-'' = Some p' \<and>
     pr_Run p' = Some run' \<and> (ValidRunTransition ^^ k) WfRunStatusRunning (wr_Status run')"
proof -
  obtain run where run: "pr_Run (demo_view demo_mid) = Some run" "wr_Status run = WfRunStatusRunning"
    using demo_live(3) by (auto simp: run_is_def split: option.splits)
  from run_version_counts [OF demo_mid_reachable demo_prefix demo_runs(1) demo_live(1) run(1)] run show ?thesis by auto
qed

section \<open>Attempts\<close>

text \<open>
  C14. Finished attempts never change.  Along every execution that does not delete the
  run, the attempts keep their positions and identities, and an attempt that was finished
  keeps its status, version, outcome, route, evidence, finishing time and panel; a recorded
  prompt reference is never replaced.
\<close>

theorem finished_attempts_never_change:
  assumes "wf_reachable h val w" "HasPrefix r ''wfr-''" "(alive_step h val r)\<^sup>*\<^sup>* w w'"
    "map_of (wc_proj (snd (snd w))) r = Some p" "i < length (pr_Attempts p)" "a = pr_Attempts p ! i"
  shows "\<exists>p' b. map_of (wc_proj (snd (snd w'))) r = Some p' \<and> i < length (pr_Attempts p') \<and> b = pr_Attempts p' ! i \<and>
    at_AttemptID b = at_AttemptID a \<and> at_RunID b = at_RunID a \<and> at_StepID b = at_StepID a \<and> at_AttemptNo b = at_AttemptNo a \<and>
    (at_PromptRef a = [] \<or> at_PromptRef b = at_PromptRef a) \<and>
    (\<not> IsTerminalAttemptStatus (at_Status a) \<or> settled b = settled a)"
proof -
  let ?P = "\<lambda>x. att_grow (pr_Attempts p) (pr_Attempts (fst x))"
  note p = live_replay [OF reachable_ok [OF assms(1)] assms(2,4)]
  have step: "?P y" if "?P x" "run_step h r x y" for x y
    using that step_att_grow [of h r "fst x" "snd x" "fst y" "snd y"] att_grow_trans by simp
  have "?P (run_state h r w)" using p(1) by simp
  with step obtain x where x: "map_of (wc_proj (snd (snd w'))) r = Some (derive_active x)" "?P x"
    by (rule alive_preserved [OF assms(1-4)])
  then have "i < length (pr_Attempts (fst x))" "att_kept a (pr_Attempts (fst x) ! i)"
    using assms(5,6) by (auto simp: att_grow_def)
  then show ?thesis using x(1)
    by - (rule exI [of _ "derive_active x"], rule exI [of _ "pr_Attempts (fst x) ! i"], auto simp: att_kept_def)
qed

lemma finished_attempts_never_change_witness:
  "\<exists>p' b. map_of (wc_proj (snd (snd demo_done))) ''wfr-'' = Some p' \<and>
     b = pr_Attempts p' ! 0 \<and> settled b = settled (pr_Attempts (demo_view demo_mid) ! 0)"
proof -
  have "0 < length (pr_Attempts (demo_view demo_mid))" using demo_live(5) by simp
  from finished_attempts_never_change [OF demo_mid_reachable demo_prefix demo_runs(1) demo_live(1) this refl] demo_live(6)
  show ?thesis by auto
qed

section \<open>Well-formed projections\<close>

definition run_typed :: "string \<Rightarrow> WfRunSnapshot \<Rightarrow> bool" where
  "run_typed r run \<longleftrightarrow> wr_RunID run = r \<and>
     wr_Status run \<in> {WfRunStatusPending, WfRunStatusRunning, WfRunStatusWaitingApproval, WfRunStatusDeliveryPending,
       WfRunStatusSucceeded, WfRunStatusFailed, WfRunStatusCanceled, WfRunStatusTimedOut, WfRunStatusDeliveryFailed} \<and>
     (IsTerminalRunStatus (wr_Status run) \<longrightarrow> wr_FinishedAt run \<noteq> None)"

text \<open>A route comes from a finished attempt that succeeded or failed.\<close>

definition route_typed :: "string \<Rightarrow> StepAttempt list \<Rightarrow> TransitionRecord \<Rightarrow> bool" where
  "route_typed r as t \<longleftrightarrow> tr_RunID t = r \<and> tr_ToStepID t \<noteq> [] \<and>
     (\<exists>a \<in> set as. at_AttemptID a = tr_FromAttemptID t \<and> at_Status a \<in> {AttemptStatusSucceeded, AttemptStatusFailed})"

definition attempts_typed :: "string \<Rightarrow> StepAttempt list \<Rightarrow> bool" where
  "attempts_typed r as \<longleftrightarrow> (\<forall>a \<in> set as. at_RunID a = r \<and>
       (at_Status a = AttemptStatusRunning \<or> IsTerminalAttemptStatus (at_Status a))) \<and>
     distinct (map (\<lambda>a. (at_StepID a, at_AttemptNo a)) as)"

definition parts_typed :: "string \<Rightarrow> Projection \<Rightarrow> bool" where
  "parts_typed r p \<longleftrightarrow> (\<forall>run. pr_Run p = Some run \<longrightarrow> run_typed r run) \<and> attempts_typed r (pr_Attempts p) \<and>
     (\<forall>t \<in> set (pr_Transitions p). route_typed r (pr_Attempts p) t) \<and>
     (\<forall>l \<in> set (pr_LoopCounters p). lc_RunID l = r \<and> 1 \<le> lc_Iterations l) \<and>
     (\<forall>a \<in> set (pr_Approvals p). ap_RunID a = r)"

definition keys_distinct :: "Projection \<Rightarrow> bool" where
  "keys_distinct p \<longleftrightarrow> distinct (map at_AttemptID (pr_Attempts p)) \<and> distinct (map lc_LoopName (pr_LoopCounters p)) \<and>
     distinct (map ap_ApprovalID (pr_Approvals p)) \<and> distinct (map dl_IdempotencyKey (pr_Deliveries p))"

lemma valid_run_target:
  "ValidRunTransition s t \<Longrightarrow> t \<in> {WfRunStatusPending, WfRunStatusRunning, WfRunStatusWaitingApproval, WfRunStatusDeliveryPending,
     WfRunStatusSucceeded, WfRunStatusFailed, WfRunStatusCanceled, WfRunStatusTimedOut, WfRunStatusDeliveryFailed}"
  by (auto simp: ValidRunTransition_def split: if_splits)

lemma valid_attempt_target: "ValidAttemptTransition s t \<Longrightarrow> t = AttemptStatusRunning \<or> IsTerminalAttemptStatus t"
  by (auto simp: ValidAttemptTransition_def IsTerminalAttemptStatus_def split: if_splits)

lemma pending_not_terminal: "\<not> IsTerminalRunStatus WfRunStatusPending"
  by (simp add: IsTerminalRunStatus_def wf_run_status_defs)

lemma step_run_typed:
  assumes "run_step h r (p, st) (p', st')" "\<forall>run. pr_Run p = Some run \<longrightarrow> run_typed r run" "pr_Run p' = Some run"
  shows "run_typed r run"
  using step_run [OF assms(1)]
proof (elim disjE exE conjE)
  fix run0 assume "pr_Run p' = Some run0" "wr_RunID run0 = r" "wr_Status run0 = WfRunStatusPending"
  then show ?thesis using assms(3) pending_not_terminal by (simp add: run_typed_def)
next
  fix run0 s fin
  assume "pr_Run p = Some run0" "ValidRunTransition (wr_Status run0) s" "IsTerminalRunStatus s \<longrightarrow> fin \<noteq> None"
    "pr_Run p' = Some (run0\<lparr>wr_Status := s, wr_Version := wr_Version run0 + 1, wr_FinishedAt := fin\<rparr>)"
  then show ?thesis using assms(2,3) valid_run_target by (auto simp: run_typed_def)
qed (use assms(2,3) in simp)

lemma attempts_typed_update:
  assumes "attempts_typed r as" "i < length as" "att_kept (as ! i) b" "at_Status b = AttemptStatusRunning \<or> IsTerminalAttemptStatus (at_Status b)"
  shows "attempts_typed r (as[i := b])"
proof -
  have "at_RunID b = r" using assms(1-3) by (simp add: attempts_typed_def att_kept_def)
  then have "\<forall>a \<in> insert b (set as). at_RunID a = r \<and> (at_Status a = AttemptStatusRunning \<or> IsTerminalAttemptStatus (at_Status a))"
    using assms(1,4) by (simp add: attempts_typed_def)
  moreover have "map (\<lambda>a. (at_StepID a, at_AttemptNo a)) (as[i := b]) = map (\<lambda>a. (at_StepID a, at_AttemptNo a)) as"
    using assms(3) by (intro map_update_same) (simp add: att_kept_def)
  ultimately show ?thesis
    using assms(1) set_update_subset_insert [of as i b] unfolding attempts_typed_def by (metis subsetD)
qed

lemma attempts_typed_snoc:
  assumes "attempts_typed r as" "at_RunID b = r" "at_Status b = AttemptStatusRunning \<or> IsTerminalAttemptStatus (at_Status b)"
    "\<not> list_ex (\<lambda>a. at_StepID a = at_StepID b \<and> at_AttemptNo a = at_AttemptNo b) as"
  shows "attempts_typed r (as @ [b])"
proof -
  have "(at_StepID b, at_AttemptNo b) \<notin> (\<lambda>a. (at_StepID a, at_AttemptNo a)) ` set as"
    using assms(4) by (force simp: list_ex_iff)
  then show ?thesis using assms(1-3) by (simp add: attempts_typed_def)
qed

lemma step_attempts_typed:
  assumes "run_step h r (p, st) (p', st')" "attempts_typed r (pr_Attempts p)"
  shows "attempts_typed r (pr_Attempts p')"
  using step_attempts [OF assms(1)]
proof (elim disjE exE conjE)
  fix i b
  assume "i < length (pr_Attempts p)" "pr_Attempts p' = (pr_Attempts p)[i := b]" "att_kept (pr_Attempts p ! i) b"
    "at_Status b = at_Status (pr_Attempts p ! i)"
  then show ?thesis using attempts_typed_update [OF assms(2), of i b] assms(2) by (simp add: attempts_typed_def)
next
  fix i b
  assume "i < length (pr_Attempts p)" "pr_Attempts p' = (pr_Attempts p)[i := b]" "att_kept (pr_Attempts p ! i) b"
    "ValidAttemptTransition (at_Status (pr_Attempts p ! i)) (at_Status b)"
  then show ?thesis using attempts_typed_update [OF assms(2), of i b] valid_attempt_target by simp
next
  fix b
  assume new: "pr_Attempts p' = pr_Attempts p @ [b]" "at_RunID b = r"
    "\<not> list_ex (\<lambda>a. at_StepID a = at_StepID b \<and> at_AttemptNo a = at_AttemptNo b) (pr_Attempts p)"
  assume "at_Status b = AttemptStatusRunning"
  with new assms(2) show ?thesis unfolding new(1) by (intro attempts_typed_snoc) simp_all
next
  fix b
  assume new: "pr_Attempts p' = pr_Attempts p @ [b]" "at_RunID b = r"
    "\<not> list_ex (\<lambda>a. at_StepID a = at_StepID b \<and> at_AttemptNo a = at_AttemptNo b) (pr_Attempts p)"
  assume "IsTerminalAttemptStatus (at_Status b)"
  with new assms(2) show ?thesis unfolding new(1) by (intro attempts_typed_snoc) simp_all
qed (use assms(2) in simp)

lemma route_typed_grow:
  assumes "route_typed r as t" "att_grow as bs"
  shows "route_typed r bs t"
proof -
  obtain i where i: "i < length as" "at_AttemptID (as ! i) = tr_FromAttemptID t" "at_Status (as ! i) \<in> {AttemptStatusSucceeded, AttemptStatusFailed}"
    using assms(1) by (auto simp: route_typed_def in_set_conv_nth)
  then have "att_kept (as ! i) (bs ! i)" "i < length bs" "IsTerminalAttemptStatus (at_Status (as ! i))"
    using assms(2) by (auto simp: att_grow_def IsTerminalAttemptStatus_def)
  then have "bs ! i \<in> set bs" "at_AttemptID (bs ! i) = tr_FromAttemptID t" "at_Status (bs ! i) \<in> {AttemptStatusSucceeded, AttemptStatusFailed}"
    using i by (auto simp: att_kept_def settled_def)
  then show ?thesis using assms(1) by (auto simp: route_typed_def)
qed

lemma step_loops_typed:
  assumes "run_step h r (p, st) (p', st')" "\<forall>l \<in> set (pr_LoopCounters p). lc_RunID l = r \<and> 1 \<le> lc_Iterations l"
  shows "\<forall>l \<in> set (pr_LoopCounters p'). lc_RunID l = r \<and> 1 \<le> lc_Iterations l"
  using step_loops [OF assms(1)]
proof (elim disjE exE conjE)
  fix i b
  assume "i < length (pr_LoopCounters p)" "pr_LoopCounters p' = (pr_LoopCounters p)[i := b]"
    "lc_key b = lc_key (pr_LoopCounters p ! i)" "lc_Iterations b = max 1 (lc_Iterations (pr_LoopCounters p ! i) + 1)"
  then show ?thesis using assms(2) set_update_subset_insert [of "pr_LoopCounters p" i b] by (auto dest!: subsetD)
qed (use assms(2) in auto)

lemma step_approvals_typed:
  assumes "run_step h r (p, st) (p', st')" "\<forall>a \<in> set (pr_Approvals p). ap_RunID a = r"
  shows "\<forall>a \<in> set (pr_Approvals p'). ap_RunID a = r"
  using step_approvals [OF assms(1)]
proof (elim disjE exE conjE)
  fix i b
  assume "i < length (pr_Approvals p)" "pr_Approvals p' = (pr_Approvals p)[i := b]" "ap_RunID b = ap_RunID (pr_Approvals p ! i)"
  then show ?thesis using assms(2) set_update_subset_insert [of "pr_Approvals p" i b] by (auto dest!: subsetD)
qed (use assms(2) in auto)

lemma step_parts_typed:
  assumes "run_step h r (p, st) (p', st')" "parts_typed r p"
  shows "parts_typed r p'"
proof -
  have "\<forall>t \<in> set (pr_Transitions p'). route_typed r (pr_Attempts p') t"
    using step_transitions [OF assms(1)] route_typed_grow [OF _ step_att_grow [OF assms(1)]] assms(2)
    by (auto simp: parts_typed_def route_typed_def)
  then show ?thesis
    using assms step_run_typed [OF assms(1)] step_attempts_typed [OF assms(1)] step_loops_typed [OF assms(1)]
      step_approvals_typed [OF assms(1)]
    unfolding parts_typed_def by blast
qed

lemma keys_of_rok:
  assumes "rok (p, st)" "parts_typed r p"
  shows "keys_distinct p"
proof -
  have "distinct (map lc_key (pr_LoopCounters p))" using assms(1) by (simp add: rok_def idx_ok_def)
  moreover have "map lc_key (pr_LoopCounters p) = map (\<lambda>n. (r, n)) (map lc_LoopName (pr_LoopCounters p))"
    using assms(2) by (auto simp: parts_typed_def)
  ultimately have "distinct (map lc_LoopName (pr_LoopCounters p))" by (metis distinct_map)
  then show ?thesis using assms(1) by (simp add: keys_distinct_def rok_def idx_ok_def)
qed

lemma live_prefix:
  assumes "wf_ok h w" "map_of (wc_proj (snd (snd w))) r = Some p"
  shows "HasPrefix r ''wfr-''"
  using ok_live [of h "fst w" "fst (snd w)" "snd (snd w)" r] assms by (simp split: if_splits)

lemma live_typed:
  assumes "wf_reachable h val w" "map_of (wc_proj (snd (snd w))) r = Some p"
  shows "parts_typed r p" "keys_distinct p" "pr_HasRun p" "\<exists>run. pr_Run p = Some run"
proof -
  note ok = reachable_ok [OF assms(1)]
  note r = live_prefix [OF ok assms(2)]
  note p = live_replay [OF ok r assms(2)]
  have typed: "parts_typed r (fst (run_state h r w))"
  proof (rule reachable_state [where P = "\<lambda>x. parts_typed r (fst x)", OF assms(1) r])
    show "parts_typed r (fst blank)" by (simp add: parts_typed_def attempts_typed_def zero_projection_def)
    show "parts_typed r (fst y)" if "parts_typed r (fst x)" "run_step h r x y" for x y
      using step_parts_typed [of h r "fst x" "snd x" "fst y" "snd y"] that by simp
  qed
  have "keys_distinct (fst (run_state h r w))"
    using keys_of_rok [of "fst (run_state h r w)" "snd (run_state h r w)"] typed p(3) by simp
  with typed show "parts_typed r p" "keys_distinct p" "pr_HasRun p" "\<exists>run. pr_Run p = Some run"
    using p by (auto simp: parts_typed_def keys_distinct_def rok_def)
qed

text \<open>
  C15. Projections are well formed.  In every reachable world the cached projection of a
  workflow run has the run record, with the run's own id, one of the nine statuses, and a
  finishing time when the status is terminal; every attempt, route, loop counter and
  approval belongs to the run; every attempt is running or finished; no two attempts share
  an id, or a step and attempt number; every route starts at a recorded attempt that
  succeeded or failed; loop counters are positive; and loop names, approval ids and
  delivery keys do not repeat.
\<close>

theorem projection_well_formed:
  assumes "wf_reachable h val w" "map_of (wc_proj (snd (snd w))) r = Some p"
  shows "HasPrefix r ''wfr-'' \<and> pr_HasRun p \<and> (\<exists>run. pr_Run p = Some run) \<and> parts_typed r p \<and> keys_distinct p"
  using live_typed [OF assms] live_prefix [OF reachable_ok [OF assms(1)] assms(2)] by blast

lemma projection_well_formed_witness:
  "parts_typed ''wfr-'' (demo_view demo_mid) \<and> keys_distinct (demo_view demo_mid)"
  using projection_well_formed [OF demo_mid_reachable demo_live(1)] by simp

section \<open>History\<close>

definition history_grow :: "Projection \<Rightarrow> Projection \<Rightarrow> bool" where
  "history_grow p q \<longleftrightarrow> (\<exists>ts. pr_Transitions q = pr_Transitions p @ ts) \<and>
     keyed_grow lc_key (\<lambda>a b. lc_Iterations a \<le> lc_Iterations b) (pr_LoopCounters p) (pr_LoopCounters q) \<and>
     keyed_grow ap_ApprovalID approval_kept (pr_Approvals p) (pr_Approvals q)"

lemma history_grow_step:
  assumes "history_grow p q" "run_step h r (q, st) (q', st')"
  shows "history_grow p q'"
  unfolding history_grow_def
proof (intro conjI)
  note p = assms(1) [unfolded history_grow_def]
  show "\<exists>ts. pr_Transitions q' = pr_Transitions p @ ts" using p step_transitions [OF assms(2)] by auto
  show "keyed_grow lc_key (\<lambda>a b. lc_Iterations a \<le> lc_Iterations b) (pr_LoopCounters p) (pr_LoopCounters q')"
    using p step_loops_grow [OF assms(2)] by (elim conjE) (rule keyed_grow_trans, assumption+, rule order_trans)
  show "keyed_grow ap_ApprovalID approval_kept (pr_Approvals p) (pr_Approvals q')"
    using p step_approvals_grow [OF assms(2)] by (elim conjE) (rule keyed_grow_trans, assumption+, rule approval_kept_trans)
qed

text \<open>
  History only grows.  Along every execution that does not delete the run, the
  recorded routes are a prefix of the later ones, no loop counter disappears or
  decreases, and an approval that was resolved is exactly as it was.
\<close>

theorem history_only_grows:
  assumes "wf_reachable h val w" "HasPrefix r ''wfr-''" "(alive_step h val r)\<^sup>*\<^sup>* w w'"
    "map_of (wc_proj (snd (snd w))) r = Some p"
  shows "\<exists>p'. map_of (wc_proj (snd (snd w'))) r = Some p' \<and>
    (\<exists>ts. pr_Transitions p' = pr_Transitions p @ ts) \<and>
    keyed_grow lc_key (\<lambda>a b. lc_Iterations a \<le> lc_Iterations b) (pr_LoopCounters p) (pr_LoopCounters p') \<and>
    keyed_grow ap_ApprovalID (\<lambda>a b. ap_Status a = ''pending'' \<or> b = a) (pr_Approvals p) (pr_Approvals p')"
proof -
  let ?P = "\<lambda>x. history_grow p (fst x)"
  note p = live_replay [OF reachable_ok [OF assms(1)] assms(2,4)]
  have step: "?P y" if "?P x" "run_step h r x y" for x y
    using history_grow_step [of p "fst x" h r "snd x" "fst y" "snd y"] that by simp
  have "?P (run_state h r w)" using p(1) by (auto simp: history_grow_def intro!: keyed_grow_refl)
  with step obtain x where x: "map_of (wc_proj (snd (snd w'))) r = Some (derive_active x)" "?P x"
    by (rule alive_preserved [OF assms(1-4)])
  have "approval_kept = (\<lambda>a b. ap_Status a = ''pending'' \<or> b = a)" by (auto simp: approval_kept_def fun_eq_iff)
  with x show ?thesis by - (rule exI [of _ "derive_active x"], simp add: history_grow_def)
qed

lemma history_only_grows_witness:
  "\<exists>p' ts. map_of (wc_proj (snd (snd demo_done))) ''wfr-'' = Some p' \<and>
     pr_Transitions p' = pr_Transitions (demo_view demo_mid) @ ts"
  using history_only_grows [OF demo_mid_reachable demo_prefix demo_runs(1) demo_live(1)] by auto

end
