(* ===== verification/Wf_Op_Properties.thy ===== *)
theory Wf_Op_Properties
  imports Wf_Run_Properties
begin

text \<open>
  Properties of single operations of the workflow repository: what an error leaves behind,
  two writers that read the same version, the resume plan, and the two places where the
  cached projection and the stored events can tell different stories.
\<close>

section \<open>Errors\<close>

lemma same_log_same_view:
  assumes "wf_ok h (e, m, c)" "wf_ok h (e', m, c')"
  shows "map_of (wc_proj c') r = map_of (wc_proj c) r"
  using ok_live [OF assms(1), of r] ok_live [OF assms(2), of r] by (simp add: run_state_def)

text \<open>
  C16. A failed command changes nothing.  In every reachable world, when a command of the
  repository reports an error, the store is exactly as before and every cached projection
  is too: what the command had already changed in memory is rolled back or rebuilt.
\<close>

theorem failed_commands_change_nothing:
  assumes "wf_reachable h val (e, m, c)" "cmd_ok cmd" "roomy h (cmd_run cmd) (e, m, c)"
    "wf_exec h val cmd (e, m, c) = ((e', m', c'), Some err)"
  shows "m' = m \<and> (\<forall>r. map_of (wc_proj c') r = map_of (wc_proj c) r)"
proof -
  note ok = reachable_ok [OF assms(1)]
  have m': "m' = m" using exec_keeps [OF ok assms(4)] by simp
  have "wf_ok h (e', m', c')" by (rule evolvesD(1) [OF exec_evolves [OF ok assms(2-4)]])
  then show ?thesis using same_log_same_view [OF ok] m' by blast
qed

definition demo_stale :: wf_cmd where
  "demo_stale = CmdSetRunStatus 8 [] ''wfr-'' 1 WfRunStatusFailed None"

lemma failed_commands_change_nothing_witness:
  "\<exists>err. snd (wf_exec demo_h None demo_stale demo_world) = Some err \<and>
     fst (snd (fst (wf_exec demo_h None demo_stale demo_world))) = fst (snd demo_world)"
proof -
  have *: "\<not> Option.is_none (snd (wf_exec demo_h None demo_stale demo_world)) \<and> roomy demo_h (cmd_run demo_stale) demo_world"
    by code_simp
  let ?w = "fst (wf_exec demo_h None demo_stale demo_world)"
  obtain err where err: "snd (wf_exec demo_h None demo_stale demo_world) = Some err"
    using * by (auto simp: Option.is_none_def)
  then have "wf_exec demo_h None demo_stale (fst demo_world, fst (snd demo_world), snd (snd demo_world)) =
      ((fst ?w, fst (snd ?w), snd (snd ?w)), Some err)"
    by (simp add: prod_eq_iff)
  from failed_commands_change_nothing [OF demo_reachable3 _ _ this] * err show ?thesis by (simp add: demo_stale_def)
qed

section \<open>Two writers\<close>

text \<open>What emit reports of the event identifier it uses.\<close>

lemma emit_result:
  assumes inv: "events_inv m" and log: "replay_log h m r = Inr x"
    and rb: "\<And>c r'. r' \<noteq> r \<Longrightarrow> live (rollback c) r' = live c r'"
    and run: "emit mem_ops h holder r kind parts payload rollback (e, m, c) = ((e', m', c'), err)"
  shows "err = None \<Longrightarrow> \<exists>ev \<in> set (mem_evs m' r). ev_ID ev = EventID r kind parts \<and> payload = Inr (ev_Payload ev)"
    "ev \<in> set (mem_evs m r) \<Longrightarrow> ev_ID ev = EventID r kind parts \<Longrightarrow>
       m' = m \<and> live c' r = view x \<and> (err = None \<longrightarrow> payload = Inr (ev_Payload ev))"
proof -
  have "(err = None \<longrightarrow> (\<exists>ev \<in> set (mem_evs m' r). ev_ID ev = EventID r kind parts \<and> payload = Inr (ev_Payload ev))) \<and>
    (\<forall>ev \<in> set (mem_evs m r). ev_ID ev = EventID r kind parts \<longrightarrow>
       m' = m \<and> live c' r = view x \<and> (err = None \<longrightarrow> payload = Inr (ev_Payload ev)))"
  proof (cases payload)
    case (Inl perr)
    obtain c1 where c1: "catchUpRunLocked mem_ops h r (e, m, rollback c) =
        ((eng_SetApplied r (max_sequence (mem_evs m r) 0) e, m, c1), None)" "live c1 r = view x"
      using catchUpRun_mem [OF inv log] by blast
    then show ?thesis using run Inl by (auto simp: emit_def rollbackAndRebuild_def)
  next
    case (Inr bytes)
    obtain e1 q where q: "eng_NextSequence r e = (e1, q)" by (cases "eng_NextSequence r e")
    define evt where "evt = \<lparr>ev_ID = EventID r kind parts, ev_RunID = r, ev_Sequence = sint q, ev_Kind = kind,
      ev_Payload = bytes, ev_RowID = 0\<rparr>"
    have evt: "ev_RunID evt = r" "ev_ID evt = EventID r kind parts" "ev_Payload evt = bytes" by (simp_all add: evt_def)
    have app: "appendEvent mem_ops h holder evt rollback (e1, m, c) = ((e', m', c'), err)"
      using run Inr q by (simp add: emit_def evt_def)
    have log': "replay_log h m (ev_RunID evt) = Inr x" using log evt by simp
    have rb': "\<And>c r'. r' \<noteq> ev_RunID evt \<Longrightarrow> live (rollback c) r' = live c r'" using rb evt by simp
    have ids: "ev_ID ev \<in> m_ids m" "ev' \<in> set (mem_evs m r) \<Longrightarrow> ev_ID ev' = ev_ID ev \<Longrightarrow> ev' = ev"
      if "ev \<in> set (mem_evs m r)" for ev ev'
      using inv that unfolding events_inv_def stored_def by blast+
    from appendEvent_mem [OF inv log' rb' app] consider
        (kept) "m' = m" "live c' r = view x"
          "err = None \<longrightarrow> (\<exists>ev \<in> set (mem_evs m r). ev_ID ev = EventID r kind parts \<and> ev_Payload ev = bytes)"
      | (stored) "appended evt m m'" "err = None"
      unfolding evt by blast
    then show ?thesis
    proof cases
      case kept
      then show ?thesis using ids Inr by (metis sum.inject(2))
    next
      case stored
      have "EventID r kind parts \<notin> m_ids m" using stored(1) evt by (simp add: appended_def)
      then have "\<forall>ev \<in> set (mem_evs m r). ev_ID ev \<noteq> EventID r kind parts" using ids(1) by metis
      moreover have "stamped m evt \<in> set (mem_evs m' r)" using appended_evs [OF stored(1), of r] evt by simp
      then have "\<exists>ev \<in> set (mem_evs m' r). ev_ID ev = EventID r kind parts \<and> payload = Inr (ev_Payload ev)"
        using Inr evt by (intro bexI [of _ "stamped m evt"]) simp_all
      ultimately show ?thesis by blast
    qed
  qed
  then show "err = None \<Longrightarrow> \<exists>ev \<in> set (mem_evs m' r). ev_ID ev = EventID r kind parts \<and> payload = Inr (ev_Payload ev)"
    "ev \<in> set (mem_evs m r) \<Longrightarrow> ev_ID ev = EventID r kind parts \<Longrightarrow>
       m' = m \<and> live c' r = view x \<and> (err = None \<longrightarrow> payload = Inr (ev_Payload ev))"
    by blast+
qed

lemma status_body:
  assumes "map_of (wc_proj c) r = Some p" "pr_HasRun p" "pr_Run p = Some orig"
  shows "CompareAndSetRunStatus_locked mem_ops h now holder r v status fin (e, m, c) =
    (if wr_Version orig \<noteq> v then ((e, m, c), Some LErrConflict)
     else if \<not> ValidRunTransition (wr_Status orig) status then ((e, m, c), Some LErrInvalidTransition)
     else let f = (if IsTerminalRunStatus status then (case fin of Some t \<Rightarrow> Some t | None \<Rightarrow> Some now) else None) in
       emit mem_ops h holder r eventKindRunStatusChanged [FormatUint (v + 1)]
         (marshal (PRunStatusChanged \<lparr>scp_Status = status, scp_Version = v + 1, scp_FinishedAt = f, scp_CreatedAt = now\<rparr>))
         (upd_proj r (\<lambda>q. q\<lparr>pr_Run := Some orig\<rparr>))
         (e, m, put_proj r (p\<lparr>pr_Run := Some (orig\<lparr>wr_Status := status, wr_Version := v + 1, wr_FinishedAt := f\<rparr>)\<rparr>) c))"
  using assms by (auto simp: CompareAndSetRunStatus_locked_def on_run_def Let_def)

text \<open>
  C17. Of two writers of one version, one writes.  Two processes have cached the same
  state of a run and both call CompareAndSetRunStatus with the version they read.  When
  the second one appends after the first one succeeded, without having caught up in
  between, it writes nothing; it either refuses the transition by itself or ends with the
  projection the first writer left; and it reports success only if it wrote the same
  status.
\<close>

theorem one_status_writer_per_version:
  assumes "wf_reachable h val (e, m, c)" "HasPrefix r ''wfr-''" "map_of (wc_proj c2) r = map_of (wc_proj c) r"
    "CompareAndSetRunStatus_locked mem_ops h nowB holderB r v statusB finB (e2, m, c2) = ((eB, mB, cB), None)"
    "CompareAndSetRunStatus_locked mem_ops h nowA holderA r v statusA finA (e, mB, c) = ((e', m', c'), err)"
  shows "m' = mB \<and> (err = Some LErrInvalidTransition \<and> c' = c \<or> map_of (wc_proj c') r = map_of (wc_proj cB) r) \<and>
    (err = None \<longrightarrow> statusA = statusB)"
proof -
  note ok = reachable_ok [OF assms(1)]
  obtain x where x: "synced h m c r x" using wf_okD(2) [OF ok assms(2)] ..
  have inv: "events_inv m" using wf_okD(1) [OF ok] .
  have x2: "synced h m c2 r x" using x assms(3) by (simp add: synced_def)
  have "refines h r (e2, m, c2) (eB, mB, cB)" by (rule CompareAndSetRunStatus_refines [OF inv x2 assms(4)])
  then obtain y where invB: "events_inv mB" and y: "synced h mB cB r y" by (auto simp: refines_def)
  have "live c2 r \<noteq> None"
    using assms(4) by (cases "live c2 r") (simp_all add: CompareAndSetRunStatus_locked_def on_run_def)
  then obtain p where p: "live c r = Some p" "live c2 r = Some p" "pr_HasRun p" "pr_Run p \<noteq> None"
    using x assms(3) synced_rok [OF x] by (cases x) (auto simp: synced_def view_def rok_def split: if_splits)
  then obtain orig where orig: "pr_Run p = Some orig" by blast
  let ?pl = "\<lambda>s f n. PRunStatusChanged \<lparr>scp_Status = s, scp_Version = v + 1, scp_FinishedAt = f, scp_CreatedAt = n\<rparr>"
  let ?fin = "\<lambda>s f n. if IsTerminalRunStatus s then (case f of Some t \<Rightarrow> Some t | None \<Rightarrow> Some n) else None"
  have v: "wr_Version orig = v" "ValidRunTransition (wr_Status orig) statusB"
    using assms(4) unfolding status_body [OF p(2,3) orig] by (auto split: if_splits)
  let ?put = "\<lambda>s f. put_proj r (p\<lparr>pr_Run := Some (orig\<lparr>wr_Status := s, wr_Version := v + 1, wr_FinishedAt := f\<rparr>)\<rparr>)"
  let ?emit = "\<lambda>holder s f n. emit mem_ops h holder r eventKindRunStatusChanged [FormatUint (v + 1)] (marshal (?pl s f n))
      (upd_proj r (\<lambda>q. q\<lparr>pr_Run := Some orig\<rparr>))"
  have emB: "?emit holderB statusB (?fin statusB finB nowB) nowB (e2, m, ?put statusB (?fin statusB finB nowB) c2) =
      ((eB, mB, cB), None)"
    using assms(4) v unfolding status_body [OF p(2,3) orig] Let_def by (simp only: if_False not_True_eq_False simp_thms)
  have log: "replay_log h m r = Inr x" using x by (simp add: synced_def)
  have "\<exists>ev \<in> set (mem_evs mB r). ev_ID ev = EventID r eventKindRunStatusChanged [FormatUint (v + 1)] \<and>
      marshal (?pl statusB (?fin statusB finB nowB) nowB) = Inr (ev_Payload ev)"
    by (rule emit_result(1) [OF inv log _ emB refl]) simp
  then obtain ev where ev: "ev \<in> set (mem_evs mB r)" "ev_ID ev = EventID r eventKindRunStatusChanged [FormatUint (v + 1)]"
    "ev_Payload ev = [?pl statusB (?fin statusB finB nowB) nowB]"
    using marshal_Inr by blast
  show ?thesis
  proof (cases "ValidRunTransition (wr_Status orig) statusA")
    case False
    then show ?thesis using assms(5) v unfolding status_body [OF p(1,3) orig] by auto
  next
    case True
    have logB: "replay_log h mB r = Inr y" and viewB: "live cB r = view y" using y by (simp_all add: synced_def)
    have emA: "?emit holderA statusA (?fin statusA finA nowA) nowA (e, mB, ?put statusA (?fin statusA finA nowA) c) =
        ((e', m', c'), err)"
      using assms(5) v(1) True unfolding status_body [OF p(1,3) orig] Let_def by (simp only: if_False not_True_eq_False simp_thms)
    have a: "m' = mB \<and> live c' r = view y \<and> (err = None \<longrightarrow> marshal (?pl statusA (?fin statusA finA nowA) nowA) = Inr (ev_Payload ev))"
      by (rule emit_result(2) [OF invB logB _ emA ev(1,2)]) simp
    moreover have "statusA = statusB" if "err = None"
    proof -
      have "marshal (?pl statusA (?fin statusA finA nowA) nowA) = Inr (ev_Payload ev)" using a that by blast
      from marshal_Inr [OF this] ev(3) show ?thesis by simp
    qed
    ultimately show ?thesis using viewB by simp
  qed
qed

definition demo_writes :: "wf_payload memory wf_world \<times> lerr option \<times> wf_payload memory wf_world \<times> lerr option" where
  "demo_writes = (case demo_world of (e, m, c) \<Rightarrow>
     (case CompareAndSetRunStatus_locked mem_ops demo_h 8 [] ''wfr-'' 2 WfRunStatusSucceeded None (e, m, c) of
        ((eB, mB, cB), errB) \<Rightarrow>
          (case CompareAndSetRunStatus_locked mem_ops demo_h 9 [] ''wfr-'' 2 WfRunStatusFailed None (e, mB, c) of
             (wA, errA) \<Rightarrow> ((eB, mB, cB), errB, wA, errA))))"

lemma one_status_writer_per_version_witness:
  "case demo_writes of ((eB, mB, cB), errB, (e', m', c'), errA) \<Rightarrow>
     errB = None \<and> m' = mB \<and> errA \<noteq> None"
proof -
  obtain e m c where w: "demo_world = (e, m, c)" by (cases demo_world)
  obtain eB mB cB errB where b: "CompareAndSetRunStatus_locked mem_ops demo_h 8 [] ''wfr-'' 2 WfRunStatusSucceeded None (e, m, c) =
      ((eB, mB, cB), errB)" by (metis prod.collapse)
  obtain e' m' c' errA where a: "CompareAndSetRunStatus_locked mem_ops demo_h 9 [] ''wfr-'' 2 WfRunStatusFailed None (e, mB, c) =
      ((e', m', c'), errA)" by (metis prod.collapse)
  have "Option.is_none (fst (snd demo_writes))" by code_simp
  then have n: "errB = None" by (simp add: demo_writes_def w a b Option.is_none_def)
  have "WfRunStatusFailed \<noteq> WfRunStatusSucceeded" by (simp add: wf_run_status_defs)
  with one_status_writer_per_version [OF demo_reachable [unfolded w] _ refl b [unfolded n] a] show ?thesis
    by (simp add: demo_writes_def w a b n HasPrefix_def)
qed

section \<open>The resume plan\<close>

lemma next_attempt_no_bounds:
  "n \<le> next_attempt_no step as n \<and> (\<forall>a \<in> set as. at_StepID a = step \<longrightarrow> at_AttemptNo a < next_attempt_no step as n)"
proof (induction as arbitrary: n)
  case (Cons a as)
  let ?n = "if at_StepID a = step \<and> at_AttemptNo a \<ge> n then at_AttemptNo a + 1 else n"
  show ?case using Cons.IH [of ?n] by (auto split: if_splits)
qed simp

text \<open>What the plan says of the run and the attempts it was made from.\<close>

lemma plan_from_sound:
  assumes "plan = plan_from run as"
  shows "rpl_Terminal plan \<Longrightarrow> rpl_AttemptsInFlight plan = []"
    "\<not> rpl_Terminal plan \<Longrightarrow> \<not> IsTerminalRunStatus (wr_Status run) \<and> wr_Status run \<noteq> WfRunStatusDeliveryPending \<and>
       rpl_AttemptsInFlight plan = filter (\<lambda>a. \<not> IsTerminalAttemptStatus (at_Status a)) as \<and>
       \<not> IsTerminalStepID (wr_ActiveStepID (rpl_Run plan)) \<and> 1 \<le> rpl_NextAttemptNo plan \<and>
       (\<forall>a \<in> set as. at_StepID a = wr_ActiveStepID (rpl_Run plan) \<longrightarrow> at_AttemptNo a < rpl_NextAttemptNo plan)"
    "IsTerminalRunStatus (wr_Status run) \<or> wr_Status run = WfRunStatusDeliveryPending \<Longrightarrow>
       rpl_Terminal plan \<and> rpl_TerminalStatus plan = wr_Status run"
  using assms next_attempt_no_bounds by (auto simp: plan_from_def Let_def split: if_splits)

lemma plan_from_settled:
  assumes "IsTerminalRunStatus (wr_Status run) \<or> wr_Status run = WfRunStatusDeliveryPending"
  shows "plan_from run [] = plan_from run as"
  using assms by (auto simp: plan_from_def Let_def)

lemma running_not_terminal: "\<not> IsTerminalAttemptStatus AttemptStatusRunning"
  by (simp add: IsTerminalAttemptStatus_def attempt_status_defs)

lemma resumable_statuses:
  assumes "run_typed r run" "\<not> IsTerminalRunStatus (wr_Status run)" "wr_Status run \<noteq> WfRunStatusDeliveryPending"
  shows "IsResumableRunStatus (wr_Status run)"
  using assms by (auto simp: run_typed_def IsTerminalRunStatus_def IsResumableRunStatus_def)

lemma wf_read_kept:
  assumes "wf_ok h (e, m, c)" "wf_read mem_ops h f (e, m, c) = (w', Inr x)"
  shows "\<exists>e' c'. w' = (e', m, c') \<and> wf_ok h (e', m, c') \<and> f c' = Inr x \<and>
    (\<forall>r. map_of (wc_proj c') r = map_of (wc_proj c) r)"
proof -
  obtain e1 m1 c1 err where b: "ensureBuilt mem_ops h (e, m, c) = ((e1, m1, c1), err)" by (metis prod.collapse)
  note k = ensureBuilt_kept [OF assms(1) b]
  have "err = None" "w' = (e1, m1, c1)" "f c1 = Inr x"
    using assms(2) unfolding wf_read_def b by (cases err; simp)+
  then show ?thesis using k by (auto simp: same_view_def)
qed

text \<open>
  C18. The resume plan is sound.  In every reachable world a successful PlanResume only
  reads, and its plan fits the cached projection: a run whose status is not resumable
  yields a terminal plan with that very status (so a run waiting for delivery is never
  reported as succeeded); a terminal plan has nothing in flight; and a plan that is not
  terminal belongs to a resumable run, lists exactly the running attempts, does not sit on
  a reserved terminal step, and proposes an attempt number that no recorded attempt of its
  active step has.
\<close>

theorem resume_plan_is_sound:
  assumes "wf_reachable h val (e, m, c)" "PlanResume mem_ops h r (e, m, c) = (w', Inr plan)"
  shows "fst (snd w') = m \<and> (\<exists>p run. map_of (wc_proj c) r = Some p \<and> map_of (wc_proj (snd (snd w'))) r = Some p \<and>
    pr_Run p = Some run \<and>
    (\<not> IsResumableRunStatus (wr_Status run) \<longrightarrow> rpl_Terminal plan \<and> rpl_TerminalStatus plan = wr_Status run) \<and>
    (rpl_Terminal plan \<longrightarrow> rpl_AttemptsInFlight plan = []) \<and>
    (\<not> rpl_Terminal plan \<longrightarrow> IsResumableRunStatus (wr_Status run) \<and> \<not> IsTerminalStepID (wr_ActiveStepID (rpl_Run plan)) \<and>
       rpl_AttemptsInFlight plan = filter (\<lambda>a. at_Status a = AttemptStatusRunning) (pr_Attempts p) \<and> 1 \<le> rpl_NextAttemptNo plan \<and>
       (\<forall>a \<in> set (pr_Attempts p). at_StepID a = wr_ActiveStepID (rpl_Run plan) \<longrightarrow> at_AttemptNo a < rpl_NextAttemptNo plan)))"
proof -
  note ok = reachable_ok [OF assms(1)]
  obtain w1 run1 where g: "wf_GetRun mem_ops h r (e, m, c) = (w1, Inr run1)"
    using assms(2) by (auto simp: PlanResume_def split: prod.splits sum.splits)
  obtain e1 c1 where k1: "w1 = (e1, m, c1)" "wf_ok h (e1, m, c1)" "\<And>r. live c1 r = live c r"
    and f1: "run_part r (\<lambda>p. case current_run p of None \<Rightarrow> Inl LErrNotFound | Some run \<Rightarrow> Inr run) c1 = Inr run1"
    using wf_read_kept [OF ok g [unfolded wf_GetRun_def]] by blast
  obtain p run where p: "live c r = Some p" "pr_Run p = Some run" "run1 = run\<lparr>wr_ActiveStepID := pr_ActiveStepID p\<rparr>"
    using f1 k1(3) by (auto simp: run_part_def current_run_def split: option.splits if_splits)
  have typed: "run_typed r run" "attempts_typed r (pr_Attempts p)"
    using live_typed(1) [OF assms(1), of r p] p(1,2) by (simp_all add: parts_typed_def)
  have w': "fst (snd w') = m \<and> live (snd (snd w')) r = Some p \<and> plan = plan_from run1 (pr_Attempts p)"
  proof (cases "IsTerminalRunStatus (wr_Status run1) \<or> wr_Status run1 = WfRunStatusDeliveryPending")
    case True
    then show ?thesis using assms(2) g k1 p(1) plan_from_settled [OF True] by (auto simp: PlanResume_def)
  next
    case False
    then obtain as where l: "wf_ListStepAttempts mem_ops h r w1 = (w', Inr as)" "plan = plan_from run1 as"
      using assms(2) g by (auto simp: PlanResume_def split: prod.splits sum.splits)
    obtain e2 c2 where "w' = (e2, m, c2)" "\<And>r. live c2 r = live c1 r" "run_part r (\<lambda>p. Inr (pr_Attempts p)) c2 = Inr as"
      using wf_read_kept [OF k1(2) l(1) [unfolded wf_ListStepAttempts_def k1(1)]] by blast
    then show ?thesis using l(2) k1(3) p(1) by (auto simp: run_part_def split: if_splits)
  qed
  have flight: "filter (\<lambda>a. \<not> IsTerminalAttemptStatus (at_Status a)) (pr_Attempts p) =
      filter (\<lambda>a. at_Status a = AttemptStatusRunning) (pr_Attempts p)"
    using typed(2) running_not_terminal by (intro filter_cong) (auto simp: attempts_typed_def)
  have status: "wr_Status run1 = wr_Status run" using p(3) by simp
  note s = plan_from_sound [of plan run1 "pr_Attempts p", unfolded status flight]
  have "plan = plan_from run1 (pr_Attempts p)" using w' by blast
  note s = s [OF this]
  have res: "\<not> IsResumableRunStatus (wr_Status run) \<Longrightarrow> IsTerminalRunStatus (wr_Status run) \<or> wr_Status run = WfRunStatusDeliveryPending"
    using resumable_statuses [OF typed(1)] by blast
  show ?thesis using w' p(1,2) s res resumable_statuses [OF typed(1)] by (intro conjI exI [of _ p] exI [of _ run]) blast+
qed

lemma resume_plan_is_sound_witness:
  "\<exists>plan. snd (PlanResume mem_ops demo_h ''wfr-'' demo_world) = Inr plan \<and>
     fst (snd (fst (PlanResume mem_ops demo_h ''wfr-'' demo_world))) = fst (snd demo_world)"
proof -
  have "case snd (PlanResume mem_ops demo_h ''wfr-'' demo_world) of Inl err \<Rightarrow> False | Inr plan \<Rightarrow> \<not> rpl_Terminal plan"
    by code_simp
  then obtain plan where plan: "snd (PlanResume mem_ops demo_h ''wfr-'' demo_world) = Inr plan"
    by (auto split: sum.splits)
  then have "PlanResume mem_ops demo_h ''wfr-'' (fst demo_world, fst (snd demo_world), snd (snd demo_world)) =
      (fst (PlanResume mem_ops demo_h ''wfr-'' demo_world), Inr plan)"
    by (simp add: prod_eq_iff)
  from resume_plan_is_sound [OF demo_reachable3 this] plan show ?thesis by simp
qed

section \<open>What the event does not carry\<close>

text \<open>
  RecordStepAttemptOutcome can publish more than it stores.  Recording the outcome of
  an attempt whose record carries a prompt reference succeeds and caches the attempt with
  it, but the single event it stores has no place for it: the replay of the log, which is
  what a restarted process sees, has the attempt without the prompt.  (The bound cmd_ok on
  recorded attempts in the other properties excludes exactly this.)
\<close>

theorem recorded_attempt_loses_prompt:
  "case wf_RecordStepAttemptOutcome mem_ops demo_h 7 [] (demo_attempt\<lparr>at_PromptRef := ''p''\<rparr>)
          (demo_outcome AttemptStatusSucceeded []) demo_world of
     ((e, m, c), err) \<Rightarrow> Option.is_none err \<and>
       map_option (\<lambda>p. map at_PromptRef (pr_Attempts p)) (map_of (wc_proj c) ''wfr-'') = Some [''p''] \<and>
       (case RebuildProjection demo_h (mem_Events ''wfr-'' m) of
          Inl err \<Rightarrow> False | Inr p \<Rightarrow> map at_PromptRef (pr_Attempts p) = [[]])"
  by code_simp

text \<open>
  A repeated delivery record is absorbed.  When the run already has a delivery with
  the same idempotency key and the same caller-owned fields, UpsertDelivery succeeds and
  stores nothing, and the cached projection is untouched.  The number of remaining stack
  commits is not among the compared fields: a record that differs from the stored one only
  there is dropped although the call succeeds.
\<close>

theorem repeated_delivery_is_absorbed:
  assumes "wf_reachable h val (e, m, c)" "eng_CheckOpen e = None" "map_of (wc_proj c) (dl_RunID d) = Some p"
    "delivery_index (dl_IdempotencyKey d) (pr_Deliveries p) = Some i" "same_delivery (pr_Deliveries p ! i) d"
    "wf_UpsertDelivery mem_ops h now1 now2 holder (d\<lparr>dl_StackRemainingCommits := n\<rparr>) (e, m, c) = ((e', m', c'), err)"
  shows "err = None \<and> m' = m \<and> (\<forall>r. map_of (wc_proj c') r = map_of (wc_proj c) r)"
proof -
  note ok = reachable_ok [OF assms(1)]
  obtain e1 m1 c1 err1 where b: "ensureBuilt mem_ops h (e, m, c) = ((e1, m1, c1), err1)" by (metis prod.collapse)
  note k = ensureBuilt_kept [OF ok b]
  have lv: "live c1 r = live c r" for r using k(2) by (simp add: same_view_def)
  have has: "pr_HasRun p" using live_typed(3) [OF assms(1)] assms(3) by simp
  have "repeated_delivery (d\<lparr>dl_StackRemainingCommits := n\<rparr>) (pr_Deliveries p)"
    using assms(4,5) by (simp add: repeated_delivery_def same_delivery_def)
  then have "UpsertDelivery_locked mem_ops h now1 now2 holder (d\<lparr>dl_StackRemainingCommits := n\<rparr>) (e2, m1, c1) = ((e2, m1, c1), None)" for e2
    using lv assms(3) has by (simp add: UpsertDelivery_locked_def upsertDeliveryOnce_def)
  then show ?thesis using assms(2,6) b k(1,4) lv by (auto simp: wf_UpsertDelivery_def with_built_def)
qed

definition demo_delivery :: DeliveryRecord where
  "demo_delivery = \<lparr>dl_RunID = ''wfr-'', dl_IdempotencyKey = ''k'', dl_Mode = [], dl_BaseRef = [], dl_HeadRef = [],
     dl_CommitSHA = [], dl_TreeSHA = [], dl_Provider = [], dl_RemoteID = [], dl_URL = [], dl_Status = ''pushed'',
     dl_ErrorRef = [], dl_DiffRef = [], dl_DeferredFiles = [], dl_StackRemainingCommits = 2, dl_UpdatedAt = 0\<rparr>"

definition demo_delivered :: "wf_payload memory wf_world" where
  "demo_delivered = the (try_cmds demo_h None None (demo_start @ [CmdUpsertDelivery 7 7 [] demo_delivery]) demo_new)"

lemma repeated_delivery_is_absorbed_witness:
  "fst (snd (fst (wf_UpsertDelivery mem_ops demo_h 9 9 [] (demo_delivery\<lparr>dl_StackRemainingCommits := 1\<rparr>) demo_delivered))) =
     fst (snd demo_delivered)"
proof -
  have check: "case try_cmds demo_h None None (demo_start @ [CmdUpsertDelivery 7 7 [] demo_delivery]) demo_new of
      None \<Rightarrow> False
    | Some (e, m, c) \<Rightarrow> Option.is_none (eng_CheckOpen e) \<and>
        (case map_of (wc_proj c) ''wfr-'' of None \<Rightarrow> False
         | Some p \<Rightarrow> (case delivery_index ''k'' (pr_Deliveries p) of None \<Rightarrow> False
             | Some i \<Rightarrow> same_delivery (pr_Deliveries p ! i) demo_delivery))"
    by code_simp
  then obtain e m c where w: "try_cmds demo_h None None (demo_start @ [CmdUpsertDelivery 7 7 [] demo_delivery]) demo_new =
      Some (e, m, c)" by (auto split: option.splits)
  from check [unfolded w] obtain p i where p: "eng_CheckOpen e = None" "map_of (wc_proj c) ''wfr-'' = Some p"
    "delivery_index ''k'' (pr_Deliveries p) = Some i" "same_delivery (pr_Deliveries p ! i) demo_delivery"
    by (auto split: option.splits simp: Option.is_none_def)
  have d: "dl_RunID demo_delivery = ''wfr-''" "dl_IdempotencyKey demo_delivery = ''k''" by (simp_all add: demo_delivery_def)
  obtain e' m' c' err where u: "wf_UpsertDelivery mem_ops demo_h 9 9 [] (demo_delivery\<lparr>dl_StackRemainingCommits := 1\<rparr>) (e, m, c) =
      ((e', m', c'), err)" by (metis prod.collapse)
  from repeated_delivery_is_absorbed [OF try_cmds_reachable [OF w demo_new_reachable] p(1) _ _ p(4) u] p(2,3) d
  show ?thesis by (simp add: demo_delivered_def w u)
qed

end
