(* ===== verification/Wfd_Types.thy ===== *)
theory Wfd_Types
  imports Ledger_Types
begin

text \<open>
  Workflow definitions (src/internal/workflows/definition): the records of types.go, their
  constants, and the defaults of step_defaults.go.

  Go maps with string keys are association lists whose keys are distinct.  Ints are
  unbounded: the values come from a file and are only compared with small bounds.  Texts
  for people (descriptions, messages) are left out; an error is a value of \<open>wf_error\<close>
  with the data its message shows.
\<close>

section \<open>The parts of a definition\<close>

record MatchCriteria =
  mc_Status :: string
  mc_Output :: "(string \<times> string) list"

record Transition =
  tn_From :: string
  tn_To :: string
  tn_Match :: MatchCriteria
  tn_Loop :: string
  tn_MaxIterations :: int
  tn_PartialTarget :: string

record InputDef =
  id_Type :: string
  id_Required :: bool
  id_MaxBytes :: int

record Limits =
  lm_MaxStepAttempts :: int
  lm_MaxDurationSeconds :: int
  lm_MaxOnFailureReentries :: int
  lm_MaxTransientStepRetries :: int

record StepCommand =
  sc_Check :: string
  sc_Program :: string
  sc_Args :: "string list"

record ContextBinding =
  cb_From :: string
  cb_As :: string
  cb_MaxBytes :: int
  cb_Optional :: bool
  cb_EnvelopeOnly :: bool

record PanelMember =
  pb_ID :: string
  pb_Agent :: string
  pb_Provider :: string
  pb_Model :: string
  pb_Skill :: string
  pb_Template :: string
  pb_OutputSchema :: string

record AgentPanel =
  pn_FailurePolicy :: string
  pn_RequireDistinctBindings :: bool
  pn_Members :: "PanelMember list"

record Step =
  sp_ID :: string
  sp_Kind :: string
  sp_Agent :: string
  sp_Skill :: string
  sp_Verifier :: string
  sp_Command :: "StepCommand option"
  sp_Template :: string
  sp_OutputSchema :: string
  sp_Context :: "ContextBinding list"
  sp_OnFailure :: string
  sp_Panel :: "AgentPanel option"
  sp_MaxTurns :: int

record StepDefaults =
  sd_Kind :: string
  sd_Agent :: string
  sd_Skill :: string
  sd_Template :: string
  sd_OutputSchema :: string
  sd_OnFailure :: string
  sd_MaxTurns :: int
  sd_Context :: "ContextBinding list"

record Delivery =
  dy_Kind :: string
  dy_Mode :: string
  dy_Provider :: string
  dy_Base :: string
  dy_TitleTemplate :: string
  dy_CommitMessageTemplate :: string
  dy_MaxTitleBytes :: int
  dy_MaxCommitMessageBytes :: int
  dy_OnFailure :: string
  dy_PRTitlePolicy :: string
  dy_OnPRMetadataFailure :: string
  dy_OnDiffSizeFailure :: string
  dy_MaxRepairs :: int
  dy_DeliverPlanRun :: bool

record Stacking =
  sk_Enabled :: "bool option"
  sk_PlanStep :: string
  sk_ImplementStep :: string
  sk_MaxChunks :: int
  sk_SoftLines :: int
  sk_HardLines :: int
  sk_MaxFiles :: int
  sk_MergePolicy :: string
  sk_Agent :: string
  sk_MaxTotalChunks :: int
  sk_MaxWaveChunks :: int
  sk_MaxConcurrentChunks :: int
  sk_SplitDeferred :: "bool option"
  sk_SplitMaxChunks :: int
  sk_SplitMinLines :: int

record StackingConfig =
  sg_Enabled :: bool
  sg_PlanStep :: string
  sg_ImplementStep :: string
  sg_MaxChunks :: int
  sg_SoftLines :: int
  sg_HardLines :: int
  sg_MaxFiles :: int
  sg_MergePolicy :: string
  sg_Agent :: string
  sg_MaxTotalChunks :: int
  sg_MaxWaveChunks :: int
  sg_MaxConcurrentChunks :: int
  sg_SplitDeferred :: bool
  sg_SplitMaxChunks :: int
  sg_SplitMinLines :: int

record WorkflowFile =
  wd_Version :: int
  wd_Name :: string
  wd_InitialStep :: string
  wd_Inputs :: "(string \<times> InputDef) list"
  wd_Limits :: Limits
  wd_Steps :: "Step list"
  wd_Transitions :: "Transition list"
  wd_Delivery :: "Delivery option"
  wd_Stacking :: "Stacking option"
  wd_StepDefaults :: "StepDefaults option"

section \<open>Constants\<close>

definition ProviderGitHub :: string where "ProviderGitHub = ''github''"
definition PanelFailurePolicyRequireAll :: string where "PanelFailurePolicyRequireAll = ''require_all''"
definition PanelFailurePolicyAllowPartial :: string where "PanelFailurePolicyAllowPartial = ''allow_partial''"
definition ValidStackingMergePolicies :: "string list" where "ValidStackingMergePolicies = [''approve'', ''auto'']"
definition ValidStepKinds :: "string list" where
  "ValidStepKinds = [''agent'', ''agent_panel'', ''agent_gate'', ''evidence_gate'', ''human_gate'']"
definition ReservedStepIDs :: "string list" where "ReservedStepIDs = [''success'', ''failure'']"
definition UnlimitedIterations :: int where "UnlimitedIterations = -1"
definition MaxInputBytes :: int where "MaxInputBytes = 1048576"
definition MaxEvidenceBindingBytes :: int where "MaxEvidenceBindingBytes = 32 * 1024"
definition ValidTransitionStatuses :: "string list" where "ValidTransitionStatuses = [''succeeded'', ''failed'']"
definition ValidInputTypes :: "string list" where
  "ValidInputTypes = [''string'', ''boolean'', ''integer'', ''number'', ''object'', ''array'']"

definition DefaultStackingEnabled :: bool where "DefaultStackingEnabled = True"
definition DefaultStackingSplitDeferred :: bool where "DefaultStackingSplitDeferred = False"

definition DefaultStacking :: "string \<Rightarrow> string \<Rightarrow> bool \<Rightarrow> StackingConfig" where
  "DefaultStacking planStep implementStep enabled =
     \<lparr>sg_Enabled = enabled, sg_PlanStep = planStep, sg_ImplementStep = implementStep, sg_MaxChunks = 12,
      sg_SoftLines = 200, sg_HardLines = 400, sg_MaxFiles = 5, sg_MergePolicy = ''approve'', sg_Agent = [],
      sg_MaxTotalChunks = 200, sg_MaxWaveChunks = 12, sg_MaxConcurrentChunks = 4,
      sg_SplitDeferred = DefaultStackingSplitDeferred, sg_SplitMaxChunks = 4, sg_SplitMinLines = 10\<rparr>"

section \<open>Stacking\<close>

definition StackingEnabled :: "Stacking option \<Rightarrow> bool" where
  "StackingEnabled s = (case s of None \<Rightarrow> False
     | Some k \<Rightarrow> (case sk_Enabled k of None \<Rightarrow> DefaultStackingEnabled | Some b \<Rightarrow> b))"

definition SplitDeferredEnabled :: "Stacking option \<Rightarrow> bool" where
  "SplitDeferredEnabled s = (case s of None \<Rightarrow> DefaultStackingSplitDeferred
     | Some k \<Rightarrow> (case sk_SplitDeferred k of None \<Rightarrow> DefaultStackingSplitDeferred | Some b \<Rightarrow> b))"

definition over :: "int \<Rightarrow> int \<Rightarrow> int" where
  "over v dflt = (if v > 0 then v else dflt)"

definition EffectiveStacking :: "string \<Rightarrow> string \<Rightarrow> Stacking option \<Rightarrow> StackingConfig" where
  "EffectiveStacking planStep implementStep s =
     (let cfg = DefaultStacking planStep implementStep (StackingEnabled s) in
      case s of None \<Rightarrow> cfg
      | Some k \<Rightarrow> cfg\<lparr>sg_MaxChunks := over (sk_MaxChunks k) (sg_MaxChunks cfg),
          sg_SoftLines := over (sk_SoftLines k) (sg_SoftLines cfg),
          sg_HardLines := over (sk_HardLines k) (sg_HardLines cfg),
          sg_MaxFiles := over (sk_MaxFiles k) (sg_MaxFiles cfg),
          sg_MergePolicy := (if sk_MergePolicy k \<noteq> [] then sk_MergePolicy k else sg_MergePolicy cfg),
          sg_MaxTotalChunks := over (sk_MaxTotalChunks k) (sg_MaxTotalChunks cfg),
          sg_MaxWaveChunks := over (sk_MaxWaveChunks k) (sg_MaxWaveChunks cfg),
          sg_MaxConcurrentChunks := over (sk_MaxConcurrentChunks k) (sg_MaxConcurrentChunks cfg),
          sg_SplitDeferred := SplitDeferredEnabled s,
          sg_SplitMaxChunks := over (sk_SplitMaxChunks k) (sg_SplitMaxChunks cfg),
          sg_SplitMinLines := over (sk_SplitMinLines k) (sg_SplitMinLines cfg), sg_Agent := sk_Agent k\<rparr>)"

section \<open>Errors\<close>

datatype wf_error =
    EInitialStep string
  | EUnreachable "string list"
  | ENoSuccessPath
  | EAmbiguous string string string
  | EMaxIterationsNeedsLoop string string
  | EPartialNeedsLoop string string
  | EPartialUnknown string string string
  | ESelfLoop string string
  | ELoopBound string int
  | EDuplicateLoop string
  | EManyLoops string "string list"
  | EUnboundedCycle
  | EOnFailureTarget string string
  | ELimit string int
  | EStepMaxTurns string int
  | EVerifierName string string
  | EGateNeedsVerifier string
  | ECommandProgram string string
  | EContext string string string
  | EDelivery string string
  | EStacking string
  | EPanel string string
  | EBasic string string
  | EStepBasic int string
  | ETransitionBasic int string

section \<open>Step defaults\<close>

definition append_unbound :: "ContextBinding list \<Rightarrow> ContextBinding list \<Rightarrow> ContextBinding list" where
  "append_unbound ctx defaults = ctx @ filter (\<lambda>c. cb_As c \<notin> cb_As ` set ctx) defaults"

definition applyStepDefaultsTo :: "StepDefaults \<Rightarrow> Step \<Rightarrow> Step" where
  "applyStepDefaultsTo d s0 =
     (let s = (if sp_Kind s0 = [] then s0\<lparr>sp_Kind := sd_Kind d\<rparr> else s0) in
      if sp_Kind s \<noteq> ''agent'' \<and> sp_Kind s \<noteq> ''agent_panel'' then s
      else s\<lparr>sp_Agent := (if sp_Agent s = [] then sd_Agent d else sp_Agent s),
             sp_Skill := (if sp_Skill s = [] then sd_Skill d else sp_Skill s),
             sp_Template := (if sp_Template s = [] then sd_Template d else sp_Template s),
             sp_OutputSchema := (if sp_OutputSchema s = [] then sd_OutputSchema d else sp_OutputSchema s),
             sp_OnFailure := (if sp_OnFailure s = [] then sd_OnFailure d else sp_OnFailure s),
             sp_MaxTurns := (if sp_MaxTurns s = 0 then sd_MaxTurns d else sp_MaxTurns s),
             sp_Context := append_unbound (sp_Context s) (sd_Context d)\<rparr>)"

definition applyStepDefaults :: "WorkflowFile \<Rightarrow> wf_error + WorkflowFile" where
  "applyStepDefaults wfl =
     (case wd_StepDefaults wfl of
        None \<Rightarrow> Inr wfl
      | Some d \<Rightarrow>
          if sd_Kind d \<noteq> [] \<and> sd_Kind d \<notin> set ValidStepKinds then Inl (EBasic ''step_defaults kind'' (sd_Kind d))
          else if sd_MaxTurns d < 0 then Inl (EBasic ''step_defaults max_turns'' [])
          else Inr (wfl\<lparr>wd_Steps := map (applyStepDefaultsTo d) (wd_Steps wfl), wd_StepDefaults := None\<rparr>))"

end
