(* ===== verification/Wfd_Compile.thy ===== *)
theory Wfd_Compile
  imports Wfd_Types
begin

text \<open>
  The workflow compiler (src/internal/workflows/definition): the basic checks of decode.go
X

  A map from step ids to true is the list of its keys.  Where the code ranges over a map,
  the order is an argument: \<open>ord n keys\<close> is the order of the n-th such loop.  The search
  for cycles runs on fuel and gives None when it is used up.
\<close>

type_synonym map_order = "nat \<Rightarrow> string list \<Rightarrow> string list"

definition step_ids :: "WorkflowFile \<Rightarrow> string list" where
  "step_ids wfl = remdups (map sp_ID (wd_Steps wfl))"

definition stepExists :: "WorkflowFile \<Rightarrow> string \<Rightarrow> bool" where
  "stepExists wfl i \<longleftrightarrow> list_ex (\<lambda>s. sp_ID s = i) (wd_Steps wfl)"

section \<open>Texts\<close>

fun split_on :: "char \<Rightarrow> string \<Rightarrow> string list" where
  "split_on c [] = [[]]"
| "split_on c (x # xs) =
     (if x = c then [] # split_on c xs
      else (case split_on c xs of [] \<Rightarrow> [[x]] | w # ws \<Rightarrow> (x # w) # ws))"

fun has_dots :: "string \<Rightarrow> bool" where
  "has_dots (a # b # xs) \<longleftrightarrow> (a = CHR ''.'' \<and> b = CHR ''.'') \<or> has_dots (b # xs)"
| "has_dots _ \<longleftrightarrow> False"

definition HasControlByte :: "string \<Rightarrow> bool" where
  "HasControlByte s \<longleftrightarrow> list_ex (\<lambda>c. (of_char c :: nat) < 32 \<or> (of_char c :: nat) = 127) s"

definition char_between :: "char \<Rightarrow> char \<Rightarrow> char \<Rightarrow> bool" where
  "char_between lo hi c \<longleftrightarrow> (of_char lo :: nat) \<le> of_char c \<and> (of_char c :: nat) \<le> of_char hi"

definition lower_or_digit :: "char \<Rightarrow> bool" where
  "lower_or_digit c \<longleftrightarrow> char_between (CHR ''a'') (CHR ''z'') c \<or> char_between (CHR ''0'') (CHR ''9'') c"

definition verifierNameRegex :: "string \<Rightarrow> bool" where
  "verifierNameRegex s = (case s of [] \<Rightarrow> False
     | c # cs \<Rightarrow> lower_or_digit c \<and> list_all (\<lambda>x. lower_or_digit x \<or> x = CHR ''-'') cs)"

definition alnum :: "char \<Rightarrow> bool" where
  "alnum c \<longleftrightarrow> lower_or_digit c \<or> char_between (CHR ''A'') (CHR ''Z'') c"

definition bareProgramNameRegex :: "string \<Rightarrow> bool" where
  "bareProgramNameRegex s = (case s of [] \<Rightarrow> False
     | c # cs \<Rightarrow> alnum c \<and> list_all (\<lambda>x. alnum x \<or> x \<in> {CHR ''.'', CHR ''_'', CHR ''-''}) cs)"

definition IsBareProgramName :: "string \<Rightarrow> bool" where
  "IsBareProgramName program \<longleftrightarrow> program \<noteq> ''.'' \<and> program \<noteq> ''..'' \<and> bareProgramNameRegex program"

text \<open>strings.ToLower on ASCII text.\<close>

definition ToLower :: "string \<Rightarrow> string" where
  "ToLower s = map (\<lambda>c. if char_between (CHR ''A'') (CHR ''Z'') c then char_of ((of_char c :: nat) + 32) else c) s"

section \<open>The step graph\<close>

definition deliveryActive :: "Delivery option \<Rightarrow> bool" where
  "deliveryActive d = (case d of None \<Rightarrow> False
     | Some y \<Rightarrow> dy_Kind y = ''pull_request'' \<and> dy_Mode y \<noteq> [] \<and> dy_Mode y \<noteq> ''none'')"

text \<open>The adjacency list of one step, in the order of the transitions.\<close>

definition graph_adj :: "string list \<Rightarrow> Transition list \<Rightarrow> string \<Rightarrow> string list" where
  "graph_adj stepIDs ts x = concat (map (\<lambda>t.
     if tn_From t \<noteq> x then []
     else (if tn_To t \<in> set stepIDs then [tn_To t] else []) @
          (if tn_PartialTarget t \<noteq> [] \<and> tn_PartialTarget t \<in> set stepIDs then [tn_PartialTarget t] else [])) ts)"

fun visit_all :: "string list \<Rightarrow> string list \<Rightarrow> string list \<Rightarrow> string list \<times> string list" where
  "visit_all [] visited queue = (visited, queue)"
| "visit_all (x # xs) visited queue =
     (if x \<in> set visited then visit_all xs visited queue else visit_all xs (x # visited) (queue @ [x]))"

lemma visit_all_length:
  "visit_all xs visited queue = (v, q) \<Longrightarrow> \<exists>new. q = queue @ new \<and> set v = set visited \<union> set new \<and>
     set new = set xs - set visited \<and> distinct new"
proof (induction xs arbitrary: visited queue v q)
  case (Cons x xs)
  show ?case
  proof (cases "x \<in> set visited")
    case False
    then have "visit_all xs (x # visited) (queue @ [x]) = (v, q)" using Cons.prems by simp
    from Cons.IH [OF this] obtain new where "q = (queue @ [x]) @ new" "set v = set (x # visited) \<union> set new"
      "set new = set xs - set (x # visited)" "distinct new" by blast
    then show ?thesis using False by (intro exI [of _ "x # new"]) auto
  qed (use Cons in auto)
qed simp

definition unvisited :: "string list \<Rightarrow> string list \<Rightarrow> nat" where
  "unvisited stepIDs visited = card (set stepIDs - set visited)"

lemma graph_adj_declared: "set (graph_adj stepIDs ts x) \<subseteq> set stepIDs"
  by (auto simp: graph_adj_def split: if_splits)

function bfs :: "string list \<Rightarrow> Transition list \<Rightarrow> string list \<Rightarrow> string list \<Rightarrow> string list" where
  "bfs stepIDs ts visited [] = visited"
| "bfs stepIDs ts visited (cur # queue) =
     (case visit_all (graph_adj stepIDs ts cur) visited queue of (v, q) \<Rightarrow> bfs stepIDs ts v q)"
  by pat_completeness auto

termination
proof (relation "measures [\<lambda>(stepIDs, ts, visited, queue). unvisited stepIDs visited,
    \<lambda>(stepIDs, ts, visited, queue). length queue]", goal_cases)
  case (2 stepIDs ts visited cur queue v q)
  then obtain new where new: "q = queue @ new" "set v = set visited \<union> set new"
    "set new = set (graph_adj stepIDs ts cur) - set visited"
    using visit_all_length by metis
  show ?case
  proof (cases "new = []")
    case True
    then show ?thesis using new by (simp add: unvisited_def)
  next
    case False
    then obtain x where "x \<in> set new" by (cases new) auto
    then have "x \<in> set stepIDs - set visited" "x \<notin> set stepIDs - set v"
      using new graph_adj_declared [of stepIDs ts cur] by auto
    then have "set stepIDs - set v \<subset> set stepIDs - set visited" using new by auto
    then have "unvisited stepIDs v < unvisited stepIDs visited"
      unfolding unvisited_def by (intro psubset_card_mono) auto
    then show ?thesis by simp
  qed
qed simp

definition seedDeliveryTargets :: "WorkflowFile \<Rightarrow> string list \<Rightarrow> string list \<Rightarrow> string list \<Rightarrow> string list \<times> string list" where
  "seedDeliveryTargets wfl stepIDs visited queue =
     (case wd_Delivery wfl of
        None \<Rightarrow> (visited, queue)
      | Some d \<Rightarrow>
          if \<not> deliveryActive (Some d) then (visited, queue)
          else visit_all (filter (\<lambda>target. target \<noteq> [] \<and> target \<in> set stepIDs)
            [dy_OnFailure d, dy_OnPRMetadataFailure d, dy_OnDiffSizeFailure d]) visited queue)"

definition visited_steps :: "WorkflowFile \<Rightarrow> string list \<Rightarrow> string list" where
  "visited_steps wfl stepIDs =
     (case seedDeliveryTargets wfl stepIDs [wd_InitialStep wfl] [wd_InitialStep wfl] of
        (v, q) \<Rightarrow> bfs stepIDs (wd_Transitions wfl) v q)"

definition validateGraph :: "WorkflowFile \<Rightarrow> string list \<Rightarrow> wf_error list" where
  "validateGraph wfl stepIDs =
     (if wd_InitialStep wfl \<notin> set stepIDs then [EInitialStep (wd_InitialStep wfl)]
      else (let unreachable = filter (\<lambda>i. i \<notin> set (visited_steps wfl stepIDs)) stepIDs in
            if unreachable \<noteq> [] then [EUnreachable (sort unreachable)] else [])) @
     (if list_ex (\<lambda>t. tn_To t = ''success'' \<and> tn_From t \<in> set stepIDs) (wd_Transitions wfl) then [] else [ENoSuccessPath])"

section \<open>Cycles\<close>

definition cycle_adj :: "string list \<Rightarrow> Transition list \<Rightarrow> string \<Rightarrow> string list" where
  "cycle_adj stepIDs ts x = concat (map (\<lambda>t.
     if tn_From t \<noteq> x \<or> tn_From t \<notin> set stepIDs \<or> tn_To t \<notin> set stepIDs then []
     else if tn_Loop t \<noteq> [] \<and> tn_MaxIterations t > 0 then []
     else tn_To t # (if tn_PartialTarget t \<noteq> [] \<and> tn_PartialTarget t \<in> set stepIDs then [tn_PartialTarget t] else [])) ts)"

datatype color = White | Gray | Black

text \<open>The recursive dfs of the code and its loop over the successors; True reports a back edge.\<close>

fun dfs :: "(string \<Rightarrow> string list) \<Rightarrow> nat \<Rightarrow> (string \<Rightarrow> color) \<Rightarrow> string \<Rightarrow> ((string \<Rightarrow> color) \<times> bool) option"
and dfs_next :: "(string \<Rightarrow> string list) \<Rightarrow> nat \<Rightarrow> (string \<Rightarrow> color) \<Rightarrow> string list \<Rightarrow> ((string \<Rightarrow> color) \<times> bool) option" where
  "dfs adj 0 c x = None"
| "dfs adj (Suc n) c x =
     (case dfs_next adj n (c(x := Gray)) (adj x) of
        None \<Rightarrow> None
      | Some (c1, True) \<Rightarrow> Some (c1, True)
      | Some (c1, False) \<Rightarrow> Some (c1(x := Black), False))"
| "dfs_next adj n c [] = Some (c, False)"
| "dfs_next adj n c (y # ys) =
     (case c y of
        Gray \<Rightarrow> Some (c, True)
      | Black \<Rightarrow> dfs_next adj n c ys
      | White \<Rightarrow>
          (case dfs adj n c y of
             None \<Rightarrow> None
           | Some (c1, True) \<Rightarrow> Some (c1, True)
           | Some (c1, False) \<Rightarrow> dfs_next adj n c1 ys))"

text \<open>The loop over the steps: the first back edge ends it.\<close>

fun has_cycle :: "(string \<Rightarrow> string list) \<Rightarrow> nat \<Rightarrow> (string \<Rightarrow> color) \<Rightarrow> string list \<Rightarrow> bool option" where
  "has_cycle adj n c [] = Some False"
| "has_cycle adj n c (x # xs) =
     (if c x \<noteq> White then has_cycle adj n c xs
      else (case dfs adj n c x of
              None \<Rightarrow> None
            | Some (c1, True) \<Rightarrow> Some True
            | Some (c1, False) \<Rightarrow> has_cycle adj n c1 xs))"

definition validateCycles :: "map_order \<Rightarrow> WorkflowFile \<Rightarrow> wf_error list option" where
  "validateCycles ord wfl =
     (let stepIDs = step_ids wfl in
      case has_cycle (cycle_adj stepIDs (wd_Transitions wfl)) (length stepIDs) (\<lambda>_. White) (ord 3 stepIDs) of
        None \<Rightarrow> None
      | Some cyclic \<Rightarrow>
          Some (if \<not> cyclic then []
            else if lm_MaxStepAttempts (wd_Limits wfl) > 0 \<or> lm_MaxDurationSeconds (wd_Limits wfl) > 0 then []
            else [EUnboundedCycle]))"

section \<open>Transitions\<close>

definition transitionCriteriaOverlap :: "MatchCriteria \<Rightarrow> MatchCriteria \<Rightarrow> bool" where
  "transitionCriteriaOverlap a b \<longleftrightarrow> mc_Status a = mc_Status b \<and>
     list_all (\<lambda>(key, av). case map_of (mc_Output b) key of None \<Rightarrow> True | Some bv \<Rightarrow> bv = av) (mc_Output a)"

definition strictOutputSuperset :: "(string \<times> string) list \<Rightarrow> (string \<times> string) list \<Rightarrow> bool" where
  "strictOutputSuperset x y \<longleftrightarrow> length x > length y \<and> list_all (\<lambda>(key, yv). map_of x key = Some yv) y"

definition transitionCriteriaHazard :: "MatchCriteria \<Rightarrow> MatchCriteria \<Rightarrow> bool" where
  "transitionCriteriaHazard a b \<longleftrightarrow> transitionCriteriaOverlap a b \<and>
     \<not> strictOutputSuperset (mc_Output a) (mc_Output b) \<and> \<not> strictOutputSuperset (mc_Output b) (mc_Output a)"

text \<open>The pairs i < j of the transitions of one step.\<close>

fun hazards :: "string \<Rightarrow> Transition list \<Rightarrow> wf_error list" where
  "hazards from [] = []"
| "hazards from (ti # ts) =
     map (\<lambda>tj. EAmbiguous from (tn_To ti) (tn_To tj)) (filter (\<lambda>tj. transitionCriteriaHazard (tn_Match ti) (tn_Match tj)) ts)
     @ hazards from ts"

definition check_transition :: "string list \<Rightarrow> Transition \<Rightarrow> wf_error list" where
  "check_transition stepIDs t =
     (if tn_Loop t = [] \<and> tn_MaxIterations t \<noteq> 0 then [EMaxIterationsNeedsLoop (tn_From t) (tn_To t)] else []) @
     (if tn_PartialTarget t \<noteq> [] \<and> tn_Loop t = [] then [EPartialNeedsLoop (tn_From t) (tn_To t)] else []) @
     (if tn_PartialTarget t \<noteq> [] \<and> tn_PartialTarget t \<notin> set stepIDs
      then [EPartialUnknown (tn_From t) (tn_To t) (tn_PartialTarget t)] else []) @
     (if tn_From t = tn_To t \<and> tn_Loop t = [] then [ESelfLoop (tn_From t) (tn_To t)] else []) @
     (if tn_Loop t \<noteq> [] then
        (if tn_MaxIterations t < 0 \<and> tn_MaxIterations t \<noteq> UnlimitedIterations then [ELoopBound (tn_Loop t) (tn_MaxIterations t)] else []) @
        (if tn_MaxIterations t = 0 then [ELoopBound (tn_Loop t) 0] else []) @
        (if tn_MaxIterations t > 1000 then [ELoopBound (tn_Loop t) (tn_MaxIterations t)] else [])
      else [])"

definition named_loops :: "Transition list \<Rightarrow> Transition list" where
  "named_loops ts = filter (\<lambda>t. tn_Loop t \<noteq> []) ts"

definition validateTransitions :: "map_order \<Rightarrow> WorkflowFile \<Rightarrow> string list \<Rightarrow> bool \<Rightarrow> wf_error list" where
  "validateTransitions ord wfl stepIDs skipCycleValidation =
     (let ts = wd_Transitions wfl; loops = named_loops ts in
      concat (map (\<lambda>from. hazards from (filter (\<lambda>t. tn_From t = from) ts)) (ord 0 (remdups (map tn_From ts)))) @
      concat (map (check_transition stepIDs) ts) @
      concat (map (\<lambda>name. if length (filter (\<lambda>t. tn_Loop t = name) loops) > 1 then [EDuplicateLoop name] else [])
        (ord 1 (remdups (map tn_Loop loops)))) @
      (if skipCycleValidation then []
       else concat (map (\<lambda>source. let names = map tn_Loop (filter (\<lambda>t. tn_From t = source) loops) in
           if length names > 1 then [EManyLoops source names] else []) (ord 2 (remdups (map tn_From loops))))))"

section \<open>Limits, targets and verifiers\<close>

definition validateLimits :: "Limits \<Rightarrow> wf_error list" where
  "validateLimits l =
     (if lm_MaxStepAttempts l < 0 \<or> lm_MaxStepAttempts l > 10000 then [ELimit ''max_step_attempts'' (lm_MaxStepAttempts l)] else []) @
     (if lm_MaxDurationSeconds l < 0 \<or> lm_MaxDurationSeconds l > 86400 then [ELimit ''max_duration_seconds'' (lm_MaxDurationSeconds l)] else []) @
     (if lm_MaxOnFailureReentries l < 0 \<or> lm_MaxOnFailureReentries l > 1000
      then [ELimit ''max_on_failure_reentries'' (lm_MaxOnFailureReentries l)] else []) @
     (if lm_MaxTransientStepRetries l < 0 \<or> lm_MaxTransientStepRetries l > 1000
      then [ELimit ''max_transient_step_retries'' (lm_MaxTransientStepRetries l)] else [])"

definition validateStepMaxTurns :: "WorkflowFile \<Rightarrow> wf_error list" where
  "validateStepMaxTurns wfl = concat (map (\<lambda>s.
     if sp_MaxTurns s < 0 \<or> sp_MaxTurns s > 10000 then [EStepMaxTurns (sp_ID s) (sp_MaxTurns s)] else []) (wd_Steps wfl))"

definition validateOnFailure :: "WorkflowFile \<Rightarrow> string list \<Rightarrow> wf_error list" where
  "validateOnFailure wfl stepIDs = concat (map (\<lambda>s.
     if TrimSpace (sp_OnFailure s) = [] then []
     else if sp_OnFailure s \<notin> set stepIDs \<and> sp_OnFailure s \<notin> set ReservedStepIDs
     then [EOnFailureTarget (sp_ID s) (sp_OnFailure s)] else []) (wd_Steps wfl))"

definition validateVerifierNames :: "WorkflowFile \<Rightarrow> wf_error list" where
  "validateVerifierNames wfl = concat (map (\<lambda>s.
     if sp_Kind s \<noteq> ''evidence_gate'' then []
     else if sp_Verifier s \<noteq> [] then
       (if \<not> verifierNameRegex (sp_Verifier s) then [EVerifierName (sp_ID s) (sp_Verifier s)] else [])
     else (case sp_Command s of
             None \<Rightarrow> [EGateNeedsVerifier (sp_ID s)]
           | Some c \<Rightarrow> if \<not> IsBareProgramName (sc_Program c) then [ECommandProgram (sp_ID s) (sc_Program c)] else [])) (wd_Steps wfl))"

end
