(* ===== verification/Wfd_Validate.thy ===== *)
theory Wfd_Validate
  imports Wfd_Compile
begin

text \<open>
  The rest of the workflow compiler (src/internal/workflows/definition): the validators of
  delivery_validate.go, context_bindings.go, panels.go and stacking.go, the basic checks of
  decode.go and panel.go, and \<open>compile\<close>.

  A range over the inputs of a definition takes the order of its map loop (number 4).  The
  digest of a definition (sha256 of its JSON form) is the argument \<open>dig\<close>.
\<close>

section \<open>Delivery\<close>

definition validateDelivery :: "WorkflowFile \<Rightarrow> wf_error list" where
  "validateDelivery wfl = (case wd_Delivery wfl of None \<Rightarrow> [] | Some d \<Rightarrow>
     (let p = dy_PRTitlePolicy d in
      if p = [] then []
      else (if hd p = CHR ''/'' then [EDelivery ''pr_title_policy relative'' p] else []) @
           map (\<lambda>_. EDelivery ''pr_title_policy parent'' p) (filter (\<lambda>segment. segment = ''..'') (split_on (CHR ''/'') p))) @
     (let m = dy_OnPRMetadataFailure d in
      if m \<noteq> [] \<and> \<not> stepExists wfl m then [EDelivery ''on_pr_metadata_failure'' m] else []) @
     (let m = dy_OnDiffSizeFailure d in
      if m \<noteq> [] \<and> \<not> stepExists wfl m then [EDelivery ''on_diff_size_failure'' m] else []) @
     (let f = dy_OnFailure d in
      if f \<noteq> [] \<and> \<not> stepExists wfl f then [EDelivery ''on_failure'' f] else []) @
     (if dy_MaxRepairs d < 0 then [EDelivery ''max_repairs'' []] else []) @
     (if dy_Kind d = [] then
        (if dy_Mode d \<noteq> [] \<and> dy_Mode d \<noteq> ''none'' then [EDelivery ''mode without kind'' (dy_Mode d)] else [])
      else if dy_Kind d = ''pull_request'' then
        (if dy_Mode d \<in> {''none'', ''draft'', ''ready''} then [] else [EDelivery ''mode'' (dy_Mode d)]) @
        (if dy_Provider d = [] then [EDelivery ''provider'' []] else []) @
        (if dy_Base d = [] then [EDelivery ''base'' []] else [])
      else [EDelivery ''kind'' (dy_Kind d)]))"

definition validateDeliveryProviderSupport :: "WorkflowFile \<Rightarrow> wf_error list" where
  "validateDeliveryProviderSupport wfl = (case wd_Delivery wfl of None \<Rightarrow> [] | Some d \<Rightarrow>
     if dy_Kind d \<noteq> ''pull_request'' then []
     else if dy_Provider d \<noteq> ProviderGitHub then [EDelivery ''provider support'' (dy_Provider d)] else [])"

definition stepBindsDeliveryFailure :: "WorkflowFile \<Rightarrow> string \<Rightarrow> bool" where
  "stepBindsDeliveryFailure wfl i \<longleftrightarrow>
     list_ex (\<lambda>s. sp_ID s = i \<and> list_ex (\<lambda>cb. cb_From cb = ''delivery.failure'') (sp_Context s)) (wd_Steps wfl)"

definition delivery_targets :: "Delivery \<Rightarrow> string list" where
  "delivery_targets d = [dy_OnFailure d, dy_OnPRMetadataFailure d, dy_OnDiffSizeFailure d]"

definition validateDeliveryReentryHints :: "WorkflowFile \<Rightarrow> wf_error list" where
  "validateDeliveryReentryHints wfl = (case wd_Delivery wfl of None \<Rightarrow> [] | Some d \<Rightarrow>
     if \<not> deliveryActive (Some d) then []
     else concat (map (\<lambda>target.
       if target = [] \<or> \<not> stepExists wfl target then []
       else if \<not> stepBindsDeliveryFailure wfl target then [EDelivery ''re-entry binding'' target] else [])
       (delivery_targets d)))"

definition validateDeliverySection :: "WorkflowFile \<Rightarrow> bool \<Rightarrow> wf_error list" where
  "validateDeliverySection wfl skipCycleValidation =
     validateDelivery wfl @
     (if skipCycleValidation then [] else validateDeliveryProviderSupport wfl @ validateDeliveryReentryHints wfl)"

section \<open>Context bindings\<close>

text \<open>
  The source of a binding.  The flag tells that the code returns at once (the chunk_plan
  input of a stacking workflow), before the checks of the target name and the size.
\<close>

definition binding_source :: "Step \<Rightarrow> ContextBinding \<Rightarrow> WorkflowFile \<Rightarrow> string list \<Rightarrow> bool \<Rightarrow> wf_error list \<times> bool" where
  "binding_source s cb wfl stepIDs skipCycleValidation =
     (let e = (\<lambda>what. EContext (sp_ID s) (cb_From cb) what); parts = split_on (CHR ''.'') (cb_From cb) in
      if parts ! 0 = ''inputs'' then
        (if length parts \<noteq> 2 then ([e ''expected inputs.<name>''], False)
         else if map_of (wd_Inputs wfl) (parts ! 1) \<noteq> None then ([], False)
         else if parts ! 1 = ''chunk_plan'' \<and> wd_Stacking wfl \<noteq> None \<and> StackingEnabled (wd_Stacking wfl)
         then (if \<not> cb_Optional cb then [e ''chunk_plan must be optional''] else [], True)
         else ([e ''unknown input''], False))
      else if parts ! 0 = ''steps'' then
        (if length parts \<noteq> 3 \<or> parts ! 2 \<noteq> ''output'' then ([e ''expected steps.<id>.output''], False)
         else ((if parts ! 1 \<notin> set stepIDs then [e ''unknown step''] else []) @
               (if \<not> skipCycleValidation \<and> parts ! 1 = sp_ID s \<and> \<not> cb_Optional cb then [e ''mandatory self-output''] else []) @
               (if \<not> skipCycleValidation \<and> cb_MaxBytes cb > MaxEvidenceBindingBytes then [e ''evidence max_bytes''] else []), False))
      else if parts ! 0 = ''delivery'' then
        (if length parts \<noteq> 2 \<or> parts ! 1 \<noteq> ''failure'' then [e ''expected delivery.failure''] else [], False)
      else if parts ! 0 = ''run'' then
        (if length parts \<noteq> 2 \<or> parts ! 1 \<noteq> ''salvage'' then [e ''expected run.salvage''] else [], False)
      else if parts ! 0 = ''implement'' then
        (if length parts \<noteq> 2 \<or> parts ! 1 \<noteq> ''touched_files'' then [e ''expected implement.touched_files''] else [], False)
      else ([e ''unknown source''], False))"

definition validateContextBinding :: "Step \<Rightarrow> ContextBinding \<Rightarrow> WorkflowFile \<Rightarrow> string list \<Rightarrow> bool \<Rightarrow> wf_error list" where
  "validateContextBinding s cb wfl stepIDs skipCycleValidation =
     (let e = (\<lambda>what. EContext (sp_ID s) (cb_From cb) what) in
      (if TrimSpace (cb_From cb) = [] then [e ''from is empty''] else []) @
      (if has_dots (cb_From cb) then [e ''path traversal''] else []) @
      (case binding_source s cb wfl stepIDs skipCycleValidation of (errs, stop) \<Rightarrow>
         errs @
         (if stop then []
          else (if TrimSpace (cb_As cb) = [] then [e ''as is empty''] else []) @
               (if cb_MaxBytes cb < 0 then [e ''max_bytes negative''] else []) @
               (if cb_MaxBytes cb > MaxInputBytes then [e ''max_bytes''] else []))))"

definition validateContextBindings :: "WorkflowFile \<Rightarrow> string list \<Rightarrow> bool \<Rightarrow> wf_error list" where
  "validateContextBindings wfl stepIDs skipCycleValidation =
     concat (map (\<lambda>s. concat (map (\<lambda>cb. validateContextBinding s cb wfl stepIDs skipCycleValidation) (sp_Context s)))
       (wd_Steps wfl))"

section \<open>Panels\<close>

definition member_binding :: "PanelMember \<Rightarrow> string \<times> string" where
  "member_binding m = (ToLower (TrimSpace (pb_Provider m)), TrimSpace (pb_Model m))"

text \<open>The loop over the members, with the member ids and the bindings met so far.\<close>

fun panel_members :: "string \<Rightarrow> string list \<Rightarrow> (string \<times> string) list \<Rightarrow> PanelMember list \<Rightarrow> wf_error list" where
  "panel_members stepID ids bound [] = []"
| "panel_members stepID ids bound (m # ms) =
     (let e = (\<lambda>what. EPanel stepID what) in
      (if TrimSpace (pb_ID m) = [] then [e ''member id''] else []) @
      (if pb_ID m = ''synthesis'' then [e ''member id reserved''] else []) @
      (if HasControlByte (pb_ID m) then [e ''member id control character''] else []) @
      (if pb_ID m \<in> set ids then [e ''duplicate member id''] else []) @
      (if TrimSpace (pb_Agent m) = [] then [e ''member agent''] else []) @
      (if TrimSpace (pb_Provider m) = [] \<or> TrimSpace (pb_Model m) = [] then [e ''member provider and model''] else []) @
      (if TrimSpace (pb_Skill m) = [] then [e ''member skill''] else []) @
      (if TrimSpace (pb_Template m) = [] then [e ''member template''] else []) @
      (if TrimSpace (pb_OutputSchema m) = [] then [e ''member output_schema''] else []) @
      (if member_binding m \<in> set bound then [e ''duplicate binding''] else []) @
      panel_members stepID (pb_ID m # ids) (member_binding m # bound) ms)"

definition validatePanelMembers :: "string \<Rightarrow> PanelMember list \<Rightarrow> wf_error list" where
  "validatePanelMembers stepID members = panel_members stepID [] [] members"

definition validatePanelOf :: "Step \<Rightarrow> wf_error list" where
  "validatePanelOf s =
     (let e = (\<lambda>what. EPanel (sp_ID s) what) in
      if sp_Kind s \<noteq> ''agent_panel'' then (if sp_Panel s \<noteq> None then [e ''panel only for agent_panel''] else [])
      else (case sp_Panel s of
          None \<Rightarrow> [e ''panel required'']
        | Some p \<Rightarrow>
            (if TrimSpace (sp_Agent s) = [] then [e ''agent required''] else []) @
            (if pn_FailurePolicy p \<noteq> PanelFailurePolicyRequireAll \<and> pn_FailurePolicy p \<noteq> PanelFailurePolicyAllowPartial
             then [e ''failure_policy''] else []) @
            (if \<not> pn_RequireDistinctBindings p then [e ''require_distinct_bindings''] else []) @
            (if length (pn_Members p) < 2 \<or> length (pn_Members p) > 4 then [e ''member count''] else []) @
            validatePanelMembers (sp_ID s) (pn_Members p)))"

definition validatePanels :: "WorkflowFile \<Rightarrow> wf_error list" where
  "validatePanels wfl = concat (map validatePanelOf (wd_Steps wfl))"

section \<open>Stacking\<close>

definition out_of_range :: "string \<Rightarrow> int \<Rightarrow> int \<Rightarrow> wf_error list" where
  "out_of_range what hi v = (if v < 0 \<or> v > hi then [EStacking what] else [])"

definition validateStacking :: "WorkflowFile \<Rightarrow> string list \<Rightarrow> wf_error list" where
  "validateStacking wfl stepIDs = (case wd_Stacking wfl of None \<Rightarrow> [] | Some s \<Rightarrow>
     if \<not> StackingEnabled (Some s) then []
     else
       (if sk_PlanStep s = [] \<or> sk_ImplementStep s = [] then [EStacking ''plan_step and implement_step required''] else []) @
       (if sk_PlanStep s \<noteq> [] \<and> sk_PlanStep s \<notin> set stepIDs then [EStacking ''plan_step''] else []) @
       (if sk_ImplementStep s \<noteq> [] \<and> sk_ImplementStep s \<notin> set stepIDs then [EStacking ''implement_step''] else []) @
       out_of_range ''max_chunks'' 100 (sk_MaxChunks s) @
       out_of_range ''soft_lines'' 100000 (sk_SoftLines s) @
       out_of_range ''hard_lines'' 100000 (sk_HardLines s) @
       out_of_range ''max_files'' 1000 (sk_MaxFiles s) @
       (if sk_SoftLines s > 0 \<and> sk_HardLines s > 0 \<and> sk_SoftLines s > sk_HardLines s
        then [EStacking ''soft_lines exceeds hard_lines''] else []) @
       (if sk_MergePolicy s \<noteq> [] \<and> sk_MergePolicy s \<notin> set ValidStackingMergePolicies then [EStacking ''merge_policy''] else []) @
       out_of_range ''max_total_chunks'' 2000 (sk_MaxTotalChunks s) @
       out_of_range ''max_wave_chunks'' 100 (sk_MaxWaveChunks s) @
       out_of_range ''max_concurrent_chunks'' 64 (sk_MaxConcurrentChunks s) @
       (if sk_MaxWaveChunks s > 0 \<and> sk_MaxTotalChunks s > 0 \<and> sk_MaxWaveChunks s > sk_MaxTotalChunks s
        then [EStacking ''max_wave_chunks exceeds max_total_chunks''] else []) @
       out_of_range ''split_max_chunks'' 50 (sk_SplitMaxChunks s) @
       out_of_range ''split_min_lines'' 10000 (sk_SplitMinLines s))"

definition validateLimitsAndStacking :: "WorkflowFile \<Rightarrow> string list \<Rightarrow> wf_error list" where
  "validateLimitsAndStacking wfl stepIDs = validateLimits (wd_Limits wfl) @ validateStacking wfl stepIDs"

section \<open>The basic checks of a parsed file\<close>

text \<open>The checks return at the first failure; \<open>first_error\<close> runs a list of them in order.\<close>

fun first_error :: "'e option list \<Rightarrow> 'e option" where
  "first_error [] = None"
| "first_error (None # es) = first_error es"
| "first_error (Some e # es) = Some e"

definition validatePanelStep :: "Step \<Rightarrow> wf_error option" where
  "validatePanelStep s =
     (if sp_Kind s = ''agent_panel'' then (if sp_Panel s = None then Some (EPanel (sp_ID s) ''panel required'') else None)
      else if sp_Panel s \<noteq> None then Some (EPanel (sp_ID s) ''panel only for agent_panel'') else None)"

definition validateStep :: "nat \<Rightarrow> Step \<Rightarrow> wf_error option" where
  "validateStep index s =
     (if TrimSpace (sp_ID s) = [] then Some (EStepBasic (int index) ''id is required'')
      else if sp_ID s \<in> set ReservedStepIDs then Some (EStepBasic (int index) ''id is reserved'')
      else if sp_Kind s \<notin> set ValidStepKinds then Some (EStepBasic (int index) ''unknown kind'')
      else if sp_Kind s \<in> {''agent'', ''agent_gate'', ''agent_panel''} \<and> TrimSpace (sp_Agent s) = []
      then Some (EStepBasic (int index) ''agent is required'')
      else (case validatePanelStep s of Some e \<Rightarrow> Some e | None \<Rightarrow>
        if sp_Kind s \<noteq> ''evidence_gate'' then None
        else if TrimSpace (sp_Verifier s) \<noteq> [] then
          (case sp_Command s of None \<Rightarrow> None | Some _ \<Rightarrow> Some (EStepBasic (int index) ''verifier and command''))
        else (case sp_Command s of
            None \<Rightarrow> Some (EStepBasic (int index) ''verifier or command required'')
          | Some c \<Rightarrow>
              if TrimSpace (sc_Check c) = [] then Some (EStepBasic (int index) ''command.check is required'')
              else if \<not> IsBareProgramName (sc_Program c) then Some (ECommandProgram (sp_ID s) (sc_Program c))
              else None)))"

definition validateTransition :: "nat \<Rightarrow> Transition \<Rightarrow> string list \<Rightarrow> wf_error option" where
  "validateTransition index t stepIDs =
     (let e = (\<lambda>what. Some (ETransitionBasic (int index) what)); status = TrimSpace (mc_Status (tn_Match t)) in
      if TrimSpace (tn_From t) = [] then e ''from is required''
      else if TrimSpace (tn_To t) = [] then e ''to is required''
      else if tn_From t \<notin> set stepIDs \<and> tn_From t \<notin> set ReservedStepIDs then e ''from is not declared''
      else if tn_To t \<notin> set stepIDs \<and> tn_To t \<notin> set ReservedStepIDs then e ''to is not declared''
      else if status = [] then e ''match.status is required''
      else if status \<notin> set ValidTransitionStatuses then e ''match.status''
      else None)"

definition validateInputDef :: "string \<Rightarrow> InputDef \<Rightarrow> wf_error option" where
  "validateInputDef name inp =
     (let typ = TrimSpace (id_Type inp) in
      if typ = [] then Some (EBasic ''input type is required'' name)
      else if typ \<notin> set ValidInputTypes then Some (EBasic ''input type'' name)
      else if id_MaxBytes inp < 0 then Some (EBasic ''input max_bytes negative'' name)
      else if id_MaxBytes inp > MaxInputBytes then Some (EBasic ''input max_bytes'' name)
      else None)"

text \<open>The loop over the steps, with the ids seen so far.\<close>

fun check_steps :: "nat \<Rightarrow> string list \<Rightarrow> Step list \<Rightarrow> wf_error option" where
  "check_steps i seen [] = None"
| "check_steps i seen (s # ss) =
     (case validateStep i s of
        Some e \<Rightarrow> Some e
      | None \<Rightarrow> if sp_ID s \<in> set seen then Some (EBasic ''duplicate step ID'' (sp_ID s))
                else check_steps (Suc i) (sp_ID s # seen) ss)"

definition validateWorkflowBasics :: "map_order \<Rightarrow> WorkflowFile \<Rightarrow> wf_error option" where
  "validateWorkflowBasics ord wfl =
     (if wd_Version wfl \<noteq> 1 then Some (EBasic ''version'' [])
      else if TrimSpace (wd_InitialStep wfl) = [] then Some (EBasic ''initial_step is required'' [])
      else if wd_InitialStep wfl \<in> set ReservedStepIDs then Some (EBasic ''initial_step is reserved'' (wd_InitialStep wfl))
      else if wd_Steps wfl = [] then Some (EBasic ''at least one step is required'' [])
      else (case check_steps 0 [] (wd_Steps wfl) of
          Some e \<Rightarrow> Some e
        | None \<Rightarrow>
            (case first_error (map (\<lambda>(i, t). validateTransition i t (step_ids wfl)) (enumerate 0 (wd_Transitions wfl))) of
               Some e \<Rightarrow> Some e
             | None \<Rightarrow> first_error (map (\<lambda>name. case map_of (wd_Inputs wfl) name of
                   None \<Rightarrow> None | Some inp \<Rightarrow> validateInputDef name inp) (ord 4 (map fst (wd_Inputs wfl)))))))"

text \<open>ParseWorkflowTOML after the TOML decoder, for the name \<open>canonical\<close> of the file.\<close>

definition admit_file :: "map_order \<Rightarrow> string \<Rightarrow> WorkflowFile \<Rightarrow> wf_error + WorkflowFile" where
  "admit_file ord canonical wf0 =
     (if TrimSpace (wd_Name wf0) = [] then Inl (EBasic ''name is required'' [])
      else if wd_Name wf0 \<noteq> canonical then Inl (EBasic ''name does not match filename'' (wd_Name wf0))
      else (case applyStepDefaults wf0 of
          Inl e \<Rightarrow> Inl e
        | Inr wfl \<Rightarrow> (case validateWorkflowBasics ord wfl of Some e \<Rightarrow> Inl e | None \<Rightarrow> Inr wfl)))"

section \<open>Compilation\<close>

record CompiledWorkflow =
  cw_Name :: string
  cw_Version :: int
  cw_InitialStep :: string
  cw_Inputs :: "(string \<times> InputDef) list"
  cw_Limits :: Limits
  cw_Steps :: "Step list"
  cw_Transitions :: "Transition list"
  cw_Delivery :: "Delivery option"
  cw_Digest :: string
  cw_Stacking :: "StackingConfig option"
  cw_StepIDs :: "string list"
  cw_LoopNames :: "string list"

definition DeliveryActive :: "CompiledWorkflow option \<Rightarrow> bool" where
  "DeliveryActive c = (case c of None \<Rightarrow> False | Some w \<Rightarrow> deliveryActive (cw_Delivery w))"

definition validateWorkflow :: "map_order \<Rightarrow> WorkflowFile \<Rightarrow> bool \<Rightarrow> wf_error list option" where
  "validateWorkflow ord wfl skipCycleValidation =
     (let stepIDs = step_ids wfl in
      case (if skipCycleValidation then Some [] else validateCycles ord wfl) of
        None \<Rightarrow> None
      | Some cycles \<Rightarrow> Some (validateGraph wfl stepIDs @
          validateTransitions ord wfl stepIDs skipCycleValidation @
          cycles @
          validateContextBindings wfl stepIDs skipCycleValidation @
          validateVerifierNames wfl @
          validateOnFailure wfl stepIDs @
          validateDeliverySection wfl skipCycleValidation @
          validateLimitsAndStacking wfl stepIDs @
          validateStepMaxTurns wfl @
          validatePanels wfl))"

text \<open>None: the fuel of the cycle search ran out.  Otherwise the errors or the compiled workflow.\<close>

definition compile ::
    "(WorkflowFile \<Rightarrow> string) \<Rightarrow> map_order \<Rightarrow> WorkflowFile \<Rightarrow> bool \<Rightarrow> (wf_error list + CompiledWorkflow) option" where
  "compile dig ord wfl skipCycleValidation =
     (case validateWorkflow ord wfl skipCycleValidation of
        None \<Rightarrow> None
      | Some errs \<Rightarrow>
          if length errs > 0 then Some (Inl errs)
          else Some (Inr \<lparr>cw_Name = wd_Name wfl, cw_Version = wd_Version wfl, cw_InitialStep = wd_InitialStep wfl,
              cw_Inputs = wd_Inputs wfl, cw_Limits = wd_Limits wfl, cw_Steps = wd_Steps wfl,
              cw_Transitions = wd_Transitions wfl, cw_Delivery = wd_Delivery wfl, cw_Digest = dig wfl,
              cw_Stacking = (case wd_Stacking wfl of None \<Rightarrow> None
                | Some s \<Rightarrow> if StackingEnabled (Some s) \<and> sk_PlanStep s \<noteq> [] \<and> sk_ImplementStep s \<noteq> []
                    then Some (EffectiveStacking (sk_PlanStep s) (sk_ImplementStep s) (Some s)) else None),
              cw_StepIDs = step_ids wfl,
              cw_LoopNames = remdups (map tn_Loop (named_loops (wd_Transitions wfl)))\<rparr>))"

definition Compile :: "(WorkflowFile \<Rightarrow> string) \<Rightarrow> map_order \<Rightarrow> WorkflowFile \<Rightarrow> (wf_error list + CompiledWorkflow) option" where
  "Compile dig ord wfl = compile dig ord wfl False"

definition CompileForResume :: "(WorkflowFile \<Rightarrow> string) \<Rightarrow> map_order \<Rightarrow> WorkflowFile \<Rightarrow> (wf_error list + CompiledWorkflow) option" where
  "CompileForResume dig ord wfl = compile dig ord wfl True"

end
