(* ===== verification/Wfd_Match.thy ===== *)
theory Wfd_Match
  imports Wfd_Types Wf_Events
begin

text \<open>
  The transition matcher (src/internal/workflows/definition/matcher.go): exact matching of
  an attempt's status and output fields, and the choice of the most specific transition.

  An output value is the decoded JSON value.  A float is represented by the text
  encoding/json writes for it (None for NaN and the infinities, which it refuses).  The
  digest of a criterion (sha256 of its JSON form) is the argument \<open>dig\<close>; DecisionJSON, a
  JSON rendering of the other fields of the decision, is left out.
\<close>

datatype out_value =
    VNull
  | VString string
  | VBool bool
  | VJSONNumber string
  | VFloat "string option"
  | VInt int
  | VUint nat
  | VObject "(string \<times> out_value) list"
  | VArray "out_value list"
  | VOther

definition scalarString :: "out_value \<Rightarrow> string option" where
  "scalarString v = (case v of
     VNull \<Rightarrow> None
   | VString s \<Rightarrow> Some s
   | VBool b \<Rightarrow> Some (if b then ''true'' else ''false'')
   | VJSONNumber s \<Rightarrow> Some s
   | VFloat t \<Rightarrow> t
   | VInt i \<Rightarrow> Some (Itoa i)
   | VUint n \<Rightarrow> Some (show_nat n)
   | VObject _ \<Rightarrow> None
   | VArray _ \<Rightarrow> None
   | VOther \<Rightarrow> None)"

type_synonym outputs = "(string \<times> out_value) list"
type_synonym selection = "(string \<times> string) list"

text \<open>The loop of matchOne over the output criteria; the accumulator is the selection.\<close>

fun match_outputs :: "outputs \<Rightarrow> (string \<times> string) list \<Rightarrow> selection \<Rightarrow> selection option" where
  "match_outputs output [] sel = Some sel"
| "match_outputs output ((key, want) # cs) sel =
     (case map_of output key of
        None \<Rightarrow> None
      | Some raw \<Rightarrow>
          (case scalarString raw of
             None \<Rightarrow> None
           | Some got \<Rightarrow> if got \<noteq> want then None else match_outputs output cs (AList.update key got sel)))"

definition matchOne :: "string \<Rightarrow> outputs \<Rightarrow> MatchCriteria \<Rightarrow> selection option" where
  "matchOne status output criteria =
     (if mc_Status criteria \<noteq> status then None
      else match_outputs output (mc_Output criteria) [(''status'', status)])"

text \<open>
  Whether the criteria of \<open>super\<close> are at least as specific; the lookup of a missing key
  reads the empty string, as a Go map does.
\<close>

definition lookup_str :: "(string \<times> string) list \<Rightarrow> string \<Rightarrow> string" where
  "lookup_str m k = (case map_of m k of None \<Rightarrow> [] | Some v \<Rightarrow> v)"

definition outputSupersets :: "(string \<times> string) list \<Rightarrow> (string \<times> string) list \<Rightarrow> bool" where
  "outputSupersets super other \<longleftrightarrow>
     (if length super < length other then False
      else if list_ex (\<lambda>(k, v). lookup_str super k \<noteq> v) other then False
      else length super > length other \<or> (length other = 0 \<and> length super = 0))"

record matchCandidate =
  ca_index :: nat
  ca_tr :: Transition
  ca_sel :: selection
  ca_digest :: string

definition candidate_output :: "matchCandidate \<Rightarrow> (string \<times> string) list" where
  "candidate_output h = mc_Output (tn_Match (ca_tr h))"

definition refines_all :: "matchCandidate list \<Rightarrow> nat \<Rightarrow> bool" where
  "refines_all hits i \<longleftrightarrow>
     list_all (\<lambda>j. j = i \<or> outputSupersets (candidate_output (hits ! i)) (candidate_output (hits ! j))) [0..<length hits]"

text \<open>The loop of selectMostSpecific: a second refining hit ends it with nothing.\<close>

fun most_specific :: "matchCandidate list \<Rightarrow> nat list \<Rightarrow> matchCandidate option \<Rightarrow> matchCandidate option" where
  "most_specific hits [] best = best"
| "most_specific hits (i # is) best =
     (if \<not> refines_all hits i then most_specific hits is best
      else (case best of Some _ \<Rightarrow> None | None \<Rightarrow> most_specific hits is (Some (hits ! i))))"

definition selectMostSpecific :: "matchCandidate list \<Rightarrow> matchCandidate option" where
  "selectMostSpecific hits = most_specific hits [0..<length hits] None"

record Decision =
  de_TransitionIndex :: int
  de_ToStepID :: string
  de_Loop :: string
  de_MaxIterations :: int
  de_PartialTarget :: string
  de_MatchDigest :: string
  de_Selected :: selection
  de_Outcome :: string

datatype match_error =
    MEmptyStep
  | MEmptyStatus
  | MZeroMatch string string
  | MMultiMatch string "nat list"

definition failDecision :: "string \<Rightarrow> selection \<Rightarrow> Decision" where
  "failDecision outcome selected =
     \<lparr>de_TransitionIndex = -1, de_ToStepID = [], de_Loop = [], de_MaxIterations = 0, de_PartialTarget = [],
      de_MatchDigest = [], de_Selected = selected, de_Outcome = outcome\<rparr>"

definition decide :: "matchCandidate \<Rightarrow> Decision" where
  "decide h =
     \<lparr>de_TransitionIndex = int (ca_index h), de_ToStepID = tn_To (ca_tr h), de_Loop = tn_Loop (ca_tr h),
      de_MaxIterations = tn_MaxIterations (ca_tr h), de_PartialTarget = tn_PartialTarget (ca_tr h),
      de_MatchDigest = ca_digest h, de_Selected = ca_sel h, de_Outcome = ''matched''\<rparr>"

text \<open>The loop of Match over the transitions, from index \<open>i\<close> on.\<close>

fun match_hits :: "(MatchCriteria \<Rightarrow> string) \<Rightarrow> string \<Rightarrow> string \<Rightarrow> outputs \<Rightarrow> nat \<Rightarrow> Transition list \<Rightarrow> matchCandidate list" where
  "match_hits dig fromStep status output i [] = []"
| "match_hits dig fromStep status output i (tr # trs) =
     (if tn_From tr \<noteq> fromStep then match_hits dig fromStep status output (Suc i) trs
      else (case matchOne status output (tn_Match tr) of
              None \<Rightarrow> match_hits dig fromStep status output (Suc i) trs
            | Some sel \<Rightarrow> \<lparr>ca_index = i, ca_tr = tr, ca_sel = sel, ca_digest = dig (tn_Match tr)\<rparr>
                # match_hits dig fromStep status output (Suc i) trs))"

definition Match ::
    "(MatchCriteria \<Rightarrow> string) \<Rightarrow> string \<Rightarrow> string \<Rightarrow> outputs \<Rightarrow> Transition list \<Rightarrow> Decision \<times> match_error option" where
  "Match dig fromStep status output transitions =
     (if TrimSpace fromStep = [] then (failDecision ''invalid_output'' [], Some MEmptyStep)
      else if TrimSpace status = [] then (failDecision ''invalid_output'' [], Some MEmptyStatus)
      else (case match_hits dig fromStep status output 0 transitions of
              [] \<Rightarrow> (failDecision ''zero_match'' [(''status'', status)], Some (MZeroMatch fromStep status))
            | [h] \<Rightarrow> (decide h, None)
            | hits \<Rightarrow>
                (case selectMostSpecific hits of
                   Some best \<Rightarrow> (decide best, None)
                 | None \<Rightarrow> (failDecision ''multi_match'' [(''status'', status)],
                     Some (MMultiMatch fromStep (map ca_index hits))))))"

end
