(* ===== verification/Ctl_Route.thy ===== *)
theory Ctl_Route
  imports Wfd_Validate Wfd_Match Wf_Records
begin

text \<open>
  The workflow controller (src/internal/workflows/controller): its view of the ledger, and
  how it chooses, checks and records the route of a finished attempt (linear_route.go,
  linear_attempts.go, agent_step.go, agent_step_errors.go).

  The controller sees the ledger through the record \<open>repo\<close>, the methods of its interface
  LedgerRepository that it calls here; the context (claim holder, time) belongs to the
  record's value.  The controller's own data is the record \<open>ctl\<close>: the compiled workflow, the
  run, and as functions the digests (sha256), the JSON form of a decision, the text of an
  error and the random identities of new attempts.  Progress events and the rendering of
  salvaged verdicts are left out.
\<close>

section \<open>The ledger as the controller sees it\<close>

record 'w repo =
  rp_ClaimRun :: "string \<Rightarrow> string \<Rightarrow> 'w \<Rightarrow> 'w \<times> lerr option"
  rp_ReleaseRun :: "string \<Rightarrow> string \<Rightarrow> 'w \<Rightarrow> 'w \<times> lerr option"
  rp_GetRun :: "string \<Rightarrow> 'w \<Rightarrow> 'w \<times> (lerr + WfRunSnapshot)"
  rp_CompareAndSetRunStatus :: "string \<Rightarrow> 64 word \<Rightarrow> string \<Rightarrow> 'w \<Rightarrow> 'w \<times> lerr option"
  rp_CreateStepAttempt :: "StepAttempt \<Rightarrow> 'w \<Rightarrow> 'w \<times> lerr option"
  rp_GetStepAttempt :: "string \<Rightarrow> string \<Rightarrow> 'w \<Rightarrow> 'w \<times> (lerr + StepAttempt)"
  rp_ListStepAttempts :: "string \<Rightarrow> 'w \<Rightarrow> 'w \<times> (lerr + StepAttempt list)"
  rp_CompleteStepAttempt :: "string \<Rightarrow> string \<Rightarrow> 64 word \<Rightarrow> AttemptOutcome \<Rightarrow> 'w \<Rightarrow> 'w \<times> lerr option"
  rp_IncrementLoopCounter :: "string \<Rightarrow> string \<Rightarrow> 'w \<Rightarrow> 'w \<times> lerr option"
  rp_GetLoopCounters :: "string \<Rightarrow> 'w \<Rightarrow> 'w \<times> (lerr + LoopCounter list)"
  rp_CreateApproval :: "ApprovalRecord \<Rightarrow> 'w \<Rightarrow> 'w \<times> lerr option"
  rp_ResolveApproval :: "string \<Rightarrow> string \<Rightarrow> string \<Rightarrow> string \<Rightarrow> string \<Rightarrow> 'w \<Rightarrow> 'w \<times> lerr option"
  rp_ListApprovals :: "string \<Rightarrow> 'w \<Rightarrow> 'w \<times> (lerr + ApprovalRecord list)"
  rp_StoreContent :: "string \<Rightarrow> string \<Rightarrow> 'w \<Rightarrow> 'w \<times> lerr option"
  rp_LoadContent :: "string \<Rightarrow> 'w \<Rightarrow> 'w \<times> (lerr + string)"
  rp_CreateRun :: "WfRunSnapshot \<Rightarrow> string \<Rightarrow> 'w \<Rightarrow> 'w \<times> lerr option"
  rp_GetRunSnapshot :: "string \<Rightarrow> 'w \<Rightarrow> 'w \<times> (lerr + string)"
  rp_RecordRunResumed :: "string \<Rightarrow> 'w \<Rightarrow> 'w \<times> lerr option"
  rp_SetStepAttemptExecution :: "string \<Rightarrow> string \<Rightarrow> string \<Rightarrow> string \<Rightarrow> string \<Rightarrow> 'w \<Rightarrow> 'w \<times> lerr option"
  rp_CompareAndSetPanelPhase :: "string \<Rightarrow> string \<Rightarrow> 64 word \<Rightarrow> string \<Rightarrow> string \<Rightarrow> 'w \<Rightarrow> 'w \<times> lerr option"

record RouteDecision =
  rt_ToStepID :: string
  rt_TransitionIndex :: int
  rt_MatchDigest :: string
  rt_DecisionJSON :: string
  rt_Loop :: string
  rt_MaxIterations :: int
  rt_PartialAccept :: bool

record SalvagedAttempt =
  sv_StepID :: string
  sv_AttemptNo :: int
  sv_OutputRef :: string
  sv_OutputDigest :: string

text \<open>The errors of the controller, with what errors.Is and errors.As can find in them.\<close>

datatype ctl_error =
    CLedger lerr
  | CMatch match_error
  | CFailedMatch match_error
  | CLoopExhausted string int int string "SalvagedAttempt list"
  | CLedgerStep lerr string
  | CLoopAccount lerr
  | CEvidenceTooLarge
  | CAttemptCap int
  | CDeadline
  | CCanceled
  | CSchema string
  | CChild string
  | CWrapped string ctl_error
  | CStepFailed ctl_error
  | CWorkflowFailed lerr
  | CSucceededWithoutRoute string
  | CTerminalStatus string string
  | CRouteConflict string string
  | CRunMissing string
  | CUndeclaredStep string
  | CNoRuntime string
  | CStepKind string string
  | CHostFailure string
  | CBlocked string
  | CNoProgress
  | CCancelBlocked ctl_error
  | CCancelPending
  | CPanic
  | CGate string string

fun is_deadline :: "ctl_error \<Rightarrow> bool" where
  "is_deadline CDeadline \<longleftrightarrow> True"
| "is_deadline (CWrapped s e) \<longleftrightarrow> is_deadline e"
| "is_deadline (CStepFailed e) \<longleftrightarrow> is_deadline e"
| "is_deadline _ \<longleftrightarrow> False"

fun is_canceled :: "ctl_error \<Rightarrow> bool" where
  "is_canceled CCanceled \<longleftrightarrow> True"
| "is_canceled (CWrapped s e) \<longleftrightarrow> is_canceled e"
| "is_canceled (CStepFailed e) \<longleftrightarrow> is_canceled e"
| "is_canceled _ \<longleftrightarrow> False"

fun is_schema_error :: "ctl_error \<Rightarrow> bool" where
  "is_schema_error (CSchema s) \<longleftrightarrow> True"
| "is_schema_error (CWrapped s e) \<longleftrightarrow> is_schema_error e"
| "is_schema_error (CStepFailed e) \<longleftrightarrow> is_schema_error e"
| "is_schema_error _ \<longleftrightarrow> False"

record 'w ctl =
  ct_Repo :: "'w repo"
  ct_Workflow :: CompiledWorkflow
  ct_RunID :: string
  ct_Holder :: string
  ct_matchDigest :: "MatchCriteria \<Rightarrow> string"
  ct_decisionJSON :: "Decision \<Rightarrow> match_error option \<Rightarrow> string"
  ct_DigestHex :: "string \<Rightarrow> string"
  ct_text :: "ctl_error \<Rightarrow> string"
  ct_newRunID :: "string \<Rightarrow> int \<Rightarrow> string"
  ct_newTaskID :: "string \<Rightarrow> int \<Rightarrow> string"

section \<open>Attempts\<close>

text \<open>The loop of latestAttempt: the first attempt with the highest number.\<close>

fun latest_from :: "(StepAttempt \<Rightarrow> bool) \<Rightarrow> StepAttempt option \<Rightarrow> StepAttempt list \<Rightarrow> StepAttempt option" where
  "latest_from P latest [] = latest"
| "latest_from P latest (a # as) =
     latest_from P (if P a \<and> (case latest of None \<Rightarrow> True | Some l \<Rightarrow> at_AttemptNo a > at_AttemptNo l)
                    then Some a else latest) as"

definition latestAttempt :: "StepAttempt list \<Rightarrow> string \<Rightarrow> StepAttempt option" where
  "latestAttempt attempts step = latest_from (\<lambda>a. at_StepID a = step) None attempts"

definition latestOutputAttempt :: "StepAttempt list \<Rightarrow> string \<Rightarrow> StepAttempt option" where
  "latestOutputAttempt attempts step = latest_from (\<lambda>a. at_StepID a = step \<and> at_OutputRef a \<noteq> []) None attempts"

definition nextAttemptNo :: "StepAttempt list \<Rightarrow> string \<Rightarrow> int" where
  "nextAttemptNo attempts step = (case latestAttempt attempts step of None \<Rightarrow> 1 | Some l \<Rightarrow> at_AttemptNo l + 1)"

definition attemptByNo :: "StepAttempt list \<Rightarrow> string \<Rightarrow> int \<Rightarrow> StepAttempt option" where
  "attemptByNo attempts stepID attemptNo = find (\<lambda>a. at_StepID a = stepID \<and> at_AttemptNo a = attemptNo) attempts"

definition attemptIDFor :: "string \<Rightarrow> int \<Rightarrow> string" where
  "attemptIDFor stepID attemptNo = ''wfa-'' @ stepID @ ''-'' @ Itoa attemptNo"

definition enforceGlobalAttemptCap :: "'w ctl \<Rightarrow> StepAttempt list \<Rightarrow> ctl_error option" where
  "enforceGlobalAttemptCap c attempts =
     (let limit = lm_MaxStepAttempts (cw_Limits (ct_Workflow c)) in
      if limit \<le> 0 then None
      else if int (length attempts) \<ge> limit then Some (CAttemptCap limit) else None)"

section \<open>Loop caps\<close>

definition failureTarget :: "Step \<Rightarrow> string" where
  "failureTarget step = (if sp_OnFailure step \<noteq> [] then sp_OnFailure step else ''failure'')"

definition failureRoute :: "Step \<Rightarrow> RouteDecision" where
  "failureRoute step = \<lparr>rt_ToStepID = failureTarget step, rt_TransitionIndex = -1, rt_MatchDigest = [],
     rt_DecisionJSON = [], rt_Loop = [],
     rt_MaxIterations = 0, rt_PartialAccept = False\<rparr>"

definition no_route :: RouteDecision where
  "no_route = \<lparr>rt_ToStepID = [], rt_TransitionIndex = 0, rt_MatchDigest = [], rt_DecisionJSON = [],
     rt_Loop = [], rt_MaxIterations = 0,
     rt_PartialAccept = False\<rparr>"

definition loop_iterations :: "string \<Rightarrow> LoopCounter list \<Rightarrow> int" where
  "loop_iterations loopName counters =
     (case find (\<lambda>lc. lc_LoopName lc = loopName) counters of None \<Rightarrow> 0 | Some lc \<Rightarrow> lc_Iterations lc)"

definition checkLoopCap :: "'w ctl \<Rightarrow> string \<Rightarrow> int \<Rightarrow> 'w \<Rightarrow> 'w \<times> ctl_error option" where
  "checkLoopCap c loopName maxIterations w =
     (case rp_GetLoopCounters (ct_Repo c) (ct_RunID c) w of
        (w1, Inl e) \<Rightarrow> (w1, Some (CLedger e))
      | (w1, Inr counters) \<Rightarrow>
          (let current = loop_iterations loopName counters in
           (w1, if maxIterations \<ge> 0 \<and> current \<ge> maxIterations
                then Some (CLoopExhausted loopName current maxIterations [] []) else None)))"

text \<open>The last succeeded attempt of every step, sorted by step.\<close>

fun last_succeeded :: "(string \<times> StepAttempt) list \<Rightarrow> StepAttempt list \<Rightarrow> (string \<times> StepAttempt) list" where
  "last_succeeded m [] = m"
| "last_succeeded m (a # as) =
     last_succeeded
       (if at_Status a \<noteq> AttemptStatusSucceeded then m
        else (case map_of m (at_StepID a) of
            Some cur \<Rightarrow> if at_AttemptNo a > at_AttemptNo cur then AList.update (at_StepID a) a m else m
          | None \<Rightarrow> AList.update (at_StepID a) a m)) as"

definition salvaged :: "string \<times> StepAttempt \<Rightarrow> SalvagedAttempt" where
  "salvaged = (\<lambda>(stepID, a). \<lparr>sv_StepID = stepID, sv_AttemptNo = at_AttemptNo a, sv_OutputRef = at_OutputRef a,
     sv_OutputDigest = at_OutputDigest a\<rparr>)"

definition salvageLoopSuccesses :: "'w ctl \<Rightarrow> 'w \<Rightarrow> 'w \<times> (lerr + SalvagedAttempt list)" where
  "salvageLoopSuccesses c w =
     (case rp_ListStepAttempts (ct_Repo c) (ct_RunID c) w of
        (w1, Inl e) \<Rightarrow> (w1, Inl e)
      | (w1, Inr attempts) \<Rightarrow> (w1, Inr (sort_key sv_StepID (map salvaged (last_succeeded [] attempts)))))"

definition loopExhaustedRouteError :: "'w ctl \<Rightarrow> ctl_error \<Rightarrow> string \<Rightarrow> 'w \<Rightarrow> 'w \<times> ctl_error" where
  "loopExhaustedRouteError c err stepID w =
     (case err of
        CLoopExhausted name n cap s sal \<Rightarrow>
          (case salvageLoopSuccesses c w of
             (w1, Inr out) \<Rightarrow> (w1, CLoopExhausted name n cap stepID out)
           | (w1, Inl e) \<Rightarrow> (w1, CLoopExhausted name n cap stepID sal))
      | CLedger e \<Rightarrow> (w, CLedgerStep e stepID)
      | _ \<Rightarrow> (w, CWrapped stepID err))"

definition loopExhaustionRoute :: "'w ctl \<Rightarrow> Step \<Rightarrow> Decision \<Rightarrow> ctl_error \<Rightarrow> RouteDecision \<times> ctl_error option" where
  "loopExhaustionRoute c step decision exhausted =
     (let route = \<lparr>rt_ToStepID = failureTarget step, rt_TransitionIndex = de_TransitionIndex decision,
            rt_MatchDigest = de_MatchDigest decision, rt_DecisionJSON = ct_decisionJSON c decision None, rt_Loop = [],
            rt_MaxIterations = 0, rt_PartialAccept = False\<rparr> in
      if de_PartialTarget decision = [] then (route, Some exhausted)
      else (case exhausted of
          CLoopExhausted name n cap s sal \<Rightarrow>
            if length sal = 0 then (route, Some exhausted)
            else (route\<lparr>rt_ToStepID := de_PartialTarget decision, rt_PartialAccept := True\<rparr>, None)
        | _ \<Rightarrow> (route, Some exhausted)))"

section \<open>Selecting the route\<close>

text \<open>What selectRoute and selectEvidenceFailureRoute share: match, then check the loop.\<close>

definition route_matching ::
    "'w ctl \<Rightarrow> (match_error \<Rightarrow> ctl_error) \<Rightarrow> Step \<Rightarrow> string \<Rightarrow> outputs \<Rightarrow> 'w \<Rightarrow> 'w \<times> RouteDecision \<times> ctl_error option" where
  "route_matching c wrap step status output w =
     (case Match (ct_matchDigest c) (sp_ID step) status output (cw_Transitions (ct_Workflow c)) of
        (decision, Some err) \<Rightarrow>
          (w, \<lparr>rt_ToStepID = failureTarget step, rt_TransitionIndex = de_TransitionIndex decision,
               rt_MatchDigest = de_MatchDigest decision, rt_DecisionJSON = ct_decisionJSON c decision (Some err), rt_Loop = [],
               rt_MaxIterations = 0, rt_PartialAccept = False\<rparr>,
           Some (wrap err))
      | (decision, None) \<Rightarrow>
          (let route = \<lparr>rt_ToStepID = de_ToStepID decision, rt_TransitionIndex = de_TransitionIndex decision,
                 rt_MatchDigest = de_MatchDigest decision, rt_DecisionJSON = ct_decisionJSON c decision None,
                 rt_Loop = de_Loop decision, rt_MaxIterations = de_MaxIterations decision, rt_PartialAccept = False\<rparr> in
           if de_Loop decision = [] then (w, route, None)
           else (case checkLoopCap c (de_Loop decision) (de_MaxIterations decision) w of
                   (w1, None) \<Rightarrow> (w1, route, None)
                 | (w1, Some err) \<Rightarrow>
                     (case loopExhaustedRouteError c err (sp_ID step) w1 of
                        (w2, err2) \<Rightarrow> (w2, loopExhaustionRoute c step decision err2)))))"

definition selectRoute ::
    "'w ctl \<Rightarrow> Step \<Rightarrow> string \<Rightarrow> outputs \<Rightarrow> 'w \<Rightarrow> 'w \<times> RouteDecision \<times> ctl_error option" where
  "selectRoute c step status output w =
     (if status \<noteq> AttemptStatusSucceeded then (w, failureRoute step, None)
      else route_matching c CMatch step ''succeeded'' output w)"

definition selectEvidenceFailureRoute ::
    "'w ctl \<Rightarrow> Step \<Rightarrow> outputs \<Rightarrow> 'w \<Rightarrow> 'w \<times> RouteDecision \<times> ctl_error option" where
  "selectEvidenceFailureRoute c step output w = route_matching c CFailedMatch step ''failed'' output w"

section \<open>Recording the outcome\<close>

record AgentStepResult =
  rs_CoordinatorRunID :: string
  rs_TaskID :: string
  rs_Output :: string
  rs_EvidenceJSON :: string
  rs_ChildStatus :: string
  rs_ErrorRef :: string

definition no_result :: AgentStepResult where
  "no_result = \<lparr>rs_CoordinatorRunID = [], rs_TaskID = [], rs_Output = [], rs_EvidenceJSON = [], rs_ChildStatus = [],
     rs_ErrorRef = []\<rparr>"

definition maxErrorTextBytes :: nat where
  "maxErrorTextBytes = 4096"

text \<open>A byte that does not continue an encoded character.\<close>

definition RuneStart :: "char \<Rightarrow> bool" where
  "RuneStart ch \<longleftrightarrow> \<not> (128 \<le> (of_char ch :: nat) \<and> (of_char ch :: nat) < 192)"

definition truncateTail :: "string \<Rightarrow> nat \<Rightarrow> string" where
  "truncateTail s limit = (if length s \<le> limit then s else dropWhile (\<lambda>ch. \<not> RuneStart ch) (drop (length s - limit) s))"

definition content_ref :: "'w ctl \<Rightarrow> string \<Rightarrow> string" where
  "content_ref c text = ''sha256:'' @ ct_DigestHex c text"

definition storeErrorText :: "'w ctl \<Rightarrow> ctl_error option \<Rightarrow> 'w \<Rightarrow> 'w \<times> string" where
  "storeErrorText c cause w = (case cause of
     None \<Rightarrow> (w, [])
   | Some e \<Rightarrow>
       (let text = truncateTail (ct_text c e) maxErrorTextBytes; ref = content_ref c text in
        case rp_StoreContent (ct_Repo c) ref text w of
          (w1, None) \<Rightarrow> (w1, ref)
        | (w1, Some err) \<Rightarrow> (w1, [])))"

definition outcome_of :: "AgentStepResult \<Rightarrow> string \<Rightarrow> RouteDecision \<Rightarrow> string \<Rightarrow> string \<Rightarrow> AttemptOutcome" where
  "outcome_of result status route outputRef outputDigest =
     \<lparr>oc_Status = status, oc_CoordinatorRunID = rs_CoordinatorRunID result, oc_TaskID = rs_TaskID result,
      oc_OutputRef = outputRef, oc_OutputDigest = outputDigest, oc_ErrorRef = rs_ErrorRef result,
      oc_ToStepID = rt_ToStepID route, oc_TransitionIndex = rt_TransitionIndex route,
      oc_MatchDigest = rt_MatchDigest route, oc_DecisionJSON = rt_DecisionJSON route,
      oc_EvidenceJSON = rs_EvidenceJSON result\<rparr>"

definition CompleteExistingStepResult ::
    "'w ctl \<Rightarrow> StepAttempt \<Rightarrow> AgentStepResult \<Rightarrow> string \<Rightarrow> RouteDecision \<Rightarrow> 'w \<Rightarrow> 'w \<times> ctl_error option" where
  "CompleteExistingStepResult c attempt result status route w =
     (if length (rs_EvidenceJSON result) > MaxEvidenceBytes then (w, Some CEvidenceTooLarge)
      else
        (let digest = (if length (rs_Output result) > 0 then ct_DigestHex c (rs_Output result) else []);
             ref = (if length (rs_Output result) > 0 then ''sha256:'' @ digest else []) in
         case (if length (rs_Output result) > 0 then rp_StoreContent (ct_Repo c) ref (rs_Output result) w else (w, None)) of
           (w1, Some err) \<Rightarrow> (w1, Some (CLedger err))
         | (w1, None) \<Rightarrow>
             (case rp_CompleteStepAttempt (ct_Repo c) (at_RunID attempt) (at_AttemptID attempt) (at_Version attempt)
                     (outcome_of result status route ref digest) w1 of
                (w2, err) \<Rightarrow> (w2, map_option CLedger err))))"

definition recordLoopAfterComplete :: "'w ctl \<Rightarrow> RouteDecision \<Rightarrow> 'w \<Rightarrow> 'w \<times> ctl_error option" where
  "recordLoopAfterComplete c route w =
     (if rt_Loop route = [] then (w, None)
      else (case rp_IncrementLoopCounter (ct_Repo c) (ct_RunID c) (rt_Loop route) w of
              (w1, err) \<Rightarrow> (w1, map_option CLedger err)))"

text \<open>A failed increment after a recorded route is \<open>CLoopAccount\<close>, which callers do not treat as a failure.\<close>

definition completeSucceededRoute ::
    "'w ctl \<Rightarrow> StepAttempt \<Rightarrow> AgentStepResult \<Rightarrow> RouteDecision \<Rightarrow> 'w \<Rightarrow> 'w \<times> ctl_error option" where
  "completeSucceededRoute c attempt result route w =
     (case CompleteExistingStepResult c attempt result AttemptStatusSucceeded route w of
        (w1, Some err) \<Rightarrow> (w1, Some err)
      | (w1, None) \<Rightarrow>
          (case recordLoopAfterComplete c route w1 of
             (w2, Some (CLedger e)) \<Rightarrow> (w2, Some (CLoopAccount e))
           | (w2, err) \<Rightarrow> (w2, err)))"

definition isLoopAccountError :: "ctl_error \<Rightarrow> bool" where
  "isLoopAccountError e \<longleftrightarrow> (case e of CLoopAccount l \<Rightarrow> True | _ \<Rightarrow> False)"

end
