(* ===== verification/Ctl_Settle.thy ===== *)
theory Ctl_Settle
  imports Ctl_Route
begin

text \<open>
  The workflow controller (src/internal/workflows/controller): settling a run or an attempt
  (linear.go, linear_deadline.go, linear_execution.go, linear_execution_helpers.go), and
  admitting an attempt (linear_gates.go).

  A step function returns the world, the run it read last, whether the run stops here, and
  an error.  The checks that follow the choice of a route inspect agent output and the git
  worktree; they are the record \<open>route_gates\<close> of arguments, and so is the child's result.
\<close>

type_synonym 'w advance = "'w \<times> WfRunSnapshot \<times> bool \<times> ctl_error option"

text \<open>The value GetRun returns beside an error.\<close>

definition zero_run :: WfRunSnapshot where
  "zero_run = \<lparr>wr_RunID = [], wr_InvocationKey = [], wr_WorkflowName = [], wr_WorkflowDigest = [],
     wr_SnapshotDigest = [], wr_InputDigest = [], wr_Status = [], wr_ActiveStepID = [], wr_BaseRef = [],
     wr_BaseCommit = [], wr_OriginBaseCommit = [], wr_WorktreeName = [], wr_RemoteURL = [], wr_Version = 0,
     wr_StartedAt = 0, wr_DeadlineAt = None, wr_FinishedAt = None\<rparr>"

definition WorkflowStep :: "'w ctl \<Rightarrow> string \<Rightarrow> Step option" where
  "WorkflowStep c i = find (\<lambda>s. sp_ID s = i) (cw_Steps (ct_Workflow c))"

section \<open>Settling a run\<close>

definition failWithStatus :: "'w ctl \<Rightarrow> WfRunSnapshot \<Rightarrow> ctl_error \<Rightarrow> string \<Rightarrow> 'w \<Rightarrow> 'w advance" where
  "failWithStatus c run cause status w =
     (case (if \<not> IsTerminalRunStatus (wr_Status run)
            then rp_CompareAndSetRunStatus (ct_Repo c) (ct_RunID c) (wr_Version run) status w else (w, None)) of
        (w1, Some err) \<Rightarrow> (w1, run, False, Some (CWorkflowFailed err))
      | (w1, None) \<Rightarrow>
          (case rp_GetRun (ct_Repo c) (ct_RunID c) w1 of
             (w2, Inl err) \<Rightarrow> (w2, run, False, Some (CWorkflowFailed err))
           | (w2, Inr failed) \<Rightarrow> (w2, failed, True, Some (CStepFailed cause))))"

definition ctl_fail :: "'w ctl \<Rightarrow> WfRunSnapshot \<Rightarrow> ctl_error \<Rightarrow> 'w \<Rightarrow> 'w advance" where
  "ctl_fail c run cause w = failWithStatus c run cause WfRunStatusFailed w"

definition deliveryRequired :: "'w ctl \<Rightarrow> bool" where
  "deliveryRequired c = DeliveryActive (Some (ct_Workflow c))"

text \<open>The status a run settles with at a terminal step.\<close>

definition terminal_status :: "'w ctl \<Rightarrow> string \<Rightarrow> string" where
  "terminal_status c activeStep =
     (if activeStep = ''failure'' then WfRunStatusFailed
      else if deliveryRequired c then WfRunStatusDeliveryPending else WfRunStatusSucceeded)"

definition settle_status :: "'w ctl \<Rightarrow> WfRunSnapshot \<Rightarrow> string \<Rightarrow> 'w \<Rightarrow> 'w advance" where
  "settle_status c run status w =
     (case rp_CompareAndSetRunStatus (ct_Repo c) (ct_RunID c) (wr_Version run) status w of
        (w1, Some err) \<Rightarrow> (w1, run, True, Some (CLedger err))
      | (w1, None) \<Rightarrow>
          (case rp_GetRun (ct_Repo c) (ct_RunID c) w1 of
             (w2, Inl err) \<Rightarrow> (w2, zero_run, True, Some (CLedger err))
           | (w2, Inr settled) \<Rightarrow> (w2, settled, True, None)))"

definition reconcileTerminalRoute :: "'w ctl \<Rightarrow> WfRunSnapshot \<Rightarrow> 'w \<Rightarrow> 'w advance" where
  "reconcileTerminalRoute c run w =
     (if \<not> IsTerminalStepID (wr_ActiveStepID run) then (w, run, False, None)
      else if wr_Status run = WfRunStatusDeliveryPending then (w, run, True, None)
      else
        (let status = terminal_status c (wr_ActiveStepID run) in
         if IsTerminalRunStatus (wr_Status run) then
           (if wr_Status run = status then (w, run, True, None)
            else (w, run, True, Some (CRouteConflict (wr_ActiveStepID run) (wr_Status run))))
         else if wr_Status run = WfRunStatusWaitingApproval then
           (case rp_CompareAndSetRunStatus (ct_Repo c) (ct_RunID c) (wr_Version run) WfRunStatusRunning w of
              (w1, Some err) \<Rightarrow> (w1, run, True, Some (CLedger err))
            | (w1, None) \<Rightarrow>
                (case rp_GetRun (ct_Repo c) (ct_RunID c) w1 of
                   (w2, Inl err) \<Rightarrow> (w2, zero_run, True, Some (CLedger err))
                 | (w2, Inr run2) \<Rightarrow>
                     if wr_RunID run2 = [] then (w2, run2, True, Some (CRunMissing (ct_RunID c)))
                     else settle_status c run2 status w2))
         else settle_status c run status w))"

definition settleAfterRoute :: "'w ctl \<Rightarrow> RouteDecision \<Rightarrow> 'w \<Rightarrow> 'w advance" where
  "settleAfterRoute c route w =
     (case rp_GetRun (ct_Repo c) (ct_RunID c) w of
        (w1, Inl err) \<Rightarrow> (w1, zero_run, False, Some (CLedger err))
      | (w1, Inr run) \<Rightarrow>
          if IsTerminalStepID (rt_ToStepID route) then reconcileTerminalRoute c run w1 else (w1, run, False, None))"

definition timeoutOpenHumanAttempt :: "'w ctl \<Rightarrow> ctl_error \<Rightarrow> WfRunSnapshot \<Rightarrow> 'w \<Rightarrow> 'w" where
  "timeoutOpenHumanAttempt c deadline run w =
     (case WorkflowStep c (wr_ActiveStepID run) of
        None \<Rightarrow> w
      | Some step \<Rightarrow>
          if sp_Kind step \<noteq> ''human_gate'' then w
          else (case rp_ListStepAttempts (ct_Repo c) (ct_RunID c) w of
              (w1, Inl err) \<Rightarrow> w1
            | (w1, Inr attempts) \<Rightarrow>
                (case latestAttempt attempts (sp_ID step) of
                   None \<Rightarrow> w1
                 | Some attempt \<Rightarrow>
                     if IsTerminalAttemptStatus (at_Status attempt) then w1
                     else (case storeErrorText c (Some deadline) w1 of (w2, ref) \<Rightarrow>
                       fst (CompleteExistingStepResult c attempt (no_result\<lparr>rs_ErrorRef := ref\<rparr>)
                         AttemptStatusTimedOut no_route w2)))))"

definition timeout_running :: "'w ctl \<Rightarrow> ctl_error \<Rightarrow> WfRunSnapshot \<Rightarrow> 'w \<Rightarrow> 'w advance" where
  "timeout_running c deadline run w =
     (case rp_GetRun (ct_Repo c) (ct_RunID c) (timeoutOpenHumanAttempt c deadline run w) of
        (w1, Inl err) \<Rightarrow> (w1, zero_run, True, Some (CLedger err))
      | (w1, Inr run1) \<Rightarrow> (case failWithStatus c run1 CDeadline WfRunStatusTimedOut w1 of
            (w2, got, done, err) \<Rightarrow> (w2, got, True, err)))"

text \<open>The argument \<open>deadline\<close> is the error recorded on an open human gate; every result stops the run.\<close>

definition timeoutExpiredRun :: "'w ctl \<Rightarrow> ctl_error \<Rightarrow> WfRunSnapshot \<Rightarrow> 'w \<Rightarrow> 'w advance" where
  "timeoutExpiredRun c deadline run w =
     (case reconcileTerminalRoute c run w of
        (w1, settled, True, err) \<Rightarrow> (w1, settled, True, err)
      | (w1, _, False, _) \<Rightarrow>
          if IsTerminalRunStatus (wr_Status run) then (w1, run, True, None)
          else if wr_Status run = WfRunStatusPending then
            (case rp_CompareAndSetRunStatus (ct_Repo c) (ct_RunID c) (wr_Version run) WfRunStatusRunning w1 of
               (w2, Some err) \<Rightarrow> (w2, run, True, Some (CLedger err))
             | (w2, None) \<Rightarrow>
                 (case rp_GetRun (ct_Repo c) (ct_RunID c) w2 of
                    (w3, Inl err) \<Rightarrow> (w3, zero_run, True, Some (CLedger err))
                  | (w3, Inr run2) \<Rightarrow>
                      (case reconcileTerminalRoute c run2 w3 of
                         (w4, settled, True, err) \<Rightarrow> (w4, settled, True, err)
                       | (w4, _, False, _) \<Rightarrow> timeout_running c deadline run2 w4)))
          else timeout_running c deadline run w1)"

definition reconcileTerminalAttempt :: "'w ctl \<Rightarrow> WfRunSnapshot \<Rightarrow> StepAttempt \<Rightarrow> 'w \<Rightarrow> 'w advance" where
  "reconcileTerminalAttempt c run attempt w =
     (if at_Status attempt = AttemptStatusSucceeded then ctl_fail c run (CSucceededWithoutRoute (at_StepID attempt)) w
      else if at_Status attempt = AttemptStatusCanceled then failWithStatus c run CCanceled WfRunStatusCanceled w
      else if at_Status attempt = AttemptStatusTimedOut then failWithStatus c run CDeadline WfRunStatusTimedOut w
      else ctl_fail c run (CTerminalStatus (at_StepID attempt) (at_Status attempt)) w)"

section \<open>Admitting an attempt\<close>

definition newAttempt :: "'w ctl \<Rightarrow> string \<Rightarrow> int \<Rightarrow> StepAttempt" where
  "newAttempt c stepID attemptNo = (new_attempt (attemptIDFor stepID attemptNo) (ct_RunID c))\<lparr>
     at_StepID := stepID, at_AttemptNo := attemptNo, at_Status := AttemptStatusRunning,
     at_CoordinatorRunID := ct_newRunID c stepID attemptNo, at_TaskID := ct_newTaskID c stepID attemptNo\<rparr>"

type_synonym 'w admission = "'w \<times> (ctl_error + StepAttempt \<times> bool)"

definition createAdmittedAttempt :: "'w ctl \<Rightarrow> string \<Rightarrow> int \<Rightarrow> StepAttempt list \<Rightarrow> 'w \<Rightarrow> 'w admission" where
  "createAdmittedAttempt c stepID attemptNo attempts w =
     (case enforceGlobalAttemptCap c attempts of
        Some e \<Rightarrow> (w, Inl e)
      | None \<Rightarrow>
          (case rp_CreateStepAttempt (ct_Repo c) (newAttempt c stepID attemptNo) w of
             (w1, Some err) \<Rightarrow> (w1, Inl (CLedger err))
           | (w1, None) \<Rightarrow>
               (case rp_GetStepAttempt (ct_Repo c) (ct_RunID c) (attemptIDFor stepID attemptNo) w1 of
                  (w2, Inl err) \<Rightarrow> (w2, Inl (CLedger err))
                | (w2, Inr made) \<Rightarrow> (w2, Inr (made, True)))))"

definition interrupted_outcome :: AttemptOutcome where
  "interrupted_outcome = outcome_of no_result AttemptStatusInterrupted no_route [] []"

definition reenters :: "StepAttempt \<Rightarrow> bool" where
  "reenters attempt \<longleftrightarrow> at_Status attempt = AttemptStatusInterrupted \<or>
     at_Status attempt = AttemptStatusSucceeded \<and> at_ToStepID attempt \<noteq> [] \<or>
     at_Status attempt = AttemptStatusFailed \<and> at_ToStepID attempt \<noteq> []"

definition admitAttempt :: "'w ctl \<Rightarrow> string \<Rightarrow> StepAttempt list \<Rightarrow> 'w \<Rightarrow> 'w admission" where
  "admitAttempt c stepID attempts w =
     (case latestAttempt attempts stepID of
        None \<Rightarrow> createAdmittedAttempt c stepID (nextAttemptNo attempts stepID) attempts w
      | Some attempt \<Rightarrow>
          if \<not> IsTerminalAttemptStatus (at_Status attempt) then
            (case rp_CompleteStepAttempt (ct_Repo c) (ct_RunID c) (at_AttemptID attempt) (at_Version attempt)
                    interrupted_outcome w of
               (w1, Some err) \<Rightarrow> (w1, Inl (CLedger err))
             | (w1, None) \<Rightarrow> createAdmittedAttempt c stepID (at_AttemptNo attempt + 1) attempts w1)
          else if \<not> reenters attempt then (w, Inr (attempt, False))
          else createAdmittedAttempt c stepID (at_AttemptNo attempt + 1) attempts w)"

section \<open>Settling an attempt\<close>

definition classifyStepStatus :: "ctl_error option \<Rightarrow> string \<Rightarrow> string" where
  "classifyStepStatus runErr childStatus = (case runErr of
     None \<Rightarrow> AttemptStatusSucceeded
   | Some e \<Rightarrow>
       if is_schema_error e then AttemptStatusFailed
       else if childStatus = ''completed'' then AttemptStatusSucceeded
       else if childStatus = ''timed_out'' then AttemptStatusTimedOut
       else if childStatus = ''canceled'' then (if is_deadline e then AttemptStatusTimedOut else AttemptStatusCanceled)
       else if childStatus = ''failed'' then AttemptStatusFailed
       else if is_deadline e then AttemptStatusTimedOut
       else if is_canceled e then AttemptStatusCanceled
       else AttemptStatusFailed)"

text \<open>The checks of settleSucceededRoute that look into the output and the worktree.\<close>

record 'w route_gates =
  rg_scope :: "Step \<Rightarrow> AgentStepResult \<Rightarrow> outputs \<Rightarrow> AgentStepResult \<times> outputs"
  rg_planRepair :: "Step \<Rightarrow> RouteDecision \<Rightarrow> outputs \<Rightarrow> 'w \<Rightarrow> 'w \<times> RouteDecision \<times> bool \<times> ctl_error option"
  rg_diffSize :: "Step \<Rightarrow> RouteDecision \<Rightarrow> 'w \<Rightarrow> 'w \<times> RouteDecision option"
  rg_blocked :: "outputs \<Rightarrow> 'w \<Rightarrow> 'w \<times> ctl_error option"
  rg_noProgress :: "Step \<Rightarrow> RouteDecision \<Rightarrow> outputs \<Rightarrow> 'w \<Rightarrow> 'w \<times> (ctl_error + bool)"

text \<open>The route, whether the outcome was degraded to a failure, the cause, and the result to record.\<close>

type_synonym 'w settled_route = "'w \<times> RouteDecision \<times> bool \<times> ctl_error option \<times> AgentStepResult"

definition degrade :: "'w ctl \<Rightarrow> ctl_error \<Rightarrow> RouteDecision \<Rightarrow> AgentStepResult \<Rightarrow> 'w \<Rightarrow> 'w settled_route" where
  "degrade c cause route result w =
     (case storeErrorText c (Some cause) w of (w1, ref) \<Rightarrow> (w1, route, True, Some cause, result\<lparr>rs_ErrorRef := ref\<rparr>))"

definition settleSucceededRoute ::
    "'w ctl \<Rightarrow> 'w route_gates \<Rightarrow> Step \<Rightarrow> AgentStepResult \<Rightarrow> outputs \<Rightarrow> 'w \<Rightarrow> 'w settled_route" where
  "settleSucceededRoute c g step result0 outMap0 w =
     (case rg_scope g step result0 outMap0 of (result, outMap) \<Rightarrow>
      case selectRoute c step AttemptStatusSucceeded outMap w of
        (w1, route, Some err) \<Rightarrow> degrade c err (if rt_ToStepID route = [] then failureRoute step else route) result w1
      | (w1, route, None) \<Rightarrow>
      (case rg_planRepair g step route outMap w1 of
        (w2, rr, _, Some rerr) \<Rightarrow> degrade c rerr rr result w2
      | (w2, rr, True, None) \<Rightarrow> (w2, rr, False, None, result)
      | (w2, _, False, None) \<Rightarrow>
      (case rg_diffSize g step route w2 of
        (w3, Some rr) \<Rightarrow> (w3, rr, False, None, result)
      | (w3, None) \<Rightarrow>
      (case rg_blocked g outMap w3 of
        (w4, Some blockedErr) \<Rightarrow> degrade c blockedErr (failureRoute step) result w4
      | (w4, None) \<Rightarrow>
      (case rg_noProgress g step route outMap w4 of
        (w5, Inl zpErr) \<Rightarrow> degrade c (CWrapped ''zero-progress check'' zpErr) (failureRoute step) result w5
      | (w5, Inr True) \<Rightarrow> degrade c CNoProgress (failureRoute step) result w5
      | (w5, Inr False) \<Rightarrow> (w5, route, False, None, result))))))"

definition settleAttemptOutcome ::
    "'w ctl \<Rightarrow> 'w route_gates \<Rightarrow> Step \<Rightarrow> AgentStepResult \<Rightarrow> outputs \<Rightarrow> ctl_error option \<Rightarrow> 'w
      \<Rightarrow> 'w \<times> string \<times> ctl_error option \<times> RouteDecision \<times> bool \<times> AgentStepResult" where
  "settleAttemptOutcome c g step result0 outMap runErr w =
     (let status = classifyStepStatus runErr (rs_ChildStatus result0) in
      case (case runErr of None \<Rightarrow> (w, result0)
            | Some e \<Rightarrow> (case storeErrorText c (Some e) w of (w1, ref) \<Rightarrow> (w1, result0\<lparr>rs_ErrorRef := ref\<rparr>))) of
        (w1, result) \<Rightarrow>
          if status = AttemptStatusSucceeded then
            (case settleSucceededRoute c g step result outMap w1 of
               (w2, route, degraded, runErr2, result2) \<Rightarrow>
                 (w2, if degraded then AttemptStatusFailed else status, runErr2,
                  if runErr2 \<noteq> None \<and> rt_ToStepID route = [] then failureRoute step else route, degraded, result2))
          else (w1, status, runErr, if status = AttemptStatusFailed then failureRoute step else no_route, False, result))"

definition defaultMaxOnFailureReentries :: int where
  "defaultMaxOnFailureReentries = 3"

definition onFailureReentryLimit :: "'w ctl \<Rightarrow> int" where
  "onFailureReentryLimit c =
     (let n = lm_MaxOnFailureReentries (cw_Limits (ct_Workflow c)) in if n > 0 then n else defaultMaxOnFailureReentries)"

definition spent_failures :: "string \<Rightarrow> StepAttempt list \<Rightarrow> int" where
  "spent_failures stepID attempts =
     1 + int (length (filter (\<lambda>a. at_StepID a = stepID \<and> at_Status a = AttemptStatusFailed) attempts))"

text \<open>agentFailureRepairable, and hostFailureRepairable with its own test for terminal targets.\<close>

definition agentFailureRepairable :: "'w ctl \<Rightarrow> Step \<Rightarrow> RouteDecision \<Rightarrow> 'w \<Rightarrow> 'w \<times> bool" where
  "agentFailureRepairable c step route w =
     (if sp_OnFailure step = [] \<or> IsTerminalStepID (rt_ToStepID route) then (w, False)
      else (case rp_ListStepAttempts (ct_Repo c) (ct_RunID c) w of
          (w1, Inl err) \<Rightarrow> (w1, False)
        | (w1, Inr attempts) \<Rightarrow> (w1, spent_failures (sp_ID step) attempts < onFailureReentryLimit c)))"

definition hostFailureRepairable :: "'w ctl \<Rightarrow> Step \<Rightarrow> RouteDecision \<Rightarrow> 'w \<Rightarrow> 'w \<times> bool" where
  "hostFailureRepairable c step route w =
     (if sp_OnFailure step = [] \<or> rt_ToStepID route \<in> set ReservedStepIDs then (w, False)
      else (case rp_ListStepAttempts (ct_Repo c) (ct_RunID c) w of
          (w1, Inl err) \<Rightarrow> (w1, False)
        | (w1, Inr attempts) \<Rightarrow> (w1, spent_failures (sp_ID step) attempts < onFailureReentryLimit c)))"

definition terminal_route :: "RouteDecision \<Rightarrow> RouteDecision" where
  "terminal_route route = (if IsTerminalStepID (rt_ToStepID route) then route else route\<lparr>rt_ToStepID := ''failure''\<rparr>)"

text \<open>Record the outcome, then end the run with the given status.\<close>

definition record_and_fail ::
    "'w ctl \<Rightarrow> WfRunSnapshot \<Rightarrow> StepAttempt \<Rightarrow> AgentStepResult \<Rightarrow> string \<Rightarrow> RouteDecision \<Rightarrow> ctl_error \<Rightarrow> string
      \<Rightarrow> 'w \<Rightarrow> 'w advance" where
  "record_and_fail c run attempt result status route cause runStatus w =
     (case CompleteExistingStepResult c attempt result status route w of
        (w1, Some err) \<Rightarrow> ctl_fail c run err w1
      | (w1, None) \<Rightarrow> failWithStatus c run cause runStatus w1)"

definition record_and_route ::
    "'w ctl \<Rightarrow> WfRunSnapshot \<Rightarrow> StepAttempt \<Rightarrow> AgentStepResult \<Rightarrow> string \<Rightarrow> RouteDecision \<Rightarrow> 'w \<Rightarrow> 'w advance" where
  "record_and_route c run attempt result status route w =
     (case CompleteExistingStepResult c attempt result status route w of
        (w1, Some err) \<Rightarrow> ctl_fail c run err w1
      | (w1, None) \<Rightarrow> settleAfterRoute c route w1)"

definition succeed_and_route ::
    "'w ctl \<Rightarrow> WfRunSnapshot \<Rightarrow> StepAttempt \<Rightarrow> AgentStepResult \<Rightarrow> RouteDecision \<Rightarrow> 'w \<Rightarrow> 'w advance" where
  "succeed_and_route c run attempt result route w =
     (case completeSucceededRoute c attempt result route w of
        (w1, Some err) \<Rightarrow> if isLoopAccountError err then settleAfterRoute c route w1 else ctl_fail c run err w1
      | (w1, None) \<Rightarrow> settleAfterRoute c route w1)"

definition run_status_of_attempt :: "string \<Rightarrow> string" where
  "run_status_of_attempt status =
     (if status = AttemptStatusCanceled then WfRunStatusCanceled
      else if status = AttemptStatusTimedOut then WfRunStatusTimedOut else WfRunStatusFailed)"

definition settleAgentAttempt ::
    "'w ctl \<Rightarrow> 'w route_gates \<Rightarrow> WfRunSnapshot \<Rightarrow> Step \<Rightarrow> StepAttempt \<Rightarrow> AgentStepResult \<Rightarrow> outputs
      \<Rightarrow> ctl_error option \<Rightarrow> 'w \<Rightarrow> 'w advance" where
  "settleAgentAttempt c g run step attempt result0 outMap runErr0 w =
     (case settleAttemptOutcome c g step result0 outMap runErr0 w of
        (w1, status, runErr, route, degraded, result) \<Rightarrow>
          let cause = (case runErr of None \<Rightarrow> CChild [] | Some e \<Rightarrow> e) in
          if status = AttemptStatusSucceeded then succeed_and_route c run attempt result route w1
          else if status = AttemptStatusFailed then
            (case (if degraded then (w1, False) else agentFailureRepairable c step route w1) of
               (w2, True) \<Rightarrow> record_and_route c run attempt result status route w2
             | (w2, False) \<Rightarrow> record_and_fail c run attempt result status (terminal_route route) cause WfRunStatusFailed w2)
          else record_and_fail c run attempt result status route cause (run_status_of_attempt status) w1)"

definition failAttempt :: "'w ctl \<Rightarrow> WfRunSnapshot \<Rightarrow> StepAttempt \<Rightarrow> ctl_error \<Rightarrow> 'w \<Rightarrow> 'w advance" where
  "failAttempt c run attempt cause w =
     (case storeErrorText c (Some cause) w of (w1, ref) \<Rightarrow>
      ctl_fail c run cause (fst (CompleteExistingStepResult c attempt (no_result\<lparr>rs_ErrorRef := ref\<rparr>)
        AttemptStatusFailed no_route w1)))"

end
