(* ===== verification/Ctl_Gates.thy ===== *)
theory Ctl_Gates
  imports Ctl_Settle
begin

text \<open>
  The gates of the workflow controller (src/internal/workflows/controller): admission and
  resolution of human gates (linear_gates.go, linear_gates_approval.go, linear_human.go),
  and evidence gates with their failures (linear_gates_evidence.go,
  linear_gate_host_failure.go).

  A verifier is an argument that yields its report; the paths a report names as blocked, the
  cause of a host failure and the JSON form of a report are arguments too.
\<close>

section \<open>Human gates\<close>

definition humanGateApprovalID :: "string \<Rightarrow> int \<Rightarrow> string" where
  "humanGateApprovalID stepID attemptNo = ''wfa-approval-'' @ stepID @ ''-'' @ Itoa attemptNo"

definition pending_approval :: "'w ctl \<Rightarrow> string \<Rightarrow> int \<Rightarrow> ApprovalRecord" where
  "pending_approval c stepID attemptNo = (new_approval (humanGateApprovalID stepID attemptNo) (ct_RunID c))\<lparr>
     ap_StepID := stepID, ap_Status := ''pending''\<rparr>"

definition ensurePendingApproval :: "'w ctl \<Rightarrow> string \<Rightarrow> int \<Rightarrow> 'w \<Rightarrow> 'w \<times> ctl_error option" where
  "ensurePendingApproval c stepID attemptNo w =
     (case rp_CreateApproval (ct_Repo c) (pending_approval c stepID attemptNo) w of
        (w1, None) \<Rightarrow> (w1, None)
      | (w1, Some err) \<Rightarrow> (w1, if err = LErrDuplicate then None else Some (CLedger err)))"

definition pauseHumanGate :: "'w ctl \<Rightarrow> WfRunSnapshot \<Rightarrow> Step \<Rightarrow> StepAttempt \<Rightarrow> 'w \<Rightarrow> 'w advance" where
  "pauseHumanGate c run step attempt w =
     (case ensurePendingApproval c (sp_ID step) (at_AttemptNo attempt) w of
        (w1, Some err) \<Rightarrow> ctl_fail c run err w1
      | (w1, None) \<Rightarrow>
          if wr_Status run = WfRunStatusWaitingApproval then (w1, run, True, None)
          else (case rp_CompareAndSetRunStatus (ct_Repo c) (ct_RunID c) (wr_Version run) WfRunStatusWaitingApproval w1 of
              (w2, Some err) \<Rightarrow> (w2, run, False, Some (CLedger err))
            | (w2, None) \<Rightarrow>
                (case rp_GetRun (ct_Repo c) (ct_RunID c) w2 of
                   (w3, Inl err) \<Rightarrow> (w3, zero_run, False, Some (CLedger err))
                 | (w3, Inr run2) \<Rightarrow> (w3, run2, True, None))))"

definition admitHumanGate :: "'w ctl \<Rightarrow> WfRunSnapshot \<Rightarrow> Step \<Rightarrow> StepAttempt list \<Rightarrow> int \<Rightarrow> 'w \<Rightarrow> 'w advance" where
  "admitHumanGate c run step attempts attemptNo w =
     (case enforceGlobalAttemptCap c attempts of
        Some e \<Rightarrow> ctl_fail c run e w
      | None \<Rightarrow>
          (case rp_CreateStepAttempt (ct_Repo c)
                  ((newAttempt c (sp_ID step) attemptNo)\<lparr>at_CoordinatorRunID := [], at_TaskID := []\<rparr>) w of
             (w1, Some err) \<Rightarrow> ctl_fail c run (CLedger err) w1
           | (w1, None) \<Rightarrow>
               (case rp_GetStepAttempt (ct_Repo c) (ct_RunID c) (attemptIDFor (sp_ID step) attemptNo) w1 of
                  (w2, Inl err) \<Rightarrow> ctl_fail c run (CLedger err) w2
                | (w2, Inr attempt) \<Rightarrow> pauseHumanGate c run step attempt w2)))"

definition advanceHumanGate :: "'w ctl \<Rightarrow> WfRunSnapshot \<Rightarrow> Step \<Rightarrow> 'w \<Rightarrow> 'w advance" where
  "advanceHumanGate c run step w =
     (case rp_ListStepAttempts (ct_Repo c) (ct_RunID c) w of
        (w1, Inl err) \<Rightarrow> (w1, run, False, Some (CLedger err))
      | (w1, Inr attempts) \<Rightarrow>
          (case latestAttempt attempts (sp_ID step) of
             None \<Rightarrow> admitHumanGate c run step attempts (nextAttemptNo attempts (sp_ID step)) w1
           | Some attempt \<Rightarrow>
               if IsTerminalAttemptStatus (at_Status attempt) then
                 (if at_Status attempt = AttemptStatusInterrupted \<or>
                     at_Status attempt = AttemptStatusSucceeded \<and> at_ToStepID attempt \<noteq> []
                  then admitHumanGate c run step attempts (at_AttemptNo attempt + 1) w1
                  else reconcileTerminalAttempt c run attempt w1)
               else pauseHumanGate c run step attempt w1))"

section \<open>Resolving a human gate\<close>

definition finishHumanRunStatus :: "'w ctl \<Rightarrow> string \<Rightarrow> string \<Rightarrow> string \<Rightarrow> 'w \<Rightarrow> 'w \<times> ctl_error option" where
  "finishHumanRunStatus c attemptStatus toStepID decision w =
     (case rp_GetRun (ct_Repo c) (ct_RunID c) w of
        (w1, Inl err) \<Rightarrow> (w1, Some (CLedger err))
      | (w1, Inr run) \<Rightarrow>
          if IsTerminalRunStatus (wr_Status run) then (w1, None)
          else if decision = ''rejected'' \<or> attemptStatus = AttemptStatusFailed then
            (if wr_Status run = WfRunStatusWaitingApproval then
               (case rp_CompareAndSetRunStatus (ct_Repo c) (ct_RunID c) (wr_Version run) WfRunStatusFailed w1 of
                  (w2, err) \<Rightarrow> (w2, map_option CLedger err))
             else (w1, None))
          else
            (case (if wr_Status run = WfRunStatusWaitingApproval then
                     (case rp_CompareAndSetRunStatus (ct_Repo c) (ct_RunID c) (wr_Version run) WfRunStatusRunning w1 of
                        (w2, Some err) \<Rightarrow> (w2, Inl err)
                      | (w2, None) \<Rightarrow> rp_GetRun (ct_Repo c) (ct_RunID c) w2)
                   else (w1, Inr run)) of
               (w3, Inl err) \<Rightarrow> (w3, Some (CLedger err))
             | (w3, Inr run2) \<Rightarrow>
                 if \<not> IsTerminalStepID toStepID \<or> IsTerminalRunStatus (wr_Status run2) then (w3, None)
                 else (case rp_CompareAndSetRunStatus (ct_Repo c) (ct_RunID c) (wr_Version run2)
                             (terminal_status c toStepID) w3 of
                         (w4, err) \<Rightarrow> (w4, map_option CLedger err))))"

definition finishHumanRejection :: "'w ctl \<Rightarrow> Step \<Rightarrow> StepAttempt \<Rightarrow> 'w \<Rightarrow> 'w \<times> ctl_error option" where
  "finishHumanRejection c step attempt w =
     (case storeErrorText c (Some (CGate ''rejected'' (sp_ID step))) w of (w1, ref) \<Rightarrow>
      case CompleteExistingStepResult c attempt (no_result\<lparr>rs_ErrorRef := ref\<rparr>) AttemptStatusFailed
             (terminal_route (failureRoute step)) w1 of
        (w2, Some err) \<Rightarrow> (w2, Some err)
      | (w2, None) \<Rightarrow>
          (case rp_GetRun (ct_Repo c) (ct_RunID c) w2 of
             (w3, Inl err) \<Rightarrow> (w3, Some (CLedger err))
           | (w3, Inr run) \<Rightarrow>
               if wr_Status run = WfRunStatusWaitingApproval then
                 (case rp_CompareAndSetRunStatus (ct_Repo c) (ct_RunID c) (wr_Version run) WfRunStatusFailed w3 of
                    (w4, err) \<Rightarrow> (w4, map_option CLedger err))
               else (w3, None)))"

definition approved_output :: outputs where
  "approved_output = [(''decision'', VString ''approved'')]"

text \<open>encoding/json of that map; the quotation mark is character 34.\<close>

definition approved_json :: string where
  "approved_json = (let q = char_of (34 :: nat) in
     ''{'' @ [q] @ ''decision'' @ [q] @ '':'' @ [q] @ ''approved'' @ [q] @ ''}'')"

definition finishHumanApproval :: "'w ctl \<Rightarrow> Step \<Rightarrow> StepAttempt \<Rightarrow> string \<Rightarrow> 'w \<Rightarrow> 'w \<times> ctl_error option" where
  "finishHumanApproval c step attempt decision w =
     (case selectRoute c step AttemptStatusSucceeded approved_output w of
        (w1, route0, Some err) \<Rightarrow>
          (let route = terminal_route (if rt_ToStepID route0 = [] then failureRoute step else route0) in
           case storeErrorText c (Some err) w1 of (w2, ref) \<Rightarrow>
           case CompleteExistingStepResult c attempt (no_result\<lparr>rs_Output := approved_json, rs_ErrorRef := ref\<rparr>)
                  AttemptStatusFailed route w2 of
             (w3, Some completeErr) \<Rightarrow> (w3, Some completeErr)
           | (w3, None) \<Rightarrow>
               (case rp_GetRun (ct_Repo c) (ct_RunID c) w3 of
                  (w4, Inl getErr) \<Rightarrow> (w4, Some (CLedger getErr))
                | (w4, Inr run) \<Rightarrow>
                    if wr_Status run = WfRunStatusWaitingApproval then
                      (fst (rp_CompareAndSetRunStatus (ct_Repo c) (ct_RunID c) (wr_Version run) WfRunStatusFailed w4), Some err)
                    else (w4, Some err)))
      | (w1, route, None) \<Rightarrow>
          (case completeSucceededRoute c attempt (no_result\<lparr>rs_Output := approved_json\<rparr>) route w1 of
             (w2, Some err) \<Rightarrow> (w2, Some err)
           | (w2, None) \<Rightarrow> finishHumanRunStatus c AttemptStatusSucceeded (rt_ToStepID route) decision w2))"

definition finishHumanResolutionForAttempt ::
    "'w ctl \<Rightarrow> Step \<Rightarrow> string \<Rightarrow> int \<Rightarrow> 'w \<Rightarrow> 'w \<times> ctl_error option" where
  "finishHumanResolutionForAttempt c step decision attemptNo w =
     (case rp_ListStepAttempts (ct_Repo c) (ct_RunID c) w of
        (w1, Inl err) \<Rightarrow> (w1, Some (CLedger err))
      | (w1, Inr attempts) \<Rightarrow>
          (case (if attemptNo > 0 then attemptByNo attempts (sp_ID step) attemptNo else latestAttempt attempts (sp_ID step)) of
             None \<Rightarrow> (w1, Some (CGate ''attempt is missing'' (sp_ID step)))
           | Some attempt \<Rightarrow>
               if attemptNo > 0 \<and> (case latestAttempt attempts (sp_ID step) of None \<Rightarrow> False
                    | Some latest \<Rightarrow> at_AttemptNo latest > attemptNo)
               then (w1, Some (CGate ''approval targets an older attempt'' (sp_ID step)))
               else if IsTerminalAttemptStatus (at_Status attempt)
               then finishHumanRunStatus c (at_Status attempt) (at_ToStepID attempt) decision w1
               else if decision = ''rejected'' then finishHumanRejection c step attempt w1
               else finishHumanApproval c step attempt decision w1))"

definition findApproval :: "ApprovalRecord list \<Rightarrow> string \<Rightarrow> ApprovalRecord option" where
  "findApproval approvals i = find (\<lambda>a. ap_ApprovalID a = i) approvals"

definition approvalRoutedToActiveStep :: "'w ctl \<Rightarrow> ApprovalRecord \<Rightarrow> string \<Rightarrow> 'w \<Rightarrow> 'w \<times> (lerr + bool)" where
  "approvalRoutedToActiveStep c approval activeStep w =
     (case rp_ListStepAttempts (ct_Repo c) (ct_RunID c) w of
        (w1, Inl err) \<Rightarrow> (w1, Inl err)
      | (w1, Inr attempts) \<Rightarrow> (w1, Inr (list_ex (\<lambda>a. at_StepID a = ap_StepID approval \<and> at_ToStepID a = activeStep \<and>
          IsTerminalAttemptStatus (at_Status a)) attempts)))"

text \<open>fmt.Sscanf with \<open>%d\<close>: blanks, a sign, the digits; the rest is ignored.\<close>

fun scan_digits :: "nat option \<Rightarrow> string \<Rightarrow> nat option" where
  "scan_digits acc [] = acc"
| "scan_digits acc (x # xs) =
     (if 48 \<le> (of_char x :: nat) \<and> (of_char x :: nat) \<le> 57
      then scan_digits (Some ((case acc of None \<Rightarrow> 0 | Some n \<Rightarrow> n * 10) + (of_char x - 48))) xs else acc)"

definition scan_int :: "string \<Rightarrow> int option" where
  "scan_int s0 = (let s = dropWhile (\<lambda>x. x = CHR '' '' \<or> x = CHR 0x09) s0 in
     case s of
       [] \<Rightarrow> None
     | x # xs \<Rightarrow>
         if x = CHR ''-'' then map_option (\<lambda>n. - int n) (scan_digits None xs)
         else map_option int (scan_digits None (if x = CHR ''+'' then xs else s)))"

definition attemptNoFromApprovalID :: "string \<Rightarrow> string \<Rightarrow> int option" where
  "attemptNoFromApprovalID approvalID stepID =
     (let prefix = ''wfa-approval-'' @ stepID @ ''-'' in
      if \<not> HasPrefix approvalID prefix then None
      else (case scan_int (drop (length prefix) approvalID) of
          None \<Rightarrow> None
        | Some n \<Rightarrow> if n \<le> 0 \<or> n \<ge> 2 ^ 63 then None else Some n))"

text \<open>The body of resolveHumanGate while the run is claimed; the status is the decision.\<close>

definition resolve_decision :: "'w ctl \<Rightarrow> Step \<Rightarrow> ApprovalRecord \<Rightarrow> string \<Rightarrow> string \<Rightarrow> string \<Rightarrow> 'w \<Rightarrow> 'w \<times> ctl_error option" where
  "resolve_decision c step approval actor decision reason w =
     (case (if ap_Status approval = ''pending'' then
              rp_ResolveApproval (ct_Repo c) (ct_RunID c) (ap_ApprovalID approval) actor decision reason w
            else (w, None)) of
        (w1, Some err) \<Rightarrow> (w1, Some (CLedger err))
      | (w1, None) \<Rightarrow>
          if ap_Status approval \<noteq> ''pending'' \<and> ap_Status approval \<noteq> ''approved'' \<and> ap_Status approval \<noteq> ''rejected''
          then (w1, Some (CGate ''approval has unknown status'' (ap_ApprovalID approval)))
          else if ap_Status approval \<noteq> ''pending'' \<and> ap_Status approval \<noteq> decision
          then (w1, Some (CGate ''approval is already resolved'' (ap_ApprovalID approval)))
          else (case attemptNoFromApprovalID (ap_ApprovalID approval) (sp_ID step) of
              None \<Rightarrow> (w1, Some (CGate ''not a human_gate id'' (ap_ApprovalID approval)))
            | Some attemptNo \<Rightarrow> finishHumanResolutionForAttempt c step decision attemptNo w1))"

definition resolve_claimed :: "'w ctl \<Rightarrow> string \<Rightarrow> string \<Rightarrow> string \<Rightarrow> string \<Rightarrow> 'w \<Rightarrow> 'w \<times> ctl_error option" where
  "resolve_claimed c approvalID actor decision reason w =
     (case rp_GetRun (ct_Repo c) (ct_RunID c) w of
        (w1, Inl err) \<Rightarrow> (w1, Some (CLedger err))
      | (w1, Inr run) \<Rightarrow>
          if IsTerminalRunStatus (wr_Status run) then (w1, None)
          else if wr_Status run \<noteq> WfRunStatusWaitingApproval then (w1, Some (CGate ''run is not waiting'' (wr_Status run)))
          else
      (case rp_ListApprovals (ct_Repo c) (ct_RunID c) w1 of
        (w2, Inl err) \<Rightarrow> (w2, Some (CLedger err))
      | (w2, Inr approvals) \<Rightarrow>
      (case findApproval approvals approvalID of
        None \<Rightarrow> (w2, Some (CGate ''approval not found'' approvalID))
      | Some approval \<Rightarrow>
      (case WorkflowStep c (ap_StepID approval) of
        None \<Rightarrow> (w2, Some (CUndeclaredStep (ap_StepID approval)))
      | Some step \<Rightarrow>
      (case (if ap_StepID approval \<noteq> wr_ActiveStepID run
             then approvalRoutedToActiveStep c approval (wr_ActiveStepID run) w2 else (w2, Inr True)) of
        (w3, Inl err) \<Rightarrow> (w3, Some (CLedger err))
      | (w3, Inr False) \<Rightarrow> (w3, Some (CGate ''approval targets another step'' approvalID))
      | (w3, Inr True) \<Rightarrow> resolve_decision c step approval actor decision reason w3)))))"

definition resolveHumanGate :: "'w ctl \<Rightarrow> string \<Rightarrow> string \<Rightarrow> string \<Rightarrow> string \<Rightarrow> 'w \<Rightarrow> 'w \<times> ctl_error option" where
  "resolveHumanGate c approvalID actor decision reason w =
     (if TrimSpace approvalID = [] \<or> TrimSpace actor = [] then (w, Some (CGate ''approval id and actor are required'' []))
      else (case rp_ClaimRun (ct_Repo c) (ct_RunID c) (ct_Holder c) w of
          (w1, Some err) \<Rightarrow> (w1, Some (CLedger err))
        | (w1, None) \<Rightarrow>
            (case resolve_claimed c approvalID actor decision reason w1 of
               (w2, err) \<Rightarrow> (fst (rp_ReleaseRun (ct_Repo c) (ct_RunID c) (ct_Holder c) w2), err))))"

definition Approve :: "'w ctl \<Rightarrow> string \<Rightarrow> string \<Rightarrow> 'w \<Rightarrow> 'w \<times> ctl_error option" where
  "Approve c approvalID actor w = resolveHumanGate c approvalID actor ''approved'' [] w"

definition Reject :: "'w ctl \<Rightarrow> string \<Rightarrow> string \<Rightarrow> string \<Rightarrow> 'w \<Rightarrow> 'w \<times> ctl_error option" where
  "Reject c approvalID actor reason w = resolveHumanGate c approvalID actor ''rejected'' reason w"

text \<open>A run that waits for approval: finish what a crash left behind, or keep waiting.\<close>

definition resume_running :: "'w ctl \<Rightarrow> WfRunSnapshot \<Rightarrow> 'w \<Rightarrow> 'w \<times> (lerr \<times> WfRunSnapshot + WfRunSnapshot)" where
  "resume_running c run w =
     (if wr_Status run = WfRunStatusWaitingApproval then
        (case rp_CompareAndSetRunStatus (ct_Repo c) (ct_RunID c) (wr_Version run) WfRunStatusRunning w of
           (w1, Some err) \<Rightarrow> (w1, Inl (err, run))
         | (w1, None) \<Rightarrow>
             (case rp_GetRun (ct_Repo c) (ct_RunID c) w1 of
                (w2, Inl err) \<Rightarrow> (w2, Inl (err, zero_run))
              | (w2, Inr run2) \<Rightarrow> (w2, Inr run2)))
      else (w, Inr run))"

definition reconcile_gate :: "'w ctl \<Rightarrow> WfRunSnapshot \<Rightarrow> Step \<Rightarrow> 'w \<Rightarrow> 'w advance" where
  "reconcile_gate c run step w =
     (case rp_ListStepAttempts (ct_Repo c) (ct_RunID c) w of
        (w1, Inl err) \<Rightarrow> (w1, run, False, Some (CLedger err))
      | (w1, Inr attempts) \<Rightarrow>
      (case latestAttempt attempts (sp_ID step) of
        None \<Rightarrow> advanceHumanGate c run step w1
      | Some attempt \<Rightarrow>
      (case rp_ListApprovals (ct_Repo c) (ct_RunID c) w1 of
        (w2, Inl err) \<Rightarrow> (w2, run, False, Some (CLedger err))
      | (w2, Inr approvals) \<Rightarrow>
      (case findApproval approvals (humanGateApprovalID (sp_ID step) (at_AttemptNo attempt)) of
        None \<Rightarrow> pauseHumanGate c run step attempt w2
      | Some approval \<Rightarrow>
          if ap_Status approval = ''pending'' then
            (if \<not> IsTerminalAttemptStatus (at_Status attempt) then (w2, run, True, None)
             else if at_Status attempt = AttemptStatusInterrupted
             then admitHumanGate c run step attempts (at_AttemptNo attempt + 1) w2
             else ctl_fail c run (CGate ''terminal attempt with pending approval'' (sp_ID step)) w2)
          else
            (case finishHumanResolutionForAttempt c step (ap_Status approval) (at_AttemptNo attempt) w2 of
               (w3, Some err) \<Rightarrow> (w3, run, False, Some err)
             | (w3, None) \<Rightarrow>
                 (case rp_GetRun (ct_Repo c) (ct_RunID c) w3 of
                    (w4, Inl err) \<Rightarrow> (w4, zero_run, False, Some (CLedger err))
                  | (w4, Inr run2) \<Rightarrow>
                      (w4, run2, IsTerminalRunStatus (wr_Status run2) \<or> wr_Status run2 = WfRunStatusWaitingApproval, None)))))))"

definition reconcileWaitingApproval :: "'w ctl \<Rightarrow> WfRunSnapshot \<Rightarrow> 'w \<Rightarrow> 'w advance" where
  "reconcileWaitingApproval c run w =
     (if IsTerminalStepID (wr_ActiveStepID run) then
        (case resume_running c run w of
           (w1, Inl (err, run1)) \<Rightarrow> (w1, run1, False, Some (CLedger err))
         | (w1, Inr run2) \<Rightarrow> reconcileTerminalRoute c run2 w1)
      else (case WorkflowStep c (wr_ActiveStepID run) of
          Some step \<Rightarrow>
            if sp_Kind step = ''human_gate'' then reconcile_gate c run step w
            else if wr_Status run = WfRunStatusWaitingApproval then
              (case resume_running c run w of
                 (w1, Inl (err, run1)) \<Rightarrow> (w1, run1, False, Some (CLedger err))
               | (w1, Inr run2) \<Rightarrow> (w1, run2, False, None))
            else (w, run, True, None)
        | None \<Rightarrow>
            if wr_Status run = WfRunStatusWaitingApproval then
              (case resume_running c run w of
                 (w1, Inl (err, run1)) \<Rightarrow> (w1, run1, False, Some (CLedger err))
               | (w1, Inr run2) \<Rightarrow> (w1, run2, False, None))
            else (w, run, True, None)))"

section \<open>Evidence gates\<close>

record GateCheck =
  gk_Name :: string
  gk_Status :: string
  gk_Class :: string
  gk_Detail :: string

record GateResult =
  gr_Status :: string
  gr_Checks :: "GateCheck list"

text \<open>The loop of Repairable: a failed host check ends it.\<close>

fun repairable_from :: "bool \<Rightarrow> GateCheck list \<Rightarrow> bool" where
  "repairable_from failed [] = failed"
| "repairable_from failed (k # ks) =
     (if gk_Status k \<noteq> ''failed'' then repairable_from failed ks
      else if gk_Class k = ''host'' then False else repairable_from True ks)"

definition Repairable :: "GateResult \<Rightarrow> bool" where
  "Repairable r = repairable_from False (gr_Checks r)"

definition checksAsAny :: "GateCheck list \<Rightarrow> out_value" where
  "checksAsAny checks = VArray (map (\<lambda>k. VObject ([(''name'', VString (gk_Name k)), (''status'', VString (gk_Status k))] @
     (if gk_Class k \<noteq> [] then [(''class'', VString (gk_Class k))] else []) @
     (if gk_Detail k \<noteq> [] then [(''detail'', VString (gk_Detail k))] else []))) checks)"

record 'w gate_env =
  ge_profile :: "Step \<Rightarrow> ctl_error option"
  ge_verify :: "Step \<Rightarrow> StepAttempt \<Rightarrow> 'w \<Rightarrow> 'w \<times> GateResult \<times> ctl_error option"
  ge_json :: "GateResult \<Rightarrow> string"
  ge_blocked :: "GateResult \<Rightarrow> string list"
  ge_hostCause :: "string \<Rightarrow> string"

definition settleEvidenceGateTimeout :: "'w ctl \<Rightarrow> WfRunSnapshot \<Rightarrow> StepAttempt \<Rightarrow> ctl_error \<Rightarrow> 'w \<Rightarrow> 'w advance" where
  "settleEvidenceGateTimeout c run attempt verifyErr w =
     (case storeErrorText c (Some verifyErr) w of (w1, ref) \<Rightarrow>
      record_and_fail c run attempt (no_result\<lparr>rs_ErrorRef := ref\<rparr>) AttemptStatusTimedOut no_route CDeadline
        WfRunStatusTimedOut w1)"

definition settleHostFailure :: "'w ctl \<Rightarrow> 'w gate_env \<Rightarrow> WfRunSnapshot \<Rightarrow> StepAttempt \<Rightarrow> Step \<Rightarrow> string \<Rightarrow> 'w \<Rightarrow> 'w advance" where
  "settleHostFailure c ge run attempt step output w =
     (let hostErr = CHostFailure (ge_hostCause ge output) in
      case storeErrorText c (Some hostErr) w of (w1, ref) \<Rightarrow>
      let result = no_result\<lparr>rs_Output := output, rs_ErrorRef := ref\<rparr> in
      case hostFailureRepairable c step (failureRoute step) w1 of
        (w2, True) \<Rightarrow> record_and_route c run attempt result AttemptStatusFailed (failureRoute step) w2
      | (w2, False) \<Rightarrow>
          record_and_fail c run attempt result AttemptStatusFailed (terminal_route (failureRoute step)) hostErr WfRunStatusFailed w2)"

definition settleBlockedGateFailure :: "'w ctl \<Rightarrow> WfRunSnapshot \<Rightarrow> StepAttempt \<Rightarrow> Step \<Rightarrow> string \<Rightarrow> string list \<Rightarrow> 'w \<Rightarrow> 'w advance" where
  "settleBlockedGateFailure c run attempt step output blocked w =
     (let blockedErr = CBlocked (concat blocked) in
      case storeErrorText c (Some blockedErr) w of (w1, ref) \<Rightarrow>
      record_and_fail c run attempt (no_result\<lparr>rs_Output := output, rs_ErrorRef := ref\<rparr>) AttemptStatusFailed
        (no_route\<lparr>rt_ToStepID := ''failure''\<rparr>) blockedErr WfRunStatusFailed w1)"

definition routeEvidenceFailure ::
    "'w ctl \<Rightarrow> 'w gate_env \<Rightarrow> WfRunSnapshot \<Rightarrow> StepAttempt \<Rightarrow> Step \<Rightarrow> GateResult \<Rightarrow> string \<Rightarrow> outputs \<Rightarrow> 'w \<Rightarrow> 'w advance" where
  "routeEvidenceFailure c ge run attempt step result output outMap w =
     (if ge_blocked ge result \<noteq> [] then settleBlockedGateFailure c run attempt step output (ge_blocked ge result) w
      else if \<not> Repairable result then settleHostFailure c ge run attempt step output w
      else (case selectEvidenceFailureRoute c step outMap w of
          (w1, route, Some err) \<Rightarrow>
            (case storeErrorText c (Some err) w1 of (w2, ref) \<Rightarrow>
             record_and_fail c run attempt (no_result\<lparr>rs_Output := output, rs_ErrorRef := ref\<rparr>) AttemptStatusFailed
               (terminal_route route) err WfRunStatusFailed w2)
        | (w1, route, None) \<Rightarrow>
            (case CompleteExistingStepResult c attempt (no_result\<lparr>rs_Output := output\<rparr>) AttemptStatusFailed route w1 of
               (w2, Some err) \<Rightarrow> ctl_fail c run err w2
             | (w2, None) \<Rightarrow> settleAfterRoute c route (fst (recordLoopAfterComplete c route w2)))))"

definition advanceEvidenceGate :: "'w ctl \<Rightarrow> 'w gate_env \<Rightarrow> WfRunSnapshot \<Rightarrow> Step \<Rightarrow> 'w \<Rightarrow> 'w advance" where
  "advanceEvidenceGate c ge run step w =
     (case ge_profile ge step of
        Some err \<Rightarrow> ctl_fail c run err w
      | None \<Rightarrow>
      (case rp_ListStepAttempts (ct_Repo c) (ct_RunID c) w of
        (w1, Inl err) \<Rightarrow> (w1, run, False, Some (CLedger err))
      | (w1, Inr attempts) \<Rightarrow>
      (case admitAttempt c (sp_ID step) attempts w1 of
        (w2, Inl err) \<Rightarrow> ctl_fail c run err w2
      | (w2, Inr (attempt, False)) \<Rightarrow> reconcileTerminalAttempt c run attempt w2
      | (w2, Inr (attempt, True)) \<Rightarrow>
      (case ge_verify ge step attempt w2 of
        (w3, result0, verifyErr0) \<Rightarrow>
          let failed = (verifyErr0 \<noteq> None \<or> gr_Status result0 = ''failed'');
              result = (if failed then result0\<lparr>gr_Status := ''failed''\<rparr> else result0);
              output = ge_json ge result;
              outMap = [(''status'', VString (gr_Status result)), (''checks'', checksAsAny (gr_Checks result))] in
          (case verifyErr0 of
             Some e \<Rightarrow>
               if is_deadline e \<or> is_canceled e then settleEvidenceGateTimeout c run attempt e w3
               else routeEvidenceFailure c ge run attempt step result output outMap w3
           | None \<Rightarrow>
               if failed then routeEvidenceFailure c ge run attempt step result output outMap w3
               else (case selectRoute c step AttemptStatusSucceeded outMap w3 of
                   (w4, route, Some err) \<Rightarrow>
                     (case storeErrorText c (Some err) w4 of (w5, ref) \<Rightarrow>
                      ctl_fail c run err (fst (CompleteExistingStepResult c attempt
                        (no_result\<lparr>rs_Output := output, rs_ErrorRef := ref\<rparr>) AttemptStatusFailed
                        (terminal_route (if rt_ToStepID route = [] then failureRoute step else route)) w5)))
                 | (w4, route, None) \<Rightarrow> succeed_and_route c run attempt (no_result\<lparr>rs_Output := output\<rparr>) route w4))))))"

end
