(* ===== verification/Ctl_Advance.thy ===== *)
theory Ctl_Advance
  imports Ctl_Gates
begin

text \<open>
  One controller step and what drives it (src/internal/workflows/controller): admission of a
  run (linear_admission.go, StartNew), dispatch and joining of agent steps
  (linear_execution.go), Advance (linear.go) and its loop Run, and cancellation
  (linear_cancel.go, panel_cancel.go).

  The runner that dispatches or joins a child, the request built for it, the panel step and
  the panel coordinator are arguments.
\<close>

section \<open>Admitting a run\<close>

definition sameDeadline :: "time option \<Rightarrow> time option \<Rightarrow> bool" where
  "sameDeadline left right = (case (left, right) of (Some l, Some r) \<Rightarrow> l = r | (l, r) \<Rightarrow> l = None \<and> r = None)"

definition sameAdmission :: "WfRunSnapshot \<Rightarrow> WfRunSnapshot \<Rightarrow> bool" where
  "sameAdmission old candidate \<longleftrightarrow>
     wr_InvocationKey old = wr_InvocationKey candidate \<and> wr_WorkflowName old = wr_WorkflowName candidate \<and>
     wr_WorkflowDigest old = wr_WorkflowDigest candidate \<and> wr_SnapshotDigest old = wr_SnapshotDigest candidate \<and>
     wr_InputDigest old = wr_InputDigest candidate \<and> wr_BaseRef old = wr_BaseRef candidate \<and>
     wr_BaseCommit old = wr_BaseCommit candidate \<and> wr_OriginBaseCommit old = wr_OriginBaseCommit candidate \<and>
     wr_WorktreeName old = wr_WorktreeName candidate \<and> wr_RemoteURL old = wr_RemoteURL candidate \<and>
     sameDeadline (wr_DeadlineAt old) (wr_DeadlineAt candidate)"

text \<open>The controller's field started is part of the state; \<open>Inr\<close> tells whether the run was created here.\<close>

definition StartNew :: "'w ctl \<Rightarrow> WfRunSnapshot \<Rightarrow> string \<Rightarrow> bool \<Rightarrow> 'w \<Rightarrow> ('w \<times> bool) \<times> (ctl_error + bool)" where
  "StartNew c snap snapshot started w =
     (if started then ((w, started), Inr False)
      else (case rp_CreateRun (ct_Repo c) snap snapshot w of
          (w1, None) \<Rightarrow> ((w1, True), Inr True)
        | (w1, Some err) \<Rightarrow>
            if \<not> errors_is err LErrDuplicate \<and> \<not> errors_is err LErrConflict \<and> \<not> errors_is err LErrClaimHeld
            then ((w1, started), Inl (CLedger err))
            else (case rp_GetRunSnapshot (ct_Repo c) (ct_RunID c) w1 of
                (w2, Inl getErr) \<Rightarrow> ((w2, started), Inl (CLedger getErr))
              | (w2, Inr old) \<Rightarrow>
                  if old \<noteq> snapshot then ((w2, started), Inl (CGate ''already exists with a different snapshot'' (ct_RunID c)))
                  else (case rp_GetRun (ct_Repo c) (ct_RunID c) w2 of
                      (w3, Inl getErr) \<Rightarrow> ((w3, started), Inl (CLedger getErr))
                    | (w3, Inr run) \<Rightarrow>
                        if \<not> sameAdmission run snap
                        then ((w3, started), Inl (CGate ''already exists with different admission data'' (ct_RunID c)))
                        else ((fst (rp_RecordRunResumed (ct_Repo c) (ct_RunID c) w3), True), Inr False)))))"

section \<open>Agent steps\<close>

text \<open>What dispatch needs of the outside: requests \<open>'q\<close>, the runner, the clock of the retry.\<close>

type_synonym child = "AgentStepResult \<times> outputs \<times> ctl_error option"

record ('q, 'w) step_runner =
  sr_runtime :: "string \<Rightarrow> bool"
  sr_request :: "WfRunSnapshot \<Rightarrow> Step \<Rightarrow> StepAttempt \<Rightarrow> StepAttempt list \<Rightarrow> 'w \<Rightarrow> 'w \<times> (ctl_error + 'q)"
  sr_identify :: "string \<Rightarrow> string \<Rightarrow> 'q \<Rightarrow> 'q"
  sr_run :: "'q \<Rightarrow> 'w \<Rightarrow> 'w \<times> child"
  sr_join :: "('q \<Rightarrow> 'w \<Rightarrow> 'w \<times> bool \<times> child) option"
  sr_transient :: "ctl_error \<Rightarrow> bool"
  sr_ended :: "'w \<Rightarrow> ctl_error option"
  sr_retryTask :: "nat \<Rightarrow> string"
  sr_retryRun :: "nat \<Rightarrow> string"

definition defaultMaxTransientStepRetries :: nat where
  "defaultMaxTransientStepRetries = 3"

definition transientStepRetryLimit :: "'w ctl \<Rightarrow> nat" where
  "transientStepRetryLimit c =
     (let n = lm_MaxTransientStepRetries (cw_Limits (ct_Workflow c)) in
      if n > 0 then nat n else defaultMaxTransientStepRetries)"

definition maxReasonBytes :: nat where
  "maxReasonBytes = 512"

fun rune_cut :: "string \<Rightarrow> nat \<Rightarrow> nat" where
  "rune_cut s 0 = 0"
| "rune_cut s (Suc n) = (if RuneStart (s ! Suc n) then Suc n else rune_cut s n)"

definition truncateReason :: "string \<Rightarrow> string" where
  "truncateReason s = (if length s \<le> maxReasonBytes then s else take (rune_cut s maxReasonBytes) s)"

text \<open>The loop of runStepWithTransientRetry: the retries left, and the number of this one.\<close>

fun transient_retry ::
    "'w ctl \<Rightarrow> ('q, 'w) step_runner \<Rightarrow> StepAttempt \<Rightarrow> nat \<Rightarrow> nat \<Rightarrow> 'q \<Rightarrow> 'w \<Rightarrow> child \<Rightarrow> 'w \<times> child" where
  "transient_retry c r attempt 0 i req w child = (w, child)"
| "transient_retry c r attempt (Suc left) i req w child =
     (case child of
        (result, outMap, None) \<Rightarrow> (w, child)
      | (result, outMap, Some runErr) \<Rightarrow>
          if \<not> sr_transient r runErr then (w, child)
          else (case rp_SetStepAttemptExecution (ct_Repo c) (ct_RunID c) (at_AttemptID attempt) (sr_retryRun r i)
                      (sr_retryTask r i) (truncateReason (ct_text c runErr)) w of
              (w1, Some err) \<Rightarrow> (w1, no_result, [], Some (CWrapped ''persist transient retry identity'' (CLedger err)))
            | (w1, None) \<Rightarrow>
                (case sr_ended r w1 of
                   Some e \<Rightarrow> (w1, no_result, [], Some e)
                 | None \<Rightarrow>
                     (let req1 = sr_identify r (sr_retryRun r i) (sr_retryTask r i) req in
                      case sr_run r req1 w1 of (w2, child2) \<Rightarrow> transient_retry c r attempt left (Suc i) req1 w2 child2))))"

definition runStepWithTransientRetry ::
    "'w ctl \<Rightarrow> ('q, 'w) step_runner \<Rightarrow> 'q \<Rightarrow> StepAttempt \<Rightarrow> 'w \<Rightarrow> 'w \<times> child" where
  "runStepWithTransientRetry c r req attempt w =
     (case sr_run r req w of (w1, child) \<Rightarrow> transient_retry c r attempt (transientStepRetryLimit c) 0 req w1 child)"

definition executeAgentAttempt ::
    "'w ctl \<Rightarrow> 'w route_gates \<Rightarrow> ('q, 'w) step_runner \<Rightarrow> WfRunSnapshot \<Rightarrow> Step \<Rightarrow> StepAttempt \<Rightarrow> StepAttempt list
      \<Rightarrow> 'w \<Rightarrow> 'w advance" where
  "executeAgentAttempt c g r run step attempt attempts w =
     (case sr_request r run step attempt attempts w of
        (w1, Inl err) \<Rightarrow> failAttempt c run attempt err w1
      | (w1, Inr req) \<Rightarrow>
          (case runStepWithTransientRetry c r req attempt w1 of
             (w2, result, outMap, runErr) \<Rightarrow> settleAgentAttempt c g run step attempt result outMap runErr w2))"

text \<open>Execute a fresh attempt, once it is admitted and the attempts are read again.\<close>

definition dispatch_admitted ::
    "'w ctl \<Rightarrow> 'w route_gates \<Rightarrow> ('q, 'w) step_runner \<Rightarrow> WfRunSnapshot \<Rightarrow> Step \<Rightarrow> StepAttempt list \<Rightarrow> 'w \<Rightarrow> 'w advance" where
  "dispatch_admitted c g r run step attempts w =
     (case admitAttempt c (sp_ID step) attempts w of
        (w1, Inl err) \<Rightarrow> ctl_fail c run err w1
      | (w1, Inr (attempt, False)) \<Rightarrow> reconcileTerminalAttempt c run attempt w1
      | (w1, Inr (attempt, True)) \<Rightarrow>
          (case rp_ListStepAttempts (ct_Repo c) (ct_RunID c) w1 of
             (w2, Inl err) \<Rightarrow> (w2, run, False, Some (CLedger err))
           | (w2, Inr attempts2) \<Rightarrow> executeAgentAttempt c g r run step attempt attempts2 w2))"

definition joinInFlightAttempt ::
    "'w ctl \<Rightarrow> 'w route_gates \<Rightarrow> ('q, 'w) step_runner \<Rightarrow> WfRunSnapshot \<Rightarrow> Step \<Rightarrow> StepAttempt \<Rightarrow> StepAttempt list
      \<Rightarrow> 'w \<Rightarrow> 'w advance" where
  "joinInFlightAttempt c g r run step attempt attempts w =
     (case sr_join r of
        None \<Rightarrow> dispatch_admitted c g r run step attempts w
      | Some JoinStep \<Rightarrow>
          (case sr_request r run step attempt attempts w of
             (w1, Inl err) \<Rightarrow> failAttempt c run attempt err w1
           | (w1, Inr req) \<Rightarrow>
               (case JoinStep req w1 of
                  (w2, True, result, outMap, joinErr) \<Rightarrow> settleAgentAttempt c g run step attempt result outMap joinErr w2
                | (w2, False, _) \<Rightarrow> dispatch_admitted c g r run step attempts w2)))"

definition in_flight_child :: "StepAttempt \<Rightarrow> bool" where
  "in_flight_child a \<longleftrightarrow> \<not> IsTerminalAttemptStatus (at_Status a) \<and> at_CoordinatorRunID a \<noteq> [] \<and> at_TaskID a \<noteq> []"

definition advanceAgentStep ::
    "'w ctl \<Rightarrow> 'w route_gates \<Rightarrow> ('q, 'w) step_runner \<Rightarrow> WfRunSnapshot \<Rightarrow> Step \<Rightarrow> 'w \<Rightarrow> 'w advance" where
  "advanceAgentStep c g r run step w =
     (case rp_ListStepAttempts (ct_Repo c) (ct_RunID c) w of
        (w1, Inl err) \<Rightarrow> (w1, run, False, Some (CLedger err))
      | (w1, Inr attempts) \<Rightarrow>
          (case latestAttempt attempts (sp_ID step) of
             Some latest \<Rightarrow> if in_flight_child latest then joinInFlightAttempt c g r run step latest attempts w1
                            else dispatch_admitted c g r run step attempts w1
           | None \<Rightarrow> dispatch_admitted c g r run step attempts w1))"

section \<open>One step, and the loop\<close>

type_synonym 'w panel_step = "WfRunSnapshot \<Rightarrow> Step \<Rightarrow> 'w \<Rightarrow> 'w advance"

definition advance_kind ::
    "'w ctl \<Rightarrow> 'w route_gates \<Rightarrow> 'w gate_env \<Rightarrow> ('q, 'w) step_runner \<Rightarrow> 'w panel_step \<Rightarrow> WfRunSnapshot \<Rightarrow> 'w \<Rightarrow> 'w advance" where
  "advance_kind c g ge r panel run w =
     (case WorkflowStep c (wr_ActiveStepID run) of
        None \<Rightarrow> ctl_fail c run (CUndeclaredStep (wr_ActiveStepID run)) w
      | Some step \<Rightarrow>
          if sp_Kind step = ''agent'' \<or> sp_Kind step = ''agent_gate'' then
            (if sr_runtime r (sp_ID step) then advanceAgentStep c g r run step w
             else ctl_fail c run (CNoRuntime (sp_ID step)) w)
          else if sp_Kind step = ''agent_panel'' then panel run step w
          else if sp_Kind step = ''evidence_gate'' then advanceEvidenceGate c ge run step w
          else if sp_Kind step = ''human_gate'' then advanceHumanGate c run step w
          else ctl_fail c run (CStepKind (sp_Kind step) (sp_ID step)) w)"

text \<open>Advance after its claim, at the time \<open>now\<close>; \<open>deadline\<close> is the error of an expired gate.\<close>

definition advance_running ::
    "'w ctl \<Rightarrow> 'w route_gates \<Rightarrow> 'w gate_env \<Rightarrow> ('q, 'w) step_runner \<Rightarrow> 'w panel_step \<Rightarrow> time \<Rightarrow> ctl_error
      \<Rightarrow> WfRunSnapshot \<Rightarrow> 'w \<Rightarrow> 'w advance" where
  "advance_running c g ge r panel now deadline run w =
     (case reconcileTerminalRoute c run w of
        (w1, settled, True, err) \<Rightarrow> (w1, settled, True, err)
      | (w1, _, False, _) \<Rightarrow>
          if (case wr_DeadlineAt run of None \<Rightarrow> False | Some d \<Rightarrow> \<not> now < d) then timeoutExpiredRun c deadline run w1
          else if wr_Status run = WfRunStatusWaitingApproval then reconcileWaitingApproval c run w1
          else advance_kind c g ge r panel run w1)"

definition advance_claimed ::
    "'w ctl \<Rightarrow> 'w route_gates \<Rightarrow> 'w gate_env \<Rightarrow> ('q, 'w) step_runner \<Rightarrow> 'w panel_step \<Rightarrow> time \<Rightarrow> ctl_error \<Rightarrow> 'w \<Rightarrow> 'w advance" where
  "advance_claimed c g ge r panel now deadline w =
     (case rp_GetRun (ct_Repo c) (ct_RunID c) w of
        (w1, Inl err) \<Rightarrow> (w1, zero_run, False, Some (CLedger err))
      | (w1, Inr run) \<Rightarrow>
          if IsTerminalRunStatus (wr_Status run) then (w1, run, True, None)
          else if wr_Status run = WfRunStatusDeliveryPending then (w1, run, True, None)
          else if wr_Status run = WfRunStatusPending then
            (case rp_CompareAndSetRunStatus (ct_Repo c) (ct_RunID c) (wr_Version run) WfRunStatusRunning w1 of
               (w2, Some err) \<Rightarrow> (w2, run, False, Some (CLedger err))
             | (w2, None) \<Rightarrow>
                 (case rp_GetRun (ct_Repo c) (ct_RunID c) w2 of
                    (w3, Inl err) \<Rightarrow> (w3, zero_run, False, Some (CLedger err))
                  | (w3, Inr run2) \<Rightarrow> advance_running c g ge r panel now deadline run2 w3))
          else advance_running c g ge r panel now deadline run w1)"

definition Advance ::
    "'w ctl \<Rightarrow> 'w route_gates \<Rightarrow> 'w gate_env \<Rightarrow> ('q, 'w) step_runner \<Rightarrow> 'w panel_step \<Rightarrow> time \<Rightarrow> ctl_error \<Rightarrow> 'w \<Rightarrow> 'w advance" where
  "Advance c g ge r panel now deadline w =
     (case rp_ClaimRun (ct_Repo c) (ct_RunID c) (ct_Holder c) w of
        (w1, Some err) \<Rightarrow> (w1, zero_run, False, Some (CLedger err))
      | (w1, None) \<Rightarrow>
          (case advance_claimed c g ge r panel now deadline w1 of
             (w2, result) \<Rightarrow> (fst (rp_ReleaseRun (ct_Repo c) (ct_RunID c) (ct_Holder c) w2), result)))"

text \<open>What Run does when a step ended with the run's deadline: it claims the run and settles it.\<close>

definition settle_expired :: "'w ctl \<Rightarrow> WfRunSnapshot \<Rightarrow> ctl_error \<Rightarrow> 'w \<Rightarrow> 'w \<times> WfRunSnapshot \<times> ctl_error option" where
  "settle_expired c snap err w =
     (case rp_ClaimRun (ct_Repo c) (ct_RunID c) (ct_Holder c) w of
        (w1, Some claimErr) \<Rightarrow> (w1, snap, Some err)
      | (w1, None) \<Rightarrow>
          (case (case rp_GetRun (ct_Repo c) (ct_RunID c) w1 of
                   (w2, Inl getErr) \<Rightarrow> (w2, snap, Some err)
                 | (w2, Inr current) \<Rightarrow>
                     (case reconcileTerminalRoute c current w2 of
                        (w3, settled, True, settleErr) \<Rightarrow> (w3, settled, settleErr)
                      | (w3, _, False, _) \<Rightarrow>
                          (if IsTerminalRunStatus (wr_Status current) then w3
                           else fst (failWithStatus c current CDeadline WfRunStatusTimedOut w3), snap, Some err))) of
             (w4, result) \<Rightarrow> (fst (rp_ReleaseRun (ct_Repo c) (ct_RunID c) (ct_Holder c) w4), result)))"

text \<open>
  The loop of Run: \<open>clock\<close> reads the time and \<open>expired\<close> tells whether the deadline of the
  context has passed.  The fuel bounds the steps; a run that needs more yields \<open>None\<close>.
\<close>

fun run_loop ::
    "nat \<Rightarrow> 'w ctl \<Rightarrow> 'w route_gates \<Rightarrow> 'w gate_env \<Rightarrow> ('q, 'w) step_runner \<Rightarrow> 'w panel_step \<Rightarrow> ('w \<Rightarrow> time)
      \<Rightarrow> ('w \<Rightarrow> bool) \<Rightarrow> ctl_error \<Rightarrow> 'w \<Rightarrow> ('w \<times> WfRunSnapshot \<times> ctl_error option) option" where
  "run_loop 0 c g ge r panel clock expired deadline w = None"
| "run_loop (Suc n) c g ge r panel clock expired deadline w =
     (case Advance c g ge r panel (clock w) deadline w of
        (w1, snap, _, Some err) \<Rightarrow>
          Some (if is_deadline err \<or> expired w1 then settle_expired c snap err w1 else (w1, snap, Some err))
      | (w1, snap, True, None) \<Rightarrow> Some (w1, snap, None)
      | (w1, snap, False, None) \<Rightarrow> run_loop n c g ge r panel clock expired deadline w1)"

text \<open>
  Run: it starts the run and ends it when it has expired, without a claim (\<open>plain\<close> is the
  ledger as it looks without a claim holder), or steps it.
\<close>

definition Run ::
    "nat \<Rightarrow> 'w ctl \<Rightarrow> 'w repo \<Rightarrow> WfRunSnapshot \<Rightarrow> string \<Rightarrow> bool \<Rightarrow> 'w route_gates \<Rightarrow> 'w gate_env \<Rightarrow> ('q, 'w) step_runner
      \<Rightarrow> 'w panel_step \<Rightarrow> ('w \<Rightarrow> time) \<Rightarrow> ('w \<Rightarrow> bool) \<Rightarrow> ctl_error \<Rightarrow> 'w
      \<Rightarrow> ('w \<times> WfRunSnapshot \<times> ctl_error option) option" where
  "Run n c plain snap snapshot started g ge r panel clock expired deadline w =
     (case StartNew (c\<lparr>ct_Repo := plain\<rparr>) snap snapshot started w of
        ((w1, _), Inl err) \<Rightarrow> Some (w1, zero_run, Some err)
      | ((w1, _), Inr created) \<Rightarrow>
          (case rp_GetRun plain (ct_RunID c) w1 of
             (w2, Inl err) \<Rightarrow> Some (w2, zero_run, Some (CLedger err))
           | (w2, Inr run) \<Rightarrow>
               (case wr_DeadlineAt run of
                  Some d \<Rightarrow>
                    if \<not> clock w2 < d then
                      (case timeoutExpiredRun (c\<lparr>ct_Repo := plain\<rparr>) deadline run w2 of (w3, got, done1, err) \<Rightarrow> Some (w3, got, err))
                    else run_loop n c g ge r panel clock expired deadline w2
                | None \<Rightarrow> run_loop n c g ge r panel clock expired deadline w2)))"

section \<open>Canceling a run\<close>

text \<open>The children of a panel attempt: for each, whether it is terminal, or an error.\<close>

record 'w panel_cancel =
  pc_member :: "string \<Rightarrow> string \<Rightarrow> 'w \<Rightarrow> 'w \<times> (ctl_error + bool)"
  pc_synthesis :: "string \<Rightarrow> 'w \<Rightarrow> 'w \<times> (ctl_error + bool)"

definition maxCancelPhaseRetries :: nat where
  "maxCancelPhaseRetries = 4"

definition panel_phase :: "StepAttempt \<Rightarrow> string" where
  "panel_phase a = (case at_PanelExecution a of None \<Rightarrow> [] | Some p \<Rightarrow> pe_Phase p)"

text \<open>
  The loop of advancePanelPhaseToCancelPending, by the rounds left.  An attempt without a
  panel execution dereferences nil: \<open>CPanic\<close>.
\<close>

fun cancel_phase_loop :: "nat \<Rightarrow> 'w ctl \<Rightarrow> StepAttempt \<Rightarrow> 'w \<Rightarrow> 'w \<times> StepAttempt \<times> ctl_error option" where
  "cancel_phase_loop 0 c attempt w =
     (w, attempt, Some (CCancelBlocked (CGate ''cancel phase transition did not converge'' (at_AttemptID attempt))))"
| "cancel_phase_loop (Suc n) c attempt w =
     (if IsTerminalAttemptStatus (at_Status attempt) then (w, attempt, None)
      else if at_PanelExecution attempt = None then (w, attempt, Some CPanic)
      else if panel_phase attempt = PanelPhaseCancelPending then (w, attempt, None)
      else if panel_phase attempt \<noteq> PanelPhaseMembersAdmitted \<and> panel_phase attempt \<noteq> PanelPhaseSynthesisAdmitted
      then (w, attempt, Some (CGate ''no legal cancel transition'' (at_AttemptID attempt)))
      else (case rp_ClaimRun (ct_Repo c) (ct_RunID c) (ct_Holder c) w of
          (w1, Some err) \<Rightarrow>
            (w1, attempt, Some (if errors_is err LErrClaimHeld then CCancelBlocked (CLedger err) else CLedger err))
        | (w1, None) \<Rightarrow>
            (case rp_CompareAndSetPanelPhase (ct_Repo c) (ct_RunID c) (at_AttemptID attempt) (at_Version attempt)
                    (panel_phase attempt) PanelPhaseCancelPending w1 of
               (w2, None) \<Rightarrow>
                 (case rp_GetStepAttempt (ct_Repo c) (ct_RunID c) (at_AttemptID attempt) w2 of
                    (w3, Inl getErr) \<Rightarrow> (w3, new_attempt [] [], Some (CLedger getErr))
                  | (w3, Inr moved) \<Rightarrow> (w3, moved, None))
             | (w2, Some err) \<Rightarrow>
                 if errors_is err LErrClaimHeld then (w2, attempt, Some (CCancelBlocked (CLedger err)))
                 else if \<not> errors_is err LErrConflict then (w2, attempt, Some (CLedger err))
                 else (case rp_GetStepAttempt (ct_Repo c) (ct_RunID c) (at_AttemptID attempt) w2 of
                     (w3, Inl getErr) \<Rightarrow> (w3, attempt, Some (CLedger getErr))
                   | (w3, Inr reloaded) \<Rightarrow> cancel_phase_loop n c reloaded w3))))"

definition advancePanelPhaseToCancelPending :: "'w ctl \<Rightarrow> StepAttempt \<Rightarrow> 'w \<Rightarrow> 'w \<times> StepAttempt \<times> ctl_error option" where
  "advancePanelPhaseToCancelPending c attempt w =
     (if ct_Holder c = [] then (w, attempt, Some (CLedger LErrClaimNotHeld))
      else cancel_phase_loop maxCancelPhaseRetries c attempt w)"

text \<open>Cancel every member in order; an error stops the walk.\<close>

fun cancel_members :: "'w panel_cancel \<Rightarrow> string \<Rightarrow> string list \<Rightarrow> bool \<Rightarrow> 'w \<Rightarrow> 'w \<times> (ctl_error + bool)" where
  "cancel_members pc attemptID [] allTerminal w = (w, Inr allTerminal)"
| "cancel_members pc attemptID (m # ms) allTerminal w =
     (case pc_member pc attemptID m w of
        (w1, Inl err) \<Rightarrow> (w1, Inl (CCancelBlocked err))
      | (w1, Inr terminal) \<Rightarrow> cancel_members pc attemptID ms (allTerminal \<and> terminal) w1)"

definition ReconcilePanelCancellation ::
    "'w ctl \<Rightarrow> 'w panel_cancel \<Rightarrow> string \<Rightarrow> 'w \<Rightarrow> 'w \<times> (ctl_error + StepAttempt \<times> bool)" where
  "ReconcilePanelCancellation c pc attemptID w =
     (case rp_GetStepAttempt (ct_Repo c) (ct_RunID c) attemptID w of
        (w1, Inl err) \<Rightarrow> (w1, Inl (CLedger err))
      | (w1, Inr attempt) \<Rightarrow>
          if IsTerminalAttemptStatus (at_Status attempt) then (w1, Inr (attempt, True))
          else if at_PanelExecution attempt = None then (w1, Inl (CGate ''no panel execution'' attemptID))
          else (case advancePanelPhaseToCancelPending c attempt w1 of
              (w2, attempt2, Some err) \<Rightarrow> (w2, Inl err)
            | (w2, attempt2, None) \<Rightarrow>
                if IsTerminalAttemptStatus (at_Status attempt2) then (w2, Inr (attempt2, True))
                else (case at_PanelExecution attempt2 of
                    None \<Rightarrow> (w2, Inl CPanic)
                  | Some panel \<Rightarrow>
                      (case cancel_members pc attemptID (map pm_MemberID (pe_Members panel)) True w2 of
                         (w3, Inl err) \<Rightarrow> (w3, Inl err)
                       | (w3, Inr allTerminal) \<Rightarrow>
                           if pe_Synthesis panel = None then (w3, Inr (attempt2, allTerminal))
                           else (case pc_synthesis pc attemptID w3 of
                               (w4, Inl err) \<Rightarrow> (w4, Inl (CCancelBlocked err))
                             | (w4, Inr terminal) \<Rightarrow> (w4, Inr (attempt2, allTerminal \<and> terminal)))))))"

definition canceled_outcome :: "string \<Rightarrow> AttemptOutcome" where
  "canceled_outcome ref = outcome_of (no_result\<lparr>rs_ErrorRef := ref\<rparr>) AttemptStatusCanceled no_route [] []"

definition cancelPanelAttempt ::
    "'w ctl \<Rightarrow> 'w panel_cancel option \<Rightarrow> ctl_error \<Rightarrow> StepAttempt \<Rightarrow> 'w \<Rightarrow> 'w \<times> (ctl_error + StepAttempt)" where
  "cancelPanelAttempt c coord cause attempt w =
     (case coord of
        None \<Rightarrow> (w, Inl (CGate ''panel attempt requires a coordinator'' (at_AttemptID attempt)))
      | Some pc \<Rightarrow>
          (case ReconcilePanelCancellation c pc (at_AttemptID attempt) w of
             (w1, Inl err) \<Rightarrow> (w1, Inl err)
           | (w1, Inr (reconciled, allTerminal)) \<Rightarrow>
               if \<not> allTerminal then (w1, Inl CCancelPending)
               else if IsTerminalAttemptStatus (at_Status reconciled) then (w1, Inr reconciled)
               else (case storeErrorText c (Some cause) w1 of (w2, ref) \<Rightarrow>
                   (case rp_CompleteStepAttempt (ct_Repo c) (ct_RunID c) (at_AttemptID reconciled) (at_Version reconciled)
                           (canceled_outcome ref) w2 of
                      (w3, Some err) \<Rightarrow> (w3, Inl (CLedger err))
                    | (w3, None) \<Rightarrow> (w3, Inr (reconciled\<lparr>at_Status := AttemptStatusCanceled, at_ErrorRef := ref\<rparr>))))))"

fun cancel_each :: "'w ctl \<Rightarrow> ctl_error \<Rightarrow> StepAttempt list \<Rightarrow> 'w \<Rightarrow> 'w \<times> StepAttempt list" where
  "cancel_each c cause [] w = (w, [])"
| "cancel_each c cause (a # as) w =
     (if IsTerminalAttemptStatus (at_Status a) then cancel_each c cause as w
      else (case storeErrorText c (Some cause) w of (w1, ref) \<Rightarrow>
          (case rp_CompleteStepAttempt (ct_Repo c) (ct_RunID c) (at_AttemptID a) (at_Version a) (canceled_outcome ref) w1 of
             (w2, Some err) \<Rightarrow> cancel_each c cause as w2
           | (w2, None) \<Rightarrow>
               (case cancel_each c cause as w2 of
                  (w3, canceled) \<Rightarrow> (w3, a\<lparr>at_Status := AttemptStatusCanceled, at_ErrorRef := ref\<rparr> # canceled)))))"

definition markRemainingAttemptsCanceled :: "'w ctl \<Rightarrow> ctl_error \<Rightarrow> 'w \<Rightarrow> 'w \<times> (ctl_error + StepAttempt list)" where
  "markRemainingAttemptsCanceled c cause w =
     (case rp_ListStepAttempts (ct_Repo c) (ct_RunID c) w of
        (w1, Inl err) \<Rightarrow> (w1, Inl (CLedger err))
      | (w1, Inr attempts) \<Rightarrow> (case cancel_each c cause attempts w1 of (w2, canceled) \<Rightarrow> (w2, Inr canceled)))"

text \<open>The part after the panel is settled: refresh the claim, cancel the run, then its attempts.\<close>

definition cancel_settled ::
    "'w ctl \<Rightarrow> ctl_error \<Rightarrow> WfRunSnapshot \<Rightarrow> StepAttempt list \<Rightarrow> 'w \<Rightarrow> 'w \<times> (ctl_error + StepAttempt list)" where
  "cancel_settled c cause run canceled w =
     (case rp_ClaimRun (ct_Repo c) (ct_RunID c) (ct_Holder c) w of
        (w1, Some err) \<Rightarrow> (w1, Inl (CLedger err))
      | (w1, None) \<Rightarrow>
          (case rp_CompareAndSetRunStatus (ct_Repo c) (ct_RunID c) (wr_Version run) WfRunStatusCanceled w1 of
             (w2, Some err) \<Rightarrow> (w2, Inl (CLedger err))
           | (w2, None) \<Rightarrow>
               (case markRemainingAttemptsCanceled c cause w2 of
                  (w3, Inl err) \<Rightarrow> (w3, Inl err)
                | (w3, Inr remaining) \<Rightarrow> (w3, Inr (canceled @ remaining)))))"

definition live_panel :: "StepAttempt list \<Rightarrow> StepAttempt option" where
  "live_panel attempts = find (\<lambda>a. at_PanelExecution a \<noteq> None \<and> \<not> IsTerminalAttemptStatus (at_Status a)) attempts"

definition cancel_running ::
    "'w ctl \<Rightarrow> 'w panel_cancel option \<Rightarrow> ctl_error \<Rightarrow> WfRunSnapshot \<Rightarrow> 'w \<Rightarrow> 'w \<times> (ctl_error + StepAttempt list)" where
  "cancel_running c coord cause run w =
     (case rp_ListStepAttempts (ct_Repo c) (ct_RunID c) w of
        (w1, Inl err) \<Rightarrow> (w1, Inl (CLedger err))
      | (w1, Inr attempts) \<Rightarrow>
          (case live_panel attempts of
             None \<Rightarrow> cancel_settled c cause run [] w1
           | Some attempt \<Rightarrow>
               (case cancelPanelAttempt c coord cause attempt w1 of
                  (w2, Inl err) \<Rightarrow> (w2, Inl err)
                | (w2, Inr reconciled) \<Rightarrow> cancel_settled c cause run [reconciled] w2)))"

definition CancelRunWithAttemptsWithClaim ::
    "'w ctl \<Rightarrow> 'w panel_cancel option \<Rightarrow> ctl_error \<Rightarrow> 'w \<Rightarrow> 'w \<times> (ctl_error + StepAttempt list)" where
  "CancelRunWithAttemptsWithClaim c coord cause w =
     (if ct_Holder c = [] then (w, Inl (CGate ''workflow claim holder is required'' []))
      else (case rp_GetRun (ct_Repo c) (ct_RunID c) w of
          (w1, Inl err) \<Rightarrow> (w1, Inl (CLedger err))
        | (w1, Inr run) \<Rightarrow>
            if IsTerminalRunStatus (wr_Status run) then (w1, Inr [])
            else if wr_Status run = WfRunStatusDeliveryPending then (w1, Inl (CGate ''run is waiting for delivery'' (ct_RunID c)))
            else if wr_Status run = WfRunStatusPending then
              (case rp_CompareAndSetRunStatus (ct_Repo c) (ct_RunID c) (wr_Version run) WfRunStatusRunning w1 of
                 (w2, Some err) \<Rightarrow> (w2, Inl (CLedger err))
               | (w2, None) \<Rightarrow>
                   (case rp_GetRun (ct_Repo c) (ct_RunID c) w2 of
                      (w3, Inl err) \<Rightarrow> (w3, Inl (CLedger err))
                    | (w3, Inr run2) \<Rightarrow> cancel_running c coord cause run2 w3))
            else cancel_running c coord cause run w1))"

text \<open>The controller value carries the holder that the code mints for the cancellation.\<close>

definition CancelRunWithAttempts ::
    "'w ctl \<Rightarrow> 'w panel_cancel option \<Rightarrow> ctl_error \<Rightarrow> 'w \<Rightarrow> 'w \<times> (ctl_error + StepAttempt list)" where
  "CancelRunWithAttempts c coord cause w =
     (case rp_ClaimRun (ct_Repo c) (ct_RunID c) (ct_Holder c) w of
        (w1, Some err) \<Rightarrow> (w1, Inl (CLedger err))
      | (w1, None) \<Rightarrow>
          (case CancelRunWithAttemptsWithClaim c coord cause w1 of
             (w2, result) \<Rightarrow> (fst (rp_ReleaseRun (ct_Repo c) (ct_RunID c) (ct_Holder c) w2), result)))"

end
