(* ===== verification/Wfd_Synthesis.thy ===== *)
theory Wfd_Synthesis
  imports Wfd_Validate
begin

text \<open>
  Synthesis of the run graph of a stacking workflow
  (src/internal/workflows/definition/synthesis.go): the engine adds a decompose step and its
  gate, routes the end of the plan phase into them, and validates the graph it made.

  The order in which Go walks a map (here: the set of candidate anchors) is the argument
  \<open>ord\<close>, as in the compiler.  A description is display text and left out.
\<close>

definition stepDecompose :: string where "stepDecompose = ''decompose''"
definition stepChunkPlanValidate :: string where "stepChunkPlanValidate = ''chunk_plan_validate''"
definition loopDecomposeRepair :: string where "loopDecomposeRepair = ''decompose_repair''"

section \<open>Inputs\<close>

definition string_input :: InputDef where
  "string_input = \<lparr>id_Type = ''string'', id_Required = False, id_MaxBytes = 0\<rparr>"

definition stackingReservedInputs :: "(string \<times> InputDef) list" where
  "stackingReservedInputs = map (\<lambda>n. (n, string_input))
     [''stack_mode'', ''chunk'', ''pr_base'', ''stack_part'', ''chunk_plan'', ''sibling_files'', ''remaining_scope'']"

definition SynthesizedInputs :: "StackingConfig option \<Rightarrow> (string \<times> InputDef) list" where
  "SynthesizedInputs cfg = (case cfg of None \<Rightarrow> [] | Some g \<Rightarrow> if sg_Enabled g then stackingReservedInputs else [])"

definition MergeStackingInputs :: "CompiledWorkflow \<Rightarrow> CompiledWorkflow" where
  "MergeStackingInputs cw = cw\<lparr>cw_Inputs := cw_Inputs cw @
     filter (\<lambda>(name, d). map_of (cw_Inputs cw) name = None) (SynthesizedInputs (cw_Stacking cw))\<rparr>"

section \<open>Searches over the transitions\<close>

definition transitionAdjacency :: "Transition list \<Rightarrow> string \<Rightarrow> string list" where
  "transitionAdjacency ts x = map tn_To (filter (\<lambda>t. tn_From t = x) ts)"

lemma adjacency_targets: "set (transitionAdjacency ts x) \<subseteq> tn_To ` set ts"
  by (auto simp: transitionAdjacency_def)

function reach_loop :: "Transition list \<Rightarrow> string list \<Rightarrow> string list \<Rightarrow> string list" where
  "reach_loop ts seen [] = seen"
| "reach_loop ts seen (cur # queue) =
     (case visit_all (transitionAdjacency ts cur) seen queue of (s, q) \<Rightarrow> reach_loop ts s q)"
  by pat_completeness auto

termination
proof (relation "measures [\<lambda>(ts, seen, queue). card (tn_To ` set ts - set seen), \<lambda>(ts, seen, queue). length queue]", goal_cases)
  case (2 ts seen cur queue s q)
  then obtain new where new: "q = queue @ new" "set s = set seen \<union> set new"
    "set new = set (transitionAdjacency ts cur) - set seen"
    using visit_all_length by metis
  show ?case
  proof (cases "new = []")
    case True
    then show ?thesis using new by simp
  next
    case False
    then obtain x where "x \<in> set new" by (cases new) auto
    then have "x \<in> tn_To ` set ts - set seen" "x \<notin> tn_To ` set ts - set s"
      using new adjacency_targets [of ts cur] by auto
    then have "tn_To ` set ts - set s \<subset> tn_To ` set ts - set seen" using new by auto
    then have "card (tn_To ` set ts - set s) < card (tn_To ` set ts - set seen)" by (intro psubset_card_mono) auto
    then show ?thesis by simp
  qed
qed simp

definition reachableSteps :: "Transition list \<Rightarrow> string \<Rightarrow> string list" where
  "reachableSteps ts start = reach_loop ts [start] [start]"

text \<open>The inner loop of distancesFrom: the distance map is an association list.\<close>

fun visit_dist :: "nat \<Rightarrow> string list \<Rightarrow> (string \<times> nat) list \<Rightarrow> string list \<Rightarrow> (string \<times> nat) list \<times> string list" where
  "visit_dist d [] dm queue = (dm, queue)"
| "visit_dist d (x # xs) dm queue =
     (if x \<in> fst ` set dm then visit_dist d xs dm queue else visit_dist d xs ((x, d) # dm) (queue @ [x]))"

definition dist_of :: "(string \<times> nat) list \<Rightarrow> string \<Rightarrow> nat" where
  "dist_of dm x = (case map_of dm x of None \<Rightarrow> 0 | Some d \<Rightarrow> d)"

lemma visit_dist_visits:
  "visit_dist d xs dm queue = (d2, q) \<Longrightarrow> visit_all xs (map fst dm) queue = (map fst d2, q)"
  by (induction d xs dm queue rule: visit_dist.induct) (auto split: if_splits)

function dist_loop :: "Transition list \<Rightarrow> (string \<times> nat) list \<Rightarrow> string list \<Rightarrow> (string \<times> nat) list" where
  "dist_loop ts dm [] = dm"
| "dist_loop ts dm (cur # queue) =
     (case visit_dist (dist_of dm cur + 1) (transitionAdjacency ts cur) dm queue of (d, q) \<Rightarrow> dist_loop ts d q)"
  by pat_completeness auto

termination
proof (relation "measures [\<lambda>(ts, dm, queue). card (tn_To ` set ts - set (map fst dm)), \<lambda>(ts, dm, queue). length queue]",
    goal_cases)
  case (2 ts dm cur queue d q)
  then obtain new where new: "q = queue @ new" "set (map fst d) = set (map fst dm) \<union> set new"
    "set new = set (transitionAdjacency ts cur) - set (map fst dm)"
    using visit_all_length [OF visit_dist_visits] by (metis (no_types, lifting))
  show ?case
  proof (cases "new = []")
    case True
    then show ?thesis using new by simp
  next
    case False
    then obtain x where "x \<in> set new" by (cases new) auto
    then have "x \<in> tn_To ` set ts - set (map fst dm)" "x \<notin> tn_To ` set ts - set (map fst d)"
      using new adjacency_targets [of ts cur] by auto
    then have "tn_To ` set ts - set (map fst d) \<subset> tn_To ` set ts - set (map fst dm)" using new(2) by blast
    then have "card (tn_To ` set ts - set (map fst d)) < card (tn_To ` set ts - set (map fst dm))"
      by (intro psubset_card_mono) auto
    then show ?thesis by simp
  qed
qed simp

definition distancesFrom :: "Transition list \<Rightarrow> string \<Rightarrow> (string \<times> nat) list" where
  "distancesFrom ts start = dist_loop ts [(start, 0)] [start]"

section \<open>The router\<close>

definition exits_to :: "string \<Rightarrow> Transition \<Rightarrow> bool" where
  "exits_to implementStep tr \<longleftrightarrow> tn_To tr = implementStep \<and> tn_From tr \<noteq> implementStep \<and>
     (mc_Status (tn_Match tr) = [] \<or> mc_Status (tn_Match tr) = ''succeeded'')"

definition plan_exits :: "Transition list \<Rightarrow> string \<Rightarrow> string list" where
  "plan_exits ts implementStep =
     filter (\<lambda>s. s \<notin> set (reachableSteps ts implementStep)) (remdups (map tn_From (filter (exits_to implementStep) ts)))"

fun farthest :: "(string \<times> nat) list \<Rightarrow> string \<Rightarrow> int \<Rightarrow> string list \<Rightarrow> string" where
  "farthest dm best bestDist [] = best"
| "farthest dm best bestDist (s # ss) =
     (if int (dist_of dm s) > bestDist then farthest dm s (int (dist_of dm s)) ss
      else farthest dm best bestDist ss)"

definition stackingRouterAnchor :: "map_order \<Rightarrow> Transition list \<Rightarrow> string \<Rightarrow> string \<Rightarrow> string" where
  "stackingRouterAnchor ord ts planStep implementStep =
     (if implementStep = [] then planStep
      else (case plan_exits ts implementStep of
          [] \<Rightarrow> planStep
        | [s] \<Rightarrow> s
        | s # s2 # ss \<Rightarrow>
            (let best = farthest (distancesFrom ts planStep) [] (-1) (ord 4 (s # s2 # ss)) in
             if best = [] then planStep else best)))"

definition hasPlainSucceededEdge :: "Transition list \<Rightarrow> string \<Rightarrow> string \<Rightarrow> bool" where
  "hasPlainSucceededEdge ts src dst = list_ex (\<lambda>tr. tn_From tr = src \<and> tn_To tr = dst \<and>
     mc_Status (tn_Match tr) = ''succeeded'' \<and> mc_Output (tn_Match tr) = []) ts"

definition new_edge :: "string \<Rightarrow> string \<Rightarrow> string \<Rightarrow> (string \<times> string) list \<Rightarrow> Transition" where
  "new_edge src dst status out = \<lparr>tn_From = src, tn_To = dst, tn_Match = \<lparr>mc_Status = status, mc_Output = out\<rparr>,
     tn_Loop = [], tn_MaxIterations = 0, tn_PartialTarget = []\<rparr>"

definition router_edges :: "string \<Rightarrow> string \<Rightarrow> Transition list" where
  "router_edges anchor implementStep =
     [new_edge anchor stepDecompose ''succeeded'' [],
      new_edge stepDecompose implementStep ''succeeded'' [(''stack_mode'', ''single'')],
      new_edge stepDecompose ''success'' ''succeeded'' [(''stack_mode'', ''no_bug'')],
      new_edge stepDecompose stepChunkPlanValidate ''succeeded'' [(''stack_mode'', ''multi'')],
      new_edge stepDecompose ''failure'' ''failed'' [],
      new_edge stepChunkPlanValidate ''success'' ''succeeded'' [],
      (new_edge stepChunkPlanValidate stepDecompose ''failed'' [])\<lparr>tn_Loop := loopDecomposeRepair, tn_MaxIterations := 3\<rparr>]"

text \<open>Which declared transition survives, and which one is replaced by an edge to the anchor.\<close>

definition survives :: "string \<Rightarrow> string \<Rightarrow> string \<Rightarrow> Transition \<Rightarrow> bool" where
  "survives anchor planStep implementStep tr \<longleftrightarrow>
     (if \<not> exits_to implementStep tr then True
      else if tn_From tr = anchor then False
      else if tn_From tr = planStep then mc_Output (tn_Match tr) \<noteq> []
      else True)"

definition rewired :: "string \<Rightarrow> string \<Rightarrow> string \<Rightarrow> Transition \<Rightarrow> bool" where
  "rewired anchor planStep implementStep tr \<longleftrightarrow>
     exits_to implementStep tr \<and> tn_From tr \<noteq> anchor \<and> tn_From tr = planStep \<and> mc_Output (tn_Match tr) = []"

definition synthesizeTransitions :: "map_order \<Rightarrow> Transition list \<Rightarrow> string \<Rightarrow> string \<Rightarrow> Transition list" where
  "synthesizeTransitions ord ts planStep implementStep =
     (let anchor = stackingRouterAnchor ord ts planStep implementStep in
      filter (survives anchor planStep implementStep) ts @
      (if list_ex (rewired anchor planStep implementStep) ts \<and> \<not> hasPlainSucceededEdge ts planStep anchor
       then [new_edge planStep anchor ''succeeded'' []] else []) @
      router_edges anchor implementStep)"

section \<open>Steps\<close>

definition binding :: "string \<Rightarrow> string \<Rightarrow> bool \<Rightarrow> ContextBinding" where
  "binding src as optional = \<lparr>cb_From = src, cb_As = as, cb_MaxBytes = 0, cb_Optional = optional, cb_EnvelopeOnly = False\<rparr>"

definition synthesizedStackingSteps :: "Step list \<Rightarrow> string \<Rightarrow> string \<Rightarrow> Step list" where
  "synthesizedStackingSteps declared agent planStep = declared @
     [\<lparr>sp_ID = stepDecompose, sp_Kind = ''agent'', sp_Agent = agent, sp_Skill = [], sp_Verifier = [], sp_Command = None,
       sp_Template = ''templates/decompose.md'', sp_OutputSchema = ''schemas/chunk-plan-v1.json'',
       sp_Context = [binding (''steps.'' @ planStep @ ''.output'') ''plan'' False,
         binding (''steps.'' @ stepDecompose @ ''.output'') ''prior_chunk_plan'' True,
         binding ''inputs.remaining_scope'' ''remaining_scope'' True],
       sp_OnFailure = [], sp_Panel = None, sp_MaxTurns = 0\<rparr>,
      \<lparr>sp_ID = stepChunkPlanValidate, sp_Kind = ''agent_gate'', sp_Agent = agent, sp_Skill = [], sp_Verifier = [],
       sp_Command = None, sp_Template = ''templates/chunk-plan-validate.md'',
       sp_OutputSchema = ''schemas/chunk-plan-review-v1.json'',
       sp_Context = [binding (''steps.'' @ stepDecompose @ ''.output'') ''chunk_plan'' False],
       sp_OnFailure = [], sp_Panel = None, sp_MaxTurns = 0\<rparr>]"

definition planStepAgent :: "CompiledWorkflow \<Rightarrow> string \<Rightarrow> string" where
  "planStepAgent cw planStep = (case find (\<lambda>s. sp_ID s = planStep) (cw_Steps cw) of None \<Rightarrow> [] | Some s \<Rightarrow> sp_Agent s)"

section \<open>Synthesis\<close>

definition checkSynthesisIdentifiers :: "CompiledWorkflow \<Rightarrow> wf_error option" where
  "checkSynthesisIdentifiers cw =
     (if stepDecompose \<in> set (cw_StepIDs cw) \<or> stepChunkPlanValidate \<in> set (cw_StepIDs cw)
      then Some (EStacking ''step ids are engine-reserved'')
      else if loopDecomposeRepair \<in> set (cw_LoopNames cw) then Some (EStacking ''loop name is engine-reserved'')
      else None)"

definition graph_file :: "CompiledWorkflow \<Rightarrow> WorkflowFile" where
  "graph_file cw = \<lparr>wd_Version = cw_Version cw, wd_Name = cw_Name cw, wd_InitialStep = cw_InitialStep cw,
     wd_Inputs = cw_Inputs cw, wd_Limits = cw_Limits cw, wd_Steps = cw_Steps cw, wd_Transitions = cw_Transitions cw,
     wd_Delivery = cw_Delivery cw, wd_Stacking = None, wd_StepDefaults = None\<rparr>"

text \<open>None: the fuel of the cycle search ran out.\<close>

definition validateSynthesizedGraph :: "map_order \<Rightarrow> CompiledWorkflow \<Rightarrow> wf_error list option" where
  "validateSynthesizedGraph ord cw =
     (let wfl = graph_file cw; stepIDs = cw_StepIDs cw in
      case validateCycles ord wfl of
        None \<Rightarrow> None
      | Some cycles \<Rightarrow> Some (validateGraph wfl stepIDs @ validateTransitions ord wfl stepIDs False @ cycles @
          validateContextBindings wfl stepIDs False @ validateOnFailure wfl stepIDs @
          validateLimitsAndStacking wfl stepIDs @ validateStepMaxTurns wfl @ validatePanels wfl))"

definition synthesized :: "map_order \<Rightarrow> CompiledWorkflow \<Rightarrow> StackingConfig \<Rightarrow> string \<Rightarrow> CompiledWorkflow" where
  "synthesized ord cw cfg agent = cw\<lparr>
     cw_Inputs := fold (\<lambda>(name, d). AList.update name d) stackingReservedInputs (cw_Inputs cw),
     cw_Steps := synthesizedStackingSteps (cw_Steps cw) agent (sg_PlanStep cfg),
     cw_Transitions := synthesizeTransitions ord (cw_Transitions cw) (sg_PlanStep cfg) (sg_ImplementStep cfg),
     cw_Stacking := Some cfg,
     cw_StepIDs := cw_StepIDs cw @ [stepDecompose, stepChunkPlanValidate],
     cw_LoopNames := cw_LoopNames cw @ [loopDecomposeRepair]\<rparr>"

definition SynthesizeStacking :: "map_order \<Rightarrow> CompiledWorkflow \<Rightarrow> (wf_error list + CompiledWorkflow) option" where
  "SynthesizeStacking ord cw =
     (case cw_Stacking cw of
        None \<Rightarrow> Some (Inr cw)
      | Some cfg \<Rightarrow>
          if stepDecompose \<in> set (cw_StepIDs cw) \<and> stepChunkPlanValidate \<in> set (cw_StepIDs cw) \<and>
             loopDecomposeRepair \<in> set (cw_LoopNames cw) then Some (Inr cw)
          else (case checkSynthesisIdentifiers cw of
              Some e \<Rightarrow> Some (Inl [e])
            | None \<Rightarrow>
                (let agent = (if sg_Agent cfg = [] then planStepAgent cw (sg_PlanStep cfg) else sg_Agent cfg) in
                 if agent = [] then Some (Inl [EStacking ''plan step has no agent and stacking.agent is empty''])
                 else (let synth = synthesized ord cw cfg agent in
                   case validateSynthesizedGraph ord synth of
                     None \<Rightarrow> None
                   | Some errs \<Rightarrow> Some (if errs = [] then Inr synth else Inl errs)))))"

end
