(* ===== verification/Ctl_Stacking.thy ===== *)
theory Ctl_Stacking
  imports Ctl_Advance Wfd_Synthesis "HOL-Library.Signed_Division"
begin

text \<open>
  Stacking runs and convergence in the workflow controller
  (src/internal/workflows/controller): the reserved inputs and the start step, the check of a
  chunk plan (stacking.go), the routes that repair a plan or an oversized diff
  (stacking_repair.go, linear_diff_gate.go), and the zero-progress guard
  (linear_convergence.go).

  Decoding JSON, and measuring the worktree, are arguments.
\<close>

section \<open>Reserved inputs\<close>

text \<open>The mode, or the reason why the inputs are refused.\<close>

definition validateStackingReservedInputs :: "outputs \<Rightarrow> StackingConfig option \<Rightarrow> string + string" where
  "validateStackingReservedInputs inputs cfg =
     (case cfg of
        None \<Rightarrow> Inr []
      | Some _ \<Rightarrow>
          (case map_of inputs ''stack_mode'' of
             None \<Rightarrow> Inr ''plan''
           | Some VNull \<Rightarrow> Inr ''plan''
           | Some (VString mode) \<Rightarrow>
               if mode = [] then Inr ''plan''
               else if mode = ''plan'' \<or> mode = ''single'' then
                 (if map_of inputs ''chunk_plan'' \<noteq> None \<or> map_of inputs ''sibling_files'' \<noteq> None
                  then Inl ''forbidden reserved input'' else Inr mode)
               else if mode = ''chunk'' then
                 (if list_ex (\<lambda>key. map_of inputs key = None) [''chunk'', ''pr_base'', ''stack_part'']
                  then Inl ''missing reserved input'' else Inr mode)
               else if mode = ''decompose_continue'' then
                 (case map_of inputs ''remaining_scope'' of
                    Some (VString scope) \<Rightarrow> if TrimSpace scope = [] then Inl ''remaining_scope is empty'' else Inr mode
                  | _ \<Rightarrow> Inl ''remaining_scope is required'')
               else Inl ''stack_mode is invalid''
           | Some _ \<Rightarrow> Inl ''stack_mode must be a string''))"

definition runStartStepID :: "CompiledWorkflow \<Rightarrow> outputs \<Rightarrow> string" where
  "runStartStepID cw inputs =
     (case (cw_Stacking cw, validateStackingReservedInputs inputs (cw_Stacking cw)) of
        (Some cfg, Inr mode) \<Rightarrow>
          if mode = ''chunk'' \<and> sg_ImplementStep cfg \<noteq> [] then sg_ImplementStep cfg
          else if mode = ''decompose_continue'' then stepDecompose
          else cw_InitialStep cw
      | _ \<Rightarrow> cw_InitialStep cw)"

definition preImplementStep :: "CompiledWorkflow \<Rightarrow> outputs \<Rightarrow> string \<Rightarrow> bool" where
  "preImplementStep cw inputs stepID =
     (case (cw_Stacking cw, validateStackingReservedInputs inputs (cw_Stacking cw)) of
        (Some cfg, Inr mode) \<Rightarrow>
          if mode = ''chunk'' then list_ex (\<lambda>s. sp_ID s = stepID) (cw_Steps cw) \<and> stepID \<noteq> sg_ImplementStep cfg
          else if mode = ''decompose_continue'' then stepID \<noteq> stepDecompose
          else False
      | _ \<Rightarrow> False)"

definition preImplementSteps :: "CompiledWorkflow \<Rightarrow> string list" where
  "preImplementSteps cw = filter (\<lambda>i. i \<noteq> (case cw_Stacking cw of None \<Rightarrow> [] | Some cfg \<Rightarrow> sg_ImplementStep cfg))
     (map sp_ID (cw_Steps cw))"

text \<open>Bind the reserved inputs of a chunk run on the steps outside preImplementSteps.\<close>

definition bind_inputs :: "string list \<Rightarrow> Step \<Rightarrow> Step" where
  "bind_inputs injected s = s\<lparr>sp_Context := sp_Context s @
     map (\<lambda>key. binding (''inputs.'' @ key) key False) (filter (\<lambda>key. key \<notin> cb_As ` set (sp_Context s)) injected)\<rparr>"

definition injectChunkModeInputBindings :: "CompiledWorkflow \<Rightarrow> outputs \<Rightarrow> CompiledWorkflow" where
  "injectChunkModeInputBindings synth inputs =
     (let injected = filter (\<lambda>key. map_of inputs key \<noteq> None)
            [''chunk'', ''pr_base'', ''stack_part'', ''chunk_plan'', ''sibling_files'', ''remaining_scope''] in
      if injected = [] then synth
      else synth\<lparr>cw_Steps := map (\<lambda>s. if sp_ID s \<in> set (preImplementSteps synth) then s else bind_inputs injected s)
             (cw_Steps synth)\<rparr>)"

text \<open>The runtimes of the steps: the name of the agent and its routing digest.\<close>

definition requireSynthesizedStepRuntimes :: "CompiledWorkflow \<Rightarrow> (string \<Rightarrow> (string \<times> string) option) \<Rightarrow> bool" where
  "requireSynthesizedStepRuntimes synth runtimes \<longleftrightarrow>
     list_all (\<lambda>s. (sp_ID s = stepDecompose \<or> sp_ID s = stepChunkPlanValidate) \<longrightarrow>
       (case runtimes (sp_ID s) of None \<Rightarrow> False | Some (agent, digest) \<Rightarrow> TrimSpace agent \<noteq> [] \<and> TrimSpace digest \<noteq> []))
       (cw_Steps synth)"

text \<open>None: the synthesis ran out of fuel.  Otherwise a refusal or the workflow of the run.\<close>

definition admitStackingRun ::
    "map_order \<Rightarrow> CompiledWorkflow \<Rightarrow> (string \<Rightarrow> (string \<times> string) option) \<Rightarrow> outputs \<Rightarrow> (string + CompiledWorkflow) option" where
  "admitStackingRun ord cw runtimes inputs =
     (if cw_Stacking cw = None then Some (Inr cw)
      else (case validateStackingReservedInputs inputs (cw_Stacking cw) of
          Inl e \<Rightarrow> Some (Inl e)
        | Inr mode \<Rightarrow>
            (case SynthesizeStacking ord cw of
               None \<Rightarrow> None
             | Some (Inl errs) \<Rightarrow> Some (Inl ''synthesize stacking run graph'')
             | Some (Inr synth) \<Rightarrow>
                 if \<not> requireSynthesizedStepRuntimes synth runtimes then Some (Inl ''synthesized step has no agent runtime'')
                 else Some (Inr (if mode = ''chunk'' then injectChunkModeInputBindings synth inputs else synth)))))"

section \<open>Chunk plans\<close>

record chunkPlanEntry =
  ck_ID :: string
  ck_Files :: "string list"
  ck_EstDiffLines :: int
  ck_Tests :: bool
  ck_DependsOn :: "string list"

datatype chunk_reason =
    RMode string
  | RNoChunks
  | RTooMany int
  | RNoID nat
  | RDeferred string
  | RDuplicate string
  | RLines string int
  | RNoFiles string
  | RManyFiles string int
  | RTests string
  | ROverlap string
  | RUnknown string string
  | RSelf string
  | RCycle

definition HasSuffix :: "string \<Rightarrow> string \<Rightarrow> bool" where
  "HasSuffix s t \<longleftrightarrow> length t \<le> length s \<and> drop (length s - length t) s = t"

fun file_reasons :: "string list \<Rightarrow> string list \<Rightarrow> chunk_reason list \<times> string list" where
  "file_reasons seen [] = ([], seen)"
| "file_reasons seen (f # fs) =
     (case file_reasons (f # seen) fs of (rs, seen2) \<Rightarrow> ((if f \<in> set seen then [ROverlap f] else []) @ rs, seen2))"

text \<open>The checks of an entry that has an id; \<open>ids\<close> are the ids before it.\<close>

definition entry_reasons :: "StackingConfig \<Rightarrow> string list \<Rightarrow> chunkPlanEntry \<Rightarrow> chunk_reason list" where
  "entry_reasons cfg ids k =
     (if HasSuffix (ck_ID k) ''-deferred'' then [RDeferred (ck_ID k)] else []) @
     (if ck_ID k \<in> set ids then [RDuplicate (ck_ID k)] else []) @
     (if ck_EstDiffLines k > sg_HardLines cfg then [RLines (ck_ID k) (ck_EstDiffLines k)] else []) @
     (if ck_Files k = [] then [RNoFiles (ck_ID k)] else []) @
     (if int (length (ck_Files k)) > sg_MaxFiles cfg then [RManyFiles (ck_ID k) (int (length (ck_Files k)))] else []) @
     (if \<not> ck_Tests k then [RTests (ck_ID k)] else [])"

text \<open>validateChunkPlanEntry for every entry: the index, the ids and the files seen so far.\<close>

fun entries_reasons :: "StackingConfig \<Rightarrow> nat \<Rightarrow> string list \<Rightarrow> string list \<Rightarrow> chunkPlanEntry list \<Rightarrow> chunk_reason list" where
  "entries_reasons cfg i ids files [] = []"
| "entries_reasons cfg i ids files (k # ks) =
     (if ck_ID k = [] then RNoID i # entries_reasons cfg (Suc i) ids files ks
      else (case file_reasons files (ck_Files k) of (rs, files2) \<Rightarrow>
          entry_reasons cfg ids k @ rs @ entries_reasons cfg (Suc i) (ck_ID k # ids) files2 ks))"

definition chunk_ids :: "chunkPlanEntry list \<Rightarrow> string list" where
  "chunk_ids chunks = filter (\<lambda>i. i \<noteq> []) (map ck_ID chunks)"

text \<open>The dependencies of an id, by the last entry that has it.\<close>

definition chunk_deps :: "chunkPlanEntry list \<Rightarrow> string \<Rightarrow> string list" where
  "chunk_deps chunks x =
     (case find (\<lambda>k. ck_ID k = x \<and> x \<noteq> []) (rev chunks) of None \<Rightarrow> [] | Some k \<Rightarrow> ck_DependsOn k)"

definition hasChunkPlanCycle :: "chunkPlanEntry list \<Rightarrow> bool option" where
  "hasChunkPlanCycle chunks =
     has_cycle (chunk_deps chunks) (length chunks + length (concat (map ck_DependsOn chunks))) (\<lambda>_. White) (map ck_ID chunks)"

definition dep_reasons :: "chunkPlanEntry list \<Rightarrow> chunk_reason list" where
  "dep_reasons chunks = concat (map (\<lambda>k. concat (map (\<lambda>d.
     (if d \<notin> set (chunk_ids chunks) then [RUnknown (ck_ID k) d] else []) @
     (if d = ck_ID k then [RSelf (ck_ID k)] else [])) (ck_DependsOn k))) chunks)"

definition validateChunkPlanMulti :: "StackingConfig \<Rightarrow> chunkPlanEntry list \<Rightarrow> chunk_reason list option" where
  "validateChunkPlanMulti cfg chunks =
     (if chunks = [] then Some [RNoChunks]
      else (case hasChunkPlanCycle chunks of
          None \<Rightarrow> None
        | Some cyclic \<Rightarrow> Some (
            (if int (length chunks) > sg_MaxChunks cfg then [RTooMany (int (length chunks))] else []) @
            entries_reasons cfg 0 [] [] chunks @ dep_reasons chunks @ (if cyclic then [RCycle] else []))))"

definition maxChunkPlanOutputBytes :: nat where
  "maxChunkPlanOutputBytes = 64 * 1024"

text \<open>
  ValidateChunkPlan for an output of \<open>bytes\<close> bytes that decodes to a mode and chunks, if it
  decodes: an error, or the reasons against the plan (none: it is valid).
\<close>

definition ValidateChunkPlan ::
    "nat \<Rightarrow> (string \<times> chunkPlanEntry list) option \<Rightarrow> StackingConfig option \<Rightarrow> (string + chunk_reason list) option" where
  "ValidateChunkPlan bytes envelope cfg =
     (case cfg of
        None \<Rightarrow> Some (Inr [])
      | Some g \<Rightarrow>
          if bytes > maxChunkPlanOutputBytes then Some (Inl ''exceeds the validation cap'')
          else (case envelope of
              None \<Rightarrow> Some (Inl ''not valid JSON'')
            | Some (mode, chunks) \<Rightarrow>
                if mode = ''single'' \<or> mode = ''no_bug'' then Some (Inr [])
                else if mode = ''multi'' then map_option Inr (validateChunkPlanMulti g chunks)
                else Some (Inr [RMode mode])))"

section \<open>Repair routes\<close>

definition stackingRepairLoopMax :: "CompiledWorkflow \<Rightarrow> int" where
  "stackingRepairLoopMax cw =
     (case find (\<lambda>tr. tn_From tr = stepChunkPlanValidate \<and> tn_Loop tr = loopDecomposeRepair) (cw_Transitions cw) of
        None \<Rightarrow> 0 | Some tr \<Rightarrow> tn_MaxIterations tr)"

type_synonym 'w rerouting = "'w \<times> RouteDecision \<times> bool \<times> ctl_error option"

text \<open>The decision that decomposeRepairRoute makes of the refused route has no partial target.\<close>

definition decision_of_route :: "RouteDecision \<Rightarrow> Decision" where
  "decision_of_route route = \<lparr>de_TransitionIndex = rt_TransitionIndex route, de_ToStepID = rt_ToStepID route, de_Loop = [],
     de_MaxIterations = 0, de_PartialTarget = [], de_MatchDigest = rt_MatchDigest route, de_Selected = [], de_Outcome = []\<rparr>"

definition decomposeRepairRoute :: "'w ctl \<Rightarrow> Step \<Rightarrow> RouteDecision \<Rightarrow> 'w \<Rightarrow> 'w rerouting" where
  "decomposeRepairRoute c step route w =
     (let maxRepairs = stackingRepairLoopMax (ct_Workflow c) in
      case checkLoopCap c loopDecomposeRepair maxRepairs w of
        (w1, Some err) \<Rightarrow>
          (case loopExhaustedRouteError c err (sp_ID step) w1 of (w2, err2) \<Rightarrow>
           (case loopExhaustionRoute (c\<lparr>ct_decisionJSON := \<lambda>_ _. rt_DecisionJSON route\<rparr>) step (decision_of_route route) err2 of
              (rr, rerr) \<Rightarrow> (w2, rr, True, rerr)))
      | (w1, None) \<Rightarrow>
          (w1, \<lparr>rt_ToStepID = stepDecompose, rt_TransitionIndex = rt_TransitionIndex route,
             rt_MatchDigest = rt_MatchDigest route, rt_DecisionJSON = rt_DecisionJSON route, rt_Loop = loopDecomposeRepair,
             rt_MaxIterations = maxRepairs, rt_PartialAccept = False\<rparr>, True, None))"

text \<open>Decoding: the number of steps a plan declares, and the size and form of a chunk plan.\<close>

record plan_decoder =
  pd_steps :: "string \<Rightarrow> nat option"
  pd_chunks :: "outputs \<Rightarrow> nat \<times> (string \<times> chunkPlanEntry list) option"

definition planDeclaresActionableSteps :: "'w ctl \<Rightarrow> plan_decoder \<Rightarrow> string \<Rightarrow> 'w \<Rightarrow> 'w \<times> (lerr + bool)" where
  "planDeclaresActionableSteps c pd planStep w =
     (case rp_ListStepAttempts (ct_Repo c) (ct_RunID c) w of
        (w1, Inl err) \<Rightarrow> (w1, Inl err)
      | (w1, Inr attempts) \<Rightarrow>
          (case latestOutputAttempt attempts planStep of
             None \<Rightarrow> (w1, Inr True)
           | Some prior \<Rightarrow>
               (case rp_LoadContent (ct_Repo c) (at_OutputRef prior) w1 of
                  (w2, Inl err) \<Rightarrow> (w2, Inl err)
                | (w2, Inr raw) \<Rightarrow> (w2, Inr (case pd_steps pd raw of None \<Rightarrow> True | Some n \<Rightarrow> n > 0)))))"

text \<open>A plan check that runs out of fuel is \<open>CPanic\<close>; it never does.\<close>

definition chunkPlanRepairRoute ::
    "'w ctl \<Rightarrow> plan_decoder \<Rightarrow> Step \<Rightarrow> RouteDecision \<Rightarrow> outputs \<Rightarrow> 'w \<Rightarrow> 'w rerouting" where
  "chunkPlanRepairRoute c pd step route outMap w =
     (case cw_Stacking (ct_Workflow c) of
        None \<Rightarrow> (w, route, False, None)
      | Some cfg \<Rightarrow>
          if sp_ID step \<noteq> stepDecompose then (w, route, False, None)
          else if map_of outMap ''stack_mode'' = Some (VString ''no_bug'') then
            (if sg_PlanStep cfg = [] then (w, route, False, Some (CGate ''no plan step to check against'' []))
             else (case planDeclaresActionableSteps c pd (sg_PlanStep cfg) w of
                 (w1, Inl err) \<Rightarrow> (w1, route, False, Some (CWrapped ''could not read the plan output'' (CLedger err)))
               | (w1, Inr False) \<Rightarrow> (w1, route, False, None)
               | (w1, Inr True) \<Rightarrow> decomposeRepairRoute c step route w1))
          else if rt_ToStepID route \<noteq> stepChunkPlanValidate then (w, route, False, None)
          else (case pd_chunks pd outMap of (bytes, envelope) \<Rightarrow>
              (case ValidateChunkPlan bytes envelope (Some cfg) of
                 None \<Rightarrow> (w, route, False, Some CPanic)
               | Some (Inl e) \<Rightarrow> (w, route, False, Some (CGate ''chunk plan validation failed'' e))
               | Some (Inr []) \<Rightarrow> (w, route, False, None)
               | Some (Inr (r # rs)) \<Rightarrow> decomposeRepairRoute c step route w)))"

section \<open>The diff-size gate\<close>

definition binding_step :: "ContextBinding \<Rightarrow> string option" where
  "binding_step b = (case split_on (CHR ''.'') (cb_From b) of
     [p, x, q] \<Rightarrow> if p = ''steps'' \<and> q = ''output'' then Some x else None | _ \<Rightarrow> None)"

definition repairStepContextResolvable ::
    "'w ctl \<Rightarrow> outputs \<Rightarrow> string \<Rightarrow> 'w \<Rightarrow> 'w \<times> (lerr + bool)" where
  "repairStepContextResolvable c inputs target w =
     (case WorkflowStep c target of
        None \<Rightarrow> (w, Inr False)
      | Some targetStep \<Rightarrow>
          (case rp_ListStepAttempts (ct_Repo c) (ct_RunID c) w of
             (w1, Inl err) \<Rightarrow> (w1, Inl err)
           | (w1, Inr attempts) \<Rightarrow>
               (w1, Inr (list_all (\<lambda>b. cb_Optional b \<or> (case binding_step b of
                   None \<Rightarrow> True
                 | Some fromStep \<Rightarrow>
                     fromStep = (case cw_Stacking (ct_Workflow c) of None \<Rightarrow> [] | Some cfg \<Rightarrow> sg_ImplementStep cfg) \<or>
                     latestOutputAttempt attempts fromStep \<noteq> None \<or>
                     preImplementStep (ct_Workflow c) inputs fromStep)) (sp_Context targetStep)))))"

text \<open>\<open>gauge\<close> is the size of the diff, or None without a git context, a base or a measurement.\<close>

definition chunkDiffSizeGate ::
    "'w ctl \<Rightarrow> outputs \<Rightarrow> ('w \<Rightarrow> 'w \<times> int option) \<Rightarrow> Step \<Rightarrow> RouteDecision \<Rightarrow> 'w \<Rightarrow> 'w \<times> RouteDecision option" where
  "chunkDiffSizeGate c inputs gauge step route w =
     (case cw_Stacking (ct_Workflow c) of
        None \<Rightarrow> (w, None)
      | Some cfg \<Rightarrow>
          if sg_HardLines cfg \<le> 0 \<or> sp_ID step \<noteq> sg_ImplementStep cfg \<or> rt_ToStepID route = [] then (w, None)
          else
            (let target = (case cw_Delivery (ct_Workflow c) of None \<Rightarrow> [] | Some d \<Rightarrow> dy_OnDiffSizeFailure d) in
             if target = [] \<or> IsTerminalStepID target \<or> WorkflowStep c target = None \<or> rt_ToStepID route = target then (w, None)
             else (case repairStepContextResolvable c inputs target w of
                 (w1, Inl err) \<Rightarrow> (w1, None)
               | (w1, Inr False) \<Rightarrow> (w1, None)
               | (w1, Inr True) \<Rightarrow>
                   (case gauge w1 of
                      (w2, None) \<Rightarrow> (w2, None)
                    | (w2, Some lines1) \<Rightarrow>
                        (w2, if lines1 \<le> sg_HardLines cfg then None
                           else Some \<lparr>rt_ToStepID = target, rt_TransitionIndex = rt_TransitionIndex route,
                             rt_MatchDigest = rt_MatchDigest route, rt_DecisionJSON = rt_DecisionJSON route, rt_Loop = [],
                             rt_MaxIterations = 0, rt_PartialAccept = False\<rparr>)))))"

section \<open>Convergence\<close>

definition minIdenticalReviewRounds :: int where "minIdenticalReviewRounds = 3"
definition maxConvergenceHistory :: int where "maxConvergenceHistory = 20"

text \<open>Go divides toward zero.\<close>

definition identicalRoundLimit :: "int \<Rightarrow> int" where
  "identicalRoundLimit maxIterations = (let limit = maxIterations sdiv 10 in
     if limit < minIdenticalReviewRounds then minIdenticalReviewRounds else limit)"

definition convergence_window :: "int \<Rightarrow> int" where
  "convergence_window maxIterations =
     (if identicalRoundLimit maxIterations - 1 > maxConvergenceHistory then identicalRoundLimit maxIterations - 1
      else maxConvergenceHistory)"

text \<open>sort.Slice by falling attempt number (the numbers of one step differ).\<close>

definition priorOutputAttempts :: "StepAttempt list \<Rightarrow> string \<Rightarrow> int \<Rightarrow> StepAttempt list" where
  "priorOutputAttempts attempts stepID limit =
     (let matched = sort_key (\<lambda>a. - at_AttemptNo a) (filter (\<lambda>a. at_StepID a = stepID \<and> at_OutputRef a \<noteq> []) attempts) in
      if limit > 0 \<and> int (length matched) > limit then take (nat limit) matched else matched)"

text \<open>Strip one leading R, digits and a dash.\<close>

definition is_digit :: "char \<Rightarrow> bool" where
  "is_digit ch \<longleftrightarrow> 48 \<le> (of_char ch :: nat) \<and> (of_char ch :: nat) \<le> 57"

definition normalizeFindingID :: "string \<Rightarrow> string" where
  "normalizeFindingID i = (case i of
     [] \<Rightarrow> i
   | x # xs \<Rightarrow> if x = CHR ''R'' \<and> takeWhile is_digit xs \<noteq> [] \<and> HasPrefix (dropWhile is_digit xs) ''-''
               then tl (dropWhile is_digit xs) else i)"

definition text_field :: "outputs \<Rightarrow> string \<Rightarrow> string" where
  "text_field o1 key = (case map_of o1 key of Some (VString s) \<Rightarrow> s | _ \<Rightarrow> [])"

definition item_ids :: "out_value \<Rightarrow> string list" where
  "item_ids v = (case v of
     VObject f \<Rightarrow> if text_field f ''id'' \<noteq> [] then [normalizeFindingID (text_field f ''id'')] else []
   | VString s \<Rightarrow> if s \<noteq> [] then [normalizeFindingID s] else []
   | _ \<Rightarrow> [])"

definition disposition_ids :: "out_value \<Rightarrow> string list" where
  "disposition_ids v = (case v of
     VObject d \<Rightarrow>
       (let i = (if text_field d ''final_finding_id'' = [] then text_field d ''finding_id'' else text_field d ''final_finding_id'') in
        if i \<noteq> [] then [normalizeFindingID i] else [])
   | _ \<Rightarrow> [])"

definition panelFindingIDSet :: "outputs \<Rightarrow> string set" where
  "panelFindingIDSet o1 = (case map_of o1 ''dispositions'' of
     Some (VArray items) \<Rightarrow> set (concat (map disposition_ids items)) | _ \<Rightarrow> {})"

definition findingIDSet :: "outputs \<Rightarrow> string set" where
  "findingIDSet o1 = (case map_of o1 ''findings'' of
     None \<Rightarrow> panelFindingIDSet o1
   | Some (VArray items) \<Rightarrow> set (concat (map item_ids items))
   | Some _ \<Rightarrow> {})"

definition reviewRequestedChanges :: "outputs \<Rightarrow> bool" where
  "reviewRequestedChanges o1 \<longleftrightarrow> text_field o1 ''verdict'' = ''changes_requested'' \<or> text_field o1 ''host_verdict'' = ''changes_requested''"

text \<open>The loop over the prior rounds: how many had the same findings.\<close>

fun count_repeats ::
    "'w ctl \<Rightarrow> (string \<Rightarrow> outputs option) \<Rightarrow> string set \<Rightarrow> int \<Rightarrow> StepAttempt list \<Rightarrow> 'w \<Rightarrow> 'w \<times> (lerr + int)" where
  "count_repeats c decode current n [] w = (w, Inr n)"
| "count_repeats c decode current n (a # as) w =
     (case rp_LoadContent (ct_Repo c) (at_OutputRef a) w of
        (w1, Inl err) \<Rightarrow> (w1, Inl err)
      | (w1, Inr raw) \<Rightarrow>
          count_repeats c decode current
            (case decode raw of
               None \<Rightarrow> n
             | Some prior \<Rightarrow> if findingIDSet prior \<noteq> {} \<and> findingIDSet prior = current then n + 1 else n) as w1)"

definition reviewMadeNoProgress ::
    "'w ctl \<Rightarrow> (string \<Rightarrow> outputs option) \<Rightarrow> Step \<Rightarrow> RouteDecision \<Rightarrow> outputs \<Rightarrow> 'w \<Rightarrow> 'w \<times> (ctl_error + bool)" where
  "reviewMadeNoProgress c decode step route o1 w =
     (if sp_Kind step \<noteq> ''agent_gate'' \<and> sp_Kind step \<noteq> ''agent_panel'' \<or> rt_Loop route = [] then (w, Inr False)
      else if \<not> reviewRequestedChanges o1 then (w, Inr False)
      else if rt_MaxIterations route = UnlimitedIterations then (w, Inr False)
      else (case rp_ListStepAttempts (ct_Repo c) (ct_RunID c) w of
          (w1, Inl err) \<Rightarrow> (w1, Inl (CLedger err))
        | (w1, Inr attempts) \<Rightarrow>
            (case count_repeats c decode (findingIDSet o1) 1
                (priorOutputAttempts attempts (sp_ID step) (convergence_window (rt_MaxIterations route))) w1 of
               (w2, Inl err) \<Rightarrow> (w2, Inl (CLedger err))
             | (w2, Inr repeats) \<Rightarrow> (w2, Inr (repeats \<ge> identicalRoundLimit (rt_MaxIterations route))))))"

text \<open>The gates of a succeeded step, as the controller wires them.\<close>

definition stacking_gates ::
    "'w ctl \<Rightarrow> outputs \<Rightarrow> plan_decoder \<Rightarrow> ('w \<Rightarrow> 'w \<times> int option) \<Rightarrow> (string \<Rightarrow> outputs option)
      \<Rightarrow> (Step \<Rightarrow> AgentStepResult \<Rightarrow> outputs \<Rightarrow> AgentStepResult \<times> outputs)
      \<Rightarrow> (outputs \<Rightarrow> 'w \<Rightarrow> 'w \<times> ctl_error option) \<Rightarrow> 'w route_gates" where
  "stacking_gates c inputs pd gauge decode scope blocked =
     \<lparr>rg_scope = scope, rg_planRepair = (\<lambda>step route o1. chunkPlanRepairRoute c pd step route o1),
      rg_diffSize = chunkDiffSizeGate c inputs gauge, rg_blocked = blocked, rg_noProgress = reviewMadeNoProgress c decode\<rparr>"

end
