(* ===== verification/Wfd_Graph.thy ===== *)
theory Wfd_Graph
  imports Wfd_Compile
begin

text \<open>
  The two graph searches of the workflow compiler: the breadth-first search of
  \<open>validateGraph\<close> visits exactly the reachable steps, and the three-colour search of
  \<open>validateCycles\<close> never runs out of fuel and finds a cycle exactly when there is one.
\<close>

definition edges :: "(string \<Rightarrow> string list) \<Rightarrow> (string \<times> string) set" where
  "edges adj = {(x, y). y \<in> set (adj x)}"

lemma edges_iff [simp]: "(x, y) \<in> edges adj \<longleftrightarrow> y \<in> set (adj x)"
  by (simp add: edges_def)

section \<open>Breadth-first search\<close>

text \<open>What has been visited is either waiting or has its successors visited.\<close>

definition frontier_ok :: "(string \<Rightarrow> string list) \<Rightarrow> string list \<Rightarrow> string list \<Rightarrow> bool" where
  "frontier_ok adj visited queue \<longleftrightarrow>
     (\<forall>x \<in> set visited. x \<in> set queue \<or> set (adj x) \<subseteq> set visited) \<and> set queue \<subseteq> set visited"

lemma frontier_ok_step:
  assumes "frontier_ok adj visited (cur # queue)" "visit_all (adj cur) visited queue = (v, q)"
  shows "frontier_ok adj v q" "set v = set visited \<union> set (adj cur)"
proof -
  obtain new where new: "q = queue @ new" "set v = set visited \<union> set new" "set new = set (adj cur) - set visited"
    using visit_all_length [OF assms(2)] by blast
  then show "set v = set visited \<union> set (adj cur)" by auto
  show "frontier_ok adj v q"
    using assms(1) new unfolding frontier_ok_def by auto
qed

lemma closed_rtrancl:
  assumes "\<And>x y. x \<in> R \<Longrightarrow> (x, y) \<in> E \<Longrightarrow> y \<in> R" "A \<subseteq> R"
  shows "E\<^sup>* `` A \<subseteq> R"
proof
  fix y assume "y \<in> E\<^sup>* `` A"
  then obtain a where "a \<in> A" "(a, y) \<in> E\<^sup>*" by blast
  from this(2) show "y \<in> R" by induction (use assms \<open>a \<in> A\<close> in auto)
qed

text \<open>
  The searches of the compiler and of the synthesis are one loop over a queue, in which only
  the successors differ.  Nodes are added from a finite set, so the loop ends, and it visits
  what is reachable.
\<close>

locale worklist =
  fixes adj :: "string \<Rightarrow> string list" and S :: "string set"
    and loop :: "string list \<Rightarrow> string list \<Rightarrow> string list"
  assumes finite_targets: "finite S"
    and targets: "set (adj x) \<subseteq> S"
    and loop_Nil: "loop visited [] = visited"
    and loop_Cons: "visit_all (adj cur) visited queue = (v, q) \<Longrightarrow> loop visited (cur # queue) = loop v q"
begin

lemma loop_induct [case_names Nil Cons]:
  assumes "\<And>visited. P visited []"
    and "\<And>visited cur queue v q. visit_all (adj cur) visited queue = (v, q) \<Longrightarrow> P v q \<Longrightarrow> P visited (cur # queue)"
  shows "P visited queue"
proof (induction "(visited, queue)" arbitrary: visited queue
    rule: wf_induct_rule [OF wf_measures [of "[\<lambda>(visited, queue). card (S - set visited), \<lambda>(visited, queue). length queue]"]])
  case 1
  show ?case
  proof (cases queue)
    case Nil
    then show ?thesis using assms(1) by simp
  next
    case (Cons cur rest)
    obtain v q where vq: "visit_all (adj cur) visited rest = (v, q)" by fastforce
    obtain new where new: "q = rest @ new" "set v = set visited \<union> set new" "set new = set (adj cur) - set visited"
      using visit_all_length [OF vq] by blast
    have "P v q"
    proof (rule 1)
      show "((v, q), visited, queue) \<in> measures [\<lambda>(visited, queue). card (S - set visited), \<lambda>(visited, queue). length queue]"
      proof (cases "new = []")
        case True
        then show ?thesis using new Cons by simp
      next
        case False
        then obtain x where "x \<in> set new" by (cases new) auto
        then have "x \<in> S - set visited" "x \<notin> S - set v" using new targets [of cur] by auto
        then have "S - set v \<subset> S - set visited" using new by auto
        then have "card (S - set v) < card (S - set visited)" using finite_targets by (intro psubset_card_mono) auto
        then show ?thesis by simp
      qed
    qed
    then show ?thesis using assms(2) [OF vq] Cons by simp
  qed
qed

lemma loop_closed:
  assumes "frontier_ok adj visited queue"
  shows "set visited \<subseteq> set (loop visited queue) \<and>
    (\<forall>x \<in> set (loop visited queue). set (adj x) \<subseteq> set (loop visited queue))"
  using assms
proof (induction visited queue rule: loop_induct)
  case (Nil visited)
  then show ?case by (simp add: frontier_ok_def loop_Nil)
next
  case (Cons visited cur queue v q)
  note step = frontier_ok_step [OF Cons.prems Cons.hyps]
  show ?case using Cons.IH [OF step(1)] step(2) by (auto simp: loop_Cons [OF Cons.hyps])
qed

lemma loop_sound:
  assumes "set queue \<subseteq> set visited" "set visited \<subseteq> (edges adj)\<^sup>* `` A"
  shows "set (loop visited queue) \<subseteq> (edges adj)\<^sup>* `` A"
  using assms
proof (induction visited queue rule: loop_induct)
  case (Nil visited)
  then show ?case by (simp add: loop_Nil)
next
  case (Cons visited cur queue v q)
  obtain new where new: "q = queue @ new" "set v = set visited \<union> set new" "set new = set (adj cur) - set visited"
    using visit_all_length [OF Cons.hyps] by blast
  obtain a where a: "a \<in> A" "(a, cur) \<in> (edges adj)\<^sup>*" using Cons.prems by auto
  have "set new \<subseteq> (edges adj)\<^sup>* `` A"
  proof
    fix y assume "y \<in> set new"
    then have "(cur, y) \<in> edges adj" using new(3) by simp
    with a show "y \<in> (edges adj)\<^sup>* `` A" by (meson ImageI rtrancl.rtrancl_into_rtrancl)
  qed
  then have "set q \<subseteq> set v" "set v \<subseteq> (edges adj)\<^sup>* `` A" using Cons.prems new by auto
  then show ?case using Cons.IH by (simp add: loop_Cons [OF Cons.hyps])
qed

lemma loop_reachable:
  assumes "set queue = set visited"
  shows "set (loop visited queue) = (edges adj)\<^sup>* `` set visited"
proof
  show "set (loop visited queue) \<subseteq> (edges adj)\<^sup>* `` set visited"
    by (rule loop_sound) (use assms in auto)
  have "frontier_ok adj visited queue" using assms by (simp add: frontier_ok_def)
  from loop_closed [OF this] show "(edges adj)\<^sup>* `` set visited \<subseteq> set (loop visited queue)"
    by (intro closed_rtrancl) auto
qed

end

interpretation compiler_search: worklist "graph_adj stepIDs ts" "set stepIDs" "bfs stepIDs ts" for stepIDs ts
  by unfold_locales (auto simp: graph_adj_declared dest: subsetD [OF graph_adj_declared])

lemmas bfs_reachable = compiler_search.loop_reachable

section \<open>The search for cycles\<close>

text \<open>Finished steps lead to finished steps only, and there is no cycle among them.\<close>

definition black_ok :: "(string \<Rightarrow> string list) \<Rightarrow> (string \<Rightarrow> color) \<Rightarrow> bool" where
  "black_ok adj c \<longleftrightarrow> (\<forall>x. c x = Black \<longrightarrow> (\<forall>y \<in> set (adj x). c y = Black)) \<and>
     acyclic {(x, y). c x = Black \<and> y \<in> set (adj x)}"

definition advanced :: "(string \<Rightarrow> color) \<Rightarrow> (string \<Rightarrow> color) \<Rightarrow> bool" where
  "advanced c c1 \<longleftrightarrow> (\<forall>z. c1 z = Gray \<longleftrightarrow> c z = Gray) \<and> (\<forall>z. c z = Black \<longrightarrow> c1 z = Black)"

definition whites :: "string set \<Rightarrow> (string \<Rightarrow> color) \<Rightarrow> nat" where
  "whites S c = card {z \<in> S. c z = White}"

lemma advanced_refl [simp]: "advanced c c"
  by (simp add: advanced_def)

lemma advanced_trans: "advanced c c1 \<Longrightarrow> advanced c1 c2 \<Longrightarrow> advanced c c2"
  by (simp add: advanced_def)

lemma whites_advanced:
  assumes "finite S" "advanced c c1"
  shows "whites S c1 \<le> whites S c"
  unfolding whites_def
proof (intro card_mono)
  show "{z \<in> S. c1 z = White} \<subseteq> {z \<in> S. c z = White}"
  proof clarify
    fix z assume "c1 z = White"
    then have "c z \<noteq> Gray" "c z \<noteq> Black" using assms(2) by (auto simp: advanced_def) (metis color.distinct)+
    then show "c z = White" by (cases "c z") auto
  qed
qed (use assms in simp)

lemma whites_gray:
  assumes "finite S" "x \<in> S" "c x = White"
  shows "Suc (whites S (c(x := Gray))) = whites S c"
proof -
  have "{z \<in> S. c z = White} = insert x {z \<in> S. (c(x := Gray)) z = White}" using assms by auto
  then show ?thesis using assms(1) by (simp add: whites_def)
qed

lemma black_ok_finish:
  assumes "black_ok adj c" "c x \<noteq> Black" "\<forall>y \<in> set (adj x). c y = Black"
  shows "black_ok adj (c(x := Black))"
proof -
  let ?E = "{(u, y). c u = Black \<and> y \<in> set (adj u)}"
  have split: "{(u, y). (c(x := Black)) u = Black \<and> y \<in> set (adj u)} = ?E \<union> {x} \<times> set (adj x)"
    using assms(2) by (auto split: if_splits)
  have cyc: "acyclic ?E" and closed: "\<And>u y. c u = Black \<Longrightarrow> y \<in> set (adj u) \<Longrightarrow> c y = Black"
    using assms(1) by (auto simp: black_ok_def)
  have stay: "c v = Black" if "(u, v) \<in> (?E \<union> {x} \<times> set (adj x))\<^sup>+" for u v
    using that
  proof induction
    case (base y)
    then show ?case using closed assms(3) by auto
  next
    case (step y z)
    then show ?case using closed assms(3) by auto
  qed
  have inside: "(u, v) \<in> ?E\<^sup>+" if "(u, v) \<in> (?E \<union> {x} \<times> set (adj x))\<^sup>+" "c u = Black" for u v
    using that
  proof induction
    case (base y)
    then show ?case using assms(2) by auto
  next
    case (step y z)
    then have "c y = Black" using stay by blast
    then have "(y, z) \<in> ?E" using step(2) assms(2) by auto
    then show ?case using step by (meson trancl.trancl_into_trancl)
  qed
  have "acyclic (?E \<union> {x} \<times> set (adj x))"
  proof (rule acyclicI, rule allI, rule notI)
    fix u assume u: "(u, u) \<in> (?E \<union> {x} \<times> set (adj x))\<^sup>+"
    then have "(u, u) \<in> ?E\<^sup>+" using stay inside by blast
    then show False using cyc by (auto simp: acyclic_def)
  qed
  then show ?thesis using split closed assms(3) unfolding black_ok_def by auto
qed

text \<open>
  The contract of a call: the fuel covers the white steps and the gray ones lead to the
  current step.  Its promise: a back edge is a cycle, and otherwise everything visited is
  finished.
\<close>

definition has_loop :: "(string \<Rightarrow> string list) \<Rightarrow> bool" where
  "has_loop adj \<longleftrightarrow> (\<exists>z. (z, z) \<in> (edges adj)\<^sup>+)"

definition search_post ::
    "(string \<Rightarrow> string list) \<Rightarrow> (string \<Rightarrow> color) \<Rightarrow> string set \<Rightarrow> ((string \<Rightarrow> color) \<times> bool) option \<Rightarrow> bool" where
  "search_post adj c done res \<longleftrightarrow> (case res of
     None \<Rightarrow> False
   | Some (c1, True) \<Rightarrow> has_loop adj
   | Some (c1, False) \<Rightarrow> black_ok adj c1 \<and> (\<forall>y \<in> done. c1 y = Black) \<and> advanced c c1)"

lemma search_post_cases:
  assumes "search_post adj c done res"
  obtains (cycle) c1 where "res = Some (c1, True)" "has_loop adj"
    | (clean) c1 where "res = Some (c1, False)" "black_ok adj c1" "\<And>y. y \<in> done \<Longrightarrow> c1 y = Black" "advanced c c1"
  using assms by (auto simp: search_post_def split: option.splits prod.splits bool.splits)

lemma search_correct:
  shows "finite S \<Longrightarrow> (\<forall>z \<in> S. set (adj z) \<subseteq> S) \<Longrightarrow> c x = White \<Longrightarrow> x \<in> S \<Longrightarrow> whites S c \<le> n \<Longrightarrow> black_ok adj c \<Longrightarrow>
      (\<forall>g. c g = Gray \<longrightarrow> (g, x) \<in> (edges adj)\<^sup>+) \<Longrightarrow> search_post adj c {x} (dfs adj n c x)"
    and "finite S \<Longrightarrow> (\<forall>z \<in> S. set (adj z) \<subseteq> S) \<Longrightarrow> whites S c \<le> n \<Longrightarrow> black_ok adj c \<Longrightarrow>
      u \<in> S \<Longrightarrow> set ys \<subseteq> set (adj u) \<Longrightarrow> (\<forall>g. c g = Gray \<longrightarrow> (g, u) \<in> (edges adj)\<^sup>*) \<Longrightarrow>
      search_post adj c (set ys) (dfs_next adj n c ys)"
proof (induction adj n c x and adj n c ys arbitrary: and u rule: dfs_dfs_next.induct)
  case (1 adj c x)
  have "Suc (whites S (c(x := Gray))) = whites S c" by (rule whites_gray) (fact 1)+
  then show ?case using 1(5) by simp
next
  case (2 adj n c x)
  have fuel: "whites S (c(x := Gray)) \<le> n" using whites_gray [of S x c] 2(2,4,5,6) by simp
  have blk: "black_ok adj (c(x := Gray))"
    using 2(7,4) by (auto simp: black_ok_def elim!: acyclic_subset split: if_splits)
  have gray: "\<forall>g. (c(x := Gray)) g = Gray \<longrightarrow> (g, x) \<in> (edges adj)\<^sup>*"
    using 2(8) by (auto intro: trancl_into_rtrancl)
  have "search_post adj (c(x := Gray)) (set (adj x)) (dfs_next adj n (c(x := Gray)) (adj x))"
    by (rule 2(1) [OF 2(2,3) fuel blk 2(5) subset_refl gray])
  then show ?case
  proof (cases rule: search_post_cases)
    case (cycle c1)
    then show ?thesis by (simp add: search_post_def)
  next
    case (clean c1)
    then have "c1 x = Gray" by (auto simp: advanced_def)
    then have "black_ok adj (c1(x := Black))" using clean by (intro black_ok_finish) auto
    moreover have "advanced c (c1(x := Black))" using clean(4) 2(4) \<open>c1 x = Gray\<close>
      by (auto simp: advanced_def)
    ultimately show ?thesis using clean by (simp add: search_post_def)
  qed
next
  case (3 adj n c)
  then show ?case by (simp add: search_post_def)
next
  case (4 adj n c y ys)

  show ?case
  proof (cases "c y")
    case Gray
    then have "(y, u) \<in> (edges adj)\<^sup>*" "(u, y) \<in> edges adj" using 4 by auto
    then have "has_loop adj" unfolding has_loop_def by (meson rtrancl_into_trancl2 rtrancl_trancl_trancl trancl.r_into_trancl)
    then show ?thesis using Gray by (simp add: search_post_def)
  next
    case Black
    then have "search_post adj c (set ys) (dfs_next adj n c ys)" using 4 by auto
    then show ?thesis using Black by (cases rule: search_post_cases) (auto simp: search_post_def advanced_def)
  next
    case White
    have "y \<in> S" using 4 by auto
    have "(g, y) \<in> (edges adj)\<^sup>+" if "c g = Gray" for g
      using 4 that by (intro rtrancl_into_trancl1 [of _ u]) auto
    then have "search_post adj c {y} (dfs adj n c y)" using 4 White \<open>y \<in> S\<close> by auto
    then show ?thesis
    proof (cases rule: search_post_cases)
      case (cycle c1)
      then show ?thesis using White by (simp add: search_post_def)
    next
      case (clean c1)
      have "whites S c1 \<le> n" using whites_advanced [OF 4(4) clean(4)] 4(6) by simp
      have "\<forall>g. c1 g = Gray \<longrightarrow> (g, u) \<in> (edges adj)\<^sup>*" "set ys \<subseteq> set (adj u)"
        using 4(9,10) clean(4) by (auto simp: advanced_def)
      then have "search_post adj c1 (set ys) (dfs_next adj n c1 ys)"
        by (intro 4(2) [OF White clean(1) refl refl 4(4,5) \<open>whites S c1 \<le> n\<close> clean(2) 4(8)])
      then show ?thesis
      proof (cases rule: search_post_cases)
        case (cycle c2)
        then show ?thesis using White clean by (simp add: search_post_def)
      next
        case rest: (clean c2)
        have "c2 y = Black" using clean(3) rest(4) by (auto simp: advanced_def)
        then show ?thesis using White clean rest advanced_trans [OF clean(4) rest(4)]
          by (auto simp: search_post_def)
      qed
    qed
  qed
qed

text \<open>The loop over the steps, from a state with no step in progress.\<close>

lemma has_cycle_correct:
  assumes "finite S" "\<And>z. z \<in> S \<Longrightarrow> set (adj z) \<subseteq> S"
  shows "set xs \<subseteq> S \<Longrightarrow> whites S c \<le> n \<Longrightarrow> black_ok adj c \<Longrightarrow> (\<And>g. c g \<noteq> Gray) \<Longrightarrow>
    (has_cycle adj n c xs = Some True \<and> has_loop adj) \<or>
    (has_cycle adj n c xs = Some False \<and>
      (\<exists>c1. black_ok adj c1 \<and> (\<forall>x \<in> set xs. c1 x = Black) \<and> (\<forall>z. c z = Black \<longrightarrow> c1 z = Black)))"
proof (induction xs arbitrary: c)
  case Nil
  then show ?case by auto
next
  case (Cons x xs)
  show ?case
  proof (cases "c x = White")
    case False
    then have "c x = Black" using Cons.prems(4) by (cases "c x") auto
    have "set xs \<subseteq> S" using Cons.prems(1) by simp
    from Cons.IH [OF this Cons.prems(2,3,4)] show ?thesis using \<open>c x = Black\<close> by auto
  next
    case True
    have "search_post adj c {x} (dfs adj n c x)"
      by (rule search_correct(1) [OF assms(1)]) (use assms(2) Cons.prems True in simp_all)
    then show ?thesis
    proof (cases rule: search_post_cases)
      case (cycle c1)
      then show ?thesis using True by simp
    next
      case (clean c1)
      have "whites S c1 \<le> n" using whites_advanced [OF assms(1) clean(4)] Cons.prems(2) by simp
      moreover have "\<And>g. c1 g \<noteq> Gray" using clean(4) Cons.prems(4) by (simp add: advanced_def)
      ultimately have "(has_cycle adj n c1 xs = Some True \<and> has_loop adj) \<or> (has_cycle adj n c1 xs = Some False \<and>
          (\<exists>c2. black_ok adj c2 \<and> (\<forall>x \<in> set xs. c2 x = Black) \<and> (\<forall>z. c1 z = Black \<longrightarrow> c2 z = Black)))"
        using Cons.IH [OF _ _ clean(2)] Cons.prems(1) by simp
      then show ?thesis using True clean(1,3,4) by (auto simp: advanced_def)
    qed
  qed
qed

lemma has_cycle_iff:
  assumes "finite S" "\<And>z. z \<in> S \<Longrightarrow> set (adj z) \<subseteq> S" "\<And>z. z \<notin> S \<Longrightarrow> adj z = []" "set xs = S" "card S \<le> n"
  shows "has_cycle adj n (\<lambda>_. White) xs = Some (\<not> acyclic (edges adj))"
proof -
  have start: "whites S (\<lambda>_. White) \<le> n" "black_ok adj (\<lambda>_. White)"
    using assms(5) by (auto simp: whites_def black_ok_def acyclic_def)
  from has_cycle_correct [OF assms(1,2) _ start, of xs] assms(4)
  consider "has_cycle adj n (\<lambda>_. White) xs = Some True" "has_loop adj"
    | c1 where "has_cycle adj n (\<lambda>_. White) xs = Some False" "black_ok adj c1" "\<forall>x \<in> S. c1 x = Black" by auto
  then show ?thesis
  proof cases
    case 1
    then show ?thesis by (auto simp: has_loop_def acyclic_def)
  next
    case 2
    have "edges adj \<subseteq> {(x, y). c1 x = Black \<and> y \<in> set (adj x)}"
      using 2(3) assms(3) by (auto simp: edges_def)
    then have "acyclic (edges adj)" using 2(2) acyclic_subset unfolding black_ok_def by blast
    then show ?thesis using 2(1) by simp
  qed
qed

end
