(* ===== verification/Wfd_Laws.thy ===== *)
theory Wfd_Laws
  imports Wfd_Graph Wfd_Validate Wfd_Match
begin

text \<open>
  Facts about the matcher and the compiler that the properties rest on: which transitions
  hit, when a hit is the most specific one, and what an admitted definition satisfies.
\<close>

section \<open>Hits\<close>

definition satisfies :: "string \<Rightarrow> outputs \<Rightarrow> MatchCriteria \<Rightarrow> bool" where
  "satisfies status output c \<longleftrightarrow> mc_Status c = status \<and>
     (\<forall>(k, v) \<in> set (mc_Output c). \<exists>raw. map_of output k = Some raw \<and> scalarString raw = Some v)"

definition hits_at :: "string \<Rightarrow> string \<Rightarrow> outputs \<Rightarrow> Transition list \<Rightarrow> nat \<Rightarrow> bool" where
  "hits_at fromStep status output ts i \<longleftrightarrow>
     i < length ts \<and> tn_From (ts ! i) = fromStep \<and> satisfies status output (tn_Match (ts ! i))"

lemma match_outputs_iff:
  "match_outputs output cs sel \<noteq> None \<longleftrightarrow>
     (\<forall>(k, v) \<in> set cs. \<exists>raw. map_of output k = Some raw \<and> scalarString raw = Some v)"
  by (induction "output" cs sel rule: match_outputs.induct) (auto split: option.splits)

lemma matchOne_iff: "matchOne status output c \<noteq> None \<longleftrightarrow> satisfies status output c"
  using match_outputs_iff [of "output" "mc_Output c"] by (simp add: matchOne_def satisfies_def)

definition candidate :: "(MatchCriteria \<Rightarrow> string) \<Rightarrow> string \<Rightarrow> outputs \<Rightarrow> nat \<Rightarrow> Transition \<Rightarrow> matchCandidate" where
  "candidate dig status output i tr =
     \<lparr>ca_index = i, ca_tr = tr, ca_sel = the (matchOne status output (tn_Match tr)), ca_digest = dig (tn_Match tr)\<rparr>"

lemma match_hits_eq:
  "match_hits dig fromStep status output i ts =
     map (\<lambda>k. candidate dig status output k (ts ! (k - i)))
       (filter (\<lambda>k. hits_at fromStep status output ts (k - i)) [i..<i + length ts])"
proof (induction ts arbitrary: i)
  case Nil
  then show ?case by simp
next
  case (Cons tr ts)
  have shift: "map (\<lambda>k. candidate dig status output k (ts ! (k - Suc i)))
       (filter (\<lambda>k. hits_at fromStep status output ts (k - Suc i)) [Suc i..<i + length (tr # ts)]) =
     map (\<lambda>k. candidate dig status output k ((tr # ts) ! (k - i)))
       (filter (\<lambda>k. hits_at fromStep status output (tr # ts) (k - i)) [Suc i..<i + length (tr # ts)])"
    by (intro map_cong filter_cong) (auto simp: hits_at_def nth_Cons' Suc_le_eq)
  have head: "hits_at fromStep status output (tr # ts) (i - i) \<longleftrightarrow>
      tn_From tr = fromStep \<and> matchOne status output (tn_Match tr) \<noteq> None"
    unfolding matchOne_iff by (simp add: hits_at_def)
  have "[i..<i + length (tr # ts)] = i # [Suc i..<i + length (tr # ts)]" by (simp add: upt_rec)
  then show ?case using Cons.IH [of "Suc i"] shift head
    by (auto simp: candidate_def split: option.splits)
qed

text \<open>The indices that hit, and the criteria of one of them.\<close>

definition hit_list :: "string \<Rightarrow> string \<Rightarrow> outputs \<Rightarrow> Transition list \<Rightarrow> nat list" where
  "hit_list fromStep status output ts = filter (hits_at fromStep status output ts) [0..<length ts]"

definition crit :: "Transition list \<Rightarrow> nat \<Rightarrow> (string \<times> string) list" where
  "crit ts i = mc_Output (tn_Match (ts ! i))"

lemma match_hits_0:
  "match_hits dig fromStep status output 0 ts =
     map (\<lambda>k. candidate dig status output k (ts ! k)) (hit_list fromStep status output ts)"
  by (simp add: match_hits_eq hit_list_def)

lemma set_hit_list: "set (hit_list fromStep status output ts) = {i. hits_at fromStep status output ts i}"
  by (auto simp: hit_list_def hits_at_def)

lemma distinct_hit_list [simp]: "distinct (hit_list fromStep status output ts)"
  by (simp add: hit_list_def)

section \<open>The most specific hit\<close>

lemma most_specific_spec:
  "most_specific hits is best =
     (case best of
        None \<Rightarrow> (case filter (refines_all hits) is of [i] \<Rightarrow> Some (hits ! i) | _ \<Rightarrow> None)
      | Some b \<Rightarrow> (case filter (refines_all hits) is of [] \<Rightarrow> Some b | _ \<Rightarrow> None))"
  by (induction hits "is" best rule: most_specific.induct) (auto split: option.splits list.splits)

definition refining :: "string \<Rightarrow> string \<Rightarrow> outputs \<Rightarrow> Transition list \<Rightarrow> nat \<Rightarrow> bool" where
  "refining fromStep status output ts i \<longleftrightarrow> hits_at fromStep status output ts i \<and>
     (\<forall>j. hits_at fromStep status output ts j \<longrightarrow> j \<noteq> i \<longrightarrow> outputSupersets (crit ts i) (crit ts j))"

lemma refines_all_hit:
  assumes "hs = hit_list fromStep status output ts" "p < length hs"
  shows "refines_all (map (\<lambda>k. candidate dig status output k (ts ! k)) hs) p \<longleftrightarrow> refining fromStep status output ts (hs ! p)"
proof -
  have d: "distinct hs" and s: "set hs = {i. hits_at fromStep status output ts i}"
    using assms(1) set_hit_list by auto
  have "(\<forall>q < length hs. q = p \<or> outputSupersets (crit ts (hs ! p)) (crit ts (hs ! q))) \<longleftrightarrow>
      (\<forall>j \<in> set hs. j \<noteq> hs ! p \<longrightarrow> outputSupersets (crit ts (hs ! p)) (crit ts j))"
    using d assms(2) by (metis in_set_conv_nth nth_eq_iff_index_eq)
  moreover have "hs ! p \<in> set hs" using assms(2) by simp
  ultimately show ?thesis using s assms(2)
    by (simp add: refines_all_def list_all_iff Ball_def candidate_output_def candidate_def crit_def refining_def)
qed

lemma distinct_set_singleton: "distinct xs \<Longrightarrow> set xs = {p} \<Longrightarrow> xs = [p]"
proof (cases xs)
  case (Cons x ys)
  assume "distinct xs" "set xs = {p}"
  then show ?thesis using Cons by (cases ys) auto
qed simp

lemma filter_singleton_index:
  "filter P [0..<n] = [p] \<longleftrightarrow> p < n \<and> P p \<and> (\<forall>q < n. P q \<longrightarrow> q = p)"
proof
  assume f: "filter P [0..<n] = [p]"
  have "set (filter P [0..<n]) = {q. q < n \<and> P q}" by auto
  with f have "{q. q < n \<and> P q} = {p}" by simp
  then show "p < n \<and> P p \<and> (\<forall>q < n. P q \<longrightarrow> q = p)" by blast
next
  assume p: "p < n \<and> P p \<and> (\<forall>q < n. P q \<longrightarrow> q = p)"
  show "filter P [0..<n] = [p]" by (rule distinct_set_singleton) (use p in auto)
qed

text \<open>A hit that refines all others, and is the only one that does.\<close>

definition most_specific_hit :: "string \<Rightarrow> string \<Rightarrow> outputs \<Rightarrow> Transition list \<Rightarrow> nat \<Rightarrow> bool" where
  "most_specific_hit fromStep status output ts i \<longleftrightarrow> refining fromStep status output ts i \<and>
     (\<forall>j. refining fromStep status output ts j \<longrightarrow> j = i)"

lemma selectMostSpecific_iff:
  assumes "hs = hit_list fromStep status output ts"
  shows "selectMostSpecific (map (\<lambda>k. candidate dig status output k (ts ! k)) hs) = Some h \<longleftrightarrow>
    (\<exists>i. most_specific_hit fromStep status output ts i \<and> h = candidate dig status output i (ts ! i))"
proof -
  let ?cs = "map (\<lambda>k. candidate dig status output k (ts ! k)) hs"
  let ?R = "refining fromStep status output ts"
  have d: "distinct hs" and s: "set hs = {i. hits_at fromStep status output ts i}" using assms set_hit_list by auto
  have flt: "filter (refines_all ?cs) [0..<length ?cs] = filter (\<lambda>p. ?R (hs ! p)) [0..<length hs]"
    by (rule filter_cong) (auto simp: refines_all_hit [OF assms])
  have "selectMostSpecific ?cs = Some h \<longleftrightarrow>
      (\<exists>p. filter (\<lambda>p. ?R (hs ! p)) [0..<length hs] = [p] \<and> ?cs ! p = h)"
    unfolding selectMostSpecific_def most_specific_spec flt by (auto split: list.splits)
  also have "\<dots> \<longleftrightarrow> (\<exists>p < length hs. ?R (hs ! p) \<and> (\<forall>q < length hs. ?R (hs ! q) \<longrightarrow> q = p) \<and>
      h = candidate dig status output (hs ! p) (ts ! (hs ! p)))"
    unfolding filter_singleton_index by (intro ex_cong1) (metis nth_map)
  also have "\<dots> \<longleftrightarrow> (\<exists>i \<in> set hs. ?R i \<and> (\<forall>j \<in> set hs. ?R j \<longrightarrow> j = i) \<and> h = candidate dig status output i (ts ! i))"
    (is "?L = ?M")
  proof
    assume ?L
    then obtain p where "p < length hs" "?R (hs ! p)" "\<forall>q < length hs. ?R (hs ! q) \<longrightarrow> q = p"
      "h = candidate dig status output (hs ! p) (ts ! (hs ! p))" by blast
    moreover from this(3) have "\<forall>j \<in> set hs. ?R j \<longrightarrow> j = hs ! p" by (metis in_set_conv_nth)
    moreover have "hs ! p \<in> set hs" using \<open>p < length hs\<close> by (rule nth_mem)
    ultimately show ?M by blast
  next
    assume ?M
    then obtain i where i: "i \<in> set hs" "?R i" "\<forall>j \<in> set hs. ?R j \<longrightarrow> j = i" "h = candidate dig status output i (ts ! i)"
      by blast
    then obtain p where p: "p < length hs" "hs ! p = i" by (metis in_set_conv_nth)
    then have "\<forall>q < length hs. ?R (hs ! q) \<longrightarrow> q = p" using i d nth_eq_iff_index_eq nth_mem by metis
    with p i show ?L by blast
  qed
  also have "\<dots> \<longleftrightarrow> (\<exists>i. most_specific_hit fromStep status output ts i \<and> h = candidate dig status output i (ts ! i))"
  proof -
    have "\<And>j. ?R j \<Longrightarrow> j \<in> set hs" using s by (simp add: refining_def)
    then show ?thesis unfolding most_specific_hit_def by blast
  qed
  finally show ?thesis .
qed

lemma list_cases_3:
  obtains "xs = []" | x where "xs = [x]" | x y zs where "xs = x # y # zs"
  by (cases xs rule: remdups_adj.cases) auto

text \<open>The whole of Match on a step and a status that are not blank.\<close>

definition no_match :: "string \<Rightarrow> string \<Rightarrow> nat list \<Rightarrow> Decision \<times> match_error option" where
  "no_match fromStep status hs =
     (if hs = [] then (failDecision ''zero_match'' [(''status'', status)], Some (MZeroMatch fromStep status))
      else (failDecision ''multi_match'' [(''status'', status)], Some (MMultiMatch fromStep hs)))"

lemma Match_eq:
  assumes "TrimSpace fromStep \<noteq> []" "TrimSpace status \<noteq> []"
  shows "most_specific_hit fromStep status output ts i \<Longrightarrow>
      Match dig fromStep status output ts = (decide (candidate dig status output i (ts ! i)), None)"
    and "\<nexists>i. most_specific_hit fromStep status output ts i \<Longrightarrow>
      Match dig fromStep status output ts = no_match fromStep status (hit_list fromStep status output ts)"
proof -
  let ?hs = "hit_list fromStep status output ts"
  let ?cs = "map (\<lambda>k. candidate dig status output k (ts ! k)) ?hs"
  have eq: "Match dig fromStep status output ts = (case ?cs of
      [] \<Rightarrow> (failDecision ''zero_match'' [(''status'', status)], Some (MZeroMatch fromStep status))
    | [h] \<Rightarrow> (decide h, None)
    | _ \<Rightarrow> (case selectMostSpecific ?cs of Some best \<Rightarrow> (decide best, None)
        | None \<Rightarrow> (failDecision ''multi_match'' [(''status'', status)], Some (MMultiMatch fromStep (map ca_index ?cs)))))"
  proof -
    have "match_hits dig fromStep status output 0 ts = ?cs" by (rule match_hits_0)
    then show ?thesis using assms unfolding Match_def by (cases ?cs rule: list_cases_3) (simp_all split: option.split)
  qed
  have idx: "map ca_index ?cs = ?hs" by (simp add: comp_def candidate_def)
  have single: "most_specific_hit fromStep status output ts k \<longleftrightarrow> k = h" if "?hs = [h]" for h k
  proof -
    have "hits_at fromStep status output ts j \<longleftrightarrow> j = h" for j using set_hit_list [of fromStep status "output" ts] that by auto
    then show ?thesis by (auto simp: most_specific_hit_def refining_def)
  qed
  have none: "?hs \<noteq> []" if "most_specific_hit fromStep status output ts k" for k
    using that set_hit_list [of fromStep status "output" ts] by (auto simp: most_specific_hit_def refining_def)
  note sel = selectMostSpecific_iff [OF refl, of dig status "output" ts fromStep]
  show "most_specific_hit fromStep status output ts i \<Longrightarrow>
      Match dig fromStep status output ts = (decide (candidate dig status output i (ts ! i)), None)"
  proof -
    assume i: "most_specific_hit fromStep status output ts i"
    then have best: "selectMostSpecific ?cs = Some (candidate dig status output i (ts ! i))" using sel by blast
    show ?thesis
    proof (cases ?hs)
      case Nil
      then show ?thesis using none i by blast
    next
      case (Cons h t)
      show ?thesis
      proof (cases t)
        case Nil
        then show ?thesis using eq single [of h i] i Cons by simp
      next
        case (Cons h2 t2)
        then show ?thesis using eq best \<open>?hs = h # t\<close> by simp
      qed
    qed
  qed
  show "\<nexists>i. most_specific_hit fromStep status output ts i \<Longrightarrow>
      Match dig fromStep status output ts = no_match fromStep status ?hs"
  proof -
    assume no: "\<nexists>i. most_specific_hit fromStep status output ts i"
    then have none: "selectMostSpecific ?cs = None" using sel by (cases "selectMostSpecific ?cs") blast+
    show ?thesis
    proof (cases ?hs)
      case Nil
      then show ?thesis using eq by (simp add: no_match_def)
    next
      case (Cons h t)
      show ?thesis
      proof (cases t)
        case Nil
        then show ?thesis using single [of h h] no Cons by blast
      next
        case (Cons h2 t2)
        then show ?thesis using eq none idx \<open>?hs = h # t\<close> by (simp add: no_match_def)
      qed
    qed
  qed
qed

text \<open>A selected transition leaves the step, fits the outcome, and gives the decision its route.\<close>

lemma Match_selects:
  assumes "Match dig fromStep status output ts = (d, None)"
  obtains t where "t \<in> set ts" "tn_From t = fromStep" "mc_Status (tn_Match t) = status"
    "de_ToStepID d = tn_To t" "de_Loop d = tn_Loop t" "de_MaxIterations d = tn_MaxIterations t"
    "de_PartialTarget d = tn_PartialTarget t"
proof -
  have ne: "TrimSpace fromStep \<noteq> []" "TrimSpace status \<noteq> []"
    using assms by (auto simp: Match_def split: if_splits)
  have "\<exists>i. most_specific_hit fromStep status output ts i"
  proof (rule ccontr)
    assume no: "\<nexists>i. most_specific_hit fromStep status output ts i"
    show False using assms unfolding Match_eq(2) [OF ne no] by (simp add: no_match_def split: if_splits list.splits)
  qed
  then obtain i where i: "most_specific_hit fromStep status output ts i" by blast
  then have "i < length ts" "tn_From (ts ! i) = fromStep" "mc_Status (tn_Match (ts ! i)) = status"
    by (auto simp: most_specific_hit_def refining_def hits_at_def satisfies_def)
  moreover have "d = decide (candidate dig status output i (ts ! i))" using assms Match_eq(1) [OF ne i] by simp
  ultimately show thesis using that [of "ts ! i"] by (simp add: decide_def candidate_def)
qed

section \<open>Admitted transitions\<close>

text \<open>The order of a map loop lists the keys of the map.\<close>

definition order_ok :: "map_order \<Rightarrow> bool" where
  "order_ok ord \<longleftrightarrow> (\<forall>n ks. mset (ord n ks) = mset ks)"

lemma order_ok_set: "order_ok ord \<Longrightarrow> set (ord n ks) = set ks"
  by (metis order_ok_def set_mset_mset)

lemma hazards_Nil:
  assumes "hazards from ts = []" "i < j" "j < length ts"
  shows "\<not> transitionCriteriaHazard (tn_Match (ts ! i)) (tn_Match (ts ! j))"
  using assms
proof (induction "from" ts arbitrary: i j rule: hazards.induct)
  case (2 "from" ti ts)
  then show ?case
    by (cases i; cases j) (auto simp: filter_empty_conv)
qed simp

lemma filter_nth_pair:
  assumes "i < j" "j < length xs" "P (xs ! i)" "P (xs ! j)"
  shows "\<exists>i' j'. i' < j' \<and> j' < length (filter P xs) \<and> filter P xs ! i' = xs ! i \<and> filter P xs ! j' = xs ! j"
proof -
  let ?a = "filter P (take i xs)" and ?b = "filter P (take (j - Suc i) (drop (Suc i) xs))"
  have "xs = take i xs @ xs ! i # drop (Suc i) xs" using assms by (simp add: id_take_nth_drop)
  moreover have "drop (Suc i) xs = take (j - Suc i) (drop (Suc i) xs) @ xs ! j # drop (Suc j) xs"
    using assms id_take_nth_drop [of "j - Suc i" "drop (Suc i) xs"] by simp
  ultimately have "filter P xs = ?a @ xs ! i # ?b @ xs ! j # filter P (drop (Suc j) xs)"
    using assms(3,4) by (metis filter.simps(2) filter_append)
  then show ?thesis
    by (intro exI [of _ "length ?a"] exI [of _ "length ?a + Suc (length ?b)"]) (simp add: nth_append)
qed

lemma no_hazard_between_hits:
  assumes "validateTransitions ord wfl stepIDs skip = []" "order_ok ord" "i < j" "j < length (wd_Transitions wfl)"
    "tn_From (wd_Transitions wfl ! i) = tn_From (wd_Transitions wfl ! j)"
  shows "\<not> transitionCriteriaHazard (tn_Match (wd_Transitions wfl ! i)) (tn_Match (wd_Transitions wfl ! j))"
proof -
  let ?ts = "wd_Transitions wfl" and ?f = "tn_From (wd_Transitions wfl ! j)"
  have "hazards f (filter (\<lambda>t. tn_From t = f) ?ts) = []" if "f \<in> set (ord 0 (remdups (map tn_From ?ts)))" for f
    using assms(1) that by (simp add: validateTransitions_def Let_def)
  moreover have "?f \<in> set (ord 0 (remdups (map tn_From ?ts)))"
    using order_ok_set [OF assms(2)] assms(4) by auto
  ultimately have "hazards ?f (filter (\<lambda>t. tn_From t = ?f) ?ts) = []" by blast
  with filter_nth_pair [of i j ?ts "\<lambda>t. tn_From t = ?f"] assms(3-5) show ?thesis
    using hazards_Nil by metis
qed

lemma satisfies_overlap:
  assumes "satisfies status output a" "satisfies status output b"
  shows "transitionCriteriaOverlap a b"
proof -
  have "\<forall>bv. map_of (mc_Output b) k = Some bv \<longrightarrow> bv = av" if "(k, av) \<in> set (mc_Output a)" for k av
    using assms that by (fastforce simp: satisfies_def dest: map_of_SomeD)
  then show ?thesis using assms
    by (auto simp: transitionCriteriaOverlap_def satisfies_def list_all_iff split: option.splits)
qed

lemma strict_outputSupersets: "strictOutputSuperset x y \<Longrightarrow> outputSupersets x y"
  by (auto simp: strictOutputSuperset_def outputSupersets_def lookup_str_def list_all_iff list_ex_iff)

lemma not_outputSupersets_shorter: "length x < length y \<Longrightarrow> \<not> outputSupersets x y"
  by (simp add: outputSupersets_def)

text \<open>Two hits of an admitted definition are comparable, so the longest one wins.\<close>

lemma admitted_has_most_specific:
  assumes v: "validateTransitions ord wfl stepIDs skip = []" "order_ok ord"
    and hit: "hits_at fromStep status output (wd_Transitions wfl) k"
  shows "\<exists>i. most_specific_hit fromStep status output (wd_Transitions wfl) i"
proof -
  let ?ts = "wd_Transitions wfl"
  let ?H = "{i. hits_at fromStep status output ?ts i}"
  have comparable: "strictOutputSuperset (crit ?ts i) (crit ?ts j) \<or> strictOutputSuperset (crit ?ts j) (crit ?ts i)"
    if "i \<in> ?H" "j \<in> ?H" "i \<noteq> j" for i j
  proof -
    have "\<not> transitionCriteriaHazard (tn_Match (?ts ! min i j)) (tn_Match (?ts ! max i j))"
      by (rule no_hazard_between_hits [OF v]) (use that in \<open>auto simp: hits_at_def min_def max_def\<close>)
    moreover have "transitionCriteriaOverlap (tn_Match (?ts ! min i j)) (tn_Match (?ts ! max i j))"
      by (rule satisfies_overlap) (use that in \<open>auto simp: hits_at_def min_def max_def\<close>)
    ultimately show ?thesis by (auto simp: transitionCriteriaHazard_def crit_def min_def max_def split: if_splits)
  qed
  have "finite ?H" by (rule finite_subset [of _ "{..<length ?ts}"]) (auto simp: hits_at_def)
  then have fin: "finite ((\<lambda>i. length (crit ?ts i)) ` ?H)" by simp
  have "Max ((\<lambda>i. length (crit ?ts i)) ` ?H) \<in> (\<lambda>i. length (crit ?ts i)) ` ?H"
    by (rule Max_in [OF fin]) (use hit in auto)
  then obtain m where m: "m \<in> ?H" "\<And>j. j \<in> ?H \<Longrightarrow> length (crit ?ts j) \<le> length (crit ?ts m)"
    using Max_ge [OF fin] by (metis (no_types, lifting) imageE imageI)
  have better: "strictOutputSuperset (crit ?ts m) (crit ?ts j)" if "j \<in> ?H" "j \<noteq> m" for j
    using comparable [OF m(1) that(1)] that(2) m(2) [OF that(1)] by (auto simp: strictOutputSuperset_def)
  have "refining fromStep status output ?ts m"
    using m(1) better strict_outputSupersets by (auto simp: refining_def)
  moreover have "j = m" if "refining fromStep status output ?ts j" for j
  proof (rule ccontr)
    assume "j \<noteq> m"
    then have "outputSupersets (crit ?ts j) (crit ?ts m)" "strictOutputSuperset (crit ?ts m) (crit ?ts j)"
      using that m(1) better by (auto simp: refining_def)
    then show False using not_outputSupersets_shorter by (auto simp: strictOutputSuperset_def)
  qed
  ultimately show ?thesis by (auto simp: most_specific_hit_def)
qed

section \<open>The step graph of a definition\<close>

text \<open>
  The routes a run can take: the target of a transition and the escape of an exhausted loop,
  where they name declared steps.  A run enters at the initial step or, when an active
  delivery fails, at a repair step.
\<close>

definition route_edges :: "WorkflowFile \<Rightarrow> (string \<times> string) set" where
  "route_edges wfl = {(x, y). \<exists>t \<in> set (wd_Transitions wfl). tn_From t = x \<and> y \<in> set (step_ids wfl) \<and>
     (y = tn_To t \<or> y = tn_PartialTarget t \<and> y \<noteq> [])}"

definition entry_steps :: "WorkflowFile \<Rightarrow> string set" where
  "entry_steps wfl = insert (wd_InitialStep wfl) (case wd_Delivery wfl of
     None \<Rightarrow> {}
   | Some d \<Rightarrow> if deliveryActive (Some d) then {x \<in> set (delivery_targets d). x \<noteq> [] \<and> x \<in> set (step_ids wfl)} else {})"

text \<open>The routes that no finite loop bound limits, as the compiler reads them.\<close>

definition uncapped_edges :: "WorkflowFile \<Rightarrow> (string \<times> string) set" where
  "uncapped_edges wfl = {(x, y). \<exists>t \<in> set (wd_Transitions wfl). tn_From t = x \<and> x \<in> set (step_ids wfl) \<and>
     tn_To t \<in> set (step_ids wfl) \<and> \<not> (tn_Loop t \<noteq> [] \<and> tn_MaxIterations t > 0) \<and> y \<in> set (step_ids wfl) \<and>
     (y = tn_To t \<or> y = tn_PartialTarget t \<and> y \<noteq> [])}"

lemma edges_graph_adj: "edges (graph_adj (step_ids wfl) (wd_Transitions wfl)) = route_edges wfl"
  by (auto simp: edges_def graph_adj_def route_edges_def split: if_splits)

lemma edges_cycle_adj: "edges (cycle_adj (step_ids wfl) (wd_Transitions wfl)) = uncapped_edges wfl"
  by (auto simp: edges_def cycle_adj_def uncapped_edges_def split: if_splits)

lemma visited_steps_reachable: "set (visited_steps wfl (step_ids wfl)) = (route_edges wfl)\<^sup>* `` entry_steps wfl"
proof -
  obtain v q where vq: "seedDeliveryTargets wfl (step_ids wfl) [wd_InitialStep wfl] [wd_InitialStep wfl] = (v, q)"
    by fastforce
  have "set q = set v \<and> set v = entry_steps wfl"
  proof (cases "wd_Delivery wfl")
    case None
    then show ?thesis using vq by (auto simp: seedDeliveryTargets_def entry_steps_def)
  next
    case (Some d)
    show ?thesis
    proof (cases "deliveryActive (Some d)")
      case False
      then show ?thesis using Some vq by (auto simp: seedDeliveryTargets_def entry_steps_def)
    next
      case True
      let ?xs = "filter (\<lambda>target. target \<noteq> [] \<and> target \<in> set (step_ids wfl)) (delivery_targets d)"
      have "visit_all ?xs [wd_InitialStep wfl] [wd_InitialStep wfl] = (v, q)"
        using vq Some True by (simp add: seedDeliveryTargets_def delivery_targets_def)
      from visit_all_length [OF this] obtain new where new: "q = [wd_InitialStep wfl] @ new"
        "set v = set [wd_InitialStep wfl] \<union> set new" "set new = set ?xs - set [wd_InitialStep wfl]" by blast
      have "entry_steps wfl = insert (wd_InitialStep wfl) (set ?xs)" using Some True by (simp add: entry_steps_def)
      then show ?thesis using new by auto
    qed
  qed
  then show ?thesis using bfs_reachable [of q v "step_ids wfl" "wd_Transitions wfl"] vq
    by (simp add: visited_steps_def edges_graph_adj)
qed

lemma validateCycles_eq:
  assumes "order_ok ord"
  shows "validateCycles ord wfl =
    Some (if acyclic (uncapped_edges wfl) \<or> lm_MaxStepAttempts (wd_Limits wfl) > 0 \<or>
             lm_MaxDurationSeconds (wd_Limits wfl) > 0 then [] else [EUnboundedCycle])"
proof -
  let ?adj = "cycle_adj (step_ids wfl) (wd_Transitions wfl)"
  have "has_cycle ?adj (length (step_ids wfl)) (\<lambda>_. White) (ord 3 (step_ids wfl)) = Some (\<not> acyclic (edges ?adj))"
  proof (rule has_cycle_iff)
    show "finite (set (step_ids wfl))" by simp
    show "set (?adj z) \<subseteq> set (step_ids wfl)" for z by (auto simp: cycle_adj_def split: if_splits)
    show "z \<notin> set (step_ids wfl) \<Longrightarrow> ?adj z = []" for z by (auto simp: cycle_adj_def)
    show "set (ord 3 (step_ids wfl)) = set (step_ids wfl)" by (rule order_ok_set [OF assms])
    show "card (set (step_ids wfl)) \<le> length (step_ids wfl)" by (rule card_length)
  qed
  then show ?thesis by (simp add: validateCycles_def edges_cycle_adj Let_def)
qed

section \<open>What an accepted definition satisfies\<close>

text \<open>The compiled workflow of an accepted definition.\<close>

definition compiled :: "(WorkflowFile \<Rightarrow> string) \<Rightarrow> WorkflowFile \<Rightarrow> CompiledWorkflow" where
  "compiled dig wfl = \<lparr>cw_Name = wd_Name wfl, cw_Version = wd_Version wfl, cw_InitialStep = wd_InitialStep wfl,
      cw_Inputs = wd_Inputs wfl, cw_Limits = wd_Limits wfl, cw_Steps = wd_Steps wfl,
      cw_Transitions = wd_Transitions wfl, cw_Delivery = wd_Delivery wfl, cw_Digest = dig wfl,
      cw_Stacking = (case wd_Stacking wfl of None \<Rightarrow> None
        | Some s \<Rightarrow> if StackingEnabled (Some s) \<and> sk_PlanStep s \<noteq> [] \<and> sk_ImplementStep s \<noteq> []
            then Some (EffectiveStacking (sk_PlanStep s) (sk_ImplementStep s) (Some s)) else None),
      cw_StepIDs = step_ids wfl,
      cw_LoopNames = remdups (map tn_Loop (named_loops (wd_Transitions wfl)))\<rparr>"

lemma compile_accepts_iff:
  "compile dig ord wfl skip = Some (Inr cw) \<longleftrightarrow> validateWorkflow ord wfl skip = Some [] \<and> cw = compiled dig wfl"
  by (auto simp: compile_def compiled_def split: option.splits if_splits)

lemma compile_total:
  assumes "order_ok ord"
  shows "compile dig ord wfl skip \<noteq> None"
  by (simp add: compile_def validateWorkflow_def validateCycles_eq [OF assms] Let_def)

lemma validateWorkflow_Nil_iff:
  assumes "order_ok ord"
  shows "validateWorkflow ord wfl skip = Some [] \<longleftrightarrow>
    validateGraph wfl (step_ids wfl) = [] \<and> validateTransitions ord wfl (step_ids wfl) skip = [] \<and>
    (skip \<or> validateCycles ord wfl = Some []) \<and> validateContextBindings wfl (step_ids wfl) skip = [] \<and>
    validateVerifierNames wfl = [] \<and> validateOnFailure wfl (step_ids wfl) = [] \<and>
    validateDeliverySection wfl skip = [] \<and> validateLimitsAndStacking wfl (step_ids wfl) = [] \<and>
    validateStepMaxTurns wfl = [] \<and> validatePanels wfl = []"
  by (auto simp: validateWorkflow_def Let_def split: option.splits)

lemma validateGraph_Nil_iff:
  "validateGraph wfl (step_ids wfl) = [] \<longleftrightarrow> wd_InitialStep wfl \<in> set (step_ids wfl) \<and>
     set (step_ids wfl) \<subseteq> (route_edges wfl)\<^sup>* `` entry_steps wfl \<and>
     (\<exists>t \<in> set (wd_Transitions wfl). tn_To t = ''success'' \<and> tn_From t \<in> set (step_ids wfl))"
  by (auto simp: validateGraph_def visited_steps_reachable Let_def filter_empty_conv list_ex_iff)

lemma binding_source_resume:
  "fst (binding_source s cb wfl stepIDs False) = [] \<Longrightarrow> fst (binding_source s cb wfl stepIDs True) = []"
  "snd (binding_source s cb wfl stepIDs True) = snd (binding_source s cb wfl stepIDs False)"
proof -
  have "(fst (binding_source s cb wfl stepIDs False) = [] \<longrightarrow> fst (binding_source s cb wfl stepIDs True) = []) \<and>
      snd (binding_source s cb wfl stepIDs True) = snd (binding_source s cb wfl stepIDs False)"
  proof (cases "split_on (CHR ''.'') (cb_From cb) ! 0 = ''steps''")
    case True
    then show ?thesis by (simp add: binding_source_def Let_def)
  next
    case False
    then have "binding_source s cb wfl stepIDs True = binding_source s cb wfl stepIDs False"
      unfolding binding_source_def Let_def by (simp only: if_False simp_thms)
    then show ?thesis by simp
  qed
  then show "fst (binding_source s cb wfl stepIDs False) = [] \<Longrightarrow> fst (binding_source s cb wfl stepIDs True) = []"
    "snd (binding_source s cb wfl stepIDs True) = snd (binding_source s cb wfl stepIDs False)" by blast+
qed

lemma validateContextBinding_resume:
  "validateContextBinding s cb wfl stepIDs False = [] \<Longrightarrow> validateContextBinding s cb wfl stepIDs True = []"
  using binding_source_resume [of s cb wfl stepIDs]
  unfolding validateContextBinding_def Let_def
  by (cases "binding_source s cb wfl stepIDs False"; cases "binding_source s cb wfl stepIDs True") simp

lemma validateTransitions_resume:
  "validateTransitions ord wfl stepIDs False = [] \<Longrightarrow> validateTransitions ord wfl stepIDs True = []"
  by (simp only: validateTransitions_def Let_def append_is_Nil_conv if_True simp_thms)

text \<open>Whether the transitions are accepted does not depend on the order of the map loops.\<close>

lemma concat_map_Nil_order:
  assumes "order_ok ord" "order_ok ord'"
  shows "concat (map f (ord n ks)) = [] \<longleftrightarrow> concat (map f (ord' n ks)) = []"
  using order_ok_set [OF assms(1)] order_ok_set [OF assms(2)] by simp

lemma validateTransitions_order:
  assumes "order_ok ord" "order_ok ord'"
  shows "validateTransitions ord wfl stepIDs skip = [] \<longleftrightarrow> validateTransitions ord' wfl stepIDs skip = []"
  unfolding validateTransitions_def Let_def append_is_Nil_conv if_distrib [of "\<lambda>x. x = []"]
  by (simp only: concat_map_Nil_order [OF assms])

text \<open>Resume runs a subset of the admission checks.\<close>

lemma validateWorkflow_resume:
  assumes "order_ok ord" "validateWorkflow ord wfl False = Some []"
  shows "validateWorkflow ord wfl True = Some []"
  using assms(2) validateContextBinding_resume validateTransitions_resume [of ord wfl]
  unfolding validateWorkflow_Nil_iff [OF assms(1)]
  by (auto simp: validateContextBindings_def validateDeliverySection_def)

end
