(* ===== verification/Wfd_Synthesis_Laws.thy ===== *)
theory Wfd_Synthesis_Laws
  imports Wfd_Synthesis Wfd_Laws
begin

text \<open>
  Laws of the synthesis of a stacking run graph: what the anchor of the router is, which
  transitions survive, and which graphs have every route within the declared steps.
\<close>

section \<open>The anchor\<close>

interpretation exit_search: worklist "transitionAdjacency ts" "tn_To ` set ts" "reach_loop ts" for ts
proof
  show "finite (tn_To ` set ts)" for ts :: "Transition list" by simp
  show "set (transitionAdjacency ts x) \<subseteq> tn_To ` set ts" for ts x by (rule adjacency_targets)
  show "reach_loop ts visited [] = visited" for ts visited by simp
  show "reach_loop ts visited (cur # queue) = reach_loop ts v q"
    if "visit_all (transitionAdjacency ts cur) visited queue = (v, q)" for ts cur visited queue v q
    using that by simp
qed

lemma reachableSteps_set: "set (reachableSteps ts x) = (edges (transitionAdjacency ts))\<^sup>* `` {x}"
proof -
  have "set (reach_loop ts [x] [x]) = (edges (transitionAdjacency ts))\<^sup>* `` set [x]"
    by (rule exit_search.loop_reachable) simp
  then show ?thesis by (simp only: reachableSteps_def list.set)
qed

lemma farthest_in: "farthest dm best bestDist ss \<in> insert best (set ss)"
  by (induction dm best bestDist ss rule: farthest.induct) auto

lemma anchor_cases:
  assumes "order_ok ord"
  shows "stackingRouterAnchor ord ts planStep implementStep \<in> insert planStep (set (plan_exits ts implementStep))"
proof -
  have far: "farthest dm [] (-1) (ord 4 ss) \<in> insert [] (set ss)" for dm ss
    using farthest_in [of dm "[]" "-1" "ord 4 ss"] order_ok_set [OF assms] by simp
  show ?thesis
  proof (cases "plan_exits ts implementStep" rule: list_cases_3)
    case (3 x y zs)
    then show ?thesis using far [of "distancesFrom ts planStep" "x # y # zs"]
      by (auto simp: stackingRouterAnchor_def Let_def)
  qed (simp_all add: stackingRouterAnchor_def)
qed

lemma plan_exits_iff:
  "s \<in> set (plan_exits ts implementStep) \<longleftrightarrow>
     (\<exists>t \<in> set ts. tn_From t = s \<and> exits_to implementStep t) \<and> (implementStep, s) \<notin> (edges (transitionAdjacency ts))\<^sup>*"
  by (auto simp: plan_exits_def reachableSteps_set)

section \<open>The transitions\<close>

lemmas reserved_defs = stepDecompose_def stepChunkPlanValidate_def loopDecomposeRepair_def

lemma router_edges_iff:
  "t \<in> set (router_edges a i) \<longleftrightarrow> t \<in> {new_edge a stepDecompose ''succeeded'' [],
      new_edge stepDecompose i ''succeeded'' [(''stack_mode'', ''single'')],
      new_edge stepDecompose ''success'' ''succeeded'' [(''stack_mode'', ''no_bug'')],
      new_edge stepDecompose stepChunkPlanValidate ''succeeded'' [(''stack_mode'', ''multi'')],
      new_edge stepDecompose ''failure'' ''failed'' [],
      new_edge stepChunkPlanValidate ''success'' ''succeeded'' [],
      (new_edge stepChunkPlanValidate stepDecompose ''failed'' [])\<lparr>tn_Loop := loopDecomposeRepair, tn_MaxIterations := 3\<rparr>}"
  by (simp add: router_edges_def)

lemma synthesizeTransitions_cases:
  assumes "t \<in> set (synthesizeTransitions ord ts p i)" "a = stackingRouterAnchor ord ts p i"
  obtains (kept) "t \<in> set ts" "survives a p i t"
    | (rewired) "t = new_edge p a ''succeeded'' []" "\<exists>t \<in> set ts. rewired a p i t"
    | (router) "t \<in> set (router_edges a i)"
  using assms by (auto simp: synthesizeTransitions_def Let_def list_ex_iff split: if_splits)

text \<open>The anchor never leads into the implement step, unless it is the decompose step.\<close>

lemma no_exit_from_anchor:
  assumes "t \<in> set (synthesizeTransitions ord ts p i)" "tn_From t = stackingRouterAnchor ord ts p i" "exits_to i t"
    "stackingRouterAnchor ord ts p i \<notin> {stepDecompose, stepChunkPlanValidate}" "i \<noteq> stepDecompose"
  shows False
  using assms(1) refl
proof (cases rule: synthesizeTransitions_cases)
  case kept
  then show ?thesis using assms(2,3) by (auto simp: survives_def)
next
  case rewired
  then show ?thesis using assms(2,3) by (auto simp: exits_to_def new_edge_def rewired_def)
next
  case router
  then have "tn_From t \<in> {stepDecompose, stepChunkPlanValidate} \<or> tn_To t = stepDecompose"
    by (auto simp: router_edges_iff new_edge_def)
  then show ?thesis using assms(2-5) by (auto simp: exits_to_def)
qed

text \<open>Every other declared transition survives, or its step leads to the anchor instead.\<close>

lemma survivor_kept: "t \<in> set ts \<Longrightarrow> survives (stackingRouterAnchor ord ts p i) p i t \<Longrightarrow> t \<in> set (synthesizeTransitions ord ts p i)"
  by (simp add: synthesizeTransitions_def Let_def)

lemma rewired_leads_to_anchor:
  assumes "order_ok ord" "t \<in> set ts" "rewired (stackingRouterAnchor ord ts p i) p i t"
  shows "\<exists>t' \<in> set (synthesizeTransitions ord ts p i). tn_From t' = tn_From t \<and>
    tn_To t' = stackingRouterAnchor ord ts p i \<and> mc_Status (tn_Match t') = ''succeeded'' \<and> mc_Output (tn_Match t') = []"
proof (cases "hasPlainSucceededEdge ts p (stackingRouterAnchor ord ts p i)")
  case True
  let ?a = "stackingRouterAnchor ord ts p i"
  obtain t' where t': "t' \<in> set ts" "tn_From t' = p" "tn_To t' = ?a" "mc_Status (tn_Match t') = ''succeeded''"
      "mc_Output (tn_Match t') = []"
    using True by (auto simp: hasPlainSucceededEdge_def list_ex_iff)
  have "?a \<noteq> i" using anchor_cases [OF assms(1), of ts p i] assms(3) by (auto simp: plan_exits_iff exits_to_def rewired_def)
  then have "survives ?a p i t'" using t' by (simp add: survives_def exits_to_def)
  then show ?thesis using t' assms(3) survivor_kept by (fastforce simp: rewired_def)
next
  case False
  then have "new_edge p (stackingRouterAnchor ord ts p i) ''succeeded'' [] \<in> set (synthesizeTransitions ord ts p i)"
    using assms(2,3) by (auto simp: synthesizeTransitions_def Let_def list_ex_iff)
  moreover have "tn_From t = p" using assms(3) by (simp add: rewired_def)
  ultimately show ?thesis by (intro bexI) (auto simp: new_edge_def)
qed

section \<open>Closed graphs\<close>

text \<open>
  Every route of the graph ends at a declared step or at a terminal one.  The compiler does
  not check an on_failure of blanks only.
\<close>

definition route_ok :: "CompiledWorkflow \<Rightarrow> string \<Rightarrow> bool" where
  "route_ok cw x \<longleftrightarrow> x \<in> set (cw_StepIDs cw) \<or> x \<in> set ReservedStepIDs"

definition closed_graph :: "CompiledWorkflow \<Rightarrow> bool" where
  "closed_graph cw \<longleftrightarrow>
     (\<forall>t \<in> set (cw_Transitions cw). route_ok cw (tn_From t) \<and> route_ok cw (tn_To t) \<and>
        (tn_PartialTarget t = [] \<or> route_ok cw (tn_PartialTarget t))) \<and>
     (\<forall>s \<in> set (cw_Steps cw). TrimSpace (sp_OnFailure s) = [] \<or> route_ok cw (sp_OnFailure s)) \<and>
     set (cw_StepIDs cw) = sp_ID ` set (cw_Steps cw)"

lemma first_error_None: "first_error es = None \<longleftrightarrow> (\<forall>e \<in> set es. e = None)"
  by (induction es rule: first_error.induct) auto

lemma concat_map_NilD: "concat (map f xs) = [] \<Longrightarrow> x \<in> set xs \<Longrightarrow> f x = []"
  by auto

lemma admitted_transitions:
  assumes "admit_file ord canonical wf0 = Inr wfl" "t \<in> set (wd_Transitions wfl)"
  shows "TrimSpace (tn_From t) \<noteq> []" "tn_From t \<in> set (step_ids wfl) \<or> tn_From t \<in> set ReservedStepIDs"
    "tn_To t \<in> set (step_ids wfl) \<or> tn_To t \<in> set ReservedStepIDs"
proof -
  have "validateWorkflowBasics ord wfl = None"
    using assms(1) by (simp add: admit_file_def split: if_splits sum.splits option.splits)
  then have "first_error (map (\<lambda>(i, t). validateTransition i t (step_ids wfl)) (enumerate 0 (wd_Transitions wfl))) = None"
    by (simp add: validateWorkflowBasics_def split: if_splits option.splits)
  moreover obtain k where "(k, t) \<in> set (enumerate 0 (wd_Transitions wfl))"
    using assms(2) by (metis in_set_impl_in_set_zip2 enumerate_eq_zip length_upt add_diff_cancel_left' in_set_zipE)
  ultimately have "validateTransition k t (step_ids wfl) = None" unfolding first_error_None by force
  then show "TrimSpace (tn_From t) \<noteq> []" "tn_From t \<in> set (step_ids wfl) \<or> tn_From t \<in> set ReservedStepIDs"
    "tn_To t \<in> set (step_ids wfl) \<or> tn_To t \<in> set ReservedStepIDs"
    by (auto simp: validateTransition_def Let_def split: if_splits)
qed

lemma admitted_closed:
  assumes "admit_file ord canonical wf0 = Inr wfl" "compile dig ord' wfl skip = Some (Inr cw)" "order_ok ord'"
  shows "closed_graph cw"
proof -
  have cw: "cw = compiled dig wfl" and v: "validateWorkflow ord' wfl skip = Some []"
    using assms(2) by (simp_all add: compile_accepts_iff)
  have tr: "validateTransitions ord' wfl (step_ids wfl) skip = []" and fl: "validateOnFailure wfl (step_ids wfl) = []"
    using v by (simp_all add: validateWorkflow_Nil_iff [OF assms(3)])
  have "tn_PartialTarget t = [] \<or> tn_PartialTarget t \<in> set (step_ids wfl)" if "t \<in> set (wd_Transitions wfl)" for t
  proof -
    have "concat (map (check_transition (step_ids wfl)) (wd_Transitions wfl)) = []"
      using tr by (simp add: validateTransitions_def Let_def)
    from concat_map_NilD [OF this that] show ?thesis by (auto simp: check_transition_def split: if_splits)
  qed
  moreover have "TrimSpace (sp_OnFailure s) = [] \<or> sp_OnFailure s \<in> set (step_ids wfl) \<or> sp_OnFailure s \<in> set ReservedStepIDs"
    if "s \<in> set (wd_Steps wfl)" for s
    using concat_map_NilD [OF fl [unfolded validateOnFailure_def] that] by (auto split: if_splits)
  moreover have "set (step_ids wfl) = sp_ID ` set (wd_Steps wfl)" by (simp add: step_ids_def)
  ultimately show ?thesis using admitted_transitions [OF assms(1)]
    by (auto simp: closed_graph_def route_ok_def cw compiled_def)
qed

section \<open>Accepted syntheses\<close>

text \<open>What SynthesizeStacking accepts, for a workflow that is not synthesized yet.\<close>

lemma synthesize_accepts:
  assumes "SynthesizeStacking ord cw = Some (Inr s)" "cw_Stacking cw = Some cfg" "checkSynthesisIdentifiers cw = None"
  obtains agent where "s = synthesized ord cw cfg agent" "validateSynthesizedGraph ord s = Some []"
  using assms by (auto simp: SynthesizeStacking_def checkSynthesisIdentifiers_def Let_def split: if_splits option.splits)

lemma synthesized_closed:
  assumes "closed_graph cw" "order_ok ord" "sg_PlanStep cfg \<in> set (cw_StepIDs cw)" "sg_ImplementStep cfg \<in> set (cw_StepIDs cw)"
  shows "closed_graph (synthesized ord cw cfg agent)"
proof -
  let ?s = "synthesized ord cw cfg agent"
  let ?p = "sg_PlanStep cfg" and ?i = "sg_ImplementStep cfg"
  let ?a = "stackingRouterAnchor ord (cw_Transitions cw) ?p ?i"
  have ids: "set (cw_StepIDs ?s) = {stepDecompose, stepChunkPlanValidate} \<union> set (cw_StepIDs cw)"
    by (auto simp: synthesized_def)
  have old: "route_ok cw x \<Longrightarrow> route_ok ?s x" for x by (auto simp: route_ok_def ids)
  have new: "route_ok ?s stepDecompose" "route_ok ?s stepChunkPlanValidate" "route_ok ?s ''success''" "route_ok ?s ''failure''"
    by (auto simp: route_ok_def ids ReservedStepIDs_def)
  have pi: "route_ok ?s ?p" "route_ok ?s ?i" using assms(3,4) by (auto simp: route_ok_def ids)
  have a: "route_ok ?s ?a"
    using anchor_cases [OF assms(2), of "cw_Transitions cw" ?p ?i] pi(1) assms(1) old
    by (auto simp: plan_exits_iff closed_graph_def)
  have "route_ok ?s (tn_From t) \<and> route_ok ?s (tn_To t) \<and> (tn_PartialTarget t = [] \<or> route_ok ?s (tn_PartialTarget t))"
    if "t \<in> set (synthesizeTransitions ord (cw_Transitions cw) ?p ?i)" for t
    using that refl
  proof (cases rule: synthesizeTransitions_cases)
    case kept
    then show ?thesis using assms(1) old by (auto simp: closed_graph_def)
  next
    case rewired
    then show ?thesis using pi a by (simp add: new_edge_def)
  next
    case router
    then show ?thesis using pi a new by (auto simp: router_edges_iff new_edge_def)
  qed
  moreover have "TrimSpace [] = []" by code_simp
  then have "\<forall>x \<in> set (cw_Steps ?s). TrimSpace (sp_OnFailure x) = [] \<or> route_ok ?s (sp_OnFailure x)"
    using assms(1) old by (auto simp: closed_graph_def synthesized_def synthesizedStackingSteps_def)
  moreover have "set (cw_StepIDs ?s) = sp_ID ` set (cw_Steps ?s)"
    using assms(1) by (auto simp: closed_graph_def synthesized_def synthesizedStackingSteps_def)
  moreover have "cw_Transitions ?s = synthesizeTransitions ord (cw_Transitions cw) ?p ?i" by (simp add: synthesized_def)
  ultimately show ?thesis by (simp add: closed_graph_def)
qed

text \<open>The plan and implement steps of an admitted stacking workflow are declared.\<close>

lemma stacking_steps_declared:
  assumes "compile dig ord wfl skip = Some (Inr cw)" "order_ok ord" "cw_Stacking cw = Some cfg"
  shows "sg_PlanStep cfg \<in> set (cw_StepIDs cw)" "sg_ImplementStep cfg \<in> set (cw_StepIDs cw)"
proof -
  have cw: "cw = compiled dig wfl" and v: "validateLimitsAndStacking wfl (step_ids wfl) = []"
    using assms(1) by (simp_all add: compile_accepts_iff validateWorkflow_Nil_iff [OF assms(2)])
  obtain s where s: "wd_Stacking wfl = Some s" "StackingEnabled (Some s)" "sk_PlanStep s \<noteq> []" "sk_ImplementStep s \<noteq> []"
      "cfg = EffectiveStacking (sk_PlanStep s) (sk_ImplementStep s) (Some s)"
    using assms(3) by (auto simp: cw compiled_def split: option.splits if_splits)
  have "sk_PlanStep s \<in> set (step_ids wfl)" "sk_ImplementStep s \<in> set (step_ids wfl)"
    using v s by (auto simp: validateLimitsAndStacking_def validateStacking_def split: if_splits)
  then show "sg_PlanStep cfg \<in> set (cw_StepIDs cw)" "sg_ImplementStep cfg \<in> set (cw_StepIDs cw)"
    by (simp_all add: s(5) cw compiled_def EffectiveStacking_def DefaultStacking_def Let_def)
qed

text \<open>The cycle search of the validation never runs out of fuel.\<close>

lemma synthesize_total: "order_ok ord \<Longrightarrow> SynthesizeStacking ord cw \<noteq> None"
  by (simp add: SynthesizeStacking_def validateSynthesizedGraph_def validateCycles_eq Let_def split: option.split)

lemma synthesize_again:
  assumes "SynthesizeStacking ord cw = Some (Inr s)"
  shows "SynthesizeStacking ord' s = Some (Inr s)"
proof (cases "cw_Stacking cw")
  case None
  then show ?thesis using assms by (auto simp: SynthesizeStacking_def)
next
  case (Some cfg)
  show ?thesis
  proof (cases "checkSynthesisIdentifiers cw")
    case None
    from synthesize_accepts [OF assms Some None] obtain agent where "s = synthesized ord cw cfg agent" by blast
    then show ?thesis by (simp add: SynthesizeStacking_def synthesized_def)
  next
    case (Some e)
    then have "s = cw" "stepDecompose \<in> set (cw_StepIDs cw)" "stepChunkPlanValidate \<in> set (cw_StepIDs cw)"
        "loopDecomposeRepair \<in> set (cw_LoopNames cw)"
      using assms \<open>cw_Stacking cw = Some cfg\<close> by (auto simp: SynthesizeStacking_def split: if_splits)
    then show ?thesis by (simp add: SynthesizeStacking_def \<open>cw_Stacking cw = Some cfg\<close>)
  qed
qed

section \<open>Identifiers of an admitted file\<close>

lemma check_steps_None: "check_steps i seen ss = None \<Longrightarrow> s \<in> set ss \<Longrightarrow> \<exists>k. validateStep k s = None"
  by (induction i seen ss rule: check_steps.induct) (auto split: option.splits if_splits)

lemma admitted_step_id:
  assumes "admit_file ord canonical wf0 = Inr wfl" "x \<in> set (step_ids wfl)"
  shows "TrimSpace x \<noteq> []" "x \<notin> set ReservedStepIDs"
proof -
  have "validateWorkflowBasics ord wfl = None"
    using assms(1) by (simp add: admit_file_def split: if_splits sum.splits option.splits)
  then have "check_steps 0 [] (wd_Steps wfl) = None" by (simp add: validateWorkflowBasics_def split: if_splits option.splits)
  moreover obtain st where st: "st \<in> set (wd_Steps wfl)" "x = sp_ID st" using assms(2) by (auto simp: step_ids_def)
  ultimately obtain k where "validateStep k st = None" using check_steps_None by blast
  then show "TrimSpace x \<noteq> []" "x \<notin> set ReservedStepIDs" unfolding st(2)
    by (auto simp: validateStep_def split: if_splits)
qed

section \<open>The choice among several exits\<close>

lemma farthest_max:
  "best = [] \<and> bestDist = -1 \<or> int (dist_of dm best) = bestDist \<Longrightarrow>
   (\<forall>s \<in> set ss. dist_of dm s \<le> dist_of dm (farthest dm best bestDist ss)) \<and>
   (ss = [] \<or> farthest dm best bestDist ss \<in> set ss \<or> farthest dm best bestDist ss = best) \<and>
   (ss \<noteq> [] \<and> bestDist = -1 \<longrightarrow> farthest dm best bestDist ss \<in> set ss) \<and>
   bestDist \<le> int (dist_of dm (farthest dm best bestDist ss))"
proof (induction dm best bestDist ss rule: farthest.induct)
  case (2 dm best bestDist s ss)
  show ?case
  proof (cases "int (dist_of dm s) > bestDist")
    case True
    then show ?thesis using 2(1) [OF True] by auto
  next
    case False
    then have "bestDist \<noteq> -1" by linarith
    then show ?thesis using 2(2) [OF False] 2(3) False by fastforce
  qed
qed auto

text \<open>Without ties in the distance, the order of the candidates does not matter.\<close>

lemma anchor_unique:
  assumes "order_ok ord" "order_ok ord'" "inj_on (dist_of (distancesFrom ts p)) (set (plan_exits ts i))"
  shows "stackingRouterAnchor ord ts p i = stackingRouterAnchor ord' ts p i"
proof (cases "plan_exits ts i" rule: list_cases_3)
  case (3 x y zs)
  let ?ss = "x # y # zs" and ?dm = "distancesFrom ts p"
  have far: "farthest ?dm [] (-1) (o4 ?ss) \<in> set ?ss \<and>
      (\<forall>s \<in> set ?ss. dist_of ?dm s \<le> dist_of ?dm (farthest ?dm [] (-1) (o4 ?ss)))"
    if "order_ok ord2" "o4 = ord2 4" for ord2 :: map_order and o4
  proof -
    have "set (o4 ?ss) = set ?ss" using order_ok_set that by blast
    moreover from this have "o4 ?ss \<noteq> []" by auto
    ultimately show ?thesis using farthest_max [of "[]" "-1" ?dm "o4 ?ss"] by simp
  qed
  have "dist_of ?dm (farthest ?dm [] (-1) (ord 4 ?ss)) = dist_of ?dm (farthest ?dm [] (-1) (ord' 4 ?ss))"
    using far [OF assms(1) refl] far [OF assms(2) refl] by (meson le_antisym)
  then have "farthest ?dm [] (-1) (ord 4 ?ss) = farthest ?dm [] (-1) (ord' 4 ?ss)"
    using assms(3) far [OF assms(1) refl] far [OF assms(2) refl] unfolding 3 by (meson inj_onD)
  then show ?thesis by (simp add: stackingRouterAnchor_def 3 Let_def)
qed (simp_all add: stackingRouterAnchor_def)

section \<open>Shortest paths\<close>

text \<open>
  The routes of the transitions as a relation, and the number of transitions on a shortest
  path; the distance of a step that is not reachable reads as 0, as a Go map does.
\<close>

definition routes :: "Transition list \<Rightarrow> (string \<times> string) set" where
  "routes ts = {(tn_From t, tn_To t) | t. t \<in> set ts}"

definition hops :: "Transition list \<Rightarrow> string \<Rightarrow> string \<Rightarrow> nat" where
  "hops ts x y = (if (x, y) \<in> (routes ts)\<^sup>* then LEAST n. (x, y) \<in> routes ts ^^ n else 0)"

lemma edges_routes: "edges (transitionAdjacency ts) = routes ts"
  by (auto simp: edges_def routes_def transitionAdjacency_def)

lemma adjacency_routes: "y \<in> set (transitionAdjacency ts x) \<longleftrightarrow> (x, y) \<in> routes ts"
  by (simp flip: edges_routes)

lemma visit_dist_map:
  "visit_dist d xs dm queue = (dm2, q) \<Longrightarrow> \<exists>new. q = queue @ new \<and> set new = set xs - fst ` set dm \<and>
     (\<forall>x. map_of dm2 x = (if x \<in> set new then Some d else map_of dm x))"
proof (induction d xs dm queue rule: visit_dist.induct)
  case (2 d x xs dm queue)
  show ?case
  proof (cases "x \<in> fst ` set dm")
    case True
    then show ?thesis using 2 by auto
  next
    case False
    then have "visit_dist d xs ((x, d) # dm) (queue @ [x]) = (dm2, q)" using 2(3) by simp
    from 2(2) [OF False this] obtain new where new: "q = (queue @ [x]) @ new" "set new = set xs - fst ` set ((x, d) # dm)"
        "\<forall>y. map_of dm2 y = (if y \<in> set new then Some d else map_of ((x, d) # dm) y)"
      by blast
    show ?thesis
    proof (intro exI conjI)
      show "q = queue @ (x # new)" using new(1) by simp
      show "set (x # new) = set (x # xs) - fst ` set dm" using new(2) False by auto
      show "\<forall>y. map_of dm2 y = (if y \<in> set (x # new) then Some d else map_of dm y)" using new(2,3) by auto
    qed
  qed
qed simp

text \<open>
  The invariant of the search.  Every recorded distance is the length of a path; the queue
  is in the order of the distances, which never exceed that of its head by more than one;
  and the successors of every step that left the queue are recorded, at most one further.
\<close>

definition search_inv :: "Transition list \<Rightarrow> string \<Rightarrow> (string \<times> nat) list \<Rightarrow> string list \<Rightarrow> bool" where
  "search_inv ts p dm queue \<longleftrightarrow> map_of dm p = Some 0 \<and>
     (\<forall>x d. map_of dm x = Some d \<longrightarrow> (p, x) \<in> routes ts ^^ d) \<and>
     (\<forall>x \<in> set queue. map_of dm x \<noteq> None) \<and> sorted (map (dist_of dm) queue) \<and>
     (\<forall>cur rest. queue = cur # rest \<longrightarrow> (\<forall>x d. map_of dm x = Some d \<longrightarrow> d \<le> dist_of dm cur + 1)) \<and>
     (\<forall>x d y. map_of dm x = Some d \<and> x \<notin> set queue \<and> (x, y) \<in> routes ts \<longrightarrow> (\<exists>e \<le> d + 1. map_of dm y = Some e))"

lemma search_step:
  assumes "search_inv ts p dm (cur # queue)" "visit_dist (dist_of dm cur + 1) (transitionAdjacency ts cur) dm queue = (dm2, q)"
  shows "search_inv ts p dm2 q"
proof -
  have adj: "set (transitionAdjacency ts cur) = {y. (cur, y) \<in> routes ts}" using adjacency_routes by blast
  obtain new where new: "q = queue @ new" "set new = {y. (cur, y) \<in> routes ts} - dom (map_of dm)"
      "\<And>x. map_of dm2 x = (if x \<in> set new then Some (dist_of dm cur + 1) else map_of dm x)"
    using visit_dist_map [OF assms(2)] unfolding adj dom_map_of_conv_image_fst by blast
  obtain dc where dc: "map_of dm cur = Some dc" "dist_of dm cur = dc" "(p, cur) \<in> routes ts ^^ dc"
    using assms(1) by (auto simp: search_inv_def dist_of_def)
  have old: "map_of dm2 x = Some d" "x \<notin> set new" if "map_of dm x = Some d" for x d
    using that new(2,3) by auto
  have near: "d \<le> dc + 1" if "map_of dm2 x = Some d" for x d
    using that assms(1) new(3) dc(2) by (auto simp: search_inv_def split: if_splits)
  have queued: "dist_of dm2 x = dist_of dm x" if "x \<in> set queue" for x
    using that assms(1) old by (auto simp: search_inv_def dist_of_def)
  have fresh: "dist_of dm2 x = dc + 1" if "x \<in> set new" for x using that new(3) dc(2) by (simp add: dist_of_def)
  have above: "dc \<le> dist_of dm2 x" if "x \<in> set q" for x
    using that assms(1) queued fresh dc(2) new(1) by (auto simp: search_inv_def)
  have "map_of dm2 p = Some 0" using assms(1) old by (simp add: search_inv_def)
  moreover have "(p, x) \<in> routes ts ^^ d" if x: "map_of dm2 x = Some d" for x d
  proof (cases "x \<in> set new")
    case True
    then have "d = Suc dc" "(cur, x) \<in> routes ts" using x new(2,3) dc(2) by auto
    then show ?thesis using dc(3) by (auto intro: relcompI)
  next
    case False
    then show ?thesis using x assms(1) new(3) by (simp add: search_inv_def)
  qed
  moreover have "map_of dm2 x \<noteq> None" if "x \<in> set q" for x
    using that assms(1) new(1,3) by (auto simp: search_inv_def)
  moreover have "sorted (map (dist_of dm2) q)"
  proof -
    have "map (dist_of dm2) q = map (dist_of dm) queue @ map (\<lambda>_. dc + 1) new" using new(1) queued fresh by simp
    moreover have "sorted (map (dist_of dm) queue)" using assms(1) by (simp add: search_inv_def)
    moreover have "sorted (map (\<lambda>_. dc + 1) new)" by (simp add: sorted_wrt_map map_replicate_const)
    moreover have "dist_of dm x \<le> dc + 1" if "x \<in> set queue" for x
      using that near [of x] queued [OF that] assms(1) old by (fastforce simp: search_inv_def dist_of_def)
    ultimately show ?thesis by (auto simp: sorted_append)
  qed
  moreover have "d \<le> dist_of dm2 c + 1" if "q = c # rest" "map_of dm2 x = Some d" for c rest x d
    using near [OF that(2)] above [of c] that(1) by auto
  moreover have "\<exists>e \<le> d + 1. map_of dm2 y = Some e"
    if x: "map_of dm2 x = Some d" "x \<notin> set q" "(x, y) \<in> routes ts" for x d y
  proof (cases "x = cur")
    case True
    then have "map_of dm2 y \<noteq> None" "d = dc" using x new dc old by auto
    then show ?thesis using near by auto
  next
    case False
    then have "map_of dm x = Some d" "x \<notin> set (cur # queue)" using x new(1,3) by auto
    then show ?thesis using x(3) assms(1) old(1) by (auto simp: search_inv_def) blast
  qed
  ultimately show ?thesis unfolding search_inv_def by blast
qed

lemma search_end: "search_inv ts p dm queue \<Longrightarrow> search_inv ts p (dist_loop ts dm queue) []"
proof (induction ts dm queue rule: dist_loop.induct)
  case (2 ts dm cur queue)
  obtain d q where v: "visit_dist (dist_of dm cur + 1) (transitionAdjacency ts cur) dm queue = (d, q)" by fastforce
  show ?case using 2(1) [OF v [symmetric] search_step [OF 2(2) v]] v by simp
qed simp

lemma search_complete:
  assumes "search_inv ts p dm []" "(p, x) \<in> routes ts ^^ n"
  shows "\<exists>d \<le> n. map_of dm x = Some d"
  using assms(2)
proof (induction n arbitrary: x)
  case 0
  then show ?case using assms(1) by (simp add: search_inv_def)
next
  case (Suc n)
  then obtain y where y: "(p, y) \<in> routes ts ^^ n" "(y, x) \<in> routes ts" by auto
  from Suc.IH [OF y(1)] obtain d where d: "d \<le> n" "map_of dm y = Some d" by blast
  then obtain e where "e \<le> d + 1" "map_of dm x = Some e" using assms(1) y(2) unfolding search_inv_def by (metis empty_iff list.set(1))
  then show ?case using d(1) by auto
qed

text \<open>The breadth-first search computes shortest paths.\<close>

lemma distancesFrom_hops: "dist_of (distancesFrom ts p) x = hops ts p x"
proof -
  let ?dm = "distancesFrom ts p"
  have "search_inv ts p [(p, 0)] [p]" by (simp add: search_inv_def dist_of_def)
  then have inv: "search_inv ts p ?dm []" unfolding distancesFrom_def by (rule search_end)
  have sound: "(p, x) \<in> routes ts ^^ d" if "map_of ?dm x = Some d" for d using that inv by (simp add: search_inv_def)
  show ?thesis
  proof (cases "map_of ?dm x")
    case None
    then have "(p, x) \<notin> (routes ts)\<^sup>*" using search_complete [OF inv] by (force simp: rtrancl_power)
    then show ?thesis by (simp add: hops_def dist_of_def None)
  next
    case (Some d)
    have "(LEAST n. (p, x) \<in> routes ts ^^ n) = d"
      using sound [OF Some] search_complete [OF inv] Some by (intro Least_equality) fastforce+
    moreover have "(p, x) \<in> (routes ts)\<^sup>*" using sound [OF Some] by (auto simp: rtrancl_power)
    ultimately show ?thesis by (simp add: hops_def dist_of_def Some)
  qed
qed

section \<open>Which exits the anchor can be\<close>

text \<open>
  The exits of the plan phase: the steps with a succeeding transition into the implement
  step that do not themselves come after the implement step.
\<close>

definition phase_exits :: "Transition list \<Rightarrow> string \<Rightarrow> string set" where
  "phase_exits ts i = {tn_From t | t. t \<in> set ts \<and> tn_To t = i \<and> mc_Status (tn_Match t) \<in> {[], ''succeeded''} \<and>
     (i, tn_From t) \<notin> (routes ts)\<^sup>*}"

lemma plan_exits_set: "set (plan_exits ts i) = phase_exits ts i"
  unfolding set_eq_iff plan_exits_iff edges_routes by (auto simp: phase_exits_def exits_to_def)

lemma farthest_keeps: "\<forall>x \<in> set ss. int (dist_of dm x) \<le> bestDist \<Longrightarrow> farthest dm best bestDist ss = best"
  by (induction ss) auto

text \<open>The order that meets a given step first.\<close>

definition first_order :: "string \<Rightarrow> map_order" where
  "first_order a = (\<lambda>_ ks. if a \<in> set ks then a # remove1 a ks else ks)"

lemma first_order_ok: "order_ok (first_order a)"
  by (simp add: order_ok_def first_order_def)

lemma anchor_is_farthest:
  assumes "order_ok ord" "i \<noteq> []" "phase_exits ts i \<noteq> {}" "[] \<notin> phase_exits ts i"
  shows "stackingRouterAnchor ord ts p i \<in> phase_exits ts i \<and>
    (\<forall>s \<in> phase_exits ts i. hops ts p s \<le> hops ts p (stackingRouterAnchor ord ts p i))"
proof (cases "plan_exits ts i" rule: list_cases_3)
  case 1
  then show ?thesis using assms(3) by (simp flip: plan_exits_set)
next
  case (2 x)
  then show ?thesis using assms(2) by (simp add: stackingRouterAnchor_def flip: plan_exits_set)
next
  case (3 x y zs)
  let ?ks = "ord 4 (x # y # zs)"
  have ks: "set ?ks = phase_exits ts i" using order_ok_set [OF assms(1)] by (simp only: flip: plan_exits_set 3)
  then have "?ks \<noteq> []" using assms(3) by auto
  then have "farthest (distancesFrom ts p) [] (-1) ?ks \<in> phase_exits ts i \<and>
      (\<forall>s \<in> phase_exits ts i. hops ts p s \<le> hops ts p (farthest (distancesFrom ts p) [] (-1) ?ks))"
    using farthest_max [of "[]" "-1" "distancesFrom ts p" ?ks] by (simp add: distancesFrom_hops ks)
  then show ?thesis using assms(2,4) by (auto simp: stackingRouterAnchor_def 3 Let_def)
qed

lemma anchor_reached:
  assumes "i \<noteq> []" "a \<in> phase_exits ts i" "\<forall>s \<in> phase_exits ts i. hops ts p s \<le> hops ts p a" "[] \<notin> phase_exits ts i"
  shows "stackingRouterAnchor (first_order a) ts p i = a"
proof (cases "plan_exits ts i" rule: list_cases_3)
  case (3 x y zs)
  then have a: "a \<in> set (x # y # zs)" using assms(2) by (simp only: flip: plan_exits_set 3)
  then obtain rest where ks: "first_order a 4 (x # y # zs) = a # rest" "rest = remove1 a (x # y # zs)"
    by (simp only: first_order_def if_True)
  have "set rest \<subseteq> phase_exits ts i"
    unfolding ks(2) using set_remove1_subset [of a "x # y # zs"] by (simp only: flip: plan_exits_set 3)
  then have "farthest (distancesFrom ts p) a (int (dist_of (distancesFrom ts p) a)) rest = a"
    using assms(3) by (intro farthest_keeps) (auto simp: distancesFrom_hops)
  then have "farthest (distancesFrom ts p) [] (-1) (first_order a 4 (x # y # zs)) = a" unfolding ks(1) by simp
  then show ?thesis using assms(1,2,4) by (auto simp: stackingRouterAnchor_def 3 Let_def)
qed (use assms(1,2) in \<open>auto simp: stackingRouterAnchor_def simp flip: plan_exits_set\<close>)

text \<open>Exactly the farthest exits can become the anchor, each for some order of the map.\<close>

lemma anchor_choices:
  assumes "i \<noteq> []" "[] \<notin> phase_exits ts i"
  shows "(\<exists>ord. order_ok ord \<and> stackingRouterAnchor ord ts p i = a) \<longleftrightarrow>
    (if phase_exits ts i = {} then a = p
     else a \<in> phase_exits ts i \<and> (\<forall>s \<in> phase_exits ts i. hops ts p s \<le> hops ts p a))"
proof (cases "phase_exits ts i = {}")
  case True
  then have "plan_exits ts i = []" by (simp flip: plan_exits_set)
  then show ?thesis using True first_order_ok by (auto simp: stackingRouterAnchor_def)
next
  case False
  show ?thesis unfolding if_not_P [OF False]
    using anchor_is_farthest [OF _ assms(1) False assms(2)] anchor_reached [OF assms(1) _ _ assms(2)] first_order_ok by metis
qed

end
