(* ===== verification/Ctl_Laws.thy ===== *)
theory Ctl_Laws
  imports Ctl_Stacking Wfd_Synthesis_Laws
begin

text \<open>
  Laws of the controller: the routes it selects stay in the graph, the identities of attempts
  and approvals can be told apart and read back, and what a chunk plan must satisfy.
\<close>

section \<open>Routes\<close>

text \<open>The one route out of the graph: an on_failure that is not empty but only blanks.\<close>

definition blank_failure :: "Step \<Rightarrow> string \<Rightarrow> bool" where
  "blank_failure step x \<longleftrightarrow> x = sp_OnFailure step \<and> x \<noteq> [] \<and> TrimSpace x = []"

lemma failureTarget_ok:
  assumes "closed_graph cw" "step \<in> set (cw_Steps cw)"
  shows "route_ok cw (failureTarget step) \<or> blank_failure step (failureTarget step)"
  using assms by (auto simp: failureTarget_def closed_graph_def route_ok_def ReservedStepIDs_def blank_failure_def)

text \<open>Whatever the exhaustion does, it routes to the failure target or to the partial target.\<close>

lemma exhaustion_target:
  "rt_ToStepID (fst (loopExhaustionRoute c step decision err)) \<in> {failureTarget step, de_PartialTarget decision} \<and>
   (rt_ToStepID (fst (loopExhaustionRoute c step decision err)) = failureTarget step \<or> de_PartialTarget decision \<noteq> [])"
  by (auto simp: loopExhaustionRoute_def Let_def split: ctl_error.splits)

lemma route_matching_ok:
  assumes "closed_graph (ct_Workflow c)" "step \<in> set (cw_Steps (ct_Workflow c))"
    "route_matching c wrap step status output w = (w', route, err)"
  shows "route_ok (ct_Workflow c) (rt_ToStepID route) \<or> blank_failure step (rt_ToStepID route)"
proof -
  note fail = failureTarget_ok [OF assms(1,2)]
  obtain d merr where m: "Match (ct_matchDigest c) (sp_ID step) status output (cw_Transitions (ct_Workflow c)) = (d, merr)"
    by fastforce
  show ?thesis
  proof (cases merr)
    case (Some e)
    then show ?thesis using assms(3) m fail by (auto simp: route_matching_def)
  next
    case None
    obtain t where t: "t \<in> set (cw_Transitions (ct_Workflow c))" "de_ToStepID d = tn_To t" "de_PartialTarget d = tn_PartialTarget t"
      using Match_selects [OF m [unfolded None]] by metis
    then have to_ok: "route_ok (ct_Workflow c) (de_ToStepID d)"
        "de_PartialTarget d = [] \<or> route_ok (ct_Workflow c) (de_PartialTarget d)"
      using assms(1) by (auto simp: closed_graph_def)
    have "rt_ToStepID route = de_ToStepID d \<or> (\<exists>e. loopExhaustionRoute c step d e = (route, err))"
      using assms(3) m None by (auto simp: route_matching_def Let_def split: if_splits prod.splits option.splits)
    then show ?thesis
    proof
      assume "\<exists>e. loopExhaustionRoute c step d e = (route, err)"
      then obtain e where "loopExhaustionRoute c step d e = (route, err)" ..
      then show ?thesis using exhaustion_target [of c step d e] fail to_ok(2) by auto
    qed (simp add: to_ok)
  qed
qed

lemma selectRoute_ok:
  assumes "closed_graph (ct_Workflow c)" "step \<in> set (cw_Steps (ct_Workflow c))"
  shows "selectRoute c step status output w = (w', route, err) \<Longrightarrow>
      route_ok (ct_Workflow c) (rt_ToStepID route) \<or> blank_failure step (rt_ToStepID route)"
    and "selectEvidenceFailureRoute c step output w = (w', route, err) \<Longrightarrow>
      route_ok (ct_Workflow c) (rt_ToStepID route) \<or> blank_failure step (rt_ToStepID route)"
proof -
  assume "selectRoute c step status output w = (w', route, err)"
  then show "route_ok (ct_Workflow c) (rt_ToStepID route) \<or> blank_failure step (rt_ToStepID route)"
    using route_matching_ok [OF assms] failureTarget_ok [OF assms]
    by (auto simp: selectRoute_def failureRoute_def split: if_splits)
qed (use route_matching_ok [OF assms] in \<open>auto simp: selectEvidenceFailureRoute_def\<close>)

text \<open>A declared step is found again, so the run can go on there.\<close>

lemma declared_found:
  assumes "closed_graph (ct_Workflow c)" "x \<in> set (cw_StepIDs (ct_Workflow c))"
  obtains s where "WorkflowStep c x = Some s" "sp_ID s = x"
proof -
  obtain s where "s \<in> set (cw_Steps (ct_Workflow c))" "sp_ID s = x" using assms by (auto simp: closed_graph_def)
  then have "WorkflowStep c x \<noteq> None" by (auto simp: WorkflowStep_def find_None_iff)
  then obtain s' where found: "WorkflowStep c x = Some s'" by blast
  then have "sp_ID s' = x" by (auto simp: WorkflowStep_def find_Some_iff)
  with found show thesis by (rule that)
qed

lemma reserved_terminal: "x \<in> set ReservedStepIDs \<longleftrightarrow> IsTerminalStepID x"
  by (auto simp: ReservedStepIDs_def IsTerminalStepID_def)

section \<open>Identities\<close>

text \<open>scan_digits reads back what show_nat writes.\<close>

lemma digit_of_nat: "n < 10 \<Longrightarrow> is_digit (char_of (48 + n))" "n < 10 \<Longrightarrow> (of_char (char_of (48 + n) :: char) :: nat) = 48 + n"
  by (simp_all add: is_digit_def of_char_of)

lemma show_nat_digits: "list_all is_digit (show_nat n)"
proof (induction n rule: show_nat.induct)
  case (1 n)
  then show ?case by (subst show_nat.simps) (simp add: digit_of_nat)
qed

lemma scan_append: "list_all is_digit xs \<Longrightarrow> scan_digits acc (xs @ ys) = scan_digits (scan_digits acc xs) ys"
  by (induction xs arbitrary: acc) (simp_all add: is_digit_def)

lemma scan_show: "scan_digits None (show_nat n) = Some n"
proof (induction n rule: show_nat.induct)
  case (1 n)
  show ?case
  proof (cases "n < 10")
    case True
    then show ?thesis using digit_of_nat(2) [OF True] by (subst show_nat.simps) simp
  next
    case False
    then have "scan_digits None (show_nat n) =
        scan_digits (scan_digits None (show_nat (n div 10))) [char_of (48 + n mod 10)]"
      by (subst show_nat.simps) (simp add: scan_append [OF show_nat_digits])
    also have "\<dots> = Some n" using False 1 digit_of_nat(2) [of "n mod 10"] by simp
    finally show ?thesis .
  qed
qed

lemma show_nat_nonempty: "show_nat n \<noteq> []"
  by (subst show_nat.simps) simp

lemma scan_int_Itoa: "0 < n \<Longrightarrow> scan_int (Itoa n) = Some n"
proof -
  assume n: "0 < n"
  obtain x xs where s: "show_nat (nat n) = x # xs" using show_nat_nonempty by (cases "show_nat (nat n)") auto
  have "is_digit x" using show_nat_digits [of "nat n"] s by simp
  then have "x \<noteq> CHR '' ''" "x \<noteq> CHR 0x09" "x \<noteq> CHR ''-''" "x \<noteq> CHR ''+''" by (auto simp: is_digit_def)
  then have "scan_int (show_nat (nat n)) = map_option int (scan_digits None (show_nat (nat n)))"
    by (simp add: scan_int_def s Let_def)
  then show "scan_int (Itoa n) = Some n" using n by (simp add: Itoa_def scan_show)
qed

lemma HasPrefix_append: "HasPrefix (xs @ ys) xs"
  by (simp add: HasPrefix_def)

lemma approval_id_reads_back:
  assumes "0 < n" "n < 2 ^ 63"
  shows "attemptNoFromApprovalID (humanGateApprovalID stepID n) stepID = Some n"
proof -
  let ?p = "''wfa-approval-'' @ stepID @ ''-''"
  have "humanGateApprovalID stepID n = ?p @ Itoa n" by (simp add: humanGateApprovalID_def)
  then show ?thesis using assms HasPrefix_append [of ?p "Itoa n"]
    by (simp add: attemptNoFromApprovalID_def Let_def scan_int_Itoa)
qed

lemma dash_digits: "takeWhile is_digit (rev (xs @ ''-'' @ show_nat n)) = rev (show_nat n)"
proof -
  have "list_all is_digit (rev (show_nat n))" using show_nat_digits [of n] by (simp add: list_all_iff)
  moreover have "\<not> is_digit (CHR ''-'')" by (simp add: is_digit_def)
  ultimately show ?thesis by (simp add: takeWhile_append2 list_all_iff takeWhile_append)
qed

lemma attempt_id_inj:
  assumes "attemptIDFor s n = attemptIDFor s' n'" "0 < n" "0 < n'"
  shows "s = s' \<and> n = n'"
proof -
  have eq: "s @ ''-'' @ show_nat (nat n) = s' @ ''-'' @ show_nat (nat n')"
    using assms by (simp add: attemptIDFor_def Itoa_def)
  then have digits: "show_nat (nat n) = show_nat (nat n')"
    using dash_digits [of s "nat n"] dash_digits [of s' "nat n'"] by (metis rev_rev_ident)
  then have "nat n = nat n'" using scan_show by (metis option.inject)
  then show ?thesis using assms(2,3) eq digits by simp
qed

section \<open>Chunk plans\<close>

definition chunk_ok :: "StackingConfig \<Rightarrow> chunkPlanEntry \<Rightarrow> bool" where
  "chunk_ok cfg k \<longleftrightarrow> ck_ID k \<noteq> [] \<and> \<not> HasSuffix (ck_ID k) ''-deferred'' \<and> ck_EstDiffLines k \<le> sg_HardLines cfg \<and>
     ck_Files k \<noteq> [] \<and> int (length (ck_Files k)) \<le> sg_MaxFiles cfg \<and> ck_Tests k"

definition chunk_graph :: "chunkPlanEntry list \<Rightarrow> (string \<times> string) set" where
  "chunk_graph chunks = {(ck_ID k, d) |k d. k \<in> set chunks \<and> d \<in> set (ck_DependsOn k)}"

definition chunk_plan_ok :: "StackingConfig \<Rightarrow> chunkPlanEntry list \<Rightarrow> bool" where
  "chunk_plan_ok cfg chunks \<longleftrightarrow> chunks \<noteq> [] \<and> int (length chunks) \<le> sg_MaxChunks cfg \<and>
     (\<forall>k \<in> set chunks. chunk_ok cfg k \<and> set (ck_DependsOn k) \<subseteq> ck_ID ` set chunks) \<and>
     distinct (map ck_ID chunks) \<and> distinct (concat (map ck_Files chunks)) \<and> acyclic (chunk_graph chunks)"

lemma file_reasons_spec:
  "file_reasons seen fs = (rs, seen2) \<Longrightarrow>
     (rs = [] \<longleftrightarrow> distinct fs \<and> set fs \<inter> set seen = {}) \<and> set seen2 = set seen \<union> set fs"
  by (induction seen fs arbitrary: rs seen2 rule: file_reasons.induct) (auto split: prod.splits if_splits)

lemma entry_reasons_Nil: "entry_reasons cfg ids k = [] \<and> ck_ID k \<noteq> [] \<longleftrightarrow> chunk_ok cfg k \<and> ck_ID k \<notin> set ids"
  by (auto simp: entry_reasons_def chunk_ok_def)

lemma entries_reasons_Nil:
  "entries_reasons cfg i ids files ks = [] \<longleftrightarrow> (\<forall>k \<in> set ks. chunk_ok cfg k) \<and>
     distinct (map ck_ID ks) \<and> ck_ID ` set ks \<inter> set ids = {} \<and>
     distinct (concat (map ck_Files ks)) \<and> set (concat (map ck_Files ks)) \<inter> set files = {}"
proof (induction cfg i ids files ks rule: entries_reasons.induct)
  case (2 cfg i ids files k ks)
  show ?case
  proof (cases "ck_ID k = []")
    case True
    then show ?thesis by (simp add: chunk_ok_def)
  next
    case False
    obtain rs files2 where f: "file_reasons files (ck_Files k) = (rs, files2)" by fastforce
    note spec = file_reasons_spec [OF f]
    have e: "entry_reasons cfg ids k = [] \<longleftrightarrow> chunk_ok cfg k \<and> ck_ID k \<notin> set ids"
      using entry_reasons_Nil [of cfg ids k] False by simp
    have "entries_reasons cfg i ids files (k # ks) = [] \<longleftrightarrow>
        entry_reasons cfg ids k = [] \<and> rs = [] \<and> entries_reasons cfg (Suc i) (ck_ID k # ids) files2 ks = []"
      using False f by simp
    also have "\<dots> \<longleftrightarrow> (chunk_ok cfg k \<and> ck_ID k \<notin> set ids) \<and> (distinct (ck_Files k) \<and> set (ck_Files k) \<inter> set files = {}) \<and>
        ((\<forall>k \<in> set ks. chunk_ok cfg k) \<and> distinct (map ck_ID ks) \<and> ck_ID ` set ks \<inter> set (ck_ID k # ids) = {} \<and>
         distinct (concat (map ck_Files ks)) \<and> set (concat (map ck_Files ks)) \<inter> set files2 = {})"
      using 2(2) [OF False f [symmetric]] spec e by simp
    finally have eq: "entries_reasons cfg i ids files (k # ks) = [] \<longleftrightarrow> (chunk_ok cfg k \<and> ck_ID k \<notin> set ids) \<and>
        (distinct (ck_Files k) \<and> set (ck_Files k) \<inter> set files = {}) \<and>
        ((\<forall>k \<in> set ks. chunk_ok cfg k) \<and> distinct (map ck_ID ks) \<and> ck_ID ` set ks \<inter> set (ck_ID k # ids) = {} \<and>
         distinct (concat (map ck_Files ks)) \<and> set (concat (map ck_Files ks)) \<inter> set files2 = {})" .
    let ?F = "set (ck_Files k)" and ?R = "set (concat (map ck_Files ks))" and ?I = "ck_ID ` set ks"
    have files2: "set files2 = set files \<union> ?F" by (rule conjunct2 [OF spec])
    have d: "distinct (concat (map ck_Files (k # ks))) \<longleftrightarrow>
        distinct (ck_Files k) \<and> distinct (concat (map ck_Files ks)) \<and> ?F \<inter> ?R = {}" by simp
    have r: "?R \<inter> set files2 = {} \<longleftrightarrow> ?R \<inter> set files = {} \<and> ?F \<inter> ?R = {}"
      unfolding files2 by blast
    have f: "set (concat (map ck_Files (k # ks))) \<inter> set files = {} \<longleftrightarrow> ?F \<inter> set files = {} \<and> ?R \<inter> set files = {}"
      by (simp only: list.map concat.simps set_append) blast
    have i: "?I \<inter> set (ck_ID k # ids) = {} \<longleftrightarrow> ck_ID k \<notin> ?I \<and> ?I \<inter> set ids = {}"
      by (simp only: list.set disjoint_insert)
    have j: "ck_ID ` set (k # ks) \<inter> set ids = {} \<longleftrightarrow> ck_ID k \<notin> set ids \<and> ?I \<inter> set ids = {}"
      by (simp only: list.set image_insert insert_disjoint)
    have m: "distinct (map ck_ID (k # ks)) \<longleftrightarrow> ck_ID k \<notin> ?I \<and> distinct (map ck_ID ks)"
      by (simp only: list.map distinct.simps set_map)
    have o: "(\<forall>k' \<in> set (k # ks). chunk_ok cfg k') \<longleftrightarrow> chunk_ok cfg k \<and> (\<forall>k \<in> set ks. chunk_ok cfg k)" by simp
    show ?thesis unfolding eq d r f i j m o by argo
  qed
qed simp

lemma dep_reasons_Nil:
  "dep_reasons chunks = [] \<longleftrightarrow> (\<forall>k \<in> set chunks. \<forall>d \<in> set (ck_DependsOn k). d \<in> set (chunk_ids chunks) \<and> d \<noteq> ck_ID k)"
  by (auto simp: dep_reasons_def)

lemma find_SomeD: "find P xs = Some x \<Longrightarrow> x \<in> set xs \<and> P x"
  by (induction xs) (auto split: if_splits)

lemma chunk_deps_subset: "set (chunk_deps chunks x) \<subseteq> set (concat (map ck_DependsOn chunks))"
proof (cases "find (\<lambda>k. ck_ID k = x \<and> x \<noteq> []) (rev chunks)")
  case None
  then show ?thesis by (simp add: chunk_deps_def)
next
  case (Some k)
  then have "k \<in> set chunks" using find_SomeD [OF Some] by simp
  then show ?thesis using Some by (auto simp: chunk_deps_def)
qed

lemma whites_all: "whites S (\<lambda>_. White) = card S"
  by (simp add: whites_def)

lemma chunk_cycle_total: "hasChunkPlanCycle chunks \<noteq> None"
proof -
  let ?S = "set (map ck_ID chunks) \<union> set (concat (map ck_DependsOn chunks))"
  have "card ?S \<le> length chunks + length (concat (map ck_DependsOn chunks))"
    by (rule order_trans [OF card_Un_le]) (intro add_mono order_trans [OF card_length], simp_all)
  then have "whites ?S (\<lambda>_. White) \<le> length chunks + length (concat (map ck_DependsOn chunks))"
    by (simp only: whites_all)
  moreover have "set (chunk_deps chunks z) \<subseteq> ?S" for z using chunk_deps_subset [of chunks z] by blast
  moreover have "black_ok (chunk_deps chunks) (\<lambda>_. White)" by (simp add: black_ok_def acyclic_def)
  ultimately show ?thesis
    using has_cycle_correct [of ?S "chunk_deps chunks" "map ck_ID chunks" "\<lambda>_. White"
        "length chunks + length (concat (map ck_DependsOn chunks))"]
    unfolding hasChunkPlanCycle_def by fastforce
qed

lemma chunk_deps_eq:
  assumes "distinct (map ck_ID chunks)" "k \<in> set chunks" "ck_ID k \<noteq> []"
  shows "chunk_deps chunks (ck_ID k) = ck_DependsOn k"
proof -
  have "find (\<lambda>k'. ck_ID k' = ck_ID k \<and> ck_ID k \<noteq> []) (rev chunks) \<noteq> None"
    using assms(2,3) by (auto simp: find_None_iff)
  then obtain k' where k': "find (\<lambda>k'. ck_ID k' = ck_ID k \<and> ck_ID k \<noteq> []) (rev chunks) = Some k'" by blast
  from find_SomeD [OF k'] have "k' \<in> set chunks" "ck_ID k' = ck_ID k" by simp_all
  then have "k' = k" using assms(1,2) by (auto simp: distinct_map dest: inj_onD)
  then show ?thesis by (simp add: chunk_deps_def k')
qed

lemma chunk_cycle_exact:
  assumes "distinct (map ck_ID chunks)" "\<forall>k \<in> set chunks. ck_ID k \<noteq> [] \<and> set (ck_DependsOn k) \<subseteq> ck_ID ` set chunks"
  shows "hasChunkPlanCycle chunks = Some (\<not> acyclic (chunk_graph chunks))"
proof -
  have out: "chunk_deps chunks z = []" if "z \<notin> ck_ID ` set chunks" for z
  proof -
    have "find (\<lambda>k. ck_ID k = z \<and> z \<noteq> []) (rev chunks) = None" using that by (auto simp: find_None_iff)
    then show ?thesis by (simp add: chunk_deps_def)
  qed
  have within: "set (chunk_deps chunks z) \<subseteq> ck_ID ` set chunks" for z
  proof (cases "z \<in> ck_ID ` set chunks")
    case True
    then obtain k where "k \<in> set chunks" "z = ck_ID k" by blast
    then show ?thesis using chunk_deps_eq [OF assms(1)] assms(2) by auto
  qed (simp add: out)
  have "edges (chunk_deps chunks) = chunk_graph chunks"
  proof (intro set_eqI, rule iffI)
    fix p assume "p \<in> edges (chunk_deps chunks)"
    then obtain x d where xd: "p = (x, d)" "d \<in> set (chunk_deps chunks x)" by (auto simp: edges_def)
    then have "x \<in> ck_ID ` set chunks" using out by (cases "x \<in> ck_ID ` set chunks") auto
    then obtain k where "k \<in> set chunks" "x = ck_ID k" by blast
    then show "p \<in> chunk_graph chunks" using xd chunk_deps_eq [OF assms(1)] assms(2) by (auto simp: chunk_graph_def)
  next
    fix p assume "p \<in> chunk_graph chunks"
    then show "p \<in> edges (chunk_deps chunks)"
      using chunk_deps_eq [OF assms(1)] assms(2) by (auto simp: chunk_graph_def edges_def)
  qed
  moreover have "has_cycle (chunk_deps chunks) (length chunks + length (concat (map ck_DependsOn chunks))) (\<lambda>_. White)
      (map ck_ID chunks) = Some (\<not> acyclic (edges (chunk_deps chunks)))"
  proof (rule has_cycle_iff)
    show "card (ck_ID ` set chunks) \<le> length chunks + length (concat (map ck_DependsOn chunks))"
      using card_length [of "map ck_ID chunks"] by simp
  qed (use within out in auto)
  ultimately show ?thesis by (simp add: hasChunkPlanCycle_def)
qed

lemma chunk_ids_all: "\<forall>k \<in> set chunks. ck_ID k \<noteq> [] \<Longrightarrow> set (chunk_ids chunks) = ck_ID ` set chunks"
  by (auto simp: chunk_ids_def)

lemma self_dependency_cycle: "k \<in> set chunks \<Longrightarrow> ck_ID k \<in> set (ck_DependsOn k) \<Longrightarrow> \<not> acyclic (chunk_graph chunks)"
  by (auto simp: acyclic_def chunk_graph_def intro!: exI [of _ "ck_ID k"] r_into_trancl)

lemma chunk_plan_multi:
  "validateChunkPlanMulti cfg chunks = Some [] \<longleftrightarrow> chunk_plan_ok cfg chunks"
proof (cases "chunks = []")
  case True
  then show ?thesis by (simp add: validateChunkPlanMulti_def chunk_plan_ok_def)
next
  case False
  obtain b where b: "hasChunkPlanCycle chunks = Some b" using chunk_cycle_total by blast
  have parts: "validateChunkPlanMulti cfg chunks = Some [] \<longleftrightarrow> int (length chunks) \<le> sg_MaxChunks cfg \<and>
      entries_reasons cfg 0 [] [] chunks = [] \<and> dep_reasons chunks = [] \<and> \<not> b"
    using False b by (auto simp: validateChunkPlanMulti_def)
  have named: "\<forall>k \<in> set chunks. ck_ID k \<noteq> []" if "\<forall>k \<in> set chunks. chunk_ok cfg k"
    using that by (auto simp: chunk_ok_def)
  show ?thesis
  proof
    assume "validateChunkPlanMulti cfg chunks = Some []"
    then have v: "int (length chunks) \<le> sg_MaxChunks cfg" "entries_reasons cfg 0 [] [] chunks = []" "dep_reasons chunks = []" "\<not> b"
      using parts by blast+
    have e: "\<forall>k \<in> set chunks. chunk_ok cfg k" "distinct (map ck_ID chunks)" "distinct (concat (map ck_Files chunks))"
      using v(2) unfolding entries_reasons_Nil by blast+
    have d: "\<forall>k \<in> set chunks. set (ck_DependsOn k) \<subseteq> ck_ID ` set chunks"
      using v(3) unfolding dep_reasons_Nil chunk_ids_all [OF named [OF e(1)]] by blast
    then have "acyclic (chunk_graph chunks)" using chunk_cycle_exact [OF e(2)] named [OF e(1)] b v(4) by simp
    then show "chunk_plan_ok cfg chunks" using False v(1) e d by (simp add: chunk_plan_ok_def)
  next
    assume ok: "chunk_plan_ok cfg chunks"
    then have e: "\<forall>k \<in> set chunks. chunk_ok cfg k" "distinct (map ck_ID chunks)"
        "\<forall>k \<in> set chunks. set (ck_DependsOn k) \<subseteq> ck_ID ` set chunks" "acyclic (chunk_graph chunks)"
      unfolding chunk_plan_ok_def by blast+
    have "entries_reasons cfg 0 [] [] chunks = []" using ok by (simp add: entries_reasons_Nil chunk_plan_ok_def)
    moreover have "dep_reasons chunks = []"
      unfolding dep_reasons_Nil chunk_ids_all [OF named [OF e(1)]] using e(3,4) self_dependency_cycle by blast
    moreover have "\<not> b" using chunk_cycle_exact [OF e(2)] named [OF e(1)] e(3,4) b by simp
    ultimately show "validateChunkPlanMulti cfg chunks = Some []" using parts ok by (simp add: chunk_plan_ok_def)
  qed
qed

end
