(* ===== verification/Ctl_Journal.thy ===== *)
theory Ctl_Journal
  imports Ctl_Stacking
begin

text \<open>
  What a controller step leaves in the ledger if it stops half-way.  The locale \<open>journal\<close>
  is the contract of a ledger whose acknowledged outcomes and status changes are a list; in
  it every function of the controller is shown to be crash safe: once an outcome with a route
  to a declared step is recorded, the run is not failed any more.  The contract is
  interpreted on every repository, with a journal kept beside it.
\<close>

datatype call =
    Completed (c_status: string) (c_to: string)
  | StatusSet (c_run_status: string)

text \<open>A route to a step the run would go on with.\<close>

definition live_route :: "string \<Rightarrow> bool" where
  "live_route t \<longleftrightarrow> t \<noteq> [] \<and> \<not> IsTerminalStepID t"

definition live_call :: "call \<Rightarrow> bool" where
  "live_call x \<longleftrightarrow> (case x of Completed s t \<Rightarrow> live_route t | StatusSet s \<Rightarrow> False)"

definition ends_run :: "call \<Rightarrow> bool" where
  "ends_run x \<longleftrightarrow> (case x of Completed s t \<Rightarrow> False
     | StatusSet s \<Rightarrow> s = WfRunStatusFailed \<or> s = WfRunStatusCanceled \<or> s = WfRunStatusTimedOut)"

text \<open>No live outcome is followed by the end of the run.\<close>

fun crash_safe :: "call list \<Rightarrow> bool" where
  "crash_safe [] = True"
| "crash_safe (x # xs) = ((live_call x \<longrightarrow> list_all (\<lambda>y. \<not> ends_run y) xs) \<and> crash_safe xs)"

definition clean :: "call list \<Rightarrow> bool" where
  "clean l \<longleftrightarrow> list_all (\<lambda>x. \<not> live_call x) l"

lemma clean_append [simp]: "clean (l @ m) \<longleftrightarrow> clean l \<and> clean m"
  by (simp add: clean_def)

lemma clean_Cons [simp]: "clean []" "clean (StatusSet s # l) \<longleftrightarrow> clean l"
  "clean (Completed s t # l) \<longleftrightarrow> \<not> live_route t \<and> clean l"
  by (simp_all add: clean_def live_call_def)

lemma crash_safe_snoc [simp]: "crash_safe (l @ [x]) \<longleftrightarrow> crash_safe l \<and> (ends_run x \<longrightarrow> clean l)"
  by (induction l) (auto simp: clean_def)

lemma crash_safe_append: "clean l \<Longrightarrow> crash_safe (l @ m) \<longleftrightarrow> crash_safe m"
  by (induction l) (auto simp: clean_def)

lemma clean_crash_safe: "clean l \<Longrightarrow> crash_safe l"
  by (induction l) (auto simp: clean_def)

lemma not_live [simp]: "\<not> live_route []" "\<not> live_route ''failure''" "IsTerminalStepID t \<Longrightarrow> \<not> live_route t"
  by (simp_all add: live_route_def IsTerminalStepID_def)

section \<open>The contract\<close>

definition noted :: "call list \<Rightarrow> call \<Rightarrow> 'e option \<Rightarrow> call list" where
  "noted l x err = (if err = None then l @ [x] else l)"

locale journal =
  fixes c :: "'w ctl" and log :: "'w \<Rightarrow> call list"
  assumes claim: "rp_ClaimRun (ct_Repo c) r h w = (w1, e) \<Longrightarrow> log w1 = log w"
    and release: "log (fst (rp_ReleaseRun (ct_Repo c) r h w)) = log w"
    and get_run: "rp_GetRun (ct_Repo c) r w = (w1, x1) \<Longrightarrow> log w1 = log w"
    and set_status: "rp_CompareAndSetRunStatus (ct_Repo c) r v s w = (w1, e) \<Longrightarrow> log w1 = noted (log w) (StatusSet s) e"
    and create: "rp_CreateStepAttempt (ct_Repo c) a w = (w1, e) \<Longrightarrow> log w1 = log w"
    and get_attempt: "rp_GetStepAttempt (ct_Repo c) r i w = (w1, x2) \<Longrightarrow> log w1 = log w"
    and list_attempts: "rp_ListStepAttempts (ct_Repo c) r w = (w1, x3) \<Longrightarrow> log w1 = log w"
    and complete: "rp_CompleteStepAttempt (ct_Repo c) r i v oc w = (w1, e) \<Longrightarrow>
          log w1 = noted (log w) (Completed (oc_Status oc) (oc_ToStepID oc)) e"
    and increment: "rp_IncrementLoopCounter (ct_Repo c) r l w = (w1, e) \<Longrightarrow> log w1 = log w"
    and counters: "rp_GetLoopCounters (ct_Repo c) r w = (w1, x4) \<Longrightarrow> log w1 = log w"
    and create_approval: "rp_CreateApproval (ct_Repo c) ap w = (w1, e) \<Longrightarrow> log w1 = log w"
    and resolve: "rp_ResolveApproval (ct_Repo c) r i actor st reason w = (w1, e) \<Longrightarrow> log w1 = log w"
    and approvals: "rp_ListApprovals (ct_Repo c) r w = (w1, x5) \<Longrightarrow> log w1 = log w"
    and store: "rp_StoreContent (ct_Repo c) ref text w = (w1, e) \<Longrightarrow> log w1 = log w"
    and load: "rp_LoadContent (ct_Repo c) ref w = (w1, x6) \<Longrightarrow> log w1 = log w"
    and execution: "rp_SetStepAttemptExecution (ct_Repo c) r i run task reason w = (w1, e) \<Longrightarrow> log w1 = log w"
begin

lemmas laws = claim get_run set_status create get_attempt list_attempts complete increment counters
  create_approval resolve approvals store load execution

lemmas splits = prod.splits sum.splits option.splits if_splits

section \<open>Functions that only read, or only note what is clean\<close>

lemma store_error: "storeErrorText c cause w = (w1, ref) \<Longrightarrow> log w1 = log w"
  by (auto simp: storeErrorText_def Let_def split: splits dest!: laws)

lemma loop_cap: "checkLoopCap c l n w = (w1, x) \<Longrightarrow> log w1 = log w"
  by (auto simp: checkLoopCap_def Let_def split: splits dest!: laws)

lemma salvage: "salvageLoopSuccesses c w = (w1, x) \<Longrightarrow> log w1 = log w"
  by (auto simp: salvageLoopSuccesses_def split: splits dest!: laws)

lemma exhausted_error: "loopExhaustedRouteError c e s w = (w1, x) \<Longrightarrow> log w1 = log w"
  by (cases e) (auto simp: loopExhaustedRouteError_def split: splits dest!: salvage)

lemma matching: "route_matching c wrap step st out w = (w1, x) \<Longrightarrow> log w1 = log w"
  by (auto simp: route_matching_def Let_def split: splits dest!: loop_cap exhausted_error)

lemma select: "selectRoute c step st out w = (w1, x) \<Longrightarrow> log w1 = log w"
  by (auto simp: selectRoute_def split: splits dest!: matching)

lemma select_failure: "selectEvidenceFailureRoute c step out w = (w1, x) \<Longrightarrow> log w1 = log w"
  by (auto simp: selectEvidenceFailureRoute_def dest!: matching)

lemma complete_step:
  "CompleteExistingStepResult c a result status route w = (w1, e) \<Longrightarrow>
   log w1 = noted (log w) (Completed status (rt_ToStepID route)) e"
  by (auto simp: CompleteExistingStepResult_def Let_def outcome_of_def noted_def split: splits dest!: laws)

lemma record_loop: "recordLoopAfterComplete c route w = (w1, e) \<Longrightarrow> log w1 = log w"
  by (auto simp: recordLoopAfterComplete_def split: splits dest!: laws)

lemma fail_status: "failWithStatus c run cause status w = (w1, x) \<Longrightarrow> clean (log w) \<Longrightarrow> clean (log w1)"
  by (auto simp: failWithStatus_def noted_def split: splits dest!: laws)

lemma fail: "ctl_fail c run cause w = (w1, x) \<Longrightarrow> clean (log w) \<Longrightarrow> clean (log w1)"
  by (auto simp: ctl_fail_def dest: fail_status)

lemma settle_one: "settle_status c run status w = (w1, x) \<Longrightarrow> clean (log w) \<Longrightarrow> clean (log w1)"
  by (auto simp: settle_status_def noted_def split: splits dest!: laws)

lemma reconcile_route: "reconcileTerminalRoute c run w = (w1, x) \<Longrightarrow> clean (log w) \<Longrightarrow> clean (log w1)"
  unfolding reconcileTerminalRoute_def Let_def
  by (auto simp: noted_def split: splits dest!: laws dest: settle_one)

text \<open>After an outcome the run is settled only when its route is terminal.\<close>

lemma settle_after:
  "settleAfterRoute c route w = (w1, x) \<Longrightarrow> crash_safe (log w) \<Longrightarrow>
   clean (log w) \<or> \<not> IsTerminalStepID (rt_ToStepID route) \<Longrightarrow> crash_safe (log w1)"
  by (auto simp: settleAfterRoute_def split: splits dest!: laws intro: clean_crash_safe dest: reconcile_route)

lemma timeout_human: "timeoutOpenHumanAttempt c d run w = w1 \<Longrightarrow> clean (log w) \<Longrightarrow> clean (log w1)"
proof (cases "WorkflowStep c (wr_ActiveStepID run)")
  case (Some step)
  assume "timeoutOpenHumanAttempt c d run w = w1" "clean (log w)"
  then show ?thesis using Some complete_step [OF surjective_pairing]
    by (auto simp: timeoutOpenHumanAttempt_def noted_def no_route_def split: splits dest!: laws store_error)
qed (auto simp: timeoutOpenHumanAttempt_def)

lemma timeout_run: "timeout_running c d run w = (w1, x) \<Longrightarrow> clean (log w) \<Longrightarrow> clean (log w1)"
  using timeout_human [OF refl, of w d run]
  by (auto simp: timeout_running_def split: splits dest!: get_run dest: fail_status)

lemma timeout_expired: "timeoutExpiredRun c d run w = (w1, x) \<Longrightarrow> clean (log w) \<Longrightarrow> clean (log w1)"
proof -
  assume t: "timeoutExpiredRun c d run w = (w1, x)" and cl: "clean (log w)"
  obtain w2 snap stop err where r: "reconcileTerminalRoute c run w = (w2, snap, stop, err)" by (metis prod.collapse)
  have cl2: "clean (log w2)" by (rule reconcile_route [OF r cl])
  show ?thesis
  proof (cases stop)
    case True
    then show ?thesis using t r cl2 by (simp add: timeoutExpiredRun_def)
  next
    case False
    then show ?thesis using t r cl2
      by (auto simp: timeoutExpiredRun_def noted_def split: splits bool.splits dest!: set_status get_run
          dest: reconcile_route timeout_run)
  qed
qed

lemma terminal_attempt: "reconcileTerminalAttempt c run a w = (w1, x) \<Longrightarrow> clean (log w) \<Longrightarrow> clean (log w1)"
  by (auto simp: reconcileTerminalAttempt_def split: splits dest: fail fail_status)

lemma create_admitted: "createAdmittedAttempt c i n as w = (w1, x) \<Longrightarrow> log w1 = log w"
  by (auto simp: createAdmittedAttempt_def split: splits dest!: laws)

lemma admit: "admitAttempt c i as w = (w1, x) \<Longrightarrow> clean (log w) \<Longrightarrow> clean (log w1)"
  by (auto simp: admitAttempt_def noted_def interrupted_outcome_def outcome_of_def no_route_def
      split: splits dest!: laws create_admitted)

lemma record_fail:
  "record_and_fail c run a result st route cause rst w = (w1, x) \<Longrightarrow> clean (log w) \<Longrightarrow> \<not> live_route (rt_ToStepID route) \<Longrightarrow>
   clean (log w1)"
  by (auto simp: record_and_fail_def noted_def split: splits dest!: complete_step dest: fail fail_status)

lemma fail_attempt: "failAttempt c run a cause w = (w1, x) \<Longrightarrow> clean (log w) \<Longrightarrow> clean (log w1)"
proof -
  assume f: "failAttempt c run a cause w = (w1, x)" and cl: "clean (log w)"
  obtain w2 ref where s: "storeErrorText c (Some cause) w = (w2, ref)" by fastforce
  obtain w3 e where e: "CompleteExistingStepResult c a (no_result\<lparr>rs_ErrorRef := ref\<rparr>) AttemptStatusFailed no_route w2 = (w3, e)"
    by fastforce
  have "clean (log w3)" using complete_step [OF e] store_error [OF s] cl by (simp add: noted_def no_route_def)
  then show ?thesis using f s e fail by (simp add: failAttempt_def)
qed

lemma terminal_route_dead: "\<not> live_route (rt_ToStepID (terminal_route route))"
  by (simp add: terminal_route_def)

section \<open>Outcomes with a route\<close>

lemma record_route:
  "record_and_route c run a result st route w = (w1, x) \<Longrightarrow> clean (log w) \<Longrightarrow> crash_safe (log w1)"
proof -
  assume r: "record_and_route c run a result st route w = (w1, x)" and cl: "clean (log w)"
  obtain w2 e where e: "CompleteExistingStepResult c a result st route w = (w2, e)" by fastforce
  show ?thesis
  proof (cases e)
    case None
    then have l: "log w2 = log w @ [Completed st (rt_ToStepID route)]" using complete_step [OF e] by (simp add: noted_def)
    have "settleAfterRoute c route w2 = (w1, x)" using r e None by (simp add: record_and_route_def)
    then show ?thesis
      by (rule settle_after) (use l cl in \<open>auto intro: clean_crash_safe simp: ends_run_def\<close>)
  next
    case (Some err)
    then have "clean (log w2)" using complete_step [OF e] cl by (simp add: noted_def)
    then show ?thesis using r e Some by (auto simp: record_and_route_def intro: clean_crash_safe dest: fail)
  qed
qed

lemma complete_succeeded:
  "completeSucceededRoute c a result route w = (w1, e) \<Longrightarrow>
   log w1 = log w @ [Completed AttemptStatusSucceeded (rt_ToStepID route)] \<and> (e = None \<or> (\<exists>x. e = Some x \<and> isLoopAccountError x)) \<or>
   log w1 = log w \<and> e \<noteq> None"
proof -
  assume c: "completeSucceededRoute c a result route w = (w1, e)"
  obtain w2 e2 where e: "CompleteExistingStepResult c a result AttemptStatusSucceeded route w = (w2, e2)" by fastforce
  show ?thesis
  proof (cases e2)
    case None
    obtain w3 e3 where l: "recordLoopAfterComplete c route w2 = (w3, e3)" by fastforce
    have "e3 = None \<or> (\<exists>x. e3 = Some (CLedger x))" using l
      by (auto simp: recordLoopAfterComplete_def split: splits)
    then have "(w1, e) = (w3, None) \<or> (\<exists>x. (w1, e) = (w3, Some (CLoopAccount x)))"
      using c e None l by (auto simp: completeSucceededRoute_def)
    then show ?thesis using complete_step [OF e] record_loop [OF l] None by (auto simp: noted_def isLoopAccountError_def)
  next
    case (Some err)
    then show ?thesis using c e complete_step [OF e] by (auto simp: completeSucceededRoute_def noted_def)
  qed
qed

lemma succeed_route:
  "succeed_and_route c run a result route w = (w1, x) \<Longrightarrow> clean (log w) \<Longrightarrow> crash_safe (log w1)"
proof -
  assume s: "succeed_and_route c run a result route w = (w1, x)" and cl: "clean (log w)"
  obtain w2 e where e: "completeSucceededRoute c a result route w = (w2, e)" by fastforce
  from complete_succeeded [OF e] show ?thesis
  proof
    assume l: "log w2 = log w @ [Completed AttemptStatusSucceeded (rt_ToStepID route)] \<and>
        (e = None \<or> (\<exists>x. e = Some x \<and> isLoopAccountError x))"
    then have "settleAfterRoute c route w2 = (w1, x)" using s e by (auto simp: succeed_and_route_def)
    then show ?thesis
      by (rule settle_after) (use l cl in \<open>auto intro: clean_crash_safe simp: ends_run_def\<close>)
  next
    assume l: "log w2 = log w \<and> e \<noteq> None"
    then obtain err where err: "e = Some err" by blast
    show ?thesis
    proof (cases "isLoopAccountError err")
      case True
      then have "settleAfterRoute c route w2 = (w1, x)" using s e err by (simp add: succeed_and_route_def)
      then show ?thesis by (rule settle_after) (use l cl in \<open>auto intro: clean_crash_safe\<close>)
    next
      case False
      then show ?thesis using s e err l cl by (auto simp: succeed_and_route_def intro: clean_crash_safe dest: fail)
    qed
  qed
qed

section \<open>Human gates\<close>

lemma pending_approval_quiet: "ensurePendingApproval c i n w = (w1, x) \<Longrightarrow> log w1 = log w"
  by (auto simp: ensurePendingApproval_def split: splits dest!: laws)

lemma pause: "pauseHumanGate c run step a w = (w1, x) \<Longrightarrow> clean (log w) \<Longrightarrow> clean (log w1)"
  by (auto simp: pauseHumanGate_def noted_def split: splits dest!: laws pending_approval_quiet dest: fail)

lemma admit_human: "admitHumanGate c run step as n w = (w1, x) \<Longrightarrow> clean (log w) \<Longrightarrow> clean (log w1)"
  by (auto simp: admitHumanGate_def split: splits dest!: laws dest: fail pause)

lemma advance_human: "advanceHumanGate c run step w = (w1, x) \<Longrightarrow> clean (log w) \<Longrightarrow> clean (log w1)"
  by (auto simp: advanceHumanGate_def split: splits dest!: laws dest: admit_human pause terminal_attempt)

lemma finish_clean: "finishHumanRunStatus c st t d w = (w1, x) \<Longrightarrow> clean (log w) \<Longrightarrow> clean (log w1)"
  by (auto simp: finishHumanRunStatus_def noted_def split: splits dest!: laws)

text \<open>After an approval with a live route the run is at most set running.\<close>

lemma finish_live:
  "finishHumanRunStatus c AttemptStatusSucceeded t d w = (w1, x) \<Longrightarrow> d \<noteq> ''rejected'' \<Longrightarrow> live_route t \<Longrightarrow>
   log w1 = log w \<or> log w1 = log w @ [StatusSet WfRunStatusRunning]"
  by (auto simp: finishHumanRunStatus_def noted_def live_route_def attempt_status_defs split: splits dest!: laws)

lemma rejection: "finishHumanRejection c step a w = (w1, x) \<Longrightarrow> clean (log w) \<Longrightarrow> clean (log w1)"
  by (auto simp: finishHumanRejection_def noted_def terminal_route_dead split: splits dest!: laws store_error complete_step)

lemma approval:
  assumes "finishHumanApproval c step a d w = (w1, x)" "clean (log w)" "d \<noteq> ''rejected''"
  shows "crash_safe (log w1)"
proof -
  obtain w2 route e where s: "selectRoute c step AttemptStatusSucceeded approved_output w = (w2, route, e)"
    by (metis prod.collapse)
  have l2: "log w2 = log w" by (rule select [OF s])
  show ?thesis
  proof (cases e)
    case (Some err)
    then have "clean (log w1)" using assms(1,2) s l2
      by (auto simp: finishHumanApproval_def Let_def noted_def terminal_route_dead split: splits
          dest!: get_run store_error complete_step simp: set_status [OF surjective_pairing])
    then show ?thesis by (rule clean_crash_safe)
  next
    case None
    obtain w3 e3 where c3: "completeSucceededRoute c a (no_result\<lparr>rs_Output := approved_json\<rparr>) route w2 = (w3, e3)" by fastforce
    show ?thesis
    proof (cases e3)
      case (Some err)
      then have "w1 = w3" using assms(1) s None c3 by (simp add: finishHumanApproval_def)
      then show ?thesis using complete_succeeded [OF c3] l2 assms(2) by (auto simp: ends_run_def intro: clean_crash_safe)
    next
      case none: None
      then have l3: "log w3 = log w @ [Completed AttemptStatusSucceeded (rt_ToStepID route)]"
        using complete_succeeded [OF c3] l2 by auto
      have f: "finishHumanRunStatus c AttemptStatusSucceeded (rt_ToStepID route) d w3 = (w1, x)"
        using assms(1) s None none c3 by (simp add: finishHumanApproval_def)
      show ?thesis
      proof (cases "live_route (rt_ToStepID route)")
        case True
        from finish_live [OF f assms(3) True] show ?thesis using l3 assms(2)
          by (auto simp: crash_safe_append clean_crash_safe ends_run_def wf_run_status_defs)
      next
        case False
        then show ?thesis using finish_clean [OF f] l3 assms(2) by (simp add: clean_crash_safe)
      qed
    qed
  qed
qed

lemma finish_attempt:
  "finishHumanResolutionForAttempt c step d n w = (w1, x) \<Longrightarrow> clean (log w) \<Longrightarrow> crash_safe (log w1)"
  by (auto simp: finishHumanResolutionForAttempt_def split: splits dest!: list_attempts
      intro: clean_crash_safe dest: finish_clean rejection approval)

lemma resume: "resume_running c run w = (w1, x) \<Longrightarrow> clean (log w) \<Longrightarrow> clean (log w1)"
  by (auto simp: resume_running_def noted_def split: splits dest!: laws)

lemma reconcile_human: "reconcile_gate c run step w = (w1, x) \<Longrightarrow> clean (log w) \<Longrightarrow> crash_safe (log w1)"
proof -
  assume r: "reconcile_gate c run step w = (w1, x)" and cl: "clean (log w)"
  show ?thesis
    using r cl unfolding reconcile_gate_def
    by (auto split: splits dest!: list_attempts approvals get_run
        intro: clean_crash_safe dest: advance_human pause admit_human fail finish_attempt)
qed

lemma waiting: "reconcileWaitingApproval c run w = (w1, x) \<Longrightarrow> clean (log w) \<Longrightarrow> crash_safe (log w1)"
  by (auto simp: reconcileWaitingApproval_def split: splits
      intro: clean_crash_safe dest: resume reconcile_route reconcile_human)

end

section \<open>Agent steps and evidence gates\<close>

text \<open>
  The outside world of a step: the checks of a succeeded step, the verifiers and the runner do
  not settle the run, and a panel step is crash safe.
\<close>

locale journal_env = journal c log for c :: "'w ctl" and log +
  fixes g :: "'w route_gates" and ge :: "'w gate_env" and r :: "('q, 'w) step_runner" and panel :: "'w panel_step"
  assumes repair: "rg_planRepair g s route out w = (w1, x1) \<Longrightarrow> log w1 = log w"
    and diff: "rg_diffSize g s route w = (w1, x2) \<Longrightarrow> log w1 = log w"
    and blocked: "rg_blocked g out w = (w1, x3) \<Longrightarrow> log w1 = log w"
    and progress: "rg_noProgress g s route out w = (w1, x4) \<Longrightarrow> log w1 = log w"
    and verify: "ge_verify ge s a w = (w1, x5) \<Longrightarrow> log w1 = log w"
    and request: "sr_request r run s a as w = (w1, x6) \<Longrightarrow> log w1 = log w"
    and runs: "sr_run r q w = (w1, x7) \<Longrightarrow> log w1 = log w"
    and joins: "sr_join r = Some j \<Longrightarrow> j q w = (w1, x8) \<Longrightarrow> log w1 = log w"
    and panels: "panel run s w = (w1, x9) \<Longrightarrow> clean (log w) \<Longrightarrow> crash_safe (log w1)"
begin

lemma degraded: "degrade c cause route result w = (w1, x) \<Longrightarrow> log w1 = log w"
  by (auto simp: degrade_def split: splits dest!: store_error)

lemma settle_succeeded: "settleSucceededRoute c g step result out w = (w1, x) \<Longrightarrow> log w1 = log w"
  unfolding settleSucceededRoute_def
  by (auto split: splits bool.splits dest!: select repair diff blocked progress degraded)

lemma settle_outcome: "settleAttemptOutcome c g step result out err w = (w1, x) \<Longrightarrow> log w1 = log w"
  unfolding settleAttemptOutcome_def Let_def
  by (auto split: splits dest!: store_error settle_succeeded)

lemma outcome_route:
  "settleAttemptOutcome c g step result out err w = (w1, status, err2, route, degraded2, result2) \<Longrightarrow>
   status \<noteq> AttemptStatusSucceeded \<Longrightarrow> status \<noteq> AttemptStatusFailed \<Longrightarrow> route = no_route"
  unfolding settleAttemptOutcome_def Let_def
  by (auto split: splits)

lemma repairable: "agentFailureRepairable c step route w = (w1, x) \<Longrightarrow> log w1 = log w"
  "hostFailureRepairable c step route w = (w1, x) \<Longrightarrow> log w1 = log w"
  by (auto simp: agentFailureRepairable_def hostFailureRepairable_def split: splits dest!: list_attempts)

lemma settle_agent:
  assumes "settleAgentAttempt c g run step a result out err w = (w1, x)" "clean (log w)"
  shows "crash_safe (log w1)"
proof -
  obtain w2 status err2 route degraded2 result2
    where o: "settleAttemptOutcome c g step result out err w = (w2, status, err2, route, degraded2, result2)"
    by (metis prod.collapse)
  have cl: "clean (log w2)" using settle_outcome [OF o] assms(2) by simp
  show ?thesis
  proof (cases "status = AttemptStatusSucceeded \<or> status = AttemptStatusFailed")
    case True
    then show ?thesis using assms(1) o cl
      by (auto simp: settleAgentAttempt_def Let_def terminal_route_dead split: splits bool.splits dest!: repairable
          intro: clean_crash_safe dest: succeed_route record_route record_fail)
  next
    case False
    then have "\<not> live_route (rt_ToStepID route)" using outcome_route [OF o] by (simp add: no_route_def)
    then show ?thesis using assms(1) o cl False
      by (auto simp: settleAgentAttempt_def Let_def intro: clean_crash_safe dest: record_fail)
  qed
qed

lemma retry:
  assumes "\<And>q w w1 y. sr_run r q w = (w1, y) \<Longrightarrow> log w1 = log w"
  shows "transient_retry c r a n i q w child = (w1, x) \<Longrightarrow> log w1 = log w"
proof (induction n arbitrary: i q w child)
  case (Suc n)
  obtain result out err where child: "child = (result, out, err)" by (metis prod.collapse)
  show ?case
  proof (cases "\<exists>e. err = Some e \<and> sr_transient r e")
    case False
    then show ?thesis using Suc.prems child by (auto split: option.splits)
  next
    case True
    then obtain e where e: "err = Some e" "sr_transient r e" by blast
    obtain w2 e2 where s: "rp_SetStepAttemptExecution (ct_Repo c) (ct_RunID c) (at_AttemptID a) (sr_retryRun r i)
        (sr_retryTask r i) (truncateReason (ct_text c e)) w = (w2, e2)" by fastforce
    note l2 = execution [OF s]
    obtain w3 child3 where run: "sr_run r (sr_identify r (sr_retryRun r i) (sr_retryTask r i) q) w2 = (w3, child3)"
      by (metis prod.collapse)
    note l3 = assms [OF run]
    show ?thesis using Suc.prems Suc.IH [of "Suc i" "sr_identify r (sr_retryRun r i) (sr_retryTask r i) q" w3 child3] l2 l3
      by (auto simp: child e s run Let_def split: option.splits)
  qed
qed simp

lemma run_step: "runStepWithTransientRetry c r q a w = (w1, x) \<Longrightarrow> log w1 = log w"
proof -
  assume s: "runStepWithTransientRetry c r q a w = (w1, x)"
  obtain w2 child where first: "sr_run r q w = (w2, child)" by (metis prod.collapse)
  then have "transient_retry c r a (transientStepRetryLimit c) 0 q w2 child = (w1, x)"
    using s by (simp add: runStepWithTransientRetry_def)
  from retry [OF runs this] show "log w1 = log w" using runs [OF first] by simp
qed

lemma execute:
  assumes "executeAgentAttempt c g r run step a as w = (w1, x)" "clean (log w)"
  shows "crash_safe (log w1)"
proof -
  obtain w2 y where q: "sr_request r run step a as w = (w2, y)" by fastforce
  have cl: "clean (log w2)" using request [OF q] assms(2) by simp
  show ?thesis
  proof (cases y)
    case (Inl err)
    then show ?thesis using assms(1) q cl by (auto simp: executeAgentAttempt_def intro: clean_crash_safe dest: fail_attempt)
  next
    case (Inr req)
    obtain w3 result out err where rs: "runStepWithTransientRetry c r req a w2 = (w3, result, out, err)" by (metis prod.collapse)
    then have "settleAgentAttempt c g run step a result out err w3 = (w1, x)" using assms(1) q Inr by (simp add: executeAgentAttempt_def)
    then show ?thesis by (rule settle_agent) (use run_step [OF rs] cl in simp)
  qed
qed

lemma dispatch: "dispatch_admitted c g r run step as w = (w1, x) \<Longrightarrow> clean (log w) \<Longrightarrow> crash_safe (log w1)"
proof -
  assume d: "dispatch_admitted c g r run step as w = (w1, x)" and cl: "clean (log w)"
  obtain w2 y where a: "admitAttempt c (sp_ID step) as w = (w2, y)" by fastforce
  have cl2: "clean (log w2)" by (rule admit [OF a cl])
  then show ?thesis using d a
    by (auto simp: dispatch_admitted_def split: splits bool.splits dest!: list_attempts
        intro: clean_crash_safe dest: fail terminal_attempt execute)
qed

lemma join: "joinInFlightAttempt c g r run step a as w = (w1, x) \<Longrightarrow> clean (log w) \<Longrightarrow> crash_safe (log w1)"
proof (cases "sr_join r")
  case None
  assume "joinInFlightAttempt c g r run step a as w = (w1, x)" "clean (log w)"
  then show ?thesis using None by (auto simp: joinInFlightAttempt_def dest: dispatch)
next
  case (Some j)
  assume js: "joinInFlightAttempt c g r run step a as w = (w1, x)" and cl: "clean (log w)"
  obtain w2 y where q: "sr_request r run step a as w = (w2, y)" by fastforce
  have cl2: "clean (log w2)" using request [OF q] cl by simp
  show ?thesis
  proof (cases y)
    case (Inl err)
    then show ?thesis using js q Some cl2 by (auto simp: joinInFlightAttempt_def intro: clean_crash_safe dest: fail_attempt)
  next
    case (Inr req)
    obtain w3 joined result out err where jn: "j req w2 = (w3, joined, result, out, err)" by (metis prod.collapse)
    have cl3: "clean (log w3)" using joins [OF Some jn] cl2 by simp
    then show ?thesis using js q Some Inr jn
      by (auto simp: joinInFlightAttempt_def split: bool.splits dest: settle_agent dispatch)
  qed
qed

lemma agent: "advanceAgentStep c g r run step w = (w1, x) \<Longrightarrow> clean (log w) \<Longrightarrow> crash_safe (log w1)"
  by (auto simp: advanceAgentStep_def split: splits dest!: list_attempts
      intro: clean_crash_safe dest: join dispatch)

lemma gate_timeout: "settleEvidenceGateTimeout c run a e w = (w1, x) \<Longrightarrow> clean (log w) \<Longrightarrow> clean (log w1)"
  by (auto simp: settleEvidenceGateTimeout_def no_route_def split: splits dest!: store_error dest: record_fail)

lemma host_failure: "settleHostFailure c ge run a step out w = (w1, x) \<Longrightarrow> clean (log w) \<Longrightarrow> crash_safe (log w1)"
  by (auto simp: settleHostFailure_def Let_def terminal_route_dead split: splits bool.splits dest!: store_error repairable(2)
      intro: clean_crash_safe dest: record_route record_fail)

lemma blocked_failure: "settleBlockedGateFailure c run a step out bs w = (w1, x) \<Longrightarrow> clean (log w) \<Longrightarrow> clean (log w1)"
  by (auto simp: settleBlockedGateFailure_def Let_def split: splits dest!: store_error dest: record_fail)

lemma evidence_failure:
  assumes "routeEvidenceFailure c ge run a step res out om w = (w1, x)" "clean (log w)"
  shows "crash_safe (log w1)"
proof -
  consider "ge_blocked ge res \<noteq> []" | "ge_blocked ge res = []" "\<not> Repairable res" | "ge_blocked ge res = []" "Repairable res" by blast
  then show ?thesis
  proof cases
    case 3
    obtain w2 route e where s: "selectEvidenceFailureRoute c step om w = (w2, route, e)" by (metis prod.collapse)
    have cl: "clean (log w2)" using select_failure [OF s] assms(2) by simp
    show ?thesis
    proof (cases e)
      case (Some err)
      then show ?thesis using assms(1) 3 s cl
        by (auto simp: routeEvidenceFailure_def terminal_route_dead split: splits dest!: store_error
            intro: clean_crash_safe dest: record_fail)
    next
      case None
      obtain w3 e3 where c3: "CompleteExistingStepResult c a (no_result\<lparr>rs_Output := out\<rparr>) AttemptStatusFailed route w2 = (w3, e3)"
        by fastforce
      show ?thesis
      proof (cases e3)
        case (Some err)
        then have "clean (log w3)" using complete_step [OF c3] cl by (simp add: noted_def)
        then show ?thesis using assms(1) 3 s None c3 Some by (auto simp: routeEvidenceFailure_def intro: clean_crash_safe dest: fail)
      next
        case none: None
        obtain w4 e4 where l4: "recordLoopAfterComplete c route w3 = (w4, e4)" by fastforce
        have log4: "log w4 = log w2 @ [Completed AttemptStatusFailed (rt_ToStepID route)]"
          using complete_step [OF c3] record_loop [OF l4] none by (simp add: noted_def)
        have "settleAfterRoute c route w4 = (w1, x)" using assms(1) 3 s None none c3 l4 by (simp add: routeEvidenceFailure_def)
        then show ?thesis
          by (rule settle_after) (use log4 cl in \<open>auto intro: clean_crash_safe simp: ends_run_def\<close>)
      qed
    qed
  qed (use assms in \<open>auto simp: routeEvidenceFailure_def intro: clean_crash_safe dest: blocked_failure host_failure\<close>)
qed

lemma evidence:
  assumes "advanceEvidenceGate c ge run step w = (w1, x)" "clean (log w)"
  shows "crash_safe (log w1)"
proof (cases "ge_profile ge step")
  case (Some e)
  then show ?thesis using assms by (auto simp: advanceEvidenceGate_def intro: clean_crash_safe dest: fail)
next
  case prof: None
  obtain w2 y where l: "rp_ListStepAttempts (ct_Repo c) (ct_RunID c) w = (w2, y)" by fastforce
  have cl2: "clean (log w2)" using list_attempts [OF l] assms(2) by simp
  show ?thesis
  proof (cases y)
    case (Inl err)
    then show ?thesis using assms(1) prof l cl2 by (auto simp: advanceEvidenceGate_def intro: clean_crash_safe)
  next
    case (Inr as)
    obtain w3 z where a: "admitAttempt c (sp_ID step) as w2 = (w3, z)" by fastforce
    have cl3: "clean (log w3)" by (rule admit [OF a cl2])
    show ?thesis
    proof (cases "\<exists>att. z = Inr (att, True)")
      case False
      then show ?thesis using assms(1) prof l Inr a cl3
        by (auto simp: advanceEvidenceGate_def split: sum.splits prod.splits bool.splits
            intro: clean_crash_safe dest: fail terminal_attempt)
    next
      case True
      then obtain att where z: "z = Inr (att, True)" by blast
      obtain w4 res err where v: "ge_verify ge step att w3 = (w4, res, err)" by (metis prod.collapse)
      have cl4: "clean (log w4)" using verify [OF v] cl3 by simp
      show ?thesis
      proof (cases "err \<noteq> None \<or> gr_Status res = ''failed''")
        case True
        then have "(\<exists>e. settleEvidenceGateTimeout c run att e w4 = (w1, x)) \<or>
            (\<exists>r out om. routeEvidenceFailure c ge run att step r out om w4 = (w1, x))"
          using assms(1) prof l Inr a z v
          by (cases err) (auto simp: advanceEvidenceGate_def Let_def simp del: not_None_eq split: if_split_asm)
        then show ?thesis using cl4 by (blast intro: clean_crash_safe dest: gate_timeout evidence_failure)
      next
        case False
        then have ok: "err = None" "gr_Status res \<noteq> ''failed''" by auto
        let ?om = "[(''status'', VString (gr_Status res)), (''checks'', checksAsAny (gr_Checks res))]"
        obtain w5 route e2 where s: "selectRoute c step AttemptStatusSucceeded ?om w4 = (w5, route, e2)" by (metis prod.collapse)
        have cl5: "clean (log w5)" using select [OF s] cl4 by simp
        show ?thesis
        proof (cases e2)
          case None
          then show ?thesis using assms(1) prof l Inr a z v ok s cl5
            by (auto simp: advanceEvidenceGate_def Let_def dest: succeed_route)
        next
          case (Some err2)
          obtain w6 ref where st: "storeErrorText c (Some err2) w5 = (w6, ref)" by fastforce
          let ?route = "terminal_route (if rt_ToStepID route = [] then failureRoute step else route)"
          obtain w7 e3 where c7: "CompleteExistingStepResult c att (no_result\<lparr>rs_Output := ge_json ge res, rs_ErrorRef := ref\<rparr>)
              AttemptStatusFailed ?route w6 = (w7, e3)" by fastforce
          have "clean (log w7)" using complete_step [OF c7] store_error [OF st] cl5
            by (simp add: noted_def terminal_route_dead)
          moreover have "ctl_fail c run err2 w7 = (w1, x)" using assms(1) prof l Inr a z v ok s Some st c7
            by (simp add: advanceEvidenceGate_def Let_def)
          ultimately show ?thesis by (intro clean_crash_safe) (rule fail)
        qed
      qed
    qed
  qed
qed

section \<open>The whole step\<close>

lemma kind: "advance_kind c g ge r panel run w = (w1, x) \<Longrightarrow> clean (log w) \<Longrightarrow> crash_safe (log w1)"
  by (auto simp: advance_kind_def split: option.splits if_splits
      intro: clean_crash_safe dest: fail agent panels evidence advance_human)

lemma running: "advance_running c g ge r panel now d run w = (w1, x) \<Longrightarrow> clean (log w) \<Longrightarrow> crash_safe (log w1)"
proof -
  assume a: "advance_running c g ge r panel now d run w = (w1, x)" and cl: "clean (log w)"
  obtain w2 snap stop err where rr: "reconcileTerminalRoute c run w = (w2, snap, stop, err)" by (metis prod.collapse)
  have cl2: "clean (log w2)" by (rule reconcile_route [OF rr cl])
  show ?thesis
  proof (cases stop)
    case True
    then show ?thesis using a rr cl2 by (auto simp: advance_running_def intro: clean_crash_safe)
  next
    case False
    then consider "timeoutExpiredRun c d run w2 = (w1, x)" | "reconcileWaitingApproval c run w2 = (w1, x)"
      | "advance_kind c g ge r panel run w2 = (w1, x)"
      using a rr by (auto simp: advance_running_def split: if_splits)
    then show ?thesis by cases (use cl2 in \<open>auto intro: clean_crash_safe dest: timeout_expired waiting kind\<close>)
  qed
qed

lemma claimed: "advance_claimed c g ge r panel now d w = (w1, x) \<Longrightarrow> clean (log w) \<Longrightarrow> crash_safe (log w1)"
  by (auto simp: advance_claimed_def noted_def split: splits dest!: get_run set_status
      intro: clean_crash_safe dest: running)

lemma advance: "clean (log w) \<Longrightarrow> crash_safe (log (fst (Advance c g ge r panel now d w)))"
proof -
  assume cl: "clean (log w)"
  obtain w1 e where cm: "rp_ClaimRun (ct_Repo c) (ct_RunID c) (ct_Holder c) w = (w1, e)" by fastforce
  obtain w2 x where a: "advance_claimed c g ge r panel now d w1 = (w2, x)" by (metis prod.collapse)
  show ?thesis using claim [OF cm] cl claimed [OF a]
    by (auto simp: Advance_def cm a release intro: clean_crash_safe split: option.split)
qed

end

section \<open>A journal beside any ledger\<close>

definition beside :: "('w \<Rightarrow> 'w \<times> 'x) \<Rightarrow> 'w \<times> call list \<Rightarrow> ('w \<times> call list) \<times> 'x" where
  "beside f = (\<lambda>(w, l). case f w of (w1, x) \<Rightarrow> ((w1, l), x))"

definition noting :: "call \<Rightarrow> ('w \<Rightarrow> 'w \<times> 'e option) \<Rightarrow> 'w \<times> call list \<Rightarrow> ('w \<times> call list) \<times> 'e option" where
  "noting x f = (\<lambda>(w, l). case f w of (w1, e) \<Rightarrow> ((w1, noted l x e), e))"

definition traced :: "'w repo \<Rightarrow> ('w \<times> call list) repo" where
  "traced R = \<lparr>
     rp_ClaimRun = (\<lambda>r h. beside (rp_ClaimRun R r h)),
     rp_ReleaseRun = (\<lambda>r h. beside (rp_ReleaseRun R r h)),
     rp_GetRun = (\<lambda>r. beside (rp_GetRun R r)),
     rp_CompareAndSetRunStatus = (\<lambda>r v s. noting (StatusSet s) (rp_CompareAndSetRunStatus R r v s)),
     rp_CreateStepAttempt = (\<lambda>a. beside (rp_CreateStepAttempt R a)),
     rp_GetStepAttempt = (\<lambda>r i. beside (rp_GetStepAttempt R r i)),
     rp_ListStepAttempts = (\<lambda>r. beside (rp_ListStepAttempts R r)),
     rp_CompleteStepAttempt = (\<lambda>r i v oc. noting (Completed (oc_Status oc) (oc_ToStepID oc)) (rp_CompleteStepAttempt R r i v oc)),
     rp_IncrementLoopCounter = (\<lambda>r l. beside (rp_IncrementLoopCounter R r l)),
     rp_GetLoopCounters = (\<lambda>r. beside (rp_GetLoopCounters R r)),
     rp_CreateApproval = (\<lambda>a. beside (rp_CreateApproval R a)),
     rp_ResolveApproval = (\<lambda>r i actor st reason. beside (rp_ResolveApproval R r i actor st reason)),
     rp_ListApprovals = (\<lambda>r. beside (rp_ListApprovals R r)),
     rp_StoreContent = (\<lambda>ref text. beside (rp_StoreContent R ref text)),
     rp_LoadContent = (\<lambda>ref. beside (rp_LoadContent R ref)),
     rp_CreateRun = (\<lambda>snap text. beside (rp_CreateRun R snap text)),
     rp_GetRunSnapshot = (\<lambda>r. beside (rp_GetRunSnapshot R r)),
     rp_RecordRunResumed = (\<lambda>r. beside (rp_RecordRunResumed R r)),
     rp_SetStepAttemptExecution = (\<lambda>r i run task reason. beside (rp_SetStepAttemptExecution R r i run task reason)),
     rp_CompareAndSetPanelPhase = (\<lambda>r i v src dst. beside (rp_CompareAndSetPanelPhase R r i v src dst))\<rparr>"

definition traced_ctl :: "'w ctl \<Rightarrow> ('w \<times> call list) ctl" where
  "traced_ctl c = \<lparr>ct_Repo = traced (ct_Repo c), ct_Workflow = ct_Workflow c, ct_RunID = ct_RunID c, ct_Holder = ct_Holder c,
     ct_matchDigest = ct_matchDigest c, ct_decisionJSON = ct_decisionJSON c, ct_DigestHex = ct_DigestHex c,
     ct_text = ct_text c, ct_newRunID = ct_newRunID c, ct_newTaskID = ct_newTaskID c\<rparr>"

definition beside_gates :: "'w route_gates \<Rightarrow> ('w \<times> call list) route_gates" where
  "beside_gates g = \<lparr>rg_scope = rg_scope g, rg_planRepair = (\<lambda>s rt out. beside (rg_planRepair g s rt out)),
     rg_diffSize = (\<lambda>s rt. beside (rg_diffSize g s rt)), rg_blocked = (\<lambda>out. beside (rg_blocked g out)),
     rg_noProgress = (\<lambda>s rt out. beside (rg_noProgress g s rt out))\<rparr>"

definition beside_env :: "'w gate_env \<Rightarrow> ('w \<times> call list) gate_env" where
  "beside_env ge = \<lparr>ge_profile = ge_profile ge, ge_verify = (\<lambda>s a. beside (ge_verify ge s a)), ge_json = ge_json ge,
     ge_blocked = ge_blocked ge, ge_hostCause = ge_hostCause ge\<rparr>"

definition beside_runner :: "('q, 'w) step_runner \<Rightarrow> ('q, 'w \<times> call list) step_runner" where
  "beside_runner r = \<lparr>sr_runtime = sr_runtime r, sr_request = (\<lambda>run s a as. beside (sr_request r run s a as)),
     sr_identify = sr_identify r, sr_run = (\<lambda>q. beside (sr_run r q)),
     sr_join = map_option (\<lambda>j q. beside (j q)) (sr_join r), sr_transient = sr_transient r,
     sr_ended = (\<lambda>w. sr_ended r (fst w)), sr_retryTask = sr_retryTask r, sr_retryRun = sr_retryRun r\<rparr>"

lemma beside_log: "beside f w = (w1, x) \<Longrightarrow> snd w1 = snd w" "snd (fst (beside f w)) = snd w"
  by (auto simp: beside_def split: prod.splits)

lemma beside_pair: "beside f (a, l) = ((b, m), x) \<Longrightarrow> m = l"
  by (auto simp: beside_def split: prod.splits)

lemma noting_log: "noting y f w = (w1, e) \<Longrightarrow> snd w1 = noted (snd w) y e"
  by (auto simp: noting_def split: prod.splits)

interpretation traced: journal "traced_ctl c" snd for c :: "'w ctl"
  by (rule journal.intro) (auto simp: traced_ctl_def traced_def beside_log(2) dest: beside_log(1) noting_log)

interpretation traced: journal_env "traced_ctl c" snd "beside_gates g" "beside_env ge" "beside_runner r"
    "\<lambda>run s. beside (panel run s)"
  for c :: "'w ctl" and g ge and r :: "('q, 'w) step_runner" and panel
  by (intro journal_env.intro journal_env_axioms.intro traced.journal_axioms)
    (auto simp: beside_gates_def beside_env_def beside_runner_def dest!: beside_pair intro: clean_crash_safe)

end
