(* ===== verification/Wfd_Properties.thy ===== *)
theory Wfd_Properties
  imports Wfd_Laws
begin

text \<open>
  The properties of the workflow compiler and of the transition matcher, with a small
  definition at which each is applied.
\<close>

section \<open>A definition\<close>

definition agent_step :: "string \<Rightarrow> Step" where
  "agent_step i = \<lparr>sp_ID = i, sp_Kind = ''agent'', sp_Agent = ''x'', sp_Skill = [], sp_Verifier = [], sp_Command = None,
     sp_Template = [], sp_OutputSchema = [], sp_Context = [], sp_OnFailure = [], sp_Panel = None, sp_MaxTurns = 0\<rparr>"

definition edge :: "string \<Rightarrow> string \<Rightarrow> (string \<times> string) list \<Rightarrow> string \<Rightarrow> int \<Rightarrow> string \<Rightarrow> Transition" where
  "edge x y out loop n partial = \<lparr>tn_From = x, tn_To = y, tn_Match = \<lparr>mc_Status = ''succeeded'', mc_Output = out\<rparr>,
     tn_Loop = loop, tn_MaxIterations = n, tn_PartialTarget = partial\<rparr>"

definition demo_file :: "Transition list \<Rightarrow> WorkflowFile" where
  "demo_file ts = \<lparr>wd_Version = 1, wd_Name = ''w'', wd_InitialStep = ''a'', wd_Inputs = [],
     wd_Limits = \<lparr>lm_MaxStepAttempts = 0, lm_MaxDurationSeconds = 0, lm_MaxOnFailureReentries = 0, lm_MaxTransientStepRetries = 0\<rparr>,
     wd_Steps = [agent_step ''a'', agent_step ''b''], wd_Transitions = ts, wd_Delivery = None, wd_Stacking = None,
     wd_StepDefaults = None\<rparr>"

text \<open>The second step goes back unless its output says that all is well.\<close>

definition demo_review :: WorkflowFile where
  "demo_review = demo_file
     [edge ''a'' ''b'' [] [] 0 [], edge ''b'' ''a'' [] ''fix'' 3 [], edge ''b'' ''success'' [(''v'', ''ok'')] [] 0 []]"

definition same_order :: map_order where
  "same_order = (\<lambda>_ ks. ks)"

lemma same_order_ok: "order_ok same_order"
  by (simp add: order_ok_def same_order_def)

lemma demo_review_admitted:
  "compile (\<lambda>_. ''d'') same_order demo_review False = Some (Inr (compiled (\<lambda>_. ''d'') demo_review))"
  by code_simp

section \<open>The matcher\<close>

text \<open>
  How specific a criterion is, said without the code's comparison.  One list of wanted
  outputs narrows another when it has every pair of the other and is longer; a pair that
  wants the empty text is also had when the key is missing.  A hit is the narrowest when
  it narrows every other hit, so there is at most one.
\<close>

definition wants :: "(string \<times> string) list \<Rightarrow> string \<Rightarrow> string \<Rightarrow> bool" where
  "wants c k v \<longleftrightarrow> map_of c k = Some v \<or> v = [] \<and> map_of c k = None"

definition narrows :: "(string \<times> string) list \<Rightarrow> (string \<times> string) list \<Rightarrow> bool" where
  "narrows a b \<longleftrightarrow> (\<forall>(k, v) \<in> set b. wants a k v) \<and> length b < length a"

definition narrowest_hit :: "string \<Rightarrow> string \<Rightarrow> outputs \<Rightarrow> Transition list \<Rightarrow> nat \<Rightarrow> bool" where
  "narrowest_hit fromStep status output ts i \<longleftrightarrow> hits_at fromStep status output ts i \<and>
     (\<forall>j. hits_at fromStep status output ts j \<and> j \<noteq> i \<longrightarrow> narrows (crit ts i) (crit ts j))"

text \<open>On maps without empty values, narrowing is being a proper superset.\<close>

lemma narrows_is_proper_superset:
  assumes "distinct (map fst a)" "distinct (map fst b)" "[] \<notin> snd ` set b"
  shows "narrows a b \<longleftrightarrow> set b \<subset> set a"
proof -
  have card: "card (set a) = length a" "card (set b) = length b"
    using assms(1,2) by (simp_all add: distinct_map distinct_card)
  have wanted: "(\<forall>(k, v) \<in> set b. wants a k v) \<longleftrightarrow> set b \<subseteq> set a"
    using assms(1,3) by (force simp: wants_def map_of_eq_Some_iff)
  show ?thesis
    unfolding narrows_def wanted using card by (metis List.finite_set psubset_card_mono psubset_eq less_irrefl)
qed

lemma wants_iff: "lookup_str c k = v \<longleftrightarrow> wants c k v"
  by (auto simp: lookup_str_def wants_def split: option.splits)

lemma outputSupersets_iff: "outputSupersets a b \<longleftrightarrow> narrows a b \<or> (a = [] \<and> b = [])"
  by (auto simp: outputSupersets_def narrows_def wants_iff [symmetric] list_ex_iff case_prod_beta)

lemma most_specific_is_narrowest: "most_specific_hit fromStep status output ts i = narrowest_hit fromStep status output ts i"
proof
  assume m: "most_specific_hit fromStep status output ts i"
  then have hit: "hits_at fromStep status output ts i"
    and sup: "\<And>j. hits_at fromStep status output ts j \<Longrightarrow> j \<noteq> i \<Longrightarrow> outputSupersets (crit ts i) (crit ts j)"
    and only: "\<And>j. refining fromStep status output ts j \<Longrightarrow> j = i"
    by (auto simp: most_specific_hit_def refining_def)
  have "narrows (crit ts i) (crit ts j)" if j: "hits_at fromStep status output ts j" "j \<noteq> i" for j
  proof (rule ccontr)
    assume "\<not> narrows (crit ts i) (crit ts j)"
    with sup [OF j] have e: "crit ts i = []" "crit ts j = []" by (auto simp: outputSupersets_iff)
    have "outputSupersets (crit ts j) (crit ts k)" if k: "hits_at fromStep status output ts k" for k
      using sup [OF k] e by (cases "k = i") (auto simp: outputSupersets_def)
    with j(1) have "refining fromStep status output ts j" by (simp add: refining_def)
    with only j(2) show False by blast
  qed
  with hit show "narrowest_hit fromStep status output ts i" by (simp add: narrowest_hit_def)
next
  assume n: "narrowest_hit fromStep status output ts i"
  have "refining fromStep status output ts i"
    using n by (auto simp: narrowest_hit_def refining_def outputSupersets_iff)
  moreover have "j = i" if "refining fromStep status output ts j" for j
  proof (rule ccontr)
    assume "j \<noteq> i"
    have "hits_at fromStep status output ts i" using n by (simp add: narrowest_hit_def)
    with that \<open>j \<noteq> i\<close> have "outputSupersets (crit ts j) (crit ts i)" by (simp add: refining_def)
    then have "length (crit ts i) \<le> length (crit ts j)" by (simp add: outputSupersets_def split: if_splits)
    moreover have "narrows (crit ts i) (crit ts j)"
      using that \<open>j \<noteq> i\<close> n by (simp add: narrowest_hit_def refining_def)
    ultimately show False by (simp add: narrows_def)
  qed
  ultimately show "most_specific_hit fromStep status output ts i" unfolding most_specific_hit_def by blast
qed

text \<open>
  C19. Match selects a transition exactly when one hit is narrower than every other hit:
  it wants every output value the other one wants (a wanted empty text counts as had when
  the key is missing) and more of them.  The decision then carries the index and the
  route of that transition.  Otherwise Match fails closed: the index is -1, and the error
  says that nothing matched or lists all the hits.
\<close>

theorem match_picks_most_specific:
  assumes "TrimSpace fromStep \<noteq> []" "TrimSpace status \<noteq> []"
  shows "case Match dig fromStep status output ts of
      (d, None) \<Rightarrow> (\<exists>i. narrowest_hit fromStep status output ts i \<and>
        de_TransitionIndex d = int i \<and> de_ToStepID d = tn_To (ts ! i) \<and> de_Loop d = tn_Loop (ts ! i) \<and>
        de_MaxIterations d = tn_MaxIterations (ts ! i) \<and> de_PartialTarget d = tn_PartialTarget (ts ! i) \<and>
        de_MatchDigest d = dig (tn_Match (ts ! i)) \<and> de_Outcome d = ''matched'')
    | (d, Some e) \<Rightarrow> (\<nexists>i. narrowest_hit fromStep status output ts i) \<and> de_TransitionIndex d = -1 \<and>
        e = (if \<exists>i. hits_at fromStep status output ts i
             then MMultiMatch fromStep (filter (hits_at fromStep status output ts) [0..<length ts])
             else MZeroMatch fromStep status)"
proof (cases "\<exists>i. most_specific_hit fromStep status output ts i")
  case True
  then obtain i where i: "most_specific_hit fromStep status output ts i" by blast
  show ?thesis unfolding Match_eq(1) [OF assms i] most_specific_is_narrowest [symmetric] using i by (auto simp: decide_def candidate_def)
next
  case False
  have "hit_list fromStep status output ts = [] \<longleftrightarrow> (\<nexists>i. hits_at fromStep status output ts i)"
    using set_hit_list [of fromStep status "output" ts] by (metis (no_types, lifting) Collect_empty_eq set_empty)
  then show ?thesis unfolding Match_eq(2) [OF assms False] most_specific_is_narrowest [symmetric] using False
    by (auto simp: no_match_def failDecision_def hit_list_def)
qed

theorem match_picks_most_specific_witness:
  "\<exists>i. narrowest_hit ''b'' ''succeeded'' [(''v'', VString ''ok'')] (wd_Transitions demo_review) i \<and> i = 2"
proof -
  have b: "TrimSpace ''b'' \<noteq> []" "TrimSpace ''succeeded'' \<noteq> []" by code_simp+
  have m: "Match (\<lambda>_. ''d'') ''b'' ''succeeded'' [(''v'', VString ''ok'')] (wd_Transitions demo_review) =
      (\<lparr>de_TransitionIndex = 2, de_ToStepID = ''success'', de_Loop = [], de_MaxIterations = 0, de_PartialTarget = [],
        de_MatchDigest = ''d'', de_Selected = [(''status'', ''succeeded''), (''v'', ''ok'')], de_Outcome = ''matched''\<rparr>, None)"
    by code_simp
  show ?thesis
    using match_picks_most_specific [OF b, of "[(''v'', VString ''ok'')]" "wd_Transitions demo_review" "\<lambda>_. ''d''"]
    unfolding m by auto
qed

text \<open>
  C20. The compiler and the matcher fit together: for the transitions of an admitted (or
  resumed) definition, Match never reports several matches.  It selects a transition
  whenever one hits, and otherwise reports that none did.
\<close>

theorem admitted_never_ambiguous:
  assumes "compile dig ord wfl skip = Some (Inr cw)" "order_ok ord" "TrimSpace fromStep \<noteq> []" "TrimSpace status \<noteq> []"
  shows "snd (Match mdig fromStep status output (cw_Transitions cw)) =
    (if \<exists>i. hits_at fromStep status output (wd_Transitions wfl) i then None else Some (MZeroMatch fromStep status))"
proof -
  have cw: "cw_Transitions cw = wd_Transitions wfl" "validateTransitions ord wfl (step_ids wfl) skip = []"
    using assms(1) compile_accepts_iff validateWorkflow_Nil_iff [OF assms(2)] by (auto simp: compiled_def)
  show ?thesis
  proof (cases "\<exists>i. hits_at fromStep status output (wd_Transitions wfl) i")
    case True
    then obtain i where "most_specific_hit fromStep status output (wd_Transitions wfl) i"
      using admitted_has_most_specific [OF cw(2) assms(2)] by blast
    from Match_eq(1) [OF assms(3,4) this] show ?thesis using True cw by simp
  next
    case False
    then have "hit_list fromStep status output (wd_Transitions wfl) = []"
      using set_hit_list [of fromStep status "output" "wd_Transitions wfl"] by auto
    moreover have "\<nexists>i. most_specific_hit fromStep status output (wd_Transitions wfl) i"
      using False by (auto simp: most_specific_hit_def refining_def)
    ultimately show ?thesis using Match_eq(2) [OF assms(3,4)] False cw by (simp add: no_match_def)
  qed
qed

theorem admitted_never_ambiguous_witness:
  "snd (Match (\<lambda>_. ''m'') ''b'' ''failed'' [] (cw_Transitions (compiled (\<lambda>_. ''d'') demo_review))) =
    (if \<exists>i. hits_at ''b'' ''failed'' [] (wd_Transitions demo_review) i then None else Some (MZeroMatch ''b'' ''failed''))"
  by (rule admitted_never_ambiguous [OF demo_review_admitted same_order_ok]) code_simp+

section \<open>The compiler\<close>

text \<open>
  C21. The cycle check always returns, whatever the order in which the steps are visited,
  and it rejects a definition exactly when the routes without a finite loop bound form a
  cycle and the definition sets no global limit.
\<close>

theorem cycle_check_exact:
  assumes "order_ok ord"
  shows "validateCycles ord wfl = Some (if acyclic (uncapped_edges wfl) then []
    else if lm_MaxStepAttempts (wd_Limits wfl) > 0 \<or> lm_MaxDurationSeconds (wd_Limits wfl) > 0 then []
    else [EUnboundedCycle])"
  by (simp add: validateCycles_eq [OF assms])

theorem cycle_check_exact_witness:
  "acyclic (uncapped_edges demo_review)"
proof -
  have "validateCycles same_order demo_review = Some []" by code_simp
  moreover have "\<not> (lm_MaxStepAttempts (wd_Limits demo_review) > 0 \<or> lm_MaxDurationSeconds (wd_Limits demo_review) > 0)"
    by code_simp
  ultimately show ?thesis using cycle_check_exact [OF same_order_ok, of demo_review] by (auto split: if_splits)
qed

text \<open>
  C22. The graph check accepts a definition exactly when its initial step is declared, every
  declared step lies on a route from the initial step or from a repair step of an active
  delivery, and some declared step leads to success.
\<close>

theorem graph_check_exact:
  "validateGraph wfl (step_ids wfl) = [] \<longleftrightarrow>
     wd_InitialStep wfl \<in> sp_ID ` set (wd_Steps wfl) \<and>
     (\<forall>s \<in> set (wd_Steps wfl). \<exists>e \<in> entry_steps wfl. (e, sp_ID s) \<in> (route_edges wfl)\<^sup>*) \<and>
     (\<exists>t \<in> set (wd_Transitions wfl). tn_To t = ''success'' \<and> tn_From t \<in> sp_ID ` set (wd_Steps wfl))"
  unfolding validateGraph_Nil_iff by (auto simp: step_ids_def subset_iff Image_iff)

theorem graph_check_exact_witness:
  "\<exists>e \<in> entry_steps demo_review. (e, ''b'') \<in> (route_edges demo_review)\<^sup>*"
proof -
  have "validateGraph demo_review (step_ids demo_review) = []" by code_simp
  then have "\<forall>s \<in> set (wd_Steps demo_review). \<exists>e \<in> entry_steps demo_review. (e, sp_ID s) \<in> (route_edges demo_review)\<^sup>*"
    using graph_check_exact [of demo_review] by blast
  moreover have "agent_step ''b'' \<in> set (wd_Steps demo_review)" by (simp add: demo_review_def demo_file_def)
  ultimately show ?thesis by (fastforce simp: agent_step_def)
qed

text \<open>
  A definition that was admitted can always be resumed: CompileForResume accepts it and
  returns the same compiled workflow, and neither compilation depends on the order of the
  map loops.
\<close>

theorem admitted_resumes:
  assumes "Compile dig ord wfl = Some (Inr cw)" "order_ok ord" "order_ok ord'"
  shows "CompileForResume dig ord' wfl = Some (Inr cw)"
proof -
  have a: "validateWorkflow ord wfl False = Some []" "cw = compiled dig wfl"
    using assms(1) by (auto simp: Compile_def compile_accepts_iff)
  have "validateWorkflow ord wfl True = Some []" by (rule validateWorkflow_resume [OF assms(2) a(1)])
  then have "validateWorkflow ord' wfl True = Some []"
    using validateTransitions_order [OF assms(2,3)]
    by (simp add: validateWorkflow_Nil_iff [OF assms(2)] validateWorkflow_Nil_iff [OF assms(3)])
  then show ?thesis using a(2) by (simp add: CompileForResume_def compile_accepts_iff)
qed

theorem admitted_resumes_witness:
  "CompileForResume (\<lambda>_. ''d'') (\<lambda>_. rev) demo_review = Some (Inr (compiled (\<lambda>_. ''d'') demo_review))"
  by (rule admitted_resumes [OF demo_review_admitted [folded Compile_def] same_order_ok]) (simp add: order_ok_def)

end
