(* ===== verification/Wfd_Synthesis_Properties.thy ===== *)
theory Wfd_Synthesis_Properties
  imports Wfd_Synthesis_Laws Wfd_Properties
begin

text \<open>The properties of the synthesis of stacking run graphs, with a definition that stacks.\<close>

section \<open>A stacking definition\<close>

definition stack_config :: Stacking where
  "stack_config = \<lparr>sk_Enabled = Some True, sk_PlanStep = ''p'', sk_ImplementStep = ''i'', sk_MaxChunks = 0, sk_SoftLines = 0,
     sk_HardLines = 0, sk_MaxFiles = 0, sk_MergePolicy = [], sk_Agent = [], sk_MaxTotalChunks = 0, sk_MaxWaveChunks = 0,
     sk_MaxConcurrentChunks = 0, sk_SplitDeferred = None, sk_SplitMaxChunks = 0, sk_SplitMinLines = 0\<rparr>"

definition stack_file :: "string list \<Rightarrow> Transition list \<Rightarrow> WorkflowFile" where
  "stack_file ids ts = (demo_file ts)\<lparr>wd_InitialStep := ''p'', wd_Steps := map agent_step ids,
     wd_Stacking := Some stack_config\<rparr>"

text \<open>A plan, its review, the implementation.\<close>

definition one_exit :: WorkflowFile where
  "one_exit = stack_file [''p'', ''r'', ''i'']
     [edge ''p'' ''r'' [] [] 0 [], edge ''r'' ''i'' [] [] 0 [], edge ''i'' ''success'' [] [] 0 []]"

text \<open>The plan chooses between two reviews, and both lead to the implementation.\<close>

definition two_exits :: WorkflowFile where
  "two_exits = stack_file [''p'', ''a'', ''b'', ''i'']
     [edge ''p'' ''a'' [(''k'', ''a'')] [] 0 [], edge ''p'' ''b'' [(''k'', ''b'')] [] 0 [],
      edge ''a'' ''i'' [] [] 0 [], edge ''b'' ''i'' [] [] 0 [], edge ''i'' ''success'' [] [] 0 []]"

definition compiled_of :: "WorkflowFile \<Rightarrow> CompiledWorkflow" where
  "compiled_of wfl = compiled (\<lambda>_. ''d'') wfl"

definition synth_of :: "map_order \<Rightarrow> WorkflowFile \<Rightarrow> CompiledWorkflow" where
  "synth_of ord wfl = synthesized ord (compiled_of wfl) (the (cw_Stacking (compiled_of wfl))) ''x''"

lemma one_exit_admitted:
  "admit_file same_order ''w'' one_exit = Inr one_exit"
  "Compile (\<lambda>_. ''d'') same_order one_exit = Some (Inr (compiled_of one_exit))"
  "SynthesizeStacking same_order (compiled_of one_exit) = Some (Inr (synth_of same_order one_exit))"
  by code_simp+

lemma two_exits_admitted:
  "admit_file same_order ''w'' two_exits = Inr two_exits"
  "Compile (\<lambda>_. ''d'') same_order two_exits = Some (Inr (compiled_of two_exits))"
  "SynthesizeStacking same_order (compiled_of two_exits) = Some (Inr (synth_of same_order two_exits))"
  "SynthesizeStacking (\<lambda>_. rev) (compiled_of two_exits) = Some (Inr (synth_of (\<lambda>_. rev) two_exits))"
  by code_simp+

section \<open>The router\<close>

lemma anchor_declared:
  assumes "admit_file ord0 canonical wf0 = Inr wfl" "Compile dig ord wfl = Some (Inr cw)" "order_ok ord"
    "cw_Stacking cw = Some cfg" "checkSynthesisIdentifiers cw = None"
    "a = stackingRouterAnchor ord (cw_Transitions cw) (sg_PlanStep cfg) (sg_ImplementStep cfg)"
  shows "TrimSpace a \<noteq> []" "a \<notin> {stepDecompose, stepChunkPlanValidate}" "sg_ImplementStep cfg \<noteq> stepDecompose"
    "sg_PlanStep cfg \<noteq> sg_ImplementStep cfg \<Longrightarrow> a \<noteq> sg_ImplementStep cfg"
proof -
  have cw: "cw_StepIDs cw = step_ids wfl" "cw_Transitions cw = wd_Transitions wfl"
    using assms(2) by (auto simp: Compile_def compile_accepts_iff compiled_def)
  note pi = stacking_steps_declared [OF assms(2) [unfolded Compile_def] assms(3,4)]
  have a: "a \<in> insert (sg_PlanStep cfg) (set (plan_exits (cw_Transitions cw) (sg_ImplementStep cfg)))"
    unfolding assms(6) by (rule anchor_cases [OF assms(3)])
  have free: "stepDecompose \<notin> set (step_ids wfl)" "stepChunkPlanValidate \<notin> set (step_ids wfl)"
    using assms(5) cw by (auto simp: checkSynthesisIdentifiers_def split: if_splits)
  have res: "stepDecompose \<notin> set ReservedStepIDs" "stepChunkPlanValidate \<notin> set ReservedStepIDs" by code_simp+
  consider "a \<in> set (step_ids wfl)" | t where "t \<in> set (wd_Transitions wfl)" "a = tn_From t"
    using a pi(1) by (auto simp: cw plan_exits_iff)
  then have "TrimSpace a \<noteq> [] \<and> (a \<in> set (step_ids wfl) \<or> a \<in> set ReservedStepIDs)"
    by cases (use admitted_step_id(1) [OF assms(1)] admitted_transitions(1,2) [OF assms(1)] in auto)
  then show "TrimSpace a \<noteq> []" "a \<notin> {stepDecompose, stepChunkPlanValidate}" using free res by auto
  show "sg_ImplementStep cfg \<noteq> stepDecompose" using pi(2) free unfolding cw by metis
  show "a \<noteq> sg_ImplementStep cfg" if "sg_PlanStep cfg \<noteq> sg_ImplementStep cfg"
    using a that by (auto simp: plan_exits_iff exits_to_def)
qed

text \<open>
  C23. In the run graph of an admitted stacking workflow, the last step of the plan phase
  (the anchor of the router) always has a route when it succeeds, whatever its output, and
  that route never goes straight to the implement step: the stacking router cannot be
  bypassed there.
\<close>

theorem plan_phase_ends_in_router:
  assumes "admit_file ord0 canonical wf0 = Inr wfl" "Compile dig ord wfl = Some (Inr cw)" "order_ok ord"
    "cw_Stacking cw = Some cfg" "sg_PlanStep cfg \<noteq> sg_ImplementStep cfg" "checkSynthesisIdentifiers cw = None"
    "SynthesizeStacking ord cw = Some (Inr s)"
    "a = stackingRouterAnchor ord (cw_Transitions cw) (sg_PlanStep cfg) (sg_ImplementStep cfg)"
  shows "case Match mdig a ''succeeded'' out (cw_Transitions s) of
    (d, err) \<Rightarrow> err = None \<and> de_ToStepID d \<noteq> sg_ImplementStep cfg"
proof -
  let ?i = "sg_ImplementStep cfg"
  obtain agent where s: "s = synthesized ord cw cfg agent" and v: "validateSynthesizedGraph ord s = Some []"
    using synthesize_accepts [OF assms(7,4,6)] by blast
  have ts: "cw_Transitions s = synthesizeTransitions ord (cw_Transitions cw) (sg_PlanStep cfg) ?i"
    by (simp add: s synthesized_def)
  have vt: "validateTransitions ord (graph_file s) (cw_StepIDs s) False = []"
    using v by (simp add: validateSynthesizedGraph_def Let_def split: option.splits)
  note a = anchor_declared [OF assms(1-4,6,8)]
  have ne: "TrimSpace ''succeeded'' \<noteq> []" by code_simp
  have "new_edge a stepDecompose ''succeeded'' [] \<in> set (cw_Transitions s)"
    by (simp add: ts synthesizeTransitions_def Let_def router_edges_def assms(8))
  then obtain k where "k < length (cw_Transitions s)" "cw_Transitions s ! k = new_edge a stepDecompose ''succeeded'' []"
    by (auto simp: in_set_conv_nth)
  then have "hits_at a ''succeeded'' out (wd_Transitions (graph_file s)) k"
    by (simp add: hits_at_def graph_file_def new_edge_def satisfies_def)
  then obtain j where "most_specific_hit a ''succeeded'' out (wd_Transitions (graph_file s)) j"
    using admitted_has_most_specific [OF vt assms(3)] by blast
  then have "snd (Match mdig a ''succeeded'' out (cw_Transitions s)) = None"
    using Match_eq(1) [OF a(1) ne] by (simp add: graph_file_def)
  then obtain d where d: "Match mdig a ''succeeded'' out (cw_Transitions s) = (d, None)" by (metis prod.collapse)
  then obtain t where t: "t \<in> set (cw_Transitions s)" "tn_From t = a" "mc_Status (tn_Match t) = ''succeeded''"
      "de_ToStepID d = tn_To t"
    by (rule Match_selects)
  have "tn_To t \<noteq> ?i"
  proof
    assume "tn_To t = ?i"
    then have "exits_to ?i t" using t a(4) [OF assms(5)] by (simp add: exits_to_def)
    with no_exit_from_anchor [of t ord "cw_Transitions cw" "sg_PlanStep cfg" ?i] t(1,2) a(2,3)
    show False unfolding ts assms(8) by blast
  qed
  then show ?thesis by (simp add: d t(4))
qed

theorem plan_phase_ends_in_router_witness:
  "snd (Match (\<lambda>_. ''m'') ''r'' ''succeeded'' [(''stack_mode'', VString ''single'')]
      (cw_Transitions (synth_of same_order one_exit))) = None"
proof -
  obtain cfg where cfg: "cw_Stacking (compiled_of one_exit) = Some cfg" "sg_PlanStep cfg = ''p''" "sg_ImplementStep cfg = ''i''"
    by (simp add: compiled_of_def compiled_def one_exit_def stack_file_def stack_config_def StackingEnabled_def
        EffectiveStacking_def DefaultStacking_def Let_def)
  have "checkSynthesisIdentifiers (compiled_of one_exit) = None"
    "''r'' = stackingRouterAnchor same_order (cw_Transitions (compiled_of one_exit)) ''p'' ''i''" by code_simp+
  then show ?thesis
    using plan_phase_ends_in_router [OF one_exit_admitted(1,2) same_order_ok cfg(1) _ _ one_exit_admitted(3), of "''r''"
        "\<lambda>_. ''m''" "[(''stack_mode'', VString ''single'')]"] cfg(2,3)
    by (auto split: prod.splits)
qed

text \<open>
  C24. Synthesis always returns, and a second synthesis of its result changes nothing: the
  runtime build and the controller agree on the run graph they share.
\<close>

theorem synthesis_idempotent:
  assumes "order_ok ord"
  shows "case SynthesizeStacking ord cw of
    None \<Rightarrow> False
  | Some (Inl errs) \<Rightarrow> cw_Stacking cw \<noteq> None
  | Some (Inr s) \<Rightarrow> SynthesizeStacking ord' s = Some (Inr s)"
proof (cases "SynthesizeStacking ord cw")
  case None
  then show ?thesis using synthesize_total [OF assms] by simp
next
  case (Some res)
  then show ?thesis
  proof (cases res)
    case (Inl errs)
    then show ?thesis using Some by (auto simp: SynthesizeStacking_def split: option.splits)
  next
    case (Inr s)
    then show ?thesis using Some synthesize_again [of ord cw s ord'] by simp
  qed
qed

theorem synthesis_idempotent_witness:
  "SynthesizeStacking (\<lambda>_. rev) (synth_of same_order one_exit) = Some (Inr (synth_of same_order one_exit))"
  using synthesis_idempotent [OF same_order_ok, of "compiled_of one_exit" "\<lambda>_. rev"]
  by (simp add: one_exit_admitted(3))

text \<open>
  When no two exits of the plan phase are equally far from the plan step, the run graph
  does not depend on the order in which the map of candidates is walked.
\<close>

theorem synthesis_order_independent:
  assumes "order_ok ord" "order_ok ord'" "cw_Stacking cw = Some cfg"
    "inj_on (dist_of (distancesFrom (cw_Transitions cw) (sg_PlanStep cfg)))
       (set (plan_exits (cw_Transitions cw) (sg_ImplementStep cfg)))"
    "SynthesizeStacking ord cw = Some (Inr s)"
  shows "SynthesizeStacking ord' cw = Some (Inr s)"
proof -
  have "stackingRouterAnchor ord (cw_Transitions cw) (sg_PlanStep cfg) (sg_ImplementStep cfg) =
      stackingRouterAnchor ord' (cw_Transitions cw) (sg_PlanStep cfg) (sg_ImplementStep cfg)"
    by (rule anchor_unique [OF assms(1,2,4)])
  then have same: "synthesized ord cw cfg agent = synthesized ord' cw cfg agent" for agent
    by (simp add: synthesized_def synthesizeTransitions_def Let_def)
  have "validateSynthesizedGraph ord x = Some [] \<longleftrightarrow> validateSynthesizedGraph ord' x = Some []" for x
    using validateTransitions_order [OF assms(1,2)]
    by (simp add: validateSynthesizedGraph_def Let_def validateCycles_eq [OF assms(1)] validateCycles_eq [OF assms(2)])
  then show ?thesis using assms(5) synthesize_total [OF assms(2), of cw]
    by (auto simp: SynthesizeStacking_def assms(3) same Let_def split: if_splits option.splits)
qed

theorem synthesis_order_independent_witness:
  "SynthesizeStacking (\<lambda>_. rev) (compiled_of one_exit) = Some (Inr (synth_of same_order one_exit))"
proof (rule synthesis_order_independent [OF same_order_ok _ _ _ one_exit_admitted(3)])
  show "order_ok (\<lambda>_. rev)" by (simp add: order_ok_def)
  show "cw_Stacking (compiled_of one_exit) = Some (the (cw_Stacking (compiled_of one_exit)))" by code_simp
  have "plan_exits (cw_Transitions (compiled_of one_exit))
      (sg_ImplementStep (the (cw_Stacking (compiled_of one_exit)))) = [''r'']" by code_simp
  then show "inj_on (dist_of (distancesFrom (cw_Transitions (compiled_of one_exit))
      (sg_PlanStep (the (cw_Stacking (compiled_of one_exit))))))
    (set (plan_exits (cw_Transitions (compiled_of one_exit))
      (sg_ImplementStep (the (cw_Stacking (compiled_of one_exit))))))" by (simp only: list.set inj_on_insert) simp
qed

text \<open>
  For two equally far exits the run graphs differ: one order of the map sends the first
  review into the router and the other sends it straight to the implement step, and both
  run graphs pass the validation.
\<close>

lemma two_exits_two_graphs:
  "de_ToStepID (fst (Match (\<lambda>_. []) ''a'' ''succeeded'' [] (cw_Transitions (synth_of same_order two_exits)))) = stepDecompose"
  "de_ToStepID (fst (Match (\<lambda>_. []) ''a'' ''succeeded'' [] (cw_Transitions (synth_of (\<lambda>_. rev) two_exits)))) = ''i''"
  by code_simp+

text \<open>
  C25. In an admitted stacking workflow the router is anchored at the plan step when the
  plan phase has no exit, and otherwise at an exit of the plan phase that no other exit
  exceeds in the number of transitions from the plan step, counted along a shortest path
  (0 when there is none).  This is exact: every such farthest exit is the anchor for some
  order in which Go walks the map of candidates, so the router depends on that order
  whenever two exits are equally far.
\<close>

theorem router_anchors_at_farthest_exit:
  assumes "admit_file ord0 canonical wf0 = Inr wfl" "Compile dig ord1 wfl = Some (Inr cw)" "order_ok ord1"
    "cw_Stacking cw = Some cfg"
  shows "let exits = phase_exits (cw_Transitions cw) (sg_ImplementStep cfg);
      far = hops (cw_Transitions cw) (sg_PlanStep cfg)
    in (\<exists>ord. order_ok ord \<and> stackingRouterAnchor ord (cw_Transitions cw) (sg_PlanStep cfg) (sg_ImplementStep cfg) = a) \<longleftrightarrow>
       (if exits = {} then a = sg_PlanStep cfg else a \<in> exits \<and> (\<forall>s \<in> exits. far s \<le> far a))"
proof -
  have cw: "cw_StepIDs cw = step_ids wfl" "cw_Transitions cw = wd_Transitions wfl"
    using assms(2) by (auto simp: Compile_def compile_accepts_iff compiled_def)
  have empty: "TrimSpace [] = []" by code_simp
  have "sg_ImplementStep cfg \<in> set (step_ids wfl)"
    using stacking_steps_declared(2) [OF assms(2) [unfolded Compile_def] assms(3,4)] by (simp only: cw)
  then have "sg_ImplementStep cfg \<noteq> []" using admitted_step_id(1) [OF assms(1)] empty by metis
  moreover have "[] \<notin> phase_exits (cw_Transitions cw) (sg_ImplementStep cfg)"
    using admitted_transitions(1) [OF assms(1)] empty by (fastforce simp: phase_exits_def cw)
  ultimately show ?thesis unfolding Let_def by (rule anchor_choices)
qed

lemma two_exits_equally_far:
  "phase_exits (cw_Transitions (compiled_of two_exits)) ''i'' = {''a'', ''b''}"
  "hops (cw_Transitions (compiled_of two_exits)) ''p'' ''a'' = 1" "hops (cw_Transitions (compiled_of two_exits)) ''p'' ''b'' = 1"
proof -
  have "plan_exits (cw_Transitions (compiled_of two_exits)) ''i'' = [''a'', ''b'']" by code_simp
  then show "phase_exits (cw_Transitions (compiled_of two_exits)) ''i'' = {''a'', ''b''}" by (simp flip: plan_exits_set)
qed (unfold distancesFrom_hops [symmetric], code_simp+)

theorem router_anchors_at_farthest_exit_witness:
  "(\<exists>ord. order_ok ord \<and> stackingRouterAnchor ord (cw_Transitions (compiled_of two_exits)) ''p'' ''i'' = ''a'') \<and>
   (\<exists>ord. order_ok ord \<and> stackingRouterAnchor ord (cw_Transitions (compiled_of two_exits)) ''p'' ''i'' = ''b'') \<and>
   (\<nexists>ord. order_ok ord \<and> stackingRouterAnchor ord (cw_Transitions (compiled_of two_exits)) ''p'' ''i'' = ''p'')"
proof -
  obtain cfg where cfg: "cw_Stacking (compiled_of two_exits) = Some cfg" "sg_PlanStep cfg = ''p''" "sg_ImplementStep cfg = ''i''"
    by (simp add: compiled_of_def compiled_def two_exits_def stack_file_def stack_config_def StackingEnabled_def
        EffectiveStacking_def DefaultStacking_def Let_def)
  note choice = router_anchors_at_farthest_exit [OF two_exits_admitted(1,2) same_order_ok cfg(1),
      unfolded cfg(2,3) Let_def two_exits_equally_far(1)]
  show ?thesis unfolding choice by (simp add: two_exits_equally_far)
qed

end
