(* ===== verification/Ctl_Properties.thy ===== *)
theory Ctl_Properties
  imports Ctl_Laws Ctl_Journal Wfd_Synthesis_Properties
begin

text \<open>The properties of the workflow controller, with a controller over a ledger that holds one loop counter.\<close>

section \<open>A controller\<close>

definition demo_loops :: "int \<Rightarrow> unit repo" where
  "demo_loops n = \<lparr>
     rp_ClaimRun = \<lambda>_ _ w. (w, None), rp_ReleaseRun = \<lambda>_ _ w. (w, None), rp_GetRun = \<lambda>_ w. (w, Inl LErrNotFound),
     rp_CompareAndSetRunStatus = \<lambda>_ _ _ w. (w, None), rp_CreateStepAttempt = \<lambda>_ w. (w, None),
     rp_GetStepAttempt = \<lambda>_ _ w. (w, Inl LErrNotFound), rp_ListStepAttempts = \<lambda>_ w. (w, Inr []),
     rp_CompleteStepAttempt = \<lambda>_ _ _ _ w. (w, None), rp_IncrementLoopCounter = \<lambda>_ _ w. (w, None),
     rp_GetLoopCounters = \<lambda>_ w. (w, Inr [\<lparr>lc_RunID = [], lc_LoopName = ''l'', lc_Iterations = n\<rparr>]),
     rp_CreateApproval = \<lambda>_ w. (w, None), rp_ResolveApproval = \<lambda>_ _ _ _ _ w. (w, None), rp_ListApprovals = \<lambda>_ w. (w, Inr []),
     rp_StoreContent = \<lambda>_ _ w. (w, None), rp_LoadContent = \<lambda>_ w. (w, Inl LErrNotFound), rp_CreateRun = \<lambda>_ _ w. (w, None),
     rp_GetRunSnapshot = \<lambda>_ w. (w, Inl LErrNotFound), rp_RecordRunResumed = \<lambda>_ w. (w, None),
     rp_SetStepAttemptExecution = \<lambda>_ _ _ _ _ w. (w, None), rp_CompareAndSetPanelPhase = \<lambda>_ _ _ _ _ w. (w, None)\<rparr>"

definition demo_ctl :: "int \<Rightarrow> CompiledWorkflow \<Rightarrow> unit ctl" where
  "demo_ctl n cw = \<lparr>ct_Repo = demo_loops n, ct_Workflow = cw, ct_RunID = ''wfr-'', ct_Holder = ''h'',
     ct_matchDigest = \<lambda>_. ''m'', ct_decisionJSON = \<lambda>_ _. [], ct_DigestHex = \<lambda>_. [], ct_text = \<lambda>_. [],
     ct_newRunID = \<lambda>_ _. ''r'', ct_newTaskID = \<lambda>_ _. ''t''\<rparr>"

section \<open>Routes\<close>

text \<open>
  C26. The controller leaves the graph in one case only.  For the compiled graph of an
  admitted definition and for the run graph synthesized from it, every route the controller
  selects for a declared step (on success, on failure, or when a loop is exhausted) names a
  step that it finds again, or a terminal step, unless the on_failure of that step is a text
  of blanks and the route is that text: the compiler takes it for an empty one, and the
  controller does not.
\<close>

theorem routes_stay_in_graph:
  assumes "admit_file ord0 canonical wf0 = Inr wfl" "Compile dig ord wfl = Some (Inr cw)" "order_ok ord"
    "ct_Workflow c = cw \<or> SynthesizeStacking ord cw = Some (Inr (ct_Workflow c))"
    "step \<in> set (cw_Steps (ct_Workflow c))"
    "selectRoute c step status out w = (w', route, err) \<or> selectEvidenceFailureRoute c step out w = (w', route, err)"
  shows "case WorkflowStep c (rt_ToStepID route) of Some s \<Rightarrow> sp_ID s = rt_ToStepID route
    | None \<Rightarrow> IsTerminalStepID (rt_ToStepID route) \<or>
        (sp_OnFailure step \<noteq> [] \<and> TrimSpace (sp_OnFailure step) = [] \<and> rt_ToStepID route = sp_OnFailure step)"
proof -
  have cw: "closed_graph cw" by (rule admitted_closed [OF assms(1) assms(2) [unfolded Compile_def] assms(3)])
  have closed: "closed_graph (ct_Workflow c)"
    using assms(4)
  proof
    assume s: "SynthesizeStacking ord cw = Some (Inr (ct_Workflow c))"
    show ?thesis
    proof (cases "cw_Stacking cw")
      case None
      then show ?thesis using s cw by (simp add: SynthesizeStacking_def)
    next
      case (Some cfg)
      note pi = stacking_steps_declared [OF assms(2) [unfolded Compile_def] assms(3) Some]
      show ?thesis
      proof (cases "checkSynthesisIdentifiers cw")
        case None
        then obtain agent where "ct_Workflow c = synthesized ord cw cfg agent"
          using synthesize_accepts [OF s Some] by blast
        then show ?thesis using synthesized_closed [OF cw assms(3) pi] by simp
      qed (use s Some cw in \<open>auto simp: SynthesizeStacking_def split: if_splits\<close>)
    qed
  qed (simp add: cw)
  have ok: "route_ok (ct_Workflow c) (rt_ToStepID route) \<or> blank_failure step (rt_ToStepID route)"
    using assms(6) selectRoute_ok [OF closed assms(5)] by blast
  show ?thesis
  proof (cases "WorkflowStep c (rt_ToStepID route)")
    case None
    have "rt_ToStepID route \<notin> set (cw_StepIDs (ct_Workflow c))"
      by (rule notI, erule declared_found [OF closed]) (simp add: None)
    with None ok show ?thesis by (auto simp: route_ok_def reserved_terminal blank_failure_def)
  next
    case (Some s)
    then have "sp_ID s = rt_ToStepID route" unfolding WorkflowStep_def by (rule find_SomeD [THEN conjunct2])
    with Some show ?thesis by simp
  qed
qed

text \<open>The run graph of the stacking sample: the review step routes into the router.\<close>

theorem routes_stay_in_graph_witness:
  "WorkflowStep (demo_ctl 0 (synth_of same_order one_exit))
     (rt_ToStepID (fst (snd (selectRoute (demo_ctl 0 (synth_of same_order one_exit)) (agent_step ''r'')
        AttemptStatusSucceeded [] ())))) \<noteq> None"
proof -
  let ?c = "demo_ctl 0 (synth_of same_order one_exit)"
  obtain w route err where s: "selectRoute ?c (agent_step ''r'') AttemptStatusSucceeded [] () = (w, route, err)"
    by (metis prod.collapse)
  have declared: "agent_step ''r'' \<in> set (cw_Steps (ct_Workflow ?c))"
    "\<not> IsTerminalStepID (rt_ToStepID (fst (snd (selectRoute ?c (agent_step ''r'') AttemptStatusSucceeded [] ()))))"
    by code_simp+
  have "ct_Workflow ?c = synth_of same_order one_exit" by (simp add: demo_ctl_def)
  with one_exit_admitted(3) have syn: "SynthesizeStacking same_order (compiled_of one_exit) = Some (Inr (ct_Workflow ?c))" by simp
  show ?thesis
    using routes_stay_in_graph [OF one_exit_admitted(1,2) same_order_ok disjI2 [OF syn] declared(1) disjI1 [OF s]]
      declared(2) s by (auto simp: agent_step_def split: option.splits)
qed

section \<open>Loops\<close>

text \<open>
  C27. Loop caps.  A matched loop edge is taken exactly while its counter is below its cap (a
  negative cap is no cap).  An exhausted loop is not counted again: it ends at the failure
  target, or, only when the edge names a partial target, there.
\<close>

theorem loop_caps_are_kept:
  assumes "Match (ct_matchDigest c) (sp_ID step) ''succeeded'' out (cw_Transitions (ct_Workflow c)) = (d, None)"
    "de_Loop d \<noteq> []" "rp_GetLoopCounters (ct_Repo c) (ct_RunID c) w = (w1, Inr counters)"
    "selectRoute c step AttemptStatusSucceeded out w = (w', route, err)"
  shows "if de_MaxIterations d < 0 \<or> loop_iterations (de_Loop d) counters < de_MaxIterations d
    then w' = w1 \<and> err = None \<and> rt_ToStepID route = de_ToStepID d \<and> rt_Loop route = de_Loop d
    else recordLoopAfterComplete c route w' = (w', None) \<and>
      (if err = None then rt_PartialAccept route \<and> de_PartialTarget d \<noteq> [] \<and> rt_ToStepID route = de_PartialTarget d
       else \<not> rt_PartialAccept route \<and> rt_ToStepID route = failureTarget step)"
proof (cases "de_MaxIterations d < 0 \<or> loop_iterations (de_Loop d) counters < de_MaxIterations d")
  case True
  then have "checkLoopCap c (de_Loop d) (de_MaxIterations d) w = (w1, None)"
    using assms(3) by (auto simp: checkLoopCap_def Let_def)
  then show ?thesis using assms(1,2,4) True by (auto simp: selectRoute_def route_matching_def Let_def)
next
  case False
  let ?e = "CLoopExhausted (de_Loop d) (loop_iterations (de_Loop d) counters) (de_MaxIterations d) [] []"
  have "checkLoopCap c (de_Loop d) (de_MaxIterations d) w = (w1, Some ?e)"
    using assms(3) False by (simp add: checkLoopCap_def Let_def)
  then obtain e where "loopExhaustionRoute c step d e = (route, err)"
    using assms(1,2,4) by (auto simp: selectRoute_def route_matching_def Let_def split: prod.splits)
  then show ?thesis unfolding if_not_P [OF False]
    by (auto simp: loopExhaustionRoute_def Let_def recordLoopAfterComplete_def split: if_splits ctl_error.splits)
qed

definition loop_flow :: CompiledWorkflow where
  "loop_flow = compiled_of (stack_file [''p''] [edge ''p'' ''p'' [] ''l'' 3 []])"

theorem loop_caps_are_kept_witness:
  "rt_ToStepID (fst (snd (selectRoute (demo_ctl 2 loop_flow) (agent_step ''p'') AttemptStatusSucceeded [] ()))) = ''p'' \<and>
   rt_ToStepID (fst (snd (selectRoute (demo_ctl 3 loop_flow) (agent_step ''p'') AttemptStatusSucceeded [] ()))) =
     failureTarget (agent_step ''p'')"
proof -
  have counters: "rp_GetLoopCounters (ct_Repo (demo_ctl n loop_flow)) (ct_RunID (demo_ctl n loop_flow)) () =
      ((), Inr [\<lparr>lc_RunID = [], lc_LoopName = ''l'', lc_Iterations = n\<rparr>])" for n
    by (simp add: demo_ctl_def demo_loops_def)
  have match: "Match (\<lambda>_. ''m'') ''p'' ''succeeded'' [] (cw_Transitions loop_flow) =
      (fst (Match (\<lambda>_. ''m'') ''p'' ''succeeded'' [] (cw_Transitions loop_flow)), None) \<and>
    de_Loop (fst (Match (\<lambda>_. ''m'') ''p'' ''succeeded'' [] (cw_Transitions loop_flow))) = ''l'' \<and>
    de_MaxIterations (fst (Match (\<lambda>_. ''m'') ''p'' ''succeeded'' [] (cw_Transitions loop_flow))) = 3 \<and>
    de_ToStepID (fst (Match (\<lambda>_. ''m'') ''p'' ''succeeded'' [] (cw_Transitions loop_flow))) = ''p'' \<and>
    de_PartialTarget (fst (Match (\<lambda>_. ''m'') ''p'' ''succeeded'' [] (cw_Transitions loop_flow))) = []"
    by code_simp
  have sel: "selectRoute c s st out () = (fst x, fst (snd x), snd (snd x))" if "selectRoute c s st out () = x"
    for c :: "unit ctl" and s st out x using that by (metis prod.collapse)
  have m: "Match (ct_matchDigest (demo_ctl n loop_flow)) (sp_ID (agent_step ''p'')) ''succeeded'' []
      (cw_Transitions (ct_Workflow (demo_ctl n loop_flow))) =
      (fst (Match (\<lambda>_. ''m'') ''p'' ''succeeded'' [] (cw_Transitions loop_flow)), None)" for n
    using match by (simp add: demo_ctl_def agent_step_def)
  show ?thesis
    using loop_caps_are_kept [OF m _ counters sel [OF refl], of 2] loop_caps_are_kept [OF m _ counters sel [OF refl], of 3] match
    by (auto simp: loop_iterations_def split: if_splits)
qed

section \<open>Crash safety\<close>

text \<open>
  C28. A controller step is crash safe.  Whatever the ledger, the runner, the gates and the
  panel step do, the outcomes and status changes that the ledger acknowledged during one
  Advance, in their order, never fail, cancel or time out the run after an outcome with a
  route to a further step: a process that stops at any moment leaves a run that can go on.
\<close>

theorem advance_is_crash_safe:
  "crash_safe (snd (fst (Advance (traced_ctl c) (beside_gates g) (beside_env ge) (beside_runner r)
     (\<lambda>run s. beside (panel run s)) now deadline (w, []))))"
  by (rule traced.advance) simp

section \<open>Identities\<close>

text \<open>
  The identities of attempts and approvals carry no ambiguity: different attempts have
  different identities even when step identifiers contain dashes and digits, and the number
  of an attempt is read back from the identity of its approval.
\<close>

theorem identities_are_unambiguous:
  assumes "0 < n" "n < 2 ^ 63" "0 < n'"
  shows "(attemptIDFor s n = attemptIDFor s' n' \<longleftrightarrow> s = s' \<and> n = n') \<and>
    attemptNoFromApprovalID (humanGateApprovalID s n) s = Some n"
  using attempt_id_inj assms approval_id_reads_back by auto

theorem identities_are_unambiguous_witness:
  "attemptIDFor ''a'' 11 \<noteq> attemptIDFor ''a-1'' 1 \<and> attemptNoFromApprovalID (humanGateApprovalID ''a-1'' 12) ''a-1'' = Some 12"
  using identities_are_unambiguous [of 11 1 "''a''" "''a-1''"] identities_are_unambiguous [of 12 1 "''a-1''"] by simp

section \<open>Chunk plans\<close>

text \<open>
  C29. The check of a chunk plan returns for every plan, and it accepts a multi-chunk plan
  exactly when it fits the byte limit, names its chunks and files apart, keeps every chunk
  within the limits, depends on its own chunks only, and has no dependency cycle.
\<close>

theorem chunk_plan_check_exact:
  "ValidateChunkPlan bytes (Some (''multi'', chunks)) (Some cfg) \<noteq> None \<and>
   (ValidateChunkPlan bytes (Some (''multi'', chunks)) (Some cfg) = Some (Inr []) \<longleftrightarrow>
      bytes \<le> maxChunkPlanOutputBytes \<and> chunk_plan_ok cfg chunks)"
proof -
  obtain b where "hasChunkPlanCycle chunks = Some b" using chunk_cycle_total by blast
  then have "validateChunkPlanMulti cfg chunks \<noteq> None" by (simp add: validateChunkPlanMulti_def)
  then show ?thesis using chunk_plan_multi [of cfg chunks] by (auto simp: ValidateChunkPlan_def)
qed

end
