(* ===== verification/Tks_Store.thy ===== *)
theory Tks_Store
  imports Wf_Projection
begin

text \<open>
  The plan and task ledger (src/internal/workflows/ledger: tasks_types.go, tasks_events.go,
  tasks_projection.go, store.go): plans, their tasks and the journal of status changes, one
  event per change over the shared store.  The state is a world: engine, store and the
  client record below; \<open>batch\<close> is AppendBatch, which a store may lack; \<open>now\<close> is
  the clock of the call.  A payload is its value, as in the workflow ledger.
\<close>

section \<open>Records\<close>

datatype tks_err =
    ErrPlanNotFound
  | ErrTaskNotFound
  | ErrInvalidScope
  | ErrEmptyTaskStatus
  | ErrInvalidPlan
  | ErrInvalidTask
  | ErrTaskDuplicate
  | ErrTaskConflict
  | TksErr lerr

record Scope =
  sc_Type :: string
  sc_ID :: string

definition ValidScopeType :: "string \<Rightarrow> bool" where
  "ValidScopeType t \<longleftrightarrow> t \<in> {''session'', ''step'', ''agent'', ''workflow'', ''run''}"

record Plan =
  pl_ID :: string
  pl_Scope :: Scope
  pl_Schema :: string
  pl_PayloadRef :: string
  pl_CreatedAt :: time

record Task =
  tk_ID :: string
  tk_PlanRef :: string
  tk_Scope :: Scope
  tk_Status :: string
  tk_RunRef :: string
  tk_PRNumber :: string
  tk_Deps :: "string list"
  tk_Attempts :: int
  tk_LastError :: string

record TaskTransition =
  tt_PlanRef :: string
  tt_TaskID :: string
  tt_FromStatus :: string
  tt_ToStatus :: string
  tt_At :: time

datatype tks_payload =
    TPlanStored Plan time
  | TPlanBound Scope time
  | TTaskCreated Task time
  | TTaskTransitioned string string string time

section \<open>Events\<close>

definition eventKindPlanStored :: string where "eventKindPlanStored = ''tks_plan_stored''"
definition eventKindPlanBound :: string where "eventKindPlanBound = ''tks_plan_bound''"
definition eventKindTaskCreated :: string where "eventKindTaskCreated = ''tks_task_created''"
definition eventKindTaskTransitioned :: string where "eventKindTaskTransitioned = ''tks_task_transitioned''"

definition runIDPrefix :: string where
  "runIDPrefix = ''tksp:''"

definition planRunID :: "string \<Rightarrow> string" where
  "planRunID planRef = runIDPrefix @ planRef"

definition tks_eventID :: "string \<Rightarrow> string \<Rightarrow> string list \<Rightarrow> string" where
  "tks_eventID planRef kind parts =
     ''tke:'' @ hex_encode planRef @ '':'' @ kind @ concat (map (\<lambda>p. '':'' @ hex_encode p) parts)"

text \<open>json.Marshal refuses a time outside the years 0 to 9999.\<close>

definition tks_marshal :: "time list \<Rightarrow> tks_payload \<Rightarrow> lerr + tks_payload list" where
  "tks_marshal stamps p = (if list_all json_time stamps then Inr [p] else Inl (LErrOther ''json''))"

section \<open>The projection\<close>

record planState =
  ps_plan :: Plan
  ps_tasks :: "(string, Task) gomap"
  ps_journal :: "TaskTransition list"
  ps_binds :: int

record tks_client =
  tc_plans :: "(string, planState) gomap"

definition zero_plan :: Plan where
  "zero_plan = \<lparr>pl_ID = [], pl_Scope = \<lparr>sc_Type = [], sc_ID = []\<rparr>, pl_Schema = [], pl_PayloadRef = [], pl_CreatedAt = 0\<rparr>"

definition zero_plan_state :: planState where
  "zero_plan_state = \<lparr>ps_plan = zero_plan, ps_tasks = [], ps_journal = [], ps_binds = 0\<rparr>"

type_synonym 's tks_world = "('s, tks_client) world"
type_synonym 's tks_batch = "(tks_payload event list \<Rightarrow> 's \<Rightarrow> 's \<times> store_err option) option"

definition NewStore :: "'s \<Rightarrow> 's tks_world" where
  "NewStore s = (NewEngine [] False [], s, \<lparr>tc_plans = []\<rparr>)"

definition put_plan :: "string \<Rightarrow> planState \<Rightarrow> tks_client \<Rightarrow> tks_client" where
  "put_plan ref st c = c\<lparr>tc_plans := AList.update ref st (tc_plans c)\<rparr>"

definition drop_plan :: "string \<Rightarrow> tks_client \<Rightarrow> tks_client" where
  "drop_plan ref c = c\<lparr>tc_plans := AList.delete ref (tc_plans c)\<rparr>"

text \<open>One event of rebuildRun: a known kind whose payload does not decode is an error.\<close>

definition tks_apply :: "string \<Rightarrow> tks_payload event \<Rightarrow> planState \<Rightarrow> lerr + planState" where
  "tks_apply planRef ev st =
     (if ev_Kind ev = eventKindPlanStored then
        (case ev_Payload ev of [TPlanStored p ts] \<Rightarrow> Inr (st\<lparr>ps_plan := p\<rparr>) | _ \<Rightarrow> Inl (LErrOther ''decode''))
      else if ev_Kind ev = eventKindPlanBound then
        (case ev_Payload ev of
           [TPlanBound sc ts] \<Rightarrow> Inr (st\<lparr>ps_plan := (ps_plan st)\<lparr>pl_Scope := sc\<rparr>, ps_binds := ps_binds st + 1\<rparr>)
         | _ \<Rightarrow> Inl (LErrOther ''decode''))
      else if ev_Kind ev = eventKindTaskCreated then
        (case ev_Payload ev of
           [TTaskCreated t ts] \<Rightarrow> Inr (st\<lparr>ps_tasks := AList.update (tk_ID t) t (ps_tasks st)\<rparr>)
         | _ \<Rightarrow> Inl (LErrOther ''decode''))
      else if ev_Kind ev = eventKindTaskTransitioned then
        (case ev_Payload ev of
           [TTaskTransitioned i src dst ts] \<Rightarrow>
             (case map_of (ps_tasks st) i of
                None \<Rightarrow> Inl (LErrOther ''transition for unknown task'')
              | Some t \<Rightarrow> Inr (st\<lparr>ps_tasks := AList.update i (t\<lparr>tk_Status := dst\<rparr>) (ps_tasks st),
                  ps_journal := ps_journal st @ [\<lparr>tt_PlanRef = planRef, tt_TaskID = i, tt_FromStatus = src,
                    tt_ToStatus = dst, tt_At = ts\<rparr>]\<rparr>))
         | _ \<Rightarrow> Inl (LErrOther ''decode''))
      else Inr st)"

fun tks_replay :: "string \<Rightarrow> tks_payload event list \<Rightarrow> planState \<Rightarrow> lerr + planState" where
  "tks_replay planRef [] st = Inr st"
| "tks_replay planRef (ev # evs) st =
     (case tks_apply planRef ev st of Inl err \<Rightarrow> Inl err | Inr st1 \<Rightarrow> tks_replay planRef evs st1)"

definition TrimPrefix :: "string \<Rightarrow> string \<Rightarrow> string" where
  "TrimPrefix s p = (if HasPrefix s p then drop (length p) s else s)"

definition rebuildRun :: "string \<Rightarrow> tks_payload event list \<Rightarrow> 's tks_world \<Rightarrow> 's tks_world \<times> lerr option" where
  "rebuildRun r events = (\<lambda>(e, s, c).
     let planRef = TrimPrefix r runIDPrefix in
     case tks_replay planRef (SortEventsStable events) zero_plan_state of
       Inl err \<Rightarrow> ((e, s, c), Some err)
     | Inr st \<Rightarrow>
         ((eng_SetApplied r (max_sequence events 0) e, s,
           if pl_ID (ps_plan st) = [] then drop_plan planRef c else put_plan planRef st c), None))"

definition rebuildRunFromStore ::
    "('s, tks_payload) store_ops \<Rightarrow> string \<Rightarrow> 's tks_world \<Rightarrow> 's tks_world \<times> lerr option" where
  "rebuildRunFromStore ops r = (\<lambda>(e, s, c).
     case so_Events ops r s of
       Inl err \<Rightarrow> ((e, s, c), Some (LErrWrap ''read events'' (LErrStore err)))
     | Inr events \<Rightarrow> rebuildRun r events (e, s, c))"

definition tks_filter :: "string \<Rightarrow> int \<Rightarrow> FilterDecision" where
  "tks_filter r maxSeq = (if \<not> HasPrefix r runIDPrefix then FilterAdvanceOnly else FilterApply)"

definition tks_catchUp :: "('s, tks_payload) store_ops \<Rightarrow> 's tks_world \<Rightarrow> 's tks_world \<times> lerr option" where
  "tks_catchUp ops = eng_CatchUp ops (Some tks_filter) (Some rebuildRun)"

section \<open>Appending\<close>

text \<open>appendEvent for the one event that marshalAndAppend mints.\<close>

definition tks_appendEvent ::
    "('s, tks_payload) store_ops \<Rightarrow> 's tks_batch \<Rightarrow> tks_payload event \<Rightarrow> 's tks_world \<Rightarrow> 's tks_world \<times> tks_err option" where
  "tks_appendEvent ops batch evt = (\<lambda>(e, s, c).
     case batch of
       None \<Rightarrow> ((e, s, c), Some (TksErr (LErrOther ''no BatchAppender'')))
     | Some AppendBatch \<Rightarrow>
     (case AppendBatch [evt] s of
       (s1, None) \<Rightarrow> ((eng_SetApplied (ev_RunID evt) (word_of_int (ev_Sequence evt)) e, s1, c), None)
     | (s1, Some err) \<Rightarrow>
         (case rebuildRunFromStore ops (ev_RunID evt) (e, s1, c) of
            (w, Some rerr) \<Rightarrow> (w, Some (TksErr (LErrWrap ''store append; rebuild'' rerr)))
          | ((e2, s2, c2), None) \<Rightarrow>
              if err \<noteq> ErrDuplicate then ((e2, s2, c2), Some (TksErr (LErrWrap ''store append'' (LErrStore err))))
              else (case so_Events ops (ev_RunID evt) s2 of
                  Inl rerr \<Rightarrow> ((e2, s2, c2), Some (TksErr (LErrWrap ''read events after duplicate'' (LErrStore rerr))))
                | Inr events \<Rightarrow> ((e2, s2, c2),
                    case find (\<lambda>x. ev_ID x = ev_ID evt) events of
                      Some x \<Rightarrow> if ev_Payload x = ev_Payload evt then None else Some ErrTaskConflict
                    | None \<Rightarrow> Some ErrTaskConflict)))))"

definition marshalAndAppend ::
    "('s, tks_payload) store_ops \<Rightarrow> 's tks_batch \<Rightarrow> string \<Rightarrow> string \<Rightarrow> string \<Rightarrow> lerr + tks_payload list
      \<Rightarrow> 's tks_world \<Rightarrow> 's tks_world \<times> tks_err option" where
  "marshalAndAppend ops batch r i kind payload = (\<lambda>(e, s, c).
     case payload of
       Inl err \<Rightarrow> (fst (rebuildRunFromStore ops r (e, s, c)), Some (TksErr (LErrWrap ''marshal payload'' err)))
     | Inr bytes \<Rightarrow>
         (let (e1, q) = eng_NextSequence r e;
              evt = \<lparr>ev_ID = i, ev_RunID = r, ev_Sequence = sint q, ev_Kind = kind, ev_Payload = bytes, ev_RowID = 0\<rparr>
          in tks_appendEvent ops batch evt (e1, s, c)))"

section \<open>Operations\<close>

text \<open>
  Every operation holds the store's mutex, catches up, and then runs its body on the cached
  plans.  Another process can append between the two, so the bodies are definitions of their
  own (suffix \<open>_body\<close>).
\<close>

definition after_catchUp ::
    "('s, tks_payload) store_ops \<Rightarrow> ('s tks_world \<Rightarrow> 's tks_world \<times> (tks_err + 'a)) \<Rightarrow> 's tks_world
      \<Rightarrow> 's tks_world \<times> (tks_err + 'a)" where
  "after_catchUp ops body w =
     (case tks_catchUp ops w of (w1, Some err) \<Rightarrow> (w1, Inl (TksErr err)) | (w1, None) \<Rightarrow> body w1)"

definition or_error :: "'a \<Rightarrow> 's tks_world \<times> tks_err option \<Rightarrow> 's tks_world \<times> (tks_err + 'a)" where
  "or_error v = (\<lambda>(w, err). (w, case err of None \<Rightarrow> Inr v | Some x \<Rightarrow> Inl x))"

definition StorePlan_body ::
    "('s, tks_payload) store_ops \<Rightarrow> 's tks_batch \<Rightarrow> time \<Rightarrow> Plan \<Rightarrow> 's tks_world \<Rightarrow> 's tks_world \<times> (tks_err + string)" where
  "StorePlan_body ops batch now plan = (\<lambda>(e, s, c).
     case map_of (tc_plans c) (pl_ID plan) of
       Some existing \<Rightarrow> ((e, s, c), if ps_plan existing = plan then Inr (pl_ID plan) else Inl ErrTaskDuplicate)
     | None \<Rightarrow>
         or_error (pl_ID plan)
           (marshalAndAppend ops batch (planRunID (pl_ID plan)) (tks_eventID (pl_ID plan) eventKindPlanStored [])
             eventKindPlanStored (tks_marshal [pl_CreatedAt plan, now] (TPlanStored plan now))
             (e, s, put_plan (pl_ID plan) (zero_plan_state\<lparr>ps_plan := plan\<rparr>) c)))"

definition StorePlan ::
    "('s, tks_payload) store_ops \<Rightarrow> 's tks_batch \<Rightarrow> time \<Rightarrow> Plan \<Rightarrow> 's tks_world \<Rightarrow> 's tks_world \<times> (tks_err + string)" where
  "StorePlan ops batch now plan w =
     (if pl_ID plan = [] then (w, Inl ErrInvalidPlan)
      else if \<not> ValidScopeType (sc_Type (pl_Scope plan)) then (w, Inl ErrInvalidScope)
      else after_catchUp ops (StorePlan_body ops batch now plan) w)"

definition bound :: "Scope \<Rightarrow> planState \<Rightarrow> planState" where
  "bound scope state = state\<lparr>ps_plan := (ps_plan state)\<lparr>pl_Scope := scope\<rparr>, ps_binds := ps_binds state + 1\<rparr>"

definition BindPlan_body ::
    "('s, tks_payload) store_ops \<Rightarrow> 's tks_batch \<Rightarrow> time \<Rightarrow> string \<Rightarrow> Scope \<Rightarrow> 's tks_world \<Rightarrow> 's tks_world \<times> (tks_err + unit)" where
  "BindPlan_body ops batch now planID scope = (\<lambda>(e, s, c).
     case map_of (tc_plans c) planID of
       None \<Rightarrow> ((e, s, c), Inl ErrPlanNotFound)
     | Some state \<Rightarrow>
         if pl_Scope (ps_plan state) = scope then ((e, s, c), Inr ())
         else or_error ()
           (marshalAndAppend ops batch (planRunID planID)
             (tks_eventID planID eventKindPlanBound [Itoa (ps_binds (bound scope state))])
             eventKindPlanBound (tks_marshal [now] (TPlanBound scope now))
             (e, s, put_plan planID (bound scope state) c)))"

definition BindPlanToScope ::
    "('s, tks_payload) store_ops \<Rightarrow> 's tks_batch \<Rightarrow> time \<Rightarrow> string \<Rightarrow> Scope \<Rightarrow> 's tks_world \<Rightarrow> 's tks_world \<times> (tks_err + unit)" where
  "BindPlanToScope ops batch now planID scope w =
     (if \<not> ValidScopeType (sc_Type scope) then (w, Inl ErrInvalidScope)
      else after_catchUp ops (BindPlan_body ops batch now planID scope) w)"

definition with_task :: "Task \<Rightarrow> planState \<Rightarrow> planState" where
  "with_task task state = state\<lparr>ps_tasks := AList.update (tk_ID task) task (ps_tasks state)\<rparr>"

definition CreateTask_body ::
    "('s, tks_payload) store_ops \<Rightarrow> 's tks_batch \<Rightarrow> time \<Rightarrow> Task \<Rightarrow> 's tks_world \<Rightarrow> 's tks_world \<times> (tks_err + unit)" where
  "CreateTask_body ops batch now task = (\<lambda>(e, s, c).
     case map_of (tc_plans c) (tk_PlanRef task) of
       None \<Rightarrow> ((e, s, c), Inl ErrPlanNotFound)
     | Some state \<Rightarrow>
         (case map_of (ps_tasks state) (tk_ID task) of
            Some existing \<Rightarrow> ((e, s, c), if existing = task then Inr () else Inl ErrTaskDuplicate)
          | None \<Rightarrow> or_error ()
              (marshalAndAppend ops batch (planRunID (tk_PlanRef task))
                (tks_eventID (tk_PlanRef task) eventKindTaskCreated [tk_ID task])
                eventKindTaskCreated (tks_marshal [now] (TTaskCreated task now))
                (e, s, put_plan (tk_PlanRef task) (with_task task state) c))))"

definition CreateTask ::
    "('s, tks_payload) store_ops \<Rightarrow> 's tks_batch \<Rightarrow> time \<Rightarrow> Task \<Rightarrow> 's tks_world \<Rightarrow> 's tks_world \<times> (tks_err + unit)" where
  "CreateTask ops batch now task w =
     (if tk_ID task = [] \<or> tk_PlanRef task = [] then (w, Inl ErrInvalidTask)
      else if \<not> ValidScopeType (sc_Type (tk_Scope task)) then (w, Inl ErrInvalidScope)
      else if tk_Status task = [] then (w, Inl ErrEmptyTaskStatus)
      else after_catchUp ops (CreateTask_body ops batch now task) w)"

text \<open>The current status is among \<open>fromStatuses\<close>; nil admits every status.\<close>

definition status_among :: "string list option \<Rightarrow> Task \<Rightarrow> bool" where
  "status_among fromStatuses task \<longleftrightarrow> (case fromStatuses of None \<Rightarrow> True | Some l \<Rightarrow> tk_Status task \<in> set l)"

definition transitions_of :: "string \<Rightarrow> planState \<Rightarrow> int" where
  "transitions_of taskID state = int (length (filter (\<lambda>tr. tt_TaskID tr = taskID) (ps_journal state)))"

definition moved :: "string \<Rightarrow> string \<Rightarrow> string \<Rightarrow> string \<Rightarrow> time \<Rightarrow> Task \<Rightarrow> planState \<Rightarrow> planState" where
  "moved planRef taskID src dst now task state =
     state\<lparr>ps_tasks := AList.update taskID (task\<lparr>tk_Status := dst\<rparr>) (ps_tasks state),
       ps_journal := ps_journal state @ [\<lparr>tt_PlanRef = planRef, tt_TaskID = taskID, tt_FromStatus = src,
         tt_ToStatus = dst, tt_At = now\<rparr>]\<rparr>"

definition transition_body ::
    "('s, tks_payload) store_ops \<Rightarrow> 's tks_batch \<Rightarrow> time \<Rightarrow> string \<Rightarrow> string \<Rightarrow> string list option \<Rightarrow> string
      \<Rightarrow> 's tks_world \<Rightarrow> 's tks_world \<times> (tks_err + bool)" where
  "transition_body ops batch now planRef taskID fromStatuses newStatus = (\<lambda>(e, s, c).
     case map_of (tc_plans c) planRef of
       None \<Rightarrow> ((e, s, c), Inl ErrPlanNotFound)
     | Some state \<Rightarrow>
         (case map_of (ps_tasks state) taskID of
            None \<Rightarrow> ((e, s, c), Inl ErrTaskNotFound)
          | Some task \<Rightarrow>
              if \<not> status_among fromStatuses task then ((e, s, c), Inr False)
              else or_error True
                (marshalAndAppend ops batch (planRunID planRef)
                  (tks_eventID planRef eventKindTaskTransitioned [taskID, Itoa (transitions_of taskID state + 1)])
                  eventKindTaskTransitioned
                  (tks_marshal [now] (TTaskTransitioned taskID (tk_Status task) newStatus now))
                  (e, s, put_plan planRef (moved planRef taskID (tk_Status task) newStatus now task state) c))))"

definition transitionTaskLocked ::
    "('s, tks_payload) store_ops \<Rightarrow> 's tks_batch \<Rightarrow> time \<Rightarrow> string \<Rightarrow> string \<Rightarrow> string list option \<Rightarrow> string
      \<Rightarrow> 's tks_world \<Rightarrow> 's tks_world \<times> (tks_err + bool)" where
  "transitionTaskLocked ops batch now planRef taskID fromStatuses newStatus w =
     (if newStatus = [] then (w, Inl ErrEmptyTaskStatus)
      else after_catchUp ops (transition_body ops batch now planRef taskID fromStatuses newStatus) w)"

definition TransitionTask ::
    "('s, tks_payload) store_ops \<Rightarrow> 's tks_batch \<Rightarrow> time \<Rightarrow> string \<Rightarrow> string \<Rightarrow> string
      \<Rightarrow> 's tks_world \<Rightarrow> 's tks_world \<times> (tks_err + unit)" where
  "TransitionTask ops batch now planRef taskID newStatus w =
     (case transitionTaskLocked ops batch now planRef taskID None newStatus w of
        (w1, Inl err) \<Rightarrow> (w1, Inl err) | (w1, Inr ok) \<Rightarrow> (w1, Inr ()))"

definition TransitionTaskCAS ::
    "('s, tks_payload) store_ops \<Rightarrow> 's tks_batch \<Rightarrow> time \<Rightarrow> string \<Rightarrow> string \<Rightarrow> string list option \<Rightarrow> string
      \<Rightarrow> 's tks_world \<Rightarrow> 's tks_world \<times> (tks_err + bool)" where
  "TransitionTaskCAS ops batch now planRef taskID fromStatuses newStatus w =
     transitionTaskLocked ops batch now planRef taskID fromStatuses newStatus w"

definition reopened_attempts :: "string \<Rightarrow> string \<Rightarrow> planState \<Rightarrow> int" where
  "reopened_attempts taskID reopenStatus state =
     int (length (filter (\<lambda>tr. tt_TaskID tr = taskID \<and> tt_ToStatus tr = reopenStatus) (ps_journal state)))"

text \<open>The verdict of \<open>decide\<close> is the new status, or \<open>None\<close> to leave the task alone.\<close>

definition CASDecide_body ::
    "('s, tks_payload) store_ops \<Rightarrow> 's tks_batch \<Rightarrow> time \<Rightarrow> string \<Rightarrow> string \<Rightarrow> string list option \<Rightarrow> string
      \<Rightarrow> (int \<Rightarrow> string option) \<Rightarrow> 's tks_world \<Rightarrow> 's tks_world \<times> (tks_err + bool \<times> string \<times> int)" where
  "CASDecide_body ops batch now planRef taskID fromStatuses reopenStatus decide = (\<lambda>(e, s, c).
     case map_of (tc_plans c) planRef of
       None \<Rightarrow> ((e, s, c), Inl ErrPlanNotFound)
     | Some state \<Rightarrow>
         (case map_of (ps_tasks state) taskID of
            None \<Rightarrow> ((e, s, c), Inl ErrTaskNotFound)
          | Some task \<Rightarrow>
              if \<not> status_among fromStatuses task then ((e, s, c), Inr (False, [], 0))
              else
                (let attempts = reopened_attempts taskID reopenStatus state in
                 case decide attempts of
                   None \<Rightarrow> ((e, s, c), Inr (False, [], attempts))
                 | Some want \<Rightarrow>
                     (case transitionTaskLocked ops batch now planRef taskID fromStatuses want (e, s, c) of
                        (w1, Inl err) \<Rightarrow> (w1, Inl err)
                      | (w1, Inr ok) \<Rightarrow> (w1, Inr (ok, want, attempts))))))"

definition TransitionTaskCASDecide ::
    "('s, tks_payload) store_ops \<Rightarrow> 's tks_batch \<Rightarrow> time \<Rightarrow> string \<Rightarrow> string \<Rightarrow> string list option \<Rightarrow> string
      \<Rightarrow> (int \<Rightarrow> string option) \<Rightarrow> 's tks_world \<Rightarrow> 's tks_world \<times> (tks_err + bool \<times> string \<times> int)" where
  "TransitionTaskCASDecide ops batch now planRef taskID fromStatuses reopenStatus decide =
     after_catchUp ops (CASDecide_body ops batch now planRef taskID fromStatuses reopenStatus decide)"

section \<open>Reads\<close>

definition tks_read :: "('s, tks_payload) store_ops \<Rightarrow> (tks_client \<Rightarrow> tks_err + 'a) \<Rightarrow> 's tks_world \<Rightarrow> 's tks_world \<times> (tks_err + 'a)" where
  "tks_read ops f = after_catchUp ops (\<lambda>(e, s, c). ((e, s, c), f c))"

definition on_plan :: "string \<Rightarrow> (planState \<Rightarrow> tks_err + 'a) \<Rightarrow> tks_client \<Rightarrow> tks_err + 'a" where
  "on_plan planRef f c = (case map_of (tc_plans c) planRef of None \<Rightarrow> Inl ErrPlanNotFound | Some state \<Rightarrow> f state)"

definition scopeMatches :: "Scope \<Rightarrow> Scope \<Rightarrow> bool" where
  "scopeMatches sc want \<longleftrightarrow> sc_Type sc = sc_Type want \<and> (sc_ID want = [] \<or> sc_ID sc = sc_ID want)"

definition sortedPlanRefs :: "tks_client \<Rightarrow> string list" where
  "sortedPlanRefs c = sort (map fst (tc_plans c))"

definition sortedTaskIDs :: "planState \<Rightarrow> string list" where
  "sortedTaskIDs state = sort (map fst (ps_tasks state))"

definition tasks_in_order :: "planState \<Rightarrow> Task list" where
  "tasks_in_order state = map (\<lambda>i. the (map_of (ps_tasks state) i)) (sortedTaskIDs state)"

definition ListTasksByScope ::
    "('s, tks_payload) store_ops \<Rightarrow> Scope \<Rightarrow> 's tks_world \<Rightarrow> 's tks_world \<times> (tks_err + Task list)" where
  "ListTasksByScope ops scope w =
     (if \<not> ValidScopeType (sc_Type scope) then (w, Inl ErrInvalidScope)
      else tks_read ops (\<lambda>c. Inr (filter (\<lambda>t. scopeMatches (tk_Scope t) scope)
        (concat (map (\<lambda>ref. tasks_in_order (the (map_of (tc_plans c) ref))) (sortedPlanRefs c))))) w)"

definition GetTask ::
    "('s, tks_payload) store_ops \<Rightarrow> string \<Rightarrow> string \<Rightarrow> 's tks_world \<Rightarrow> 's tks_world \<times> (tks_err + Task)" where
  "GetTask ops planRef taskID = tks_read ops (on_plan planRef (\<lambda>state.
     case map_of (ps_tasks state) taskID of None \<Rightarrow> Inl ErrTaskNotFound | Some t \<Rightarrow> Inr t))"

definition ReadBackPlan ::
    "('s, tks_payload) store_ops \<Rightarrow> string \<Rightarrow> 's tks_world \<Rightarrow> 's tks_world \<times> (tks_err + Plan)" where
  "ReadBackPlan ops planRef = tks_read ops (on_plan planRef (\<lambda>state. Inr (ps_plan state)))"

definition tks_ListTransitions ::
    "('s, tks_payload) store_ops \<Rightarrow> string \<Rightarrow> 's tks_world \<Rightarrow> 's tks_world \<times> (tks_err + TaskTransition list)" where
  "tks_ListTransitions ops planRef = tks_read ops (on_plan planRef (\<lambda>state. Inr (ps_journal state)))"

end
