(* ===== verification/Stk_Plan.thy ===== *)
theory Stk_Plan
  imports Tks_Store Ctl_Route
begin

text \<open>
  The durable state of the stack driver (src/internal/workflows/delivery: stacking_plan.go,
  stacking_state.go): statuses of a chunk, the chunk plan and its order, admission keys, the
  inputs of chunk and integration runs, and what the delivery records of a run prove.

  The driver sees the run ledger, the task ledger and the engine through the record
  \<open>stack_env\<close>.  Decoding and encoding JSON are arguments in it, and so is the order in which a Go
  map is ranged over.
\<close>

section \<open>Statuses\<close>

definition StatusPlanned :: string where "StatusPlanned = ''planned''"
definition StatusQueued :: string where "StatusQueued = ''queued''"
definition StatusBlocked :: string where "StatusBlocked = ''blocked''"
definition StatusRunning :: string where "StatusRunning = ''running''"
definition StatusImplemented :: string where "StatusImplemented = ''implemented''"
definition StatusReviewed :: string where "StatusReviewed = ''reviewed''"
definition StatusPublished :: string where "StatusPublished = ''published''"
definition StatusMerged :: string where "StatusMerged = ''merged''"
definition StatusReopened :: string where "StatusReopened = ''reopened''"
definition StatusFailed :: string where "StatusFailed = ''failed''"
definition StatusSkipped :: string where "StatusSkipped = ''skipped''"
definition StatusCanceled :: string where "StatusCanceled = ''canceled''"

lemmas stack_status_defs = StatusPlanned_def StatusQueued_def StatusBlocked_def StatusRunning_def StatusImplemented_def
  StatusReviewed_def StatusPublished_def StatusMerged_def StatusReopened_def StatusFailed_def StatusSkipped_def
  StatusCanceled_def

definition TerminalStatuses :: "string list" where
  "TerminalStatuses = [StatusMerged, StatusFailed, StatusSkipped, StatusCanceled]"

definition StatusIsTerminal :: "string \<Rightarrow> bool" where
  "StatusIsTerminal status \<longleftrightarrow> status \<in> set TerminalStatuses"

definition AdmissiblePreStatuses :: "string list" where
  "AdmissiblePreStatuses = [StatusPlanned, StatusQueued, StatusBlocked, StatusReopened]"

definition StatusIsAdmissiblePre :: "string \<Rightarrow> bool" where
  "StatusIsAdmissiblePre status \<longleftrightarrow> status \<in> set AdmissiblePreStatuses"

definition PlanSchema :: string where "PlanSchema = ''chunk-plan-v1''"
definition DecomposeStepID :: string where "DecomposeStepID = ''decompose''"
definition IntegrationChunkID :: string where "IntegrationChunkID = ''integration''"
definition MaxChunkAttempts :: int where "MaxChunkAttempts = 3"

definition stackScope :: "string \<Rightarrow> Scope" where
  "stackScope stackID = \<lparr>sc_Type = ''run'', sc_ID = stackID\<rparr>"

section \<open>Chunk plans\<close>

record ChunkPlan =
  cp_ID :: string
  cp_Title :: string
  cp_Files :: "string list"
  cp_EstDiffLines :: int
  cp_Tests :: bool
  cp_DependsOn :: "string list"

record planDocument =
  pd_StackMode :: string
  pd_Chunks :: "ChunkPlan list"
  pd_HasMore :: bool
  pd_RemainingScope :: string

datatype stk_err =
    StkLedger lerr
  | StkTasks tks_err
  | StkPlanRunNotFound
  | StkNoOutput
  | StkBadJSON
  | StkBadMode string
  | StkNoScope
  | StkEmptyStackID
  | StkBadChunkID string
  | StkDuplicateChunk string
  | StkUnknownDep string string
  | StkCycle
  | StkNotInOrder string
  | StkNoPolicy
  | StkInactivePolicy
  | StkNoBase
  | StkSnapshot

text \<open>\<open>doc\<close> is the decoded output; None when it is no JSON of that shape.\<close>

definition ParseStackPlanOutput :: "planDocument option \<Rightarrow> stk_err + string \<times> ChunkPlan list \<times> bool \<times> string" where
  "ParseStackPlanOutput doc =
     (case doc of
        None \<Rightarrow> Inl StkBadJSON
      | Some d \<Rightarrow>
          if pd_StackMode d \<notin> {''single'', ''no_bug'', ''multi''} then Inl (StkBadMode (pd_StackMode d))
          else if pd_StackMode d \<noteq> ''multi'' then Inr (pd_StackMode d, pd_Chunks d, False, [])
          else if pd_HasMore d \<and> TrimSpace (pd_RemainingScope d) = [] then Inl StkNoScope
          else Inr (pd_StackMode d, pd_Chunks d, pd_HasMore d, pd_RemainingScope d))"

text \<open>The regular expression \<^verbatim>\<open>^[A-Za-z0-9._-]+$\<close>.\<close>

definition chunk_id_char :: "char \<Rightarrow> bool" where
  "chunk_id_char c \<longleftrightarrow> (let n = (of_char c :: nat) in
     (65 \<le> n \<and> n \<le> 90) \<or> (97 \<le> n \<and> n \<le> 122) \<or> (48 \<le> n \<and> n \<le> 57) \<or> n = 46 \<or> n = 95 \<or> n = 45)"

definition chunkIDRE :: "string \<Rightarrow> bool" where
  "chunkIDRE s \<longleftrightarrow> s \<noteq> [] \<and> list_all chunk_id_char s"

definition AdmissionKey :: "string \<Rightarrow> string \<Rightarrow> stk_err + string" where
  "AdmissionKey stackID chunkID =
     (if TrimSpace stackID = [] then Inl StkEmptyStackID
      else if \<not> chunkIDRE chunkID then Inl (StkBadChunkID chunkID)
      else Inr (stackID @ '':'' @ chunkID))"

section \<open>Topological order\<close>

fun register_chunks :: "ChunkPlan list \<Rightarrow> string list \<Rightarrow> stk_err + string list" where
  "register_chunks [] ids = Inr ids"
| "register_chunks (c # cs) ids =
     (if cp_ID c \<in> set ids then Inl (StkDuplicateChunk (cp_ID c)) else register_chunks cs (ids @ [cp_ID c]))"

type_synonym degrees = "(string \<Rightarrow> int) \<times> (string, string list) gomap"

fun count_deps :: "string list \<Rightarrow> string \<Rightarrow> string list \<Rightarrow> degrees \<Rightarrow> stk_err + degrees" where
  "count_deps ids c [] g = Inr g"
| "count_deps ids c (dep # deps) (indegree, dependents) =
     (if dep \<notin> set ids then Inl (StkUnknownDep c dep)
      else count_deps ids c deps
        (indegree(c := indegree c + 1), AList.update dep (mget_or [] (map_of dependents) dep @ [c]) dependents))"

fun count_edges :: "string list \<Rightarrow> ChunkPlan list \<Rightarrow> degrees \<Rightarrow> stk_err + degrees" where
  "count_edges ids [] g = Inr g"
| "count_edges ids (c # cs) g =
     (case count_deps ids (cp_ID c) (cp_DependsOn c) g of Inl err \<Rightarrow> Inl err | Inr g1 \<Rightarrow> count_edges ids cs g1)"

text \<open>The loop over the dependents of a chunk that was just emitted.\<close>

fun release :: "string list \<Rightarrow> (string \<Rightarrow> int) \<Rightarrow> string list \<Rightarrow> (string \<Rightarrow> int) \<times> string list" where
  "release [] indegree ready = (indegree, ready)"
| "release (d # ds) indegree ready =
     (let n = indegree d - 1 in
      release ds (indegree(d := n)) (if n = 0 then sort (ready @ [d]) else ready))"

lemma release_size:
  assumes "release ds indegree ready = (indegree', ready')" "set ds \<subseteq> S" "finite S"
  shows "length ready' + card {d \<in> S. 0 < indegree' d} \<le> length ready + card {d \<in> S. 0 < indegree d}"
  using assms
proof (induction ds arbitrary: indegree ready)
  case (Cons d ds)
  let ?n = "indegree d - 1" and ?ready = "if indegree d - 1 = 0 then sort (ready @ [d]) else ready"
  have "release ds (indegree(d := ?n)) ?ready = (indegree', ready')" "set ds \<subseteq> S"
    using Cons.prems(1,2) by (simp_all only: release.simps Let_def list.set insert_subset)
  from Cons.IH [OF this Cons.prems(3)]
  have "length ready' + card {x \<in> S. 0 < indegree' x} \<le> length ?ready + card {x \<in> S. 0 < (indegree(d := ?n)) x}" .
  also have "\<dots> \<le> length ready + card {x \<in> S. 0 < indegree x}"
  proof (cases "?n = 0")
    case True
    have "{x \<in> S. 0 < (indegree(d := ?n)) x} = {x \<in> S. 0 < indegree x} - {d}" using True by auto
    moreover have "d \<in> {x \<in> S. 0 < indegree x}" using True Cons.prems(2) by auto
    moreover have "finite {x \<in> S. 0 < indegree x}" using Cons.prems(3) by simp
    ultimately have "Suc (card {x \<in> S. 0 < (indegree(d := ?n)) x}) = card {x \<in> S. 0 < indegree x}"
      by (metis card_Suc_Diff1)
    then show ?thesis using True by simp
  next
    case False
    have "{x \<in> S. 0 < (indegree(d := ?n)) x} \<subseteq> {x \<in> S. 0 < indegree x}" by auto
    then have "card {x \<in> S. 0 < (indegree(d := ?n)) x} \<le> card {x \<in> S. 0 < indegree x}"
      using Cons.prems(3) by (intro card_mono) simp_all
    then show ?thesis using False by simp
  qed
  finally show ?case .
qed simp

definition dependents_of :: "(string, string list) gomap \<Rightarrow> string \<Rightarrow> string list" where
  "dependents_of dependents x = mget_or [] (map_of dependents) x"

lemma dependents_of_subset: "set (dependents_of E x) \<subseteq> set (concat (map snd E))"
proof (cases "map_of E x")
  case (Some ds)
  then have "(x, ds) \<in> set E" by (rule map_of_SomeD)
  then show ?thesis using Some by (auto simp: dependents_of_def mget_or_def)
qed (simp add: dependents_of_def mget_or_def)

function kahn :: "(string, string list) gomap \<Rightarrow> (string \<Rightarrow> int) \<Rightarrow> string list \<Rightarrow> string list \<Rightarrow> string list" where
  "kahn dependents indegree [] emitted = emitted"
| "kahn dependents indegree (x # ready) emitted =
     (case release (dependents_of dependents x) indegree ready of
        (indegree1, ready1) \<Rightarrow> kahn dependents indegree1 ready1 (emitted @ [x]))"
  by pat_completeness auto
termination
proof (relation "measure (\<lambda>(E, indegree, ready, emitted). length ready + card {d \<in> set (concat (map snd E)). 0 < indegree d})", goal_cases)
  case (2 E indegree x ready emitted indegree1 ready1)
  then have "release (dependents_of E x) indegree ready = (indegree1, ready1)" by simp
  from release_size [OF this dependents_of_subset] show ?case by simp
qed simp

definition TopologicalOrder :: "ChunkPlan list \<Rightarrow> stk_err + string list" where
  "TopologicalOrder chunks =
     (case register_chunks chunks [] of
        Inl err \<Rightarrow> Inl err
      | Inr ids \<Rightarrow>
          (case count_edges ids chunks (\<lambda>_. 0, []) of
             Inl err \<Rightarrow> Inl err
           | Inr (indegree, dependents) \<Rightarrow>
               (let ready = sort (map cp_ID (filter (\<lambda>c. indegree (cp_ID c) = 0) chunks));
                    ord = kahn dependents indegree ready []
                in if length ord \<noteq> length chunks then Inl StkCycle else Inr ord)))"

definition ChunkPartIndex :: "string \<Rightarrow> string list \<Rightarrow> stk_err + nat" where
  "ChunkPartIndex chunkID ord =
     (case find (\<lambda>i. ord ! i = chunkID) [0..<length ord] of None \<Rightarrow> Inl (StkNotInOrder chunkID) | Some i \<Rightarrow> Inr i)"

section \<open>The environment of the driver\<close>

record StartRequest =
  sr_Workflow :: string
  sr_Inputs :: "(string, string) gomap"
  sr_InvocationKey :: string
  sr_AllowPublish :: bool

text \<open>
  The methods of the engine, of the run ledger and of the task ledger the driver calls.
  \<open>sx_Start\<close> returns the identifier of the run.  \<open>sx_wait\<close> lets the given time pass and says
  whether the context ended meanwhile.  \<open>sx_order\<close> is the order in which the keys of a map are
  visited; \<open>sx_snapshotInputs\<close> decodes a run snapshot, \<open>sx_compile\<close> compiles the definition in it.
\<close>

record 'w stack_env =
  sx_repo :: "'w repo"
  sx_ListRuns :: "'w \<Rightarrow> 'w \<times> (lerr + WfRunSnapshot list)"
  sx_ListDeliveries :: "string \<Rightarrow> 'w \<Rightarrow> 'w \<times> (lerr + DeliveryRecord list)"
  sx_Start :: "StartRequest \<Rightarrow> 'w \<Rightarrow> 'w \<times> (string + string)"
  sx_Deliver :: "string \<Rightarrow> 'w \<Rightarrow> 'w \<times> string option"
  sx_deliverPendingDirect :: "WfRunSnapshot \<Rightarrow> 'w \<Rightarrow> 'w \<times> string option"
  sx_hasPR :: bool
  sx_probe :: "WfRunSnapshot \<Rightarrow> 'w \<Rightarrow> 'w \<times> (string + bool)"
  sx_hasStore :: bool
  sx_StorePlan :: "Plan \<Rightarrow> 'w \<Rightarrow> 'w \<times> (tks_err + string)"
  sx_CreateTask :: "Task \<Rightarrow> 'w \<Rightarrow> 'w \<times> (tks_err + unit)"
  sx_GetTask :: "string \<Rightarrow> string \<Rightarrow> 'w \<Rightarrow> 'w \<times> (tks_err + Task)"
  sx_ListTasks :: "Scope \<Rightarrow> 'w \<Rightarrow> 'w \<times> (tks_err + Task list)"
  sx_Transition :: "string \<Rightarrow> string \<Rightarrow> string \<Rightarrow> 'w \<Rightarrow> 'w \<times> (tks_err + unit)"
  sx_TransitionCAS :: "string \<Rightarrow> string \<Rightarrow> string list option \<Rightarrow> string \<Rightarrow> 'w \<Rightarrow> 'w \<times> (tks_err + bool)"
  sx_CASDecide :: "string \<Rightarrow> string \<Rightarrow> string list option \<Rightarrow> string \<Rightarrow> (int \<Rightarrow> string option) \<Rightarrow> 'w
    \<Rightarrow> 'w \<times> (tks_err + bool \<times> string \<times> int)"
  sx_ctxDone :: "'w \<Rightarrow> bool"
  sx_wait :: "int \<Rightarrow> 'w \<Rightarrow> 'w \<times> bool"
  sx_order :: "'w \<Rightarrow> string list \<Rightarrow> string list"
  sx_decodePlan :: "string \<Rightarrow> planDocument option"
  sx_chunkJSON :: "ChunkPlan \<Rightarrow> string"
  sx_filesJSON :: "string list \<Rightarrow> string"
  sx_snapshotInputs :: "string \<Rightarrow> (string, string) gomap option"
  sx_compile :: "string \<Rightarrow> CompiledWorkflow option"

section \<open>The plan of a stack\<close>

text \<open>The succeeded decompose attempt with an output and the highest number, the first of equals.\<close>

fun latest_decompose :: "StepAttempt list \<Rightarrow> StepAttempt option \<Rightarrow> StepAttempt option" where
  "latest_decompose [] latest = latest"
| "latest_decompose (a # rest) latest =
     latest_decompose rest
       (if at_StepID a = DecomposeStepID \<and> at_Status a = AttemptStatusSucceeded \<and> at_OutputRef a \<noteq> [] \<and>
           (case latest of None \<Rightarrow> True | Some b \<Rightarrow> at_AttemptNo a > at_AttemptNo b)
        then Some a else latest)"

definition LoadStackPlanOutput :: "'w stack_env \<Rightarrow> string \<Rightarrow> 'w \<Rightarrow> 'w \<times> (stk_err + string)" where
  "LoadStackPlanOutput env stackID w =
     (case rp_ListStepAttempts (sx_repo env) stackID w of
        (w1, Inl err) \<Rightarrow> (w1, Inl (if errors_is err LErrNotFound then StkPlanRunNotFound else StkLedger err))
      | (w1, Inr attempts) \<Rightarrow>
          (case latest_decompose attempts None of
             None \<Rightarrow> (w1, Inl StkNoOutput)
           | Some a \<Rightarrow>
               (case rp_LoadContent (sx_repo env) (at_OutputRef a) w1 of
                  (w2, Inl err) \<Rightarrow> (w2, Inl (StkLedger err)) | (w2, Inr raw) \<Rightarrow> (w2, Inr raw))))"

text \<open>The number of chunks, if the run is the plan run of a multi-chunk stack.\<close>

definition DecomposedChunks :: "'w stack_env \<Rightarrow> string \<Rightarrow> 'w \<Rightarrow> 'w \<times> nat option" where
  "DecomposedChunks env runID w =
     (case rp_ListStepAttempts (sx_repo env) runID w of
        (w1, Inl err) \<Rightarrow> (w1, None)
      | (w1, Inr attempts) \<Rightarrow>
          (case latest_decompose attempts None of
             None \<Rightarrow> (w1, None)
           | Some a \<Rightarrow>
               (case rp_LoadContent (sx_repo env) (at_OutputRef a) w1 of
                  (w2, Inl err) \<Rightarrow> (w2, None)
                | (w2, Inr raw) \<Rightarrow> (w2,
                    case ParseStackPlanOutput (sx_decodePlan env raw) of
                      Inl err \<Rightarrow> None
                    | Inr (mode, chunks, _, _) \<Rightarrow>
                        if mode \<noteq> ''multi'' \<or> chunks = [] then None else Some (length chunks)))))"

definition PlanInputs :: "'w stack_env \<Rightarrow> string \<Rightarrow> 'w \<Rightarrow> 'w \<times> (stk_err + (string, string) gomap)" where
  "PlanInputs env stackID w =
     (case rp_GetRunSnapshot (sx_repo env) stackID w of
        (w1, Inl err) \<Rightarrow> (w1, Inl (StkLedger err))
      | (w1, Inr raw) \<Rightarrow> (w1, case sx_snapshotInputs env raw of None \<Rightarrow> Inl StkSnapshot | Some inputs \<Rightarrow> Inr inputs))"

definition PRBase :: "CompiledWorkflow option \<Rightarrow> stk_err + string" where
  "PRBase cw =
     (case cw of
        None \<Rightarrow> Inl StkNoPolicy
      | Some c \<Rightarrow>
          (case cw_Delivery c of
             None \<Rightarrow> Inl StkNoPolicy
           | Some d \<Rightarrow>
               if \<not> DeliveryActive cw then Inl StkInactivePolicy
               else if TrimSpace (dy_Base d) = [] then Inl StkNoBase
               else Inr (dy_Base d)))"

section \<open>Tasks and inputs of a stack\<close>

definition chunk_task :: "string \<Rightarrow> ChunkPlan \<Rightarrow> Task" where
  "chunk_task stackID c = \<lparr>tk_ID = cp_ID c, tk_PlanRef = stackID, tk_Scope = stackScope stackID, tk_Status = StatusPlanned,
     tk_RunRef = [], tk_PRNumber = [], tk_Deps = cp_DependsOn c, tk_Attempts = 0, tk_LastError = []\<rparr>"

fun seed_tasks :: "'w stack_env \<Rightarrow> string \<Rightarrow> ChunkPlan list \<Rightarrow> 'w \<Rightarrow> 'w \<times> stk_err option" where
  "seed_tasks env stackID [] w = (w, None)"
| "seed_tasks env stackID (c # cs) w =
     (case sx_GetTask env stackID (cp_ID c) w of
        (w1, Inr existing) \<Rightarrow> seed_tasks env stackID cs w1
      | (w1, Inl _) \<Rightarrow>
          (case sx_CreateTask env (chunk_task stackID c) w1 of
             (w2, Inr _) \<Rightarrow> seed_tasks env stackID cs w2
           | (w2, Inl err) \<Rightarrow>
               (case sx_GetTask env stackID (cp_ID c) w2 of
                  (w3, Inr _) \<Rightarrow> seed_tasks env stackID cs w3
                | (w3, Inl _) \<Rightarrow> (w3, Some (StkTasks err)))))"

definition SeedStackLedger :: "'w stack_env \<Rightarrow> string \<Rightarrow> ChunkPlan list \<Rightarrow> 'w \<Rightarrow> 'w \<times> stk_err option" where
  "SeedStackLedger env stackID chunks w =
     (case sx_StorePlan env \<lparr>pl_ID = stackID, pl_Scope = stackScope stackID, pl_Schema = PlanSchema, pl_PayloadRef = [],
          pl_CreatedAt = 0\<rparr> w of
        (w1, Inl err) \<Rightarrow> (w1, Some (StkTasks err))
      | (w1, Inr ref) \<Rightarrow> seed_tasks env stackID chunks w1)"

definition set_keys :: "(string \<times> string) list \<Rightarrow> (string, string) gomap \<Rightarrow> (string, string) gomap" where
  "set_keys kvs m = fold (\<lambda>(k, v) m. AList.update k v m) kvs m"

text \<open>The admission inputs and their snapshot hold the same strings.\<close>

definition ChunkRunInputs ::
    "'w stack_env \<Rightarrow> (string, string) gomap \<Rightarrow> string \<Rightarrow> string \<Rightarrow> string \<Rightarrow> ChunkPlan option \<Rightarrow> string list \<Rightarrow> (string, string) gomap" where
  "ChunkRunInputs env planInputs chunkID prBase stackPart plan siblingFiles =
     set_keys
       ([(''stack_mode'', ''chunk''), (''chunk'', chunkID), (''pr_base'', prBase)] @
        (if stackPart \<noteq> [] then [(''stack_part'', stackPart)] else []) @
        (case plan of None \<Rightarrow> [] | Some p \<Rightarrow> [(''chunk_plan'', sx_chunkJSON env p)]) @
        (if siblingFiles \<noteq> [] then [(''sibling_files'', sx_filesJSON env siblingFiles)] else []))
       planInputs"

definition IntegrationRunInputs :: "(string, string) gomap \<Rightarrow> string \<Rightarrow> (string, string) gomap" where
  "IntegrationRunInputs planInputs prBase =
     set_keys ([(''stack_mode'', ''single'')] @ (if prBase \<noteq> [] then [(''pr_base'', prBase)] else []))
       (AList.delete ''sibling_files'' (AList.delete ''chunk_plan'' planInputs))"

definition task_map :: "Task list \<Rightarrow> (string, Task) gomap" where
  "task_map ts = fold (\<lambda>t m. AList.update (tk_ID t) t m) ts []"

definition TaskMap :: "'w stack_env \<Rightarrow> string \<Rightarrow> 'w \<Rightarrow> 'w \<times> (tks_err + (string, Task) gomap)" where
  "TaskMap env stackID w =
     (case sx_ListTasks env (stackScope stackID) w of
        (w1, Inl err) \<Rightarrow> (w1, Inl err) | (w1, Inr ts) \<Rightarrow> (w1, Inr (task_map ts)))"

definition MergedSet :: "(string, Task) gomap \<Rightarrow> string list" where
  "MergedSet byID = map fst (filter (\<lambda>(i, t). tk_Status t = StatusMerged) byID)"

definition AllChunksMerged :: "ChunkPlan list \<Rightarrow> string list \<Rightarrow> bool" where
  "AllChunksMerged chunks merged \<longleftrightarrow> list_all (\<lambda>c. cp_ID c \<in> set merged) chunks"

definition TaskReady :: "Task \<Rightarrow> string list \<Rightarrow> bool" where
  "TaskReady t merged \<longleftrightarrow> list_all (\<lambda>dep. dep \<in> set merged) (tk_Deps t)"

fun collect_files :: "string list \<Rightarrow> string list \<Rightarrow> string list" where
  "collect_files [] files = files"
| "collect_files (f # fs) files =
     (let g = TrimSpace f in collect_files fs (if g = [] \<or> g \<in> set files then files else files @ [g]))"

definition SiblingFiles :: "(string, ChunkPlan) gomap \<Rightarrow> string \<Rightarrow> string list" where
  "SiblingFiles chunks chunkID =
     sort (collect_files (concat (map (cp_Files \<circ> snd) (filter (\<lambda>(i, c). i \<noteq> chunkID) chunks))) [])"

section \<open>Evidence in the run ledger\<close>

definition pushed_record :: "DeliveryRecord \<Rightarrow> bool" where
  "pushed_record r \<longleftrightarrow> dl_CommitSHA r \<noteq> [] \<and> dl_Status r \<in> {''pushed'', ''succeeded''}"

definition ChunkRunNoDiff :: "'w stack_env \<Rightarrow> WfRunSnapshot \<Rightarrow> 'w \<Rightarrow> 'w \<times> bool" where
  "ChunkRunNoDiff env run w =
     (if wr_Status run \<noteq> WfRunStatusSucceeded then (w, False)
      else (case sx_ListDeliveries env (wr_RunID run) w of
          (w1, Inl err) \<Rightarrow> (w1, False)
        | (w1, Inr records) \<Rightarrow>
            (w1, \<not> list_ex pushed_record records \<and> list_ex (\<lambda>r. dl_Status r = ''no_diff'') records)))"

definition RunPushed :: "'w stack_env \<Rightarrow> WfRunSnapshot \<Rightarrow> 'w \<Rightarrow> 'w \<times> bool" where
  "RunPushed env run w =
     (case sx_ListDeliveries env (wr_RunID run) w of
        (w1, Inl err) \<Rightarrow> (w1, False) | (w1, Inr records) \<Rightarrow> (w1, list_ex pushed_record records))"

definition RunHeadCommit :: "'w stack_env \<Rightarrow> WfRunSnapshot \<Rightarrow> 'w \<Rightarrow> 'w \<times> string" where
  "RunHeadCommit env run w =
     (case sx_ListDeliveries env (wr_RunID run) w of
        (w1, Inl err) \<Rightarrow> (w1, [])
      | (w1, Inr records) \<Rightarrow> (w1, case find pushed_record records of None \<Rightarrow> [] | Some r \<Rightarrow> dl_CommitSHA r))"

end
