(* ===== verification/Stk_Driver.thy ===== *)
theory Stk_Driver
  imports Stk_Plan
begin

text \<open>
  The stack driver of the in-process engine (src/internal/workflows/localengine:
  engine_stack.go, engine_stack_settle.go).  A drive pass re-reads the task map, settles chunks
  whose run has ended, marks merged chunks, and then finishes the stack, admits the next wave,
  stops, or waits.  The loops may go on for ever, so they take fuel; None means that they have
  not returned yet.  Log lines are left out.
\<close>

section \<open>Helpers\<close>

definition stackDrivePollInterval :: int where "stackDrivePollInterval = 2000000000"
definition stackDriveMaxBackoff :: int where "stackDriveMaxBackoff = 30000000000"

definition next_backoff :: "bool \<Rightarrow> int \<Rightarrow> int" where
  "next_backoff progressed backoff =
     (if progressed then stackDrivePollInterval
      else if backoff * 2 > stackDriveMaxBackoff then stackDriveMaxBackoff else backoff * 2)"

definition isStackInFlightStatus :: "string \<Rightarrow> bool" where
  "isStackInFlightStatus status \<longleftrightarrow>
     status \<in> {StatusQueued, StatusRunning, StatusImplemented, StatusReviewed, StatusPublished}"

definition transitionStackTask :: "'w stack_env \<Rightarrow> string \<Rightarrow> string \<Rightarrow> string \<Rightarrow> 'w \<Rightarrow> 'w \<times> bool" where
  "transitionStackTask env stackID i status w =
     (case sx_Transition env stackID i status w of (w1, Inl err) \<Rightarrow> (w1, False) | (w1, Inr _) \<Rightarrow> (w1, True))"

fun best_run :: "string \<Rightarrow> WfRunSnapshot list \<Rightarrow> WfRunSnapshot option \<Rightarrow> WfRunSnapshot option" where
  "best_run key [] best = best"
| "best_run key (r # rs) best =
     best_run key rs
       (if wr_InvocationKey r = key \<and> (case best of None \<Rightarrow> True | Some b \<Rightarrow> wr_StartedAt r > wr_StartedAt b)
        then Some r else best)"

definition stackRunByKey :: "'w stack_env \<Rightarrow> string \<Rightarrow> string \<Rightarrow> 'w \<Rightarrow> 'w \<times> (stk_err + WfRunSnapshot option)" where
  "stackRunByKey env stackID chunkID w =
     (case AdmissionKey stackID chunkID of
        Inl err \<Rightarrow> (w, Inl err)
      | Inr key \<Rightarrow>
          (case sx_ListRuns env w of
             (w1, Inl err) \<Rightarrow> (w1, Inl (StkLedger err)) | (w1, Inr runs) \<Rightarrow> (w1, Inr (best_run key runs None))))"

definition reopen_verdict :: "int \<Rightarrow> string option" where
  "reopen_verdict attempts = Some (if attempts + 1 > MaxChunkAttempts then StatusFailed else StatusReopened)"

definition reopenOrFailStackTask :: "'w stack_env \<Rightarrow> string \<Rightarrow> string \<Rightarrow> 'w \<Rightarrow> 'w \<times> bool" where
  "reopenOrFailStackTask env stackID i w =
     (case sx_CASDecide env stackID i (Some [StatusRunning]) StatusReopened reopen_verdict w of
        (w1, Inl err) \<Rightarrow> (w1, False) | (w1, Inr (applied, _, _)) \<Rightarrow> (w1, applied))"

definition prMerged :: "'w stack_env \<Rightarrow> WfRunSnapshot \<Rightarrow> 'w \<Rightarrow> 'w \<times> (string + bool)" where
  "prMerged env run w = (if \<not> sx_hasPR env then (w, Inr False) else sx_probe env run w)"

section \<open>Settled chunks\<close>

definition settleChunkDelivery :: "'w stack_env \<Rightarrow> string \<Rightarrow> string \<Rightarrow> WfRunSnapshot \<Rightarrow> 'w \<Rightarrow> 'w \<times> bool" where
  "settleChunkDelivery env stackID i run w =
     (case rp_GetRun (sx_repo env) (wr_RunID run) w of
        (w1, Inl err) \<Rightarrow> (w1, False)
      | (w1, Inr fresh) \<Rightarrow>
          if wr_Status fresh = WfRunStatusSucceeded then
            (case ChunkRunNoDiff env fresh w1 of
               (w2, nodiff) \<Rightarrow> transitionStackTask env stackID i (if nodiff then StatusMerged else StatusPublished) w2)
          else if wr_Status fresh = WfRunStatusDeliveryFailed then reopenOrFailStackTask env stackID i w1
          else (w1, False))"

text \<open>One chunk of processSettledChunks: the chunk, its task as read, and its run.\<close>

definition settle_succeeded :: "'w stack_env \<Rightarrow> string \<Rightarrow> string \<Rightarrow> Task \<Rightarrow> WfRunSnapshot \<Rightarrow> 'w \<Rightarrow> 'w \<times> bool" where
  "settle_succeeded env stackID i t run w =
     (case ChunkRunNoDiff env run w of
        (w1, True) \<Rightarrow> transitionStackTask env stackID i StatusMerged w1
      | (w1, False) \<Rightarrow>
          (case RunPushed env run w1 of
             (w2, True) \<Rightarrow>
               if tk_Status t \<noteq> StatusPublished then transitionStackTask env stackID i StatusPublished w2 else (w2, False)
           | (w2, False) \<Rightarrow>
               if tk_Status t \<noteq> StatusImplemented then transitionStackTask env stackID i StatusImplemented w2 else (w2, False)))"

definition settle_pending :: "'w stack_env \<Rightarrow> string \<Rightarrow> string \<Rightarrow> Task \<Rightarrow> WfRunSnapshot \<Rightarrow> bool \<Rightarrow> 'w \<Rightarrow> 'w \<times> bool" where
  "settle_pending env stackID i t run autoPublish w =
     (if tk_Status t = StatusPublished \<or> tk_Status t = StatusReviewed then (w, False)
      else if autoPublish then
        (case sx_Deliver env (wr_RunID run) w of
           (w1, None) \<Rightarrow> settleChunkDelivery env stackID i run w1 | (w1, Some err) \<Rightarrow> (w1, False))
      else transitionStackTask env stackID i StatusReviewed w)"

definition settle_chunk :: "'w stack_env \<Rightarrow> string \<Rightarrow> bool \<Rightarrow> string \<Rightarrow> Task \<Rightarrow> 'w \<Rightarrow> 'w \<times> bool" where
  "settle_chunk env stackID autoPublish i t w =
     (if \<not> isStackInFlightStatus (tk_Status t) then (w, False)
      else (case stackRunByKey env stackID i w of
          (w1, Inl err) \<Rightarrow> (w1, False)
        | (w1, Inr None) \<Rightarrow> (w1, False)
        | (w1, Inr (Some run)) \<Rightarrow>
            if wr_Status run = WfRunStatusSucceeded then settle_succeeded env stackID i t run w1
            else if wr_Status run = WfRunStatusDeliveryPending then settle_pending env stackID i t run autoPublish w1
            else if wr_Status run \<in> {WfRunStatusFailed, WfRunStatusCanceled, WfRunStatusTimedOut, WfRunStatusDeliveryFailed}
            then reopenOrFailStackTask env stackID i w1
            else (w1, False)))"

text \<open>A loop over the entries of a map that reports whether any of them progressed.\<close>

fun for_tasks :: "(string \<Rightarrow> Task \<Rightarrow> 'w \<Rightarrow> 'w \<times> bool) \<Rightarrow> (string, Task) gomap \<Rightarrow> string list \<Rightarrow> bool \<Rightarrow> 'w \<Rightarrow> 'w \<times> bool" where
  "for_tasks f byID [] progressed w = (w, progressed)"
| "for_tasks f byID (i # ids) progressed w =
     (case map_of byID i of
        None \<Rightarrow> for_tasks f byID ids progressed w
      | Some t \<Rightarrow> (case f i t w of (w1, p) \<Rightarrow> for_tasks f byID ids (p \<or> progressed) w1))"

definition processSettledChunks :: "'w stack_env \<Rightarrow> string \<Rightarrow> (string, Task) gomap \<Rightarrow> bool \<Rightarrow> 'w \<Rightarrow> 'w \<times> bool" where
  "processSettledChunks env stackID byID autoPublish w =
     for_tasks (settle_chunk env stackID autoPublish) byID (sx_order env w (map fst byID)) False w"

definition merge_chunk :: "'w stack_env \<Rightarrow> string \<Rightarrow> string \<Rightarrow> Task \<Rightarrow> 'w \<Rightarrow> 'w \<times> bool" where
  "merge_chunk env stackID i t w =
     (if tk_Status t \<noteq> StatusPublished \<and> tk_Status t \<noteq> StatusImplemented then (w, False)
      else (case stackRunByKey env stackID i w of
          (w1, Inl err) \<Rightarrow> (w1, False)
        | (w1, Inr None) \<Rightarrow> (w1, False)
        | (w1, Inr (Some run)) \<Rightarrow>
            (case prMerged env run w1 of
               (w2, Inl err) \<Rightarrow> (w2, False)
             | (w2, Inr merged) \<Rightarrow> if merged then transitionStackTask env stackID i StatusMerged w2 else (w2, False))))"

definition markMergedChunks :: "'w stack_env \<Rightarrow> string \<Rightarrow> (string, Task) gomap \<Rightarrow> 'w \<Rightarrow> 'w \<times> bool" where
  "markMergedChunks env stackID byID w =
     (if \<not> sx_hasPR env then (w, False)
      else for_tasks (merge_chunk env stackID) byID (sx_order env w (map fst byID)) False w)"

section \<open>Admission\<close>

definition nextAdmissionWave :: "(string, Task) gomap \<Rightarrow> string list \<Rightarrow> string list \<Rightarrow> string list" where
  "nextAdmissionWave byID merged ord =
     filter (\<lambda>i. case map_of byID i of
       None \<Rightarrow> False | Some t \<Rightarrow> StatusIsAdmissiblePre (tk_Status t) \<and> TaskReady t merged) ord"

text \<open>What a drive works on: the plan run, the compiled workflow, the stack, its chunks and their order.\<close>

record drive =
  dv_planRun :: WfRunSnapshot
  dv_compiled :: CompiledWorkflow
  dv_stackID :: string
  dv_chunks :: "ChunkPlan list"
  dv_order :: "string list"
  dv_planInputs :: "(string, string) gomap"
  dv_prBase :: string

definition dv_policy :: "drive \<Rightarrow> string" where
  "dv_policy dv = (case cw_Stacking (dv_compiled dv) of None \<Rightarrow> [] | Some cfg \<Rightarrow> sg_MergePolicy cfg)"

definition dv_auto :: "drive \<Rightarrow> bool" where
  "dv_auto dv \<longleftrightarrow> dv_policy dv = ''auto''"

text \<open>The last chunk of an identifier wins in the map of the plan entries.\<close>

definition chunkPlans :: "ChunkPlan list \<Rightarrow> (string, ChunkPlan) gomap" where
  "chunkPlans chunks = fold (\<lambda>c m. AList.update (cp_ID c) c m) chunks []"

definition chunk_request :: "'w stack_env \<Rightarrow> drive \<Rightarrow> string \<Rightarrow> string \<Rightarrow> nat \<Rightarrow> StartRequest" where
  "chunk_request env dv i key part =
     \<lparr>sr_Workflow = wr_WorkflowName (dv_planRun dv),
      sr_Inputs = ChunkRunInputs env (dv_planInputs dv) i (dv_prBase dv)
        (Itoa (int part + 1) @ ''/'' @ Itoa (int (length (dv_order dv)))) (map_of (chunkPlans (dv_chunks dv)) i)
        (SiblingFiles (chunkPlans (dv_chunks dv)) i),
      sr_InvocationKey = key, sr_AllowPublish = dv_auto dv\<rparr>"

definition admit_chunk :: "'w stack_env \<Rightarrow> drive \<Rightarrow> string \<Rightarrow> 'w \<Rightarrow> 'w" where
  "admit_chunk env dv i w =
     (case stackRunByKey env (dv_stackID dv) i w of
        (w1, Inl err) \<Rightarrow> w1
      | (w1, Inr (Some run)) \<Rightarrow> w1
      | (w1, Inr None) \<Rightarrow>
          (case ChunkPartIndex i (dv_order dv) of
             Inl err \<Rightarrow> w1
           | Inr part \<Rightarrow>
               (case AdmissionKey (dv_stackID dv) i of
                  Inl err \<Rightarrow> w1
                | Inr key \<Rightarrow>
                    (case sx_TransitionCAS env (dv_stackID dv) i (Some AdmissiblePreStatuses) StatusRunning w1 of
                       (w2, Inl err) \<Rightarrow> w2
                     | (w2, Inr False) \<Rightarrow> w2
                     | (w2, Inr True) \<Rightarrow>
                         (case sx_Start env (chunk_request env dv i key part) w2 of
                            (w3, Inr runID) \<Rightarrow> w3
                          | (w3, Inl err) \<Rightarrow> fst (sx_Transition env (dv_stackID dv) i StatusReopened w3))))))"

fun admitWave :: "'w stack_env \<Rightarrow> drive \<Rightarrow> string list \<Rightarrow> 'w \<Rightarrow> 'w" where
  "admitWave env dv [] w = w"
| "admitWave env dv (i # wave) w = admitWave env dv wave (admit_chunk env dv i w)"

text \<open>The switch of one task: \<open>Some\<close> when it decides, and then the loop over the map ends.\<close>

definition progress_verdict :: "bool \<Rightarrow> Task \<Rightarrow> bool option" where
  "progress_verdict hasMergeOracle t =
     (if tk_Status t = StatusRunning \<or> tk_Status t = StatusImplemented then Some True
      else if tk_Status t = StatusPublished then (if hasMergeOracle then Some True else None)
      else if tk_Status t = StatusFailed \<or> tk_Status t = StatusCanceled then Some False
      else None)"

fun stackHasProgress :: "(string, Task) gomap \<Rightarrow> bool \<Rightarrow> string list \<Rightarrow> bool" where
  "stackHasProgress byID hasMergeOracle [] = False"
| "stackHasProgress byID hasMergeOracle (i # ids) =
     (case map_of byID i of
        None \<Rightarrow> stackHasProgress byID hasMergeOracle ids
      | Some t \<Rightarrow> (case progress_verdict hasMergeOracle t of
          Some v \<Rightarrow> v | None \<Rightarrow> stackHasProgress byID hasMergeOracle ids))"

section \<open>A drive pass\<close>

datatype drive_verdict = DStop | DFinish | DAgain | DWait bool

text \<open>A loop that re-reads the task map when it progressed; None when the read fails.\<close>

definition reread :: "'w stack_env \<Rightarrow> string \<Rightarrow> (string, Task) gomap \<Rightarrow> 'w \<times> bool \<Rightarrow> 'w \<times> (string, Task) gomap option" where
  "reread env stackID byID = (\<lambda>(w, progressed).
     if \<not> progressed then (w, Some byID)
     else (case TaskMap env stackID w of (w1, Inl err) \<Rightarrow> (w1, None) | (w1, Inr byID1) \<Rightarrow> (w1, Some byID1)))"

definition pass_rest :: "'w stack_env \<Rightarrow> drive \<Rightarrow> (string, Task) gomap \<Rightarrow> bool \<Rightarrow> 'w \<Rightarrow> 'w \<times> drive_verdict" where
  "pass_rest env dv byID progressed w =
     (let merged = MergedSet byID; wave = nextAdmissionWave byID merged (dv_order dv) in
      if AllChunksMerged (dv_chunks dv) merged then (w, DFinish)
      else if wave \<noteq> [] then (admitWave env dv wave w, DAgain)
      else if \<not> stackHasProgress byID (sx_hasPR env) (sx_order env w (map fst byID)) then (w, DStop)
      else (w, DWait progressed))"

definition drive_pass :: "'w stack_env \<Rightarrow> drive \<Rightarrow> 'w \<Rightarrow> 'w \<times> drive_verdict" where
  "drive_pass env dv w =
     (let stackID = dv_stackID dv in
      case TaskMap env stackID w of
        (w0, Inl err) \<Rightarrow> (w0, DStop)
      | (w0, Inr byID0) \<Rightarrow>
          (case processSettledChunks env stackID byID0 (dv_auto dv) w0 of
             (w1, p1) \<Rightarrow>
               (case reread env stackID byID0 (w1, p1) of
                  (w2, None) \<Rightarrow> (w2, DStop)
                | (w2, Some byID1) \<Rightarrow>
                    (case markMergedChunks env stackID byID1 w2 of
                       (w3, p2) \<Rightarrow>
                         (case reread env stackID byID1 (w3, p2) of
                            (w4, None) \<Rightarrow> (w4, DStop)
                          | (w4, Some byID2) \<Rightarrow> pass_rest env dv byID2 (p1 \<or> p2) w4)))))"

section \<open>Finishing a stack\<close>

definition settlePlanRun :: "'w stack_env \<Rightarrow> CompiledWorkflow \<Rightarrow> string \<Rightarrow> 'w \<Rightarrow> 'w" where
  "settlePlanRun env compiled runID w =
     (if (case cw_Delivery compiled of None \<Rightarrow> False | Some d \<Rightarrow> dy_DeliverPlanRun d) then w
      else (case rp_GetRun (sx_repo env) runID w of
          (w1, Inl err) \<Rightarrow> w1
        | (w1, Inr fresh) \<Rightarrow>
            if wr_Status fresh \<noteq> WfRunStatusDeliveryPending then w1
            else fst (rp_CompareAndSetRunStatus (sx_repo env) runID (wr_Version fresh) WfRunStatusSucceeded w1)))"

fun waitForPRMerged :: "nat \<Rightarrow> 'w stack_env \<Rightarrow> WfRunSnapshot \<Rightarrow> 'w \<Rightarrow> ('w \<times> bool) option" where
  "waitForPRMerged 0 env run w = None"
| "waitForPRMerged (Suc fuel) env run w =
     (case prMerged env run w of
        (w1, Inl err) \<Rightarrow> Some (w1, False)
      | (w1, Inr True) \<Rightarrow> Some (w1, True)
      | (w1, Inr False) \<Rightarrow>
          (case sx_wait env stackDrivePollInterval w1 of
             (w2, True) \<Rightarrow> Some (w2, False) | (w2, False) \<Rightarrow> waitForPRMerged fuel env run w2))"

text \<open>The poll of a succeeded integration run: its PR must merge first when this drive publishes.\<close>

definition settle_integrated :: "nat \<Rightarrow> 'w stack_env \<Rightarrow> CompiledWorkflow \<Rightarrow> bool \<Rightarrow> string \<Rightarrow> WfRunSnapshot \<Rightarrow> 'w \<Rightarrow> 'w option" where
  "settle_integrated fuel env compiled autoPublish stackID fresh w =
     (case (if autoPublish \<and> sx_hasPR env
            then (case ChunkRunNoDiff env fresh w of (w1, nodiff) \<Rightarrow> (w1, \<not> nodiff)) else (w, False)) of
        (w1, False) \<Rightarrow> Some (settlePlanRun env compiled stackID w1)
      | (w1, True) \<Rightarrow>
          (case waitForPRMerged fuel env fresh w1 of
             None \<Rightarrow> None
           | Some (w2, False) \<Rightarrow> Some w2
           | Some (w2, True) \<Rightarrow> Some (settlePlanRun env compiled stackID w2)))"

fun waitForIntegrationSettle ::
    "nat \<Rightarrow> 'w stack_env \<Rightarrow> WfRunSnapshot \<Rightarrow> CompiledWorkflow \<Rightarrow> bool \<Rightarrow> string \<Rightarrow> int \<Rightarrow> 'w \<Rightarrow> 'w option" where
  "waitForIntegrationSettle 0 env run compiled autoPublish stackID backoff w = None"
| "waitForIntegrationSettle (Suc fuel) env run compiled autoPublish stackID backoff w =
     (if sx_ctxDone env w then Some w
      else (case rp_GetRun (sx_repo env) (wr_RunID run) w of
          (w1, Inl err) \<Rightarrow> Some w1
        | (w1, Inr fresh) \<Rightarrow>
            if wr_Status fresh = WfRunStatusSucceeded then settle_integrated fuel env compiled autoPublish stackID fresh w1
            else if wr_Status fresh = WfRunStatusDeliveryPending \<and> \<not> autoPublish
            then Some (settlePlanRun env compiled stackID w1)
            else if wr_Status fresh \<in> {WfRunStatusFailed, WfRunStatusCanceled, WfRunStatusTimedOut, WfRunStatusDeliveryFailed}
            then Some w1
            else
              (case (if wr_Status fresh = WfRunStatusDeliveryPending
                     then (case sx_deliverPendingDirect env fresh w1 of (w2, derr) \<Rightarrow> (w2, derr = None)) else (w1, False)) of
                 (w2, progressed) \<Rightarrow>
                   (case sx_wait env backoff w2 of
                      (w3, True) \<Rightarrow> Some w3
                    | (w3, False) \<Rightarrow>
                        waitForIntegrationSettle fuel env run compiled autoPublish stackID (next_backoff progressed backoff) w3))))"

definition finishStack :: "nat \<Rightarrow> 'w stack_env \<Rightarrow> drive \<Rightarrow> 'w \<Rightarrow> 'w option" where
  "finishStack fuel env dv w =
     (let wait = (\<lambda>run w. waitForIntegrationSettle fuel env run (dv_compiled dv) (dv_auto dv) (dv_stackID dv)
                    stackDrivePollInterval w) in
      case AdmissionKey (dv_stackID dv) IntegrationChunkID of
        Inl err \<Rightarrow> Some w
      | Inr key \<Rightarrow>
          (case stackRunByKey env (dv_stackID dv) IntegrationChunkID w of
             (w1, Inl err) \<Rightarrow> Some w1
           | (w1, Inr (Some run)) \<Rightarrow> wait run w1
           | (w1, Inr None) \<Rightarrow>
               (case sx_Start env \<lparr>sr_Workflow = wr_WorkflowName (dv_planRun dv),
                    sr_Inputs = IntegrationRunInputs (dv_planInputs dv) (dv_prBase dv),
                    sr_InvocationKey = key, sr_AllowPublish = dv_auto dv\<rparr> w1 of
                  (w2, Inl err) \<Rightarrow> Some w2
                | (w2, Inr runID) \<Rightarrow>
                    (case rp_GetRun (sx_repo env) runID w2 of
                       (w3, Inl err) \<Rightarrow> Some w3 | (w3, Inr run) \<Rightarrow> wait run w3))))"

section \<open>The loop\<close>

fun driveStackLoop :: "nat \<Rightarrow> 'w stack_env \<Rightarrow> drive \<Rightarrow> int \<Rightarrow> 'w \<Rightarrow> 'w option" where
  "driveStackLoop 0 env dv backoff w = None"
| "driveStackLoop (Suc fuel) env dv backoff w =
     (if sx_ctxDone env w then Some w
      else (case drive_pass env dv w of
          (w1, DStop) \<Rightarrow> Some w1
        | (w1, DFinish) \<Rightarrow> finishStack fuel env dv w1
        | (w1, DAgain) \<Rightarrow> driveStackLoop fuel env dv stackDrivePollInterval w1
        | (w1, DWait progressed) \<Rightarrow>
            (case sx_wait env backoff w1 of
               (w2, True) \<Rightarrow> Some w2
             | (w2, False) \<Rightarrow> driveStackLoop fuel env dv (next_backoff progressed backoff) w2)))"

section \<open>Driving a parked plan run, and the delivery gate\<close>

definition compileStackPlanRun :: "'w stack_env \<Rightarrow> WfRunSnapshot \<Rightarrow> 'w \<Rightarrow> 'w \<times> CompiledWorkflow option" where
  "compileStackPlanRun env run w =
     (case rp_GetRunSnapshot (sx_repo env) (wr_RunID run) w of
        (w1, Inl err) \<Rightarrow> (w1, None) | (w1, Inr raw) \<Rightarrow> (w1, sx_compile env raw))"

text \<open>The part of an invocation key before its first colon, when that is not the run itself.\<close>

definition key_owner :: "WfRunSnapshot \<Rightarrow> string option" where
  "key_owner run =
     (let key = wr_InvocationKey run; stack = takeWhile (\<lambda>c. c \<noteq> CHR '':'') key in
      if CHR '':'' \<in> set key \<and> stack \<noteq> [] \<and> wr_RunID run \<noteq> stack then Some stack else None)"

definition isDerivedRun :: "'w stack_env \<Rightarrow> WfRunSnapshot \<Rightarrow> 'w \<Rightarrow> 'w \<times> bool" where
  "isDerivedRun env run w =
     (case key_owner run of
        None \<Rightarrow> (w, False)
      | Some stack \<Rightarrow> (case rp_GetRun (sx_repo env) stack w of (w1, Inl err) \<Rightarrow> (w1, False) | (w1, Inr _) \<Rightarrow> (w1, True)))"

definition stacks :: "CompiledWorkflow option \<Rightarrow> bool" where
  "stacks compiled \<longleftrightarrow> (case compiled of None \<Rightarrow> False
     | Some c \<Rightarrow> (case cw_Stacking c of None \<Rightarrow> False | Some cfg \<Rightarrow> sg_Enabled cfg))"

text \<open>The part of stackDriveAfterPark that follows the parsed plan.\<close>

definition drive_plan ::
    "nat \<Rightarrow> 'w stack_env \<Rightarrow> WfRunSnapshot \<Rightarrow> CompiledWorkflow \<Rightarrow> string \<Rightarrow> ChunkPlan list \<Rightarrow> bool \<Rightarrow> 'w \<Rightarrow> 'w option" where
  "drive_plan fuel env run compiled runID chunks hasMore w =
     (if \<not> sx_hasStore env then Some w
      else (case SeedStackLedger env runID chunks w of
          (w1, Some err) \<Rightarrow> Some w1
        | (w1, None) \<Rightarrow>
            if hasMore then Some w1
            else (case TopologicalOrder chunks of
                Inl err \<Rightarrow> Some w1
              | Inr ord \<Rightarrow>
                  (case PlanInputs env runID w1 of
                     (w2, Inl err) \<Rightarrow> Some w2
                   | (w2, Inr inputs) \<Rightarrow>
                       (case PRBase (Some compiled) of
                          Inl err \<Rightarrow> Some w2
                        | Inr base \<Rightarrow>
                            driveStackLoop fuel env
                              \<lparr>dv_planRun = run, dv_compiled = compiled, dv_stackID = runID, dv_chunks = chunks,
                               dv_order = ord, dv_planInputs = inputs, dv_prBase = base\<rparr>
                              stackDrivePollInterval w2)))))"

definition stackDriveAfterPark :: "nat \<Rightarrow> 'w stack_env \<Rightarrow> string \<Rightarrow> 'w \<Rightarrow> 'w option" where
  "stackDriveAfterPark fuel env runID w =
     (case rp_GetRun (sx_repo env) runID w of
        (w1, Inl err) \<Rightarrow> Some w1
      | (w1, Inr run) \<Rightarrow>
          if wr_Status run \<noteq> WfRunStatusDeliveryPending then Some w1
          else (case isDerivedRun env run w1 of
              (w2, True) \<Rightarrow> Some w2
            | (w2, False) \<Rightarrow>
                (case compileStackPlanRun env run w2 of
                   (w3, compiled) \<Rightarrow>
                     if \<not> stacks compiled \<or> \<not> DeliveryActive compiled then Some w3
                     else (case LoadStackPlanOutput env runID w3 of
                         (w4, Inl err) \<Rightarrow> Some w4
                       | (w4, Inr raw) \<Rightarrow>
                           (case ParseStackPlanOutput (sx_decodePlan env raw) of
                              Inl err \<Rightarrow> Some w4
                            | Inr (mode, chunks, hasMore, _) \<Rightarrow>
                                if mode \<noteq> ''multi'' \<or> chunks = [] then Some w4
                                else drive_plan fuel env run (the compiled) runID chunks hasMore w4)))))"

definition integration_settled :: "'w stack_env \<Rightarrow> string \<Rightarrow> WfRunSnapshot \<Rightarrow> 'w \<Rightarrow> 'w \<times> bool" where
  "integration_settled env policy run w =
     (if wr_Status run = WfRunStatusSucceeded then
        (case (if policy = ''auto'' \<and> sx_hasPR env
               then (case ChunkRunNoDiff env run w of (w1, nodiff) \<Rightarrow> (w1, \<not> nodiff)) else (w, False)) of
           (w1, False) \<Rightarrow> (w1, True)
         | (w1, True) \<Rightarrow> (case prMerged env run w1 of (w2, Inl err) \<Rightarrow> (w2, False) | (w2, Inr merged) \<Rightarrow> (w2, merged)))
      else if wr_Status run = WfRunStatusDeliveryPending then (w, policy = ''approve'')
      else (w, False))"

definition stackDriveCompleted :: "'w stack_env \<Rightarrow> string \<Rightarrow> CompiledWorkflow \<Rightarrow> 'w \<Rightarrow> 'w \<times> bool" where
  "stackDriveCompleted env runID compiled w =
     (case LoadStackPlanOutput env runID w of
        (w1, Inl err) \<Rightarrow> (w1, False)
      | (w1, Inr raw) \<Rightarrow>
          (case ParseStackPlanOutput (sx_decodePlan env raw) of
             Inl err \<Rightarrow> (w1, False)
           | Inr (mode, chunks, hasMore, _) \<Rightarrow>
               if mode \<noteq> ''multi'' \<or> chunks = [] \<or> hasMore \<or> \<not> sx_hasStore env then (w1, False)
               else (case TaskMap env runID w1 of
                   (w2, Inl err) \<Rightarrow> (w2, False)
                 | (w2, Inr byID) \<Rightarrow>
                     if \<not> AllChunksMerged chunks (MergedSet byID) then (w2, False)
                     else (case stackRunByKey env runID IntegrationChunkID w2 of
                         (w3, Inl err) \<Rightarrow> (w3, False)
                       | (w3, Inr None) \<Rightarrow> (w3, False)
                       | (w3, Inr (Some run)) \<Rightarrow>
                           integration_settled env
                             (case cw_Stacking compiled of None \<Rightarrow> [] | Some cfg \<Rightarrow> sg_MergePolicy cfg) run w3))))"

text \<open>Whether the delivery of the run is refused because its stack has not been driven.\<close>

definition undrivenPlanRun :: "'w stack_env \<Rightarrow> string \<Rightarrow> CompiledWorkflow option \<Rightarrow> 'w \<Rightarrow> 'w \<times> bool" where
  "undrivenPlanRun env runID compiled w =
     (if \<not> stacks compiled then (w, False)
      else (case DecomposedChunks env runID w of
          (w1, None) \<Rightarrow> (w1, False)
        | (w1, Some n) \<Rightarrow>
            (case stackDriveCompleted env runID (the compiled) w1 of (w2, completed) \<Rightarrow> (w2, \<not> completed))))"

end
