(* ===== verification/Stk_Order.thy ===== *)
theory Stk_Order
  imports Stk_Plan
begin

text \<open>
  The topological order of a chunk plan: Kahn's algorithm accepts exactly the plans whose
  identifiers are distinct, whose dependencies are known and acyclic, and its result lists every
  chunk once, after the chunks it depends on.  The graph is the list of its edges, from a
  dependency to the chunk that has it, with repetitions.
\<close>

section \<open>The graph of a plan\<close>

definition plan_edges :: "ChunkPlan list \<Rightarrow> (string \<times> string) list" where
  "plan_edges cs = concat (map (\<lambda>c. map (\<lambda>d. (d, cp_ID c)) (cp_DependsOn c)) cs)"

definition into :: "(string \<times> string) list \<Rightarrow> string set \<Rightarrow> string \<Rightarrow> nat" where
  "into es S x = length (filter (\<lambda>e. snd e = x \<and> fst e \<notin> S) es)"

definition out_of :: "(string \<times> string) list \<Rightarrow> string \<Rightarrow> string list" where
  "out_of es d = map snd (filter (\<lambda>e. fst e = d) es)"

definition graph_of :: "degrees \<Rightarrow> (string \<times> string) list \<Rightarrow> bool" where
  "graph_of g es \<longleftrightarrow> (\<forall>x. fst g x = int (into es {} x)) \<and> (\<forall>d. dependents_of (snd g) d = out_of es d)"

lemma register_chunks_eq:
  "register_chunks cs ids = Inr ids' \<longleftrightarrow> distinct (map cp_ID cs) \<and> set (map cp_ID cs) \<inter> set ids = {} \<and> ids' = ids @ map cp_ID cs"
proof (induction cs arbitrary: ids)
  case (Cons c cs)
  show ?case
  proof (cases "cp_ID c \<in> set ids")
    case False
    then have "register_chunks (c # cs) ids = Inr ids' \<longleftrightarrow>
        distinct (map cp_ID cs) \<and> set (map cp_ID cs) \<inter> set (ids @ [cp_ID c]) = {} \<and> ids' = (ids @ [cp_ID c]) @ map cp_ID cs"
      by (simp only: register_chunks.simps if_False Cons.IH)
    then show ?thesis using False by auto
  qed simp
qed auto

lemma register_chunks_fails: "(\<exists>err. register_chunks cs ids = Inl err) \<longleftrightarrow> \<not> (distinct (map cp_ID cs) \<and> set (map cp_ID cs) \<inter> set ids = {})"
  using register_chunks_eq [of cs ids] by (cases "register_chunks cs ids") auto

lemma count_deps_graph:
  assumes "graph_of g es" "set deps \<subseteq> set ids"
  shows "\<exists>g'. count_deps ids c deps g = Inr g' \<and> graph_of g' (es @ map (\<lambda>d. (d, c)) deps)"
  using assms
proof (induction deps arbitrary: g es)
  case (Cons dep deps)
  obtain f E where g: "g = (f, E)" by (cases g)
  let ?g = "(f(c := f c + 1), AList.update dep (mget_or [] (map_of E) dep @ [c]) E)"
  have "graph_of ?g (es @ [(dep, c)])"
    using Cons.prems(1) g
    by (auto simp: graph_of_def into_def out_of_def dependents_of_def mget_or_def update_conv')
  then obtain g' where "count_deps ids c deps ?g = Inr g'" "graph_of g' ((es @ [(dep, c)]) @ map (\<lambda>d. (d, c)) deps)"
    using Cons.IH Cons.prems(2) by fastforce
  then show ?case using Cons.prems(2) g by auto
qed auto

lemma count_deps_fails: "\<not> set deps \<subseteq> set ids \<Longrightarrow> \<exists>err. count_deps ids c deps g = Inl err"
proof (induction deps arbitrary: g)
  case (Cons dep deps)
  obtain f E where g: "g = (f, E)" by (cases g)
  show ?case
  proof (cases "dep \<in> set ids")
    case True
    then have "\<not> set deps \<subseteq> set ids" using Cons.prems by simp
    from Cons.IH [OF this] show ?thesis using True g by simp
  qed (simp add: g)
qed simp

lemma count_edges_graph:
  assumes "graph_of g es" "\<forall>c \<in> set cs. set (cp_DependsOn c) \<subseteq> set ids"
  shows "\<exists>g'. count_edges ids cs g = Inr g' \<and> graph_of g' (es @ plan_edges cs)"
  using assms
proof (induction cs arbitrary: g es)
  case (Cons c cs)
  let ?es = "es @ map (\<lambda>d. (d, cp_ID c)) (cp_DependsOn c)"
  have dep: "set (cp_DependsOn c) \<subseteq> set ids" "\<forall>c \<in> set cs. set (cp_DependsOn c) \<subseteq> set ids"
    using Cons.prems(2) by simp_all
  obtain g1 where g1: "count_deps ids (cp_ID c) (cp_DependsOn c) g = Inr g1" "graph_of g1 ?es"
    using count_deps_graph [OF Cons.prems(1) dep(1), of "cp_ID c"] by blast
  obtain g2 where "count_edges ids cs g1 = Inr g2" "graph_of g2 (?es @ plan_edges cs)"
    using Cons.IH [OF g1(2) dep(2)] by blast
  then show ?case using g1(1) by (simp add: plan_edges_def)
qed (simp add: plan_edges_def)

lemma count_edges_fails:
  "\<not> (\<forall>c \<in> set cs. set (cp_DependsOn c) \<subseteq> set ids) \<Longrightarrow> \<exists>err. count_edges ids cs g = Inl err"
proof (induction cs arbitrary: g)
  case (Cons c cs)
  show ?case
  proof (cases "set (cp_DependsOn c) \<subseteq> set ids")
    case True
    then have "\<not> (\<forall>c \<in> set cs. set (cp_DependsOn c) \<subseteq> set ids)" using Cons.prems by simp
    then show ?thesis using Cons.IH by (auto split: sum.splits)
  next
    case False
    then show ?thesis using count_deps_fails [OF False] by (metis count_edges.simps(2) sum.case(1))
  qed
qed simp

section \<open>Emitting the chunks\<close>

lemma release_spec:
  assumes "release ds f ready = (f', ready')" "\<And>y. int (count_list ds y) \<le> f y" "distinct ready"
    "\<And>y. y \<in> set ready \<Longrightarrow> f y = 0"
  shows "(\<forall>y. f' y = f y - int (count_list ds y)) \<and> distinct ready' \<and>
    set ready' = set ready \<union> {y \<in> set ds. f' y = 0}"
  using assms
proof (induction ds arbitrary: f ready)
  case (Cons d ds)
  let ?n = "f d - 1"
  let ?f = "f(d := ?n)" and ?ready = "if ?n = 0 then sort (ready @ [d]) else ready"
  have fd: "1 \<le> f d" using Cons.prems(2) [of d] by simp
  then have nr: "d \<notin> set ready" using Cons.prems(4) by force
  have "release ds ?f ?ready = (f', ready')" using Cons.prems(1) by (simp only: release.simps Let_def)
  moreover have "int (count_list ds y) \<le> ?f y" for y using Cons.prems(2) [of y] by (auto split: if_splits)
  moreover have "distinct ?ready" using Cons.prems(3) nr by simp
  moreover have "?f y = 0" if "y \<in> set ?ready" for y using that Cons.prems(4) nr by (auto split: if_splits)
  ultimately have ih: "\<forall>y. f' y = ?f y - int (count_list ds y)" "distinct ready'"
    "set ready' = set ?ready \<union> {y \<in> set ds. f' y = 0}"
    using Cons.IH by blast+
  have "f' d = 0 \<and> d \<notin> set ds" if "?n = 0"
    using Cons.prems(2) [of d] that ih(1) by (auto simp: count_list_0_iff)
  moreover have "f' d = 0 \<longrightarrow> d \<in> set ds" if "?n \<noteq> 0"
  proof (rule impI, rule ccontr)
    assume "f' d = 0" "d \<notin> set ds"
    then show False using that ih(1) [rule_format, of d] count_notin [of d ds] by simp
  qed
  ultimately have "set ready' = set ready \<union> {y \<in> set (d # ds). f' y = 0}"
    using ih(3) by auto
  then show ?case using ih(1,2) by simp
qed simp

lemma count_out_of: "count_list (out_of es x) y = length (filter (\<lambda>e. snd e = y \<and> fst e = x) es)"
  by (induction es) (auto simp: out_of_def)

lemma into_insert:
  "x \<notin> S \<Longrightarrow> into es S y = into es (insert x S) y + count_list (out_of es x) y"
  unfolding count_out_of into_def by (induction es) auto

text \<open>What holds between two emissions: \<open>ord\<close> is out, \<open>ready\<close> the sorted queue.\<close>

definition emitting :: "(string \<times> string) list \<Rightarrow> string set \<Rightarrow> (string \<Rightarrow> int) \<Rightarrow> string list \<Rightarrow> string list \<Rightarrow> bool" where
  "emitting es V f ready ord \<longleftrightarrow>
     (\<forall>x. f x = int (into es (set ord) x)) \<and> distinct (ord @ ready) \<and>
     set ready = {x \<in> V. f x = 0} - set ord \<and> set ord \<subseteq> V \<and>
     (\<forall>xs y ys d. ord = xs @ y # ys \<longrightarrow> (d, y) \<in> set es \<longrightarrow> d \<in> set xs)"

lemma into_0: "into es S x = 0 \<longleftrightarrow> (\<forall>d. (d, x) \<in> set es \<longrightarrow> d \<in> S)"
  by (auto simp: into_def filter_empty_conv)

lemma emitting_step:
  assumes inv: "emitting es V f (x # ready) ord" and r: "release (out_of es x) f ready = (f', ready')"
    and V: "snd ` set es \<subseteq> V"
  shows "emitting es V f' ready' (ord @ [x])"
proof -
  have f: "f y = int (into es (set ord) y)" for y using inv by (simp add: emitting_def)
  have dist: "distinct (ord @ x # ready)" and rd: "set (x # ready) = {y \<in> V. f y = 0} - set ord" and sub: "set ord \<subseteq> V"
    and before: "\<And>xs y ys d. ord = xs @ y # ys \<Longrightarrow> (d, y) \<in> set es \<Longrightarrow> d \<in> set xs"
    using inv unfolding emitting_def by blast+
  have x: "x \<notin> set ord" "x \<in> V" "into es (set ord) x = 0" using dist rd f [of x] by auto
  have ini: "into es (set ord) y = into es (set (ord @ [x])) y + count_list (out_of es x) y" for y
    using into_insert [OF x(1)] by simp
  have "f y = 0" if "y \<in> set ready" for y using rd that by auto
  then have rs: "f' y = f y - int (count_list (out_of es x) y)" "distinct ready'"
    "set ready' = set ready \<union> {y \<in> set (out_of es x). f' y = 0}" for y
    using release_spec [OF r] f ini dist by auto
  have f': "f' y = int (into es (set (ord @ [x])) y)" for y using rs(1) [of y] f [of y] ini [of y] by simp
  have closed: "d \<in> set ord" if "(d, y) \<in> set es" "y \<in> set ord" for d y
    using split_list [OF that(2)] before [OF _ that(1)] by auto
  have new: "y \<in> V" "y \<notin> set ord" "y \<noteq> x" if "y \<in> set (out_of es x)" for y
  proof -
    have e: "(x, y) \<in> set es" using that by (auto simp: out_of_def)
    then show "y \<in> V" using V by force
    show "y \<notin> set ord" using closed [OF e] x(1) by blast
    show "y \<noteq> x" using e x(1,3) by (auto simp: into_0)
  qed
  have "y \<in> set ready' \<longleftrightarrow> y \<in> V \<and> f' y = 0 \<and> y \<notin> set (ord @ [x])" for y
  proof
    assume "y \<in> set ready'"
    then consider "y \<in> set ready" | "y \<in> set (out_of es x)" "f' y = 0" using rs(3) by blast
    then show "y \<in> V \<and> f' y = 0 \<and> y \<notin> set (ord @ [x])"
    proof cases
      case 1
      then have "y \<in> V" "f y = 0" "y \<notin> set ord" "y \<noteq> x" using rd dist by auto
      then show ?thesis using f' [of y] f [of y] ini [of y] by simp
    qed (use new in auto)
  next
    assume a: "y \<in> V \<and> f' y = 0 \<and> y \<notin> set (ord @ [x])"
    show "y \<in> set ready'"
    proof (cases "y \<in> set (out_of es x)")
      case False
      then have "f y = 0" using a rs(1) [of y] count_notin [OF False] by simp
      then have "y \<in> set (x # ready)" using a rd by auto
      then show ?thesis using a rs(3) by auto
    qed (use a rs(3) in auto)
  qed
  then have rd': "set ready' = {y \<in> V. f' y = 0} - set (ord @ [x])" by auto
  have "distinct ((ord @ [x]) @ ready')"
    using rs(2) dist rd' by auto
  moreover have "d \<in> set xs" if "ord @ [x] = xs @ y # ys" "(d, y) \<in> set es" for xs y ys d
  proof (cases ys rule: rev_cases)
    case Nil
    then show ?thesis using that x(3) by (auto simp: into_0)
  next
    case (snoc zs z)
    then have "ord = xs @ y # zs" using that(1) by simp
    then show ?thesis using before that(2) by blast
  qed
  ultimately show ?thesis using f' sub x(2) rd' unfolding emitting_def by auto
qed

lemma kahn_emits:
  assumes "emitting es V f ready ord" "\<And>d. dependents_of E d = out_of es d" "snd ` set es \<subseteq> V"
  shows "\<exists>f'. emitting es V f' [] (kahn E f ready ord)"
  using assms
proof (induction E f ready ord rule: kahn.induct)
  case (2 E f x ready ord)
  obtain f1 ready1 where r: "release (out_of es x) f ready = (f1, ready1)" by (cases "release (out_of es x) f ready")
  have "emitting es V f1 ready1 (ord @ [x])" by (rule emitting_step [OF 2(2) r 2(4)])
  then show ?case using 2(1) [of f1 ready1] r 2(3,4) by simp
qed auto

section \<open>The order is exact\<close>

text \<open>Every chunk once, each after the chunks it depends on.\<close>

definition deps_first :: "ChunkPlan list \<Rightarrow> string list \<Rightarrow> bool" where
  "deps_first cs ord \<longleftrightarrow> distinct ord \<and> set ord = cp_ID ` set cs \<and>
     (\<forall>xs y ys d. ord = xs @ y # ys \<longrightarrow> (d, y) \<in> set (plan_edges cs) \<longrightarrow> d \<in> set xs)"

definition orderable :: "ChunkPlan list \<Rightarrow> bool" where
  "orderable cs \<longleftrightarrow> distinct (map cp_ID cs) \<and> (\<forall>c \<in> set cs. set (cp_DependsOn c) \<subseteq> cp_ID ` set cs) \<and>
     acyclic (set (plan_edges cs))"

lemma plan_edges_range: "snd ` set (plan_edges cs) \<subseteq> cp_ID ` set cs"
  by (auto simp: plan_edges_def)

lemma plan_edges_domain:
  "\<forall>c \<in> set cs. set (cp_DependsOn c) \<subseteq> cp_ID ` set cs \<Longrightarrow> fst ` set (plan_edges cs) \<subseteq> cp_ID ` set cs"
  by (auto simp: plan_edges_def) blast

lemma takeWhile_first: "y \<notin> set xs \<Longrightarrow> takeWhile (\<lambda>z. z \<noteq> y) (xs @ y # ys) = xs"
  by (subst takeWhile_append2) auto

lemma deps_first_acyclic:
  assumes "deps_first cs ord"
  shows "acyclic (set (plan_edges cs))"
proof -
  let ?pos = "\<lambda>y. length (takeWhile (\<lambda>z. z \<noteq> y) ord)"
  have "?pos d < ?pos y" if e: "(d, y) \<in> set (plan_edges cs)" for d y
  proof -
    have "y \<in> set ord" using e plan_edges_range [of cs] assms by (auto simp: deps_first_def)
    then obtain xs ys where ord: "ord = xs @ y # ys" "y \<notin> set xs" by (metis split_list_first)
    then have d: "d \<in> set xs" using assms e by (auto simp: deps_first_def)
    then obtain us vs where xs: "xs = us @ d # vs" "d \<notin> set us" by (metis split_list_first)
    have "takeWhile (\<lambda>z. z \<noteq> y) ord = xs" unfolding ord(1) by (rule takeWhile_first [OF ord(2)])
    moreover have "ord = us @ d # (vs @ y # ys)" using ord(1) xs(1) by simp
    then have "takeWhile (\<lambda>z. z \<noteq> d) ord = us" using takeWhile_first [OF xs(2)] by simp
    ultimately show ?thesis using xs(1) by simp
  qed
  then have "set (plan_edges cs) \<subseteq> measure ?pos" by auto
  then have "wf (set (plan_edges cs))" using wf_subset wf_measure by blast
  then show ?thesis by (rule wf_acyclic)
qed

lemma emitted_all:
  assumes inv: "emitting es V f [] ord" and ac: "acyclic (set es)" and V: "finite V" "fst ` set es \<subseteq> V"
  shows "set ord = V"
proof (rule ccontr)
  assume "set ord \<noteq> V"
  then obtain z where z: "z \<in> V - set ord" using inv by (auto simp: emitting_def)
  have "wf (set es)" using ac by (intro finite_acyclic_wf) simp_all
  then obtain y where y: "y \<in> V - set ord" "\<And>d. (d, y) \<in> set es \<Longrightarrow> d \<notin> V - set ord"
    using wfE_min [OF _ z] by metis
  have f: "\<forall>x. f x = int (into es (set ord) x)" and none: "set [] = {x \<in> V. f x = 0} - set ord"
    using inv unfolding emitting_def by blast+
  have "into es (set ord) y = 0" unfolding into_0
    using y(2) V(2) by force
  then have "f y = 0" using f by simp
  then show False using y(1) none by auto
qed

lemma TopologicalOrder_run:
  assumes dist: "distinct (map cp_ID cs)" and known: "\<forall>c \<in> set cs. set (cp_DependsOn c) \<subseteq> cp_ID ` set cs"
  obtains ord f where "emitting (plan_edges cs) (cp_ID ` set cs) f [] ord"
    "TopologicalOrder cs = (if length ord \<noteq> length cs then Inl StkCycle else Inr ord)"
proof -
  let ?V = "cp_ID ` set cs" and ?es = "plan_edges cs"
  have reg: "register_chunks cs [] = Inr (map cp_ID cs)" using dist by (simp add: register_chunks_eq)
  have g0: "graph_of (\<lambda>_. 0, []) []" by (simp add: graph_of_def into_def out_of_def dependents_of_def mget_or_def)
  obtain f E where ce: "count_edges (map cp_ID cs) cs (\<lambda>_. 0, []) = Inr (f, E)" "graph_of (f, E) ?es"
    using count_edges_graph [OF g0, of cs "map cp_ID cs"] known by (metis append_Nil list.set_map surj_pair)
  let ?ready = "sort (map cp_ID (filter (\<lambda>c. f (cp_ID c) = 0) cs))"
  have "emitting ?es ?V f ?ready []"
    using ce(2) dist by (auto simp: emitting_def graph_of_def distinct_map inj_on_def)
  moreover have "dependents_of E d = out_of ?es d" for d using ce(2) by (simp add: graph_of_def)
  ultimately obtain f' where "emitting ?es ?V f' [] (kahn E f ?ready [])"
    using kahn_emits [OF _ _ plan_edges_range] by blast
  then show thesis
    by (rule that) (simp add: TopologicalOrder_def reg ce(1) Let_def)
qed

lemma TopologicalOrder_sound:
  assumes "TopologicalOrder cs = Inr ord"
  shows "orderable cs" "deps_first cs ord"
proof -
  obtain ids where reg: "register_chunks cs [] = Inr ids"
    using assms by (auto simp: TopologicalOrder_def split: sum.splits)
  then have ids: "distinct (map cp_ID cs)" "ids = map cp_ID cs" by (simp_all add: register_chunks_eq)
  have known: "\<forall>c \<in> set cs. set (cp_DependsOn c) \<subseteq> cp_ID ` set cs"
  proof (rule ccontr)
    assume "\<not> ?thesis"
    then have "\<not> (\<forall>c \<in> set cs. set (cp_DependsOn c) \<subseteq> set ids)" by (simp add: ids(2))
    then obtain err where "count_edges ids cs (\<lambda>_. 0, []) = Inl err"
      using count_edges_fails [of cs ids "(\<lambda>_. 0, [])"] by blast
    then show False using assms reg by (simp add: TopologicalOrder_def)
  qed
  obtain ord' f where r: "emitting (plan_edges cs) (cp_ID ` set cs) f [] ord'"
    "TopologicalOrder cs = (if length ord' \<noteq> length cs then Inl StkCycle else Inr ord')"
    using TopologicalOrder_run [OF ids(1) known] by blast
  then have eq: "ord' = ord" "length ord = length cs" using assms by (auto split: if_splits)
  have d: "distinct ord" "set ord \<subseteq> cp_ID ` set cs"
    "\<And>xs y ys d. ord = xs @ y # ys \<Longrightarrow> (d, y) \<in> set (plan_edges cs) \<Longrightarrow> d \<in> set xs"
    using r(1) eq unfolding emitting_def by auto
  have "card (cp_ID ` set cs) = length cs" using distinct_card [OF ids(1)] by simp
  then have "set ord = cp_ID ` set cs"
    using d(1,2) eq(2) by (intro card_subset_eq) (simp_all add: distinct_card)
  then show df: "deps_first cs ord" using d by (auto simp: deps_first_def)
  show "orderable cs" using ids(1) known deps_first_acyclic [OF df] by (simp add: orderable_def)
qed

lemma TopologicalOrder_complete:
  assumes "orderable cs"
  shows "\<exists>ord. TopologicalOrder cs = Inr ord"
proof -
  have o: "distinct (map cp_ID cs)" "\<forall>c \<in> set cs. set (cp_DependsOn c) \<subseteq> cp_ID ` set cs" "acyclic (set (plan_edges cs))"
    using assms by (simp_all add: orderable_def)
  obtain ord f where r: "emitting (plan_edges cs) (cp_ID ` set cs) f [] ord"
    "TopologicalOrder cs = (if length ord \<noteq> length cs then Inl StkCycle else Inr ord)"
    using TopologicalOrder_run [OF o(1,2)] by blast
  have "set ord = cp_ID ` set cs" using emitted_all [OF r(1) o(3) _ plan_edges_domain [OF o(2)]] by simp
  moreover have "distinct ord" using r(1) by (simp add: emitting_def)
  ultimately have "length ord = length cs"
    using distinct_card [of ord] distinct_card [OF o(1)] by simp
  then show ?thesis using r(2) by simp
qed

section \<open>Admission keys\<close>

lemma chunk_id_no_colon: "chunkIDRE s \<Longrightarrow> CHR '':'' \<notin> set s"
  by (auto simp: chunkIDRE_def chunk_id_char_def list_all_iff)

lemma AdmissionKey_inj:
  assumes "AdmissionKey s c = Inr k" "AdmissionKey s' c' = Inr k"
  shows "s = s' \<and> c = c'"
proof -
  have no: "CHR '':'' \<notin> set c" "CHR '':'' \<notin> set c'"
    using assms chunk_id_no_colon by (auto simp: AdmissionKey_def split: if_splits)
  have eq: "rev c @ CHR '':'' # rev s = rev c' @ CHR '':'' # rev s'"
    using assms by (auto simp: AdmissionKey_def split: if_splits) (metis append.assoc append_Cons append_Nil rev.simps(2) rev_append)
  have t: "takeWhile (\<lambda>z. z \<noteq> CHR '':'') (rev x @ CHR '':'' # rev y) = rev x" if "CHR '':'' \<notin> set x" for x y :: string
    using that by (subst takeWhile_append2) auto
  have "rev c = rev c'" using t [OF no(1), of s] t [OF no(2), of s'] eq by simp
  then show ?thesis using eq by simp
qed

end
