(* ===== verification/Stk_Laws.thy ===== *)
theory Stk_Laws
  imports Stk_Driver Stk_Order
begin

text \<open>
  What the stack driver needs of the task ledger, as a contract, and what it then keeps: the
  moves of the chunks of its stack.  \<open>task w i\<close> is the chunk \<open>i\<close> as the ledger records it.
\<close>

section \<open>The moves of a stack\<close>

text \<open>
  The steps of the chunks of one stack.  A chunk in flight follows the outcome of its run, a
  running chunk is reopened or failed, a chunk is admitted after all its dependencies merged.
\<close>

type_synonym chunk_tasks = "string \<Rightarrow> Task option"

definition merged_in :: "chunk_tasks \<Rightarrow> string \<Rightarrow> bool" where
  "merged_in T i \<longleftrightarrow> (case T i of None \<Rightarrow> False | Some t \<Rightarrow> tk_Status t = StatusMerged)"

inductive chunk_move :: "chunk_tasks \<Rightarrow> chunk_tasks \<Rightarrow> bool" where
  settled: "T i = Some t \<Longrightarrow> isStackInFlightStatus (tk_Status t) \<Longrightarrow>
    s \<in> {StatusMerged, StatusPublished, StatusImplemented, StatusReviewed} \<Longrightarrow> chunk_move T (T(i \<mapsto> t\<lparr>tk_Status := s\<rparr>))"
| retried: "T i = Some t \<Longrightarrow> tk_Status t = StatusRunning \<Longrightarrow> s \<in> {StatusReopened, StatusFailed} \<Longrightarrow>
    chunk_move T (T(i \<mapsto> t\<lparr>tk_Status := s\<rparr>))"
| admitted: "T i = Some t \<Longrightarrow> StatusIsAdmissiblePre (tk_Status t) \<Longrightarrow> \<forall>d \<in> set (tk_Deps t). merged_in T d \<Longrightarrow>
    chunk_move T (T(i \<mapsto> t\<lparr>tk_Status := StatusRunning\<rparr>))"

inductive_cases chunk_moveE: "chunk_move T T'"

lemma status_distinct:
  "\<not> isStackInFlightStatus StatusMerged" "\<not> StatusIsAdmissiblePre StatusMerged" "StatusMerged \<noteq> StatusRunning"
  "StatusIsTerminal s \<Longrightarrow> \<not> isStackInFlightStatus s" "StatusIsTerminal s \<Longrightarrow> \<not> StatusIsAdmissiblePre s"
  "StatusIsTerminal s \<Longrightarrow> s \<noteq> StatusRunning" "StatusIsTerminal StatusMerged"
  "StatusReopened \<noteq> StatusMerged" "StatusFailed \<noteq> StatusMerged" "StatusIsAdmissiblePre StatusReopened"
  "\<not> StatusIsAdmissiblePre StatusRunning" "isStackInFlightStatus StatusRunning"
  by (auto simp: stack_status_defs isStackInFlightStatus_def StatusIsAdmissiblePre_def AdmissiblePreStatuses_def
    StatusIsTerminal_def TerminalStatuses_def)

text \<open>A chunk in a terminal status is never moved.\<close>

lemma chunk_move_terminal:
  assumes "chunk_move T T'" "T i = Some t" "StatusIsTerminal (tk_Status t)"
  shows "T' i = Some t"
  using assms status_distinct(4-6) by (auto elim!: chunk_moveE)

lemma chunk_moves_terminal: "chunk_move\<^sup>*\<^sup>* T T' \<Longrightarrow> T i = Some t \<Longrightarrow> StatusIsTerminal (tk_Status t) \<Longrightarrow> T' i = Some t"
  by (induction rule: rtranclp_induct) (use chunk_move_terminal in blast)+

lemma chunk_moves_merged: "chunk_move\<^sup>*\<^sup>* T T' \<Longrightarrow> merged_in T i \<Longrightarrow> merged_in T' i"
  using chunk_moves_terminal [of T T' i] status_distinct(7) by (cases "T i") (auto simp: merged_in_def)

text \<open>A move keeps everything of a chunk but its status.\<close>

definition same_chunk :: "Task option \<Rightarrow> Task option \<Rightarrow> bool" where
  "same_chunk a b \<longleftrightarrow> map_option (\<lambda>t. t\<lparr>tk_Status := []\<rparr>) a = map_option (\<lambda>t. t\<lparr>tk_Status := []\<rparr>) b"

lemma chunk_move_same: "chunk_move T T' \<Longrightarrow> same_chunk (T i) (T' i)"
  by (auto elim!: chunk_moveE simp: same_chunk_def)

lemma chunk_moves_same: "chunk_move\<^sup>*\<^sup>* T T' \<Longrightarrow> same_chunk (T i) (T' i)"
proof (induction rule: rtranclp_induct)
  case (step T1 T2)
  then show ?case using chunk_move_same [OF step(2), of i] by (simp add: same_chunk_def)
qed (simp add: same_chunk_def)

lemma same_chunkD: "same_chunk (Some t) b \<Longrightarrow> \<exists>u. b = Some u \<and> tk_Deps u = tk_Deps t"
  by (cases b) (auto simp: same_chunk_def dest: arg_cong [of _ _ tk_Deps])

text \<open>
  The order of a stack: only a planned or blocked chunk has dependencies that are not merged.
\<close>

definition stack_ordered :: "chunk_tasks \<Rightarrow> bool" where
  "stack_ordered T \<longleftrightarrow>
     (\<forall>i t. T i = Some t \<longrightarrow> tk_Status t \<in> {StatusPlanned, StatusBlocked} \<or> (\<forall>d \<in> set (tk_Deps t). merged_in T d))"

lemma in_flight_ordered:
  assumes "stack_ordered T" "T i = Some t" "isStackInFlightStatus (tk_Status t)" "d \<in> set (tk_Deps t)"
  shows "merged_in T d"
proof -
  have "tk_Status t \<notin> {StatusPlanned, StatusBlocked}"
    using assms(3) by (auto simp: stack_status_defs isStackInFlightStatus_def)
  then show ?thesis using assms(1,2,4) unfolding stack_ordered_def by blast
qed

lemma chunk_move_ordered:
  assumes "chunk_move T T'" "stack_ordered T"
  shows "stack_ordered T'"
proof -
  have kept: "merged_in T d \<Longrightarrow> merged_in T' d" for d using chunk_moves_merged [of T T' d] assms(1) by auto
  obtain i t s where T': "T i = Some t" "T' = T(i \<mapsto> t\<lparr>tk_Status := s\<rparr>)" "\<forall>d \<in> set (tk_Deps t). merged_in T d"
    using assms(1)
  proof cases
    case (settled i t s)
    then show thesis using in_flight_ordered [OF assms(2)] that by blast
  next
    case (retried i t s)
    then show thesis using in_flight_ordered [OF assms(2)] that status_distinct(12) by metis
  qed (use that in blast)
  then have "\<forall>d \<in> set (tk_Deps u). merged_in T' d"
    if "T' j = Some u" "tk_Status u \<notin> {StatusPlanned, StatusBlocked}" for j u
  proof -
    have "\<forall>d \<in> set (tk_Deps u). merged_in T d"
    proof (cases "j = i")
      case True
      then show ?thesis using that(1) T'(2,3) by auto
    next
      case False
      then have "T j = Some u" using that(1) T'(2) by simp
      then show ?thesis using that(2) assms(2) unfolding stack_ordered_def by blast
    qed
    then show ?thesis using kept by blast
  qed
  then show ?thesis unfolding stack_ordered_def by blast
qed

lemma chunk_moves_ordered: "chunk_move\<^sup>*\<^sup>* T T' \<Longrightarrow> stack_ordered T \<Longrightarrow> stack_ordered T'"
  by (induction rule: rtranclp_induct) (use chunk_move_ordered in blast)+

section \<open>The contract of the task ledger\<close>

text \<open>An operation that leaves the chunks alone.\<close>

definition keeps :: "('w \<Rightarrow> bool) \<Rightarrow> ('w \<Rightarrow> 't) \<Rightarrow> ('w \<Rightarrow> 'w \<times> 'a) \<Rightarrow> bool" where
  "keeps good task f \<longleftrightarrow> (\<forall>w. good w \<longrightarrow> good (fst (f w)) \<and> task (fst (f w)) = task w)"

text \<open>The chunk \<open>i\<close> gets the status \<open>s\<close> from a status of \<open>froms\<close>.\<close>

definition moved_to :: "chunk_tasks \<Rightarrow> chunk_tasks \<Rightarrow> string \<Rightarrow> string set \<Rightarrow> string \<Rightarrow> bool" where
  "moved_to T T' i froms s \<longleftrightarrow> (\<exists>t. T i = Some t \<and> tk_Status t \<in> froms \<and> T' = T(i \<mapsto> t\<lparr>tk_Status := s\<rparr>))"

locale stack_board =
  fixes env :: "'w stack_env" and stack :: string and good :: "'w \<Rightarrow> bool" and task :: "'w \<Rightarrow> chunk_tasks"
  assumes ListTasks: "good w \<Longrightarrow> sx_ListTasks env (stackScope stack) w = (w', r) \<Longrightarrow>
      good w' \<and> task w' = task w \<and> (\<forall>ts t. r = Inr ts \<longrightarrow> t \<in> set ts \<longrightarrow> task w (tk_ID t) = Some t)"
    and Transition: "good w \<Longrightarrow> sx_Transition env stack i s w = (w', r1) \<Longrightarrow>
      good w' \<and> (if r1 = Inr () then moved_to (task w) (task w') i UNIV s else task w' = task w)"
    and TransitionCAS: "good w \<Longrightarrow> sx_TransitionCAS env stack i (Some froms) s w = (w', r2) \<Longrightarrow>
      good w' \<and> (if r2 = Inr True then moved_to (task w) (task w') i (set froms) s else task w' = task w)"
    and CASDecide: "good w \<Longrightarrow> sx_CASDecide env stack i (Some froms) reopen (\<lambda>n. Some (verdict n)) w = (w', d) \<Longrightarrow>
      good w' \<and> (if \<exists>want n. d = Inr (True, want, n) then \<exists>n. moved_to (task w) (task w') i (set froms) (verdict n)
        else task w' = task w)"
    and ListRuns: "keeps good task (sx_ListRuns env)"
    and ListDeliveries: "keeps good task (sx_ListDeliveries env i)"
    and Start: "keeps good task (sx_Start env req)"
    and Deliver: "keeps good task (sx_Deliver env i)"
    and deliverPendingDirect: "keeps good task (sx_deliverPendingDirect env run)"
    and probe: "keeps good task (sx_probe env run)"
    and wait: "keeps good task (sx_wait env d')"
    and GetRun: "keeps good task (rp_GetRun (sx_repo env) i)"
    and CompareAndSetRunStatus: "keeps good task (rp_CompareAndSetRunStatus (sx_repo env) i v s)"
    and order: "distinct ks \<Longrightarrow> distinct (sx_order env w ks)"
begin

text \<open>Nothing happened to the chunks.\<close>

definition same :: "'w \<Rightarrow> 'w \<Rightarrow> bool" where
  "same w w' \<longleftrightarrow> (good w \<longrightarrow> good w' \<and> task w' = task w)"

lemma same_refl [simp]: "same w w"
  by (simp add: same_def)

lemma same_trans [trans]: "same w w' \<Longrightarrow> same w' w'' \<Longrightarrow> same w w''"
  by (simp add: same_def)

lemma keepsD: "keeps good task f \<Longrightarrow> f w = (w', x) \<Longrightarrow> same w w'"
  by (auto simp: keeps_def same_def)

lemmas quiet = keepsD [OF ListRuns] keepsD [OF ListDeliveries] keepsD [OF Start] keepsD [OF Deliver]
  keepsD [OF deliverPendingDirect] keepsD [OF probe] keepsD [OF wait] keepsD [OF GetRun] keepsD [OF CompareAndSetRunStatus]

lemma stackRunByKey_same: "stackRunByKey env stack i w = (w', x) \<Longrightarrow> same w w'"
  by (auto simp: stackRunByKey_def split: sum.splits prod.splits dest: quiet)

lemma ChunkRunNoDiff_same: "ChunkRunNoDiff env run w = (w', x) \<Longrightarrow> same w w'"
  by (auto simp: ChunkRunNoDiff_def split: sum.splits prod.splits if_splits dest: quiet)

lemma RunPushed_same: "RunPushed env run w = (w', x) \<Longrightarrow> same w w'"
  by (auto simp: RunPushed_def split: sum.splits prod.splits dest: quiet)

lemma prMerged_same: "prMerged env run w = (w', x) \<Longrightarrow> same w w'"
  by (auto simp: prMerged_def split: if_splits dest: quiet)

lemmas quiet_calls = quiet stackRunByKey_same ChunkRunNoDiff_same RunPushed_same prMerged_same

text \<open>The task map as read holds chunks of the stack as they are.\<close>

definition reads :: "'w \<Rightarrow> (string, Task) gomap \<Rightarrow> bool" where
  "reads w byID \<longleftrightarrow> distinct (map fst byID) \<and> (\<forall>i t. map_of byID i = Some t \<longrightarrow> task w i = Some t)"

lemma task_map_from: "distinct (map fst (task_map ts)) \<and> (map_of (task_map ts) i = Some t \<longrightarrow> t \<in> set ts \<and> tk_ID t = i)"
proof -
  have "distinct (map fst (fold (\<lambda>t m. AList.update (tk_ID t) t m) ts m)) \<and>
      (map_of (fold (\<lambda>t m. AList.update (tk_ID t) t m) ts m) i = Some t \<longrightarrow> (t \<in> set ts \<and> tk_ID t = i) \<or> map_of m i = Some t)"
    if "distinct (map fst m)" for m
    using that
  proof (induction ts arbitrary: m)
    case (Cons x ts)
    from Cons.IH [of "AList.update (tk_ID x) x m"] show ?case
      using distinct_update [OF Cons.prems, of "tk_ID x" x] by (auto simp: update_conv' split: if_splits)
  qed simp
  from this [of "[]"] show ?thesis by (simp add: task_map_def)
qed

lemma TaskMap_reads:
  assumes "TaskMap env stack w = (w', r)"
  shows "same w w'" "good w \<Longrightarrow> r = Inr byID \<Longrightarrow> reads w' byID"
proof -
  obtain r0 where l: "sx_ListTasks env (stackScope stack) w = (w', r0)" and r: "r = map_sum id task_map r0"
    using assms by (auto simp: TaskMap_def split: prod.splits sum.splits)
  show "same w w'" using ListTasks [OF _ l] by (simp add: same_def)
  show "reads w' byID" if g: "good w" "r = Inr byID"
  proof -
    obtain ts where ts: "r0 = Inr ts" "byID = task_map ts" using g(2) r by (cases r0) auto
    then have "task w' (tk_ID t) = Some t" if "t \<in> set ts" for t using ListTasks [OF g(1) l] that by auto
    then show ?thesis unfolding reads_def ts(2) using task_map_from [of ts] by metis
  qed
qed

section \<open>What a pass does to the chunks\<close>

text \<open>
  From \<open>w\<close> to \<open>w'\<close> only the chunk \<open>i\<close> is moved, and when nothing is reported to have changed
  no chunk is.
\<close>

definition settles :: "string \<Rightarrow> 'w \<Rightarrow> 'w \<times> bool \<Rightarrow> bool" where
  "settles i w = (\<lambda>(w', p). good w \<longrightarrow> good w' \<and> chunk_move\<^sup>*\<^sup>* (task w) (task w') \<and>
     (\<forall>j. j \<noteq> i \<longrightarrow> task w' j = task w j) \<and> (\<not> p \<longrightarrow> task w' = task w))"

lemma settles_same: "same w w' \<Longrightarrow> settles i w (w', p)"
  by (simp add: settles_def same_def)

lemma settles_after: "same w w1 \<Longrightarrow> settles i w1 x \<Longrightarrow> settles i w x"
  by (auto simp: settles_def same_def)

lemma transition_settles:
  assumes "task w i = Some t" "isStackInFlightStatus (tk_Status t)"
    "s \<in> {StatusMerged, StatusPublished, StatusImplemented, StatusReviewed}"
  shows "settles i w (transitionStackTask env stack i s w)"
proof -
  obtain w' r where t: "sx_Transition env stack i s w = (w', r)" by fastforce
  have "good w' \<and> chunk_move\<^sup>*\<^sup>* (task w) (task w') \<and> (\<forall>j. j \<noteq> i \<longrightarrow> task w' j = task w j) \<and> (r \<noteq> Inr () \<longrightarrow> task w' = task w)"
    if g: "good w"
  proof (cases "r = Inr ()")
    case True
    then have "good w'" "task w' = (task w)(i \<mapsto> t\<lparr>tk_Status := s\<rparr>)" using Transition [OF g t] assms(1) by (auto simp: moved_to_def)
    then show ?thesis using True settled [of "task w", OF assms] by simp
  qed (use Transition [OF g t] in simp)
  then show ?thesis using t by (cases r) (auto simp: transitionStackTask_def settles_def)
qed

lemma reopenOrFail_settles: "settles i w (reopenOrFailStackTask env stack i w)"
proof -
  obtain w' d where c: "sx_CASDecide env stack i (Some [StatusRunning]) StatusReopened reopen_verdict w = (w', d)" by fastforce
  have rv: "reopen_verdict = (\<lambda>n. Some (if n + 1 > MaxChunkAttempts then StatusFailed else StatusReopened))"
    by (simp add: reopen_verdict_def fun_eq_iff)
  note law = CASDecide [OF _ c [unfolded rv]]
  show ?thesis
  proof (cases "\<exists>want n. d = Inr (True, want, n)")
    case True
    have "good w' \<and> chunk_move\<^sup>*\<^sup>* (task w) (task w') \<and> (\<forall>j. j \<noteq> i \<longrightarrow> task w' j = task w j)" if g: "good w"
    proof -
      obtain t s where "task w i = Some t" "tk_Status t = StatusRunning" "task w' = (task w)(i \<mapsto> t\<lparr>tk_Status := s\<rparr>)"
        "s \<in> {StatusReopened, StatusFailed}" "good w'"
        using law [OF g] True by (auto simp: moved_to_def split: if_splits)
      then show ?thesis using retried [of "task w" i t s] by simp
    qed
    then show ?thesis using True by (auto simp: reopenOrFailStackTask_def c settles_def)
  next
    case False
    then have "\<not> snd (reopenOrFailStackTask env stack i w)" by (auto simp: reopenOrFailStackTask_def c split: sum.splits)
    moreover have "fst (reopenOrFailStackTask env stack i w) = w'" by (auto simp: reopenOrFailStackTask_def c split: sum.splits)
    moreover have "good w' \<and> task w' = task w" if "good w"
      using law [OF that] False by auto
    ultimately show ?thesis by (cases "reopenOrFailStackTask env stack i w") (simp add: settles_def)
  qed
qed

lemma task_same: "same w w' \<Longrightarrow> good w \<Longrightarrow> task w i = Some t \<Longrightarrow> good w' \<and> task w' i = Some t"
  by (simp add: same_def)

lemma transition_settles':
  assumes "good w" "task w i = Some t" "isStackInFlightStatus (tk_Status t)" "same w w1"
    "s \<in> {StatusMerged, StatusPublished, StatusImplemented, StatusReviewed}"
  shows "settles i w (transitionStackTask env stack i s w1)"
  using task_same [OF assms(4,1,2)] transition_settles [of w1 i t s] assms(3,4,5) settles_after by blast

lemma settleChunkDelivery_settles:
  assumes t: "good w" "task w i = Some t" "isStackInFlightStatus (tk_Status t)" and w1: "same w w1"
  shows "settles i w (settleChunkDelivery env stack i run w1)"
proof -
  obtain w2 r where g: "rp_GetRun (sx_repo env) (wr_RunID run) w1 = (w2, r)" by fastforce
  have w2: "same w w2" using same_trans [OF w1] quiet(8) [OF g] by blast
  show ?thesis
  proof (cases r)
    case (Inl err)
    then show ?thesis using g w2 by (simp add: settleChunkDelivery_def settles_same)
  next
    case (Inr fresh)
    obtain w3 nd where n: "ChunkRunNoDiff env fresh w2 = (w3, nd)" by fastforce
    have "same w w3" using same_trans [OF w2 ChunkRunNoDiff_same [OF n]] .
    then have "settles i w (transitionStackTask env stack i (if nd then StatusMerged else StatusPublished) w3)"
      by (intro transition_settles' [OF t]) simp_all
    moreover have "settles i w (reopenOrFailStackTask env stack i w2)" by (rule settles_after [OF w2 reopenOrFail_settles])
    ultimately show ?thesis using g Inr n settles_same [OF w2] by (simp add: settleChunkDelivery_def)
  qed
qed

lemma settle_succeeded_settles:
  assumes t: "good w" "task w i = Some t" "isStackInFlightStatus (tk_Status t)" and w1: "same w w1"
  shows "settles i w (settle_succeeded env stack i t run w1)"
proof -
  obtain w2 nd where n: "ChunkRunNoDiff env run w1 = (w2, nd)" by fastforce
  obtain w3 pushed where p: "RunPushed env run w2 = (w3, pushed)" by fastforce
  have w2: "same w w2" using same_trans [OF w1 ChunkRunNoDiff_same [OF n]] .
  then have w3: "same w w3" using same_trans RunPushed_same [OF p] by blast
  note tr = transition_settles' [OF t w2] transition_settles' [OF t w3]
  show ?thesis
    unfolding settle_succeeded_def n prod.case
    by (cases nd; cases pushed) (auto simp: p intro!: tr settles_same w3)
qed

lemma settle_pending_settles:
  assumes t: "good w" "task w i = Some t" "isStackInFlightStatus (tk_Status t)" and w1: "same w w1"
  shows "settles i w (settle_pending env stack i t run auto w1)"
proof -
  obtain w2 e where d: "sx_Deliver env (wr_RunID run) w1 = (w2, e)" by fastforce
  have w2: "same w w2" using same_trans [OF w1] quiet(4) [OF d] by blast
  show ?thesis
    unfolding settle_pending_def d prod.case
    by (cases e) (auto intro!: settles_same w1 w2 transition_settles' [OF t w1] settleChunkDelivery_settles [OF t w2])
qed

lemma settle_chunk_settles:
  assumes t: "good w" "task w i = Some t"
  shows "settles i w (settle_chunk env stack auto i t w)"
proof (cases "isStackInFlightStatus (tk_Status t)")
  case False
  then show ?thesis by (simp add: settle_chunk_def settles_same)
next
  case True
  obtain w1 r where k: "stackRunByKey env stack i w = (w1, r)" by fastforce
  have w1: "same w w1" using stackRunByKey_same [OF k] .
  note sub = settle_succeeded_settles [OF t True w1] settle_pending_settles [OF t True w1]
    settles_after [OF w1 reopenOrFail_settles] settles_same [OF w1]
  show ?thesis
  proof (cases r)
    case (Inr found)
    show ?thesis using True k Inr sub by (cases found) (auto simp: settle_chunk_def)
  qed (use True k sub in \<open>simp add: settle_chunk_def\<close>)
qed

lemma merge_chunk_settles:
  assumes t: "good w" "task w i = Some t"
  shows "settles i w (merge_chunk env stack i t w)"
proof (cases "tk_Status t \<noteq> StatusPublished \<and> tk_Status t \<noteq> StatusImplemented")
  case True
  then show ?thesis by (simp add: merge_chunk_def settles_same)
next
  case False
  then have fl: "isStackInFlightStatus (tk_Status t)" by (auto simp: isStackInFlightStatus_def)
  obtain w1 r where k: "stackRunByKey env stack i w = (w1, r)" by fastforce
  have w1: "same w w1" using stackRunByKey_same [OF k] .
  show ?thesis
  proof (cases "\<exists>run. r = Inr (Some run)")
    case True
    then obtain run where r: "r = Inr (Some run)" by blast
    obtain w2 m where p: "prMerged env run w1 = (w2, m)" by fastforce
    have w2: "same w w2" using same_trans [OF w1 prMerged_same [OF p]] .
    have tr: "settles i w (transitionStackTask env stack i StatusMerged w2)"
      by (rule transition_settles' [OF t fl w2]) simp
    show ?thesis unfolding merge_chunk_def if_not_P [OF False] k r using p tr settles_same [OF w2] by (cases m) auto
  next
    case None: False
    have "merge_chunk env stack i t w = (w1, False)"
      unfolding merge_chunk_def if_not_P [OF False] k prod.case using None by (auto split: sum.splits option.splits)
    then show ?thesis using settles_same [OF w1] by simp
  qed
qed

text \<open>A loop over the chunks, each read before the loop began.\<close>

lemma for_tasks_moves:
  assumes f: "\<And>i t w. good w \<Longrightarrow> task w i = Some t \<Longrightarrow> settles i w (f i t w)"
    and "good w" "distinct ids" "\<forall>i \<in> set ids. \<forall>t. map_of byID i = Some t \<longrightarrow> task w i = Some t"
    and "for_tasks f byID ids p w = (w', p')"
  shows "good w' \<and> chunk_move\<^sup>*\<^sup>* (task w) (task w') \<and> (\<not> p' \<longrightarrow> \<not> p \<and> task w' = task w)"
  using assms(2-)
proof (induction ids arbitrary: p w)
  case (Cons i ids)
  show ?case
  proof (cases "map_of byID i")
    case None
    from Cons.IH [OF Cons.prems(1), of p] Cons.prems(2-) None show ?thesis by simp
  next
    case (Some t)
    obtain w1 q where x: "f i t w = (w1, q)" by fastforce
    have "settles i w (w1, q)" using f [OF Cons.prems(1), of i t] Cons.prems(3) Some x by auto
    then have s: "good w1" "chunk_move\<^sup>*\<^sup>* (task w) (task w1)" "\<forall>j. j \<noteq> i \<longrightarrow> task w1 j = task w j" "\<not> q \<longrightarrow> task w1 = task w"
      using Cons.prems(1) by (auto simp: settles_def)
    have "\<forall>j \<in> set ids. \<forall>t. map_of byID j = Some t \<longrightarrow> task w1 j = Some t"
      using Cons.prems(2,3) s(3) by auto
    from Cons.IH [OF s(1) _ this, of "q \<or> p"] Cons.prems(2,4) Some x
    have "good w' \<and> chunk_move\<^sup>*\<^sup>* (task w1) (task w') \<and> (\<not> p' \<longrightarrow> \<not> (q \<or> p) \<and> task w' = task w1)" by simp
    then show ?thesis using s(2,4) by (auto intro: rtranclp_trans)
  qed
qed simp

text \<open>The moves of a piece of the driver that keeps \<open>good\<close>.\<close>

definition goes :: "'w \<Rightarrow> 'w \<Rightarrow> bool" where
  "goes w w' \<longleftrightarrow> (good w \<longrightarrow> good w' \<and> chunk_move\<^sup>*\<^sup>* (task w) (task w'))"

lemma goes_same: "same w w' \<Longrightarrow> goes w w'"
  by (simp add: goes_def same_def)

lemma goes_trans [trans]: "goes w w' \<Longrightarrow> goes w' w'' \<Longrightarrow> goes w w''"
  by (auto simp: goes_def intro: rtranclp_trans)

lemma for_tasks_goes:
  assumes "\<And>i t w. good w \<Longrightarrow> task w i = Some t \<Longrightarrow> settles i w (f i t w)" "reads w byID"
    and "for_tasks f byID (sx_order env w (map fst byID)) False w = (w', p')"
  shows "goes w w'" "\<not> p' \<Longrightarrow> same w w'"
proof -
  have "good w \<Longrightarrow> good w' \<and> chunk_move\<^sup>*\<^sup>* (task w) (task w') \<and> (\<not> p' \<longrightarrow> \<not> False \<and> task w' = task w)"
    using assms(2) by (intro for_tasks_moves [OF assms(1) _ _ _ assms(3)]) (auto simp: reads_def intro: order)
  then show "goes w w'" "\<not> p' \<Longrightarrow> same w w'" by (auto simp: goes_def same_def)
qed

lemma processSettledChunks_goes:
  assumes "reads w byID" "processSettledChunks env stack byID auto w = (w', p)"
  shows "goes w w'" "\<not> p \<longrightarrow> same w w'"
  using for_tasks_goes [OF settle_chunk_settles assms(1) assms(2) [unfolded processSettledChunks_def]] by blast+

lemma markMergedChunks_goes:
  assumes "reads w byID" "markMergedChunks env stack byID w = (w', p)"
  shows "goes w w'" "\<not> p \<longrightarrow> same w w'"
proof -
  have "goes w w' \<and> (\<not> p \<longrightarrow> same w w')"
  proof (cases "sx_hasPR env")
    case True
    with assms(2) have "for_tasks (merge_chunk env stack) byID (sx_order env w (map fst byID)) False w = (w', p)"
      by (simp add: markMergedChunks_def)
    from for_tasks_goes [OF merge_chunk_settles assms(1) this] show ?thesis by blast
  qed (use assms(2) in \<open>simp add: markMergedChunks_def goes_same\<close>)
  then show "goes w w'" "\<not> p \<longrightarrow> same w w'" by blast+
qed

lemma reads_same: "good w \<Longrightarrow> same w w' \<Longrightarrow> reads w byID \<Longrightarrow> reads w' byID"
  by (simp add: reads_def same_def)

lemma reread_reads:
  assumes "reread env stack byID (w', p) = (w'', r)" "good w" "goes w w'" "reads w byID" "\<not> p \<longrightarrow> same w w'"
  shows "same w' w''" "r = Some byID' \<Longrightarrow> reads w'' byID'"
proof -
  have g: "good w'" using assms(2,3) by (simp add: goes_def)
  obtain w1 t where t: "TaskMap env stack w' = (w1, t)" by fastforce
  note tm = TaskMap_reads [OF t]
  have "same w' w'' \<and> (r = Some byID' \<longrightarrow> reads w'' byID')"
  proof (cases p)
    case True
    then show ?thesis using assms(1) t tm g by (cases t) (auto simp: reread_def)
  next
    case False
    then show ?thesis using assms(1,5) reads_same [OF assms(2) _ assms(4), of w'] by (auto simp: reread_def)
  qed
  then show "same w' w''" "r = Some byID' \<Longrightarrow> reads w'' byID'" by blast+
qed

text \<open>A chunk that was ready as read, and is admissible still, may be admitted.\<close>

lemma wave_ready:
  assumes "reads w byID" "i \<in> set (nextAdmissionWave byID (MergedSet byID) ord)" "chunk_move\<^sup>*\<^sup>* (task w) (task w')"
    "task w' i = Some t"
  shows "\<forall>d \<in> set (tk_Deps t). merged_in (task w') d"
proof
  fix d assume d: "d \<in> set (tk_Deps t)"
  obtain t0 where t0: "map_of byID i = Some t0" "TaskReady t0 (MergedSet byID)"
    using assms(2) by (auto simp: nextAdmissionWave_def split: option.splits)
  then have "task w i = Some t0" using assms(1) by (simp add: reads_def)
  then have "tk_Deps t0 = tk_Deps t" using same_chunkD chunk_moves_same [OF assms(3), of i] assms(4) by fastforce
  then have "d \<in> set (MergedSet byID)" using t0(2) d by (simp add: TaskReady_def list_all_iff)
  then obtain u where "(d, u) \<in> set byID" "tk_Status u = StatusMerged" by (auto simp: MergedSet_def)
  then have "merged_in (task w) d" using assms(1) by (auto simp: reads_def merged_in_def)
  then show "merged_in (task w') d" by (rule chunk_moves_merged [OF assms(3)])
qed

lemma admit_chunk_goes:
  assumes "reads w byID" "i \<in> set (nextAdmissionWave byID (MergedSet byID) ord)" "goes w w1" "dv_stackID dv = stack" "good w"
  shows "goes w1 (admit_chunk env dv i w1)"
proof -
  obtain w2 r where k: "stackRunByKey env stack i w1 = (w2, r)" by fastforce
  have w2: "same w1 w2" using stackRunByKey_same [OF k] .
  have g1: "good w1" "chunk_move\<^sup>*\<^sup>* (task w) (task w1)" using assms(3,5) by (auto simp: goes_def)
  then have g2: "good w2" "task w2 = task w1" using w2 by (auto simp: same_def)
  show ?thesis
  proof (cases "\<exists>part key. r = Inr None \<and> ChunkPartIndex i (dv_order dv) = Inr part \<and> AdmissionKey stack i = Inr key")
    case False
    then have "admit_chunk env dv i w1 = w2"
      unfolding admit_chunk_def assms(4) k prod.case by (auto split: sum.splits option.splits)
    then show ?thesis using goes_same [OF w2] by simp
  next
    case True
    then obtain part key where r: "r = Inr None" "ChunkPartIndex i (dv_order dv) = Inr part" "AdmissionKey stack i = Inr key"
      by blast
    obtain w3 c where c: "sx_TransitionCAS env stack i (Some AdmissiblePreStatuses) StatusRunning w2 = (w3, c)" by fastforce
    note law = TransitionCAS [OF g2(1) c]
    show ?thesis
    proof (cases "c = Inr True")
      case False
      then have "admit_chunk env dv i w1 = w3"
        unfolding admit_chunk_def assms(4) k r c prod.case by (auto split: sum.splits bool.splits)
      moreover have "same w2 w3" using law False by (simp add: same_def)
      ultimately show ?thesis using goes_same same_trans [OF w2] by simp
    next
      case True
      obtain t where t: "task w2 i = Some t" "tk_Status t \<in> set AdmissiblePreStatuses"
        "task w3 = (task w2)(i \<mapsto> t\<lparr>tk_Status := StatusRunning\<rparr>)" "good w3"
        using law True by (auto simp: moved_to_def)
      have "chunk_move (task w2) (task w3)" unfolding t(3)
        using t(2) wave_ready [OF assms(1,2) g1(2)] t(1) g2(2)
        by (intro admitted [of "task w2", OF t(1)]) (simp_all add: StatusIsAdmissiblePre_def)
      then have g3: "goes w1 w3" using t(4) g2(2) by (auto simp: goes_def)
      obtain w4 x where st: "sx_Start env (chunk_request env dv i key part) w3 = (w4, x)" by fastforce
      have w4: "good w4" "task w4 = task w3" using quiet(3) [OF st] t(4) by (simp_all add: same_def)
      obtain w5 y where tr: "sx_Transition env stack i StatusReopened w4 = (w5, y)" by fastforce
      have "goes w3 w5"
      proof (cases "y = Inr ()")
        case True
        have "task w5 = (task w4)(i \<mapsto> t\<lparr>tk_Status := StatusReopened\<rparr>)" "good w5"
          using Transition [OF w4(1) tr] True t(3) w4(2) by (auto simp: moved_to_def)
        then show ?thesis
          using retried [of "task w3" i "t\<lparr>tk_Status := StatusRunning\<rparr>" StatusReopened] t(3) w4(2) by (auto simp: goes_def)
      qed (use Transition [OF w4(1) tr] w4(2) in \<open>simp add: goes_def\<close>)
      moreover have "goes w3 w4" using w4 by (simp add: goes_def)
      moreover have "admit_chunk env dv i w1 \<in> {w4, w5}"
        unfolding admit_chunk_def assms(4) k r c True prod.case using st tr by (auto split: sum.splits)
      ultimately show ?thesis using goes_trans [OF g3] by auto
    qed
  qed
qed

lemma admitWave_goes:
  assumes "reads w byID" "set wave \<subseteq> set (nextAdmissionWave byID (MergedSet byID) ord)" "dv_stackID dv = stack" "good w"
  shows "goes w w1 \<Longrightarrow> goes w (admitWave env dv wave w1)"
  using assms(2)
proof (induction wave arbitrary: w1)
  case (Cons i wave)
  have "goes w1 (admit_chunk env dv i w1)"
    using Cons.prems by (intro admit_chunk_goes [OF assms(1) _ _ assms(3,4)]) auto
  then have "goes w (admit_chunk env dv i w1)" using goes_trans Cons.prems(1) by blast
  from Cons.IH [OF this] Cons.prems(2) show ?case by simp
qed simp

lemma pass_rest_goes:
  assumes "good w" "reads w byID" "dv_stackID dv = stack" "pass_rest env dv byID p w = (w', v)"
  shows "goes w w'" "v = DFinish \<Longrightarrow> \<forall>c \<in> set (dv_chunks dv). merged_in (task w') (cp_ID c)"
proof -
  let ?wave = "nextAdmissionWave byID (MergedSet byID) (dv_order dv)"
  have "goes w (admitWave env dv ?wave w)"
    using goes_same [OF same_refl] by (intro admitWave_goes [OF assms(2) _ assms(3,1)]) auto
  then show "goes w w'" using assms(4) goes_same [OF same_refl, of w] unfolding pass_rest_def Let_def by (auto split: if_splits)
  assume "v = DFinish"
  then have "w' = w" "AllChunksMerged (dv_chunks dv) (MergedSet byID)"
    using assms(4) unfolding pass_rest_def Let_def by (auto split: if_splits)
  moreover have "merged_in (task w) i" if "i \<in> set (MergedSet byID)" for i
    using that assms(2) by (auto simp: reads_def merged_in_def MergedSet_def)
  ultimately show "\<forall>c \<in> set (dv_chunks dv). merged_in (task w') (cp_ID c)" by (auto simp: AllChunksMerged_def list_all_iff)
qed

lemma drive_pass_goes:
  assumes "good w" "dv_stackID dv = stack" "drive_pass env dv w = (w', v)"
  shows "goes w w' \<and> (v = DFinish \<longrightarrow> (\<forall>c \<in> set (dv_chunks dv). merged_in (task w') (cp_ID c)))"
proof -
  obtain w0 r0 where tm: "TaskMap env stack w = (w0, r0)" by fastforce
  note s0 = TaskMap_reads [OF tm]
  have g0: "good w0" "goes w w0" using s0(1) assms(1) goes_same by (auto simp: same_def)
  show ?thesis
  proof (cases r0)
    case (Inl err)
    then show ?thesis using assms(3) tm g0(2) by (simp add: drive_pass_def assms(2))
  next
    case (Inr byID0)
    note rd0 = s0(2) [OF assms(1) Inr]
    obtain w1 p1 where p1: "processSettledChunks env stack byID0 (dv_auto dv) w0 = (w1, p1)" by fastforce
    note s1 = processSettledChunks_goes [OF rd0 p1]
    obtain w2 r2 where r2: "reread env stack byID0 (w1, p1) = (w2, r2)" by fastforce
    note s2 = reread_reads [OF r2 g0(1) s1(1) rd0 s1(2)]
    have g2: "goes w w2" using goes_trans [OF goes_trans [OF g0(2) s1(1)] goes_same [OF s2(1)]] .
    show ?thesis
    proof (cases r2)
      case None
      then show ?thesis using assms(3) tm Inr p1 r2 g2 by (simp add: drive_pass_def assms(2))
    next
      case (Some byID1)
      note rd1 = s2(2) [OF Some]
      obtain w3 p2 where p2: "markMergedChunks env stack byID1 w2 = (w3, p2)" by fastforce
      note s3 = markMergedChunks_goes [OF rd1 p2]
      obtain w4 r4 where r4: "reread env stack byID1 (w3, p2) = (w4, r4)" by fastforce
      have good2: "good w2" using g2 assms(1) by (simp add: goes_def)
      note s4 = reread_reads [OF r4 good2 s3(1) rd1 s3(2)]
      have g4: "goes w w4" using goes_trans [OF goes_trans [OF g2 s3(1)] goes_same [OF s4(1)]] .
      show ?thesis
      proof (cases r4)
        case None
        then show ?thesis using assms(3) tm Inr p1 r2 Some p2 r4 g4 by (simp add: drive_pass_def assms(2))
      next
        case r: (Some byID2)
        have "pass_rest env dv byID2 (p1 \<or> p2) w4 = (w', v)"
          using assms(3) tm Inr p1 r2 Some p2 r4 r by (simp add: drive_pass_def assms(2))
        moreover have "good w4" using g4 assms(1) by (simp add: goes_def)
        ultimately show ?thesis using pass_rest_goes [OF _ s4(2) [OF r] assms(2)] goes_trans [OF g4] by blast
      qed
    qed
  qed
qed

section \<open>Finishing leaves the chunks alone\<close>

lemma settlePlanRun_same: "same w (settlePlanRun env compiled i w)"
proof -
  obtain w1 r where g: "rp_GetRun (sx_repo env) i w = (w1, r)" by fastforce
  have w1: "same w w1" by (rule quiet(8) [OF g])
  have "same w1 (fst (rp_CompareAndSetRunStatus (sx_repo env) i v s w1))" for v s
    by (rule quiet(9) [OF prod.collapse [symmetric]])
  then show ?thesis using g same_trans [OF w1] w1 by (cases r) (auto simp: settlePlanRun_def)
qed

lemma waitForPRMerged_same: "waitForPRMerged fuel env run w = Some (w', b) \<Longrightarrow> same w w'"
proof (induction fuel arbitrary: w)
  case (Suc fuel)
  obtain w1 r where p: "prMerged env run w = (w1, r)" by fastforce
  obtain w2 e where q: "sx_wait env stackDrivePollInterval w1 = (w2, e)" by fastforce
  have w1: "same w w1" by (rule prMerged_same [OF p])
  have w2: "same w w2" using same_trans [OF w1] quiet(7) [OF q] by blast
  have "same w2 w'" if "waitForPRMerged fuel env run w2 = Some (w', b)" using Suc.IH that .
  then show ?case using Suc.prems p q w1 w2 same_trans [OF w2] by (auto split: sum.splits bool.splits)
qed simp

lemma settle_integrated_same: "settle_integrated fuel env compiled auto i fresh w = Some w' \<Longrightarrow> same w w'"
proof -
  assume a: "settle_integrated fuel env compiled auto i fresh w = Some w'"
  obtain w1 nd where n: "ChunkRunNoDiff env fresh w = (w1, nd)" by fastforce
  have w1: "same w w1" by (rule ChunkRunNoDiff_same [OF n])
  have pm: "same w1 w2" if "waitForPRMerged fuel env fresh w1 = Some (w2, b)" for w2 b by (rule waitForPRMerged_same [OF that])
  show ?thesis
    using a n unfolding settle_integrated_def
    by (auto split: if_splits bool.splits option.splits prod.splits dest!: pm
      intro: same_trans [OF w1] same_trans [OF same_trans [OF w1]] settlePlanRun_same)
qed

text \<open>One delivery attempt of the wait.\<close>

lemma attempt_same:
  assumes "(if b then (case sx_deliverPendingDirect env fresh w of (w2, derr) \<Rightarrow> (w2, derr = None)) else (w, False)) = (w', x)"
  shows "same w w'"
proof -
  obtain w2 derr where d: "sx_deliverPendingDirect env fresh w = (w2, derr)" by fastforce
  have "same w w2" by (rule quiet(5) [OF d])
  then show ?thesis using assms d by (auto split: if_splits)
qed

lemma nested_ifs:
  "(if A then x1 else if B then x2 else if C then x3 else (case e of True \<Rightarrow> x4 | False \<Rightarrow> x5)) = y \<Longrightarrow>
     y = x1 \<or> y = x2 \<or> y = x3 \<or> y = x4 \<or> y = x5"
  by (cases A; cases B; cases C; cases e) simp_all

lemma waitForIntegrationSettle_same:
  "waitForIntegrationSettle fuel env run compiled auto i backoff w = Some w' \<Longrightarrow> same w w'"
proof (induction fuel arbitrary: backoff w)
  case (Suc fuel)
  show ?case
  proof (cases "sx_ctxDone env w")
    case True
    then show ?thesis using Suc.prems by simp
  next
    case False
    obtain w1 r where g: "rp_GetRun (sx_repo env) (wr_RunID run) w = (w1, r)" by fastforce
    have w1: "same w w1" by (rule quiet(8) [OF g])
    show ?thesis
    proof (cases r)
      case (Inl err)
      then show ?thesis using Suc.prems False g w1 by simp
    next
      case (Inr fresh)
      let ?att = "if wr_Status fresh = WfRunStatusDeliveryPending
        then (case sx_deliverPendingDirect env fresh w1 of (w2, derr) \<Rightarrow> (w2, derr = None)) else (w1, False)"
      obtain w2 p where a: "?att = (w2, p)" by fastforce
      obtain w3 e where q: "sx_wait env backoff w2 = (w3, e)" by fastforce
      have w3: "same w w3" using same_trans [OF same_trans [OF w1 attempt_same [OF a]]] quiet(7) [OF q] by blast
      have rec: "same w w'" if "waitForIntegrationSettle fuel env run compiled auto i (next_backoff p backoff) w3 = Some w'"
        using same_trans [OF w3] Suc.IH [OF that] .
      have si: "same w w'" if "settle_integrated fuel env compiled auto i fresh w1 = Some w'"
        using same_trans [OF w1] settle_integrated_same [OF that] .
      have sp: "same w (settlePlanRun env compiled i w1)" using same_trans [OF w1] settlePlanRun_same .
      have "(if wr_Status fresh = WfRunStatusSucceeded then settle_integrated fuel env compiled auto i fresh w1
            else if wr_Status fresh = WfRunStatusDeliveryPending \<and> \<not> auto then Some (settlePlanRun env compiled i w1)
            else if wr_Status fresh \<in> {WfRunStatusFailed, WfRunStatusCanceled, WfRunStatusTimedOut, WfRunStatusDeliveryFailed}
            then Some w1
            else (case e of True \<Rightarrow> Some w3
              | False \<Rightarrow> waitForIntegrationSettle fuel env run compiled auto i (next_backoff p backoff) w3)) = Some w'"
        using Suc.prems by (simp only: waitForIntegrationSettle.simps if_not_P [OF False] g Inr prod.case sum.case a q)
      then consider "settle_integrated fuel env compiled auto i fresh w1 = Some w'" | "w' = settlePlanRun env compiled i w1" |
        "w' = w1" | "w' = w3" | "waitForIntegrationSettle fuel env run compiled auto i (next_backoff p backoff) w3 = Some w'"
        using nested_ifs by (metis option.inject)
      then show ?thesis using w1 w3 rec si sp by cases blast+
    qed
  qed
qed simp

lemma finishStack_same:
  assumes "dv_stackID dv = stack" "finishStack fuel env dv w = Some w'"
  shows "same w w'"
proof (cases "AdmissionKey stack IntegrationChunkID")
  case (Inl err)
  then show ?thesis using assms by (simp add: finishStack_def)
next
  case key: (Inr key)
  note wait = waitForIntegrationSettle_same [where fuel = fuel and compiled = "dv_compiled dv" and auto = "dv_auto dv" and i = stack
      and backoff = stackDrivePollInterval and w' = w']
  obtain w1 r where k: "stackRunByKey env stack IntegrationChunkID w = (w1, r)" by fastforce
  have w1: "same w w1" by (rule stackRunByKey_same [OF k])
  show ?thesis
  proof (cases r)
    case (Inl err)
    then show ?thesis using assms key k w1 by (simp add: finishStack_def)
  next
    case (Inr found)
    show ?thesis
    proof (cases found)
      case (Some run)
      then show ?thesis using assms key k Inr wait [of run w1] same_trans [OF w1] by (simp add: finishStack_def)
    next
      case None
      let ?req = "\<lparr>sr_Workflow = wr_WorkflowName (dv_planRun dv), sr_Inputs = IntegrationRunInputs (dv_planInputs dv) (dv_prBase dv),
        sr_InvocationKey = key, sr_AllowPublish = dv_auto dv\<rparr>"
      obtain w2 x where st: "sx_Start env ?req w1 = (w2, x)" by fastforce
      have w2: "same w w2" using same_trans [OF w1] quiet(3) [OF st] .
      show ?thesis
      proof (cases x)
        case (Inl err)
        then show ?thesis using assms key k Inr None st w2 by (simp add: finishStack_def \<open>r = Inr found\<close>)
      next
        case runID: (Inr runID)
        obtain w3 y where g: "rp_GetRun (sx_repo env) runID w2 = (w3, y)" by fastforce
        have w3: "same w w3" using same_trans [OF w2] quiet(8) [OF g] .
        show ?thesis
          using assms key k Inr None st runID g w3 wait [of _ w3] same_trans [OF w3] by (cases y) (auto simp: finishStack_def)
      qed
    qed
  qed
qed

lemma driveStackLoop_goes:
  assumes "dv_stackID dv = stack" "driveStackLoop fuel env dv backoff w = Some w'"
  shows "goes w w'"
  using assms(2)
proof (induction fuel arbitrary: backoff w)
  case (Suc fuel)
  show ?case
  proof (cases "good w \<and> \<not> sx_ctxDone env w")
    case False
    then show ?thesis using Suc.prems goes_same [OF same_refl, of w] by (auto simp: goes_def)
  next
    case True
    obtain w1 v where p: "drive_pass env dv w = (w1, v)" by fastforce
    have w1: "goes w w1" using drive_pass_goes [OF _ assms(1) p] True by blast
    show ?thesis
    proof (cases v)
      case DFinish
      then have "same w1 w'" using Suc.prems True p by (intro finishStack_same [OF assms(1), of fuel]) simp
      then show ?thesis using goes_trans [OF w1] goes_same by blast
    next
      case (DWait pr)
      obtain w2 e where q: "sx_wait env backoff w1 = (w2, e)" by fastforce
      have w2: "goes w w2" using goes_trans [OF w1] goes_same quiet(7) [OF q] by blast
      show ?thesis using Suc.prems True p DWait q w2 goes_trans [OF w2] Suc.IH [of "next_backoff pr backoff" w2] by (cases e) auto
    qed (use Suc.prems True p w1 Suc.IH [of stackDrivePollInterval w1] goes_trans [OF w1] in auto)
  qed
qed simp

end

end
