(* ===== verification/Tks_Laws.thy ===== *)
theory Tks_Laws
  imports Tks_Store Wf_Reach Ledger_Properties
begin

text \<open>
  The plan and task ledger over the in-memory store refines a board: a plain function from plan
  refs to plan states.  \<open>tks_ok\<close> is the refinement relation (the cached plan is the replay of
  its run, and only the identifiers of recorded changes are taken), \<open>board_step\<close> the abstract
  operation.
\<close>

section \<open>Event identifiers are injective\<close>

lemma hex_digit_inj: "a < 16 \<Longrightarrow> b < 16 \<Longrightarrow> hex_digit a = hex_digit b \<Longrightarrow> a = b"
proof -
  assume a: "a < 16" and b: "b < 16" and eq: "hex_digit a = hex_digit b"
  then have "(of_char (hex_digit a) :: nat) = of_char (hex_digit b)" by simp
  with a b show "a = b" by (auto simp: hex_digit_def of_char_of split: if_splits)
qed

lemma hex_digit_no_colon: "n < 16 \<Longrightarrow> hex_digit n \<noteq> CHR '':''"
proof
  assume n: "n < 16" and "hex_digit n = CHR '':''"
  then have "(of_char (hex_digit n) :: nat) = of_char (CHR '':'')" by simp
  with n show False by (auto simp: hex_digit_def of_char_of split: if_splits)
qed

lemma of_char_lt: "(of_char c :: nat) < 256"
  by (cases c) (simp add: of_char_def horner_sum_simps)

lemma of_char_div_lt: "(of_char c :: nat) div 16 < 16"
  using of_char_lt [of c] by (intro less_mult_imp_div_less) simp

lemma hex_no_colon: "CHR '':'' \<notin> set (hex_encode s)"
proof -
  have "hex_digit (of_char c div 16) \<noteq> CHR '':''" "hex_digit (of_char c mod 16) \<noteq> CHR '':''" for c
    using of_char_div_lt [of c] by (intro hex_digit_no_colon; simp)+
  then show ?thesis by (induction s) (auto simp: hex_encode_def dest: sym)
qed

lemma hex_char_inj:
  assumes "hex_digit (of_char c div 16) = hex_digit (of_char d div 16)"
    "hex_digit (of_char c mod 16) = hex_digit (of_char d mod 16)"
  shows "c = d"
proof -
  have "(of_char c :: nat) div 16 = of_char d div 16"
    using hex_digit_inj [OF of_char_div_lt of_char_div_lt assms(1)] .
  moreover have "(of_char c :: nat) mod 16 = of_char d mod 16"
    using assms(2) by (intro hex_digit_inj) simp_all
  ultimately have "(of_char c :: nat) = of_char d" by (metis div_mult_mod_eq)
  then show ?thesis by simp
qed

lemma hex_encode_inj: "hex_encode s = hex_encode t \<Longrightarrow> s = t"
proof (induction s arbitrary: t)
  case Nil
  then show ?case by (cases t) (simp_all add: hex_encode_def)
next
  case (Cons c s)
  then obtain d t' where t: "t = d # t'" by (cases t) (simp_all add: hex_encode_def)
  have "hex_encode s = hex_encode t'" "c = d"
    using Cons.prems t hex_char_inj [of c d] by (simp_all add: hex_encode_def)
  with Cons.IH t show ?case by simp
qed

abbreviation parts_text :: "string list \<Rightarrow> string" where
  "parts_text ps \<equiv> concat (map (\<lambda>p. '':'' @ hex_encode p) ps)"

lemma parts_text_starts: "parts_text ps = [] \<or> hd (parts_text ps) = CHR '':''"
  by (cases ps) simp_all

lemma split_at_colon:
  assumes "CHR '':'' \<notin> set a" "CHR '':'' \<notin> set b" "a @ parts_text ps = b @ parts_text qs"
  shows "a = b \<and> parts_text ps = parts_text qs"
proof -
  have t: "takeWhile (\<lambda>c. c \<noteq> CHR '':'') (x @ parts_text rs) = x" if "CHR '':'' \<notin> set x" for x rs
  proof -
    have "\<forall>c \<in> set x. c \<noteq> CHR '':''" using that by blast
    then show ?thesis by (cases rs) (simp_all add: takeWhile_append2)
  qed
  have "a = b" using t [OF assms(1), of ps] t [OF assms(2), of qs] assms(3) by simp
  with assms(3) show ?thesis by simp
qed

lemma parts_text_inj: "parts_text ps = parts_text qs \<Longrightarrow> ps = qs"
proof (induction ps arbitrary: qs)
  case Nil
  then show ?case by (cases qs) simp_all
next
  case (Cons p ps)
  then obtain q qs' where q: "qs = q # qs'" by (cases qs) simp_all
  with Cons.prems have "hex_encode p @ parts_text ps = hex_encode q @ parts_text qs'" by simp
  then have "hex_encode p = hex_encode q \<and> parts_text ps = parts_text qs'"
    by (intro split_at_colon hex_no_colon)
  with Cons.IH q hex_encode_inj show ?case by blast
qed

definition tks_kinds :: "string set" where
  "tks_kinds = {eventKindPlanStored, eventKindPlanBound, eventKindTaskCreated, eventKindTaskTransitioned}"

lemmas tks_kind_defs = eventKindPlanStored_def eventKindPlanBound_def eventKindTaskCreated_def
  eventKindTaskTransitioned_def

lemma tks_eventID_inj:
  assumes "k \<in> tks_kinds" "k' \<in> tks_kinds" "tks_eventID ref k ps = tks_eventID ref k' qs"
  shows "k = k' \<and> ps = qs"
proof -
  have no: "CHR '':'' \<notin> set k" if "k \<in> tks_kinds" for k
    using that by (auto simp: tks_kinds_def tks_kind_defs)
  have "k @ parts_text ps = k' @ parts_text qs" using assms(3) by (simp add: tks_eventID_def)
  then have "k = k' \<and> parts_text ps = parts_text qs" using split_at_colon no assms(1,2) by blast
  then show ?thesis using parts_text_inj by blast
qed

lemma Itoa_inj: "0 \<le> a \<Longrightarrow> 0 \<le> b \<Longrightarrow> Itoa a = Itoa b \<Longrightarrow> a = b"
  by (metis Itoa_def read_show_nat eq_nat_nat_iff linorder_not_le)

section \<open>The board behind a world\<close>

abbreviation plans :: "tks_client \<Rightarrow> string \<Rightarrow> planState option" where
  "plans c \<equiv> map_of (tc_plans c)"

lemma plans_put [simp]: "plans (put_plan ref st c) r = (if r = ref then Some st else plans c r)"
  by (simp add: put_plan_def update_conv')

lemma plans_drop [simp]: "plans (drop_plan ref c) r = (if r = ref then None else plans c r)"
  by (simp add: drop_plan_def delete_conv')

definition plan_view :: "planState \<Rightarrow> planState option" where
  "plan_view st = (if pl_ID (ps_plan st) = [] then None else Some st)"

definition tks_log :: "tks_payload memory \<Rightarrow> string \<Rightarrow> lerr + planState" where
  "tks_log m ref = tks_replay ref (mem_evs m (planRunID ref)) zero_plan_state"

lemma tks_replay_append:
  "tks_replay ref (es @ [ev]) st =
     (case tks_replay ref es st of Inl err \<Rightarrow> Inl err | Inr st1 \<Rightarrow> tks_apply ref ev st1)"
  by (induction es arbitrary: st) (auto split: sum.splits)

lemma planRunID_inj [simp]: "planRunID a = planRunID b \<longleftrightarrow> a = b"
  by (simp add: planRunID_def)

lemma planRunID_prefix [simp]: "HasPrefix (planRunID ref) runIDPrefix" "TrimPrefix (planRunID ref) runIDPrefix = ref"
  by (simp_all add: HasPrefix_def TrimPrefix_def planRunID_def)

lemma prefixed_run: "HasPrefix r runIDPrefix \<Longrightarrow> \<exists>ref. r = planRunID ref"
  by (metis HasPrefix_def planRunID_def append_eq_conv_conj)

text \<open>The identifiers that the recorded changes of a plan have taken.\<close>

definition taken_ids :: "string \<Rightarrow> planState \<Rightarrow> string set" where
  "taken_ids ref st =
     (if pl_ID (ps_plan st) = [] then {}
      else {tks_eventID ref eventKindPlanStored []} \<union>
        {tks_eventID ref eventKindPlanBound [Itoa k] | k. 1 \<le> k \<and> k \<le> ps_binds st} \<union>
        {tks_eventID ref eventKindTaskCreated [i] | i. map_of (ps_tasks st) i \<noteq> None} \<union>
        {tks_eventID ref eventKindTaskTransitioned [i, Itoa k] | i k. 1 \<le> k \<and> k \<le> transitions_of i st})"

definition plan_sane :: "string \<Rightarrow> planState \<Rightarrow> bool" where
  "plan_sane ref st \<longleftrightarrow> 0 \<le> ps_binds st \<and>
     (if pl_ID (ps_plan st) = [] then st = zero_plan_state else pl_ID (ps_plan st) = ref)"

definition plan_ok :: "tks_payload memory \<Rightarrow> tks_client \<Rightarrow> string \<Rightarrow> planState \<Rightarrow> bool" where
  "plan_ok m c ref st \<longleftrightarrow> tks_log m ref = Inr st \<and> plans c ref = plan_view st \<and> plan_sane ref st \<and>
     ev_ID ` set (mem_evs m (planRunID ref)) \<subseteq> taken_ids ref st \<and> seqs_nat m (planRunID ref)"

definition tks_ok :: "tks_payload memory tks_world \<Rightarrow> bool" where
  "tks_ok = (\<lambda>(e, m, c). events_inv m \<and> (\<forall>ref. \<exists>st. plan_ok m c ref st))"

lemma plan_ok_same:
  "mem_evs m' (planRunID ref) = mem_evs m (planRunID ref) \<Longrightarrow> plans c' ref = plans c ref \<Longrightarrow>
     plan_ok m' c' ref st = plan_ok m c ref st"
  by (simp add: plan_ok_def tks_log_def seqs_nat_def)

lemma zero_plan_view [simp]: "plan_view zero_plan_state = None"
  by (simp add: plan_view_def zero_plan_state_def zero_plan_def)

text \<open>A plan that is cached is the replayed state, with its own reference.\<close>

lemma plan_ok_cached:
  assumes "plan_ok m c ref st" "plans c ref = Some st'"
  shows "st' = st" "pl_ID (ps_plan st) = ref" "ref \<noteq> []"
  using assms by (auto simp: plan_ok_def plan_view_def plan_sane_def split: if_splits)

lemma plan_ok_absent:
  assumes "plan_ok m c ref st" "plans c ref = None"
  shows "st = zero_plan_state" "mem_evs m (planRunID ref) = []"
  using assms by (auto simp: plan_ok_def plan_view_def plan_sane_def taken_ids_def split: if_splits)

section \<open>Rebuilding and catching up\<close>

lemma rebuildRun_mem:
  assumes "events_inv m" "tks_log m ref = Inr st"
  obtains c' where "rebuildRun (planRunID ref) (mem_evs m (planRunID ref)) (e, m, c) =
      ((eng_SetApplied (planRunID ref) (max_sequence (mem_evs m (planRunID ref)) 0) e, m, c'), None)"
    "plans c' ref = plan_view st" "\<And>r. r \<noteq> ref \<Longrightarrow> plans c' r = plans c r"
  using assms(2)
  by (intro that [of "if pl_ID (ps_plan st) = [] then drop_plan ref c else put_plan ref st c"])
    (auto simp: rebuildRun_def sort_stored [OF assms(1)] tks_log_def plan_view_def Let_def)

definition same_board :: "tks_payload memory tks_world \<Rightarrow> tks_payload memory tks_world \<Rightarrow> bool" where
  "same_board = (\<lambda>(e, m, c) (e', m', c'). m' = m \<and> (\<forall>ref. plans c' ref = plans c ref))"

lemma same_board_refl [simp]: "same_board w w"
  by (cases w) (simp add: same_board_def)

lemma same_board_trans: "same_board w1 w2 \<Longrightarrow> same_board w2 w3 \<Longrightarrow> same_board w1 w3"
  by (cases w1, cases w2, cases w3) (simp add: same_board_def)

lemma tks_ok_same:
  assumes "tks_ok w" "same_board w w'"
  shows "tks_ok w'"
proof (cases w, cases w')
  fix e m c e' m' c' assume w: "w = (e, m, c)" "w' = (e', m', c')"
  then have "plan_ok m' c' ref = plan_ok m c ref" for ref
    using assms(2) by (intro ext plan_ok_same) (simp_all add: same_board_def)
  then show ?thesis using assms w by (simp add: tks_ok_def same_board_def)
qed

lemma tks_filter_cases:
  "\<not> HasPrefix r runIDPrefix \<Longrightarrow> tks_filter r q = FilterAdvanceOnly"
  "HasPrefix r runIDPrefix \<Longrightarrow> tks_filter r q = FilterApply"
  by (simp_all add: tks_filter_def)

lemma tks_catch_up_kept:
  assumes "tks_ok (e, m, c)"
  shows "\<exists>e' c'. catch_up_loop mem_ops (Some tks_filter) (Some rebuildRun) M rs (e, m, c) = ((e', m, c'), None) \<and>
    same_board (e, m, c) (e', m, c')"
  using assms
proof (induction rs arbitrary: e c)
  case Nil
  then show ?case by auto
next
  case (Cons r rs)
  let ?q = "word_of_int (mget_or 0 (map_of M) r) :: 64 word"
  show ?case
  proof (cases "HasPrefix r runIDPrefix")
    case False
    have "tks_ok (eng_SetApplied r ?q e, m, c)" using Cons.prems by (simp add: tks_ok_def)
    with Cons.IH [of "eng_SetApplied r ?q e" c] False show ?thesis
      by (simp add: tks_filter_cases Let_def same_board_def)
  next
    case True
    then obtain ref where r: "r = planRunID ref" using prefixed_run by blast
    obtain st where st: "plan_ok m c ref st" using Cons.prems by (auto simp: tks_ok_def)
    let ?e1 = "eng_SetApplied r (max_sequence (mem_evs m r) 0) (eng_RunLock r e)"
    obtain c1 where c1: "rebuildRun r (mem_evs m r) (eng_RunLock r e, m, c) = ((?e1, m, c1), None)"
      "plans c1 ref = plan_view st" "\<And>x. x \<noteq> ref \<Longrightarrow> plans c1 x = plans c x"
      using rebuildRun_mem [of m ref st "eng_RunLock r e" c] Cons.prems st r
      by (auto simp: tks_ok_def plan_ok_def)
    have same: "same_board (e, m, c) (eng_SetApplied r ?q ?e1, m, c1)"
    proof -
      have "plans c1 x = plans c x" for x
        using c1(2,3) st by (cases "x = ref") (simp_all add: plan_ok_def)
      then show ?thesis by (simp add: same_board_def)
    qed
    obtain e' c' where *: "catch_up_loop mem_ops (Some tks_filter) (Some rebuildRun) M rs
        (eng_SetApplied r ?q ?e1, m, c1) = ((e', m, c'), None)" "same_board (eng_SetApplied r ?q ?e1, m, c1) (e', m, c')"
      using Cons.IH [OF tks_ok_same [OF Cons.prems same]] by blast
    then have "same_board (e, m, c) (e', m, c')" using same_board_trans [OF same] by blast
    with * c1(1) True show ?thesis by (simp add: tks_filter_cases Let_def mem_Events_evs)
  qed
qed

lemma tks_catchUp_kept:
  assumes "tks_ok (e, m, c)"
  obtains e' c' where "tks_catchUp mem_ops (e, m, c) = ((e', m, c'), eng_CheckOpen e)"
    "same_board (e, m, c) (e', m, c')" "tks_ok (e', m, c')"
proof -
  have "\<exists>e' c'. tks_catchUp mem_ops (e, m, c) = ((e', m, c'), eng_CheckOpen e) \<and> same_board (e, m, c) (e', m, c')"
  proof (cases "eng_CheckOpen e")
    case (Some x)
    then show ?thesis by (auto simp: tks_catchUp_def eng_CatchUp_def)
  next
    case None
    let ?M = "fst (mem_Changes (wm_cursor (en_watermarks e)) m)"
    obtain e2 c2 where "catch_up_loop mem_ops (Some tks_filter) (Some rebuildRun) ?M
        (wm_CheckBehind ?M (en_watermarks e)) (e, m, c) = ((e2, m, c2), None)" "same_board (e, m, c) (e2, m, c2)"
      using tks_catch_up_kept [OF assms] by blast
    with None show ?thesis
      by (auto simp: tks_catchUp_def eng_CatchUp_def Let_def same_board_def split: prod.splits)
  qed
  then show thesis using that tks_ok_same [OF assms] by blast
qed

section \<open>Appending\<close>

lemma AppendBatch_one:
  assumes "events_inv m" "mem_AppendBatch [evt] m = (m', err)"
  shows "(err \<noteq> None \<and> m' = m) \<or>
    (err = None \<and> events_inv m' \<and> mget_or 0 (m_maxSeq m) (ev_RunID evt) < ev_Sequence evt \<and>
      (\<forall>r. mem_evs m' r = (if r = ev_RunID evt then mem_evs m r @ [stamped m evt] else mem_evs m r)))"
proof (cases "batch_check m {} {} [evt]")
  case (Some x)
  then have "m' = m \<and> err = Some x"
    using assms(2) by (simp only: mem_AppendBatch_def appendBatchLocked_def option.case prod.inject)
  then show ?thesis by simp
next
  case None
  then have res: "append_all [evt] m = (m', err)"
    using assms(2) by (simp only: mem_AppendBatch_def appendBatchLocked_def option.case)
  show ?thesis
  proof (cases evt m rule: appendLocked_cases)
    case (ok m1)
    then have "m' = m1 \<and> err = None" using res by simp
    moreover have "events_inv m1" using events_inv_appendLocked [OF assms(1), of evt] ok(3) by simp
    moreover have "mget_or 0 (m_maxSeq m) (ev_RunID evt) < ev_Sequence evt"
      using None by (auto split: if_splits)
    ultimately show ?thesis using ok(4) by simp
  qed (use res in auto)
qed

lemma maxSeq_nonneg: "events_inv m \<Longrightarrow> seqs_nat m r \<Longrightarrow> 0 \<le> mget_or 0 (m_maxSeq m) r"
  using events_invD(6) [of m r] by (fastforce simp: seq_recorded_def seqs_nat_def mget_or_def split: option.splits)

definition append_error :: "tks_err \<Rightarrow> bool" where
  "append_error err \<longleftrightarrow> err = ErrTaskConflict \<or> (\<exists>x. err = TksErr x)"

abbreviation mem_batch :: "tks_payload memory tks_batch" where
  "mem_batch \<equiv> Some mem_AppendBatch"

lemma rebuildRunFromStore_mem:
  assumes "events_inv m" "plan_ok m c ref st" "\<And>r. r \<noteq> ref \<Longrightarrow> plans c1 r = plans c r"
  obtains e' c' where "rebuildRunFromStore mem_ops (planRunID ref) (e, m, c1) = ((e', m, c'), None)"
    "same_board (e, m, c) (e', m, c')"
proof -
  have "tks_log m ref = Inr st" using assms(2) by (simp add: plan_ok_def)
  from rebuildRun_mem [OF assms(1) this, of e c1] obtain e' c' where
    *: "rebuildRun (planRunID ref) (mem_evs m (planRunID ref)) (e, m, c1) = ((e', m, c'), None)"
      "plans c' ref = plan_view st" "\<And>r. r \<noteq> ref \<Longrightarrow> plans c' r = plans c1 r"
    by blast
  have "plans c' r = plans c r" for r
    using * assms(2,3) by (cases "r = ref") (simp_all add: plan_ok_def)
  then show thesis
    using * by (intro that [of e' c']) (simp_all add: rebuildRunFromStore_def mem_Events_evs same_board_def)
qed

lemma tks_appendEvent_mem:
  assumes inv: "events_inv m" and ok: "plan_ok m c ref st" and c1: "\<And>r. r \<noteq> ref \<Longrightarrow> plans c1 r = plans c r"
    and id: "ev_RunID evt = planRunID ref" "ev_ID evt \<notin> taken_ids ref st"
    and run: "tks_appendEvent mem_ops mem_batch evt (e, m, c1) = ((e', m', c'), err)"
  shows "(\<exists>x. err = Some x \<and> append_error x \<and> same_board (e, m, c) (e', m', c')) \<or>
    (err = None \<and> c' = c1 \<and> events_inv m' \<and> 0 < ev_Sequence evt \<and>
      (\<forall>r. mem_evs m' r = (if r = planRunID ref then mem_evs m r @ [stamped m evt] else mem_evs m r)))"
proof -
  obtain m1 serr where res: "mem_AppendBatch [evt] m = (m1, serr)" by (cases "mem_AppendBatch [evt] m")
  show ?thesis
  proof (cases serr)
    case None
    have "0 \<le> mget_or 0 (m_maxSeq m) (planRunID ref)"
      using maxSeq_nonneg [OF inv] ok by (simp add: plan_ok_def)
    with None show ?thesis using AppendBatch_one [OF inv res] run res id(1) by (simp add: tks_appendEvent_def)
  next
    case (Some se)
    then have m1: "m1 = m" using AppendBatch_one [OF inv res] by simp
    obtain e2 c2 where c2: "rebuildRunFromStore mem_ops (planRunID ref) (e, m, c1) = ((e2, m, c2), None)"
      "same_board (e, m, c) (e2, m, c2)"
      using rebuildRunFromStore_mem [OF inv ok c1] by blast
    have "find (\<lambda>x. ev_ID x = ev_ID evt) (mem_evs m (planRunID ref)) = None"
      using id(2) ok by (auto simp: find_None_iff plan_ok_def)
    then have "tks_appendEvent mem_ops mem_batch evt (e, m, c1) = ((e2, m, c2),
        Some (if se \<noteq> ErrDuplicate then TksErr (LErrWrap ''store append'' (LErrStore se)) else ErrTaskConflict))"
      by (simp add: tks_appendEvent_def res Some m1 id(1) c2(1) mem_Events_evs)
    with run c2(2) show ?thesis by (auto simp: append_error_def)
  qed
qed

text \<open>
  A change that replaying its event would make as well: either it is refused and the board is
  as before, or it is stored and made.
\<close>

lemma marshalAndAppend_board:
  assumes ok: "tks_ok (e, m, c)" and st: "plan_ok m c ref st" and fresh: "i \<notin> taken_ids ref st"
    and repl: "\<And>ev. ev_Kind ev = k \<Longrightarrow> ev_Payload ev = [p] \<Longrightarrow> tks_apply ref ev st = Inr st1"
    and sane: "plan_sane ref st1" "pl_ID (ps_plan st1) \<noteq> []"
    and taken: "insert i (taken_ids ref st) \<subseteq> taken_ids ref st1"
    and run: "marshalAndAppend mem_ops mem_batch (planRunID ref) i k (tks_marshal stamps p) (e, m, put_plan ref st1 c) =
      ((e', m', c'), err)"
  shows "tks_ok (e', m', c')"
    "(\<exists>x. err = Some x \<and> append_error x \<and> same_board (e, m, c) (e', m', c')) \<or>
     (err = None \<and> (\<forall>r. plans c' r = (if r = ref then Some st1 else plans c r)))"
    "err = None \<Longrightarrow> list_all json_time stamps \<and> (\<exists>ev. mem_evs m' (planRunID ref) = mem_evs m (planRunID ref) @ [ev] \<and>
       ev_ID ev = i \<and> ev_Payload ev = [p])"
proof -
  let ?c1 = "put_plan ref st1 c"
  let ?stored = "list_all json_time stamps \<and> (\<exists>ev. mem_evs m' (planRunID ref) = mem_evs m (planRunID ref) @ [ev] \<and>
       ev_ID ev = i \<and> ev_Payload ev = [p])"
  have inv: "events_inv m" using ok by (simp add: tks_ok_def)
  have c1: "plans ?c1 r = plans c r" if "r \<noteq> ref" for r using that by simp
  have "tks_ok (e', m', c') \<and> ((\<exists>x. err = Some x \<and> append_error x \<and> same_board (e, m, c) (e', m', c')) \<or>
     (err = None \<and> (\<forall>r. plans c' r = (if r = ref then Some st1 else plans c r)))) \<and> (err = None \<longrightarrow> ?stored)"
  proof (cases "list_all json_time stamps")
    case False
    obtain e2 c2 where c2: "rebuildRunFromStore mem_ops (planRunID ref) (e, m, ?c1) = ((e2, m, c2), None)"
      "same_board (e, m, c) (e2, m, c2)"
      using rebuildRunFromStore_mem [OF inv st c1] by blast
    with run False have "err = Some (TksErr (LErrWrap ''marshal payload'' (LErrOther ''json'')))"
      "(e', m', c') = (e2, m, c2)"
      by (auto simp: marshalAndAppend_def tks_marshal_def)
    then show ?thesis using c2(2) tks_ok_same [OF ok c2(2)] by (simp add: append_error_def)
  next
    case True
    obtain e1 q where q: "eng_NextSequence (planRunID ref) e = (e1, q)"
      by (cases "eng_NextSequence (planRunID ref) e")
    let ?evt = "\<lparr>ev_ID = i, ev_RunID = planRunID ref, ev_Sequence = sint q, ev_Kind = k, ev_Payload = [p], ev_RowID = 0\<rparr>"
    have run1: "tks_appendEvent mem_ops mem_batch ?evt (e1, m, ?c1) = ((e', m', c'), err)"
      using run True q by (simp add: marshalAndAppend_def tks_marshal_def)
    have "(\<exists>x. err = Some x \<and> append_error x \<and> same_board (e1, m, c) (e', m', c')) \<or>
      (err = None \<and> c' = ?c1 \<and> events_inv m' \<and> 0 < sint q \<and>
        (\<forall>r. mem_evs m' r = (if r = planRunID ref then mem_evs m r @ [stamped m ?evt] else mem_evs m r)))"
      using tks_appendEvent_mem [OF inv st c1 _ _ run1] fresh by simp
    then show ?thesis
    proof (elim disjE exE conjE)
      fix x assume a: "err = Some x" "append_error x" "same_board (e1, m, c) (e', m', c')"
      then have "same_board (e, m, c) (e', m', c')" by (simp add: same_board_def)
      with a tks_ok_same [OF ok this] show ?thesis by simp
    next
      assume a: "err = None" "c' = ?c1" "events_inv m'" and pos: "0 < sint q"
        and evs: "\<forall>r. mem_evs m' r = (if r = planRunID ref then mem_evs m r @ [stamped m ?evt] else mem_evs m r)"
      have "sint q < 2 ^ 63" using sint_lt [of q] by simp
      then have "seqs_nat m' (planRunID ref)" using st evs pos by (auto simp: plan_ok_def seqs_nat_def)
      then have new: "plan_ok m' c' ref st1"
        using st repl [of "stamped m ?evt"] sane taken evs a(2)
        by (auto simp: plan_ok_def tks_log_def tks_replay_append plan_view_def)
      have "\<exists>st. plan_ok m' c' r st" for r
      proof (cases "r = ref")
        case False
        obtain st2 where "plan_ok m c r st2" using ok by (auto simp: tks_ok_def)
        then show ?thesis
          using plan_ok_same [of m' r m c' c st2] evs a(2) False by auto
      qed (use new in blast)
      moreover have ?stored using evs True by (auto intro!: exI [of _ "stamped m ?evt"])
      ultimately show ?thesis using a by (simp add: tks_ok_def)
    qed
  qed
  then show "tks_ok (e', m', c')"
    "(\<exists>x. err = Some x \<and> append_error x \<and> same_board (e, m, c) (e', m', c')) \<or>
     (err = None \<and> (\<forall>r. plans c' r = (if r = ref then Some st1 else plans c r)))"
    "err = None \<Longrightarrow> ?stored" by blast+
qed

end
