(* ===== verification/Tks_Board.thy ===== *)
theory Tks_Board
  imports Tks_Laws
begin

text \<open>
  The plan and task ledger as a state machine: commands, the abstract board they act on, and
  the refinement of every command, catch-up included.
\<close>

section \<open>Commands\<close>

datatype tks_cmd =
    TcStorePlan Plan
  | TcBind string Scope
  | TcCreate Task
  | TcMove string string "string list option" string
  | TcDecide string string "string list option" string "int \<Rightarrow> string option"

fun cmd_plan :: "tks_cmd \<Rightarrow> string" where
  "cmd_plan (TcStorePlan plan) = pl_ID plan"
| "cmd_plan (TcBind ref scope) = ref"
| "cmd_plan (TcCreate task) = tk_PlanRef task"
| "cmd_plan (TcMove ref i fromStatuses status) = ref"
| "cmd_plan (TcDecide ref i fromStatuses reopen decide) = ref"

definition as_done :: "'w \<times> (tks_err + 'a) \<Rightarrow> 'w \<times> (tks_err + bool)" where
  "as_done = (\<lambda>(w, res). (w, map_sum id (\<lambda>_. True) res))"

fun tks_exec :: "time \<Rightarrow> tks_cmd \<Rightarrow> tks_payload memory tks_world \<Rightarrow> tks_payload memory tks_world \<times> (tks_err + bool)" where
  "tks_exec now (TcStorePlan plan) w = as_done (StorePlan mem_ops mem_batch now plan w)"
| "tks_exec now (TcBind ref scope) w = as_done (BindPlanToScope mem_ops mem_batch now ref scope w)"
| "tks_exec now (TcCreate task) w = as_done (CreateTask mem_ops mem_batch now task w)"
| "tks_exec now (TcMove ref i fromStatuses status) w =
     TransitionTaskCAS mem_ops mem_batch now ref i fromStatuses status w"
| "tks_exec now (TcDecide ref i fromStatuses reopen decide) w =
     (case TransitionTaskCASDecide mem_ops mem_batch now ref i fromStatuses reopen decide w of
        (w1, res) \<Rightarrow> (w1, map_sum id fst res))"

section \<open>The abstract board\<close>

text \<open>What a command does to the plan it names: an error, or the plan afterwards and the flag.\<close>

definition move_step :: "time \<Rightarrow> string \<Rightarrow> string \<Rightarrow> string list option \<Rightarrow> string \<Rightarrow> planState option
    \<Rightarrow> tks_err + planState option \<times> bool" where
  "move_step now ref i fromStatuses status p =
     (if status = [] then Inl ErrEmptyTaskStatus
      else case p of
        None \<Rightarrow> Inl ErrPlanNotFound
      | Some st \<Rightarrow>
          (case map_of (ps_tasks st) i of
             None \<Rightarrow> Inl ErrTaskNotFound
           | Some task \<Rightarrow>
               if status_among fromStatuses task then Inr (Some (moved ref i (tk_Status task) status now task st), True)
               else Inr (p, False)))"

fun board_step :: "time \<Rightarrow> tks_cmd \<Rightarrow> planState option \<Rightarrow> tks_err + planState option \<times> bool" where
  "board_step now (TcStorePlan plan) p =
     (if pl_ID plan = [] then Inl ErrInvalidPlan
      else if \<not> ValidScopeType (sc_Type (pl_Scope plan)) then Inl ErrInvalidScope
      else case p of
        None \<Rightarrow> Inr (Some (zero_plan_state\<lparr>ps_plan := plan\<rparr>), True)
      | Some st \<Rightarrow> if ps_plan st = plan then Inr (p, True) else Inl ErrTaskDuplicate)"
| "board_step now (TcBind ref scope) p =
     (if \<not> ValidScopeType (sc_Type scope) then Inl ErrInvalidScope
      else case p of
        None \<Rightarrow> Inl ErrPlanNotFound
      | Some st \<Rightarrow> if pl_Scope (ps_plan st) = scope then Inr (p, True) else Inr (Some (bound scope st), True))"
| "board_step now (TcCreate task) p =
     (if tk_ID task = [] \<or> tk_PlanRef task = [] then Inl ErrInvalidTask
      else if \<not> ValidScopeType (sc_Type (tk_Scope task)) then Inl ErrInvalidScope
      else if tk_Status task = [] then Inl ErrEmptyTaskStatus
      else case p of
        None \<Rightarrow> Inl ErrPlanNotFound
      | Some st \<Rightarrow>
          (case map_of (ps_tasks st) (tk_ID task) of
             None \<Rightarrow> Inr (Some (with_task task st), True)
           | Some existing \<Rightarrow> if existing = task then Inr (p, True) else Inl ErrTaskDuplicate))"
| "board_step now (TcMove ref i fromStatuses status) p = move_step now ref i fromStatuses status p"
| "board_step now (TcDecide ref i fromStatuses reopen decide) p =
     (case p of
        None \<Rightarrow> Inl ErrPlanNotFound
      | Some st \<Rightarrow>
          (case map_of (ps_tasks st) i of
             None \<Rightarrow> Inl ErrTaskNotFound
           | Some task \<Rightarrow>
               if \<not> status_among fromStatuses task then Inr (p, False)
               else (case decide (reopened_attempts i reopen st) of
                   None \<Rightarrow> Inr (p, False)
                 | Some want \<Rightarrow> move_step now ref i fromStatuses want p)))"

section \<open>Every command refines its step\<close>

text \<open>
  The outcome of a command at a plan: it does the step of the board; or the board refuses; or
  the step is lost because the store refused or could not be read, and nothing changed.
\<close>

definition refines_step ::
    "tks_payload memory tks_world \<Rightarrow> string \<Rightarrow> (tks_err + planState option \<times> bool)
      \<Rightarrow> tks_payload memory tks_world \<times> (tks_err + bool) \<Rightarrow> bool" where
  "refines_step = (\<lambda>(e, m, c) ref spec (w', res). case w' of (e', m', c') \<Rightarrow> tks_ok w' \<and>
     (case res of
        Inl err \<Rightarrow> same_board (e, m, c) w' \<and> (spec = Inl err \<or> append_error err)
      | Inr ok \<Rightarrow> (\<exists>p. spec = Inr (p, ok) \<and> (\<forall>r. plans c' r = (if r = ref then p else plans c r)))))"

lemma refines_step_unchanged:
  "tks_ok (e, m, c) \<Longrightarrow> spec = Inr (plans c ref, ok) \<Longrightarrow> refines_step (e, m, c) ref spec ((e, m, c), Inr ok)"
  by (simp add: refines_step_def)

lemma refines_step_refused:
  "tks_ok (e, m, c) \<Longrightarrow> spec = Inl err \<Longrightarrow> refines_step (e, m, c) ref spec ((e, m, c), Inl err)"
  by (simp add: refines_step_def)

lemma refines_step_written:
  assumes ok: "tks_ok (e, m, c)" and st: "plan_ok m c ref st" and fresh: "i \<notin> taken_ids ref st"
    and repl: "\<And>ev. ev_Kind ev = k \<Longrightarrow> ev_Payload ev = [p] \<Longrightarrow> tks_apply ref ev st = Inr st1"
    and sane: "plan_sane ref st1" "pl_ID (ps_plan st1) \<noteq> []"
    and taken: "insert i (taken_ids ref st) \<subseteq> taken_ids ref st1"
    and spec: "spec = Inr (Some st1, True)"
  shows "refines_step (e, m, c) ref spec (or_error True
     (marshalAndAppend mem_ops mem_batch (planRunID ref) i k (tks_marshal stamps p) (e, m, put_plan ref st1 c)))"
proof -
  obtain e' m' c' err where run: "marshalAndAppend mem_ops mem_batch (planRunID ref) i k (tks_marshal stamps p)
      (e, m, put_plan ref st1 c) = ((e', m', c'), err)"
    by (metis prod.collapse)
  from marshalAndAppend_board(1,2) [OF ok st fresh repl sane taken run] show ?thesis
    unfolding run or_error_def refines_step_def using spec by auto
qed

lemma refines_after_catchUp:
  assumes ok: "tks_ok (e, m, c)"
    and body: "\<And>e' c'. tks_ok (e', m, c') \<Longrightarrow> plans c' = plans c \<Longrightarrow> refines_step (e', m, c') ref spec (body (e', m, c'))"
  shows "refines_step (e, m, c) ref spec (after_catchUp mem_ops body (e, m, c))"
proof -
  obtain e' c' where cu: "tks_catchUp mem_ops (e, m, c) = ((e', m, c'), eng_CheckOpen e)"
    "same_board (e, m, c) (e', m, c')" "tks_ok (e', m, c')"
    using tks_catchUp_kept [OF ok] by blast
  show ?thesis
  proof (cases "eng_CheckOpen e")
    case (Some x)
    then show ?thesis using cu by (simp add: after_catchUp_def refines_step_def append_error_def)
  next
    case None
    have eq: "plans c' = plans c" using cu(2) by (auto simp: same_board_def)
    obtain w2 res where b: "body (e', m, c') = (w2, res)" by (cases "body (e', m, c')")
    have "refines_step (e', m, c') ref spec (w2, res)" using body [OF cu(3) eq] b by simp
    then have "refines_step (e, m, c) ref spec (w2, res)"
      using eq by (cases w2; cases res) (auto simp: refines_step_def same_board_def)
    then show ?thesis using None cu(1) b by (simp add: after_catchUp_def)
  qed
qed

lemma as_done_simps [simp]:
  "as_done (or_error v x) = or_error True x" "as_done (w, Inl err) = (w, Inl err)" "as_done (w, Inr y) = (w, Inr True)"
  by (auto simp: as_done_def or_error_def split: prod.splits option.splits)

lemma as_done_after: "as_done (after_catchUp ops body w) = after_catchUp ops (\<lambda>w. as_done (body w)) w"
  by (auto simp: after_catchUp_def split: prod.splits option.splits)

lemma not_taken_kind:
  assumes "pl_ID (ps_plan st) \<noteq> []"
  shows "tks_eventID ref eventKindPlanBound [Itoa k] \<in> taken_ids ref st \<longleftrightarrow>
      (\<exists>j. Itoa k = Itoa j \<and> 1 \<le> j \<and> j \<le> ps_binds st)"
    "tks_eventID ref eventKindTaskCreated [i] \<in> taken_ids ref st \<longleftrightarrow> map_of (ps_tasks st) i \<noteq> None"
    "tks_eventID ref eventKindTaskTransitioned [i, Itoa k] \<in> taken_ids ref st \<longleftrightarrow>
      (\<exists>j. Itoa k = Itoa j \<and> 1 \<le> j \<and> j \<le> transitions_of i st)"
proof -
  have inj: "tks_eventID ref k ps = tks_eventID ref k' qs \<longleftrightarrow> k = k' \<and> ps = qs"
    if "k \<in> tks_kinds" "k' \<in> tks_kinds" for k k' ps qs
    using tks_eventID_inj [OF that] by blast
  have kinds: "eventKindPlanStored \<in> tks_kinds" "eventKindPlanBound \<in> tks_kinds"
    "eventKindTaskCreated \<in> tks_kinds" "eventKindTaskTransitioned \<in> tks_kinds"
    by (simp_all add: tks_kinds_def)
  have diff: "eventKindPlanStored \<noteq> eventKindPlanBound" "eventKindPlanStored \<noteq> eventKindTaskCreated"
    "eventKindPlanStored \<noteq> eventKindTaskTransitioned" "eventKindPlanBound \<noteq> eventKindTaskCreated"
    "eventKindPlanBound \<noteq> eventKindTaskTransitioned" "eventKindTaskCreated \<noteq> eventKindTaskTransitioned"
    by (simp_all add: tks_kind_defs)
  show "tks_eventID ref eventKindPlanBound [Itoa k] \<in> taken_ids ref st \<longleftrightarrow>
      (\<exists>j. Itoa k = Itoa j \<and> 1 \<le> j \<and> j \<le> ps_binds st)"
    using assms by (auto simp: taken_ids_def inj kinds diff diff [symmetric])
  show "tks_eventID ref eventKindTaskCreated [i] \<in> taken_ids ref st \<longleftrightarrow> map_of (ps_tasks st) i \<noteq> None"
    using assms by (auto simp: taken_ids_def inj kinds diff diff [symmetric])
  show "tks_eventID ref eventKindTaskTransitioned [i, Itoa k] \<in> taken_ids ref st \<longleftrightarrow>
      (\<exists>j. Itoa k = Itoa j \<and> 1 \<le> j \<and> j \<le> transitions_of i st)"
    using assms by (auto simp: taken_ids_def inj kinds diff diff [symmetric])
qed

lemma taken_ids_mono:
  assumes "pl_ID (ps_plan st') \<noteq> []" "ps_binds st \<le> ps_binds st'"
    "\<And>i. map_of (ps_tasks st) i \<noteq> None \<Longrightarrow> map_of (ps_tasks st') i \<noteq> None"
    "\<And>i. transitions_of i st \<le> transitions_of i st'"
  shows "taken_ids ref st \<subseteq> taken_ids ref st'"
proof (cases "pl_ID (ps_plan st) = []")
  case False
  have "k \<le> ps_binds st'" if "k \<le> ps_binds st" for k using that assms(2) by simp
  moreover have "k \<le> transitions_of i st'" if "k \<le> transitions_of i st" for i k
    using that assms(4) [of i] by simp
  ultimately show ?thesis
    unfolding taken_ids_def if_not_P [OF False] if_not_P [OF assms(1)]
    using assms(3) by (intro Un_mono order_refl) blast+
qed (simp add: taken_ids_def)

lemma Itoa_next: "1 \<le> j \<Longrightarrow> j \<le> n \<Longrightarrow> Itoa (n + 1) \<noteq> Itoa j"
  using Itoa_inj [of "n + 1" j] by auto

lemma transitions_of_nonneg [simp]: "0 \<le> transitions_of i st"
  by (simp add: transitions_of_def)

lemma moved_fields [simp]:
  "ps_plan (moved ref i src dst now task st) = ps_plan st" "ps_binds (moved ref i src dst now task st) = ps_binds st"
  "transitions_of j (moved ref i src dst now task st) = transitions_of j st + (if j = i then 1 else 0)"
  "map_of (ps_tasks (moved ref i src dst now task st)) j =
     (if j = i then Some (task\<lparr>tk_Status := dst\<rparr>) else map_of (ps_tasks st) j)"
  by (simp_all add: moved_def transitions_of_def update_conv')

text \<open>The event of a move has a new identifier, and replaying it makes the move.\<close>

lemma move_written:
  fixes now :: time and status :: string
  assumes "tks_ok (e, m, c)" and st: "plan_ok m c ref st" "pl_ID (ps_plan st) = ref" "ref \<noteq> []"
    and task: "map_of (ps_tasks st) i = Some task"
  defines "eid \<equiv> tks_eventID ref eventKindTaskTransitioned [i, Itoa (transitions_of i st + 1)]"
    and "st1 \<equiv> moved ref i (tk_Status task) status now task st"
  shows "eid \<notin> taken_ids ref st"
    "ev_Kind ev = eventKindTaskTransitioned \<Longrightarrow> ev_Payload ev = [TTaskTransitioned i (tk_Status task) status now] \<Longrightarrow>
       tks_apply ref ev st = Inr st1"
    "plan_sane ref st1" "pl_ID (ps_plan st1) \<noteq> []" "insert eid (taken_ids ref st) \<subseteq> taken_ids ref st1"
proof -
  show "eid \<notin> taken_ids ref st"
    using not_taken_kind(3) [of st ref i "transitions_of i st + 1"] st(2,3) Itoa_next by (auto simp: eid_def)
  show "tks_apply ref ev st = Inr st1"
    if "ev_Kind ev = eventKindTaskTransitioned" "ev_Payload ev = [TTaskTransitioned i (tk_Status task) status now]"
    using that task by (simp add: tks_apply_def tks_kind_defs moved_def st1_def)
  show "plan_sane ref st1" using st by (auto simp: plan_sane_def plan_ok_def st1_def split: if_splits)
  show "pl_ID (ps_plan st1) \<noteq> []" using st(2,3) by (simp add: st1_def)
  have "taken_ids ref st \<subseteq> taken_ids ref st1" using st(2,3) by (intro taken_ids_mono) (simp_all add: st1_def)
  moreover have "eid \<in> taken_ids ref st1"
    using not_taken_kind(3) [of st1 ref i "transitions_of i st + 1"] st(2,3)
    by (auto simp: eid_def st1_def intro!: exI [of _ "transitions_of i st + 1"])
  ultimately show "insert eid (taken_ids ref st) \<subseteq> taken_ids ref st1" by simp
qed

lemma move_refines:
  assumes ok: "tks_ok (e, m, c)" and s: "status \<noteq> []"
  shows "refines_step (e, m, c) ref (move_step now ref i fromStatuses status (plans c ref))
    (transition_body mem_ops mem_batch now ref i fromStatuses status (e, m, c))"
proof (cases "plans c ref")
  case None
  then show ?thesis using s ok by (simp add: transition_body_def move_step_def refines_step_refused)
next
  case (Some st)
  obtain st0 where "plan_ok m c ref st0" using ok by (auto simp: tks_ok_def)
  with plan_ok_cached [OF this Some] have st: "plan_ok m c ref st" "pl_ID (ps_plan st) = ref" "ref \<noteq> []" by auto
  show ?thesis
  proof (cases "map_of (ps_tasks st) i")
    case None
    with Some s ok show ?thesis by (simp add: transition_body_def move_step_def refines_step_refused)
  next
    case task: (Some task)
    show ?thesis
    proof (cases "status_among fromStatuses task")
      case False
      with Some task s ok show ?thesis by (simp add: transition_body_def move_step_def refines_step_unchanged)
    next
      case True
      with move_written [OF ok st task] s show ?thesis
        by (simp add: transition_body_def move_step_def Some task) (rule refines_step_written [OF ok st(1)]; simp)
    qed
  qed
qed

lemma StorePlan_refines:
  assumes ok: "tks_ok (e, m, c)" and g: "pl_ID plan \<noteq> []" "ValidScopeType (sc_Type (pl_Scope plan))"
  shows "refines_step (e, m, c) (pl_ID plan) (board_step now (TcStorePlan plan) (plans c (pl_ID plan)))
    (as_done (StorePlan_body mem_ops mem_batch now plan (e, m, c)))"
proof (cases "plans c (pl_ID plan)")
  case (Some st)
  then show ?thesis
    using g ok by (simp add: StorePlan_body_def refines_step_unchanged refines_step_refused)
next
  case None
  let ?ref = "pl_ID plan" and ?st1 = "zero_plan_state\<lparr>ps_plan := plan\<rparr>"
  obtain st where st: "plan_ok m c ?ref st" using ok by (auto simp: tks_ok_def)
  note z = plan_ok_absent(1) [OF st None]
  have p0: "pl_ID (ps_plan zero_plan_state) = []" by (simp add: zero_plan_state_def zero_plan_def)
  have "tks_eventID ?ref eventKindPlanStored [] \<notin> taken_ids ?ref st" by (simp add: z taken_ids_def p0)
  moreover have "tks_apply ?ref ev st = Inr ?st1"
    if "ev_Kind ev = eventKindPlanStored" "ev_Payload ev = [TPlanStored plan now]" for ev
    using that by (simp add: z tks_apply_def)
  moreover have "plan_sane ?ref ?st1" using g by (simp add: plan_sane_def zero_plan_state_def)
  moreover have "insert (tks_eventID ?ref eventKindPlanStored []) (taken_ids ?ref st) \<subseteq> taken_ids ?ref ?st1"
    using g by (simp add: z taken_ids_def p0)
  ultimately show ?thesis
    using None g by (simp add: StorePlan_body_def) (rule refines_step_written [OF ok st]; simp)
qed

lemma BindPlan_refines:
  assumes ok: "tks_ok (e, m, c)" and g: "ValidScopeType (sc_Type scope)"
  shows "refines_step (e, m, c) ref (board_step now (TcBind ref scope) (plans c ref))
    (as_done (BindPlan_body mem_ops mem_batch now ref scope (e, m, c)))"
proof (cases "plans c ref")
  case None
  then show ?thesis using g ok by (simp add: BindPlan_body_def refines_step_refused)
next
  case (Some st)
  obtain st0 where "plan_ok m c ref st0" using ok by (auto simp: tks_ok_def)
  with plan_ok_cached [OF this Some] have st: "plan_ok m c ref st" "pl_ID (ps_plan st) = ref" "ref \<noteq> []" by auto
  show ?thesis
  proof (cases "pl_Scope (ps_plan st) = scope")
    case True
    with Some g ok show ?thesis by (simp add: BindPlan_body_def refines_step_unchanged)
  next
    case False
    let ?st1 = "bound scope st" and ?id = "tks_eventID ref eventKindPlanBound [Itoa (ps_binds st + 1)]"
    have sane: "0 \<le> ps_binds st" using st(1) by (simp add: plan_ok_def plan_sane_def)
    have flds: "pl_ID (ps_plan ?st1) = pl_ID (ps_plan st)" "ps_binds ?st1 = ps_binds st + 1"
      "ps_tasks ?st1 = ps_tasks st" "transitions_of i ?st1 = transitions_of i st" for i
      by (simp_all add: bound_def transitions_of_def)
    have "?id \<notin> taken_ids ref st"
      using not_taken_kind(1) [of st ref "ps_binds st + 1"] st(2,3) Itoa_next by auto
    moreover have "tks_apply ref ev st = Inr ?st1"
      if "ev_Kind ev = eventKindPlanBound" "ev_Payload ev = [TPlanBound scope now]" for ev
      using that by (simp add: tks_apply_def tks_kind_defs bound_def)
    moreover have "plan_sane ref ?st1" using st sane flds by (simp add: plan_sane_def)
    moreover have "taken_ids ref st \<subseteq> taken_ids ref ?st1" using st(2,3) flds by (intro taken_ids_mono) simp_all
    moreover have "?id \<in> taken_ids ref ?st1"
      using not_taken_kind(1) [of ?st1 ref "ps_binds st + 1"] st(2,3) sane flds
      by (auto intro!: exI [of _ "ps_binds st + 1"])
    ultimately show ?thesis
      using Some False g st(2,3) flds
      by (simp add: BindPlan_body_def) (rule refines_step_written [OF ok st(1)]; simp)
  qed
qed

lemma CreateTask_refines:
  assumes ok: "tks_ok (e, m, c)"
    and g: "tk_ID task \<noteq> []" "tk_PlanRef task \<noteq> []" "ValidScopeType (sc_Type (tk_Scope task))" "tk_Status task \<noteq> []"
  shows "refines_step (e, m, c) (tk_PlanRef task) (board_step now (TcCreate task) (plans c (tk_PlanRef task)))
    (as_done (CreateTask_body mem_ops mem_batch now task (e, m, c)))"
proof (cases "plans c (tk_PlanRef task)")
  case None
  then show ?thesis using g ok by (simp add: CreateTask_body_def refines_step_refused)
next
  case (Some st)
  let ?ref = "tk_PlanRef task"
  obtain st0 where "plan_ok m c ?ref st0" using ok by (auto simp: tks_ok_def)
  with plan_ok_cached [OF this Some] have st: "plan_ok m c ?ref st" "pl_ID (ps_plan st) = ?ref" by auto
  show ?thesis
  proof (cases "map_of (ps_tasks st) (tk_ID task)")
    case (Some t)
    with \<open>plans c ?ref = Some st\<close> g ok show ?thesis
      by (simp add: CreateTask_body_def refines_step_unchanged refines_step_refused)
  next
    case None
    let ?st1 = "with_task task st" and ?id = "tks_eventID ?ref eventKindTaskCreated [tk_ID task]"
    have flds: "ps_plan ?st1 = ps_plan st" "ps_binds ?st1 = ps_binds st"
      "map_of (ps_tasks ?st1) i = (if i = tk_ID task then Some task else map_of (ps_tasks st) i)"
      "transitions_of i ?st1 = transitions_of i st" for i
      by (simp_all add: with_task_def transitions_of_def update_conv')
    have "?id \<notin> taken_ids ?ref st" using not_taken_kind(2) [of st ?ref "tk_ID task"] st g None by simp
    moreover have "tks_apply ?ref ev st = Inr ?st1"
      if "ev_Kind ev = eventKindTaskCreated" "ev_Payload ev = [TTaskCreated task now]" for ev
      using that by (simp add: tks_apply_def tks_kind_defs with_task_def)
    moreover have "plan_sane ?ref ?st1" using st g flds by (auto simp: plan_sane_def plan_ok_def split: if_splits)
    moreover have "taken_ids ?ref st \<subseteq> taken_ids ?ref ?st1" using st(2) g(2) flds by (intro taken_ids_mono) simp_all
    moreover have "?id \<in> taken_ids ?ref ?st1" using not_taken_kind(2) [of ?st1 ?ref "tk_ID task"] st g flds by simp
    ultimately show ?thesis
      using Some None g st(2) flds
      by (simp add: CreateTask_body_def) (rule refines_step_written [OF ok st(1)]; simp)
  qed
qed

lemma transitionTaskLocked_refines:
  assumes ok: "tks_ok (e, m, c)"
  shows "refines_step (e, m, c) ref (move_step now ref i fromStatuses status (plans c ref))
    (transitionTaskLocked mem_ops mem_batch now ref i fromStatuses status (e, m, c))"
proof (cases "status = []")
  case True
  then show ?thesis using ok by (simp add: transitionTaskLocked_def move_step_def refines_step_refused)
next
  case False
  show ?thesis
    unfolding transitionTaskLocked_def if_not_P [OF False]
    using move_refines [OF _ False] by (intro refines_after_catchUp [OF ok]) metis
qed

lemma refines_step_map:
  assumes "refines_step w ref spec (w', map_sum id f res)"
  shows "refines_step w ref spec (case (w', res) of (w1, Inl err) \<Rightarrow> (w1, Inl err) | (w1, Inr ok) \<Rightarrow> (w1, Inr (f ok)))"
  using assms by (cases res) simp_all

lemma CASDecide_refines:
  assumes ok: "tks_ok (e, m, c)"
  shows "refines_step (e, m, c) ref (board_step now (TcDecide ref i fromStatuses reopen decide) (plans c ref))
    (case CASDecide_body mem_ops mem_batch now ref i fromStatuses reopen decide (e, m, c) of
       (w1, res) \<Rightarrow> (w1, map_sum id fst res))"
proof (cases "plans c ref")
  case None
  then show ?thesis using ok by (simp add: CASDecide_body_def refines_step_refused)
next
  case (Some st)
  show ?thesis
  proof (cases "map_of (ps_tasks st) i")
    case None
    with Some ok show ?thesis by (simp add: CASDecide_body_def refines_step_refused)
  next
    case task: (Some task)
    show ?thesis
    proof (cases "status_among fromStatuses task")
      case False
      with Some task ok show ?thesis by (simp add: CASDecide_body_def refines_step_unchanged)
    next
      case True
      show ?thesis
      proof (cases "decide (reopened_attempts i reopen st)")
        case None
        with Some task True ok show ?thesis by (simp add: CASDecide_body_def Let_def refines_step_unchanged)
      next
        case want: (Some want)
        obtain w1 res where r: "transitionTaskLocked mem_ops mem_batch now ref i fromStatuses want (e, m, c) = (w1, res)"
          by (metis prod.collapse)
        have "refines_step (e, m, c) ref (move_step now ref i fromStatuses want (plans c ref)) (w1, res)"
          using transitionTaskLocked_refines [OF ok, of ref now i fromStatuses want] r by simp
        with Some task True want r show ?thesis
          by (cases res) (simp_all add: CASDecide_body_def Let_def)
      qed
    qed
  qed
qed

lemma exec_refines:
  assumes ok: "tks_ok (e, m, c)"
  shows "refines_step (e, m, c) (cmd_plan cmd) (board_step now cmd (plans c (cmd_plan cmd))) (tks_exec now cmd (e, m, c))"
proof (cases cmd)
  case (TcStorePlan plan)
  show ?thesis
  proof (cases "pl_ID plan \<noteq> [] \<and> ValidScopeType (sc_Type (pl_Scope plan))")
    case True
    then have "refines_step (e, m, c) (pl_ID plan) (board_step now (TcStorePlan plan) (plans c (pl_ID plan)))
        (after_catchUp mem_ops (\<lambda>w. as_done (StorePlan_body mem_ops mem_batch now plan w)) (e, m, c))"
      by (intro refines_after_catchUp [OF ok]) (metis StorePlan_refines)
    with True TcStorePlan show ?thesis by (simp add: StorePlan_def as_done_after)
  qed (use ok TcStorePlan in \<open>auto simp: StorePlan_def intro: refines_step_refused\<close>)
next
  case (TcBind ref scope)
  show ?thesis
  proof (cases "ValidScopeType (sc_Type scope)")
    case True
    then have "refines_step (e, m, c) ref (board_step now (TcBind ref scope) (plans c ref))
        (after_catchUp mem_ops (\<lambda>w. as_done (BindPlan_body mem_ops mem_batch now ref scope w)) (e, m, c))"
      by (intro refines_after_catchUp [OF ok]) (metis BindPlan_refines)
    with True TcBind show ?thesis by (simp add: BindPlanToScope_def as_done_after)
  qed (use ok TcBind in \<open>auto simp: BindPlanToScope_def intro: refines_step_refused\<close>)
next
  case (TcCreate task)
  show ?thesis
  proof (cases "tk_ID task \<noteq> [] \<and> tk_PlanRef task \<noteq> [] \<and> ValidScopeType (sc_Type (tk_Scope task)) \<and> tk_Status task \<noteq> []")
    case True
    then have "refines_step (e, m, c) (tk_PlanRef task) (board_step now (TcCreate task) (plans c (tk_PlanRef task)))
        (after_catchUp mem_ops (\<lambda>w. as_done (CreateTask_body mem_ops mem_batch now task w)) (e, m, c))"
      by (intro refines_after_catchUp [OF ok]) (metis CreateTask_refines)
    with True TcCreate show ?thesis by (simp add: CreateTask_def as_done_after)
  qed (use ok TcCreate in \<open>auto simp: CreateTask_def intro: refines_step_refused\<close>)
next
  case (TcMove ref i fromStatuses status)
  with transitionTaskLocked_refines [OF ok] show ?thesis by (simp add: TransitionTaskCAS_def)
next
  case (TcDecide ref i fromStatuses reopen decide)
  have "(case after_catchUp mem_ops body w of (w1, res) \<Rightarrow> (w1, map_sum id fst res)) =
      after_catchUp mem_ops (\<lambda>w. case body w of (w1, res) \<Rightarrow> (w1, map_sum id fst res)) w"
    for body :: "tks_payload memory tks_world \<Rightarrow> tks_payload memory tks_world \<times> (tks_err + bool \<times> string \<times> int)" and w
    by (auto simp: after_catchUp_def split: prod.splits option.splits)
  moreover have "refines_step (e, m, c) ref (board_step now cmd (plans c ref))
      (after_catchUp mem_ops (\<lambda>w. case CASDecide_body mem_ops mem_batch now ref i fromStatuses reopen decide w of
        (w1, res) \<Rightarrow> (w1, map_sum id fst res)) (e, m, c))"
    unfolding TcDecide using CASDecide_refines by (intro refines_after_catchUp [OF ok]) metis
  ultimately show ?thesis using TcDecide by (simp add: TransitionTaskCASDecide_def)
qed

section \<open>Reachable boards\<close>

fun tks_run :: "(time \<times> tks_cmd) list \<Rightarrow> tks_payload memory tks_world \<Rightarrow> tks_payload memory tks_world" where
  "tks_run [] w = w"
| "tks_run ((now, cmd) # cmds) w = tks_run cmds (fst (tks_exec now cmd w))"

inductive plan_step :: "planState option \<Rightarrow> planState option \<Rightarrow> bool" where
  "board_step now cmd p = Inr (p', ok) \<Longrightarrow> plan_step p p'"

lemma exec_ok: "tks_ok w \<Longrightarrow> tks_ok (fst (tks_exec now cmd w))"
  using exec_refines [of "fst w" "fst (snd w)" "snd (snd w)" cmd now]
  by (cases w; cases "tks_exec now cmd w"; cases "snd (tks_exec now cmd w)") (auto simp: refines_step_def)

lemma run_ok_board: "tks_ok w \<Longrightarrow> tks_ok (tks_run cmds w)"
  by (induction cmds w rule: tks_run.induct) (auto intro: exec_ok)

lemma exec_plan_step:
  assumes "tks_ok (e, m, c)" "tks_exec now cmd (e, m, c) = ((e', m', c'), res)"
  shows "plan_step\<^sup>*\<^sup>* (plans c ref) (plans c' ref)"
proof -
  have r: "refines_step (e, m, c) (cmd_plan cmd) (board_step now cmd (plans c (cmd_plan cmd))) ((e', m', c'), res)"
    using exec_refines [OF assms(1)] assms(2) by metis
  show ?thesis
  proof (cases res)
    case (Inl err)
    with r show ?thesis by (simp add: refines_step_def same_board_def)
  next
    case (Inr ok)
    with r obtain p where "board_step now cmd (plans c (cmd_plan cmd)) = Inr (p, ok)"
      "\<forall>x. plans c' x = (if x = cmd_plan cmd then p else plans c x)"
      by (auto simp: refines_step_def)
    then show ?thesis by (cases "ref = cmd_plan cmd") (auto intro: plan_step.intros)
  qed
qed

lemma run_plan_steps:
  "tks_ok (e, m, c) \<Longrightarrow> plan_step\<^sup>*\<^sup>* (plans c ref) (plans (snd (snd (tks_run cmds (e, m, c)))) ref)"
proof (induction cmds arbitrary: e m c)
  case (Cons x cmds)
  obtain now cmd where x: "x = (now, cmd)" by (cases x)
  obtain e' m' c' res where r: "tks_exec now cmd (e, m, c) = ((e', m', c'), res)" by (metis prod.collapse)
  have "tks_ok (e', m', c')" using exec_ok [OF Cons.prems, of now cmd] r by simp
  from Cons.IH [OF this] exec_plan_step [OF Cons.prems r, of ref] show ?case using x r by simp
qed simp

lemma NewStore_ok: "tks_ok (NewStore NewMemory)"
proof -
  have "plan_ok NewMemory \<lparr>tc_plans = []\<rparr> ref zero_plan_state" for ref
    by (simp add: plan_ok_def tks_log_def plan_sane_def seqs_nat_def NewMemory_def zero_plan_state_def zero_plan_def plan_view_def)
  moreover have "events_inv (NewMemory :: tks_payload memory)"
    by (auto simp: events_inv_def NewMemory_def stored_def seq_recorded_def)
  ultimately show ?thesis by (auto simp: tks_ok_def NewStore_def)
qed

section \<open>Restart\<close>

text \<open>What a world leaves in the store.\<close>

definition tks_store_ok :: "tks_payload memory \<Rightarrow> bool" where
  "tks_store_ok m \<longleftrightarrow> events_inv m \<and> (\<forall>ref. \<exists>st c. plan_ok m c ref st)"

lemma tks_ok_store: "tks_ok (e, m, c) \<Longrightarrow> tks_store_ok m"
  unfolding tks_ok_def tks_store_ok_def prod.case by blast

lemma catch_up_rebuilds_plans:
  assumes inv: "events_inv m" and X: "\<And>ref. tks_log m ref = Inr (X ref)"
  shows "\<exists>e' c'. catch_up_loop mem_ops (Some tks_filter) (Some rebuildRun) M rs (e, m, c) = ((e', m, c'), None) \<and>
    (\<forall>ref. plans c' ref = (if planRunID ref \<in> set rs then plan_view (X ref) else plans c ref))"
proof (induction rs arbitrary: e c)
  case Nil
  then show ?case by simp
next
  case (Cons r rs)
  let ?q = "word_of_int (mget_or 0 (map_of M) r) :: 64 word"
  show ?case
  proof (cases "HasPrefix r runIDPrefix")
    case False
    then have "planRunID ref \<noteq> r" for ref by auto
    with Cons.IH [of "eng_SetApplied r ?q e" c] False show ?thesis
      by (simp add: tks_filter_cases Let_def)
  next
    case True
    then obtain ref where r: "r = planRunID ref" using prefixed_run by blast
    let ?e1 = "eng_SetApplied r (max_sequence (mem_evs m r) 0) (eng_RunLock r e)"
    obtain c1 where c1: "rebuildRun r (mem_evs m r) (eng_RunLock r e, m, c) = ((?e1, m, c1), None)"
      "plans c1 ref = plan_view (X ref)" "\<And>x. x \<noteq> ref \<Longrightarrow> plans c1 x = plans c x"
      using rebuildRun_mem [OF inv X, of ref "eng_RunLock r e" c] r by auto
    obtain e' c' where *: "catch_up_loop mem_ops (Some tks_filter) (Some rebuildRun) M rs
        (eng_SetApplied r ?q ?e1, m, c1) = ((e', m, c'), None)"
      "\<And>ref. plans c' ref = (if planRunID ref \<in> set rs then plan_view (X ref) else plans c1 ref)"
      using Cons.IH by blast
    have "plans c' x = (if planRunID x \<in> set (r # rs) then plan_view (X x) else plans c x)" for x
      using *(2) [of x] c1(2,3) r by (cases "x = ref") auto
    with * c1(1) True show ?thesis by (simp add: tks_filter_cases Let_def mem_Events_evs)
  qed
qed

lemma restart_board:
  assumes so: "tks_store_ok m"
  obtains e' c' where "tks_catchUp mem_ops (NewStore m) = ((e', m, c'), None)" "tks_ok (e', m, c')"
proof -
  have inv: "events_inv m" and each: "\<And>ref. \<exists>st c. plan_ok m c ref st" using so by (auto simp: tks_store_ok_def)
  then obtain X where X0: "\<And>ref. \<exists>c. plan_ok m c ref (X ref)" by metis
  then have X: "tks_log m ref = Inr (X ref)" "plan_sane ref (X ref)"
    "ev_ID ` set (mem_evs m (planRunID ref)) \<subseteq> taken_ids ref (X ref)" "seqs_nat m (planRunID ref)" for ref
    using X0 [of ref] by (auto simp: plan_ok_def)
  let ?e = "NewEngine [] False []" and ?c = "\<lparr>tc_plans = []\<rparr>"
  let ?M = "fst (mem_Changes 0 m)"
  let ?rs = "wm_CheckBehind ?M (en_watermarks ?e)"
  obtain e' c' where *: "catch_up_loop mem_ops (Some tks_filter) (Some rebuildRun) ?M ?rs (?e, m, ?c) = ((e', m, c'), None)"
    "\<And>ref. plans c' ref = (if planRunID ref \<in> set ?rs then plan_view (X ref) else plans ?c ref)"
    using catch_up_rebuilds_plans [OF inv X(1)] by blast
  have "plans c' ref = plan_view (X ref)" for ref
  proof (cases "mem_evs m (planRunID ref) = []")
    case True
    then have "X ref = zero_plan_state" using X(1) [of ref] by (simp add: tks_log_def)
    then show ?thesis using *(2) [of ref] by simp
  next
    case False
    then show ?thesis using *(2) [of ref] fresh_behind [OF inv X(4) False, of "[]" False "[]"] by simp
  qed
  then have "plan_ok m c' ref (X ref)" for ref using X by (simp add: plan_ok_def)
  then have ok: "tks_ok (e2, m, c')" for e2 using inv by (auto simp: tks_ok_def)
  have "\<exists>e2. tks_catchUp mem_ops (NewStore m) = ((e2, m, c'), None)"
    using * by (auto simp: tks_catchUp_def NewStore_def eng_CatchUp_def fresh_engine Let_def split: prod.splits)
  with ok that show thesis by blast
qed

text \<open>Two worlds over one store hold the same plans.\<close>

lemma same_plans:
  assumes "tks_ok (e, m, c)" "tks_ok (e', m, c')"
  shows "plans c ref = plans c' ref"
proof -
  obtain st st' where "plan_ok m c ref st" "plan_ok m c' ref st'" using assms by (auto simp: tks_ok_def) (metis)
  then show ?thesis by (auto simp: plan_ok_def)
qed

end
