(* ===== verification/Stk_Board.thy ===== *)
theory Stk_Board
  imports Stk_Laws Tks_Board
begin

text \<open>
  The stack driver on the plan and task ledger: the task operations are those of
  \<open>Tks_Store\<close> over the in-memory store, beside any engine and run ledger \<open>x\<close>, whose
  operations work on a state of their own.  The ledger keeps the contract \<open>stack_board\<close>.
\<close>

section \<open>The environment\<close>

definition lift_run :: "('r \<Rightarrow> 'r \<times> 'a) \<Rightarrow> 'b \<times> 'r \<Rightarrow> ('b \<times> 'r) \<times> 'a" where
  "lift_run f = (\<lambda>(b, r). case f r of (r1, x) \<Rightarrow> ((b, r1), x))"

definition lift_board :: "('b \<Rightarrow> 'b \<times> 'a) \<Rightarrow> 'b \<times> 'r \<Rightarrow> ('b \<times> 'r) \<times> 'a" where
  "lift_board f = (\<lambda>(b, r). case f b of (b1, x) \<Rightarrow> ((b1, r), x))"

definition lift_repo :: "'r repo \<Rightarrow> ('b \<times> 'r) repo" where
  "lift_repo p = \<lparr>
     rp_ClaimRun = (\<lambda>a b. lift_run (rp_ClaimRun p a b)),
     rp_ReleaseRun = (\<lambda>a b. lift_run (rp_ReleaseRun p a b)),
     rp_GetRun = (\<lambda>a. lift_run (rp_GetRun p a)),
     rp_CompareAndSetRunStatus = (\<lambda>a b c. lift_run (rp_CompareAndSetRunStatus p a b c)),
     rp_CreateStepAttempt = (\<lambda>a. lift_run (rp_CreateStepAttempt p a)),
     rp_GetStepAttempt = (\<lambda>a b. lift_run (rp_GetStepAttempt p a b)),
     rp_ListStepAttempts = (\<lambda>a. lift_run (rp_ListStepAttempts p a)),
     rp_CompleteStepAttempt = (\<lambda>a b c d. lift_run (rp_CompleteStepAttempt p a b c d)),
     rp_IncrementLoopCounter = (\<lambda>a b. lift_run (rp_IncrementLoopCounter p a b)),
     rp_GetLoopCounters = (\<lambda>a. lift_run (rp_GetLoopCounters p a)),
     rp_CreateApproval = (\<lambda>a. lift_run (rp_CreateApproval p a)),
     rp_ResolveApproval = (\<lambda>a b c d e. lift_run (rp_ResolveApproval p a b c d e)),
     rp_ListApprovals = (\<lambda>a. lift_run (rp_ListApprovals p a)),
     rp_StoreContent = (\<lambda>a b. lift_run (rp_StoreContent p a b)),
     rp_LoadContent = (\<lambda>a. lift_run (rp_LoadContent p a)),
     rp_CreateRun = (\<lambda>a b. lift_run (rp_CreateRun p a b)),
     rp_GetRunSnapshot = (\<lambda>a. lift_run (rp_GetRunSnapshot p a)),
     rp_RecordRunResumed = (\<lambda>a. lift_run (rp_RecordRunResumed p a)),
     rp_SetStepAttemptExecution = (\<lambda>a b c d e. lift_run (rp_SetStepAttemptExecution p a b c d e)),
     rp_CompareAndSetPanelPhase = (\<lambda>a b c d e. lift_run (rp_CompareAndSetPanelPhase p a b c d e))\<rparr>"

type_synonym board = "tks_payload memory tks_world"

text \<open>
  \<open>now\<close> is the clock of the process.  The order of a map is any permutation of its keys; a
  choice that is none stands for the order in which they are given.
\<close>

definition board_env :: "('r \<Rightarrow> time) \<Rightarrow> 'r stack_env \<Rightarrow> (board \<times> 'r) stack_env" where
  "board_env now x = \<lparr>
     sx_repo = lift_repo (sx_repo x),
     sx_ListRuns = lift_run (sx_ListRuns x),
     sx_ListDeliveries = (\<lambda>a. lift_run (sx_ListDeliveries x a)),
     sx_Start = (\<lambda>a. lift_run (sx_Start x a)),
     sx_Deliver = (\<lambda>a. lift_run (sx_Deliver x a)),
     sx_deliverPendingDirect = (\<lambda>a. lift_run (sx_deliverPendingDirect x a)),
     sx_hasPR = sx_hasPR x,
     sx_probe = (\<lambda>a. lift_run (sx_probe x a)),
     sx_hasStore = sx_hasStore x,
     sx_StorePlan = (\<lambda>plan (b, r). lift_board (StorePlan mem_ops mem_batch (now r) plan) (b, r)),
     sx_CreateTask = (\<lambda>t (b, r). lift_board (CreateTask mem_ops mem_batch (now r) t) (b, r)),
     sx_GetTask = (\<lambda>ref i. lift_board (GetTask mem_ops ref i)),
     sx_ListTasks = (\<lambda>scope. lift_board (ListTasksByScope mem_ops scope)),
     sx_Transition = (\<lambda>ref i s (b, r). lift_board (TransitionTask mem_ops mem_batch (now r) ref i s) (b, r)),
     sx_TransitionCAS = (\<lambda>ref i froms s (b, r). lift_board (TransitionTaskCAS mem_ops mem_batch (now r) ref i froms s) (b, r)),
     sx_CASDecide = (\<lambda>ref i froms reopen decide (b, r).
       lift_board (TransitionTaskCASDecide mem_ops mem_batch (now r) ref i froms reopen decide) (b, r)),
     sx_ctxDone = (\<lambda>(b, r). sx_ctxDone x r),
     sx_wait = (\<lambda>d. lift_run (sx_wait x d)),
     sx_order = (\<lambda>(b, r) ks. if mset (sx_order x r ks) = mset ks then sx_order x r ks else ks),
     sx_decodePlan = sx_decodePlan x,
     sx_chunkJSON = sx_chunkJSON x,
     sx_filesJSON = sx_filesJSON x,
     sx_snapshotInputs = sx_snapshotInputs x,
     sx_compile = sx_compile x\<rparr>"

section \<open>The chunks of a stack\<close>

definition plan_chunks :: "planState option \<Rightarrow> chunk_tasks" where
  "plan_chunks p i = (case p of None \<Rightarrow> None | Some st \<Rightarrow> map_of (ps_tasks st) i)"

definition board_chunks :: "string \<Rightarrow> board \<times> 'r \<Rightarrow> chunk_tasks" where
  "board_chunks s = (\<lambda>((e, m, c), r). plan_chunks (plans c s))"

text \<open>Tasks are kept under their identifiers, and only the stack has tasks in its scope.\<close>

definition own_scope :: "string \<Rightarrow> tks_client \<Rightarrow> bool" where
  "own_scope s c \<longleftrightarrow> (\<forall>ref i t. plan_chunks (plans c ref) i = Some t \<longrightarrow>
     tk_ID t = i \<and> (scopeMatches (tk_Scope t) (stackScope s) \<longrightarrow> ref = s))"

definition board_good :: "string \<Rightarrow> board \<times> 'r \<Rightarrow> bool" where
  "board_good s = (\<lambda>((e, m, c), r). tks_ok (e, m, c) \<and> own_scope s c)"

lemma own_scope_same: "(\<And>ref. plans c' ref = plans c ref) \<Longrightarrow> own_scope s c' = own_scope s c"
  by (simp add: own_scope_def)

lemma plan_chunks_moved:
  "map_of (ps_tasks st) i = Some t \<Longrightarrow>
     plan_chunks (Some (moved ref i src dst now t st)) = (plan_chunks (Some st))(i \<mapsto> t\<lparr>tk_Status := dst\<rparr>)"
  by (rule ext) (simp add: plan_chunks_def)

text \<open>A step of the board that moves a task.\<close>

lemma moved_board:
  assumes "own_scope s c" "plans c s = Some st" "map_of (ps_tasks st) i = Some t"
    and "\<forall>x. plans c' x = (if x = s then Some (moved s i src dst now t st) else plans c x)"
  shows "own_scope s c'" "plan_chunks (plans c' s) = (plan_chunks (plans c s))(i \<mapsto> t\<lparr>tk_Status := dst\<rparr>)"
proof -
  show eq: "plan_chunks (plans c' s) = (plan_chunks (plans c s))(i \<mapsto> t\<lparr>tk_Status := dst\<rparr>)"
    using assms(2,4) plan_chunks_moved [OF assms(3)] by simp
  have "plan_chunks (plans c s) i = Some t" using assms(2,3) by (simp add: plan_chunks_def)
  then have "tk_ID u = j \<and> (scopeMatches (tk_Scope u) (stackScope s) \<longrightarrow> ref = s)"
    if "plan_chunks (plans c' ref) j = Some u" for ref j u
    using that assms(1,4) eq unfolding own_scope_def by (cases "ref = s"; cases "j = i") auto
  then show "own_scope s c'" unfolding own_scope_def by blast
qed

section \<open>The contract\<close>

definition from_set :: "string list option \<Rightarrow> string set" where
  "from_set froms = (case froms of None \<Rightarrow> UNIV | Some l \<Rightarrow> set l)"

lemma status_among_from: "status_among froms t \<longleftrightarrow> tk_Status t \<in> from_set froms"
  by (simp add: status_among_def from_set_def split: option.splits)

text \<open>What a refined move does to the chunks.\<close>

definition chunk_result :: "string \<Rightarrow> tks_client \<Rightarrow> string \<Rightarrow> string set \<Rightarrow> string \<Rightarrow> board \<times> (tks_err + bool) \<Rightarrow> bool" where
  "chunk_result s c i froms status = (\<lambda>((e', m', c'), res). tks_ok (e', m', c') \<and> own_scope s c' \<and>
     (if res = Inr True then moved_to (plan_chunks (plans c s)) (plan_chunks (plans c' s)) i froms status
      else plan_chunks (plans c' s) = plan_chunks (plans c s)))"

lemma refused_result:
  assumes "own_scope s c" "tks_ok (e', m', c')" "\<And>ref. plans c' ref = plans c ref" "res \<noteq> Inr True"
  shows "chunk_result s c i froms status ((e', m', c'), res)"
  using assms own_scope_same [of c' c] by (simp add: chunk_result_def)

lemma move_result:
  assumes sc: "own_scope s c" and spec: "move_step now s i froms status (plans c s) = Inr (p, ok)"
    and w': "tks_ok (e', m', c')" "\<forall>x. plans c' x = (if x = s then p else plans c x)"
  shows "chunk_result s c i (from_set froms) status ((e', m', c'), Inr ok)"
proof (cases ok)
  case False
  then have "p = plans c s" using spec by (auto simp: move_step_def split: option.splits if_splits)
  then show ?thesis using False w' sc by (intro refused_result) auto
next
  case True
  then obtain st t where *: "plans c s = Some st" "map_of (ps_tasks st) i = Some t" "status_among froms t"
    "p = Some (moved s i (tk_Status t) status now t st)"
    using spec by (auto simp: move_step_def split: option.splits if_splits)
  have "\<forall>x. plans c' x = (if x = s then Some (moved s i (tk_Status t) status now t st) else plans c x)"
    using w'(2) *(4) by simp
  note mb = moved_board [OF sc *(1,2) this]
  have "plan_chunks (plans c s) i = Some t" using *(1,2) by (simp add: plan_chunks_def)
  then show ?thesis
    using mb True w'(1) *(3) by (auto simp: chunk_result_def moved_to_def status_among_from)
qed

lemma move_refined_result:
  assumes "own_scope s c" "refines_step (e, m, c) s (move_step now s i froms status (plans c s)) ((e', m', c'), res)"
  shows "chunk_result s c i (from_set froms) status ((e', m', c'), res)"
proof (cases res)
  case (Inl err)
  then show ?thesis using assms by (intro refused_result) (auto simp: refines_step_def same_board_def)
next
  case (Inr ok)
  with assms(2) obtain p where "move_step now s i froms status (plans c s) = Inr (p, ok)" "tks_ok (e', m', c')"
    "\<forall>x. plans c' x = (if x = s then p else plans c x)"
    by (auto simp: refines_step_def)
  then show ?thesis using move_result [OF assms(1)] Inr by blast
qed

lemma Transition_result:
  assumes ok: "tks_ok (e, m, c)" "own_scope s c" and run: "TransitionTask mem_ops mem_batch now s i status (e, m, c) = (w', res)"
  shows "chunk_result s c i UNIV status (w', map_sum id (\<lambda>_. True) res)"
proof -
  obtain w1 r where l: "transitionTaskLocked mem_ops mem_batch now s i None status (e, m, c) = (w1, r)" by fastforce
  have r: "w' = w1" "res = map_sum id (\<lambda>_. ()) r" using run l by (auto simp: TransitionTask_def split: sum.splits)
  obtain e1 m1 c1 where w1: "w1 = (e1, m1, c1)" by (cases w1)
  have ref: "refines_step (e, m, c) s (move_step now s i None status (plans c s)) ((e1, m1, c1), r)"
    using transitionTaskLocked_refines [OF ok(1), of s now i None status] l w1 by simp
  have "r = Inr True" if "r = Inr b" for b
    using ref that by (auto simp: refines_step_def move_step_def status_among_def split: option.splits if_splits)
  then have "map_sum id (\<lambda>_. True) res = r" using r(2) by (cases r) auto
  then show ?thesis using move_refined_result [OF ok(2) ref] r(1) w1 by (simp add: from_set_def)
qed

lemma CAS_result:
  assumes ok: "tks_ok (e, m, c)" "own_scope s c"
    and run: "TransitionTaskCAS mem_ops mem_batch now s i (Some froms) status (e, m, c) = (w', res)"
  shows "chunk_result s c i (set froms) status (w', res)"
proof -
  obtain e1 m1 c1 where w1: "w' = (e1, m1, c1)" by (cases w')
  have "refines_step (e, m, c) s (move_step now s i (Some froms) status (plans c s)) ((e1, m1, c1), res)"
    using transitionTaskLocked_refines [OF ok(1), of s now i "Some froms" status] run w1 by (simp add: TransitionTaskCAS_def)
  from move_refined_result [OF ok(2) this] show ?thesis using w1 by (simp add: from_set_def)
qed

lemma Decide_result:
  assumes ok: "tks_ok (e, m, c)" "own_scope s c"
    and run: "TransitionTaskCASDecide mem_ops mem_batch now s i (Some froms) reopen (\<lambda>n. Some (verdict n)) (e, m, c) = (w', res)"
  shows "\<exists>n. chunk_result s c i (set froms) (verdict n) (w', map_sum id fst res) \<and>
    (\<forall>st. plans c s = Some st \<longrightarrow> n = reopened_attempts i reopen st)"
proof -
  let ?n = "case plans c s of None \<Rightarrow> 0 | Some st \<Rightarrow> reopened_attempts i reopen st"
  let ?r = "map_sum id fst res"
  obtain e1 m1 c1 where w1: "w' = (e1, m1, c1)" by (cases w')
  have ref: "refines_step (e, m, c) s (board_step now (TcDecide s i (Some froms) reopen (\<lambda>n. Some (verdict n))) (plans c s))
      ((e1, m1, c1), ?r)"
    using exec_refines [OF ok(1), of "TcDecide s i (Some froms) reopen (\<lambda>n. Some (verdict n))" now] run w1 by simp
  have "chunk_result s c i (set froms) (verdict ?n) ((e1, m1, c1), ?r)"
  proof (cases ?r)
    case (Inl err)
    then show ?thesis using ref ok(2) by (intro refused_result) (auto simp: refines_step_def same_board_def)
  next
    case (Inr b)
    with ref obtain p where p: "board_step now (TcDecide s i (Some froms) reopen (\<lambda>n. Some (verdict n))) (plans c s) = Inr (p, b)"
      "tks_ok (e1, m1, c1)" "\<forall>x. plans c1 x = (if x = s then p else plans c x)"
      by (auto simp: refines_step_def)
    show ?thesis
    proof (cases b)
      case False
      then have "p = plans c s" using p(1) by (auto simp: move_step_def split: option.splits if_splits)
      then show ?thesis using False Inr p(2,3) ok(2) by (intro refused_result) auto
    next
      case True
      then have "move_step now s i (Some froms) (verdict ?n) (plans c s) = Inr (p, b)"
        using p(1) by (auto split: option.splits if_splits)
      from move_result [OF ok(2) this p(2,3)] show ?thesis using Inr by (simp add: from_set_def)
    qed
  qed
  then show ?thesis using w1 by (intro exI [of _ ?n]) auto
qed

lemma ListTasks_result:
  assumes ok: "tks_ok (e, m, c)" "own_scope s c" and run: "ListTasksByScope mem_ops (stackScope s) (e, m, c) = ((e', m', c'), res)"
  shows "tks_ok (e', m', c') \<and> (\<forall>ref. plans c' ref = plans c ref) \<and>
    (\<forall>ts t. res = Inr ts \<longrightarrow> t \<in> set ts \<longrightarrow> plan_chunks (plans c s) (tk_ID t) = Some t)"
proof -
  obtain e1 c1 where cu: "tks_catchUp mem_ops (e, m, c) = ((e1, m, c1), eng_CheckOpen e)"
    "same_board (e, m, c) (e1, m, c1)" "tks_ok (e1, m, c1)"
    using tks_catchUp_kept [OF ok(1)] by blast
  have same: "plans c1 ref = plans c ref" for ref using cu(2) by (simp add: same_board_def)
  have w': "(e', m', c') = (e1, m, c1)"
    using run cu(1) by (auto simp: ListTasksByScope_def stackScope_def ValidScopeType_def tks_read_def after_catchUp_def split: option.splits)
  have "plan_chunks (plans c s) (tk_ID t) = Some t" if res: "res = Inr ts" and t: "t \<in> set ts" for ts t
  proof -
    have "ts = filter (\<lambda>t. scopeMatches (tk_Scope t) (stackScope s))
        (concat (map (\<lambda>ref. tasks_in_order (the (plans c1 ref))) (sortedPlanRefs c1)))"
      using run cu(1) res
      by (auto simp: ListTasksByScope_def stackScope_def ValidScopeType_def tks_read_def after_catchUp_def split: option.splits)
    then obtain ref where ref: "scopeMatches (tk_Scope t) (stackScope s)" "ref \<in> set (sortedPlanRefs c1)"
      "t \<in> set (tasks_in_order (the (plans c1 ref)))"
      using t by auto
    obtain st where st: "plans c1 ref = Some st"
      using ref(2) by (auto simp: sortedPlanRefs_def) (metis map_of_eq_None_iff not_None_eq fst_conv image_eqI)
    obtain i u where "map_of (ps_tasks st) i = Some u" "t = u"
      using ref(3) st by (auto simp: tasks_in_order_def sortedTaskIDs_def)
        (metis map_of_eq_None_iff not_None_eq fst_conv image_eqI option.sel)
    then have "plan_chunks (plans c ref) i = Some t" using st same by (simp add: plan_chunks_def)
    then show ?thesis using ok(2) ref(1) unfolding own_scope_def by metis
  qed
  then show ?thesis using w' cu(3) same by auto
qed

lemma keeps_lift_run: "keeps (board_good s) (board_chunks s) (lift_run f)"
  by (auto simp: keeps_def lift_run_def board_good_def board_chunks_def split: prod.splits)

lemma chunk_result_good:
  assumes "chunk_result s c i froms status (b, res)"
  shows "board_good s (b, r) \<and> (if res = Inr True then moved_to (plan_chunks (plans c s)) (board_chunks s (b, r)) i froms status
    else board_chunks s (b, r) = plan_chunks (plans c s))"
  using assms by (cases b) (simp add: chunk_result_def board_good_def board_chunks_def)

lemma distinct_perm: "mset xs = mset ks \<Longrightarrow> distinct ks \<Longrightarrow> distinct xs"
  by (metis distinct_count_atmost_1 mset_eq_setD)

lemmas board_env_op = board_env_def lift_board_def

interpretation driver: stack_board "board_env now x" s "board_good s" "board_chunks s" for now x s
proof (unfold_locales, goal_cases)
  case (1 w w' res)
  obtain e m c r where w: "w = ((e, m, c), r)" by (metis prod.collapse)
  obtain e' m' c' where l: "ListTasksByScope mem_ops (stackScope s) (e, m, c) = ((e', m', c'), res)" "w' = ((e', m', c'), r)"
    using 1(2) w by (auto simp: board_env_op split: prod.splits)
  have g: "tks_ok (e, m, c)" "own_scope s c" using 1(1) w by (simp_all add: board_good_def)
  show ?case
    using ListTasks_result [OF g l(1)] own_scope_same [of c' c s] g(2) w l(2) by (simp add: board_good_def board_chunks_def)
next
  case (2 w i status w' res)
  obtain e m c r where w: "w = ((e, m, c), r)" by (metis prod.collapse)
  obtain b where l: "TransitionTask mem_ops mem_batch (now r) s i status (e, m, c) = (b, res)" "w' = (b, r)"
    using 2(2) w by (auto simp: board_env_op split: prod.splits)
  have g: "tks_ok (e, m, c)" "own_scope s c" using 2(1) w by (simp_all add: board_good_def)
  show ?case
    using chunk_result_good [OF Transition_result [OF g l(1)], of r] w l(2) by (cases res) (auto simp: board_chunks_def)
next
  case (3 w i froms status w' res)
  obtain e m c r where w: "w = ((e, m, c), r)" by (metis prod.collapse)
  obtain b where l: "TransitionTaskCAS mem_ops mem_batch (now r) s i (Some froms) status (e, m, c) = (b, res)" "w' = (b, r)"
    using 3(2) w by (auto simp: board_env_op split: prod.splits)
  have g: "tks_ok (e, m, c)" "own_scope s c" using 3(1) w by (simp_all add: board_good_def)
  have "board_chunks s w = plan_chunks (plans c s)" using w by (simp add: board_chunks_def)
  then show ?case
    using chunk_result_good [OF CAS_result [OF g l(1)], of r] l(2) by simp
next
  case (4 w i froms reopen verdict w' res)
  obtain e m c r where w: "w = ((e, m, c), r)" by (metis prod.collapse)
  obtain b where l: "TransitionTaskCASDecide mem_ops mem_batch (now r) s i (Some froms) reopen (\<lambda>n. Some (verdict n)) (e, m, c) = (b, res)"
      "w' = (b, r)"
    using 4(2) w by (auto simp: board_env_op split: prod.splits)
  have g: "tks_ok (e, m, c)" "own_scope s c" using 4(1) w by (simp_all add: board_good_def)
  obtain n where "chunk_result s c i (set froms) (verdict n) (b, map_sum id fst res)" using Decide_result [OF g l(1)] by blast
  moreover have "board_chunks s w = plan_chunks (plans c s)" using w by (simp add: board_chunks_def)
  ultimately have good: "board_good s w'"
    "if map_sum id fst res = Inr True then moved_to (board_chunks s w) (board_chunks s w') i (set froms) (verdict n)
     else board_chunks s w' = board_chunks s w"
    using chunk_result_good [of s c i "set froms" "verdict n" b "map_sum id fst res" r] l(2) by simp_all
  moreover have "map_sum id fst res = Inr True \<longleftrightarrow> (\<exists>want n. res = Inr (True, want, n))" by (cases res) auto
  ultimately show ?case by auto
next
  case (14 ks w)
  then show ?case using distinct_perm by (cases w) (auto simp: board_env_def)
qed (simp_all add: board_env_def lift_repo_def keeps_lift_run)

section \<open>Seeding\<close>

text \<open>Only planned chunks are added, and no chunk is changed.\<close>

definition seeded :: "chunk_tasks \<Rightarrow> chunk_tasks \<Rightarrow> bool" where
  "seeded T T' \<longleftrightarrow> (\<forall>i. T' i = T i \<or> (T i = None \<and> (\<exists>t. T' i = Some t \<and> tk_Status t = StatusPlanned)))"

lemma seeded_refl [simp]: "seeded T T"
  by (simp add: seeded_def)

lemma seeded_trans: "seeded T T1 \<Longrightarrow> seeded T1 T2 \<Longrightarrow> seeded T T2"
  unfolding seeded_def by (metis option.distinct(1))

lemma seeded_keeps: "seeded T T' \<Longrightarrow> T i = Some t \<Longrightarrow> T' i = Some t"
  unfolding seeded_def by (metis option.distinct(1))

lemma seeded_merged: "seeded T T' \<Longrightarrow> merged_in T i \<Longrightarrow> merged_in T' i"
  using seeded_keeps [of T T' i] by (cases "T i") (auto simp: merged_in_def)

lemma seeded_ordered:
  assumes "seeded T T'" "stack_ordered T"
  shows "stack_ordered T'"
proof -
  have "tk_Status t \<in> {StatusPlanned, StatusBlocked} \<or> (\<forall>d \<in> set (tk_Deps t). merged_in T' d)" if "T' i = Some t" for i t
  proof (cases "T i = Some t")
    case True
    then show ?thesis using assms(2) seeded_merged [OF assms(1)] unfolding stack_ordered_def by blast
  next
    case False
    then show ?thesis using assms(1) that unfolding seeded_def by (metis insertI1 option.inject)
  qed
  then show ?thesis by (simp add: stack_ordered_def)
qed

definition seeds :: "string \<Rightarrow> board \<times> 'r \<Rightarrow> board \<times> 'r \<Rightarrow> bool" where
  "seeds s w w' \<longleftrightarrow> (board_good s w \<longrightarrow> board_good s w' \<and> seeded (board_chunks s w) (board_chunks s w'))"

lemma seeds_trans: "seeds s w w1 \<Longrightarrow> seeds s w1 w2 \<Longrightarrow> seeds s w w2"
  by (auto simp: seeds_def intro: seeded_trans)

lemma seeds_refl [simp]: "seeds s w w"
  by (simp add: seeds_def)

text \<open>What a refined command does to the chunks of the stack it names.\<close>

lemma refined_chunks:
  assumes "refines_step (e, m, c) s spec ((e1, m1, c1), res)"
    and "\<And>p ok. spec = Inr (p, ok) \<Longrightarrow> Q (plan_chunks p)" "Q (plan_chunks (plans c s))"
  shows "tks_ok (e1, m1, c1)" "\<And>ref. ref \<noteq> s \<Longrightarrow> plans c1 ref = plans c ref" "Q (plan_chunks (plans c1 s))"
  using assms by (cases res; auto simp: refines_step_def same_board_def)+

lemma own_scope_added:
  assumes "own_scope s c" "\<And>ref. ref \<noteq> s \<Longrightarrow> plans c1 ref = plans c ref"
    and "plan_chunks (plans c1 s) = plan_chunks (plans c s) \<or>
      plan_chunks (plans c1 s) = (plan_chunks (plans c s))(tk_ID t \<mapsto> t)"
  shows "own_scope s c1"
proof -
  have "tk_ID u = j \<and> (scopeMatches (tk_Scope u) (stackScope s) \<longrightarrow> ref = s)"
    if u: "plan_chunks (plans c1 ref) j = Some u" for ref j u
  proof (cases "plan_chunks (plans c ref) j = Some u")
    case True
    then show ?thesis using assms(1) unfolding own_scope_def by blast
  next
    case False
    then have "ref = s" using u assms(2) by metis
    moreover have "tk_ID u = j" using u False assms(3) \<open>ref = s\<close> by (auto split: if_splits)
    ultimately show ?thesis by simp
  qed
  then show ?thesis by (simp add: own_scope_def)
qed

lemma StorePlan_seeds:
  assumes run: "sx_StorePlan (board_env now x) plan w = (w', res)" and s: "pl_ID plan = s"
  shows "seeds s w w'"
proof -
  obtain e m c r where w: "w = ((e, m, c), r)" by (metis prod.collapse)
  obtain b where l: "StorePlan mem_ops mem_batch (now r) plan (e, m, c) = (b, res)" "w' = (b, r)"
    using run w by (auto simp: board_env_op split: prod.splits)
  obtain e1 m1 c1 where b: "b = (e1, m1, c1)" by (cases b)
  have "board_good s w' \<and> board_chunks s w' = board_chunks s w" if g: "tks_ok (e, m, c)" "own_scope s c"
  proof -
    have ref: "refines_step (e, m, c) s (board_step (now r) (TcStorePlan plan) (plans c s)) ((e1, m1, c1), map_sum id (\<lambda>_. True) res)"
      using exec_refines [OF g(1), of "TcStorePlan plan" "now r"] l(1) s b by (simp add: as_done_def)
    have "plan_chunks p = plan_chunks (plans c s)" if "board_step (now r) (TcStorePlan plan) (plans c s) = Inr (p, ok)" for p ok
    proof (cases "plans c s")
      case None
      then show ?thesis using that by (auto simp: plan_chunks_def zero_plan_state_def split: if_splits)
    next
      case (Some st)
      then have "p = plans c s" using that by (simp split: if_splits)
      then show ?thesis by simp
    qed
    note rc = refined_chunks [OF ref, where Q = "\<lambda>T. T = plan_chunks (plans c s)", OF this refl]
    have "own_scope s c1" by (rule own_scope_added [OF g(2) rc(2) disjI1 [OF rc(3)]])
    then show ?thesis using rc(1,3) w l(2) b by (simp add: board_good_def board_chunks_def)
  qed
  then show ?thesis using w by (simp add: seeds_def board_good_def)
qed

lemma CreateTask_seeds:
  assumes run: "sx_CreateTask (board_env now x) (chunk_task s ch) w = (w', res)"
  shows "seeds s w w'"
proof -
  let ?t = "chunk_task s ch"
  have f: "tk_PlanRef ?t = s" "tk_ID ?t = cp_ID ch" "tk_Status ?t = StatusPlanned" by (simp_all add: chunk_task_def)
  obtain e m c r where w: "w = ((e, m, c), r)" by (metis prod.collapse)
  obtain b where l: "CreateTask mem_ops mem_batch (now r) ?t (e, m, c) = (b, res)" "w' = (b, r)"
    using run w by (auto simp: board_env_op split: prod.splits)
  obtain e1 m1 c1 where b: "b = (e1, m1, c1)" by (cases b)
  have "board_good s w' \<and> seeded (board_chunks s w) (board_chunks s w')" if g: "tks_ok (e, m, c)" "own_scope s c"
  proof -
    let ?T = "plan_chunks (plans c s)"
    let ?Q = "\<lambda>T. T = ?T \<or> (?T (tk_ID ?t) = None \<and> T = ?T(tk_ID ?t \<mapsto> ?t))"
    have ref: "refines_step (e, m, c) s (board_step (now r) (TcCreate ?t) (plans c s)) ((e1, m1, c1), map_sum id (\<lambda>_. True) res)"
      using exec_refines [OF g(1), of "TcCreate ?t" "now r"] l(1) f(1) b by (simp add: as_done_def)
    have "?Q (plan_chunks p)" if step: "board_step (now r) (TcCreate ?t) (plans c s) = Inr (p, ok)" for p ok
    proof (cases "plans c s")
      case None
      then show ?thesis using step by (simp split: if_splits)
    next
      case (Some st)
      then have "p = plans c s \<or> (map_of (ps_tasks st) (tk_ID ?t) = None \<and> p = Some (with_task ?t st))"
        using step by (auto split: if_splits option.splits)
      then show ?thesis using Some by (auto simp: plan_chunks_def with_task_def update_conv' fun_eq_iff)
    qed
    moreover have "?Q ?T" by simp
    ultimately have rc: "tks_ok (e1, m1, c1)" "\<And>ref. ref \<noteq> s \<Longrightarrow> plans c1 ref = plans c ref" "?Q (plan_chunks (plans c1 s))"
      using refined_chunks [OF ref, where Q = ?Q] by blast+
    note q = rc(3)
    have "own_scope s c1" by (rule own_scope_added [where t = ?t, OF g(2) rc(2)]) (use q in auto)
    moreover have "seeded ?T (plan_chunks (plans c1 s))" using q f(3) by (auto simp: seeded_def split: if_splits)
    ultimately show ?thesis using rc(1) w l(2) b by (simp add: board_good_def board_chunks_def)
  qed
  then show ?thesis using w by (simp add: seeds_def board_good_def)
qed

lemma GetTask_seeds:
  assumes run: "sx_GetTask (board_env now x) ref i w = (w', res)"
  shows "seeds s w w'"
proof -
  obtain e m c r where w: "w = ((e, m, c), r)" by (metis prod.collapse)
  obtain b where l: "GetTask mem_ops ref i (e, m, c) = (b, res)" "w' = (b, r)"
    using run w by (auto simp: board_env_op split: prod.splits)
  have "board_good s w' \<and> board_chunks s w' = board_chunks s w" if g: "tks_ok (e, m, c)" "own_scope s c"
  proof -
    obtain e1 c1 where cu: "tks_catchUp mem_ops (e, m, c) = ((e1, m, c1), eng_CheckOpen e)"
      "same_board (e, m, c) (e1, m, c1)" "tks_ok (e1, m, c1)"
      using tks_catchUp_kept [OF g(1)] by blast
    have "b = (e1, m, c1)"
      using l(1) cu(1) by (auto simp: GetTask_def tks_read_def after_catchUp_def split: option.splits)
    then show ?thesis
      using cu(2,3) own_scope_same [of c1 c s] g(2) w l(2) by (simp add: same_board_def board_good_def board_chunks_def)
  qed
  then show ?thesis using w by (simp add: seeds_def board_good_def)
qed

lemma seed_tasks_seeds: "seed_tasks (board_env now x) s cs w = (w', err) \<Longrightarrow> seeds s w w'"
proof (induction cs arbitrary: w)
  case (Cons c cs)
  let ?E = "board_env now x"
  obtain w1 r1 where g1: "sx_GetTask ?E s (cp_ID c) w = (w1, r1)" by fastforce
  obtain w2 r2 where cr: "sx_CreateTask ?E (chunk_task s c) w1 = (w2, r2)" by fastforce
  obtain w3 r3 where g3: "sx_GetTask ?E s (cp_ID c) w2 = (w3, r3)" by fastforce
  have w1: "seeds s w w1" by (rule GetTask_seeds [OF g1])
  have w2: "seeds s w w2" by (rule seeds_trans [OF w1 CreateTask_seeds [OF cr]])
  have w3: "seeds s w w3" by (rule seeds_trans [OF w2 GetTask_seeds [OF g3]])
  show ?case
    using Cons.prems g1 cr g3 Cons.IH seeds_trans [OF w1] seeds_trans [OF w2] seeds_trans [OF w3] w3
    by (auto split: sum.splits)
qed simp

lemma SeedStackLedger_seeds:
  assumes "SeedStackLedger (board_env now x) s cs w = (w', err)"
  shows "seeds s w w'"
proof -
  let ?plan = "\<lparr>pl_ID = s, pl_Scope = stackScope s, pl_Schema = PlanSchema, pl_PayloadRef = [], pl_CreatedAt = 0\<rparr>"
  obtain w1 r1 where sp: "sx_StorePlan (board_env now x) ?plan w = (w1, r1)" by fastforce
  have w1: "seeds s w w1" by (rule StorePlan_seeds [OF sp]) simp
  show ?thesis
    using assms sp w1 seeds_trans [OF w1 seed_tasks_seeds] by (cases r1) (auto simp: SeedStackLedger_def)
qed

section \<open>The whole drive\<close>

text \<open>Operations that leave the board alone altogether.\<close>

lemma lift_run_board: "lift_run f w = (w', x) \<Longrightarrow> fst w' = fst w"
  by (auto simp: lift_run_def split: prod.splits)

lemma repo_board:
  "rp_GetRun (sx_repo (board_env now x)) i w = (w1, y1) \<Longrightarrow> fst w1 = fst w"
  "rp_GetRunSnapshot (sx_repo (board_env now x)) i w = (w1, y2) \<Longrightarrow> fst w1 = fst w"
  "rp_ListStepAttempts (sx_repo (board_env now x)) i w = (w1, y3) \<Longrightarrow> fst w1 = fst w"
  "rp_LoadContent (sx_repo (board_env now x)) i w = (w1, y4) \<Longrightarrow> fst w1 = fst w"
  by (auto simp: board_env_def lift_repo_def dest: lift_run_board)

lemma isDerivedRun_board: "isDerivedRun (board_env now x) run w = (w1, y) \<Longrightarrow> fst w1 = fst w"
  by (auto simp: isDerivedRun_def split: option.splits prod.splits sum.splits dest: repo_board)

lemma compileStackPlanRun_board: "compileStackPlanRun (board_env now x) run w = (w1, y) \<Longrightarrow> fst w1 = fst w"
  by (auto simp: compileStackPlanRun_def split: prod.splits sum.splits dest: repo_board)

lemma LoadStackPlanOutput_board:
  assumes "LoadStackPlanOutput (board_env now x) i w = (w', y)"
  shows "fst w' = fst w"
proof -
  obtain w1 r1 where l: "rp_ListStepAttempts (sx_repo (board_env now x)) i w = (w1, r1)" by fastforce
  have "fst w2 = fst w" if "rp_LoadContent (sx_repo (board_env now x)) j w1 = (w2, r2)" for j w2 r2
    using repo_board(3) [OF l] repo_board(4) [OF that] by simp
  then show ?thesis
    using assms l repo_board(3) [OF l] by (auto simp: LoadStackPlanOutput_def split: sum.splits option.splits prod.splits)
qed

lemma PlanInputs_board: "PlanInputs (board_env now x) i w = (w1, y) \<Longrightarrow> fst w1 = fst w"
  by (auto simp: PlanInputs_def split: prod.splits sum.splits dest: repo_board)

lemma same_board_part: "fst w' = fst w \<Longrightarrow> board_good s w' = board_good s w \<and> board_chunks s w' = board_chunks s w"
  by (cases w; cases w') (simp add: board_good_def board_chunks_def split: prod.splits)

text \<open>A drive seeds its chunks, and then only moves them.\<close>

definition drives :: "chunk_tasks \<Rightarrow> chunk_tasks \<Rightarrow> bool" where
  "drives T T' \<longleftrightarrow> (\<exists>T1. seeded T T1 \<and> chunk_move\<^sup>*\<^sup>* T1 T')"

lemma drives_seeded: "seeded T T' \<Longrightarrow> drives T T'"
  by (auto simp: drives_def)

lemma drive_plan_drives:
  assumes g: "board_good s w" and run: "drive_plan fuel (board_env now x) run compiled s chunks hasMore w = Some w'"
  shows "drives (board_chunks s w) (board_chunks s w')"
proof -
  let ?E = "board_env now x"
  obtain w1 e1 where sd: "SeedStackLedger ?E s chunks w = (w1, e1)" by fastforce
  have w1: "board_good s w1" "seeded (board_chunks s w) (board_chunks s w1)"
    using SeedStackLedger_seeds [OF sd] g by (simp_all add: seeds_def)
  obtain w2 r2 where pin: "PlanInputs ?E s w1 = (w2, r2)" by fastforce
  have w2: "board_good s w2" "board_chunks s w2 = board_chunks s w1"
    using same_board_part [OF PlanInputs_board [OF pin], of s] w1(1) by simp_all
  have loop: "chunk_move\<^sup>*\<^sup>* (board_chunks s w2) (board_chunks s w')"
    if "driveStackLoop fuel ?E dv b w2 = Some w'" "dv_stackID dv = s" for dv b
    using driver.driveStackLoop_goes [OF that(2,1)] w2(1) unfolding driver.goes_def by blast
  have "w' \<in> {w, w1, w2} \<or> (\<exists>dv b. driveStackLoop fuel ?E dv b w2 = Some w' \<and> dv_stackID dv = s)"
    using run sd pin unfolding drive_plan_def
    by (auto split: if_splits option.splits sum.splits)
  then show ?thesis
  proof (elim disjE exE conjE)
    assume "w' \<in> {w, w1, w2}"
    then show ?thesis using w1(2) w2(2) by (intro drives_seeded) auto
  next
    fix dv b assume "driveStackLoop fuel ?E dv b w2 = Some w'" "dv_stackID dv = s"
    from loop [OF this] show ?thesis using w1(2) w2(2) by (auto simp: drives_def)
  qed
qed

lemma stackDriveAfterPark_drives:
  assumes g: "board_good s w" and run: "stackDriveAfterPark fuel (board_env now x) s w = Some w'"
  shows "drives (board_chunks s w) (board_chunks s w')"
proof -
  let ?E = "board_env now x"
  obtain w1 r1 where a1: "rp_GetRun (sx_repo ?E) s w = (w1, r1)" by fastforce
  obtain run where run1: "r1 = Inr run \<or> (\<exists>err. r1 = Inl err)" by (cases r1) auto
  obtain w2 r2 where a2: "isDerivedRun ?E run w1 = (w2, r2)" by fastforce
  obtain w3 r3 where a3: "compileStackPlanRun ?E run w2 = (w3, r3)" by fastforce
  obtain w4 r4 where a4: "LoadStackPlanOutput ?E s w3 = (w4, r4)" by fastforce
  note b = repo_board(1) [OF a1] isDerivedRun_board [OF a2] compileStackPlanRun_board [OF a3] LoadStackPlanOutput_board [OF a4]
  have "w' \<in> {w1, w2, w3, w4} \<or> (\<exists>compiled chunks hasMore. drive_plan fuel ?E run compiled s chunks hasMore w4 = Some w')"
    using run run1 a1 a2 a3 a4 unfolding stackDriveAfterPark_def
    by (auto split: if_splits option.splits sum.splits bool.splits)
  then show ?thesis
  proof (elim disjE exE)
    assume "w' \<in> {w1, w2, w3, w4}"
    then have "fst w' = fst w" using b by auto
    from same_board_part [OF this, of s] show ?thesis by (simp add: drives_seeded)
  next
    fix compiled chunks hasMore assume d: "drive_plan fuel ?E run compiled s chunks hasMore w4 = Some w'"
    have "fst w4 = fst w" using b by simp
    from same_board_part [OF this, of s] drive_plan_drives [OF _ d] g show ?thesis by simp
  qed
qed

end
