(* ===== verification/Tks_Properties.thy ===== *)
theory Tks_Properties
  imports Tks_Board "HOL-Library.Sublist"
begin

text \<open>
  The properties of the plan and task ledger: it refines the board, its journal tells the
  status of every task, it survives a restart, and of two processes that move a task from the
  same state one writes.
\<close>

section \<open>Worlds\<close>

text \<open>
  A command of this process, an operation of another client of the shared store on other runs,
  or a new process that starts on the same store and catches up.
\<close>

inductive tks_world_step :: "tks_payload memory tks_world \<Rightarrow> tks_payload memory tks_world \<Rightarrow> bool" where
  exec: "tks_exec now cmd w = (w', res) \<Longrightarrow> tks_world_step w w'"
| store: "(\<forall>ref. mem_evs (mem_step op m) (planRunID ref) = mem_evs m (planRunID ref)) \<Longrightarrow>
    tks_world_step (e, m, c) (e, mem_step op m, c)"
| reopen: "tks_catchUp mem_ops (NewStore m) = (w', err) \<Longrightarrow> tks_world_step (e, m, c) w'"

lemma restart_same:
  assumes "tks_ok (e, m, c)" "tks_catchUp mem_ops (NewStore m) = ((e', m', c'), err)"
  shows "err = None" "m' = m" "tks_ok (e', m', c')" "plans c' = plans c"
proof -
  obtain e2 c2 where *: "tks_catchUp mem_ops (NewStore m) = ((e2, m, c2), None)" "tks_ok (e2, m, c2)"
    using restart_board [OF tks_ok_store [OF assms(1)]] by blast
  then show "err = None" "m' = m" and ok: "tks_ok (e', m', c')" using assms(2) by simp_all
  show "plans c' = plans c"
    by (rule ext) (use same_plans [OF ok [unfolded \<open>m' = m\<close>] assms(1)] in simp)
qed

lemma world_step_ok:
  assumes "tks_ok w" "tks_world_step w w'"
  shows "tks_ok w'"
  using assms(2,1)
proof cases
  case (exec now cmd res)
  then show ?thesis using exec_ok [OF assms(1), of now cmd] by simp
next
  case (store op m e c)
  then have "plan_ok (mem_step op m) c ref = plan_ok m c ref" for ref
    by (intro ext plan_ok_same) simp_all
  then show ?thesis using assms(1) store events_inv_step [of m op] by (simp add: tks_ok_def)
next
  case (reopen m err e c)
  obtain e' m' c' where "w' = (e', m', c')" by (cases w')
  with reopen restart_same(3) assms(1) show ?thesis by blast
qed

lemma world_step_plan:
  assumes "tks_ok w" "tks_world_step w w'"
  shows "plan_step\<^sup>*\<^sup>* (plans (snd (snd w)) ref) (plans (snd (snd w')) ref)"
  using assms(2,1)
proof cases
  case (exec now cmd res)
  then show ?thesis using exec_plan_step [of "fst w" "fst (snd w)" "snd (snd w)" now cmd] assms(1) by (cases w; cases w') simp
next
  case (reopen m err e c)
  obtain e' m' c' where "w' = (e', m', c')" by (cases w')
  with reopen restart_same(4) [of e m c e' m' c' err] assms(1) show ?thesis by simp
qed simp

interpretation board: simulation tks_world_step tks_ok "\<lambda>w. plans (snd (snd w)) ref" plan_step for ref
  by unfold_locales (use world_step_ok world_step_plan in blast)+

abbreviation tks_reachable :: "tks_payload memory tks_world \<Rightarrow> bool" where
  "tks_reachable w \<equiv> tks_world_step\<^sup>*\<^sup>* (NewStore NewMemory) w"

lemma tks_reachable_ok: "tks_reachable w \<Longrightarrow> tks_ok w"
  using board.inv_steps NewStore_ok by blast

section \<open>The journal of a task\<close>

definition entries :: "string \<Rightarrow> planState \<Rightarrow> TaskTransition list" where
  "entries i st = filter (\<lambda>tr. tt_TaskID tr = i) (ps_journal st)"

definition journal_tells :: "planState \<Rightarrow> bool" where
  "journal_tells st \<longleftrightarrow>
     (\<forall>tr \<in> set (ps_journal st). map_of (ps_tasks st) (tt_TaskID tr) \<noteq> None) \<and>
     (\<forall>i task. map_of (ps_tasks st) i = Some task \<longrightarrow>
        successively (\<lambda>a b. tt_ToStatus a = tt_FromStatus b) (entries i st) \<and>
        (entries i st = [] \<or> tt_ToStatus (last (entries i st)) = tk_Status task))"

lemma entries_moved:
  "entries j (moved ref i src dst now task st) = entries j st @
     (if j = i then [\<lparr>tt_PlanRef = ref, tt_TaskID = i, tt_FromStatus = src, tt_ToStatus = dst, tt_At = now\<rparr>] else [])"
  by (simp add: entries_def moved_def)

lemma journal_tells_moved:
  assumes "journal_tells st" "map_of (ps_tasks st) i = Some task"
  shows "journal_tells (moved ref i (tk_Status task) dst now task st)"
  using assms unfolding journal_tells_def
  by (auto simp: entries_moved successively_append_iff) (auto simp: moved_def update_conv')

lemma journal_tells_with:
  assumes "journal_tells st" "map_of (ps_tasks st) (tk_ID task) = None"
  shows "journal_tells (with_task task st)"
proof -
  have "entries (tk_ID task) st = []" using assms by (auto simp: journal_tells_def entries_def filter_empty_conv)
  then show ?thesis
    using assms by (auto simp: journal_tells_def with_task_def entries_def update_conv')
qed

definition plan_grows :: "planState option \<Rightarrow> planState option \<Rightarrow> bool" where
  "plan_grows p p' \<longleftrightarrow> (case p of None \<Rightarrow> True | Some st \<Rightarrow>
     (\<exists>st'. p' = Some st' \<and> prefix (ps_journal st) (ps_journal st') \<and>
       dom (map_of (ps_tasks st)) \<subseteq> dom (map_of (ps_tasks st'))))"

lemma plan_grows_refl [simp]: "plan_grows p p"
  by (simp add: plan_grows_def split: option.splits)

lemma plan_growsI:
  "prefix (ps_journal st) (ps_journal st') \<Longrightarrow> dom (map_of (ps_tasks st)) \<subseteq> dom (map_of (ps_tasks st')) \<Longrightarrow>
     plan_grows (Some st) (Some st')"
  by (simp add: plan_grows_def)

lemma plan_growsE:
  assumes "plan_grows (Some st) p'"
  obtains st' where "p' = Some st'" "prefix (ps_journal st) (ps_journal st')"
    "dom (map_of (ps_tasks st)) \<subseteq> dom (map_of (ps_tasks st'))"
  using assms unfolding plan_grows_def option.case by (elim exE conjE)

lemma plan_grows_trans:
  assumes "plan_grows p q" "plan_grows q r"
  shows "plan_grows p r"
proof (cases p)
  case (Some st)
  with assms(1) obtain st1 where 1: "q = Some st1" "prefix (ps_journal st) (ps_journal st1)"
    "dom (map_of (ps_tasks st)) \<subseteq> dom (map_of (ps_tasks st1))" by (auto elim: plan_growsE)
  with assms(2) obtain st2 where 2: "r = Some st2" "prefix (ps_journal st1) (ps_journal st2)"
    "dom (map_of (ps_tasks st1)) \<subseteq> dom (map_of (ps_tasks st2))" by (auto elim: plan_growsE)
  show ?thesis
    unfolding Some 2(1) by (intro plan_growsI prefix_order.trans [OF 1(2) 2(2)] subset_trans [OF 1(3) 2(3)])
qed (simp add: plan_grows_def)

lemma move_step_cases:
  assumes "move_step now ref i fromStatuses status p = Inr (p', ok)"
  obtains "p' = p" | st task where "p = Some st" "map_of (ps_tasks st) i = Some task"
    "p' = Some (moved ref i (tk_Status task) status now task st)"
  using assms by (auto simp: move_step_def split: if_splits option.splits)

lemma board_step_cases:
  assumes "board_step now cmd p = Inr (p', ok)"
  obtains "p' = p"
  | st ref i task dst where "p = Some st" "map_of (ps_tasks st) i = Some task"
    "p' = Some (moved ref i (tk_Status task) dst now task st)"
  | st task where "p = Some st" "map_of (ps_tasks st) (tk_ID task) = None" "p' = Some (with_task task st)"
  | st scope where "p = Some st" "p' = Some (bound scope st)"
  | plan where "p = None" "p' = Some (zero_plan_state\<lparr>ps_plan := plan\<rparr>)"
  using assms by (cases cmd) (auto split: if_splits option.splits elim: move_step_cases)

lemma plan_step_tells:
  assumes "\<forall>st. p = Some st \<longrightarrow> journal_tells st" "plan_step p p'"
  shows "\<forall>st. p' = Some st \<longrightarrow> journal_tells st"
  using assms(2)
proof cases
  case (1 now cmd ok)
  from 1(1) show ?thesis
  proof (cases rule: board_step_cases)
    case (2 st ref i task dst)
    then show ?thesis using journal_tells_moved assms(1) by blast
  next
    case (3 st task)
    then show ?thesis using journal_tells_with assms(1) by blast
  qed (use assms(1) in \<open>auto simp: journal_tells_def bound_def entries_def zero_plan_state_def\<close>)
qed

lemma plan_step_grows: "plan_step p p' \<Longrightarrow> plan_grows p p'"
proof (induction rule: plan_step.induct)
  case (1 now cmd p p' ok)
  then show ?case
    by (cases rule: board_step_cases)
      (auto simp: plan_grows_def moved_def with_task_def bound_def update_conv' split: option.splits)
qed

lemma plan_steps_grow: "plan_step\<^sup>*\<^sup>* p p' \<Longrightarrow> plan_grows p p'"
  by (induction rule: rtranclp_induct) (auto intro: plan_grows_trans plan_step_grows)

section \<open>Two processes\<close>

lemma find_append_last: "find P xs = None \<Longrightarrow> P y \<Longrightarrow> find P (xs @ [y]) = Some y"
  by (induction xs) (auto split: if_splits)

text \<open>
  The second of two processes that caught up to the same store: the ordinal of its move is
  taken, so it writes nothing, and it holds the plan the first one stored.
\<close>

lemma second_mover:
  assumes A: "tks_ok (e1, m, c1)" and B: "tks_ok (e2, m, c2)"
    and st: "plans c2 ref = Some st" and task: "map_of (ps_tasks st) i = Some task"
    and s: "status1 \<noteq> []"
    and run1: "transition_body mem_ops mem_batch now1 ref i from1 status1 (e1, m, c1) = ((e1', m', c1'), Inr True)"
    and run2: "transition_body mem_ops mem_batch now2 ref i from2 status2 (e2, m', c2) = ((e2', m'', c2'), res)"
  shows "m'' = m'"
    "status_among from2 task \<Longrightarrow> plans c2' ref = plans c1' ref"
    "res = Inr True \<longleftrightarrow> status_among from2 task \<and> now2 = now1 \<and> status2 = status1"
proof -
  have st1: "plans c1 ref = Some st" using same_plans [OF A B] st by simp
  obtain x where "plan_ok m c1 ref x" using A by (auto simp: tks_ok_def)
  with plan_ok_cached [OF this st1] have ok1: "plan_ok m c1 ref st" "pl_ID (ps_plan st) = ref" "ref \<noteq> []" by auto
  have among: "status_among from1 task" using run1 st1 task by (auto simp: transition_body_def split: if_splits)
  let ?id = "tks_eventID ref eventKindTaskTransitioned [i, Itoa (transitions_of i st + 1)]"
  let ?new = "moved ref i (tk_Status task) status1 now1 task st"
  let ?p1 = "TTaskTransitioned i (tk_Status task) status1 now1"
  obtain err where w1: "marshalAndAppend mem_ops mem_batch (planRunID ref) ?id eventKindTaskTransitioned
      (tks_marshal [now1] ?p1) (e1, m, put_plan ref ?new c1) = ((e1', m', c1'), err)" "err = None"
    using run1 st1 task among by (auto simp: transition_body_def or_error_def split: prod.splits option.splits)
  note mw = move_written(1) [OF A ok1 task]
    move_written(2-5) [OF A ok1 task, where now = now1 and status = status1]
  note r1 = marshalAndAppend_board [OF A ok1(1) mw w1(1)]
  have ok': "tks_ok (e1', m', c1')" and new: "plans c1' ref = Some ?new" using r1(1,2) w1(2) by auto
  obtain ev where ev: "mem_evs m' (planRunID ref) = mem_evs m (planRunID ref) @ [ev]" "ev_ID ev = ?id" "ev_Payload ev = [?p1]"
    and json: "json_time now1" using r1(3) w1(2) by auto
  obtain st' where st': "plan_ok m' c1' ref st'" using ok' by (auto simp: tks_ok_def)
  have inv: "events_inv m'" using ok' by (simp add: tks_ok_def)
  have log: "tks_log m' ref = Inr st'" "plan_view st' = Some ?new" using st' new by (auto simp: plan_ok_def)
  have rebuilt: "\<exists>e3 c3. rebuildRunFromStore mem_ops (planRunID ref) (e, m', c) = ((e3, m', c3), None) \<and> plans c3 ref = Some ?new" for e c
    by (rule rebuildRun_mem [OF inv log(1), of e c]) (simp add: rebuildRunFromStore_def mem_Events_evs log(2))
  have dup: "ev_ID ev \<in> m_ids m'"
    using events_invD(4) [OF inv] ev(1) by (auto simp: stored_def intro!: exI [of _ ev] exI [of _ "planRunID ref"])
  have fnd: "find (\<lambda>x. ev_ID x = ?id) (mem_evs m' (planRunID ref)) = Some ev"
  proof -
    have "find (\<lambda>x. ev_ID x = ?id) (mem_evs m (planRunID ref)) = None"
      using mw(1) ok1(1) by (auto simp: find_None_iff plan_ok_def)
    then show ?thesis using ev(1,2) by (simp add: find_append_last)
  qed
  have "m'' = m' \<and> (status_among from2 task \<longrightarrow> plans c2' ref = plans c1' ref) \<and>
    (res = Inr True \<longleftrightarrow> status_among from2 task \<and> now2 = now1 \<and> status2 = status1)"
  proof (cases "status_among from2 task")
    case False
    then show ?thesis using run2 st task by (auto simp: transition_body_def)
  next
    case True
    let ?c2 = "put_plan ref (moved ref i (tk_Status task) status2 now2 task st) c2"
    let ?p2 = "TTaskTransitioned i (tk_Status task) status2 now2"
    obtain err2 where w2: "marshalAndAppend mem_ops mem_batch (planRunID ref) ?id eventKindTaskTransitioned
      (tks_marshal [now2] ?p2) (e2, m', ?c2) = ((e2', m'', c2'), err2)" "res = (case err2 of None \<Rightarrow> Inr True | Some x \<Rightarrow> Inl x)"
      using run2 st task True by (auto simp: transition_body_def or_error_def split: prod.splits)
    show ?thesis
    proof (cases "json_time now2")
      case False
      obtain e3 c3 where r3: "rebuildRunFromStore mem_ops (planRunID ref) (e2, m', ?c2) = ((e3, m', c3), None)" "plans c3 ref = Some ?new"
        using rebuilt by blast
      have "(e2', m'', c2') = (e3, m', c3) \<and> err2 \<noteq> None"
        using w2(1) False r3(1) by (auto simp: marshalAndAppend_def tks_marshal_def)
      then show ?thesis using w2(2) r3(2) new True False json by auto
    next
      case jt: True
      obtain e4 q where q: "eng_NextSequence (planRunID ref) e2 = (e4, q)" by (cases "eng_NextSequence (planRunID ref) e2")
      obtain e3 c3 where r3: "rebuildRunFromStore mem_ops (planRunID ref) (e4, m', ?c2) = ((e3, m', c3), None)" "plans c3 ref = Some ?new"
        using rebuilt by blast
      let ?evt = "\<lparr>ev_ID = ?id, ev_RunID = planRunID ref, ev_Sequence = sint q, ev_Kind = eventKindTaskTransitioned,
          ev_Payload = [?p2], ev_RowID = 0\<rparr>"
      have "mem_AppendBatch [?evt] m' = (m', Some ErrDuplicate)"
        using dup ev(2) by (simp add: mem_AppendBatch_def appendBatchLocked_def)
      then have "marshalAndAppend mem_ops mem_batch (planRunID ref) ?id eventKindTaskTransitioned
          (tks_marshal [now2] ?p2) (e2, m', ?c2) = ((e3, m', c3), if ev_Payload ev = [?p2] then None else Some ErrTaskConflict)"
        using jt r3(1) fnd by (simp add: marshalAndAppend_def tks_marshal_def q tks_appendEvent_def mem_Events_evs)
      with w2(1) have "(e2', m'', c2') = (e3, m', c3)" "err2 = (if ev_Payload ev = [?p2] then None else Some ErrTaskConflict)"
        by simp_all
      then show ?thesis using w2(2) r3(2) new True ev(3) by auto
    qed
  qed
  then show "m'' = m'" "status_among from2 task \<Longrightarrow> plans c2' ref = plans c1' ref"
    "res = Inr True \<longleftrightarrow> status_among from2 task \<and> now2 = now1 \<and> status2 = status1" by blast+
qed

section \<open>A small board\<close>

definition small_plan :: Plan where
  "small_plan = \<lparr>pl_ID = ''p'', pl_Scope = \<lparr>sc_Type = ''run'', sc_ID = ''p''\<rparr>, pl_Schema = [], pl_PayloadRef = [], pl_CreatedAt = 0\<rparr>"

definition small_task :: Task where
  "small_task = \<lparr>tk_ID = ''t'', tk_PlanRef = ''p'', tk_Scope = \<lparr>sc_Type = ''run'', sc_ID = ''p''\<rparr>, tk_Status = ''planned'',
     tk_RunRef = [], tk_PRNumber = [], tk_Deps = [], tk_Attempts = 0, tk_LastError = []\<rparr>"

definition small_board :: "tks_payload memory tks_world" where
  "small_board = tks_run [(1, TcStorePlan small_plan), (2, TcCreate small_task)] (NewStore NewMemory)"

lemma run_reachable: "tks_world_step\<^sup>*\<^sup>* w (tks_run cmds w)"
proof (induction cmds w rule: tks_run.induct)
  case (2 now cmd cmds w)
  obtain w' res where r: "tks_exec now cmd w = (w', res)" by (cases "tks_exec now cmd w")
  have "tks_world_step w w'" using r by (rule tks_world_step.exec)
  then show ?case using 2 r by (simp add: converse_rtranclp_into_rtranclp)
qed simp

lemma small_board_reachable: "tks_reachable small_board"
  unfolding small_board_def by (rule run_reachable)

lemma small_board_plan: "plans (snd (snd small_board)) ''p'' =
    Some \<lparr>ps_plan = small_plan, ps_tasks = [(''t'', small_task)], ps_journal = [], ps_binds = 0\<rparr>"
  by code_simp

section \<open>Properties\<close>

text \<open>
  C30. Every command of the plan and task ledger does exactly one step of the abstract board to the plan it names,
  or reports an error and leaves the store and every plan as they were.
\<close>

theorem board_commands_refine:
  assumes "tks_reachable (e, m, c)" "tks_exec now cmd (e, m, c) = ((e', m', c'), res)"
  shows "(case res of
       Inl err \<Rightarrow> m' = m \<and> plans c' = plans c \<and>
         (board_step now cmd (plans c (cmd_plan cmd)) = Inl err \<or> append_error err)
     | Inr ok \<Rightarrow> (\<exists>p. board_step now cmd (plans c (cmd_plan cmd)) = Inr (p, ok) \<and>
         plans c' = (plans c)(cmd_plan cmd := p))) \<and>
    (\<exists>st. tks_log m' ref = Inr st \<and> plans c' ref = plan_view st)"
proof -
  have ok: "tks_ok (e, m, c)" using tks_reachable_ok [OF assms(1)] .
  have r: "refines_step (e, m, c) (cmd_plan cmd) (board_step now cmd (plans c (cmd_plan cmd))) ((e', m', c'), res)"
    using exec_refines [OF ok, of cmd now] assms(2) by simp
  then have ok': "tks_ok (e', m', c')" by (simp add: refines_step_def)
  then obtain st where "plan_ok m' c' ref st" by (auto simp: tks_ok_def)
  then have "\<exists>st. tks_log m' ref = Inr st \<and> plans c' ref = plan_view st" by (auto simp: plan_ok_def)
  then show ?thesis using r by (cases res) (auto simp: refines_step_def same_board_def fun_eq_iff)
qed

theorem board_commands_refine_witness:
  "\<exists>e' m' c' p. tks_exec 3 (TcMove ''p'' ''t'' (Some [''planned'']) ''running'') small_board = ((e', m', c'), Inr True) \<and>
     board_step 3 (TcMove ''p'' ''t'' (Some [''planned'']) ''running'') (plans (snd (snd small_board)) ''p'') = Inr (p, True) \<and>
     plans c' ''p'' = p"
proof -
  let ?cmd = "TcMove ''p'' ''t'' (Some [''planned'']) ''running''"
  obtain e m c where b: "small_board = (e, m, c)" by (cases small_board)
  have t: "snd (tks_exec 3 ?cmd small_board) = Inr True" by code_simp
  then obtain e' m' c' where r: "tks_exec 3 ?cmd small_board = ((e', m', c'), Inr True)"
    by (metis prod.collapse)
  have "tks_reachable (e, m, c)" using small_board_reachable unfolding b .
  from board_commands_refine [OF this r [unfolded b], of "''p''"]
  obtain p where "board_step 3 ?cmd (plans c ''p'') = Inr (p, True)" "plans c' = (plans c)(''p'' := p)"
    by auto
  then show ?thesis using r unfolding b by simp
qed

text \<open>
  C31. The journal of a plan tells the status of every task: its entries chain from each status
  to the next and end in the current one; and a plan, its tasks and its journal entries are never lost,
  over every sequence of commands, restarts and foreign writes.
\<close>

theorem journal_tells_every_status:
  assumes "tks_reachable w" "tks_world_step\<^sup>*\<^sup>* w w'" "plans (snd (snd w)) ref = Some st"
  shows "\<exists>st'. plans (snd (snd w')) ref = Some st' \<and> prefix (ps_journal st) (ps_journal st') \<and>
    dom (map_of (ps_tasks st)) \<subseteq> dom (map_of (ps_tasks st')) \<and> journal_tells st'"
proof -
  have "plan_grows (plans (snd (snd w)) ref) (plans (snd (snd w')) ref)"
    using board.sim_steps [OF assms(2) tks_reachable_ok [OF assms(1)]] plan_steps_grow by blast
  moreover have "\<forall>st. plans (snd (snd w')) ref = Some st \<longrightarrow> journal_tells st"
  proof (rule board.preserved [where P = "\<lambda>p. \<forall>st. p = Some st \<longrightarrow> journal_tells st"])
    show "tks_world_step\<^sup>*\<^sup>* (NewStore NewMemory) w'" using assms(1,2) by simp
    show "\<forall>st. plans (snd (snd (NewStore NewMemory :: tks_payload memory tks_world))) ref = Some st \<longrightarrow> journal_tells st"
      by (simp add: NewStore_def)
  qed (use NewStore_ok plan_step_tells in blast)+
  ultimately show ?thesis using assms(3) by (auto elim: plan_growsE)
qed

theorem journal_tells_every_status_witness:
  "\<exists>st'. plans (snd (snd (tks_run [(3, TcMove ''p'' ''t'' None ''running'')] small_board))) ''p'' = Some st' \<and> journal_tells st'"
  using journal_tells_every_status [OF small_board_reachable run_reachable small_board_plan,
      of "[(3, TcMove ''p'' ''t'' None ''running'')]"] by auto

text \<open>
  C32. Of two processes that move a task from the same caught-up state, the second writes nothing
  and adopts the plan of the first; it reports success exactly when its move is admissible and
  carries the same status and the same clock reading as the first.
\<close>

theorem one_mover_per_ordinal:
  assumes "tks_reachable (e1, m, c1)" "tks_reachable (e2, m, c2)"
    "plans c2 ref = Some st" "map_of (ps_tasks st) i = Some task" "status1 \<noteq> []"
    "transition_body mem_ops mem_batch now1 ref i from1 status1 (e1, m, c1) = ((e1', m', c1'), Inr True)"
    "transition_body mem_ops mem_batch now2 ref i from2 status2 (e2, m', c2) = ((e2', m'', c2'), res)"
  shows "m'' = m' \<and> (\<not> status_among from2 task \<or> plans c2' ref = plans c1' ref) \<and>
    (res = Inr True \<longleftrightarrow> status_among from2 task \<and> now2 = now1 \<and> status2 = status1)"
  using second_mover [OF tks_reachable_ok [OF assms(1)] tks_reachable_ok [OF assms(2)] assms(3-7)] by blast

theorem one_mover_per_ordinal_witness:
  "\<exists>e m c e' m' c' e2 m2 c2 res e3 m3 c3.
     transition_body mem_ops mem_batch 5 ''p'' ''t'' (Some [''planned'']) ''running'' (e, m, c) = ((e', m', c'), Inr True) \<and>
     transition_body mem_ops mem_batch 6 ''p'' ''t'' (Some [''planned'']) ''running'' (e, m', c) = ((e2, m2, c2), res) \<and>
     res \<noteq> Inr True \<and> m2 = m' \<and>
     transition_body mem_ops mem_batch 5 ''p'' ''t'' (Some [''planned'']) ''running'' (e, m', c) = ((e3, m3, c3), Inr True) \<and> m3 = m'"
proof -
  let ?move = "\<lambda>now. transition_body mem_ops mem_batch now ''p'' ''t'' (Some [''planned'']) ''running''"
  obtain e m c where b: "small_board = (e, m, c)" by (cases small_board)
  have "snd (?move 5 small_board) = Inr True" by code_simp
  then obtain e' m' c' where r1: "?move 5 (e, m, c) = ((e', m', c'), Inr True)"
    unfolding b by (metis prod.collapse)
  obtain e2 m2 c2 res where r2: "?move 6 (e, m', c) = ((e2, m2, c2), res)" by (metis prod.collapse)
  obtain e3 m3 c3 res3 where r3: "?move 5 (e, m', c) = ((e3, m3, c3), res3)" by (metis prod.collapse)
  have reach: "tks_reachable (e, m, c)" using small_board_reachable unfolding b .
  have pl: "plans c ''p'' = Some \<lparr>ps_plan = small_plan, ps_tasks = [(''t'', small_task)], ps_journal = [], ps_binds = 0\<rparr>"
    using small_board_plan unfolding b by simp
  have tk: "map_of (ps_tasks \<lparr>ps_plan = small_plan, ps_tasks = [(''t'', small_task)], ps_journal = [], ps_binds = 0\<rparr>) ''t'' =
      Some small_task" by simp
  have among: "status_among (Some [''planned'']) small_task" by (simp add: status_among_def small_task_def)
  note both = one_mover_per_ordinal [OF reach reach pl tk _ r1]
  have "res \<noteq> Inr True" "m2 = m'" "res3 = Inr True" "m3 = m'" using both [OF _ r2] both [OF _ r3] among by auto
  with r1 r2 r3 show ?thesis by blast
qed

text \<open>
  C33. A new process over the store another process left behind comes up without error and holds
  exactly the plans the old process held.
\<close>

theorem board_survives_restart:
  assumes "tks_reachable (e, m, c)" "tks_catchUp mem_ops (NewStore m) = ((e', m', c'), err)"
  shows "err = None \<and> m' = m \<and> plans c' = plans c"
  using restart_same [OF tks_reachable_ok [OF assms(1)] assms(2)] by blast

theorem board_survives_restart_witness:
  "\<exists>e' m' c'. tks_catchUp mem_ops (NewStore (fst (snd small_board))) = ((e', m', c'), None) \<and>
     plans c' ''p'' = plans (snd (snd small_board)) ''p''"
proof -
  obtain e m c where b: "small_board = (e, m, c)" by (cases small_board)
  obtain e' m' c' err where r: "tks_catchUp mem_ops (NewStore m) = ((e', m', c'), err)" by (metis prod.collapse)
  have "tks_reachable (e, m, c)" using small_board_reachable unfolding b .
  from board_survives_restart [OF this r] r show ?thesis unfolding b by simp
qed

end
