(* ===== verification/Stk_Demo.thy ===== *)
theory Stk_Demo
  imports Stk_Board Tks_Properties
begin

text \<open>
  A stack of two chunks, driven over an engine whose runs go on for ever, until the context
  ends after the first admission.  The state of the engine is the list of its runs and the time spent
  waiting.
\<close>

section \<open>The engine\<close>

type_synonym demo_engine = "WfRunSnapshot list \<times> int"

definition demo_run :: "string \<Rightarrow> string \<Rightarrow> string \<Rightarrow> WfRunSnapshot" where
  "demo_run i key status =
     \<lparr>wr_RunID = i, wr_InvocationKey = key, wr_WorkflowName = ''wf'', wr_WorkflowDigest = [], wr_SnapshotDigest = [],
      wr_InputDigest = [], wr_Status = status, wr_ActiveStepID = [], wr_BaseRef = [], wr_BaseCommit = [],
      wr_OriginBaseCommit = [], wr_WorktreeName = [], wr_RemoteURL = [], wr_Version = 0, wr_StartedAt = 0,
      wr_DeadlineAt = None, wr_FinishedAt = None\<rparr>"

definition demo_delivery :: DeliveryRecord where
  "demo_delivery =
     \<lparr>dl_RunID = [], dl_IdempotencyKey = [], dl_Mode = [], dl_BaseRef = [], dl_HeadRef = [], dl_CommitSHA = ''sha'',
      dl_TreeSHA = [], dl_Provider = [], dl_RemoteID = [], dl_URL = [], dl_Status = ''pushed'', dl_ErrorRef = [],
      dl_DiffRef = [], dl_DeferredFiles = [], dl_StackRemainingCommits = 0, dl_UpdatedAt = 0\<rparr>"

definition demo_compiled :: CompiledWorkflow where
  "demo_compiled =
     \<lparr>cw_Name = ''wf'', cw_Version = 1, cw_InitialStep = [], cw_Inputs = [],
      cw_Limits = \<lparr>lm_MaxStepAttempts = 0, lm_MaxDurationSeconds = 0, lm_MaxOnFailureReentries = 0, lm_MaxTransientStepRetries = 0\<rparr>,
      cw_Steps = [], cw_Transitions = [],
      cw_Delivery = Some \<lparr>dy_Kind = ''pull_request'', dy_Mode = ''push'', dy_Provider = [], dy_Base = ''main'',
        dy_TitleTemplate = [], dy_CommitMessageTemplate = [], dy_MaxTitleBytes = 0, dy_MaxCommitMessageBytes = 0,
        dy_OnFailure = [], dy_PRTitlePolicy = [], dy_OnPRMetadataFailure = [], dy_OnDiffSizeFailure = [],
        dy_MaxRepairs = 0, dy_DeliverPlanRun = False\<rparr>,
      cw_Digest = [], cw_Stacking = Some (DefaultStacking [] [] True), cw_StepIDs = [], cw_LoopNames = []\<rparr>"

definition demo_chunk :: "string \<Rightarrow> string list \<Rightarrow> ChunkPlan" where
  "demo_chunk i deps = \<lparr>cp_ID = i, cp_Title = [], cp_Files = [], cp_EstDiffLines = 0, cp_Tests = False, cp_DependsOn = deps\<rparr>"

definition demo_chunks :: "ChunkPlan list" where
  "demo_chunks = [demo_chunk ''b'' [''a''], demo_chunk ''a'' []]"

definition demo_repo :: "demo_engine repo" where
  "demo_repo = \<lparr>
     rp_ClaimRun = \<lambda>_ _ w. (w, None), rp_ReleaseRun = \<lambda>_ _ w. (w, None),
     rp_GetRun = \<lambda>i (rs, n). ((rs, n), case find (\<lambda>r. wr_RunID r = i) rs of None \<Rightarrow> Inl LErrNotFound | Some r \<Rightarrow> Inr r),
     rp_CompareAndSetRunStatus = \<lambda>i v status (rs, n).
       ((map (\<lambda>r. if wr_RunID r = i then r\<lparr>wr_Status := status\<rparr> else r) rs, n), None),
     rp_CreateStepAttempt = \<lambda>_ w. (w, None), rp_GetStepAttempt = \<lambda>_ _ w. (w, Inl LErrNotFound),
     rp_ListStepAttempts = \<lambda>i w. (w, Inr [(new_attempt ''x'' i)\<lparr>at_StepID := DecomposeStepID, at_AttemptNo := 1,
       at_Status := AttemptStatusSucceeded, at_OutputRef := ''o''\<rparr>]),
     rp_CompleteStepAttempt = \<lambda>_ _ _ _ w. (w, None), rp_IncrementLoopCounter = \<lambda>_ _ w. (w, None),
     rp_GetLoopCounters = \<lambda>_ w. (w, Inr []),
     rp_CreateApproval = \<lambda>_ w. (w, None), rp_ResolveApproval = \<lambda>_ _ _ _ _ w. (w, None), rp_ListApprovals = \<lambda>_ w. (w, Inr []),
     rp_StoreContent = \<lambda>_ _ w. (w, None), rp_LoadContent = \<lambda>_ w. (w, Inr ''plan''), rp_CreateRun = \<lambda>_ _ w. (w, None),
     rp_GetRunSnapshot = \<lambda>_ w. (w, Inr ''snapshot''), rp_RecordRunResumed = \<lambda>_ w. (w, None),
     rp_SetStepAttemptExecution = \<lambda>_ _ _ _ _ w. (w, None), rp_CompareAndSetPanelPhase = \<lambda>_ _ _ _ _ w. (w, None)\<rparr>"

definition demo_engine :: "demo_engine stack_env" where
  "demo_engine = \<lparr>
     sx_repo = demo_repo,
     sx_ListRuns = \<lambda>(rs, n). ((rs, n), Inr rs),
     sx_ListDeliveries = \<lambda>_ w. (w, Inr [demo_delivery]),
     sx_Start = \<lambda>req (rs, n). ((rs @ [demo_run (sr_InvocationKey req) (sr_InvocationKey req) WfRunStatusRunning], n),
       Inr (sr_InvocationKey req)),
     sx_Deliver = \<lambda>_ w. (w, None), sx_deliverPendingDirect = \<lambda>_ w. (w, None),
     sx_hasPR = True, sx_probe = \<lambda>_ w. (w, Inr True), sx_hasStore = True,
     sx_StorePlan = \<lambda>_ w. (w, Inl ErrInvalidPlan), sx_CreateTask = \<lambda>_ w. (w, Inl ErrInvalidPlan),
     sx_GetTask = \<lambda>_ _ w. (w, Inl ErrInvalidPlan), sx_ListTasks = \<lambda>_ w. (w, Inr []),
     sx_Transition = \<lambda>_ _ _ w. (w, Inr ()), sx_TransitionCAS = \<lambda>_ _ _ _ w. (w, Inr True),
     sx_CASDecide = \<lambda>_ _ _ _ _ w. (w, Inr (True, [], 0)),
     sx_ctxDone = \<lambda>(rs, n). 1 < length rs, sx_wait = \<lambda>d (rs, n). ((rs, n + d), False), sx_order = \<lambda>w ks. rev ks,
     sx_decodePlan = \<lambda>_. Some \<lparr>pd_StackMode = ''multi'', pd_Chunks = demo_chunks, pd_HasMore = False, pd_RemainingScope = []\<rparr>,
     sx_chunkJSON = \<lambda>c. cp_ID c, sx_filesJSON = concat, sx_snapshotInputs = \<lambda>_. Some [], sx_compile = \<lambda>_. Some demo_compiled\<rparr>"

section \<open>The drive\<close>

definition demo_env :: "(board \<times> demo_engine) stack_env" where
  "demo_env = board_env (\<lambda>_. 1) demo_engine"

definition demo_plan :: Plan where
  "demo_plan = \<lparr>pl_ID = ''s'', pl_Scope = stackScope ''s'', pl_Schema = PlanSchema, pl_PayloadRef = [], pl_CreatedAt = 0\<rparr>"

definition demo_a :: Task where "demo_a = chunk_task ''s'' (demo_chunk ''a'' [])"
definition demo_b :: Task where "demo_b = chunk_task ''s'' (demo_chunk ''b'' [''a''])"

text \<open>The board after each operation of the drive.\<close>

definition board0 :: board where "board0 = NewStore NewMemory"
definition board1 :: board where "board1 = fst (StorePlan mem_ops mem_batch 1 demo_plan board0)"
definition board2 :: board where "board2 = fst (GetTask mem_ops ''s'' ''b'' board1)"
definition board3 :: board where "board3 = fst (CreateTask mem_ops mem_batch 1 demo_b board2)"
definition board4 :: board where "board4 = fst (GetTask mem_ops ''s'' ''a'' board3)"
definition board5 :: board where "board5 = fst (CreateTask mem_ops mem_batch 1 demo_a board4)"
definition board6 :: board where "board6 = fst (ListTasksByScope mem_ops (stackScope ''s'') board5)"
definition board7 :: board where
  "board7 = fst (TransitionTaskCAS mem_ops mem_batch 1 ''s'' ''a'' (Some AdmissiblePreStatuses) StatusRunning board6)"

text \<open>What each operation answers.\<close>

lemma answer1: "snd (StorePlan mem_ops mem_batch 1 demo_plan board0) = Inr ''s''"
  by code_simp

lemma answer2: "snd (GetTask mem_ops ''s'' ''b'' board1) = Inl ErrTaskNotFound"
  by code_simp

lemma answer3: "snd (CreateTask mem_ops mem_batch 1 demo_b board2) = Inr ()"
  by code_simp

lemma answer4: "snd (GetTask mem_ops ''s'' ''a'' board3) = Inl ErrTaskNotFound"
  by code_simp

lemma answer5: "snd (CreateTask mem_ops mem_batch 1 demo_a board4) = Inr ()"
  by code_simp

lemma answer6: "snd (ListTasksByScope mem_ops (stackScope ''s'') board5) = Inr [demo_a, demo_b]"
  by code_simp

lemma answer7: "snd (TransitionTaskCAS mem_ops mem_batch 1 ''s'' ''a'' (Some AdmissiblePreStatuses) StatusRunning board6) = Inr True"
  by code_simp

lemma board_steps:
  "StorePlan mem_ops mem_batch 1 demo_plan board0 = (board1, Inr ''s'')"
  "GetTask mem_ops ''s'' ''b'' board1 = (board2, Inl ErrTaskNotFound)"
  "CreateTask mem_ops mem_batch 1 demo_b board2 = (board3, Inr ())"
  "GetTask mem_ops ''s'' ''a'' board3 = (board4, Inl ErrTaskNotFound)"
  "CreateTask mem_ops mem_batch 1 demo_a board4 = (board5, Inr ())"
  "ListTasksByScope mem_ops (stackScope ''s'') board5 = (board6, Inr [demo_a, demo_b])"
  "TransitionTaskCAS mem_ops mem_batch 1 ''s'' ''a'' (Some AdmissiblePreStatuses) StatusRunning board6 = (board7, Inr True)"
  by (rule prod_eqI; simp only: fst_conv snd_conv answer1 answer2 answer3 answer4 answer5 answer6 answer7;
    (simp only: board1_def board2_def board3_def board4_def board5_def board6_def board7_def)?)+

text \<open>The operations of the environment, and the calculations of the driver, at these arguments.\<close>

lemma demo_ops:
  "sx_StorePlan demo_env demo_plan (board0, r) = ((board1, r), Inr ''s'')"
  "sx_GetTask demo_env ''s'' ''b'' (board1, r) = ((board2, r), Inl ErrTaskNotFound)"
  "sx_CreateTask demo_env demo_b (board2, r) = ((board3, r), Inr ())"
  "sx_GetTask demo_env ''s'' ''a'' (board3, r) = ((board4, r), Inl ErrTaskNotFound)"
  "sx_CreateTask demo_env demo_a (board4, r) = ((board5, r), Inr ())"
  "sx_ListTasks demo_env (stackScope ''s'') (board5, r) = ((board6, r), Inr [demo_a, demo_b])"
  "sx_TransitionCAS demo_env ''s'' ''a'' (Some AdmissiblePreStatuses) StatusRunning (board6, r) = ((board7, r), Inr True)"
  by (simp_all add: demo_env_def board_env_op board_steps)

definition demo_planRun :: WfRunSnapshot where "demo_planRun = demo_run ''s'' [] WfRunStatusDeliveryPending"

definition demo_start :: "board \<times> demo_engine" where
  "demo_start = (board0, ([demo_planRun], 0))"

definition demo_drive :: drive where
  "demo_drive = \<lparr>dv_planRun = demo_planRun, dv_compiled = demo_compiled, dv_stackID = ''s'', dv_chunks = demo_chunks,
     dv_order = [''a'', ''b''], dv_planInputs = [], dv_prBase = ''main''\<rparr>"

definition demo_end :: "board \<times> demo_engine" where
  "demo_end = (board7, ([demo_planRun, demo_run ''s:a'' ''s:a'' WfRunStatusRunning], 0))"

lemma demo_engine_ops:
  "rp_GetRun (sx_repo demo_env) ''s'' (b, ([demo_planRun], n)) = ((b, ([demo_planRun], n)), Inr demo_planRun)"
  "sx_ListRuns demo_env (b, r) = ((b, r), Inr (fst r))"
  "rp_GetRunSnapshot (sx_repo demo_env) i (b, r) = ((b, r), Inr ''snapshot'')"
  "sx_compile demo_env x = Some demo_compiled" "sx_snapshotInputs demo_env x = Some []"
  "sx_hasStore demo_env" "sx_hasPR demo_env"
  "sx_ctxDone demo_env (b, (rs, n)) \<longleftrightarrow> 1 < length rs"
  "sx_Start demo_env req (b, (rs, n)) =
     ((b, (rs @ [demo_run (sr_InvocationKey req) (sr_InvocationKey req) WfRunStatusRunning], n)), Inr (sr_InvocationKey req))"
  "sx_order demo_env (b, r) ks = rev ks"
  by (simp_all add: demo_env_def board_env_def lift_repo_def lift_run_def demo_engine_def demo_repo_def demo_planRun_def
    demo_run_def split: prod.splits)

lemma demo_seed: "SeedStackLedger demo_env ''s'' demo_chunks (board0, r) = ((board5, r), None)"
  using demo_ops [of r]
  by (simp add: SeedStackLedger_def demo_plan_def [symmetric] demo_chunks_def demo_a_def [symmetric] demo_b_def [symmetric])
    (simp add: demo_chunk_def)

lemma demo_key: "AdmissionKey ''s'' ''a'' = Inr ''s:a''" "ChunkPartIndex ''a'' [''a'', ''b''] = Inr 0"
  by code_simp+

lemma demo_tasks:
  "tk_ID demo_a = ''a''" "tk_ID demo_b = ''b''" "tk_Status demo_a = StatusPlanned" "tk_Status demo_b = StatusPlanned"
  "tk_Deps demo_a = []" "tk_Deps demo_b = [''a'']"
  by (simp_all add: demo_a_def demo_b_def chunk_task_def demo_chunk_def)

lemma demo_statuses:
  "\<not> isStackInFlightStatus StatusPlanned" "StatusIsAdmissiblePre StatusPlanned" "StatusPlanned \<noteq> StatusMerged"
  "StatusPlanned \<noteq> StatusPublished" "StatusPlanned \<noteq> StatusImplemented"
  by code_simp+

definition demo_map :: "(string, Task) gomap" where "demo_map = [(''a'', demo_a), (''b'', demo_b)]"

lemma demo_TaskMap: "TaskMap demo_env ''s'' (board5, r) = ((board6, r), Inr demo_map)"
  by (simp add: TaskMap_def demo_ops task_map_def demo_tasks demo_map_def)

lemma demo_no_run: "stackRunByKey demo_env ''s'' ''a'' (b, ([demo_planRun], n)) = ((b, ([demo_planRun], n)), Inr None)"
  by (simp add: stackRunByKey_def demo_key demo_engine_ops demo_planRun_def demo_run_def)

lemma demo_admit:
  "admit_chunk demo_env demo_drive ''a'' (board6, ([demo_planRun], n)) =
     (board7, ([demo_planRun, demo_run ''s:a'' ''s:a'' WfRunStatusRunning], n))"
  by (simp add: admit_chunk_def demo_drive_def demo_no_run demo_key demo_ops demo_engine_ops chunk_request_def)

lemma demo_pass:
  "drive_pass demo_env demo_drive (board5, ([demo_planRun], 0)) = (demo_end, DAgain)"
proof -
  have "nextAdmissionWave demo_map (MergedSet demo_map) [''a'', ''b''] = [''a'']"
    by (simp add: nextAdmissionWave_def demo_map_def MergedSet_def TaskReady_def demo_tasks demo_statuses)
  moreover have "\<not> AllChunksMerged demo_chunks (MergedSet demo_map)"
    by (simp add: AllChunksMerged_def demo_chunks_def demo_map_def MergedSet_def demo_tasks demo_statuses)
  ultimately have "pass_rest demo_env demo_drive demo_map False (board6, ([demo_planRun], 0)) = (demo_end, DAgain)"
    using demo_admit [of 0] by (simp add: pass_rest_def demo_drive_def demo_end_def Let_def)
  moreover have "processSettledChunks demo_env ''s'' demo_map p (board6, r) = ((board6, r), False)" for p r
    by (simp add: processSettledChunks_def demo_engine_ops demo_map_def settle_chunk_def demo_tasks demo_statuses)
  moreover have "markMergedChunks demo_env ''s'' demo_map (board6, r) = ((board6, r), False)" for r
    by (simp add: markMergedChunks_def demo_engine_ops demo_map_def merge_chunk_def demo_tasks demo_statuses)
  moreover have "dv_stackID demo_drive = ''s''" by (simp add: demo_drive_def)
  ultimately show ?thesis by (simp add: drive_pass_def demo_TaskMap reread_def)
qed

lemma demo_output:
  "LoadStackPlanOutput demo_env ''s'' (b, r) = ((b, r), Inr ''plan'')"
  "ParseStackPlanOutput (sx_decodePlan demo_env x) = Inr (''multi'', demo_chunks, False, [])"
  by (simp_all add: LoadStackPlanOutput_def ParseStackPlanOutput_def demo_env_def board_env_def lift_repo_def lift_run_def
    demo_engine_def demo_repo_def)

lemma demo_plan_ops:
  "TopologicalOrder demo_chunks = Inr [''a'', ''b'']" "PRBase (Some demo_compiled) = Inr ''main''" "demo_chunks \<noteq> []"
  "stacks (Some demo_compiled)" "DeliveryActive (Some demo_compiled)"
  by code_simp+

lemma demo_drives: "stackDriveAfterPark 2 demo_env ''s'' demo_start = Some demo_end"
proof -
  have "driveStackLoop 2 demo_env demo_drive stackDrivePollInterval (board5, ([demo_planRun], 0)) = Some demo_end"
    using demo_pass by (simp add: numeral_2_eq_2 demo_engine_ops) (simp add: demo_end_def demo_engine_ops)
  then have "drive_plan 2 demo_env demo_planRun demo_compiled ''s'' demo_chunks False demo_start = Some demo_end"
    by (simp add: drive_plan_def demo_start_def demo_engine_ops demo_seed demo_plan_ops PlanInputs_def demo_drive_def)
  moreover have "wr_Status demo_planRun = WfRunStatusDeliveryPending" "key_owner demo_planRun = None" "wr_RunID demo_planRun = ''s''"
    by (simp_all add: demo_planRun_def demo_run_def key_owner_def Let_def)
  ultimately show ?thesis
    by (simp add: stackDriveAfterPark_def demo_start_def demo_engine_ops isDerivedRun_def compileStackPlanRun_def demo_plan_ops
      demo_output)
qed

end
