(* ===== verification/Stk_Properties.thy ===== *)
theory Stk_Properties
  imports Stk_Demo
begin

text \<open>
  The properties of the stack driver: the order of a plan, its admission keys, what a drive
  does to the chunks of its stack, and the two places where it does not do what it is meant to.
\<close>

section \<open>Plans and keys\<close>

text \<open>
  C34. TopologicalOrder accepts exactly the plans whose chunk identifiers are distinct, whose
  dependencies are chunks of the plan and which have no cycle; the order it returns lists every
  chunk once, and every chunk after the chunks it depends on.
\<close>

theorem topological_order_exact:
  "case TopologicalOrder chunks of
     Inl err \<Rightarrow> \<not> orderable chunks
   | Inr ord \<Rightarrow> orderable chunks \<and> deps_first chunks ord"
  using TopologicalOrder_sound [of chunks] TopologicalOrder_complete [of chunks]
  by (cases "TopologicalOrder chunks") auto

text \<open>
  C35. The admission key of a chunk belongs to no other chunk of any stack, and from a run
  that carries it the driver reads the stack back (a run identifier has no colon).
\<close>

theorem admission_keys_round_trip:
  assumes "AdmissionKey stackID chunkID = Inr key"
  shows "(AdmissionKey stackID' chunkID' = Inr key \<longleftrightarrow> stackID' = stackID \<and> chunkID' = chunkID) \<and>
    (CHR '':'' \<notin> set stackID \<and> wr_InvocationKey run = key \<and> wr_RunID run \<noteq> stackID \<longrightarrow> key_owner run = Some stackID)"
proof -
  have "AdmissionKey stackID' chunkID' = Inr key \<longleftrightarrow> stackID' = stackID \<and> chunkID' = chunkID"
    using assms AdmissionKey_inj by blast
  moreover have k: "key = stackID @ CHR '':'' # chunkID" "stackID \<noteq> []"
    using assms by (auto simp: AdmissionKey_def TrimSpace_def split: if_splits)
  have "key_owner run = Some stackID"
    if "CHR '':'' \<notin> set stackID" "wr_InvocationKey run = key" "wr_RunID run \<noteq> stackID"
    using that k takeWhile_first [of "CHR '':''" stackID chunkID] by (simp add: key_owner_def Let_def)
  ultimately show ?thesis by blast
qed

theorem admission_keys_round_trip_witness:
  "key_owner (demo_run ''r'' ''s:a'' WfRunStatusRunning) = Some ''s'' \<and> AdmissionKey ''s'' ''b'' \<noteq> Inr ''s:a''"
  using admission_keys_round_trip [OF demo_key(1), of "''s''" "''b''" "demo_run ''r'' ''s:a'' WfRunStatusRunning"]
  by (simp add: demo_run_def)

section \<open>The chunks of a stack\<close>

lemma start_good:
  assumes "tks_reachable b" "own_scope s (snd (snd b))"
  shows "board_good s (b, r)"
  using tks_reachable_ok [OF assms(1)] assms(2) by (cases b) (simp add: board_good_def)

text \<open>
  C36. What a drive does to the chunks of its stack, whatever the engine and the run ledger
  answer: it adds planned chunks, and then every change is a step of the stack machine (a
  chunk in flight follows its run, a running chunk is reopened or failed, a chunk is admitted
  when all its dependencies are merged).  So a chunk with a dependency that is not merged stays
  planned or blocked, and a chunk in a terminal status keeps it.
\<close>

theorem driver_moves_chunks_in_order:
  assumes "tks_reachable b" "own_scope s (snd (snd b))" "stack_ordered (board_chunks s (b, r))"
    and "stackDriveAfterPark fuel (board_env now x) s (b, r) = Some w'"
  shows "drives (board_chunks s (b, r)) (board_chunks s w') \<and> stack_ordered (board_chunks s w') \<and>
    (\<forall>i t. board_chunks s (b, r) i = Some t \<and> StatusIsTerminal (tk_Status t) \<longrightarrow> board_chunks s w' i = Some t)"
proof -
  have d: "drives (board_chunks s (b, r)) (board_chunks s w')"
    by (rule stackDriveAfterPark_drives [OF start_good [OF assms(1,2)] assms(4)])
  then obtain T where T: "seeded (board_chunks s (b, r)) T" "chunk_move\<^sup>*\<^sup>* T (board_chunks s w')" by (auto simp: drives_def)
  have "stack_ordered (board_chunks s w')"
    by (rule chunk_moves_ordered [OF T(2) seeded_ordered [OF T(1) assms(3)]])
  moreover have "board_chunks s w' i = Some t" if "board_chunks s (b, r) i = Some t" "StatusIsTerminal (tk_Status t)" for i t
    by (rule chunk_moves_terminal [OF T(2) seeded_keeps [OF T(1) that(1)] that(2)])
  ultimately show ?thesis using d by blast
qed

text \<open>The end of the example: the first chunk runs, and the second waits.\<close>

lemma board7_chunks:
  "map (map_option tk_Status \<circ> board_chunks ''s'' (board7, r)) [''a'', ''b''] = [Some StatusRunning, Some StatusPlanned]"
  by code_simp

lemma board0_start: "tks_reachable board0" "own_scope s (snd (snd board0))" "stack_ordered (board_chunks s (board0, r))"
  by (simp_all add: board0_def NewStore_def own_scope_def stack_ordered_def board_chunks_def plan_chunks_def)

theorem driver_moves_chunks_in_order_witness:
  "stackDriveAfterPark 2 demo_env ''s'' demo_start = Some demo_end \<and> stack_ordered (board_chunks ''s'' demo_end) \<and>
   map (map_option tk_Status \<circ> board_chunks ''s'' demo_end) [''a'', ''b''] = [Some StatusRunning, Some StatusPlanned]"
  using driver_moves_chunks_in_order [OF board0_start, of 2 "\<lambda>_. 1" demo_engine "''s''" "([demo_planRun], 0)" demo_end]
    demo_drives board7_chunks
  by (simp add: demo_start_def demo_env_def demo_end_def)

text \<open>
  C37. A pass of the drive goes on to the integration run only when the task ledger has every
  chunk of the plan merged.
\<close>

theorem integration_waits_for_every_chunk:
  assumes "tks_reachable b" "own_scope (dv_stackID dv) (snd (snd b))"
    and "drive_pass (board_env now x) dv (b, r) = (w', DFinish)"
  shows "\<forall>c \<in> set (dv_chunks dv). merged_in (board_chunks (dv_stackID dv) w') (cp_ID c)"
  using driver.drive_pass_goes [OF start_good [OF assms(1,2)] refl assms(3)] by blast

definition demo_at :: "string \<Rightarrow> board" where
  "demo_at status = tks_run [(1, TcStorePlan demo_plan), (1, TcCreate (demo_a\<lparr>tk_Status := status\<rparr>))] board0"

lemma demo_at_reachable: "tks_reachable (demo_at status)"
  unfolding demo_at_def board0_def by (rule run_reachable)

definition demo_one :: drive where
  "demo_one = demo_drive\<lparr>dv_chunks := [demo_chunk ''a'' []], dv_order := [''a'']\<rparr>"

lemma merged_board:
  "tc_plans (snd (snd (demo_at StatusMerged))) =
     [(''s'', \<lparr>ps_plan = demo_plan, ps_tasks = [(''a'', demo_a\<lparr>tk_Status := StatusMerged\<rparr>)], ps_journal = [], ps_binds = 0\<rparr>)]"
  "snd (ListTasksByScope mem_ops (stackScope ''s'') (demo_at StatusMerged)) = Inr [demo_a\<lparr>tk_Status := StatusMerged\<rparr>]"
  by code_simp+

lemma demo_scope:
  assumes "tc_plans c = [(''s'', st)]" "ps_tasks st = [(''a'', demo_a\<lparr>tk_Status := status\<rparr>)]"
  shows "own_scope ''s'' c"
  using assms by (auto simp: own_scope_def plan_chunks_def demo_tasks split: if_splits)

definition demo_listed :: board where
  "demo_listed = fst (ListTasksByScope mem_ops (stackScope ''s'') (demo_at StatusMerged))"

lemma merged_pass: "drive_pass demo_env demo_one (demo_at StatusMerged, r) = ((demo_listed, r), DFinish)"
proof -
  let ?t = "demo_a\<lparr>tk_Status := StatusMerged\<rparr>" and ?b = demo_listed
  have "ListTasksByScope mem_ops (stackScope ''s'') (demo_at StatusMerged) = (?b, Inr [?t])"
    by (rule prod_eqI) (simp_all add: merged_board(2) demo_listed_def)
  then have "TaskMap demo_env ''s'' (demo_at StatusMerged, r) = ((?b, r), Inr [(''a'', ?t)])"
    by (simp add: TaskMap_def demo_env_def board_env_op task_map_def demo_tasks)
  moreover have "processSettledChunks demo_env ''s'' [(''a'', ?t)] p (?b, r) = ((?b, r), False)" for p
    using status_distinct(1) by (simp add: processSettledChunks_def demo_engine_ops settle_chunk_def)
  moreover have "markMergedChunks demo_env ''s'' [(''a'', ?t)] (?b, r) = ((?b, r), False)"
    by (simp add: markMergedChunks_def demo_engine_ops merge_chunk_def stack_status_defs)
  moreover have "AllChunksMerged [demo_chunk ''a'' []] (MergedSet [(''a'', ?t)])"
    by (simp add: AllChunksMerged_def MergedSet_def demo_chunk_def)
  ultimately show ?thesis
    by (simp add: drive_pass_def demo_one_def demo_drive_def reread_def pass_rest_def Let_def)
qed

theorem integration_waits_for_every_chunk_witness:
  "merged_in (board_chunks ''s'' (fst (drive_pass demo_env demo_one (demo_at StatusMerged, ([], 0))))) ''a''"
proof -
  have s: "dv_stackID demo_one = ''s''" "dv_chunks demo_one = [demo_chunk ''a'' []]" by (simp_all add: demo_one_def demo_drive_def)
  have "own_scope ''s'' (snd (snd (demo_at StatusMerged)))" by (rule demo_scope [OF merged_board(1)]) simp
  then show ?thesis
    using integration_waits_for_every_chunk [OF demo_at_reachable _ merged_pass [unfolded demo_env_def]] s
    by (simp add: merged_pass demo_chunk_def)
qed

text \<open>
  C38. Reopening is bounded: a run that failed reopens its running chunk only while the journal
  has fewer than three reopenings of it, and after that the chunk is failed.
\<close>

theorem reopening_is_bounded:
  assumes "tks_reachable b" "own_scope s (snd (snd b))" "plans (snd (snd b)) s = Some st"
    and "reopenOrFailStackTask (board_env now x) s i (b, r) = (w', True)"
  shows "\<exists>t. map_of (ps_tasks st) i = Some t \<and> tk_Status t = StatusRunning \<and>
    board_chunks s w' = (board_chunks s (b, r))(i \<mapsto> t\<lparr>tk_Status :=
      if reopened_attempts i StatusReopened st < 3 then StatusReopened else StatusFailed\<rparr>)"
proof -
  let ?v = "\<lambda>n. if n + 1 > MaxChunkAttempts then StatusFailed else StatusReopened"
  obtain e m c where b: "b = (e, m, c)" by (cases b)
  have g: "tks_ok (e, m, c)" "own_scope s c" using start_good [OF assms(1,2), of r] b by (simp_all add: board_good_def)
  obtain b' res where d: "TransitionTaskCASDecide mem_ops mem_batch (now r) s i (Some [StatusRunning]) StatusReopened
      (\<lambda>n. Some (?v n)) (e, m, c) = (b', res)"
    by fastforce
  have rv: "reopen_verdict = (\<lambda>n. Some (?v n))" by (simp add: reopen_verdict_def fun_eq_iff)
  have w': "w' = (b', r)" "map_sum id fst res = Inr True"
    using assms(4) d unfolding reopenOrFailStackTask_def rv b
    by (auto simp: board_env_op split: sum.splits)
  obtain n where n: "chunk_result s c i {StatusRunning} (?v n) (b', map_sum id fst res)" "n = reopened_attempts i StatusReopened st"
    using Decide_result [OF g d] assms(3) b by auto
  have "moved_to (plan_chunks (plans c s)) (board_chunks s w') i {StatusRunning} (?v n)"
    using chunk_result_good [OF n(1), of r] w' by simp
  moreover have "?v n = (if reopened_attempts i StatusReopened st < 3 then StatusReopened else StatusFailed)"
    using n(2) by (simp add: MaxChunkAttempts_def)
  ultimately show ?thesis using assms(3) b by (auto simp: moved_to_def board_chunks_def plan_chunks_def)
qed

lemma running_board:
  "tc_plans (snd (snd (demo_at StatusRunning))) =
     [(''s'', \<lparr>ps_plan = demo_plan, ps_tasks = [(''a'', demo_a\<lparr>tk_Status := StatusRunning\<rparr>)], ps_journal = [], ps_binds = 0\<rparr>)]"
  "map_sum id fst (snd (TransitionTaskCASDecide mem_ops mem_batch 1 ''s'' ''a'' (Some [StatusRunning]) StatusReopened reopen_verdict
     (demo_at StatusRunning))) = Inr True"
  by code_simp+

theorem reopening_is_bounded_witness:
  "map_option tk_Status (board_chunks ''s'' (fst (reopenOrFailStackTask demo_env ''s'' ''a'' (demo_at StatusRunning, ([], 0)))) ''a'') =
     Some StatusReopened"
proof -
  let ?b = "demo_at StatusRunning"
  let ?st = "\<lparr>ps_plan = demo_plan, ps_tasks = [(''a'', demo_a\<lparr>tk_Status := StatusRunning\<rparr>)], ps_journal = [], ps_binds = 0\<rparr>"
  have "own_scope ''s'' (snd (snd ?b))" by (rule demo_scope [OF running_board(1)]) simp
  moreover have "plans (snd (snd ?b)) ''s'' = Some ?st" by (simp add: running_board(1))
  moreover have "snd (reopenOrFailStackTask demo_env ''s'' ''a'' (?b, ([], 0)))"
    using running_board(2)
    by (auto simp: reopenOrFailStackTask_def demo_env_def board_env_op split: prod.splits sum.splits)
  then have "reopenOrFailStackTask (board_env (\<lambda>_. 1) demo_engine) ''s'' ''a'' (?b, ([], 0)) =
      (fst (reopenOrFailStackTask demo_env ''s'' ''a'' (?b, ([], 0))), True)"
    by (simp add: demo_env_def prod_eq_iff)
  ultimately obtain t where "board_chunks ''s'' (fst (reopenOrFailStackTask demo_env ''s'' ''a'' (?b, ([], 0)))) ''a'' =
      Some (t\<lparr>tk_Status := if reopened_attempts ''a'' StatusReopened ?st < 3 then StatusReopened else StatusFailed\<rparr>)"
    using reopening_is_bounded [OF demo_at_reachable, of "''s''" StatusRunning ?st] by (metis fun_upd_same)
  then show ?thesis by (simp add: reopened_attempts_def)
qed

section \<open>Where the drive goes wrong\<close>

text \<open>A loop over chunks that are not in flight does nothing.\<close>

lemma for_tasks_idle:
  assumes "\<And>i t. map_of byID i = Some t \<Longrightarrow> f i t w = (w, False)"
  shows "for_tasks f byID ids p w = (w, p)"
  using assms by (induction ids arbitrary: p) (auto split: option.splits)

lemma admitWave_idle:
  assumes "\<forall>i \<in> set wave. \<exists>run. stackRunByKey env (dv_stackID dv) i w = (w, Inr (Some run))"
  shows "admitWave env dv wave w = w"
  using assms by (induction wave) (auto simp: admit_chunk_def)

text \<open>
  C39. A stack with a chunk that waits for its turn although a run with its admission key
  exists (a reopened chunk, whose failed run keeps the key) is not driven any more: when
  nothing else is in flight, every pass finds the same wave, admits none of it, and starts the
  next pass at once, without the wait between passes.  The loop never returns unless the
  context ends, for any number of passes.
\<close>

theorem reopened_chunk_spins:
  assumes "TaskMap env (dv_stackID dv) w = (w, Inr byID)" "\<not> sx_ctxDone env w"
    and "\<And>i t. map_of byID i = Some t \<Longrightarrow> \<not> isStackInFlightStatus (tk_Status t)"
    and "\<not> AllChunksMerged (dv_chunks dv) (MergedSet byID)"
    and "nextAdmissionWave byID (MergedSet byID) (dv_order dv) = wave" "wave \<noteq> []"
    and "\<And>i. i \<in> set wave \<Longrightarrow> \<exists>run. stackRunByKey env (dv_stackID dv) i w = (w, Inr (Some run))"
  shows "drive_pass env dv w = (w, DAgain) \<and> driveStackLoop fuel env dv backoff w = None"
proof -
  have idle: "settle_chunk env (dv_stackID dv) p i t w = (w, False)" "merge_chunk env (dv_stackID dv) i t w = (w, False)"
    if "map_of byID i = Some t" for p i t
    using assms(3) [OF that] by (auto simp: settle_chunk_def merge_chunk_def isStackInFlightStatus_def)
  have "processSettledChunks env (dv_stackID dv) byID p w = (w, False)" for p
    unfolding processSettledChunks_def by (rule for_tasks_idle) (rule idle(1))
  moreover have "markMergedChunks env (dv_stackID dv) byID w = (w, False)"
    unfolding markMergedChunks_def using for_tasks_idle [of byID "merge_chunk env (dv_stackID dv)" w] idle(2) by simp
  moreover have "pass_rest env dv byID False w = (w, DAgain)"
    using assms(4-6) admitWave_idle [of wave env dv w] assms(7) by (simp add: pass_rest_def Let_def)
  ultimately have pass: "drive_pass env dv w = (w, DAgain)"
    by (simp add: drive_pass_def assms(1) reread_def Let_def)
  moreover have "driveStackLoop fuel env dv backoff w = None"
    by (induction fuel arbitrary: backoff) (simp_all add: assms(2) pass)
  ultimately show ?thesis by blast
qed

definition spin_env :: "demo_engine stack_env" where
  "spin_env = demo_engine\<lparr>sx_ListTasks := \<lambda>_ w. (w, Inr [demo_a\<lparr>tk_Status := StatusReopened\<rparr>]), sx_ctxDone := \<lambda>_. False\<rparr>"

definition spin_world :: demo_engine where
  "spin_world = ([demo_run ''s:a'' ''s:a'' WfRunStatusFailed], 0)"

theorem reopened_chunk_spins_witness:
  "driveStackLoop 1000 spin_env demo_one stackDrivePollInterval spin_world = None"
proof -
  let ?byID = "[(''a'', demo_a\<lparr>tk_Status := StatusReopened\<rparr>)]"
  have s: "dv_stackID demo_one = ''s''" "dv_chunks demo_one = [demo_chunk ''a'' []]" "dv_order demo_one = [''a'']"
    by (simp_all add: demo_one_def demo_drive_def)
  have tm: "TaskMap spin_env (dv_stackID demo_one) spin_world = (spin_world, Inr ?byID)"
    by (simp add: TaskMap_def spin_env_def task_map_def demo_tasks)
  have am: "\<not> AllChunksMerged (dv_chunks demo_one) (MergedSet ?byID)"
    using status_distinct(8) by (simp add: s AllChunksMerged_def MergedSet_def)
  have wave: "nextAdmissionWave ?byID (MergedSet ?byID) (dv_order demo_one) = [''a'']"
    using status_distinct(10) by (simp add: s nextAdmissionWave_def TaskReady_def demo_tasks)
  have found: "stackRunByKey spin_env (dv_stackID demo_one) ''a'' spin_world =
      (spin_world, Inr (Some (demo_run ''s:a'' ''s:a'' WfRunStatusFailed)))"
    by (simp add: s stackRunByKey_def demo_key spin_env_def demo_engine_def spin_world_def) (simp add: demo_run_def)
  have fl: "\<not> isStackInFlightStatus StatusReopened" by code_simp
  have "drive_pass spin_env demo_one spin_world = (spin_world, DAgain) \<and>
      driveStackLoop 1000 spin_env demo_one stackDrivePollInterval spin_world = None"
  proof (rule reopened_chunk_spins [OF tm _ _ am wave])
    show "\<not> sx_ctxDone spin_env spin_world" by (simp add: spin_env_def)
    show "\<not> isStackInFlightStatus (tk_Status t)" if "map_of ?byID i = Some t" for i t
      using that fl by (auto split: if_splits)
    show "\<exists>run. stackRunByKey spin_env (dv_stackID demo_one) i spin_world = (spin_world, Inr (Some run))" if "i \<in> set [''a'']" for i
      using that found by auto
  qed simp
  then show ?thesis by blast
qed

section \<open>Whether the drive goes on\<close>

text \<open>What one task says, by its status alone; every other status says nothing.\<close>

lemma progress_verdict_iff:
  "progress_verdict seen t = Some True \<longleftrightarrow>
     tk_Status t \<in> {''running'', ''implemented''} \<or> seen \<and> tk_Status t = ''published''"
  "progress_verdict seen t = Some False \<longleftrightarrow> tk_Status t \<in> {''failed'', ''canceled''}"
  by (auto simp: progress_verdict_def stack_status_defs)

lemma progress_needs_advancing:
  "stackHasProgress byID seen ks \<Longrightarrow> \<exists>t \<in> ran (map_of byID). progress_verdict seen t = Some True"
  by (induction byID seen ks rule: stackHasProgress.induct) (auto simp: ran_def split: option.splits)

lemma stop_needs_reason:
  assumes "\<not> stackHasProgress byID seen ks" "map_of byID i = Some t" "i \<in> set ks" "progress_verdict seen t = Some True"
  shows "\<exists>u \<in> ran (map_of byID). progress_verdict seen u = Some False"
  using assms
proof (induction ks)
  case (Cons k ks)
  show ?case
  proof (cases "Option.bind (map_of byID k) (progress_verdict seen)")
    case None
    then have "\<not> stackHasProgress byID seen ks" "i \<noteq> k" using Cons.prems by (auto split: option.splits bind_splits)
    then show ?thesis using Cons.IH Cons.prems(2-4) by simp
  next
    case (Some v)
    then show ?thesis using Cons.prems(1) by (auto simp: ran_def split: option.splits bind_splits)
  qed
qed simp

text \<open>The orders of a map; any one task can be met first.\<close>

lemma some_order: "\<exists>ks. set ks = dom (map_of byID) \<and> distinct ks"
  by (rule finite_distinct_list [OF finite_dom_map_of])

lemma order_met_first:
  assumes "map_of byID i = Some t"
  obtains ks where "distinct (i # ks)" "set (i # ks) = dom (map_of byID)"
proof -
  obtain ks where ks: "set ks = dom (map_of byID)" "distinct ks" using some_order [of byID] by (elim exE conjE)
  have i: "i \<in> set ks" unfolding ks(1) using assms by (rule domI)
  have "distinct (i # remove1 i ks)" using ks(2) by (simp add: set_remove1_eq)
  moreover have "set (i # remove1 i ks) = dom (map_of byID)"
    using i by (simp add: set_remove1_eq [OF ks(2)] insert_absorb ks(1) [symmetric])
  ultimately show thesis by (rule that)
qed

lemma progress_over_orders:
  assumes orders: "orders = {ks. distinct ks \<and> set ks = dom (map_of byID)}"
  shows "(\<exists>ks \<in> orders. stackHasProgress byID seen ks) \<longleftrightarrow>
      (\<exists>t \<in> ran (map_of byID). progress_verdict seen t = Some True)"
    and "(\<exists>ks \<in> orders. \<not> stackHasProgress byID seen ks) \<longleftrightarrow>
      (\<exists>t \<in> ran (map_of byID). progress_verdict seen t = Some False) \<or>
      \<not> (\<exists>t \<in> ran (map_of byID). progress_verdict seen t = Some True)"
proof -
  have first: "\<exists>ks \<in> orders. stackHasProgress byID seen ks = v"
    if t: "t \<in> ran (map_of byID)" "progress_verdict seen t = Some v" for t v
  proof -
    obtain i where i: "map_of byID i = Some t" using t(1) by (auto simp: ran_def)
    obtain ks where "distinct (i # ks)" "set (i # ks) = dom (map_of byID)" by (rule order_met_first [OF i])
    then have "i # ks \<in> orders" by (simp add: orders)
    moreover have "stackHasProgress byID seen (i # ks) = v" using i t(2) by simp
    ultimately show ?thesis by blast
  qed
  show "(\<exists>ks \<in> orders. stackHasProgress byID seen ks) \<longleftrightarrow> (\<exists>t \<in> ran (map_of byID). progress_verdict seen t = Some True)"
    using first [of _ True] progress_needs_advancing [of byID seen] by blast
  have "\<exists>ks. ks \<in> orders"
    using some_order [of byID] unfolding orders by blast
  moreover have "\<exists>u \<in> ran (map_of byID). progress_verdict seen u = Some False"
    if ks: "ks \<in> orders" "\<not> stackHasProgress byID seen ks" and t: "t \<in> ran (map_of byID)" "progress_verdict seen t = Some True" for ks t
  proof -
    obtain i where i: "map_of byID i = Some t" using t(1) by (auto simp: ran_def)
    then have "i \<in> set ks" using ks(1) unfolding orders by blast
    then show ?thesis by (rule stop_needs_reason [OF ks(2) i _ t(2)])
  qed
  ultimately show "(\<exists>ks \<in> orders. \<not> stackHasProgress byID seen ks) \<longleftrightarrow>
      (\<exists>t \<in> ran (map_of byID). progress_verdict seen t = Some False) \<or>
      \<not> (\<exists>t \<in> ran (map_of byID). progress_verdict seen t = Some True)"
    using first [of _ False] progress_needs_advancing [of byID seen] by blast
qed

text \<open>A choice of two results over a set of orders, and statuses over a set of tasks.\<close>

lemma results_over:
  assumes e: "\<And>ks. v ks = (if f ks then A else B)" and go: "(\<exists>ks \<in> O1. f ks) = adv" "(\<exists>ks \<in> O1. \<not> f ks) = stop"
  shows "{v ks | ks. ks \<in> O1} = (if adv then {A} else {}) \<union> (if stop then {B} else {})"
proof -
  have "{v ks | ks. ks \<in> O1} = (if \<exists>ks \<in> O1. f ks then {A} else {}) \<union> (if \<exists>ks \<in> O1. \<not> f ks then {B} else {})"
    unfolding e by (auto split: if_splits)
  then show ?thesis unfolding go .
qed

lemma some_status:
  "(\<exists>t \<in> R. f t \<in> S \<or> P \<and> f t = x) \<longleftrightarrow> f ` R \<inter> S \<noteq> {} \<or> P \<and> x \<in> f ` R"
  "(\<exists>t \<in> R. f t \<in> S) \<longleftrightarrow> f ` R \<inter> S \<noteq> {}"
  by blast+

text \<open>
  C40. How a drive pass ends, over all the orders in which Go may visit the task map.  It
  finishes when every chunk is merged, and goes again when it admitted a wave.  Otherwise a
  running or implemented task, and a published one when merges can be observed, can keep
  the drive waiting; a failed or canceled task can end it; and when both kinds are present the order of
  the map alone decides.  A task in any other status, queued and reviewed included, decides
  nothing.
\<close>

theorem pass_verdict_over_map_orders:
  "let orders = {ks. distinct ks \<and> set ks = dom (map_of byID)};
       verdicts = {snd (pass_rest (env\<lparr>sx_order := \<lambda>_ _. ks\<rparr>) dv byID progressed w) | ks. ks \<in> orders};
       statuses = tk_Status ` ran (map_of byID);
       advancing = (statuses \<inter> {''running'', ''implemented''} \<noteq> {} \<or> sx_hasPR env \<and> ''published'' \<in> statuses);
       dead = (statuses \<inter> {''failed'', ''canceled''} \<noteq> {})
   in verdicts =
     (if AllChunksMerged (dv_chunks dv) (MergedSet byID) then {DFinish}
      else if nextAdmissionWave byID (MergedSet byID) (dv_order dv) \<noteq> [] then {DAgain}
      else (if advancing then {DWait progressed} else {}) \<union> (if dead \<or> \<not> advancing then {DStop} else {}))"
proof -
  let ?orders = "{ks. distinct ks \<and> set ks = dom (map_of byID)}" and ?st = "tk_Status ` ran (map_of byID)"
  let ?verdict = "\<lambda>ks. snd (pass_rest (env\<lparr>sx_order := \<lambda>_ _. ks\<rparr>) dv byID progressed w)"
  have some: "\<exists>ks. ks \<in> ?orders" using some_order [of byID] by blast
  have adv: "(\<exists>t \<in> ran (map_of byID). progress_verdict (sx_hasPR env) t = Some True) \<longleftrightarrow>
      ?st \<inter> {''running'', ''implemented''} \<noteq> {} \<or> sx_hasPR env \<and> ''published'' \<in> ?st"
    unfolding progress_verdict_iff by (rule some_status(1))
  have dead: "(\<exists>t \<in> ran (map_of byID). progress_verdict (sx_hasPR env) t = Some False) \<longleftrightarrow>
      ?st \<inter> {''failed'', ''canceled''} \<noteq> {}"
    unfolding progress_verdict_iff by (rule some_status(2))
  note go = progress_over_orders [OF refl, of byID "sx_hasPR env", unfolded adv dead]
  consider (finish) "AllChunksMerged (dv_chunks dv) (MergedSet byID)"
    | (again) "\<not> AllChunksMerged (dv_chunks dv) (MergedSet byID)" "nextAdmissionWave byID (MergedSet byID) (dv_order dv) \<noteq> []"
    | (rest) "\<not> AllChunksMerged (dv_chunks dv) (MergedSet byID)" "nextAdmissionWave byID (MergedSet byID) (dv_order dv) = []"
    by blast
  then show ?thesis
  proof cases
    case finish
    then have "?verdict ks = DFinish" for ks by (simp add: pass_rest_def Let_def)
    then show ?thesis using some finish unfolding Let_def by simp
  next
    case again
    then have "?verdict ks = DAgain" for ks by (simp add: pass_rest_def Let_def)
    then show ?thesis using some again unfolding Let_def by simp
  next
    case rest
    then have v: "?verdict ks = (if stackHasProgress byID (sx_hasPR env) ks then DWait progressed else DStop)" for ks
      by (simp add: pass_rest_def Let_def)
    show ?thesis unfolding Let_def results_over [OF v go] using rest by simp
  qed
qed

text \<open>A running chunk beside a failed one: the same pass can stop the drive and keep it waiting.\<close>

theorem pass_verdict_over_map_orders_witness:
  "let byID = [(''a'', demo_a\<lparr>tk_Status := ''running''\<rparr>), (''b'', demo_b\<lparr>tk_Status := ''failed''\<rparr>)]
   in {snd (pass_rest (demo_env\<lparr>sx_order := \<lambda>_ _. ks\<rparr>) demo_one byID False demo_start) | ks.
        distinct ks \<and> set ks = dom (map_of byID)} = {DWait False, DStop}"
proof -
  let ?byID = "[(''a'', demo_a\<lparr>tk_Status := ''running''\<rparr>), (''b'', demo_b\<lparr>tk_Status := ''failed''\<rparr>)]"
  have pass: "\<not> AllChunksMerged (dv_chunks demo_one) (MergedSet ?byID)"
    "nextAdmissionWave ?byID (MergedSet ?byID) (dv_order demo_one) = []"
    by code_simp+
  have "ran (map_of ?byID) = snd ` set ?byID" by (rule ran_distinct) simp
  then have st: "tk_Status ` ran (map_of ?byID) = {''running'', ''failed''}" by simp
  have both: "{''running'', ''failed''} \<inter> {''running'', ''implemented''} = {''running''}"
    "{''running'', ''failed''} \<inter> {''failed'', ''canceled''} = {''failed''}"
    by simp_all
  have two: "{DWait False} \<union> {DStop} = {DWait False, DStop}" by blast
  show ?thesis
    using pass_verdict_over_map_orders [of ?byID demo_env demo_one False demo_start]
    unfolding Let_def st both if_not_P [OF pass(1)] pass(2) by (simp only: insert_not_empty not_True_eq_False
        not_False_eq_True if_True if_False simp_thms two mem_Collect_eq)
qed

end
