(* ===== verification/Spec2Isabelle.thy ===== *)
theory Spec2Isabelle
  imports Storage_Properties Core_Properties Ledger_Properties Wf_Op_Properties Ctl_Properties Stk_Properties
begin

text \<open>
  A model of the durable core of mivia-agent, a Go program that runs coding agents through
  declared workflows and records everything they do in event logs.

  \<^bold>\<open>The parts and how they interact.\<close>  At the bottom is an append-only event store with
  per-run claims (leases).  The ledger core turns it into an event-sourced service: it maps
  store errors, tracks the claims this process holds, hands out sequence numbers and folds the
  events other processes appended into a projection (catch-up).  Three ledgers stand on it:
  the task ledger of the coordinator, the workflow ledger (runs, step attempts, approvals,
  deliveries, loop counters), and the board of plans and tasks a stack of changes is driven by.
  A workflow definition is compiled once, when a run is admitted, and matched against the
  outcome of every attempt.  The controller advances a run one step at a time: it reads the
  run from the workflow ledger, settles what is in flight, chooses a route with the matcher,
  and records the outcome before it acts on it.  The graph of a workflow that stacks is
  extended by the synthesizer before it runs.  When the run that plans a stack parks, the stack
  driver seeds one task per chunk on the board, starts a run for every chunk whose dependencies are
  merged, follows the runs until all chunks are merged, and then starts the integration run.

  \<^bold>\<open>Which theory models what.\<close>  A definition has the name of the Go function or type, with a
  prefix (\<open>mem_\<close>, \<open>eng_\<close>, \<open>trk_\<close>, \<open>wf_\<close>, \<open>tks_\<close>) where a name occurs in several packages.
  A struct is a record whose fields carry a short prefix and the Go field name; a method is a
  function from the state and the arguments to the state and the result.
  \<^item> \<open>Prelude\<close>: Go values in HOL (strings as byte lists, maps, 64-bit words) and shared lemmas.
  \<^item> \<open>Storage_Memory\<close>: src/internal/storage/store.go and memory.go, one definition per method of
    Memory.  \<open>Storage_Laws\<close> holds the step relation, the data invariant and the lease contract;
    \<open>Storage_Properties\<close> the fencing, exclusivity, atomicity and change-probe properties.
  \<^item> \<open>Ledger_Core\<close>, \<open>Ledger_Engine\<close>: src/internal/ledger/core (claims.go, watermark.go, engine.go,
    content.go, errors.go), over an arbitrary store given as the record \<open>store_ops\<close> of its methods.
    \<open>Core_Laws\<close>, \<open>Core_Properties\<close>: fresh sequence numbers, complete and idempotent catch-up,
    fenced appends, content addressing, and the race of Close with a takeover.
  \<^item> \<open>Ledger_Types\<close>, \<open>Ledger_Memory\<close>: src/internal/ledger (types.go, transition.go, memory*.go,
    displayname.go, single_admission.go).  \<open>Ledger_Laws\<close>, \<open>Ledger_Properties\<close>: the task state
    machine, compare-and-set, idempotency keys, the data invariant.
  \<^item> \<open>Wf_Types\<close>, \<open>Wf_Events\<close>, \<open>Wf_Projection\<close>, \<open>Wf_Repository\<close>, \<open>Wf_Records\<close>:
    src/internal/workflows/ledger (types.go, panel_types.go, events.go, projection.go,
    storage*.go, recovery.go): records, payloads, replay, and every repository operation.
    \<open>Wf_Laws\<close>: the replay.  \<open>Wf_Sync\<close>, \<open>Wf_Refine\<close>, \<open>Wf_Ops\<close>, \<open>Wf_Ops_Records\<close>, \<open>Wf_World\<close>: the
    repository refines an abstract machine whose state is the replay of the log and whose steps
    append one allowed event.  \<open>Wf_Reach\<close>, \<open>Wf_History\<close>: reachable worlds, restarts and what one
    allowed event can do.  \<open>Wf_Errors\<close>: failed operations write nothing.  \<open>Wf_Properties\<close>,
    \<open>Wf_Run_Properties\<close>, \<open>Wf_Op_Properties\<close>: the properties.
  \<^item> \<open>Tks_Store\<close>: the plan and task ledger of the same package (tasks_types.go, tasks_events.go,
    tasks_projection.go, store.go).  \<open>Tks_Laws\<close>: event identifiers are injective, catch-up keeps the
    plans, an append is refused without effect or replays to the change already made.
    \<open>Tks_Board\<close>: every command refines a step of an abstract board; restart.  \<open>Tks_Properties\<close>:
    refinement, the journal, two processes that race.
  \<^item> \<open>Wfd_Types\<close>, \<open>Wfd_Validate\<close>, \<open>Wfd_Compile\<close>, \<open>Wfd_Match\<close>: src/internal/workflows/definition
    (types.go, step_defaults.go, every validator, compiler.go, matcher.go).  \<open>Wfd_Graph\<close>: the
    two graph searches are exact.  \<open>Wfd_Laws\<close>, \<open>Wfd_Properties\<close>: matching and admission.
  \<^item> \<open>Wfd_Synthesis\<close>: synthesis.go of the same package, with \<open>Wfd_Synthesis_Laws\<close> and
    \<open>Wfd_Synthesis_Properties\<close>.
  \<^item> \<open>Ctl_Route\<close>, \<open>Ctl_Settle\<close>, \<open>Ctl_Gates\<close>, \<open>Ctl_Advance\<close>, \<open>Ctl_Stacking\<close>:
    src/internal/workflows/controller (linear*.go, agent_step*.go, stacking*.go): routes and loop
    caps, settling, human and evidence gates, one controller step and the loop Run, the check of
    a chunk plan.  The controller sees the ledger as the record \<open>repo\<close> of the methods it calls.
    \<open>Ctl_Laws\<close>, \<open>Ctl_Journal\<close>, \<open>Ctl_Properties\<close>: routes stay in the graph, caps are kept, and a
    step that stops half-way leaves a ledger the next step can go on from.
  \<^item> \<open>Stk_Plan\<close>, \<open>Stk_Driver\<close>: the driver of a stack of changes, src/internal/workflows/delivery
    (stacking_plan.go, stacking_state.go) and src/internal/workflows/localengine (engine_stack.go,
    engine_stack_settle.go): the chunk plan and its order, admission keys, seeding, drive passes,
    admission, settling, the integration run and the delivery gate.  The engine, the run ledger and
    the task ledger are the record \<open>stack_env\<close> of the methods the driver calls.  \<open>Stk_Order\<close>: the
    topological order is exact.  \<open>Stk_Laws\<close>: the abstract machine of a stack, the contract of the
    task ledger, and that a drive keeps to the machine.  \<open>Stk_Board\<close>: the plan and task ledger
    keeps the contract, beside any engine.  \<open>Stk_Demo\<close>, \<open>Stk_Properties\<close>: an example drive and
    the properties.

  \<^bold>\<open>Interfaces.\<close>  \<open>lease_store\<close> and its extension \<open>fenced_lease\<close> are what a claim promises
  (interpreted on Memory as \<open>memlease\<close>); \<open>claim_release\<close> is what the tracker needs to give claims
  back (\<open>memrel\<close>); \<open>simulation\<close> lifts a property of the abstract log machine to sequences of
  repository commands (\<open>wfr\<close>); \<open>worklist\<close> is the contract of a breadth-first search (interpreted on
  the compiler's search and on the synthesizer's); \<open>journal\<close> and \<open>journal_env\<close> say what a controller
  operation may do to the log of durable outcomes it is observed through (interpreted on the
  controller over a ledger that records its calls).
  The board of plans is a second interpretation of \<open>simulation\<close> (\<open>board\<close>).  \<open>stack_board\<close> is what the
  stack driver needs of the task ledger, and that the calls into the engine leave the tasks alone
  (interpreted on the plan and task ledger over Memory, for every engine, as \<open>driver\<close>).

  \<^bold>\<open>Time, concurrency, errors.\<close>  Every method that holds a mutex for its whole body is one atomic
  step.  Where the code catches up first and then takes the run's lock, the two halves are separate
  definitions (suffix \<open>_locked\<close>), so the step of another writer can stand between them; the
  refinement assumes one writer per run log between two catch-ups and the two-writer
  properties drop that assumption.  Clock readings, random names, and the functions sha256 and
  json are arguments; a method that reads the clock once has one argument for it.  An error is a
  value; the text around a wrapped error is kept only as far as errors.Is can see.

  \<^bold>\<open>Bounds and fuel.\<close>  Sequence numbers, versions and fences are 64-bit words; the theorems that
  need them not to wrap say so (\<open>roomy\<close>: fewer than 2^63 events).  The theorems on the cached
  projection of the workflow ledger also bound the commands (\<open>cmd_ok\<close>): an attempt recorded
  with its outcome in one event is clean, with no execution, prompt reference, panel or heartbeat
  and no negative number, because the event has no place for them; a version does not wrap to
  zero; and a panel attempt has an id.  The one caller that records an attempt with its outcome
  (delivery/repair.go) records clean ones.  The three-colour search
  of the compiler and the cycle check of a chunk plan take fuel, and the number of nodes is proved
  enough; the breadth-first searches terminate by the number of unvisited steps.  The controller's
  Run and the loops of the stack driver may go on for ever in the code, so they take fuel and \<open>None\<close>
  means that they have not returned yet; \<open>reopened_chunk_spins\<close> shows a drive that never does.

  \<^bold>\<open>Representation.\<close>  A Go map that is ranged over is an association list with distinct keys, and
  where the order matters it is an argument.  A listing that the code sorts is sorted here; ties
  under sort.Slice do not occur because the keys are distinct.  A nil and an empty slice are the
  same unless the code tells them apart.  The payload of a workflow or task event is the value
  that json.Marshal encodes (valid UTF-8, years 0 to 9999 in UTC; other years are marshal
  errors).  Row ids and change cursors are natural numbers.  A rollback to an index outside a
  slice cannot happen and is a no-op.  ToLower and TrimSpace work on ASCII.

  \<^bold>\<open>Not modelled.\<close>  The SQLite backend (its SQL is run by a driver; the Store contract is modelled
  on Memory), the TOML decoder, prompts and display texts, child processes and panel steps, git
  and forge access, verifier sandboxes, progress events, model providers, terminal and
  command-line interfaces, tools, indexes and configuration: their effects reach the modelled
  code as arguments.  The branch of the controller for disabled panels is left out because the
  constant that guards it is true.  Starting a run, delivering it and probing whether its branch
  merged are arguments of the stack driver.
\<close>

end
